(* ===== verification/Go_Prelude.thy ===== *)
theory Go_Prelude
  imports Main "HOL-Library.Sublist" "HOL-Library.Multiset"
begin

text \<open>
  What the component theories share: error values, the early-return combinator, and the parts of
  the Go standard library that the sources call on strings and paths (packages strings, strconv,
  unicode/utf8, path and path/filepath).  A Go string and a Go []byte are both a list of bytes,
  the type string.
\<close>

named_theorems go_simps \<open>characteristic equations of the Go library functions\<close>

type_synonym bytes = string

section \<open>Errors and early returns\<close>

text \<open>
  One datatype for the error values of the sources.  ErrMsg is an error made by errors.New or
  fmt.Errorf, with its text; the sentinel errors of io, stream, cache and os have constructors of
  their own, because the code compares against them.  ErrTransport is transport.Error: the status
  code, the diagnostics (code, message, printed detail), the raw body and the method and redacted
  URL of the request.  ErrTemporary is a network error that calls itself temporary, ErrDeadlineExceeded the error of a context
  whose deadline has passed, ErrSchema1 the error of pkg/v1/remote for a media type of the old format, ErrURL the
  url.Error in which http.Client wraps an error.  Panic is a run-time panic, such as an index out of range.
\<close>

datatype go_error =
    ErrMsg string
  | ErrBadName string
  | ErrEOF
  | ErrUnexpectedEOF
  | ErrNotExist
  | ErrNotComputed
  | ErrConsumed
  | ErrCacheNotFound
  | ErrTransport int "(string \<times> string \<times> string option) list" bytes "(string \<times> string) option"
  | ErrTemporary string
  | ErrDeadlineExceeded
  | ErrSchema1 string
  | ErrURL go_error
  | Panic string

type_synonym 'a res = "go_error + 'a"

text \<open>The idiom: if err != nil then return err, else go on with the value.\<close>

definition bnd :: "'a res \<Rightarrow> ('a \<Rightarrow> 'b res) \<Rightarrow> 'b res" where
  "bnd r f = (case r of Inl e \<Rightarrow> Inl e | Inr x \<Rightarrow> f x)"

lemma bnd_simps [simp]:
  "bnd (Inl e) f = Inl e"
  "bnd (Inr x) f = f x"
  by (simp_all add: bnd_def)

lemma bnd_eq_Inr [simp]: "bnd r f = Inr y \<longleftrightarrow> (\<exists>x. r = Inr x \<and> f x = Inr y)"
  by (cases r) auto

lemma bnd_eq_Inl: "bnd r f = Inl e \<longleftrightarrow> r = Inl e \<or> (\<exists>x. r = Inr x \<and> f x = Inl e)"
  by (cases r) auto

lemma bnd_Inr_right [simp]: "bnd r Inr = r"
  by (cases r) auto

lemma bnd_assoc: "bnd (bnd r f) g = bnd r (\<lambda>x. bnd (f x) g)"
  by (cases r) auto

lemma bnd_cong [fundef_cong]:
  "r = r' \<Longrightarrow> (\<And>x. r' = Inr x \<Longrightarrow> f x = g x) \<Longrightarrow> bnd r f = bnd r' g"
  by (cases r') auto

definition is_ok :: "'a res \<Rightarrow> bool" where
  "is_ok r = (case r of Inl _ \<Rightarrow> False | Inr _ \<Rightarrow> True)"

lemma is_ok_simps [simp]: "is_ok (Inr x)" "\<not> is_ok (Inl e)"
  by (simp_all add: is_ok_def)

lemma is_ok_iff: "is_ok r \<longleftrightarrow> (\<exists>x. r = Inr x)"
  by (cases r) auto

text \<open>An error with a text in front, as fmt.Errorf makes it; the text of the inner error is left out.\<close>

definition wrap :: "string \<Rightarrow> 'a res \<Rightarrow> 'a res" where
  "wrap msg r = (case r of Inl (Panic p) \<Rightarrow> Inl (Panic p) | Inl _ \<Rightarrow> Inl (ErrMsg msg) | Inr x \<Rightarrow> Inr x)"

text \<open>A loop that appends one result per element and returns at the first error.\<close>

fun map_res :: "('a \<Rightarrow> 'b res) \<Rightarrow> 'a list \<Rightarrow> 'b list res" where
  "map_res f [] = Inr []"
| "map_res f (x # xs) = bnd (f x) (\<lambda>y. bnd (map_res f xs) (\<lambda>ys. Inr (y # ys)))"

lemma map_res_Inr_iff: "map_res f xs = Inr ys \<longleftrightarrow> list_all2 (\<lambda>x y. f x = Inr y) xs ys"
proof (induction xs arbitrary: ys)
  case (Cons x xs)
  then show ?case by (cases ys) auto
qed auto

lemma map_res_length: "map_res f xs = Inr ys \<Longrightarrow> length ys = length xs"
  by (auto simp: map_res_Inr_iff dest: list_all2_lengthD)

lemma map_res_nth: "map_res f xs = Inr ys \<Longrightarrow> i < length xs \<Longrightarrow> f (xs ! i) = Inr (ys ! i)"
  by (auto simp: map_res_Inr_iff dest: list_all2_nthD)

lemma map_res_all_ok: "(\<And>x. x \<in> set xs \<Longrightarrow> f x = Inr (g x)) \<Longrightarrow> map_res f xs = Inr (map g xs)"
  by (induction xs) auto

lemma map_res_set: "map_res f xs = Inr ys \<Longrightarrow> y \<in> set ys \<Longrightarrow> \<exists>x\<in>set xs. f x = Inr y"
  by (induction xs arbitrary: ys) auto

lemma map_res_append:
  "map_res f (xs @ ys) = bnd (map_res f xs) (\<lambda>us. bnd (map_res f ys) (\<lambda>vs. Inr (us @ vs)))"
  by (induction xs) (auto simp: bnd_assoc)

text \<open>Reading a slice: out of range is a panic.\<close>

definition index_res :: "'a list \<Rightarrow> nat \<Rightarrow> 'a res" where
  "index_res xs i = (if i < length xs then Inr (xs ! i) else Inl (Panic ''index out of range''))"

lemma index_res_Inr [simp]: "index_res xs i = Inr x \<longleftrightarrow> i < length xs \<and> x = xs ! i"
  by (auto simp: index_res_def)

section \<open>Package strings\<close>

text \<open>strings.Split with a separator of one byte.\<close>

fun split_on :: "char \<Rightarrow> string \<Rightarrow> string list" where
  "split_on c [] = [[]]"
| "split_on c (x # xs) =
     (if x = c then [] # split_on c xs
      else (case split_on c xs of [] \<Rightarrow> [[x]] | p # ps \<Rightarrow> (x # p) # ps))"

text \<open>strings.Join with a separator of one byte.\<close>

fun join_with :: "char \<Rightarrow> string list \<Rightarrow> string" where
  "join_with c [] = []"
| "join_with c [p] = p"
| "join_with c (p # q # ps) = p @ c # join_with c (q # ps)"

lemma split_on_not_Nil [simp]: "split_on c s \<noteq> []"
  by (cases s) (auto split: list.splits)

lemma join_with_Cons: "ps \<noteq> [] \<Longrightarrow> join_with c (p # ps) = p @ c # join_with c ps"
  by (cases ps) auto

lemma join_split [simp]: "join_with c (split_on c s) = s"
proof (induction s)
  case (Cons x xs)
  obtain p ps where sp: "split_on c xs = p # ps" by (cases "split_on c xs") auto
  show ?case
  proof (cases "x = c")
    case True
    then show ?thesis using Cons.IH by (simp add: join_with_Cons)
  next
    case False
    then show ?thesis using Cons.IH sp by (cases ps) auto
  qed
qed simp

lemma split_on_no_sep: "c \<notin> set s \<Longrightarrow> split_on c s = [s]"
  by (induction s) auto

lemma split_on_parts_free: "p \<in> set (split_on c s) \<Longrightarrow> c \<notin> set p"
proof (induction s arbitrary: p)
  case (Cons x xs)
  obtain q qs where sp: "split_on c xs = q # qs" by (cases "split_on c xs") auto
  from Cons.prems Cons.IH sp show ?case by (auto split: if_splits)
qed simp

lemma split_on_append_sep:
  "c \<notin> set p \<Longrightarrow> split_on c (p @ c # s) = p # split_on c s"
  by (induction p) auto

lemma split_join: "ps \<noteq> [] \<Longrightarrow> (\<And>p. p \<in> set ps \<Longrightarrow> c \<notin> set p) \<Longrightarrow> split_on c (join_with c ps) = ps"
proof (induction ps)
  case (Cons p ps)
  then show ?case
    by (cases "ps = []") (auto simp: join_with_Cons split_on_append_sep split_on_no_sep)
qed simp

lemma length_split_on: "length (split_on c s) = Suc (count_list s c)"
proof (induction s)
  case (Cons x xs)
  obtain q qs where sp: "split_on c xs = q # qs" by (cases "split_on c xs") auto
  with Cons.IH show ?case by auto
qed simp

lemma split_on_append_last:
  "c \<notin> set t \<Longrightarrow> split_on c (s @ c # t) = split_on c s @ [t]"
proof (induction s)
  case Nil
  then show ?case by (simp add: split_on_no_sep)
next
  case (Cons x xs)
  obtain q qs where sp: "split_on c xs = q # qs" by (cases "split_on c xs") auto
  with Cons show ?case by auto
qed

lemma join_with_snoc: "ps \<noteq> [] \<Longrightarrow> join_with c (ps @ [p]) = join_with c ps @ c # p"
proof (induction ps)
  case (Cons q qs)
  then show ?case by (cases "qs = []") (auto simp: join_with_Cons)
qed simp

lemma split_on_pair: "split_on c s = [a, b] \<longleftrightarrow> s = a @ c # b \<and> c \<notin> set a \<and> c \<notin> set b"
proof
  assume sp: "split_on c s = [a, b]"
  then have "s = a @ c # b" by (metis join_split join_with.simps(2,3))
  with sp show "s = a @ c # b \<and> c \<notin> set a \<and> c \<notin> set b" using split_on_parts_free [of _ c s] by simp
next
  assume "s = a @ c # b \<and> c \<notin> set a \<and> c \<notin> set b"
  then show "split_on c s = [a, b]" by (simp add: split_on_append_sep split_on_no_sep)
qed

text \<open>strings.SplitN with a separator of one byte and n = 2.\<close>

definition split_n2 :: "char \<Rightarrow> string \<Rightarrow> string list" where
  "split_n2 c s =
     (case dropWhile (\<lambda>x. x \<noteq> c) s of
        [] \<Rightarrow> [s]
      | _ # rest \<Rightarrow> [takeWhile (\<lambda>x. x \<noteq> c) s, rest])"

lemma dropWhile_ne_append: "c \<notin> set p \<Longrightarrow> dropWhile (\<lambda>x. x \<noteq> c) (p @ c # s) = c # s"
  by (induction p) auto

lemma takeWhile_ne_append: "c \<notin> set p \<Longrightarrow> takeWhile (\<lambda>x. x \<noteq> c) (p @ c # s) = p"
  by (induction p) auto

lemma split_n2_append: "c \<notin> set p \<Longrightarrow> split_n2 c (p @ c # s) = [p, s]"
  by (simp add: split_n2_def dropWhile_ne_append takeWhile_ne_append)

lemma split_n2_none: "c \<notin> set s \<Longrightarrow> split_n2 c s = [s]"
proof -
  assume "c \<notin> set s"
  then have "dropWhile (\<lambda>x. x \<noteq> c) s = []" by (induction s) auto
  then show ?thesis by (simp only: split_n2_def list.case)
qed

text \<open>strings.TrimLeft and strings.Trim with a cutset of ASCII characters.\<close>

definition trim_left :: "string \<Rightarrow> string \<Rightarrow> string" where
  "trim_left s cutset = dropWhile (\<lambda>c. c \<in> set cutset) s"

definition trim :: "string \<Rightarrow> string \<Rightarrow> string" where
  "trim s cutset = rev (trim_left (rev (trim_left s cutset)) cutset)"

lemma trim_left_Nil_iff: "trim_left s cutset = [] \<longleftrightarrow> set s \<subseteq> set cutset"
  by (auto simp: trim_left_def dropWhile_eq_Nil_conv)

text \<open>strings.ToLower on ASCII letters.\<close>

definition lower_char :: "char \<Rightarrow> char" where
  "lower_char c = (if 65 \<le> (of_char c :: nat) \<and> (of_char c :: nat) \<le> 90 then char_of (of_char c + 32 :: nat) else c)"

definition to_lower :: "string \<Rightarrow> string" where
  "to_lower = map lower_char"

section \<open>Decimal text (fmt verb d, strconv.ParseInt in base 10)\<close>

definition digit_char :: "nat \<Rightarrow> char" where
  "digit_char d = char_of (48 + d)"

fun show_nat :: "nat \<Rightarrow> string" where
  "show_nat n = (if n < 10 then [digit_char n] else show_nat (n div 10) @ [digit_char (n mod 10)])"

declare show_nat.simps [simp del]

definition show_int :: "int \<Rightarrow> string" where
  "show_int i = (if i < 0 then CHR ''-'' # show_nat (nat (- i)) else show_nat (nat i))"

definition is_digit :: "char \<Rightarrow> bool" where
  "is_digit c \<longleftrightarrow> 48 \<le> (of_char c :: nat) \<and> (of_char c :: nat) \<le> 57"

definition digit_val :: "char \<Rightarrow> nat" where
  "digit_val c = of_char c - 48"

definition parse_digits :: "string \<Rightarrow> nat" where
  "parse_digits s = foldl (\<lambda>n c. 10 * n + digit_val c) 0 s"

lemma digit_char_props [simp]:
  assumes "d < 10"
  shows "is_digit (digit_char d)" and "digit_val (digit_char d) = d"
  using assms by (auto simp: is_digit_def digit_val_def digit_char_def)

lemma show_nat_digits: "\<forall>c\<in>set (show_nat n). is_digit c"
proof (induction n rule: show_nat.induct)
  case (1 n)
  then show ?case by (subst show_nat.simps) auto
qed

lemma show_nat_not_Nil [simp]: "show_nat n \<noteq> []"
  by (subst show_nat.simps) simp

lemma parse_show_nat [simp]: "parse_digits (show_nat n) = n"
proof (induction n rule: show_nat.induct)
  case (1 n)
  show ?case
  proof (cases "n < 10")
    case True
    then show ?thesis by (subst show_nat.simps) (simp add: parse_digits_def)
  next
    case False
    with 1 show ?thesis by (subst show_nat.simps) (simp add: parse_digits_def)
  qed
qed

lemma show_nat_inj: "show_nat m = show_nat n \<Longrightarrow> m = n"
  by (metis parse_show_nat)

section \<open>Machine integers\<close>

text \<open>An int64: the arithmetic wraps around.\<close>

definition int64 :: "int \<Rightarrow> int" where
  "int64 i = (i + 2 ^ 63) mod 2 ^ 64 - 2 ^ 63"

lemma int64_id: "- (2 ^ 63) \<le> i \<Longrightarrow> i < 2 ^ 63 \<Longrightarrow> int64 i = i"
  by (simp add: int64_def mod_pos_pos_trivial)

lemma int64_range: "- (2 ^ 63) \<le> int64 i" "int64 i < 2 ^ 63"
proof -
  have "0 \<le> (i + 2 ^ 63) mod 2 ^ 64" "(i + 2 ^ 63) mod 2 ^ 64 < (2 ^ 64 :: int)" by simp_all
  moreover have "(2 ^ 64 :: int) = 2 ^ 63 + 2 ^ 63" by simp
  ultimately show "- (2 ^ 63) \<le> int64 i" "int64 i < 2 ^ 63" unfolding int64_def by linarith+
qed

section \<open>Goroutines\<close>

text \<open>
  The goroutines of an errgroup, in the order in which they run: all of them run, the error of the
  group is the first one.
\<close>

fun run_group :: "('a \<Rightarrow> 's \<Rightarrow> go_error option \<times> 's) \<Rightarrow> 'a list \<Rightarrow> 's \<Rightarrow> go_error option \<times> 's" where
  "run_group f [] s = (None, s)"
| "run_group f (x # xs) s =
     (case f x s of
        (None, s1) \<Rightarrow> run_group f xs s1
      | (Some e, s1) \<Rightarrow> (Some e, snd (run_group f xs s1)))"

text \<open>An order in which the goroutines may run.\<close>

definition fair_order :: "('a list \<Rightarrow> 'a list) \<Rightarrow> bool" where
  "fair_order sched \<longleftrightarrow> (\<forall>xs. mset (sched xs) = mset xs)"

end
