(* ===== verification/Go_Utf8.thy ===== *)
theory Go_Utf8
  imports Go_Prelude
begin

text \<open>
  Package unicode/utf8: the runes of a string.  A byte that does not start a valid encoding is one
  rune of width 1, the replacement character U+FFFD, as DecodeRuneInString returns it.
\<close>

definition byte :: "char \<Rightarrow> nat" where
  "byte c = of_char c"

lemma byte_lt: "byte c < 256"
  unfolding byte_def by (cases c) simp

definition is_cont :: "nat \<Rightarrow> bool" where
  "is_cont b \<longleftrightarrow> 128 \<le> b \<and> b \<le> 191"

text \<open>The admissible second bytes after a given first byte of a sequence of three or four.\<close>

definition second_ok :: "nat \<Rightarrow> nat \<Rightarrow> bool" where
  "second_ok b0 b1 =
     (if b0 = 224 then 160 \<le> b1 \<and> b1 \<le> 191
      else if b0 = 237 then 128 \<le> b1 \<and> b1 \<le> 159
      else if b0 = 240 then 144 \<le> b1 \<and> b1 \<le> 191
      else if b0 = 244 then 128 \<le> b1 \<and> b1 \<le> 143
      else is_cont b1)"

definition rune_error :: nat where
  "rune_error = 65533"

text \<open>First rune and its width.\<close>

definition decode_rune :: "nat list \<Rightarrow> nat \<times> nat" where
  "decode_rune bs =
     (case bs of
        [] \<Rightarrow> (rune_error, 0)
      | b0 # r \<Rightarrow>
          if b0 < 128 then (b0, 1)
          else if 194 \<le> b0 \<and> b0 \<le> 223 then
            (case r of b1 # _ \<Rightarrow> if is_cont b1 then ((b0 - 192) * 64 + (b1 - 128), 2) else (rune_error, 1)
             | [] \<Rightarrow> (rune_error, 1))
          else if 224 \<le> b0 \<and> b0 \<le> 239 then
            (case r of b1 # b2 # _ \<Rightarrow>
               if second_ok b0 b1 \<and> is_cont b2
               then ((b0 - 224) * 4096 + (b1 - 128) * 64 + (b2 - 128), 3) else (rune_error, 1)
             | _ \<Rightarrow> (rune_error, 1))
          else if 240 \<le> b0 \<and> b0 \<le> 244 then
            (case r of b1 # b2 # b3 # _ \<Rightarrow>
               if second_ok b0 b1 \<and> is_cont b2 \<and> is_cont b3
               then ((b0 - 240) * 262144 + (b1 - 128) * 4096 + (b2 - 128) * 64 + (b3 - 128), 4)
               else (rune_error, 1)
             | _ \<Rightarrow> (rune_error, 1))
          else (rune_error, 1))"

fun runes_of :: "nat list \<Rightarrow> nat list" where
  "runes_of [] = []"
| "runes_of (b # bs) =
     (case decode_rune (b # bs) of (r, w) \<Rightarrow> r # runes_of (drop (w - 1) bs))"

definition runes :: "string \<Rightarrow> nat list" where
  "runes s = runes_of (map byte s)"

text \<open>utf8.RuneCountInString\<close>

definition rune_count :: "string \<Rightarrow> nat" where
  "rune_count s = length (runes s)"

lemma decode_rune_ascii [simp]: "b < 128 \<Longrightarrow> decode_rune (b # bs) = (b, 1)"
  by (simp add: decode_rune_def)

lemma three_byte_rune:
  assumes "224 \<le> b0" and "second_ok b0 b1"
  shows "128 \<le> (b0 - 224) * 4096 + (b1 - 128) * 64 + (x :: nat)"
proof (cases "b0 = 224")
  case True
  then have "160 \<le> b1" using assms by (simp add: second_ok_def)
  then show ?thesis by linarith
next
  case False
  then have "1 \<le> b0 - 224" using assms by linarith
  then show ?thesis by linarith
qed

lemma four_byte_rune:
  assumes "240 \<le> b0" and "second_ok b0 b1"
  shows "128 \<le> (b0 - 240) * 262144 + (b1 - 128) * 4096 + (x :: nat) + y"
proof (cases "b0 = 240")
  case True
  then have "144 \<le> b1" using assms by (simp add: second_ok_def)
  then show ?thesis by linarith
next
  case False
  then have "1 \<le> b0 - 240" using assms by linarith
  then show ?thesis by linarith
qed

lemma two_byte_rune: "194 \<le> b0 \<Longrightarrow> 128 \<le> (b0 - 192) * 64 + (x :: nat)"
  by linarith

lemma decode_rune_large: "128 \<le> b \<Longrightarrow> 128 \<le> fst (decode_rune (b # bs))"
  using two_byte_rune [of b] three_byte_rune [of b] four_byte_rune [of b]
  by (simp add: decode_rune_def rune_error_def split: list.splits)

lemma decode_rune_small:
  assumes "decode_rune (b # bs) = (r, w)" and "r < 128"
  shows "b = r \<and> w = 1"
proof (cases "b < 128")
  case True
  then show ?thesis using assms(1) by simp
next
  case False
  then have "128 \<le> r" using decode_rune_large [of b bs] assms(1) by simp
  then show ?thesis using assms(2) by simp
qed

lemma runes_of_ascii: "\<forall>b\<in>set bs. b < 128 \<Longrightarrow> runes_of bs = bs"
  by (induction bs) auto

lemma runes_of_all_ascii: "\<forall>r\<in>set (runes_of bs). r < 128 \<Longrightarrow> runes_of bs = bs"
proof (induction bs rule: length_induct)
  case (1 bs)
  show ?case
  proof (cases bs)
    case (Cons b cs)
    obtain r w where d: "decode_rune (b # cs) = (r, w)" by fastforce
    have rs: "runes_of bs = r # runes_of (drop (w - 1) cs)" by (simp add: Cons d)
    then have "r < 128" using "1.prems" by simp
    then have bw: "b = r" "w = 1" using decode_rune_small [OF d] by auto
    from rs bw have eq: "runes_of bs = b # runes_of cs" by simp
    then have "\<forall>r\<in>set (runes_of cs). r < 128" using "1.prems" by simp
    moreover have "length cs < length bs" by (simp add: Cons)
    ultimately have "runes_of cs = cs" using "1.IH" by blast
    then show ?thesis using eq Cons by simp
  qed simp
qed

lemma runes_of_Nil_iff [simp]: "runes_of bs = [] \<longleftrightarrow> bs = []"
  by (cases bs) (auto split: prod.splits)

lemma rune_count_ascii: "\<forall>c\<in>set s. byte c < 128 \<Longrightarrow> rune_count s = length s"
  by (simp add: rune_count_def runes_def runes_of_ascii)

end
