(* ===== verification/Go_Url.thy ===== *)
theory Go_Url
  imports Go_Utf8
begin

text \<open>
  What pkg/name uses of packages net/url, net and regexp: the Host that url.Parse finds in a
  network-path reference, the IPv4 literals of net.ParseIP and substring matches.
\<close>

section \<open>Character classes\<close>

definition is_alpha :: "char \<Rightarrow> bool" where
  "is_alpha c \<longleftrightarrow> (65 \<le> byte c \<and> byte c \<le> 90) \<or> (97 \<le> byte c \<and> byte c \<le> 122)"

definition is_ctl :: "char \<Rightarrow> bool" where
  "is_ctl c \<longleftrightarrow> byte c < 32 \<or> byte c = 127"

text \<open>The ASCII characters that unescape keeps in a host (shouldEscape is false).\<close>

definition host_char :: "char \<Rightarrow> bool" where
  "host_char c \<longleftrightarrow> is_alpha c \<or> is_digit c \<or> c \<in> set ''-_.~!$&()*+,;=:[]<>'' \<or> c = CHR 0x27 \<or> c = CHR 0x22"

definition is_hex_digit :: "char \<Rightarrow> bool" where
  "is_hex_digit c \<longleftrightarrow> is_digit c \<or> (97 \<le> byte c \<and> byte c \<le> 102) \<or> (65 \<le> byte c \<and> byte c \<le> 70)"

definition unhex :: "char \<Rightarrow> nat" where
  "unhex c = (if is_digit c then byte c - 48 else if 97 \<le> byte c then byte c - 87 else byte c - 55)"

section \<open>The host of a network-path reference\<close>

text \<open>unescape in host mode: percent escapes only for non-ASCII bytes and for the percent sign.\<close>

fun unescape_host :: "string \<Rightarrow> string option" where
  "unescape_host [] = Some []"
| "unescape_host (c # s) =
     (if c = CHR ''%'' then
        (case s of
           a # b # r \<Rightarrow>
             if is_hex_digit a \<and> is_hex_digit b \<and> (8 \<le> unhex a \<or> [a, b] = ''25'')
             then map_option (\<lambda>t. char_of (16 * unhex a + unhex b) # t) (unescape_host r)
             else None
         | _ \<Rightarrow> None)
      else if byte c < 128 \<and> \<not> host_char c then None
      else map_option (\<lambda>t. c # t) (unescape_host s))"

definition valid_optional_port :: "string \<Rightarrow> bool" where
  "valid_optional_port p = (case p of [] \<Rightarrow> True | c # ds \<Rightarrow> c = CHR '':'' \<and> list_all is_digit ds)"

text \<open>The text after the last occurrence of a byte; the whole text if there is none.\<close>

definition after_last :: "char \<Rightarrow> string \<Rightarrow> string" where
  "after_last c s = rev (takeWhile (\<lambda>x. x \<noteq> c) (rev s))"

definition parse_host :: "string \<Rightarrow> string option" where
  "parse_host h =
     (if prefix ''['' h then
        (if CHR '']'' \<in> set h \<and> valid_optional_port (after_last (CHR '']'') h) then unescape_host h else None)
      else if CHR '':'' \<in> set h \<and> \<not> list_all is_digit (after_last (CHR '':'') h) then None
      else unescape_host h)"

text \<open>
  The Host that url.Parse returns for two slashes followed by the name, None for an error.  Errors
  in the user information, the path or the fragment are not modelled: a name that has such parts
  never equals the host (url_host_whole), which is all the callers ask.
\<close>

definition url_host :: "string \<Rightarrow> string option" where
  "url_host name =
     (if list_ex is_ctl name then None
      else if prefix ''/'' name then Some ''''
      else parse_host (after_last (CHR ''@'')
             (takeWhile (\<lambda>c. c \<noteq> CHR ''/'') (takeWhile (\<lambda>c. c \<noteq> CHR ''?'') (takeWhile (\<lambda>c. c \<noteq> CHR ''#'') name)))))"

lemma unescape_host_pct:
  assumes "unescape_host (CHR ''%'' # s) = Some t"
  shows "\<exists>a b r u. s = a # b # r \<and> unescape_host r = Some u \<and> length t = Suc (length u)"
proof -
  obtain a b r where s: "s = a # b # r"
    using assms by (cases s; cases "tl s") auto
  then show ?thesis using assms by (auto split: if_splits)
qed

lemma unescape_host_other:
  assumes "unescape_host (c # s) = Some t" and "c \<noteq> CHR ''%''"
  shows "\<exists>u. unescape_host s = Some u \<and> t = c # u"
  using assms by (auto split: if_splits)

declare unescape_host.simps(2) [simp del]

lemma unescape_host_length: "unescape_host s = Some t \<Longrightarrow> length t \<le> length s"
proof (induction s arbitrary: t rule: length_induct)
  case (1 s)
  show ?case
  proof (cases s)
    case Nil
    then show ?thesis using "1.prems" by simp
  next
    case (Cons c s')
    show ?thesis
    proof (cases "c = CHR ''%''")
      case True
      then obtain a b r u where r: "s' = a # b # r" "unescape_host r = Some u" "length t = Suc (length u)"
        using unescape_host_pct "1.prems" Cons by blast
      moreover have "length r < length s" using r Cons by simp
      ultimately have "length u \<le> length r" using "1.IH" by blast
      then show ?thesis using r Cons by simp
    next
      case False
      then obtain u where u: "unescape_host s' = Some u" "t = c # u"
        using unescape_host_other "1.prems" Cons by blast
      moreover have "length s' < length s" using Cons by simp
      ultimately have "length u \<le> length s'" using "1.IH" by blast
      then show ?thesis using u Cons by simp
    qed
  qed
qed

lemma unescape_host_percent:
  assumes "unescape_host s = Some t" and "CHR ''%'' \<in> set s"
  shows "length t < length s"
  using assms
proof (induction s arbitrary: t)
  case (Cons c s)
  show ?case
  proof (cases "c = CHR ''%''")
    case True
    then obtain a b r u where "s = a # b # r" "unescape_host r = Some u" "length t = Suc (length u)"
      using unescape_host_pct Cons.prems(1) by blast
    with unescape_host_length show ?thesis by fastforce
  next
    case False
    then obtain u where u: "unescape_host s = Some u" "t = c # u"
      using unescape_host_other Cons.prems(1) by blast
    have "CHR ''%'' \<in> set s" using Cons.prems(2) False by auto
    then have "length u < length s" by (rule Cons.IH [OF u(1)])
    then show ?thesis using u by simp
  qed
qed simp

text \<open>A host that unescaping leaves as it is.\<close>

lemma unescape_host_plain: "unescape_host s = Some s \<longleftrightarrow> list_all (\<lambda>c. c \<noteq> CHR ''%'' \<and> (128 \<le> byte c \<or> host_char c)) s"
proof (cases "CHR ''%'' \<in> set s")
  case True
  with unescape_host_percent [of s s] show ?thesis by (auto simp: list_all_iff)
next
  case False
  then show ?thesis by (induction s) (auto simp: not_less unescape_host.simps(2))
qed

lemma parse_host_length: "parse_host h = Some t \<Longrightarrow> length t \<le> length h"
  by (auto simp: parse_host_def dest: unescape_host_length split: if_splits)

lemma after_last_length: "length (after_last c s) \<le> length s"
  by (simp add: after_last_def) (metis length_rev length_takeWhile_le)

lemma takeWhile_all: "c \<notin> set s \<Longrightarrow> takeWhile (\<lambda>x. x \<noteq> c) s = s"
  by (induction s) auto

lemma after_last_absent: "c \<notin> set s \<Longrightarrow> after_last c s = s"
proof -
  assume "c \<notin> set s"
  then have "takeWhile (\<lambda>x. x \<noteq> c) (rev s) = rev s" by (intro takeWhile_all) simp
  then show ?thesis by (simp only: after_last_def rev_rev_ident)
qed

lemma length_takeWhile_less_iff: "length (takeWhile P s) < length s \<longleftrightarrow> (\<exists>x\<in>set s. \<not> P x)"
  by (induction s) auto

lemma after_last_less: "c \<in> set s \<Longrightarrow> length (after_last c s) < length s"
proof -
  assume "c \<in> set s"
  then have "length (takeWhile (\<lambda>x. x \<noteq> c) (rev s)) < length (rev s)"
    by (subst length_takeWhile_less_iff) auto
  then show ?thesis by (simp add: after_last_def)
qed

text \<open>
  The host is the whole name exactly for a name without control characters, slash, question mark,
  number sign, at sign and percent sign, of host characters, and with a numeric port.
\<close>

definition host_name_ok :: "string \<Rightarrow> bool" where
  "host_name_ok s \<longleftrightarrow>
     list_all (\<lambda>c. \<not> is_ctl c \<and> c \<notin> set ''/?#@%'' \<and> (128 \<le> byte c \<or> host_char c)) s \<and>
     (if prefix ''['' s then CHR '']'' \<in> set s \<and> valid_optional_port (after_last (CHR '']'') s)
      else CHR '':'' \<in> set s \<longrightarrow> list_all is_digit (after_last (CHR '':'') s))"

lemma parse_host_self:
  "parse_host s = Some s \<longleftrightarrow>
     list_all (\<lambda>c. c \<noteq> CHR ''%'' \<and> (128 \<le> byte c \<or> host_char c)) s \<and>
     (if prefix ''['' s then CHR '']'' \<in> set s \<and> valid_optional_port (after_last (CHR '']'') s)
      else CHR '':'' \<in> set s \<longrightarrow> list_all is_digit (after_last (CHR '':'') s))"
  unfolding parse_host_def unescape_host_plain [symmetric] by auto

lemma url_host_delims:
  assumes "url_host s = Some s" and "c \<in> set ''/?#@''"
  shows "c \<notin> set s"
proof
  assume c: "c \<in> set s"
  let ?a = "takeWhile (\<lambda>c. c \<noteq> CHR ''#'') s"
  let ?b = "takeWhile (\<lambda>c. c \<noteq> CHR ''?'') ?a"
  let ?d = "takeWhile (\<lambda>c. c \<noteq> CHR ''/'') ?b"
  have "s \<noteq> ''''" using c by auto
  then have "parse_host (after_last (CHR ''@'') ?d) = Some s"
    using assms(1) by (auto simp: url_host_def split: if_splits)
  then have "length s \<le> length (after_last (CHR ''@'') ?d)" by (rule parse_host_length)
  then have eqs: "length (after_last (CHR ''@'') ?d) = length ?d" "length ?d = length ?b"
    "length ?b = length ?a" "length ?a = length s"
    using after_last_length [of "CHR ''@''" ?d] length_takeWhile_le [of "\<lambda>c. c \<noteq> CHR ''/''" ?b]
      length_takeWhile_le [of "\<lambda>c. c \<noteq> CHR ''?''" ?a] length_takeWhile_le [of "\<lambda>c. c \<noteq> CHR ''#''" s]
    by linarith+
  have a: "CHR ''#'' \<notin> set s" using eqs(4) length_takeWhile_less_iff [of "\<lambda>c. c \<noteq> CHR ''#''" s] by auto
  then have sa: "?a = s" by (rule takeWhile_all)
  have b: "CHR ''?'' \<notin> set s"
    using eqs(3) length_takeWhile_less_iff [of "\<lambda>c. c \<noteq> CHR ''?''" s] unfolding sa by auto
  then have sb: "?b = s" unfolding sa by (rule takeWhile_all)
  have d: "CHR ''/'' \<notin> set s"
    using eqs(2) length_takeWhile_less_iff [of "\<lambda>c. c \<noteq> CHR ''/''" s] unfolding sb by auto
  then have sd: "?d = s" unfolding sb by (rule takeWhile_all)
  have "CHR ''@'' \<notin> set s" using eqs(1) after_last_less [of "CHR ''@''" s] unfolding sd by auto
  with a b d c assms(2) show False by auto
qed

lemma url_host_whole: "url_host s = Some s \<longleftrightarrow> host_name_ok s"
proof
  assume h: "url_host s = Some s"
  have del: "\<And>c. c \<in> set ''/?#@'' \<Longrightarrow> c \<notin> set s" using url_host_delims [OF h] by blast
  have ph: "parse_host s = Some s"
  proof (cases "s = ''''")
    case True
    then show ?thesis by (simp add: parse_host_def)
  next
    case False
    with h have "parse_host (after_last (CHR ''@'')
             (takeWhile (\<lambda>c. c \<noteq> CHR ''/'') (takeWhile (\<lambda>c. c \<noteq> CHR ''?'') (takeWhile (\<lambda>c. c \<noteq> CHR ''#'') s)))) = Some s"
      by (auto simp: url_host_def split: if_splits)
    then show ?thesis using del by (simp add: takeWhile_all after_last_absent)
  qed
  have ctl: "\<not> list_ex is_ctl s" using h by (auto simp: url_host_def split: if_splits)
  have "list_all (\<lambda>c. \<not> is_ctl c \<and> c \<notin> set ''/?#@%'' \<and> (128 \<le> byte c \<or> host_char c)) s"
    unfolding list_all_iff
  proof
    fix c
    assume c: "c \<in> set s"
    then have "c \<notin> set ''/?#@''" using del by blast
    moreover have "c \<noteq> CHR ''%'' \<and> (128 \<le> byte c \<or> host_char c)"
      using ph c unfolding parse_host_self list_all_iff by blast
    moreover have "\<not> is_ctl c" using ctl c unfolding list_ex_iff by blast
    ultimately show "\<not> is_ctl c \<and> c \<notin> set ''/?#@%'' \<and> (128 \<le> byte c \<or> host_char c)" by simp
  qed
  then show "host_name_ok s"
    using ph unfolding host_name_ok_def parse_host_self by blast
next
  assume h: "host_name_ok s"
  then have "\<And>c. c \<in> set s \<Longrightarrow> c \<notin> set ''/?#@%''" unfolding host_name_ok_def list_all_iff by blast
  then have del: "\<And>c. c \<in> set ''/?#@'' \<Longrightarrow> c \<notin> set s" by fastforce
  have "list_all (\<lambda>c. c \<noteq> CHR ''%'' \<and> (128 \<le> byte c \<or> host_char c)) s"
    using h unfolding host_name_ok_def list_all_iff by auto
  then have "parse_host s = Some s" using h unfolding host_name_ok_def parse_host_self by blast
  moreover have "\<not> list_ex is_ctl s" using h unfolding host_name_ok_def list_all_iff list_ex_iff by blast
  moreover have "prefix ''/'' s \<Longrightarrow> s = ''''" using del [of "CHR ''/''"] by (cases s) auto
  ultimately show "url_host s = Some s"
    using del by (auto simp: url_host_def takeWhile_all after_last_absent)
qed

section \<open>IPv4 literals\<close>

text \<open>
  net.ParseIP on a text without a colon: four decimal fields of at most 255 (leading zeros are
  accepted, as in the Go versions of this repository).
\<close>

definition parse_ipv4 :: "string \<Rightarrow> nat list option" where
  "parse_ipv4 s =
     (let fs = split_on (CHR ''.'') s in
      if length fs = 4 \<and> list_all (\<lambda>f. f \<noteq> '''' \<and> list_all is_digit f \<and> parse_digits f \<le> 255) fs
      then Some (map parse_digits fs) else None)"

text \<open>strings.Contains\<close>

definition contains :: "string \<Rightarrow> string \<Rightarrow> bool" where
  "contains s sub = sublist sub s"

end
