(* ===== verification/Name_Ref.thy ===== *)
theory Name_Ref
  imports Go_Url
begin

text \<open>
  pkg/name: parsing and printing of registry, repository, tag and digest references.  Options are
  functions on the options record, applied in order; a struct that embeds another has it as a
  field.  Errors are ErrBadName with the text of the source.
\<close>

section \<open>options.go\<close>

definition DefaultRegistry :: string where
  "DefaultRegistry = ''index.docker.io''"

definition defaultRegistryAlias :: string where
  "defaultRegistryAlias = ''docker.io''"

definition DefaultTag :: string where
  "DefaultTag = ''latest''"

record name_options =
  strict :: bool
  insecure :: bool
  defaultRegistry :: string
  defaultTag :: string

type_synonym name_option = "name_options \<Rightarrow> name_options"

definition base_options :: name_options where
  "base_options =
     \<lparr>strict = False, insecure = False, defaultRegistry = DefaultRegistry, defaultTag = DefaultTag\<rparr>"

definition makeOptions :: "name_option list \<Rightarrow> name_options" where
  "makeOptions opts = foldl (\<lambda>opt f. f opt) base_options opts"

definition StrictValidation :: name_option where
  "StrictValidation opts = opts\<lparr>strict := True\<rparr>"

definition WeakValidation :: name_option where
  "WeakValidation opts = opts\<lparr>strict := False\<rparr>"

definition Insecure :: name_option where
  "Insecure opts = opts\<lparr>insecure := True\<rparr>"

definition WithDefaultRegistry :: "string \<Rightarrow> name_option" where
  "WithDefaultRegistry r opts = opts\<lparr>defaultRegistry := r\<rparr>"

definition WithDefaultTag :: "string \<Rightarrow> name_option" where
  "WithDefaultTag t opts = opts\<lparr>defaultTag := t\<rparr>"

section \<open>errors.go and check.go\<close>

definition IsErrBadName :: "go_error \<Rightarrow> bool" where
  "IsErrBadName err = (case err of ErrBadName _ \<Rightarrow> True | _ \<Rightarrow> False)"

text \<open>strings.Map with the function that deletes the given runes.\<close>

definition stripRunes :: "string \<Rightarrow> nat list \<Rightarrow> nat list" where
  "stripRunes allowed rs = filter (\<lambda>r. r \<notin> set (runes allowed)) rs"

definition checkElement :: "string \<Rightarrow> string \<Rightarrow> string \<Rightarrow> nat \<Rightarrow> nat \<Rightarrow> unit res" where
  "checkElement name element allowedRunes minRunes maxRunes =
     (let numRunes = rune_count element in
      if numRunes < minRunes \<or> maxRunes < numRunes then
        Inl (ErrBadName (name @ '' must be between '' @ show_nat minRunes @ '' and '' @ show_nat maxRunes @
               '' runes in length: '' @ element))
      else if length (stripRunes allowedRunes (runes element)) \<noteq> 0 then
        Inl (ErrBadName (name @ '' can only contain the runes '' @ [CHR 0x60] @ allowedRunes @ [CHR 0x60] @
               '': '' @ element))
      else Inr ())"

section \<open>registry.go\<close>

record registry =
  reg_insecure :: bool
  reg_registry :: string

definition RegistryStr :: "registry \<Rightarrow> string" where
  "RegistryStr r = reg_registry r"

definition Registry_Name :: "registry \<Rightarrow> string" where
  "Registry_Name r = RegistryStr r"

definition Registry_Scope :: "registry \<Rightarrow> string \<Rightarrow> string" where
  "Registry_Scope r action = ''registry:catalog:*''"

definition in_private_block :: "nat list \<Rightarrow> bool" where
  "in_private_block ip =
     (case ip of
        [a, b, c, d] \<Rightarrow> a = 10 \<or> (a = 172 \<and> 16 \<le> b \<and> b \<le> 31) \<or> (a = 192 \<and> b = 168)
      | _ \<Rightarrow> False)"

definition isRFC1918 :: "registry \<Rightarrow> bool" where
  "isRFC1918 r =
     (case parse_ipv4 (hd (split_on (CHR '':'') (Registry_Name r))) of
        None \<Rightarrow> False
      | Some ip \<Rightarrow> in_private_block ip)"

text \<open>The regular expression reLocal: .local or .localhost, then an optional port of one to five digits.\<close>

definition reLocal :: "string \<Rightarrow> bool" where
  "reLocal s =
     (let ends = (\<lambda>t. suffix ''.local'' t \<or> suffix ''.localhost'' t);
          port = after_last (CHR '':'') s;
          host = take (length s - length port - 1) s
      in ends s \<or>
         (CHR '':'' \<in> set s \<and> 1 \<le> length port \<and> length port \<le> 5 \<and> list_all is_digit port \<and> ends host))"

definition Scheme :: "registry \<Rightarrow> string" where
  "Scheme r =
     (if reg_insecure r then ''http''
      else if isRFC1918 r then ''http''
      else if prefix ''localhost:'' (Registry_Name r) then ''http''
      else if reLocal (Registry_Name r) then ''http''
      else if contains (Registry_Name r) ''127.0.0.1'' then ''http''
      else if contains (Registry_Name r) ''::1'' then ''http''
      else ''https'')"

definition checkRegistry :: "string \<Rightarrow> unit res" where
  "checkRegistry name =
     (if url_host name \<noteq> Some name
      then Inl (ErrBadName (''registries must be valid RFC 3986 URI authorities: '' @ name))
      else Inr ())"

definition NewRegistry :: "string \<Rightarrow> name_option list \<Rightarrow> registry res" where
  "NewRegistry name opts =
     (let opt = makeOptions opts in
      if strict opt \<and> length name = 0 then
        Inl (ErrBadName ''strict validation requires the registry to be explicitly defined'')
      else bnd (checkRegistry name) (\<lambda>_.
        let name1 = (if name = '''' then defaultRegistry opt else name);
            name2 = (if name1 = defaultRegistryAlias then DefaultRegistry else name1)
        in Inr \<lparr>reg_insecure = insecure opt, reg_registry = name2\<rparr>))"

definition NewInsecureRegistry :: "string \<Rightarrow> name_option list \<Rightarrow> registry res" where
  "NewInsecureRegistry name opts = NewRegistry name (opts @ [Insecure])"

section \<open>repository.go\<close>

definition defaultNamespace :: string where
  "defaultNamespace = ''library''"

definition repositoryChars :: string where
  "repositoryChars = ''abcdefghijklmnopqrstuvwxyz0123456789_-./''"

definition regRepoDelimiter :: char where
  "regRepoDelimiter = CHR ''/''"

record repository =
  repo_Registry :: registry
  repo_repository :: string

definition hasImplicitNamespace :: "string \<Rightarrow> registry \<Rightarrow> bool" where
  "hasImplicitNamespace repo reg \<longleftrightarrow> CHR ''/'' \<notin> set repo \<and> RegistryStr reg = DefaultRegistry"

definition RepositoryStr :: "repository \<Rightarrow> string" where
  "RepositoryStr r =
     (if hasImplicitNamespace (repo_repository r) (repo_Registry r)
      then defaultNamespace @ ''/'' @ repo_repository r
      else repo_repository r)"

definition Repository_Name :: "repository \<Rightarrow> string" where
  "Repository_Name r =
     (let regName = Registry_Name (repo_Registry r) in
      if regName \<noteq> '''' then regName @ [regRepoDelimiter] @ RepositoryStr r else RepositoryStr r)"

definition Repository_Scope :: "repository \<Rightarrow> string \<Rightarrow> string" where
  "Repository_Scope r action = ''repository:'' @ RepositoryStr r @ '':'' @ action"

definition checkRepository :: "string \<Rightarrow> unit res" where
  "checkRepository repo = checkElement ''repository'' repo repositoryChars 2 255"

text \<open>The registry part, when there is one, and the repository part of a name.\<close>

definition split_registry :: "string \<Rightarrow> string \<times> string" where
  "split_registry name =
     (case split_n2 regRepoDelimiter name of
        [p, q] \<Rightarrow> (if CHR ''.'' \<in> set p \<or> CHR '':'' \<in> set p then (p, q) else ('''', name))
      | _ \<Rightarrow> ('''', name))"

definition NewRepository :: "string \<Rightarrow> name_option list \<Rightarrow> repository res" where
  "NewRepository name opts =
     (let opt = makeOptions opts in
      if length name = 0 then Inl (ErrBadName ''a repository name must be specified'')
      else case split_registry name of (registry, repo) \<Rightarrow>
        bnd (checkRepository repo) (\<lambda>_.
        bnd (NewRegistry registry opts) (\<lambda>reg.
        if hasImplicitNamespace repo reg \<and> strict opt then
          Inl (ErrBadName ''strict validation requires the full repository path (missing 'library')'')
        else Inr \<lparr>repo_Registry = reg, repo_repository = repo\<rparr>)))"

section \<open>tag.go\<close>

definition tagChars :: string where
  "tagChars = ''abcdefghijklmnopqrstuvwxyz0123456789_-.ABCDEFGHIJKLMNOPQRSTUVWXYZ''"

definition tagDelim :: char where
  "tagDelim = CHR '':''"

record tag =
  tag_Repository :: repository
  tag_tag :: string
  tag_original :: string

definition TagStr :: "tag \<Rightarrow> string" where
  "TagStr t = tag_tag t"

definition Tag_Context :: "tag \<Rightarrow> repository" where
  "Tag_Context t = tag_Repository t"

definition Tag_Identifier :: "tag \<Rightarrow> string" where
  "Tag_Identifier t = TagStr t"

definition Tag_Name :: "tag \<Rightarrow> string" where
  "Tag_Name t = Repository_Name (tag_Repository t) @ [tagDelim] @ TagStr t"

definition Tag_String :: "tag \<Rightarrow> string" where
  "Tag_String t = tag_original t"

definition Tag_Scope :: "tag \<Rightarrow> string \<Rightarrow> string" where
  "Tag_Scope t action = Repository_Scope (tag_Repository t) action"

definition checkTag :: "string \<Rightarrow> unit res" where
  "checkTag name = checkElement ''tag'' name tagChars 1 128"

text \<open>The base and the tag of a name: the tag is what follows the last colon, unless it has a slash.\<close>

definition split_tag :: "string \<Rightarrow> string \<times> string" where
  "split_tag name =
     (let parts = split_on tagDelim name in
      if length parts > 1 \<and> regRepoDelimiter \<notin> set (last parts)
      then (join_with tagDelim (butlast parts), last parts)
      else (name, ''''))"

definition NewTag :: "string \<Rightarrow> name_option list \<Rightarrow> tag res" where
  "NewTag name opts =
     (let opt = makeOptions opts in
      case split_tag name of (base, tg) \<Rightarrow>
        bnd (if tg \<noteq> '''' \<or> strict opt then checkTag tg else Inr ()) (\<lambda>_.
        let tg' = (if tg = '''' then defaultTag opt else tg) in
        bnd (NewRepository base opts) (\<lambda>repo.
        Inr \<lparr>tag_Repository = repo, tag_tag = tg', tag_original = name\<rparr>)))"

section \<open>digest.go\<close>

definition digestChars :: string where
  "digestChars = ''sh:0123456789abcdef''"

definition digestDelim :: char where
  "digestDelim = CHR ''@''"

record digest =
  dig_Repository :: repository
  dig_digest :: string
  dig_original :: string

definition DigestStr :: "digest \<Rightarrow> string" where
  "DigestStr d = dig_digest d"

definition Digest_Context :: "digest \<Rightarrow> repository" where
  "Digest_Context d = dig_Repository d"

definition Digest_Identifier :: "digest \<Rightarrow> string" where
  "Digest_Identifier d = DigestStr d"

definition Digest_Name :: "digest \<Rightarrow> string" where
  "Digest_Name d = Repository_Name (dig_Repository d) @ [digestDelim] @ DigestStr d"

definition Digest_String :: "digest \<Rightarrow> string" where
  "Digest_String d = dig_original d"

definition Digest_Scope :: "digest \<Rightarrow> string \<Rightarrow> string" where
  "Digest_Scope d action = Repository_Scope (dig_Repository d) action"

definition checkDigest :: "string \<Rightarrow> unit res" where
  "checkDigest name = checkElement ''digest'' name digestChars (7 + 64) (7 + 64)"

definition NewDigest :: "string \<Rightarrow> name_option list \<Rightarrow> digest res" where
  "NewDigest name opts =
     (case split_on digestDelim name of
        [base, dg] \<Rightarrow>
          bnd (checkDigest dg) (\<lambda>_.
          let base' = (case NewTag base opts of Inr t \<Rightarrow> Repository_Name (tag_Repository t) | Inl _ \<Rightarrow> base) in
          bnd (NewRepository base' opts) (\<lambda>repo.
          Inr \<lparr>dig_Repository = repo, dig_digest = dg, dig_original = name\<rparr>))
      | _ \<Rightarrow> Inl (ErrBadName (''a digest must contain exactly one '@' separator (e.g. registry/repository@digest) saw: '' @ name)))"

text \<open>repository.go: the references that a repository makes itself.\<close>

definition Repository_Tag :: "repository \<Rightarrow> string \<Rightarrow> tag" where
  "Repository_Tag r identifier =
     (let t = \<lparr>tag_Repository = r, tag_tag = identifier, tag_original = ''''\<rparr> in t\<lparr>tag_original := Tag_Name t\<rparr>)"

definition Repository_Digest :: "repository \<Rightarrow> string \<Rightarrow> digest" where
  "Repository_Digest r identifier =
     (let d = \<lparr>dig_Repository = r, dig_digest = identifier, dig_original = ''''\<rparr> in d\<lparr>dig_original := Digest_Name d\<rparr>)"

section \<open>ref.go\<close>

datatype reference = RefTag tag | RefDigest digest

definition Context :: "reference \<Rightarrow> repository" where
  "Context r = (case r of RefTag t \<Rightarrow> Tag_Context t | RefDigest d \<Rightarrow> Digest_Context d)"

definition Identifier :: "reference \<Rightarrow> string" where
  "Identifier r = (case r of RefTag t \<Rightarrow> Tag_Identifier t | RefDigest d \<Rightarrow> Digest_Identifier d)"

definition Name :: "reference \<Rightarrow> string" where
  "Name r = (case r of RefTag t \<Rightarrow> Tag_Name t | RefDigest d \<Rightarrow> Digest_Name d)"

definition Scope :: "reference \<Rightarrow> string \<Rightarrow> string" where
  "Scope r action = (case r of RefTag t \<Rightarrow> Tag_Scope t action | RefDigest d \<Rightarrow> Digest_Scope d action)"

definition Reference_String :: "reference \<Rightarrow> string" where
  "Reference_String r = (case r of RefTag t \<Rightarrow> Tag_String t | RefDigest d \<Rightarrow> Digest_String d)"

text \<open>
  The text of the last error is passed to Sprintf as a format without operands: it is the text
  below for an input without a percent sign.
\<close>

definition ParseReference :: "string \<Rightarrow> name_option list \<Rightarrow> reference res" where
  "ParseReference s opts =
     (case NewTag s opts of
        Inr t \<Rightarrow> Inr (RefTag t)
      | Inl _ \<Rightarrow>
          (case NewDigest s opts of
             Inr d \<Rightarrow> Inr (RefDigest d)
           | Inl _ \<Rightarrow> Inl (ErrBadName (''could not parse reference: '' @ s))))"

section \<open>Element checks\<close>

lemma byte_inj: "byte a = byte b \<longleftrightarrow> a = b"
  by (simp add: byte_def)

lemma runes_ascii: "\<forall>c\<in>set s. byte c < 128 \<Longrightarrow> runes s = map byte s"
  by (simp add: runes_def runes_of_ascii)

lemma stripRunes_Nil_iff:
  assumes a: "\<forall>c\<in>set allowed. byte c < 128"
  shows "stripRunes allowed (runes e) = [] \<longleftrightarrow> set e \<subseteq> set allowed"
proof
  assume "stripRunes allowed (runes e) = []"
  then have sub: "set (runes e) \<subseteq> byte ` set allowed"
    by (auto simp: stripRunes_def filter_empty_conv runes_ascii [OF a])
  with a have "\<forall>r\<in>set (runes_of (map byte e)). r < 128" by (auto simp: runes_def)
  then have "runes e = map byte e" unfolding runes_def by (rule runes_of_all_ascii)
  with sub show "set e \<subseteq> set allowed" by (auto simp: byte_inj)
next
  assume s: "set e \<subseteq> set allowed"
  with a have "runes e = map byte e" by (intro runes_ascii) blast
  with s show "stripRunes allowed (runes e) = []"
    by (auto simp: stripRunes_def filter_empty_conv runes_ascii [OF a])
qed

lemma checkElement_ok:
  assumes a: "\<forall>c\<in>set allowed. byte c < 128"
  shows "checkElement name e allowed lo hi = Inr () \<longleftrightarrow>
           lo \<le> length e \<and> length e \<le> hi \<and> set e \<subseteq> set allowed"
proof (cases "set e \<subseteq> set allowed")
  case True
  with a have "rune_count e = length e" by (intro rune_count_ascii) blast
  with True show ?thesis by (auto simp: checkElement_def Let_def stripRunes_Nil_iff [OF a] split: if_splits)
next
  case False
  then show ?thesis by (auto simp: checkElement_def Let_def stripRunes_Nil_iff [OF a])
qed

lemma checkRepository_ok: "checkRepository r = Inr () \<longleftrightarrow> 2 \<le> length r \<and> length r \<le> 255 \<and> set r \<subseteq> set repositoryChars"
  unfolding checkRepository_def by (rule checkElement_ok) (simp add: repositoryChars_def byte_def)

lemma checkTag_ok: "checkTag r = Inr () \<longleftrightarrow> 1 \<le> length r \<and> length r \<le> 128 \<and> set r \<subseteq> set tagChars"
  unfolding checkTag_def by (rule checkElement_ok) (simp add: tagChars_def byte_def)

lemma checkDigest_ok: "checkDigest r = Inr () \<longleftrightarrow> length r = 71 \<and> set r \<subseteq> set digestChars"
  unfolding checkDigest_def by (subst checkElement_ok) (auto simp: digestChars_def byte_def)

lemma checkRegistry_ok: "checkRegistry r = Inr () \<longleftrightarrow> host_name_ok r"
  by (simp add: checkRegistry_def url_host_whole)

section \<open>Splitting a name\<close>

lemma chars_facts:
  "CHR ''@'' \<notin> set repositoryChars" "CHR '':'' \<notin> set repositoryChars" "CHR ''/'' \<in> set repositoryChars"
  "CHR ''@'' \<notin> set tagChars" "CHR '':'' \<notin> set tagChars" "CHR ''/'' \<notin> set tagChars"
  "CHR ''@'' \<notin> set digestChars"
  by (simp_all add: repositoryChars_def tagChars_def digestChars_def)

lemma split_registry_cases:
  obtains (host) p q where "name = p @ CHR ''/'' # q" "CHR ''/'' \<notin> set p" "CHR ''.'' \<in> set p \<or> CHR '':'' \<in> set p"
      "split_registry name = (p, q)"
  | (no_host) "split_registry name = ('''', name)"
proof (cases "CHR ''/'' \<in> set name")
  case True
  then obtain p q where pq: "name = p @ CHR ''/'' # q" "CHR ''/'' \<notin> set p" by (meson split_list_first)
  then have "split_n2 regRepoDelimiter name = [p, q]" by (simp add: regRepoDelimiter_def split_n2_append)
  then have "split_registry name = (if CHR ''.'' \<in> set p \<or> CHR '':'' \<in> set p then (p, q) else ('''', name))"
    by (simp add: split_registry_def)
  with pq host no_host show ?thesis by (metis (full_types))
next
  case False
  then have "split_n2 regRepoDelimiter name = [name]" by (simp add: regRepoDelimiter_def split_n2_none)
  then show ?thesis by (intro no_host) (simp add: split_registry_def)
qed

lemma split_registry_host:
  "CHR ''/'' \<notin> set p \<Longrightarrow> CHR ''.'' \<in> set p \<or> CHR '':'' \<in> set p \<Longrightarrow> split_registry (p @ CHR ''/'' # q) = (p, q)"
  by (simp add: split_registry_def regRepoDelimiter_def split_n2_append)

lemma split_tag_tagged:
  "CHR '':'' \<notin> set t \<Longrightarrow> CHR ''/'' \<notin> set t \<Longrightarrow> split_tag (b @ CHR '':'' # t) = (b, t)"
  by (simp add: split_tag_def tagDelim_def regRepoDelimiter_def split_on_append_last)

lemma split_tag_cases:
  obtains (tagged) b t where "name = b @ CHR '':'' # t" "CHR '':'' \<notin> set t" "CHR ''/'' \<notin> set t" "split_tag name = (b, t)"
  | (untagged) "split_tag name = (name, '''')"
proof (cases "CHR '':'' \<in> set name")
  case True
  then obtain b t where bt: "name = b @ CHR '':'' # t" "CHR '':'' \<notin> set t" by (meson split_list_last)
  then have sp: "split_on tagDelim name = split_on tagDelim b @ [t]"
    by (simp add: tagDelim_def split_on_append_last)
  show ?thesis
  proof (cases "CHR ''/'' \<in> set t")
    case True
    with sp show ?thesis by (intro untagged) (simp add: split_tag_def regRepoDelimiter_def)
  next
    case False
    with bt show ?thesis by (intro tagged [of b t]) (auto intro: split_tag_tagged)
  qed
next
  case False
  then show ?thesis by (intro untagged) (simp add: split_tag_def tagDelim_def split_on_no_sep)
qed

lemma takeWhile_ne_pass:
  "c \<notin> set q \<Longrightarrow> d \<noteq> c \<Longrightarrow> takeWhile (\<lambda>x. x \<noteq> c) (q @ d # r) = q @ d # takeWhile (\<lambda>x. x \<noteq> c) r"
  by (induction q) auto

lemma split_tag_slash:
  assumes q: "CHR '':'' \<notin> set q"
  shows "split_tag (p @ CHR ''/'' # q) = (p @ CHR ''/'' # q, '''')"
proof (cases "p @ CHR ''/'' # q" rule: split_tag_cases)
  case (tagged b t)
  have "rev q @ CHR ''/'' # rev p = rev t @ CHR '':'' # rev b"
    using arg_cong [OF tagged(1), of rev] by simp
  moreover have "takeWhile (\<lambda>x. x \<noteq> CHR '':'') (rev t @ CHR '':'' # rev b) = rev t"
    using tagged(2) by (intro takeWhile_ne_append) simp
  moreover have "takeWhile (\<lambda>x. x \<noteq> CHR '':'') (rev q @ CHR ''/'' # rev p) =
      rev q @ CHR ''/'' # takeWhile (\<lambda>x. x \<noteq> CHR '':'') (rev p)"
    using q by (intro takeWhile_ne_pass) simp_all
  ultimately have "CHR ''/'' \<in> set (rev t)" by (metis in_set_conv_decomp)
  with tagged(3) show ?thesis by simp
qed

section \<open>What the constructors accept\<close>

definition good_host :: "string \<Rightarrow> bool" where
  "good_host h \<longleftrightarrow> host_name_ok h \<and> (CHR ''.'' \<in> set h \<or> CHR '':'' \<in> set h) \<and> h \<noteq> defaultRegistryAlias"

definition good_options :: "name_options \<Rightarrow> bool" where
  "good_options opt \<longleftrightarrow>
     (good_host (defaultRegistry opt) \<or> defaultRegistry opt = defaultRegistryAlias) \<and> is_ok (checkTag (defaultTag opt))"

lemma host_no_delims: "host_name_ok h \<Longrightarrow> c \<in> set ''/?#@'' \<Longrightarrow> c \<notin> set h"
  by (rule url_host_delims) (simp_all add: url_host_whole)

lemma good_DefaultRegistry [simp]: "good_host DefaultRegistry"
  by (simp add: good_host_def DefaultRegistry_def defaultRegistryAlias_def host_name_ok_def host_char_def is_alpha_def
      is_ctl_def byte_def)

lemma NewRegistry_ok:
  "NewRegistry name opts = Inr reg \<longleftrightarrow>
     \<not> (strict (makeOptions opts) \<and> name = '''') \<and> host_name_ok name \<and>
     reg = \<lparr>reg_insecure = insecure (makeOptions opts),
            reg_registry = (let n = (if name = '''' then defaultRegistry (makeOptions opts) else name)
                            in if n = defaultRegistryAlias then DefaultRegistry else n)\<rparr>"
  by (auto simp: NewRegistry_def Let_def checkRegistry_ok split: if_splits)

definition wf_repository :: "repository \<Rightarrow> bool" where
  "wf_repository r \<longleftrightarrow> good_host (reg_registry (repo_Registry r)) \<and> is_ok (checkRepository (repo_repository r))"

lemma unit_ok: "is_ok (x :: unit res) \<longleftrightarrow> x = Inr ()"
  by (cases x) auto

lemma NewRepository_ok:
  "NewRepository name opts = Inr r \<longleftrightarrow>
     name \<noteq> '''' \<and>
     (case split_registry name of (reg, repo) \<Rightarrow>
        checkRepository repo = Inr () \<and> NewRegistry reg opts = Inr (repo_Registry r) \<and>
        repo_repository r = repo \<and> \<not> (hasImplicitNamespace repo (repo_Registry r) \<and> strict (makeOptions opts)))"
  by (cases r; cases "split_registry name") (auto simp: NewRepository_def Let_def split: if_splits)

lemma NewRegistry_good:
  assumes "NewRegistry reg opts = Inr r" and "good_options (makeOptions opts)"
    and "reg = '''' \<or> CHR ''.'' \<in> set reg \<or> CHR '':'' \<in> set reg"
  shows "good_host (reg_registry r)"
  using assms good_DefaultRegistry
  by (auto simp: NewRegistry_ok Let_def good_options_def good_host_def)

lemma NewRepository_wf:
  assumes "NewRepository name opts = Inr r" and "good_options (makeOptions opts)"
  shows "wf_repository r"
proof (cases name rule: split_registry_cases)
  case (host p q)
  with assms show ?thesis
    by (auto simp: NewRepository_ok wf_repository_def intro: NewRegistry_good)
next
  case no_host
  with assms show ?thesis
    by (auto simp: NewRepository_ok wf_repository_def intro: NewRegistry_good)
qed

lemma good_host_not_Nil: "good_host h \<Longrightarrow> h \<noteq> ''''"
  by (auto simp: good_host_def)

lemma Repository_Name_good:
  "good_host (reg_registry (repo_Registry r)) \<Longrightarrow>
     Repository_Name r = reg_registry (repo_Registry r) @ CHR ''/'' # RepositoryStr r"
  by (auto simp: Repository_Name_def Registry_Name_def RegistryStr_def regRepoDelimiter_def dest: good_host_not_Nil)

lemma RepositoryStr_check:
  assumes "is_ok (checkRepository (repo_repository r))" and "length (RepositoryStr r) \<le> 255"
  shows "checkRepository (RepositoryStr r) = Inr ()"
  using assms by (auto simp: RepositoryStr_def unit_ok checkRepository_ok defaultNamespace_def repositoryChars_def)

lemma RepositoryStr_explicit: "\<not> hasImplicitNamespace (RepositoryStr r) (repo_Registry r)"
  by (simp add: RepositoryStr_def hasImplicitNamespace_def)

definition canonical :: "repository \<Rightarrow> name_option list \<Rightarrow> repository" where
  "canonical r opts = \<lparr>repo_Registry = \<lparr>reg_insecure = insecure (makeOptions opts), reg_registry = reg_registry (repo_Registry r)\<rparr>,
                       repo_repository = RepositoryStr r\<rparr>"

lemma canonical_Str [simp]: "RepositoryStr (canonical r opts) = RepositoryStr r"
  by (simp add: canonical_def RepositoryStr_def hasImplicitNamespace_def RegistryStr_def)

lemma canonical_Registry [simp]: "reg_registry (repo_Registry (canonical r opts)) = reg_registry (repo_Registry r)"
  by (simp add: canonical_def)

lemma canonical_Name [simp]: "Repository_Name (canonical r opts) = Repository_Name r"
  by (simp add: Repository_Name_def Registry_Name_def RegistryStr_def Let_def)

lemma NewRepository_canonical:
  assumes wf: "wf_repository r" and len: "length (RepositoryStr r) \<le> 255"
  shows "NewRepository (Repository_Name r) opts = Inr (canonical r opts)"
proof -
  let ?h = "reg_registry (repo_Registry r)"
  have h: "good_host ?h" and c: "is_ok (checkRepository (repo_repository r))" using wf by (auto simp: wf_repository_def)
  then have n: "Repository_Name r = ?h @ CHR ''/'' # RepositoryStr r" by (simp add: Repository_Name_good)
  have "CHR ''/'' \<notin> set ?h" using h by (auto simp: good_host_def dest: host_no_delims)
  with h have sp: "split_registry (Repository_Name r) = (?h, RepositoryStr r)"
    unfolding n by (intro split_registry_host) (auto simp: good_host_def)
  have "NewRegistry ?h opts = Inr (repo_Registry (canonical r opts))"
    using h by (auto simp: NewRegistry_ok canonical_def good_host_def Let_def)
  moreover have "\<not> hasImplicitNamespace (RepositoryStr r) (repo_Registry (canonical r opts))"
    by (simp add: canonical_def hasImplicitNamespace_def RepositoryStr_def RegistryStr_def)
  moreover have "repo_repository (canonical r opts) = RepositoryStr r" by (simp add: canonical_def)
  ultimately show ?thesis
    using RepositoryStr_check [OF c len] sp n by (simp add: NewRepository_ok)
qed

lemma NewTag_ok:
  "NewTag name opts = Inr t \<longleftrightarrow>
     (case split_tag name of (base, tg) \<Rightarrow>
        (tg \<noteq> '''' \<or> strict (makeOptions opts) \<longrightarrow> checkTag tg = Inr ()) \<and>
        NewRepository base opts = Inr (tag_Repository t) \<and>
        tag_tag t = (if tg = '''' then defaultTag (makeOptions opts) else tg) \<and> tag_original t = name)"
  by (cases t; cases "split_tag name") (auto simp: NewTag_def Let_def)

lemma checkTag_not_Nil: "checkTag tg = Inr () \<Longrightarrow> tg \<noteq> ''''"
  by (auto simp: checkTag_ok)

lemma NewTag_wf:
  assumes "NewTag name opts = Inr t" and "good_options (makeOptions opts)"
  shows "wf_repository (tag_Repository t) \<and> checkTag (tag_tag t) = Inr ()"
  using assms by (auto simp: NewTag_ok unit_ok good_options_def [of "makeOptions opts"] split: prod.splits if_splits
      intro: NewRepository_wf)

lemma tag_no_delims: "checkTag tg = Inr () \<Longrightarrow> CHR '':'' \<notin> set tg \<and> CHR ''/'' \<notin> set tg \<and> CHR ''@'' \<notin> set tg"
  using chars_facts by (auto simp: checkTag_ok)

lemma NewTag_canonical:
  assumes "wf_repository (tag_Repository t)" and "checkTag (tag_tag t) = Inr ()"
    and "length (RepositoryStr (tag_Repository t)) \<le> 255"
  shows "NewTag (Tag_Name t) opts =
           Inr \<lparr>tag_Repository = canonical (tag_Repository t) opts, tag_tag = tag_tag t, tag_original = Tag_Name t\<rparr>"
proof -
  have "split_tag (Tag_Name t) = (Repository_Name (tag_Repository t), tag_tag t)"
    using tag_no_delims [OF assms(2)] by (simp add: Tag_Name_def tagDelim_def TagStr_def split_tag_tagged)
  with assms checkTag_not_Nil [OF assms(2)] show ?thesis by (simp add: NewTag_ok NewRepository_canonical)
qed
lemma NewRepository_canonical_iff:
  assumes wf: "wf_repository r"
  shows "is_ok (NewRepository (Repository_Name r) opts) \<longleftrightarrow> length (RepositoryStr r) \<le> 255"
proof
  let ?h = "reg_registry (repo_Registry r)"
  have h: "good_host ?h" using wf by (auto simp: wf_repository_def)
  then have n: "Repository_Name r = ?h @ CHR ''/'' # RepositoryStr r" by (simp add: Repository_Name_good)
  have "CHR ''/'' \<notin> set ?h" using h by (auto simp: good_host_def dest: host_no_delims)
  with h have sp: "split_registry (Repository_Name r) = (?h, RepositoryStr r)"
    unfolding n by (intro split_registry_host) (auto simp: good_host_def)
  assume "is_ok (NewRepository (Repository_Name r) opts)"
  with sp show "length (RepositoryStr r) \<le> 255" by (auto simp: is_ok_iff NewRepository_ok checkRepository_ok)
next
  assume "length (RepositoryStr r) \<le> 255"
  with wf show "is_ok (NewRepository (Repository_Name r) opts)" by (simp add: NewRepository_canonical)
qed

section \<open>At signs\<close>

lemma NewRepository_no_at: "NewRepository name opts = Inr r \<Longrightarrow> CHR ''@'' \<notin> set name"
proof (cases name rule: split_registry_cases)
  case (host p q)
  assume "NewRepository name opts = Inr r"
  with host have "host_name_ok p" "set q \<subseteq> set repositoryChars"
    by (auto simp: NewRepository_ok NewRegistry_ok checkRepository_ok)
  with host chars_facts host_no_delims [of p "CHR ''@''"] show ?thesis by auto
next
  case no_host
  assume "NewRepository name opts = Inr r"
  with no_host have "set name \<subseteq> set repositoryChars"
    by (auto simp: NewRepository_ok checkRepository_ok)
  with chars_facts show ?thesis by auto
qed

lemma NewTag_no_at: "NewTag name opts = Inr t \<Longrightarrow> CHR ''@'' \<notin> set name"
proof (cases name rule: split_tag_cases)
  case (tagged b u)
  assume a: "NewTag name opts = Inr t"
  with tagged have "u \<noteq> '''' \<longrightarrow> checkTag u = Inr ()" "CHR ''@'' \<notin> set b"
    by (auto simp: NewTag_ok dest: NewRepository_no_at)
  with tagged tag_no_delims [of u] show ?thesis by (cases "u = ''''") auto
next
  case untagged
  assume "NewTag name opts = Inr t"
  with untagged show ?thesis by (auto simp: NewTag_ok dest: NewRepository_no_at)
qed

definition digest_base :: "string \<Rightarrow> name_option list \<Rightarrow> string" where
  "digest_base base opts = (case NewTag base opts of Inr t \<Rightarrow> Repository_Name (tag_Repository t) | Inl _ \<Rightarrow> base)"

lemma NewDigest_ok:
  "NewDigest name opts = Inr d \<longleftrightarrow>
     (\<exists>base. name = base @ CHR ''@'' # dig_digest d \<and> CHR ''@'' \<notin> set base \<and> checkDigest (dig_digest d) = Inr () \<and>
        NewRepository (digest_base base opts) opts = Inr (dig_Repository d) \<and> dig_original d = name)"
  (is "?l \<longleftrightarrow> ?r")
proof
  assume l: ?l
  then obtain base dg where sp: "split_on digestDelim name = [base, dg]"
    by (auto simp: NewDigest_def split: list.splits)
  with l have "checkDigest dg = Inr ()" "NewRepository (digest_base base opts) opts = Inr (dig_Repository d)"
      "dig_digest d = dg" "dig_original d = name"
    by (auto simp: NewDigest_def Let_def digest_base_def)
  with sp show ?r by (auto simp: split_on_pair digestDelim_def)
next
  assume ?r
  then obtain base where b: "name = base @ CHR ''@'' # dig_digest d" "CHR ''@'' \<notin> set base"
      "checkDigest (dig_digest d) = Inr ()" "NewRepository (digest_base base opts) opts = Inr (dig_Repository d)"
      "dig_original d = name" by blast
  from b(3) chars_facts have "CHR ''@'' \<notin> set (dig_digest d)" by (auto simp: checkDigest_ok)
  with b have "split_on digestDelim name = [base, dig_digest d]" by (simp add: split_on_pair digestDelim_def)
  with b show ?l by (cases d) (auto simp: NewDigest_def Let_def digest_base_def)
qed

lemma NewDigest_wf:
  "NewDigest name opts = Inr d \<Longrightarrow> good_options (makeOptions opts) \<Longrightarrow>
     wf_repository (dig_Repository d) \<and> checkDigest (dig_digest d) = Inr ()"
  by (auto simp: NewDigest_ok intro: NewRepository_wf)

lemma Repository_Name_untagged:
  assumes "wf_repository r"
  shows "split_tag (Repository_Name r) = (Repository_Name r, '''')"
proof -
  have "CHR '':'' \<notin> set (RepositoryStr r)"
    using assms chars_facts
    by (auto simp: wf_repository_def unit_ok checkRepository_ok RepositoryStr_def defaultNamespace_def)
  with assms show ?thesis by (simp add: wf_repository_def Repository_Name_good split_tag_slash)
qed

lemma digest_base_canonical:
  assumes wf: "wf_repository r" and len: "length (RepositoryStr r) \<le> 255"
  shows "digest_base (Repository_Name r) opts = Repository_Name r"
  using assms
  by (auto simp: digest_base_def NewTag_ok Repository_Name_untagged NewRepository_canonical split: sum.splits)
     (metis canonical_Name)+

lemma NewDigest_canonical:
  assumes wf: "wf_repository (dig_Repository d)" and c: "checkDigest (dig_digest d) = Inr ()"
    and len: "length (RepositoryStr (dig_Repository d)) \<le> 255"
  shows "NewDigest (Digest_Name d) opts =
           Inr \<lparr>dig_Repository = canonical (dig_Repository d) opts, dig_digest = dig_digest d, dig_original = Digest_Name d\<rparr>"
proof -
  have "CHR ''@'' \<notin> set (Repository_Name (dig_Repository d))"
    using NewRepository_canonical [OF wf len] by (rule NewRepository_no_at)
  then show ?thesis
    using assms by (auto simp: NewDigest_ok Digest_Name_def digestDelim_def DigestStr_def digest_base_canonical NewRepository_canonical)
qed

section \<open>Strict and weak validation\<close>

lemma makeOptions_snoc [simp]:
  "makeOptions (opts @ [StrictValidation]) = (makeOptions opts)\<lparr>strict := True\<rparr>"
  "makeOptions (opts @ [WeakValidation]) = (makeOptions opts)\<lparr>strict := False\<rparr>"
  by (simp_all add: makeOptions_def StrictValidation_def WeakValidation_def)

lemma NewRegistry_strict_weak:
  "NewRegistry name (opts @ [StrictValidation]) = Inr r \<Longrightarrow> NewRegistry name (opts @ [WeakValidation]) = Inr r"
  by (auto simp: NewRegistry_ok)

lemma NewRepository_strict_weak:
  "NewRepository name (opts @ [StrictValidation]) = Inr r \<Longrightarrow> NewRepository name (opts @ [WeakValidation]) = Inr r"
  by (auto simp: NewRepository_ok split: prod.splits intro: NewRegistry_strict_weak)

lemma NewTag_strict_weak:
  "NewTag name (opts @ [StrictValidation]) = Inr t \<Longrightarrow> NewTag name (opts @ [WeakValidation]) = Inr t"
  using checkTag_not_Nil [of "''''"]
  by (auto simp: NewTag_ok split: prod.splits intro: NewRepository_strict_weak)

lemma strict_repository:
  assumes n: "NewRepository name (opts @ [StrictValidation]) = Inr r"
  shows "split_tag name = (name, '''') \<and> NewRepository (Repository_Name r) (opts @ [WeakValidation]) = Inr r"
proof (cases name rule: split_registry_cases)
  case (host p q)
  with n have q: "checkRepository q = Inr ()" and reg: "NewRegistry p (opts @ [StrictValidation]) = Inr (repo_Registry r)"
    and r: "repo_repository r = q" and imp: "\<not> hasImplicitNamespace q (repo_Registry r)"
    by (auto simp: NewRepository_ok)
  from q chars_facts have "CHR '':'' \<notin> set q" by (auto simp: checkRepository_ok)
  with host have sp: "split_tag name = (name, '''')" by (simp add: split_tag_slash)
  from reg host(3) have "good_host (reg_registry (repo_Registry r))"
    by (auto simp: NewRegistry_ok good_host_def Let_def good_DefaultRegistry [unfolded good_host_def])
  with q r have wf: "wf_repository r" by (simp add: wf_repository_def)
  from imp r have str: "RepositoryStr r = q" by (simp add: RepositoryStr_def)
  have "canonical r (opts @ [WeakValidation]) = r"
    using reg str r by (cases r) (auto simp: canonical_def NewRegistry_ok)
  with NewRepository_canonical [OF wf, of "opts @ [WeakValidation]"] str q sp show ?thesis
    by (simp add: checkRepository_ok)
next
  case no_host
  with n show ?thesis by (auto simp: NewRepository_ok NewRegistry_ok)
qed

lemma NewDigest_strict_weak:
  assumes d: "NewDigest name (opts @ [StrictValidation]) = Inr d"
  shows "NewDigest name (opts @ [WeakValidation]) = Inr d"
proof -
  obtain base where b: "name = base @ CHR ''@'' # dig_digest d" "CHR ''@'' \<notin> set base"
      "checkDigest (dig_digest d) = Inr ()" "dig_original d = name"
    and r: "NewRepository (digest_base base (opts @ [StrictValidation])) (opts @ [StrictValidation]) = Inr (dig_Repository d)"
    using d unfolding NewDigest_ok by blast
  have "NewRepository (digest_base base (opts @ [WeakValidation])) (opts @ [WeakValidation]) = Inr (dig_Repository d)"
  proof (cases "NewTag base (opts @ [StrictValidation])")
    case (Inr t)
    with NewTag_strict_weak [OF Inr] NewRepository_strict_weak [OF r] show ?thesis by (simp add: digest_base_def)
  next
    case (Inl e)
    with r have r': "NewRepository base (opts @ [StrictValidation]) = Inr (dig_Repository d)" by (simp add: digest_base_def)
    have "digest_base base (opts @ [WeakValidation]) \<in> {base, Repository_Name (dig_Repository d)}"
      using strict_repository [OF r'] NewRepository_strict_weak [OF r']
      by (auto simp: digest_base_def NewTag_ok split: sum.splits)
    with strict_repository [OF r'] NewRepository_strict_weak [OF r'] show ?thesis by auto
  qed
  with b show ?thesis unfolding NewDigest_ok by blast
qed

lemma NewDigest_not_NewTag: "NewDigest s opts = Inr d \<Longrightarrow> \<not> is_ok (NewTag s opts')"
  by (auto simp: NewDigest_ok is_ok_iff dest: NewTag_no_at)

lemma ParseReference_ok:
  "ParseReference s opts = Inr r \<longleftrightarrow>
     (case r of RefTag t \<Rightarrow> NewTag s opts = Inr t | RefDigest d \<Rightarrow> NewDigest s opts = Inr d)"
proof (cases "NewTag s opts")
  case (Inl e)
  then show ?thesis by (auto simp: ParseReference_def split: reference.splits sum.splits)
next
  case (Inr t)
  then have "\<not> is_ok (NewDigest s opts)" using NewDigest_not_NewTag [of s opts _ opts] by (auto simp: is_ok_iff)
  with Inr show ?thesis by (auto simp: ParseReference_def is_ok_iff split: reference.splits)
qed

section \<open>The Reference interface\<close>

lemma last_delim_unique:
  fixes c :: char
  assumes "a @ c # i = b @ c # j" and "c \<notin> set i" and "c \<notin> set j"
  shows "a = b \<and> i = j"
proof -
  have "split_on c a @ [i] = split_on c b @ [j]"
    using arg_cong [OF assms(1), of "split_on c"] assms(2,3) by (simp add: split_on_append_last)
  then have "i = j" "join_with c (split_on c a) = join_with c (split_on c b)" by simp_all
  then show ?thesis by simp
qed

locale named_reference =
  fixes ctx :: "'r \<Rightarrow> repository" and ident :: "'r \<Rightarrow> string" and full_name :: "'r \<Rightarrow> string"
    and scope :: "'r \<Rightarrow> string \<Rightarrow> string" and delim :: char and ident_ok :: "string \<Rightarrow> bool"
  assumes full_name: "full_name r = Repository_Name (ctx r) @ delim # ident r"
    and scope: "scope r = Repository_Scope (ctx r)"
    and ident_ok: "ident_ok i \<Longrightarrow> delim \<notin> set i"
begin

lemma name_determines:
  assumes "full_name r = full_name s" and "ident_ok (ident r)" and "ident_ok (ident s)"
  shows "Repository_Name (ctx r) = Repository_Name (ctx s) \<and> ident r = ident s"
  using assms ident_ok by (intro last_delim_unique [where c = delim]) (auto simp: full_name)

lemma scope_of_context: "ctx r = ctx s \<Longrightarrow> scope r = scope s"
  by (simp add: scope)

lemma delim_in_name: "delim \<in> set (full_name r)"
  by (simp add: full_name)

end

interpretation tag_ref: named_reference Tag_Context Tag_Identifier Tag_Name Tag_Scope tagDelim "\<lambda>i. is_ok (checkTag i)"
  by unfold_locales
    (auto simp: Tag_Name_def Tag_Context_def Tag_Identifier_def Tag_Scope_def fun_eq_iff tagDelim_def unit_ok
      dest: tag_no_delims)

interpretation digest_ref: named_reference Digest_Context Digest_Identifier Digest_Name Digest_Scope digestDelim
    "\<lambda>i. is_ok (checkDigest i)"
  using chars_facts
  by unfold_locales
    (auto simp: Digest_Name_def Digest_Context_def Digest_Identifier_def Digest_Scope_def fun_eq_iff digestDelim_def
      unit_ok checkDigest_ok)

section \<open>Properties\<close>

lemma parsed_tag_name_clean:
  assumes "NewTag s opts = Inr t" and "good_options (makeOptions opts)"
  shows "CHR ''@'' \<notin> set (Tag_Name t)"
proof -
  from NewTag_wf [OF assms] have wf: "wf_repository (tag_Repository t)" and c: "checkTag (tag_tag t) = Inr ()" by auto
  from wf have "CHR ''@'' \<notin> set (reg_registry (repo_Registry (tag_Repository t)))"
    by (auto simp: wf_repository_def good_host_def dest: host_no_delims)
  moreover from wf chars_facts have "CHR ''@'' \<notin> set (RepositoryStr (tag_Repository t))"
    by (auto simp: wf_repository_def unit_ok checkRepository_ok RepositoryStr_def defaultNamespace_def)
  ultimately show ?thesis
    using wf tag_no_delims [OF c]
    by (simp add: Tag_Name_def Repository_Name_good wf_repository_def tagDelim_def TagStr_def)
qed

fun is_tag_ref :: "reference \<Rightarrow> bool" where
  "is_tag_ref (RefTag t) = True"
| "is_tag_ref (RefDigest d) = False"

text \<open>
  C21. The full name identifies a parsed reference: if two inputs, under options whose default
  registry and default tag are well formed, give references with the same Name, these are of the
  same kind, their contexts have the same repository name and their identifiers agree.
\<close>

theorem ParseReference_unambiguous:
  assumes "ParseReference s1 opts1 = Inr r1" and "ParseReference s2 opts2 = Inr r2"
    and "good_options (makeOptions opts1)" and "good_options (makeOptions opts2)"
    and "Name r1 = Name r2"
  shows "Repository_Name (Context r1) = Repository_Name (Context r2) \<and> Identifier r1 = Identifier r2 \<and>
         (is_tag_ref r1 \<longleftrightarrow> is_tag_ref r2)"
proof (cases r1)
  case (RefTag t1)
  note one = this
  with assms have t1: "NewTag s1 opts1 = Inr t1" by (simp add: ParseReference_ok)
  show ?thesis
  proof (cases r2)
    case (RefTag t2)
    with assms have "NewTag s2 opts2 = Inr t2" by (simp add: ParseReference_ok)
    with one RefTag t1 assms NewTag_wf tag_ref.name_determines [of t1 t2] show ?thesis
      by (simp add: Context_def Identifier_def Name_def Tag_Identifier_def TagStr_def)
  next
    case (RefDigest d2)
    with one assms(5) digest_ref.delim_in_name [of d2] parsed_tag_name_clean [OF t1 assms(3)] show ?thesis
      by (simp add: Name_def digestDelim_def)
  qed
next
  case (RefDigest d1)
  note one = this
  with assms have d1: "NewDigest s1 opts1 = Inr d1" by (simp add: ParseReference_ok)
  show ?thesis
  proof (cases r2)
    case (RefTag t2)
    with assms have "NewTag s2 opts2 = Inr t2" by (simp add: ParseReference_ok)
    from parsed_tag_name_clean [OF this assms(4)] one RefTag assms(5) digest_ref.delim_in_name [of d1] show ?thesis
      by (simp add: Name_def digestDelim_def)
  next
    case (RefDigest d2)
    with assms have "NewDigest s2 opts2 = Inr d2" by (simp add: ParseReference_ok)
    with one RefDigest d1 assms NewDigest_wf digest_ref.name_determines [of d1 d2] show ?thesis
      by (simp add: Context_def Identifier_def Name_def Digest_Identifier_def DigestStr_def)
  qed
qed

lemma parse_ubuntu:
  "ParseReference ''ubuntu'' [] =
     Inr (RefTag \<lparr>tag_Repository = \<lparr>repo_Registry = \<lparr>reg_insecure = False, reg_registry = ''index.docker.io''\<rparr>,
                                     repo_repository = ''ubuntu''\<rparr>,
                  tag_tag = ''latest'', tag_original = ''ubuntu''\<rparr>)"
  by code_simp

lemma parse_library_ubuntu:
  "ParseReference ''docker.io/library/ubuntu:latest'' [] =
     Inr (RefTag \<lparr>tag_Repository = \<lparr>repo_Registry = \<lparr>reg_insecure = False, reg_registry = ''index.docker.io''\<rparr>,
                                     repo_repository = ''library/ubuntu''\<rparr>,
                  tag_tag = ''latest'', tag_original = ''docker.io/library/ubuntu:latest''\<rparr>)"
  by code_simp

lemma good_default_options: "good_options (makeOptions [])"
  by (simp add: good_options_def makeOptions_def base_options_def unit_ok checkTag_ok DefaultTag_def tagChars_def)

theorem ParseReference_unambiguous_witness:
  "\<exists>r1 r2. ParseReference ''ubuntu'' [] = Inr r1 \<and> ParseReference ''docker.io/library/ubuntu:latest'' [] = Inr r2 \<and>
     r1 \<noteq> r2 \<and> Repository_Name (Context r1) = Repository_Name (Context r2) \<and> Identifier r1 = Identifier r2 \<and>
     (is_tag_ref r1 \<longleftrightarrow> is_tag_ref r2)"
  using ParseReference_unambiguous [OF parse_ubuntu parse_library_ubuntu good_default_options good_default_options]
    parse_ubuntu parse_library_ubuntu
  by (auto simp: Name_def Tag_Name_def Repository_Name_def Registry_Name_def RegistryStr_def RepositoryStr_def
      hasImplicitNamespace_def DefaultRegistry_def defaultNamespace_def regRepoDelimiter_def TagStr_def Let_def)

lemma ParseReference_too_long:
  assumes "ParseReference s opts = Inr r" and "good_options (makeOptions opts)" and "255 < length (RepositoryStr (Context r))"
  shows "\<not> is_ok (ParseReference (Name r) opts')"
proof (cases r)
  case (RefTag t)
  with assms have t: "NewTag s opts = Inr t" by (simp add: ParseReference_ok)
  with NewTag_wf assms have wf: "wf_repository (tag_Repository t)" and c: "checkTag (tag_tag t) = Inr ()" by auto
  have "split_tag (Tag_Name t) = (Repository_Name (tag_Repository t), tag_tag t)"
    using tag_no_delims [OF c] by (simp add: Tag_Name_def tagDelim_def TagStr_def split_tag_tagged)
  with NewRepository_canonical_iff [OF wf] assms RefTag have "\<not> is_ok (NewTag (Tag_Name t) opts')"
    by (auto simp: is_ok_iff NewTag_ok Context_def Tag_Context_def)
  moreover have "\<not> is_ok (NewDigest (Tag_Name t) opts')"
    using parsed_tag_name_clean [OF t assms(2)] by (auto simp: is_ok_iff NewDigest_ok)
  ultimately show ?thesis
    using RefTag by (auto simp: is_ok_iff ParseReference_ok Name_def split: reference.splits)
next
  case (RefDigest d)
  with assms have "NewDigest s opts = Inr d" by (simp add: ParseReference_ok)
  with NewDigest_wf assms have wf: "wf_repository (dig_Repository d)" and c: "checkDigest (dig_digest d) = Inr ()" by auto
  have no: "\<not> is_ok (NewRepository (Repository_Name (dig_Repository d)) opts')"
    using NewRepository_canonical_iff [OF wf] assms RefDigest by (simp add: Context_def Digest_Context_def)
  then have base: "digest_base (Repository_Name (dig_Repository d)) opts' = Repository_Name (dig_Repository d)"
    by (auto simp: digest_base_def NewTag_ok Repository_Name_untagged [OF wf] is_ok_iff split: sum.splits)
  have dat: "CHR ''@'' \<notin> set (dig_digest d)" using c chars_facts by (auto simp: checkDigest_ok)
  have "\<not> is_ok (NewDigest (Digest_Name d) opts')"
  proof
    assume "is_ok (NewDigest (Digest_Name d) opts')"
    then obtain d' :: digest and b where "Digest_Name d = b @ CHR ''@'' # dig_digest d'"
        and d'2: "checkDigest (dig_digest d') = Inr ()" and d'3: "NewRepository (digest_base b opts') opts' = Inr (dig_Repository d')"
      unfolding is_ok_iff NewDigest_ok by blast
    then have d'1: "Repository_Name (dig_Repository d) @ CHR ''@'' # dig_digest d = b @ CHR ''@'' # dig_digest d'"
      by (simp add: Digest_Name_def digestDelim_def DigestStr_def)
    have "CHR ''@'' \<notin> set (dig_digest d')" using d'2 chars_facts by (auto simp: checkDigest_ok)
    from last_delim_unique [OF d'1 dat this] d'3 base no show False by (auto simp: is_ok_iff)
  qed
  moreover have "\<not> is_ok (NewTag (Digest_Name d) opts')"
    using digest_ref.delim_in_name [of d] by (auto simp: is_ok_iff digestDelim_def dest: NewTag_no_at)
  ultimately show ?thesis
    using RefDigest by (auto simp: is_ok_iff ParseReference_ok Name_def split: reference.splits)
qed

text \<open>
  C20. The canonical name is a fixed point of parsing: the Name of a reference that was parsed under
  well-formed defaults parses again, under any options, strict validation included, to a reference
  with the same name, context name and identifier, exactly when the repository path it prints
  (with the implicit library namespace) has at most 255 bytes.
\<close>

theorem ParseReference_canonical:
  assumes "ParseReference s opts = Inr r" and "good_options (makeOptions opts)"
  shows "if length (RepositoryStr (Context r)) \<le> 255
         then \<exists>r'. ParseReference (Name r) opts' = Inr r' \<and> Name r' = Name r \<and> Reference_String r' = Name r \<and>
                 Repository_Name (Context r') = Repository_Name (Context r) \<and> Identifier r' = Identifier r
         else \<not> is_ok (ParseReference (Name r) opts')"
proof (cases "length (RepositoryStr (Context r)) \<le> 255")
  case False
  with ParseReference_too_long [OF assms] show ?thesis by simp
next
  case len: True
  show ?thesis
  proof (cases r)
    case (RefTag t)
    with assms NewTag_wf have "wf_repository (tag_Repository t)" "checkTag (tag_tag t) = Inr ()"
      by (auto simp: ParseReference_ok)
    from NewTag_canonical [OF this, of opts'] len RefTag show ?thesis
      by (auto simp: ParseReference_def Context_def Tag_Context_def Name_def Reference_String_def Tag_String_def
          Identifier_def Tag_Identifier_def TagStr_def Tag_Name_def)
  next
    case (RefDigest d)
    with assms NewDigest_wf have "wf_repository (dig_Repository d)" "checkDigest (dig_digest d) = Inr ()"
      by (auto simp: ParseReference_ok)
    from NewDigest_canonical [OF this, of opts'] len RefDigest
    have "ParseReference (Name r) opts' =
        Inr (RefDigest \<lparr>dig_Repository = canonical (dig_Repository d) opts', dig_digest = dig_digest d, dig_original = Digest_Name d\<rparr>)"
      by (simp add: ParseReference_ok Context_def Digest_Context_def Name_def)
    with len RefDigest show ?thesis
      by (simp add: Context_def Digest_Context_def Name_def Reference_String_def Digest_String_def
          Identifier_def Digest_Identifier_def DigestStr_def Digest_Name_def)
  qed
qed

theorem ParseReference_canonical_witness:
  "\<exists>r r'. ParseReference ''ubuntu'' [] = Inr r \<and> ParseReference (Name r) [StrictValidation] = Inr r' \<and> Name r' = Name r"
proof -
  obtain r where r: "ParseReference ''ubuntu'' [] = Inr r" and l: "length (RepositoryStr (Context r)) \<le> 255"
    by (rule that [OF parse_ubuntu]) code_simp
  from ParseReference_canonical [OF r good_default_options, of "[StrictValidation]"] r l show ?thesis by auto
qed

text \<open>
  Strict validation only rejects: whatever parses under StrictValidation parses to the same
  reference under WeakValidation, for tags and for digests.
\<close>

theorem ParseReference_strict_weak:
  assumes "ParseReference s (opts @ [StrictValidation]) = Inr r"
  shows "ParseReference s (opts @ [WeakValidation]) = Inr r"
  using assms by (auto simp: ParseReference_ok split: reference.splits intro: NewTag_strict_weak NewDigest_strict_weak)

theorem ParseReference_strict_weak_witness:
  "\<exists>r. ParseReference ''gcr.io/a/b:c'' [WeakValidation] = Inr r \<and> Name r = ''gcr.io/a/b:c''"
proof -
  have "ParseReference ''gcr.io/a/b:c'' ([] @ [StrictValidation]) =
    Inr (RefTag \<lparr>tag_Repository = \<lparr>repo_Registry = \<lparr>reg_insecure = False, reg_registry = ''gcr.io''\<rparr>, repo_repository = ''a/b''\<rparr>,
                 tag_tag = ''c'', tag_original = ''gcr.io/a/b:c''\<rparr>)"
    by code_simp
  from ParseReference_strict_weak [OF this] show ?thesis
    by (auto simp: Name_def Tag_Name_def Repository_Name_def Registry_Name_def RegistryStr_def RepositoryStr_def
        hasImplicitNamespace_def regRepoDelimiter_def TagStr_def tagDelim_def Let_def)
qed

text \<open>
  For a set of ASCII characters, checkElement accepts exactly the strings of the allowed
  characters whose length in bytes is within the bounds (the code counts runes).
\<close>

theorem checkElement_accepts:
  assumes "\<forall>c\<in>set allowed. byte c < 128"
  shows "checkElement name e allowed lo hi = Inr () \<longleftrightarrow> lo \<le> length e \<and> length e \<le> hi \<and> set e \<subseteq> set allowed"
  using assms by (rule checkElement_ok)

theorem checkElement_accepts_witness: "checkElement ''tag'' ''v1.0'' tagChars 1 128 = Inr ()"
  by (subst checkElement_accepts) (simp_all add: tagChars_def byte_def)
end
