(* ===== verification/Go_Sha256.thy ===== *)
theory Go_Sha256
  imports Go_Utf8 "HOL-Library.Word"
begin

unbundle bit_operations_syntax

text \<open>
  crypto/sha256 and encoding/hex: the digest of a list of bytes (FIPS 180-4) on 32-bit words, and
  its text of 64 lower case hexadecimal digits.
\<close>

section \<open>Message schedule and compression\<close>

definition round_constants :: "32 word list" where
  "round_constants =
    [1116352408, 1899447441, 3049323471, 3921009573, 961987163, 1508970993, 2453635748, 2870763221,
     3624381080, 310598401, 607225278, 1426881987, 1925078388, 2162078206, 2614888103, 3248222580,
     3835390401, 4022224774, 264347078, 604807628, 770255983, 1249150122, 1555081692, 1996064986,
     2554220882, 2821834349, 2952996808, 3210313671, 3336571891, 3584528711, 113926993, 338241895,
     666307205, 773529912, 1294757372, 1396182291, 1695183700, 1986661051, 2177026350, 2456956037,
     2730485921, 2820302411, 3259730800, 3345764771, 3516065817, 3600352804, 4094571909, 275423344,
     430227734, 506948616, 659060556, 883997877, 958139571, 1322822218, 1537002063, 1747873779,
     1955562222, 2024104815, 2227730452, 2361852424, 2428436474, 2756734187, 3204031479, 3329325298]"

definition initial_hash :: "32 word list" where
  "initial_hash =
    [1779033703, 3144134277, 1013904242, 2773480762, 1359893119, 2600822924, 528734635, 1541459225]"

definition rotr :: "nat \<Rightarrow> 32 word \<Rightarrow> 32 word" where
  "rotr n x = drop_bit n x OR push_bit (32 - n) x"

definition word_of_bytes :: "nat list \<Rightarrow> 32 word" where
  "word_of_bytes bs = foldl (\<lambda>w b. push_bit 8 w OR of_nat b) 0 bs"

fun chunks :: "nat \<Rightarrow> nat \<Rightarrow> 'a list \<Rightarrow> 'a list list" where
  "chunks k 0 xs = []"
| "chunks k (Suc n) xs = take k xs # chunks k n (drop k xs)"

text \<open>The next word of the schedule from the last sixteen, most recent first.\<close>

definition next_word :: "32 word list \<Rightarrow> 32 word" where
  "next_word ws =
     (let w2 = ws ! 1; w7 = ws ! 6; w15 = ws ! 14; w16 = ws ! 15;
          s0 = rotr 7 w15 XOR rotr 18 w15 XOR drop_bit 3 w15;
          s1 = rotr 17 w2 XOR rotr 19 w2 XOR drop_bit 10 w2
      in w16 + s0 + w7 + s1)"

fun extend_schedule :: "nat \<Rightarrow> 32 word list \<Rightarrow> 32 word list" where
  "extend_schedule 0 ws = ws"
| "extend_schedule (Suc n) ws = extend_schedule n (next_word ws # ws)"

definition schedule :: "32 word list \<Rightarrow> 32 word list" where
  "schedule block = rev (extend_schedule 48 (rev block))"

fun sha_round :: "32 word list \<Rightarrow> 32 word \<times> 32 word \<Rightarrow> 32 word list" where
  "sha_round [a, b, c, d, e, f, g, h] (k, w) =
     (let s1 = rotr 6 e XOR rotr 11 e XOR rotr 25 e;
          ch = (e AND f) XOR (NOT e AND g);
          t1 = h + s1 + ch + k + w;
          s0 = rotr 2 a XOR rotr 13 a XOR rotr 22 a;
          maj = (a AND b) XOR (a AND c) XOR (b AND c)
      in [t1 + (s0 + maj), a, b, c, d + t1, e, f, g])"
| "sha_round st _ = st"

definition compress_block :: "32 word list \<Rightarrow> 32 word list \<Rightarrow> 32 word list" where
  "compress_block h block = map2 (+) h (foldl sha_round h (zip round_constants (schedule block)))"

section \<open>Padding and the digest\<close>

definition be_bytes :: "nat \<Rightarrow> nat \<Rightarrow> nat list" where
  "be_bytes k n = map (\<lambda>i. n div 256 ^ (k - 1 - i) mod 256) [0..<k]"

definition sha_pad :: "nat list \<Rightarrow> nat list" where
  "sha_pad bs =
     (let l = length bs; z = (119 - l mod 64) mod 64
      in bs @ 128 # replicate z 0 @ be_bytes 8 (8 * l))"

definition sha_blocks :: "nat list \<Rightarrow> 32 word list list" where
  "sha_blocks bs =
     (let p = sha_pad bs
      in map (\<lambda>b. map word_of_bytes (chunks 4 16 b)) (chunks 64 (length p div 64) p))"

definition sha256_words :: "bytes \<Rightarrow> 32 word list" where
  "sha256_words s = foldl compress_block initial_hash (sha_blocks (map byte s))"

definition hex_digit :: "nat \<Rightarrow> char" where
  "hex_digit n = (if n < 10 then char_of (48 + n) else char_of (87 + n))"

text \<open>hex.EncodeToString of the eight words, most significant nibble first.\<close>

definition hex_word :: "32 word \<Rightarrow> string" where
  "hex_word w = map (\<lambda>i. hex_digit (unat (drop_bit (28 - 4 * i) w AND 15))) [0..<8]"

definition sha256_hex :: "bytes \<Rightarrow> string" where
  "sha256_hex s = concat (map hex_word (sha256_words s))"

section \<open>Shape of the digest\<close>

lemma length_chunks [simp]: "length (chunks k n xs) = n"
  by (induction n arbitrary: xs) auto

lemma sha_pad_blocks: "length (sha_pad bs) mod 64 = 0"
proof -
  have "(l + 1 + (119 - l mod 64) mod 64 + 8) mod 64 = 0" for l :: nat
  proof -
    have r: "l mod 64 < 64" by simp
    have "(119 - l mod 64) mod 64 = (if l mod 64 \<le> 55 then 55 - l mod 64 else 119 - l mod 64)"
    proof (cases "l mod 64 \<le> 55")
      case True
      then have "119 - l mod 64 = (55 - l mod 64) + 64" by linarith
      then have "(119 - l mod 64) mod 64 = (55 - l mod 64) mod 64" by (metis mod_add_self2)
      with True show ?thesis by simp
    next
      case False
      with r show ?thesis by simp
    qed
    then have "l mod 64 + (1 + (119 - l mod 64) mod 64 + 8) \<in> {64, 128}" using r by auto
    moreover have "x mod 64 = 0" if "x \<in> {64, 128}" for x :: nat using that by auto
    ultimately have "(l mod 64 + (1 + (119 - l mod 64) mod 64 + 8)) mod 64 = 0" by blast
    then show ?thesis using mod_add_left_eq [of l 64 "1 + (119 - l mod 64) mod 64 + 8"] by (metis add.assoc)
  qed
  moreover have "length (sha_pad bs) = length bs + 1 + (119 - length bs mod 64) mod 64 + 8"
    by (simp add: sha_pad_def Let_def be_bytes_def)
  ultimately show ?thesis by (simp only:)
qed

lemma length_sha_round [simp]: "length (sha_round st kw) = length st"
  by (cases "(st, kw)" rule: sha_round.cases) (auto simp: Let_def)

lemma length_foldl_round [simp]: "length (foldl sha_round st kws) = length st"
  by (induction kws arbitrary: st) auto

lemma length_compress_block [simp]: "length (compress_block h b) = length h"
  by (simp add: compress_block_def)

lemma length_foldl_compress [simp]: "length (foldl compress_block h bs) = length h"
  by (induction bs arbitrary: h) auto

lemma length_sha256_words [simp]: "length (sha256_words s) = 8"
  by (simp add: sha256_words_def initial_hash_def)

lemma length_hex_word [simp]: "length (hex_word w) = 8"
  by (simp add: hex_word_def)

lemma length_sha256_hex [simp]: "length (sha256_hex s) = 64"
proof -
  have "length (concat (map hex_word ws)) = 8 * length ws" for ws
    by (induction ws) auto
  then show ?thesis by (simp add: sha256_hex_def)
qed

definition hexChars :: string where
  "hexChars = ''0123456789abcdef''"

lemma hex_digit_in: "n < 16 \<Longrightarrow> hex_digit n \<in> set hexChars"
proof -
  assume "n < 16"
  moreover have "\<forall>n\<in>{..<16}. hex_digit n \<in> set hexChars"
    by code_simp
  ultimately show ?thesis by blast
qed

lemma nibble_lt: "unat (w AND 15 :: 32 word) < 16"
proof -
  have "w AND 15 \<le> 15" by (rule word_and_le1)
  then have "unat (w AND 15) \<le> unat (15 :: 32 word)" by (simp only: word_le_nat_alt)
  then show ?thesis by simp
qed

lemma sha256_hex_chars: "set (sha256_hex s) \<subseteq> set hexChars"
  by (auto simp: sha256_hex_def hex_word_def intro!: hex_digit_in nibble_lt)

end
