(* ===== verification/V1_Data.thy ===== *)
theory V1_Data
  imports Go_Sha256 "HOL-Library.Char_ord" "HOL-Library.List_Lexorder" "HOL-Library.Multiset"
begin

text \<open>
  pkg/v1: the data model (hash.go, platform.go, manifest.go, config.go, types/types.go) and the
  descriptor matchers of match/match.go.  A Go map from strings to strings is an association list
  with at most one entry per key, nil being the empty list; a pointer is an option; time.Time is
  the number of nanoseconds since the zero time.
\<close>

section \<open>hash.go\<close>

record v1_hash =
  Algorithm :: string
  Hex :: string

definition zero_hash :: v1_hash where
  "zero_hash = \<lparr>Algorithm = '''', Hex = ''''\<rparr>"

definition Hash_String :: "v1_hash \<Rightarrow> string" where
  "Hash_String h = Algorithm h @ '':'' @ Hex h"

text \<open>Hasher: the size in bytes of the sum of the hash that it returns.\<close>

definition Hasher :: "string \<Rightarrow> nat res" where
  "Hasher name =
     (if name = ''sha256'' then Inr 32 else Inl (ErrMsg (''unsupported hash: '' @ CHR 0x22 # name @ [CHR 0x22])))"

definition Hash_parse :: "string \<Rightarrow> v1_hash res" where
  "Hash_parse unquoted =
     (case split_on (CHR '':'') unquoted of
        [alg, hx] \<Rightarrow>
          (case trim_left hx ''0123456789abcdef'' of
             c # _ \<Rightarrow> Inl (ErrMsg (''found non-hex character in hash: '' @ [c]))
           | [] \<Rightarrow>
               bnd (Hasher alg) (\<lambda>size.
               if length hx \<noteq> size * 2
               then Inl (ErrMsg (''wrong number of hex digits for '' @ alg @ '': '' @ hx))
               else Inr \<lparr>Algorithm = alg, Hex = hx\<rparr>))
      | _ \<Rightarrow> Inl (ErrMsg (''too many parts in hash: '' @ unquoted)))"

definition NewHash :: "string \<Rightarrow> v1_hash res" where
  "NewHash s = bnd (Hash_parse s) (\<lambda>h. Inr h)"

definition Hash_MarshalText :: "v1_hash \<Rightarrow> bytes res" where
  "Hash_MarshalText h = Inr (Hash_String h)"

definition Hash_UnmarshalText :: "bytes \<Rightarrow> v1_hash res" where
  "Hash_UnmarshalText text = Hash_parse text"

text \<open>SHA256 of a reader whose content is given: the hash and the number of bytes.\<close>

definition SHA256 :: "bytes \<Rightarrow> v1_hash \<times> int" where
  "SHA256 b = (\<lparr>Algorithm = ''sha256'', Hex = sha256_hex b\<rparr>, int (length b))"

definition sha :: "bytes \<Rightarrow> v1_hash" where
  "sha b = fst (SHA256 b)"

section \<open>types/types.go\<close>

type_synonym media_type = string

definition OCIContentDescriptor :: media_type where "OCIContentDescriptor = ''application/vnd.oci.descriptor.v1+json''"
definition OCIImageIndex :: media_type where "OCIImageIndex = ''application/vnd.oci.image.index.v1+json''"
definition OCIManifestSchema1 :: media_type where "OCIManifestSchema1 = ''application/vnd.oci.image.manifest.v1+json''"
definition OCIConfigJSON :: media_type where "OCIConfigJSON = ''application/vnd.oci.image.config.v1+json''"
definition OCILayer :: media_type where "OCILayer = ''application/vnd.oci.image.layer.v1.tar+gzip''"
definition OCIRestrictedLayer :: media_type where
  "OCIRestrictedLayer = ''application/vnd.oci.image.layer.nondistributable.v1.tar+gzip''"
definition OCIUncompressedLayer :: media_type where "OCIUncompressedLayer = ''application/vnd.oci.image.layer.v1.tar''"
definition OCIUncompressedRestrictedLayer :: media_type where
  "OCIUncompressedRestrictedLayer = ''application/vnd.oci.image.layer.nondistributable.v1.tar''"
definition DockerManifestSchema1 :: media_type where
  "DockerManifestSchema1 = ''application/vnd.docker.distribution.manifest.v1+json''"
definition DockerManifestSchema1Signed :: media_type where
  "DockerManifestSchema1Signed = ''application/vnd.docker.distribution.manifest.v1+prettyjws''"
definition DockerManifestSchema2 :: media_type where
  "DockerManifestSchema2 = ''application/vnd.docker.distribution.manifest.v2+json''"
definition DockerManifestList :: media_type where
  "DockerManifestList = ''application/vnd.docker.distribution.manifest.list.v2+json''"
definition DockerLayer :: media_type where "DockerLayer = ''application/vnd.docker.image.rootfs.diff.tar.gzip''"
definition DockerConfigJSON :: media_type where "DockerConfigJSON = ''application/vnd.docker.container.image.v1+json''"
definition DockerPluginConfig :: media_type where "DockerPluginConfig = ''application/vnd.docker.plugin.v1+json''"
definition DockerForeignLayer :: media_type where
  "DockerForeignLayer = ''application/vnd.docker.image.rootfs.foreign.diff.tar.gzip''"
definition DockerUncompressedLayer :: media_type where
  "DockerUncompressedLayer = ''application/vnd.docker.image.rootfs.diff.tar''"

lemmas media_type_defs = OCIContentDescriptor_def OCIImageIndex_def OCIManifestSchema1_def OCIConfigJSON_def
  OCILayer_def OCIRestrictedLayer_def OCIUncompressedLayer_def OCIUncompressedRestrictedLayer_def
  DockerManifestSchema1_def DockerManifestSchema1Signed_def DockerManifestSchema2_def DockerManifestList_def
  DockerLayer_def DockerConfigJSON_def DockerPluginConfig_def DockerForeignLayer_def DockerUncompressedLayer_def

definition OCIVendorPrefix :: string where "OCIVendorPrefix = ''vnd.oci''"
definition DockerVendorPrefix :: string where "DockerVendorPrefix = ''vnd.docker''"

definition IsDistributable :: "media_type \<Rightarrow> bool" where
  "IsDistributable m \<longleftrightarrow> m \<notin> {DockerForeignLayer, OCIRestrictedLayer, OCIUncompressedRestrictedLayer}"

definition IsImage :: "media_type \<Rightarrow> bool" where
  "IsImage m \<longleftrightarrow> m \<in> {OCIManifestSchema1, DockerManifestSchema2}"

definition IsIndex :: "media_type \<Rightarrow> bool" where
  "IsIndex m \<longleftrightarrow> m \<in> {OCIImageIndex, DockerManifestList}"

section \<open>platform.go\<close>

record platform =
  Architecture :: string
  OS :: string
  OSVersion :: string
  OSFeatures :: "string list"
  Variant :: string
  Features :: "string list"

fun stringSliceEqual :: "string list \<Rightarrow> string list \<Rightarrow> bool" where
  "stringSliceEqual a b = (length a = length b \<and> list_all (\<lambda>(x, y). x = y) (zip a b))"

text \<open>
  The slices share their arrays with the arguments, so the sort is seen by the callers: the
  result carries the contents of the two arrays afterwards.  Sorting needs both to be non-nil; a
  nil slice is the empty list here, which gives the same result.
\<close>

definition stringSliceEqualIgnoreOrder :: "string list \<Rightarrow> string list \<Rightarrow> bool \<times> string list \<times> string list" where
  "stringSliceEqualIgnoreOrder a b =
     (let (a1, b1) = (if a \<noteq> [] \<and> b \<noteq> [] then (sort a, sort b) else (a, b))
      in (stringSliceEqual a1 b1, a1, b1))"

definition Platform_Equals :: "platform \<Rightarrow> platform \<Rightarrow> bool \<times> platform \<times> platform" where
  "Platform_Equals p q =
     (if OS p = OS q \<and> Architecture p = Architecture q \<and> Variant p = Variant q \<and> OSVersion p = OSVersion q then
        (case stringSliceEqualIgnoreOrder (OSFeatures p) (OSFeatures q) of (e1, a1, b1) \<Rightarrow>
           let p1 = p\<lparr>OSFeatures := a1\<rparr>; q1 = q\<lparr>OSFeatures := b1\<rparr> in
           if e1 then
             (case stringSliceEqualIgnoreOrder (Features p) (Features q) of (e2, a2, b2) \<Rightarrow>
                (e2, p1\<lparr>Features := a2\<rparr>, q1\<lparr>Features := b2\<rparr>))
           else (False, p1, q1))
      else (False, p, q))"

section \<open>manifest.go and config.go\<close>

type_synonym string_map = "(string \<times> string) list"

record descriptor =
  d_MediaType :: media_type
  d_Size :: int
  d_Digest :: v1_hash
  d_URLs :: "string list"
  d_Annotations :: string_map
  d_Platform :: "platform option"

record manifest =
  m_SchemaVersion :: int
  m_MediaType :: media_type
  m_Config :: descriptor
  m_Layers :: "descriptor list"
  m_Annotations :: string_map

record index_manifest =
  im_SchemaVersion :: int
  im_MediaType :: media_type
  im_Manifests :: "descriptor list"
  im_Annotations :: string_map

type_synonym go_time = int

record history =
  h_Author :: string
  h_Created :: go_time
  h_CreatedBy :: string
  h_Comment :: string
  h_EmptyLayer :: bool

record root_fs =
  rf_Type :: string
  rf_DiffIDs :: "v1_hash list"

record health_config =
  hc_Test :: "string list"
  hc_Interval :: int
  hc_Timeout :: int
  hc_StartPeriod :: int
  hc_Retries :: int

record v1_config =
  c_AttachStderr :: bool
  c_AttachStdin :: bool
  c_AttachStdout :: bool
  c_Cmd :: "string list"
  c_Healthcheck :: "health_config option"
  c_Domainname :: string
  c_Entrypoint :: "string list"
  c_Env :: "string list"
  c_Hostname :: string
  c_Image :: string
  c_Labels :: string_map
  c_OnBuild :: "string list"
  c_OpenStdin :: bool
  c_StdinOnce :: bool
  c_Tty :: bool
  c_User :: string
  c_Volumes :: "string list"
  c_WorkingDir :: string
  c_ExposedPorts :: "string list"
  c_ArgsEscaped :: bool
  c_NetworkDisabled :: bool
  c_MacAddress :: string
  c_StopSignal :: string
  c_Shell :: "string list"

record config_file =
  cf_Architecture :: string
  cf_Author :: string
  cf_Container :: string
  cf_Created :: go_time
  cf_DockerVersion :: string
  cf_History :: "history list"
  cf_OS :: string
  cf_RootFS :: root_fs
  cf_Config :: v1_config
  cf_OSVersion :: string

definition zero_descriptor :: descriptor where
  "zero_descriptor = \<lparr>d_MediaType = '''', d_Size = 0, d_Digest = zero_hash, d_URLs = [], d_Annotations = [], d_Platform = None\<rparr>"

definition zero_config :: v1_config where
  "zero_config =
     \<lparr>c_AttachStderr = False, c_AttachStdin = False, c_AttachStdout = False, c_Cmd = [], c_Healthcheck = None,
      c_Domainname = '''', c_Entrypoint = [], c_Env = [], c_Hostname = '''', c_Image = '''', c_Labels = [],
      c_OnBuild = [], c_OpenStdin = False, c_StdinOnce = False, c_Tty = False, c_User = '''', c_Volumes = [],
      c_WorkingDir = '''', c_ExposedPorts = [], c_ArgsEscaped = False, c_NetworkDisabled = False,
      c_MacAddress = '''', c_StopSignal = '''', c_Shell = []\<rparr>"

definition zero_history :: history where
  "zero_history = \<lparr>h_Author = '''', h_Created = 0, h_CreatedBy = '''', h_Comment = '''', h_EmptyLayer = False\<rparr>"

definition zero_config_file :: config_file where
  "zero_config_file =
     \<lparr>cf_Architecture = '''', cf_Author = '''', cf_Container = '''', cf_Created = 0, cf_DockerVersion = '''',
      cf_History = [], cf_OS = '''', cf_RootFS = \<lparr>rf_Type = '''', rf_DiffIDs = []\<rparr>, cf_Config = zero_config,
      cf_OSVersion = ''''\<rparr>"

text \<open>archive/tar: the fields of a header that the sources read or write, and an entry with its content.\<close>

record tar_header =
  th_Name :: string
  th_Typeflag :: char
  th_Size :: int
  th_Mode :: int
  th_ModTime :: go_time
  th_Linkname :: string

type_synonym tar_entry = "tar_header \<times> bytes"

definition TypeReg :: char where "TypeReg = CHR ''0''"
definition TypeDir :: char where "TypeDir = CHR ''5''"

text \<open>
  encoding/json on the three documents, compress/gzip and archive/tar, as the environment that the
  definitions take: the sources call them as black boxes.  Reading a tar stream gives its entries up
  to the first error, None standing for io.EOF; writing one may fail.  ParseManifest, ParseIndexManifest and
  ParseConfigFile decode the content of a reader.
\<close>

record codec =
  marshal_manifest :: "manifest \<Rightarrow> bytes"
  marshal_index :: "index_manifest \<Rightarrow> bytes"
  marshal_config :: "config_file \<Rightarrow> bytes"
  decode_manifest :: "bytes \<Rightarrow> manifest res"
  decode_index :: "bytes \<Rightarrow> index_manifest res"
  decode_config :: "bytes \<Rightarrow> config_file res"
  gzip :: "int \<Rightarrow> bytes \<Rightarrow> bytes"
  gunzip :: "bytes \<Rightarrow> bytes res"
  untar :: "bytes \<Rightarrow> tar_entry list \<times> go_error option"
  mktar :: "tar_entry list \<Rightarrow> bytes res"

definition ParseManifest :: "codec \<Rightarrow> bytes \<Rightarrow> manifest res" where
  "ParseManifest E b = bnd (decode_manifest E b) (\<lambda>m. Inr m)"

definition ParseIndexManifest :: "codec \<Rightarrow> bytes \<Rightarrow> index_manifest res" where
  "ParseIndexManifest E b = bnd (decode_index E b) (\<lambda>im. Inr im)"

definition ParseConfigFile :: "codec \<Rightarrow> bytes \<Rightarrow> config_file res" where
  "ParseConfigFile E b = bnd (decode_config E b) (\<lambda>cf. Inr cf)"

section \<open>match/match.go\<close>

type_synonym matcher = "descriptor \<Rightarrow> bool"

definition match_Annotation :: "string \<Rightarrow> string \<Rightarrow> matcher" where
  "match_Annotation key value desc =
     (if d_Annotations desc = [] then False
      else (case map_of (d_Annotations desc) key of Some aValue \<Rightarrow> aValue = value | None \<Rightarrow> False))"

definition AnnotationRefName :: string where
  "AnnotationRefName = ''org.opencontainers.image.ref.name''"

definition match_Name :: "string \<Rightarrow> matcher" where
  "match_Name name = match_Annotation AnnotationRefName name"

definition match_Platforms :: "platform list \<Rightarrow> matcher" where
  "match_Platforms platforms desc =
     (case d_Platform desc of
        None \<Rightarrow> False
      | Some p \<Rightarrow> list_ex (\<lambda>platform. fst (Platform_Equals p platform)) platforms)"

definition match_MediaTypes :: "string list \<Rightarrow> matcher" where
  "match_MediaTypes mediaTypes desc =
     (if d_MediaType desc = '''' then False else d_MediaType desc \<in> set mediaTypes)"

definition match_Digests :: "v1_hash list \<Rightarrow> matcher" where
  "match_Digests digests desc = (d_Digest desc \<in> set digests)"

section \<open>Hashes\<close>

definition wf_hash :: "v1_hash \<Rightarrow> bool" where
  "wf_hash h \<longleftrightarrow> Algorithm h = ''sha256'' \<and> length (Hex h) = 64 \<and> set (Hex h) \<subseteq> set hexChars"

lemma hexChars_no_colon: "CHR '':'' \<notin> set hexChars"
  by (simp add: hexChars_def)

lemma Hash_parse_Inr:
  "Hash_parse s = Inr h \<longleftrightarrow> split_on (CHR '':'') s = [Algorithm h, Hex h] \<and> wf_hash h"
proof
  assume p: "Hash_parse s = Inr h"
  then obtain alg hx where sp: "split_on (CHR '':'') s = [alg, hx]"
    by (auto simp: Hash_parse_def split: list.splits)
  with p show "split_on (CHR '':'') s = [Algorithm h, Hex h] \<and> wf_hash h"
    using trim_left_Nil_iff [of hx hexChars]
    by (cases "trim_left hx hexChars") (auto simp: Hash_parse_def Hasher_def wf_hash_def hexChars_def split: if_splits)
next
  assume "split_on (CHR '':'') s = [Algorithm h, Hex h] \<and> wf_hash h"
  then show "Hash_parse s = Inr h"
    using trim_left_Nil_iff [of "Hex h" hexChars]
    by (cases h) (auto simp: Hash_parse_def Hasher_def wf_hash_def hexChars_def)
qed

lemma wf_hash_sha [simp]: "wf_hash (sha b)"
  using sha256_hex_chars by (simp add: wf_hash_def sha_def SHA256_def)

text \<open>
  C38. NewHash inverts Hash.String: it accepts a text exactly when the text is the printed form of
  the hash it returns, whose algorithm is sha256 and whose hex part is 64 lower case hex digits.
\<close>

theorem NewHash_iff_String:
  "NewHash s = Inr h \<longleftrightarrow>
     s = Hash_String h \<and> Algorithm h = ''sha256'' \<and> length (Hex h) = 64 \<and> set (Hex h) \<subseteq> set ''0123456789abcdef''"
  using hexChars_no_colon by (auto simp: NewHash_def Hash_parse_Inr Hash_String_def split_on_pair wf_hash_def hexChars_def)

lemma NewHash_String: "wf_hash h \<Longrightarrow> NewHash (Hash_String h) = Inr h"
  using hexChars_no_colon split_on_no_sep [of "CHR '':''" "Hex h"]
  by (auto simp: NewHash_def Hash_parse_Inr Hash_String_def wf_hash_def)

lemma NewHash_sha [simp]: "NewHash (Hash_String (sha b)) = Inr (sha b)"
  by (simp add: NewHash_String)

lemma Hash_String_inj: "wf_hash g \<Longrightarrow> wf_hash h \<Longrightarrow> Hash_String g = Hash_String h \<Longrightarrow> g = h"
  by (cases g; cases h) (auto simp: wf_hash_def Hash_String_def)

section \<open>Platforms\<close>

lemma stringSliceEqual_iff [simp]: "stringSliceEqual a b \<longleftrightarrow> a = b"
  by (auto simp: list_eq_iff_nth_eq list_all_length)

declare stringSliceEqual.simps [simp del]

lemma ignoreOrder_iff: "fst (stringSliceEqualIgnoreOrder a b) \<longleftrightarrow> mset a = mset b"
proof -
  have "sort a = sort b \<longleftrightarrow> mset a = mset b"
    by (metis mset_sort properties_for_sort sorted_sort)
  then show ?thesis by (auto simp: stringSliceEqualIgnoreOrder_def)
qed

lemma ignoreOrder_perm:
  "stringSliceEqualIgnoreOrder a b = (e, a', b') \<Longrightarrow> mset a' = mset a \<and> mset b' = mset b"
  by (auto simp: stringSliceEqualIgnoreOrder_def split: if_splits) (metis mset_sort)+

definition same_platform :: "platform \<Rightarrow> platform \<Rightarrow> bool" where
  "same_platform p q \<longleftrightarrow> OS p = OS q \<and> Architecture p = Architecture q \<and> Variant p = Variant q \<and>
     OSVersion p = OSVersion q \<and> mset (OSFeatures p) = mset (OSFeatures q) \<and> mset (Features p) = mset (Features q)"

lemma same_platform_equiv:
  "same_platform p p" "same_platform p q \<Longrightarrow> same_platform q p" "same_platform p q \<Longrightarrow> same_platform q r \<Longrightarrow> same_platform p r"
  by (auto simp: same_platform_def)

lemma Platform_Equals_fst: "fst (Platform_Equals p q) \<longleftrightarrow> same_platform p q"
  using ignoreOrder_iff [of "OSFeatures p" "OSFeatures q"] ignoreOrder_iff [of "Features p" "Features q"]
  by (auto simp: Platform_Equals_def same_platform_def Let_def split: prod.splits)

lemma Platform_Equals_args:
  "Platform_Equals p q = (e, p', q') \<Longrightarrow> same_platform p' p \<and> same_platform q' q"
  by (auto simp: Platform_Equals_def same_platform_def Let_def split: prod.splits if_splits dest: ignoreOrder_perm)

text \<open>
  Platform.Equals decides equality up to the order of OSFeatures and of Features, counting
  repetitions, and whatever it does to the slices of its two operands leaves each equal, in that
  sense, to what it was.
\<close>

theorem Platform_Equals_spec:
  "\<exists>p' q'. Platform_Equals p q = (same_platform p q, p', q') \<and> same_platform p' p \<and> same_platform q' q"
  using Platform_Equals_fst [of p q] Platform_Equals_args [of p q]
  by (cases "Platform_Equals p q") auto

lemma match_Platforms_iff:
  "match_Platforms ps desc \<longleftrightarrow> (\<exists>p. d_Platform desc = Some p \<and> (\<exists>q\<in>set ps. same_platform p q))"
  by (auto simp: match_Platforms_def Platform_Equals_fst list_ex_iff split: option.splits)

lemma Platform_Equals_reorders:
  "\<exists>p q p' q'. Platform_Equals p q = (True, p', q') \<and> p' \<noteq> p"
proof -
  let ?p = "\<lambda>fs. \<lparr>Architecture = '''', OS = '''', OSVersion = '''', OSFeatures = fs, Variant = '''', Features = []\<rparr>"
  have "sort [''b'', ''a''] = [''a'', ''b'']" "sort [''a'', ''b''] = [''a'', ''b'']" by code_simp+
  then have "Platform_Equals (?p [''b'', ''a'']) (?p [''a'', ''b'']) = (True, ?p [''a'', ''b''], ?p [''a'', ''b''])"
    by (simp add: Platform_Equals_def stringSliceEqualIgnoreOrder_def)
  then show ?thesis by (intro exI conjI) (assumption, simp)
qed

lemma media_kinds_disjoint: "\<not> (IsImage m \<and> IsIndex m)"
  by (auto simp: IsImage_def IsIndex_def media_type_defs)

end
