(* ===== verification/V1_Image.thy ===== *)
theory V1_Image
  imports V1_Data
begin

text \<open>
  The interfaces of pkg/v1 (layer.go, image.go, index.go) and the helpers that complete partial
  implementations of them (pkg/v1/partial), the empty image and index (pkg/v1/empty) and the
  readers of pkg/v1/v1util.  An object that implements an interface is the record of the results of
  its methods; a reader is the content it yields or the error it ends with.
\<close>

section \<open>v1util/zip.go\<close>

definition gzip_BestSpeed :: int where
  "gzip_BestSpeed = 1"

definition GzipReadCloserLevel :: "codec \<Rightarrow> bytes res \<Rightarrow> int \<Rightarrow> bytes res" where
  "GzipReadCloserLevel E r level =
     (if level < -2 \<or> 9 < level then Inl (ErrMsg (''gzip: invalid compression level: '' @ show_int level))
      else bnd r (\<lambda>b. Inr (gzip E level b)))"

definition GzipReadCloser :: "codec \<Rightarrow> bytes res \<Rightarrow> bytes res" where
  "GzipReadCloser E r = GzipReadCloserLevel E r gzip_BestSpeed"

definition GunzipReadCloser :: "codec \<Rightarrow> bytes \<Rightarrow> bytes res" where
  "GunzipReadCloser E r = gunzip E r"

text \<open>
  IsGzipped makes one Read of two bytes: a reader that yields less than two of them at once is not
  taken for a gzip stream.
\<close>

datatype read_result = ReadData bytes | ReadEOF bytes | ReadErr bytes go_error

definition gzipMagicHeader :: bytes where
  "gzipMagicHeader = [CHR 0x1f, CHR 0x8b]"

definition IsGzipped :: "read_result \<Rightarrow> bool res" where
  "IsGzipped r =
     (case r of
        ReadEOF b \<Rightarrow> if length b = 0 then Inr False else Inl ErrEOF
      | ReadErr b e \<Rightarrow> Inl e
      | ReadData b \<Rightarrow> Inr (b = gzipMagicHeader))"

section \<open>v1util/verify.go\<close>

text \<open>
  verifyReader.Read: the bytes that the hasher has seen, through the TeeReader, the expected hash
  and the result of the inner Read, giving the new bytes of the hasher and the result returned.
\<close>

definition verifyReader_Read :: "v1_hash \<Rightarrow> bytes \<Rightarrow> read_result \<Rightarrow> bytes \<times> read_result" where
  "verifyReader_Read expected hashed r =
     (case r of
        ReadData b \<Rightarrow> (hashed @ b, ReadData b)
      | ReadErr b e \<Rightarrow> (hashed @ b, ReadErr b e)
      | ReadEOF b \<Rightarrow>
          (let got = sha256_hex (hashed @ b); want = Hex expected in
           (hashed @ b,
            if got \<noteq> want
            then ReadErr b (ErrMsg (''error verifying '' @ Algorithm expected @ '' checksum; got '' @ got @ '', want '' @ want))
            else ReadEOF b)))"

text \<open>
  Reading a reader to its end (ioutil.ReadAll): it gives the listed results one after the other and
  then keeps returning io.EOF.
\<close>

fun read_all :: "read_result list \<Rightarrow> bytes res" where
  "read_all [] = Inr []"
| "read_all (ReadData b # rs) = bnd (read_all rs) (\<lambda>c. Inr (b @ c))"
| "read_all (ReadEOF b # rs) = Inr b"
| "read_all (ReadErr b e # rs) = Inl e"

fun verified_results :: "v1_hash \<Rightarrow> bytes \<Rightarrow> read_result list \<Rightarrow> read_result list" where
  "verified_results h hashed [] = [snd (verifyReader_Read h hashed (ReadEOF []))]"
| "verified_results h hashed (r # rs) =
     (case verifyReader_Read h hashed r of (hashed', r') \<Rightarrow> r' # verified_results h hashed' rs)"

definition VerifyReadCloser :: "read_result list \<Rightarrow> v1_hash \<Rightarrow> read_result list res" where
  "VerifyReadCloser rs h = bnd (Hasher (Algorithm h)) (\<lambda>_. Inr (verified_results h [] rs))"

section \<open>Layers\<close>

text \<open>
  v1.Layer.  The last two fields are the optional methods that the code looks for by a type
  assertion, directly or through a partial implementation: Descriptor and UncompressedSize.
\<close>

record layer =
  l_Digest :: "v1_hash res"
  l_DiffID :: "v1_hash res"
  l_Compressed :: "bytes res"
  l_Uncompressed :: "bytes res"
  l_Size :: "int res"
  l_MediaType :: "media_type res"
  l_Descriptor :: "descriptor res option"
  l_UncompressedSize :: "int res option"

text \<open>A nil v1.Layer: a call of any of its methods panics.\<close>

definition nil_deref :: go_error where
  "nil_deref = Panic ''invalid memory address or nil pointer dereference''"

definition nil_layer :: layer where
  "nil_layer =
     \<lparr>l_Digest = Inl nil_deref, l_DiffID = Inl nil_deref, l_Compressed = Inl nil_deref, l_Uncompressed = Inl nil_deref,
      l_Size = Inl nil_deref, l_MediaType = Inl nil_deref, l_Descriptor = None, l_UncompressedSize = None\<rparr>"

section \<open>partial/with.go\<close>

definition partial_ConfigFile :: "codec \<Rightarrow> bytes res \<Rightarrow> config_file res" where
  "partial_ConfigFile E raw = bnd raw (\<lambda>b. ParseConfigFile E b)"

definition partial_ConfigName :: "bytes res \<Rightarrow> v1_hash res" where
  "partial_ConfigName raw = bnd raw (\<lambda>b. Inr (fst (SHA256 b)))"

definition configLayer :: "v1_hash \<Rightarrow> bytes \<Rightarrow> layer" where
  "configLayer hash content =
     \<lparr>l_Digest = Inr hash, l_DiffID = Inr hash, l_Compressed = Inr content, l_Uncompressed = Inr content,
      l_Size = Inr (int (length content)), l_MediaType = Inr OCIConfigJSON, l_Descriptor = None,
      l_UncompressedSize = None\<rparr>"

definition partial_ConfigLayer :: "bytes res \<Rightarrow> layer res" where
  "partial_ConfigLayer raw =
     bnd (partial_ConfigName raw) (\<lambda>h. bnd raw (\<lambda>rcfg. Inr (configLayer h rcfg)))"

definition partial_DiffIDs :: "config_file res \<Rightarrow> v1_hash list res" where
  "partial_DiffIDs cfg = bnd cfg (\<lambda>cf. Inr (rf_DiffIDs (cf_RootFS cf)))"

definition partial_RawConfigFile :: "codec \<Rightarrow> config_file res \<Rightarrow> bytes res" where
  "partial_RawConfigFile E cfg = bnd cfg (\<lambda>cf. Inr (marshal_config E cf))"

definition partial_Digest :: "bytes res \<Rightarrow> v1_hash res" where
  "partial_Digest raw = bnd raw (\<lambda>mb. Inr (fst (SHA256 mb)))"

definition partial_Manifest :: "codec \<Rightarrow> bytes res \<Rightarrow> manifest res" where
  "partial_Manifest E raw = bnd raw (\<lambda>b. ParseManifest E b)"

definition partial_RawManifest :: "codec \<Rightarrow> manifest res \<Rightarrow> bytes res" where
  "partial_RawManifest E m = bnd m (\<lambda>m. Inr (marshal_manifest E m))"

definition partial_Size :: "bytes res \<Rightarrow> int res" where
  "partial_Size raw = bnd raw (\<lambda>b. Inr (int (length b)))"

definition FSLayers :: "manifest res \<Rightarrow> v1_hash list res" where
  "FSLayers m = bnd m (\<lambda>m. Inr (map d_Digest (m_Layers m)))"

definition BlobDescriptor :: "manifest res \<Rightarrow> v1_hash \<Rightarrow> descriptor res" where
  "BlobDescriptor m h =
     bnd m (\<lambda>m.
     if d_Digest (m_Config m) = h then Inr (m_Config m)
     else (case find (\<lambda>l. d_Digest l = h) (m_Layers m) of
             Some l \<Rightarrow> Inr l
           | None \<Rightarrow> Inl (ErrMsg (''blob '' @ Hash_String h @ '' not found''))))"

definition BlobSize :: "manifest res \<Rightarrow> v1_hash \<Rightarrow> int res" where
  "BlobSize m h = bnd (BlobDescriptor m h) (\<lambda>d. Inr (d_Size d))"

text \<open>The loop over parallel lists: the value at the first position with the given key.\<close>

fun lookup_at :: "v1_hash list \<Rightarrow> v1_hash list \<Rightarrow> v1_hash \<Rightarrow> go_error \<Rightarrow> v1_hash res" where
  "lookup_at (k # ks) (v # vs) h err = (if k = h then Inr v else lookup_at ks vs h err)"
| "lookup_at _ _ h err = Inl err"

definition mismatched :: "v1_hash list \<Rightarrow> v1_hash list \<Rightarrow> go_error" where
  "mismatched blobs diffIDs =
     ErrMsg (''mismatched fs layers ('' @ show_nat (length blobs) @ '') and diff ids ('' @ show_nat (length diffIDs) @ '')'')"

definition BlobToDiffID :: "manifest res \<Rightarrow> config_file res \<Rightarrow> v1_hash \<Rightarrow> v1_hash res" where
  "BlobToDiffID m cf h =
     bnd (FSLayers m) (\<lambda>blobs. bnd (partial_DiffIDs cf) (\<lambda>diffIDs.
     if length blobs \<noteq> length diffIDs then Inl (mismatched blobs diffIDs)
     else lookup_at blobs diffIDs h (ErrMsg (''unknown blob '' @ Hash_String h))))"

definition DiffIDToBlob :: "manifest res \<Rightarrow> config_file res \<Rightarrow> v1_hash \<Rightarrow> v1_hash res" where
  "DiffIDToBlob m cf h =
     bnd (FSLayers m) (\<lambda>blobs. bnd (partial_DiffIDs cf) (\<lambda>diffIDs.
     if length blobs \<noteq> length diffIDs then Inl (mismatched blobs diffIDs)
     else lookup_at diffIDs blobs h (ErrMsg (''unknown diffID '' @ Hash_String h))))"

text \<open>
  Descriptor of a Describable, given its optional Descriptor method (its own or that of what it
  wraps) and the results of its Size, Digest and MediaType.
\<close>

definition partial_Descriptor ::
    "descriptor res option \<Rightarrow> int res \<Rightarrow> v1_hash res \<Rightarrow> media_type res \<Rightarrow> descriptor res" where
  "partial_Descriptor wd siz dig mt =
     (case wd of
        Some d \<Rightarrow> d
      | None \<Rightarrow>
          bnd siz (\<lambda>sz. bnd dig (\<lambda>h. bnd mt (\<lambda>t.
          Inr (zero_descriptor\<lparr>d_Size := sz, d_Digest := h, d_MediaType := t\<rparr>)))))"

definition layer_Descriptor :: "layer \<Rightarrow> descriptor res" where
  "layer_Descriptor l = partial_Descriptor (l_Descriptor l) (l_Size l) (l_Digest l) (l_MediaType l)"

definition UncompressedSize :: "layer \<Rightarrow> int res" where
  "UncompressedSize l =
     (case l_UncompressedSize l of
        Some r \<Rightarrow> r
      | None \<Rightarrow> bnd (l_Uncompressed l) (\<lambda>b. Inr (int (length b))))"

section \<open>partial/compressed.go: layers\<close>

record compressed_layer =
  cl_Digest :: "v1_hash res"
  cl_Compressed :: "bytes res"
  cl_Size :: "int res"
  cl_MediaType :: "media_type res"
  cl_DiffID :: "v1_hash res option"
  cl_Descriptor :: "descriptor res option"
  cl_UncompressedSize :: "int res option"

definition cle_Uncompressed :: "codec \<Rightarrow> compressed_layer \<Rightarrow> bytes res" where
  "cle_Uncompressed E cl = bnd (cl_Compressed cl) (\<lambda>r. GunzipReadCloser E r)"

definition cle_DiffID :: "codec \<Rightarrow> compressed_layer \<Rightarrow> v1_hash res" where
  "cle_DiffID E cl =
     (case cl_DiffID cl of
        Some r \<Rightarrow> r
      | None \<Rightarrow> bnd (cle_Uncompressed E cl) (\<lambda>r. Inr (fst (SHA256 r))))"

definition CompressedToLayer :: "codec \<Rightarrow> compressed_layer \<Rightarrow> layer" where
  "CompressedToLayer E cl =
     \<lparr>l_Digest = cl_Digest cl, l_DiffID = cle_DiffID E cl, l_Compressed = cl_Compressed cl,
      l_Uncompressed = cle_Uncompressed E cl, l_Size = cl_Size cl, l_MediaType = cl_MediaType cl,
      l_Descriptor = cl_Descriptor cl, l_UncompressedSize = cl_UncompressedSize cl\<rparr>"

section \<open>partial/uncompressed.go: layers\<close>

record uncompressed_layer =
  ul_DiffID :: "v1_hash res"
  ul_Uncompressed :: "bytes res"
  ul_MediaType :: "media_type res"
  ul_Descriptor :: "descriptor res option"
  ul_UncompressedSize :: "int res option"

definition ule_Compressed :: "codec \<Rightarrow> uncompressed_layer \<Rightarrow> bytes res" where
  "ule_Compressed E ul = bnd (ul_Uncompressed ul) (\<lambda>u. GzipReadCloser E (Inr u))"

definition calcSizeHash :: "codec \<Rightarrow> uncompressed_layer \<Rightarrow> (v1_hash \<times> int) res" where
  "calcSizeHash E ul = bnd (ule_Compressed E ul) (\<lambda>r. Inr (SHA256 r))"

definition UncompressedToLayer :: "codec \<Rightarrow> uncompressed_layer \<Rightarrow> layer" where
  "UncompressedToLayer E ul =
     \<lparr>l_Digest = bnd (calcSizeHash E ul) (\<lambda>(h, n). Inr h), l_DiffID = ul_DiffID ul,
      l_Compressed = ule_Compressed E ul, l_Uncompressed = ul_Uncompressed ul,
      l_Size = bnd (calcSizeHash E ul) (\<lambda>(h, n). Inr n), l_MediaType = ul_MediaType ul,
      l_Descriptor = ul_Descriptor ul, l_UncompressedSize = ul_UncompressedSize ul\<rparr>"

section \<open>Images\<close>

record image =
  i_Layers :: "layer list res"
  i_MediaType :: "media_type res"
  i_Size :: "int res"
  i_ConfigName :: "v1_hash res"
  i_ConfigFile :: "config_file res"
  i_RawConfigFile :: "bytes res"
  i_Digest :: "v1_hash res"
  i_Manifest :: "manifest res"
  i_RawManifest :: "bytes res"
  i_LayerByDigest :: "v1_hash \<Rightarrow> layer res"
  i_LayerByDiffID :: "v1_hash \<Rightarrow> layer res"
  i_Descriptor :: "descriptor res option"

definition image_Descriptor :: "image \<Rightarrow> descriptor res" where
  "image_Descriptor i = partial_Descriptor (i_Descriptor i) (i_Size i) (i_Digest i) (i_MediaType i)"

section \<open>partial/compressed.go: images\<close>

record compressed_image_core =
  cic_RawConfigFile :: "bytes res"
  cic_MediaType :: "media_type res"
  cic_RawManifest :: "bytes res"
  cic_LayerByDigest :: "v1_hash \<Rightarrow> compressed_layer res"
  cic_Descriptor :: "descriptor res option"

definition cie_LayerByDigest :: "codec \<Rightarrow> compressed_image_core \<Rightarrow> v1_hash \<Rightarrow> layer res" where
  "cie_LayerByDigest E c h = bnd (cic_LayerByDigest c h) (\<lambda>cl. Inr (CompressedToLayer E cl))"

definition cie_Layers :: "codec \<Rightarrow> compressed_image_core \<Rightarrow> layer list res" where
  "cie_Layers E c =
     bnd (FSLayers (partial_Manifest E (cic_RawManifest c))) (\<lambda>hs. map_res (cie_LayerByDigest E c) hs)"

definition cie_LayerByDiffID :: "codec \<Rightarrow> compressed_image_core \<Rightarrow> v1_hash \<Rightarrow> layer res" where
  "cie_LayerByDiffID E c h =
     bnd (DiffIDToBlob (partial_Manifest E (cic_RawManifest c)) (partial_ConfigFile E (cic_RawConfigFile c)) h)
         (\<lambda>h. cie_LayerByDigest E c h)"

definition CompressedToImage :: "codec \<Rightarrow> compressed_image_core \<Rightarrow> image" where
  "CompressedToImage E c =
     \<lparr>i_Layers = cie_Layers E c,
      i_MediaType = cic_MediaType c,
      i_Size = partial_Size (cic_RawManifest c),
      i_ConfigName = partial_ConfigName (cic_RawConfigFile c),
      i_ConfigFile = partial_ConfigFile E (cic_RawConfigFile c),
      i_RawConfigFile = cic_RawConfigFile c,
      i_Digest = partial_Digest (cic_RawManifest c),
      i_Manifest = partial_Manifest E (cic_RawManifest c),
      i_RawManifest = cic_RawManifest c,
      i_LayerByDigest = cie_LayerByDigest E c,
      i_LayerByDiffID = cie_LayerByDiffID E c,
      i_Descriptor = cic_Descriptor c\<rparr>"

section \<open>partial/uncompressed.go: images\<close>

record uncompressed_image_core =
  uic_RawConfigFile :: "bytes res"
  uic_MediaType :: "media_type res"
  uic_LayerByDiffID :: "v1_hash \<Rightarrow> uncompressed_layer res"
  uic_Descriptor :: "descriptor res option"

definition uie_LayerByDiffID :: "codec \<Rightarrow> uncompressed_image_core \<Rightarrow> v1_hash \<Rightarrow> layer res" where
  "uie_LayerByDiffID E c diffID = bnd (uic_LayerByDiffID c diffID) (\<lambda>ul. Inr (UncompressedToLayer E ul))"

definition uie_Layers :: "codec \<Rightarrow> uncompressed_image_core \<Rightarrow> layer list res" where
  "uie_Layers E c =
     bnd (partial_DiffIDs (partial_ConfigFile E (uic_RawConfigFile c))) (\<lambda>diffIDs. map_res (uie_LayerByDiffID E c) diffIDs)"

text \<open>
  Manifest keeps what it computed in the field manifest, under its lock; a second call finds the
  same value, because the methods of the core are functions.
\<close>

definition uie_Manifest :: "codec \<Rightarrow> uncompressed_image_core \<Rightarrow> manifest res" where
  "uie_Manifest E c =
     bnd (uic_RawConfigFile c) (\<lambda>b.
     let (cfgHash, cfgSize) = SHA256 b;
         m = \<lparr>m_SchemaVersion = 2, m_MediaType = DockerManifestSchema2,
              m_Config = zero_descriptor\<lparr>d_MediaType := DockerConfigJSON, d_Size := cfgSize, d_Digest := cfgHash\<rparr>,
              m_Layers = [], m_Annotations = []\<rparr>
     in bnd (uie_Layers E c) (\<lambda>ls.
        bnd (map_res layer_Descriptor ls) (\<lambda>ds.
        Inr (m\<lparr>m_Layers := ds\<rparr>))))"

definition uie_LayerByDigest :: "codec \<Rightarrow> uncompressed_image_core \<Rightarrow> v1_hash \<Rightarrow> layer res" where
  "uie_LayerByDigest E c h =
     bnd (BlobToDiffID (uie_Manifest E c) (partial_ConfigFile E (uic_RawConfigFile c)) h)
         (\<lambda>diffID. uie_LayerByDiffID E c diffID)"

definition UncompressedToImage :: "codec \<Rightarrow> uncompressed_image_core \<Rightarrow> image" where
  "UncompressedToImage E c =
     (let rawManifest = partial_RawManifest E (uie_Manifest E c) in
      \<lparr>i_Layers = uie_Layers E c,
       i_MediaType = uic_MediaType c,
       i_Size = partial_Size rawManifest,
       i_ConfigName = partial_ConfigName (uic_RawConfigFile c),
       i_ConfigFile = partial_ConfigFile E (uic_RawConfigFile c),
       i_RawConfigFile = uic_RawConfigFile c,
       i_Digest = partial_Digest rawManifest,
       i_Manifest = uie_Manifest E c,
       i_RawManifest = rawManifest,
       i_LayerByDigest = uie_LayerByDigest E c,
       i_LayerByDiffID = uie_LayerByDiffID E c,
       i_Descriptor = uic_Descriptor c\<rparr>)"

section \<open>Indexes and partial/index.go\<close>

datatype image_index =
  ImageIndex (ii_MediaType: "media_type res") (ii_Digest: "v1_hash res") (ii_Size: "int res")
    (ii_IndexManifest: "index_manifest res") (ii_RawManifest: "bytes res")
    (ii_Image: "v1_hash \<Rightarrow> image res") (ii_ImageIndex: "v1_hash \<Rightarrow> image_index res")
    (ii_Descriptor: "descriptor res option")

definition index_Descriptor :: "image_index \<Rightarrow> descriptor res" where
  "index_Descriptor idx = partial_Descriptor (ii_Descriptor idx) (ii_Size idx) (ii_Digest idx) (ii_MediaType idx)"

definition FindManifests :: "image_index \<Rightarrow> matcher \<Rightarrow> descriptor list res" where
  "FindManifests idx matcher =
     (case ii_IndexManifest idx of
        Inl err \<Rightarrow> Inl (ErrMsg ''unable to get raw index'')
      | Inr im \<Rightarrow> Inr (filter matcher (im_Manifests im)))"

definition FindImages :: "image_index \<Rightarrow> matcher \<Rightarrow> image list res" where
  "FindImages idx matcher =
     bnd (FindManifests idx matcher) (\<lambda>manifests.
     map_res (\<lambda>desc. ii_Image idx (d_Digest desc)) (filter (\<lambda>desc. IsImage (d_MediaType desc)) manifests))"

definition FindIndexes :: "image_index \<Rightarrow> matcher \<Rightarrow> image_index list res" where
  "FindIndexes idx matcher =
     bnd (FindManifests idx matcher) (\<lambda>manifests.
     map_res (\<lambda>desc. ii_ImageIndex idx (d_Digest desc)) (filter (\<lambda>desc. IsIndex (d_MediaType desc)) manifests))"

section \<open>empty/image.go and empty/index.go\<close>

definition emptyImage_ConfigFile :: "config_file res" where
  "emptyImage_ConfigFile = Inr (zero_config_file\<lparr>cf_RootFS := \<lparr>rf_Type = ''layers'', rf_DiffIDs = []\<rparr>\<rparr>)"

definition emptyImage_LayerByDiffID :: "v1_hash \<Rightarrow> uncompressed_layer res" where
  "emptyImage_LayerByDiffID h = Inl (ErrMsg (''LayerByDiffID('' @ Hash_String h @ ''): empty image''))"

definition emptyImage :: "codec \<Rightarrow> uncompressed_image_core" where
  "emptyImage E =
     \<lparr>uic_RawConfigFile = partial_RawConfigFile E emptyImage_ConfigFile,
      uic_MediaType = Inr DockerManifestSchema2,
      uic_LayerByDiffID = emptyImage_LayerByDiffID,
      uic_Descriptor = None\<rparr>"

definition empty_Image :: "codec \<Rightarrow> image" where
  "empty_Image E = UncompressedToImage E (emptyImage E)"

definition base_index :: index_manifest where
  "base_index = \<lparr>im_SchemaVersion = 2, im_MediaType = '''', im_Manifests = [], im_Annotations = []\<rparr>"

definition empty_Index :: "codec \<Rightarrow> image_index" where
  "empty_Index E =
     (let raw = Inr (marshal_index E base_index) in
      ImageIndex (Inr OCIImageIndex) (partial_Digest raw) (partial_Size raw) (Inr base_index) raw
        (\<lambda>_. Inl (ErrMsg ''empty index'')) (\<lambda>_. Inl (ErrMsg ''empty index'')) None)"

section \<open>Verified readers\<close>

lemma read_verified:
  "read_all (verified_results h hashed rs) = Inr b \<longleftrightarrow> read_all rs = Inr b \<and> sha256_hex (hashed @ b) = Hex h"
proof (induction rs arbitrary: hashed b)
  case Nil
  then show ?case by (auto simp: verifyReader_Read_def Let_def)
next
  case (Cons r rs)
  show ?case
  proof (cases r)
    case (ReadData d)
    with Cons show ?thesis by (auto simp: verifyReader_Read_def)
  qed (auto simp: verifyReader_Read_def Let_def)
qed

text \<open>
  A verified reader, read to its end in whatever chunks, yields a content exactly when the
  inner reader yields that content and its SHA-256 is the expected hash.
\<close>

theorem VerifyReadCloser_spec:
  "(\<exists>rs'. VerifyReadCloser rs h = Inr rs' \<and> read_all rs' = Inr b) \<longleftrightarrow> read_all rs = Inr b \<and> sha b = h"
proof -
  have "sha b = h \<longleftrightarrow> Algorithm h = ''sha256'' \<and> Hex h = sha256_hex b"
    by (cases h) (auto simp: sha_def SHA256_def)
  then show ?thesis
    using read_verified [of h "[]" rs b] by (auto simp: VerifyReadCloser_def Hasher_def)
qed

section \<open>Well-formed layers\<close>

definition wf_layer :: "codec \<Rightarrow> layer \<Rightarrow> bool" where
  "wf_layer E l =
     (case (l_Compressed l, l_Uncompressed l) of
        (Inr c, Inr u) \<Rightarrow>
          gunzip E c = Inr u \<and> l_Digest l = Inr (sha c) \<and> l_DiffID l = Inr (sha u) \<and>
          l_Size l = Inr (int (length c)) \<and> is_ok (l_MediaType l)
      | _ \<Rightarrow> False)"

lemma wf_layerE:
  assumes "wf_layer E l"
  obtains c u mt where "l_Compressed l = Inr c" "l_Uncompressed l = Inr u" "gunzip E c = Inr u" "l_Digest l = Inr (sha c)"
    "l_DiffID l = Inr (sha u)" "l_Size l = Inr (int (length c))" "l_MediaType l = Inr mt"
  using assms by (auto simp: wf_layer_def is_ok_iff split: sum.splits)

text \<open>
  The interface of the constructors of layers: what a constructor makes of an honest core is a
  well-formed layer.
\<close>

locale layer_source =
  fixes make :: "'a \<Rightarrow> layer" and honest :: "'a \<Rightarrow> bool" and E :: codec
  assumes makes_wf: "honest x \<Longrightarrow> wf_layer E (make x)"
begin

lemma digest_of_content:
  "honest x \<Longrightarrow> l_Compressed (make x) = Inr c \<Longrightarrow> l_Digest (make x) = Inr (sha c) \<and> l_Size (make x) = Inr (int (length c))"
  by (drule makes_wf) (auto elim: wf_layerE)

lemma diffid_of_content:
  "honest x \<Longrightarrow> l_Compressed (make x) = Inr c \<Longrightarrow> gunzip E c = Inr u \<Longrightarrow>
     l_Uncompressed (make x) = Inr u \<and> l_DiffID (make x) = Inr (sha u)"
  by (drule makes_wf) (auto elim: wf_layerE)

end

definition honest_compressed :: "codec \<Rightarrow> compressed_layer \<Rightarrow> bool" where
  "honest_compressed E cl =
     (case cl_Compressed cl of
        Inl _ \<Rightarrow> False
      | Inr c \<Rightarrow>
          cl_Digest cl = Inr (sha c) \<and> cl_Size cl = Inr (int (length c)) \<and> is_ok (cl_MediaType cl) \<and>
          (case gunzip E c of Inl _ \<Rightarrow> False | Inr u \<Rightarrow> cl_DiffID cl \<in> {None, Some (Inr (sha u))}))"

definition honest_uncompressed :: "codec \<Rightarrow> uncompressed_layer \<Rightarrow> bool" where
  "honest_uncompressed E ul =
     (case ul_Uncompressed ul of
        Inl _ \<Rightarrow> False
      | Inr u \<Rightarrow> ul_DiffID ul = Inr (sha u) \<and> is_ok (ul_MediaType ul) \<and> gunzip E (gzip E gzip_BestSpeed u) = Inr u)"

lemma CompressedToLayer_wf: "honest_compressed E cl \<Longrightarrow> wf_layer E (CompressedToLayer E cl)"
  by (auto simp: honest_compressed_def wf_layer_def CompressedToLayer_def cle_Uncompressed_def cle_DiffID_def
      GunzipReadCloser_def sha_def split: sum.splits option.splits)

lemma UncompressedToLayer_wf: "honest_uncompressed E ul \<Longrightarrow> wf_layer E (UncompressedToLayer E ul)"
  by (auto simp: honest_uncompressed_def wf_layer_def UncompressedToLayer_def ule_Compressed_def calcSizeHash_def
      GzipReadCloser_def GzipReadCloserLevel_def gzip_BestSpeed_def sha_def SHA256_def split: sum.splits)

lemma UncompressedToLayer_fields [simp]:
  "l_DiffID (UncompressedToLayer E ul) = ul_DiffID ul" "l_Descriptor (UncompressedToLayer E ul) = ul_Descriptor ul"
  by (simp_all add: UncompressedToLayer_def)

interpretation compressed_source: layer_source "CompressedToLayer E" "honest_compressed E" E for E
  by unfold_locales (rule CompressedToLayer_wf)

interpretation uncompressed_source: layer_source "UncompressedToLayer E" "honest_uncompressed E" E for E
  by unfold_locales (rule UncompressedToLayer_wf)

section \<open>Coherent images\<close>

definition layer_matches :: "codec \<Rightarrow> layer \<Rightarrow> descriptor \<Rightarrow> bool" where
  "layer_matches E l d \<longleftrightarrow>
     wf_layer E l \<and> l_Digest l = Inr (d_Digest d) \<and> l_Size l = Inr (d_Size d) \<and> l_MediaType l = Inr (d_MediaType d)"

definition found_by_diffid :: "codec \<Rightarrow> image \<Rightarrow> v1_hash \<Rightarrow> descriptor \<Rightarrow> bool" where
  "found_by_diffid E i h d =
     (case i_LayerByDiffID i h of Inl _ \<Rightarrow> False | Inr l \<Rightarrow> layer_matches E l d \<and> l_DiffID l = Inr h)"

definition coherent_parts :: "codec \<Rightarrow> image \<Rightarrow> bytes \<Rightarrow> config_file \<Rightarrow> bytes \<Rightarrow> manifest \<Rightarrow> layer list \<Rightarrow> bool" where
  "coherent_parts E i rc cf rm m ls \<longleftrightarrow>
     i_RawConfigFile i = Inr rc \<and> decode_config E rc = Inr cf \<and> i_ConfigFile i = Inr cf \<and> i_ConfigName i = Inr (sha rc) \<and>
     i_RawManifest i = Inr rm \<and> decode_manifest E rm = Inr m \<and> i_Manifest i = Inr m \<and>
     i_Digest i = Inr (sha rm) \<and> i_Size i = Inr (int (length rm)) \<and>
     d_Digest (m_Config m) = sha rc \<and> d_Size (m_Config m) = int (length rc) \<and>
     i_Layers i = Inr ls \<and> list_all2 (layer_matches E) ls (m_Layers m) \<and>
     list_all2 (\<lambda>l h. l_DiffID l = Inr h) ls (rf_DiffIDs (cf_RootFS cf)) \<and>
     list_all2 (found_by_diffid E i) (rf_DiffIDs (cf_RootFS cf)) (m_Layers m) \<and>
     list_all (\<lambda>d. is_ok (i_LayerByDigest i (d_Digest d))) (m_Layers m) \<and>
     is_ok (i_MediaType i)"

definition coherent :: "codec \<Rightarrow> image \<Rightarrow> bool" where
  "coherent E i \<longleftrightarrow> (\<exists>rc cf rm m ls. coherent_parts E i rc cf rm m ls)"

section \<open>The completed images are coherent\<close>

definition functional :: "('a \<times> 'b) list \<Rightarrow> bool" where
  "functional ps \<longleftrightarrow> (\<forall>(a, b)\<in>set ps. \<forall>(a', b')\<in>set ps. a = a' \<longrightarrow> b = b')"

lemma functionalD: "functional ps \<Longrightarrow> (a, b) \<in> set ps \<Longrightarrow> (a, b') \<in> set ps \<Longrightarrow> b = b'"
  unfolding functional_def by blast

lemma lookup_at_Inr: "lookup_at ks vs h err = Inr v \<Longrightarrow> (h, v) \<in> set (zip ks vs)"
  by (induction ks vs h err rule: lookup_at.induct) (auto split: if_splits)

lemma lookup_at_ok: "length ks = length vs \<Longrightarrow> h \<in> set ks \<Longrightarrow> is_ok (lookup_at ks vs h err)"
  by (induction ks vs h err rule: lookup_at.induct) auto

lemma lookup_at_functional:
  assumes "functional (zip ks vs)" and "(h, v) \<in> set (zip ks vs)" and "length ks = length vs"
  shows "lookup_at ks vs h err = Inr v"
proof -
  have "h \<in> set ks" using assms(2) by (rule set_zip_leftD)
  then obtain w where w: "lookup_at ks vs h err = Inr w"
    using lookup_at_ok [OF assms(3)] by (auto simp: is_ok_iff)
  with functionalD [OF assms(1,2)] lookup_at_Inr [OF w] show ?thesis by simp
qed

definition honest_blob :: "codec \<Rightarrow> compressed_image_core \<Rightarrow> descriptor \<Rightarrow> v1_hash \<Rightarrow> bool" where
  "honest_blob E c d h =
     (case cic_LayerByDigest c (d_Digest d) of
        Inl _ \<Rightarrow> False
      | Inr cl \<Rightarrow>
          honest_compressed E cl \<and> cl_Digest cl = Inr (d_Digest d) \<and> cl_Size cl = Inr (d_Size d) \<and>
          cl_MediaType cl = Inr (d_MediaType d) \<and> cle_DiffID E cl = Inr h)"

lemma list_all2_in_zip: "list_all2 P xs ys \<Longrightarrow> (x, y) \<in> set (zip xs ys) \<Longrightarrow> P x y"
  by (auto simp: list_all2_iff)

definition honest_compressed_core :: "codec \<Rightarrow> compressed_image_core \<Rightarrow> bool" where
  "honest_compressed_core E c =
     (case (cic_RawManifest c, cic_RawConfigFile c) of
        (Inr rm, Inr rc) \<Rightarrow>
          (case (decode_manifest E rm, decode_config E rc) of
             (Inr m, Inr cf) \<Rightarrow>
               d_Digest (m_Config m) = sha rc \<and> d_Size (m_Config m) = int (length rc) \<and>
               list_all2 (honest_blob E c) (m_Layers m) (rf_DiffIDs (cf_RootFS cf)) \<and>
               functional (zip (rf_DiffIDs (cf_RootFS cf)) (map d_Digest (m_Layers m))) \<and> is_ok (cic_MediaType c)
           | _ \<Rightarrow> False)
      | _ \<Rightarrow> False)"

lemma list_all2_map_res:
  "list_all2 (\<lambda>x y. \<exists>z. f x = Inr z \<and> P x y z) xs ys \<Longrightarrow>
     \<exists>zs. map_res f xs = Inr zs \<and> length zs = length xs \<and> (\<forall>i<length xs. f (xs ! i) = Inr (zs ! i) \<and> P (xs ! i) (ys ! i) (zs ! i))"
proof (induction xs ys rule: list_all2_induct)
  case (Cons x xs y ys)
  then obtain z zs where "f x = Inr z" "P x y z" "map_res f xs = Inr zs" "length zs = length xs"
    "\<forall>i<length xs. f (xs ! i) = Inr (zs ! i) \<and> P (xs ! i) (ys ! i) (zs ! i)" by blast
  then show ?case by (intro exI [of _ "z # zs"]) (auto simp: nth_Cons split: nat.splits)
qed simp

lemma CompressedToImage_coherent:
  assumes "honest_compressed_core E c"
  shows "coherent E (CompressedToImage E c)"
proof -
  obtain rm rc m cf where raw: "cic_RawManifest c = Inr rm" "cic_RawConfigFile c = Inr rc"
      "decode_manifest E rm = Inr m" "decode_config E rc = Inr cf"
    and cfg: "d_Digest (m_Config m) = sha rc" "d_Size (m_Config m) = int (length rc)"
    and ls: "list_all2 (honest_blob E c) (m_Layers m) (rf_DiffIDs (cf_RootFS cf))"
    and fn: "functional (zip (rf_DiffIDs (cf_RootFS cf)) (map d_Digest (m_Layers m)))"
    and mt: "is_ok (cic_MediaType c)"
    using assms by (auto simp: honest_compressed_core_def split: sum.splits)
  let ?hs = "rf_DiffIDs (cf_RootFS cf)" and ?ds = "m_Layers m"
  have len: "length ?ds = length ?hs" using ls by (rule list_all2_lengthD)
  have found: "\<exists>l. cie_LayerByDigest E c (d_Digest d) = Inr l \<and> layer_matches E l d \<and> l_DiffID l = Inr h"
    if "(d, h) \<in> set (zip ?ds ?hs)" for d h
  proof -
    from list_all2_in_zip [OF ls that] obtain cl where "cic_LayerByDigest c (d_Digest d) = Inr cl" "honest_compressed E cl"
      "cl_Digest cl = Inr (d_Digest d)" "cl_Size cl = Inr (d_Size d)" "cl_MediaType cl = Inr (d_MediaType d)" "cle_DiffID E cl = Inr h"
      by (auto simp: honest_blob_def split: sum.splits)
    then show ?thesis
      using CompressedToLayer_wf [of E cl] by (auto simp: cie_LayerByDigest_def layer_matches_def CompressedToLayer_def)
  qed
  then have "list_all2 (\<lambda>d h. \<exists>l. cie_LayerByDigest E c (d_Digest d) = Inr l \<and> (layer_matches E l d \<and> l_DiffID l = Inr h)) ?ds ?hs"
    using len by (auto simp: list_all2_iff)
  from list_all2_map_res [of "\<lambda>d. cie_LayerByDigest E c (d_Digest d)", OF this] obtain l where
    l: "map_res (\<lambda>d. cie_LayerByDigest E c (d_Digest d)) ?ds = Inr l" "length l = length ?ds"
       "\<forall>i<length ?ds. layer_matches E (l ! i) (?ds ! i) \<and> l_DiffID (l ! i) = Inr (?hs ! i)" by blast
  have mm: "map_res (\<lambda>d. g (d_Digest d)) xs = map_res g (map d_Digest xs)" for g :: "v1_hash \<Rightarrow> layer res" and xs
    by (induction xs) auto
  have layers: "cie_Layers E c = Inr l"
    using l raw by (simp add: cie_Layers_def FSLayers_def partial_Manifest_def ParseManifest_def mm)
  have byid: "found_by_diffid E (CompressedToImage E c) h d" if "(h, d) \<in> set (zip ?hs ?ds)" for h d
  proof -
    have "(h, d_Digest d) \<in> set (zip ?hs (map d_Digest ?ds))" using that by (force simp: zip_map2)
    with fn len have "lookup_at ?hs (map d_Digest ?ds) h err = Inr (d_Digest d)" for err
      by (intro lookup_at_functional) simp_all
    moreover have "(d, h) \<in> set (zip ?ds ?hs)" using that by (simp add: in_set_zip) metis
    ultimately show ?thesis
      using found [of d h] raw len
      by (auto simp: found_by_diffid_def CompressedToImage_def cie_LayerByDiffID_def DiffIDToBlob_def FSLayers_def
          partial_DiffIDs_def partial_Manifest_def partial_ConfigFile_def ParseManifest_def ParseConfigFile_def)
  qed
  have bydig: "is_ok (cie_LayerByDigest E c (d_Digest d))" if "d \<in> set ?ds" for d
  proof -
    obtain h where "(d, h) \<in> set (zip ?ds ?hs)" using \<open>d \<in> set ?ds\<close> len by (metis in_set_impl_in_set_zip1)
    then show ?thesis using found by (auto simp: is_ok_iff)
  qed
  have "coherent_parts E (CompressedToImage E c) rc cf rm m l"
    unfolding coherent_parts_def
    using raw cfg layers l len byid bydig mt
    by (auto simp: CompressedToImage_def partial_ConfigFile_def ParseConfigFile_def partial_ConfigName_def partial_Manifest_def
        ParseManifest_def partial_Digest_def partial_Size_def sha_def list_all2_conv_all_nth list_all_iff set_zip)
  then show ?thesis unfolding coherent_def by blast
qed

definition honest_diff :: "codec \<Rightarrow> uncompressed_image_core \<Rightarrow> v1_hash \<Rightarrow> bool" where
  "honest_diff E c h =
     (case uic_LayerByDiffID c h of
        Inl _ \<Rightarrow> False
      | Inr ul \<Rightarrow> honest_uncompressed E ul \<and> ul_DiffID ul = Inr h \<and> ul_Descriptor ul = None)"

definition honest_uncompressed_core :: "codec \<Rightarrow> uncompressed_image_core \<Rightarrow> bool" where
  "honest_uncompressed_core E c =
     (case uic_RawConfigFile c of
        Inl _ \<Rightarrow> False
      | Inr rc \<Rightarrow>
          (case decode_config E rc of
             Inl _ \<Rightarrow> False
           | Inr cf \<Rightarrow>
               list_all (honest_diff E c) (rf_DiffIDs (cf_RootFS cf)) \<and> is_ok (uic_MediaType c) \<and>
               (case uie_Manifest E c of
                  Inl _ \<Rightarrow> False
                | Inr m \<Rightarrow> decode_manifest E (marshal_manifest E m) = Inr m)))"

lemma computed_Descriptor:
  assumes "wf_layer E l" and "l_Descriptor l = None"
  shows "\<exists>d. layer_Descriptor l = Inr d \<and> layer_matches E l d"
proof -
  from assms(1) obtain c mt where "l_Digest l = Inr (sha c)" "l_Size l = Inr (int (length c))" "l_MediaType l = Inr mt"
    by (rule wf_layerE)
  with assms show ?thesis by (simp add: layer_Descriptor_def partial_Descriptor_def layer_matches_def)
qed

lemma map_res_Inr_list_all: "list_all (\<lambda>x. \<exists>y. f x = Inr y \<and> P x y) xs \<Longrightarrow> \<exists>ys. map_res f xs = Inr ys \<and> list_all2 P xs ys"
proof (induction xs)
  case (Cons x xs)
  then obtain y ys where "f x = Inr y" "P x y" "map_res f xs = Inr ys" "list_all2 P xs ys" by auto
  then show ?case by (intro exI [of _ "y # ys"]) auto
qed simp

lemma UncompressedToImage_coherent:
  assumes "honest_uncompressed_core E c"
  shows "coherent E (UncompressedToImage E c)"
proof -
  obtain rc cf m where raw: "uic_RawConfigFile c = Inr rc" "decode_config E rc = Inr cf"
    and hon: "list_all (honest_diff E c) (rf_DiffIDs (cf_RootFS cf))" and mt: "is_ok (uic_MediaType c)"
    and m: "uie_Manifest E c = Inr m" "decode_manifest E (marshal_manifest E m) = Inr m"
    using assms by (auto simp: honest_uncompressed_core_def split: sum.splits)
  let ?hs = "rf_DiffIDs (cf_RootFS cf)" and ?ds = "m_Layers m"
  have cfr: "partial_ConfigFile E (uic_RawConfigFile c) = Inr cf"
    using raw by (simp add: partial_ConfigFile_def ParseConfigFile_def)
  have one: "\<exists>l. uie_LayerByDiffID E c h = Inr l \<and> (wf_layer E l \<and> l_Descriptor l = None \<and> l_DiffID l = Inr h)" if "honest_diff E c h" for h
    using that UncompressedToLayer_wf
    by (auto simp: honest_diff_def uie_LayerByDiffID_def split: sum.splits)
  then have "list_all (\<lambda>h. \<exists>l. uie_LayerByDiffID E c h = Inr l \<and> (wf_layer E l \<and> l_Descriptor l = None \<and> l_DiffID l = Inr h)) ?hs"
    using hon by (auto simp: list_all_iff)
  from map_res_Inr_list_all [OF this] obtain ls where ls: "map_res (uie_LayerByDiffID E c) ?hs = Inr ls"
    and lsp: "list_all2 (\<lambda>h l. wf_layer E l \<and> l_Descriptor l = None \<and> l_DiffID l = Inr h) ?hs ls" by blast
  from ls cfr have layers: "uie_Layers E c = Inr ls" by (simp add: uie_Layers_def partial_DiffIDs_def)
  have len: "length ls = length ?hs" using lsp by (auto dest: list_all2_lengthD)
  from m(1) layers raw have ds: "map_res layer_Descriptor ls = Inr ?ds"
    and cfg: "d_Digest (m_Config m) = sha rc" "d_Size (m_Config m) = int (length rc)"
    by (auto simp: uie_Manifest_def sha_def SHA256_def)
  have match: "list_all2 (layer_matches E) ls ?ds"
  proof (rule list_all2_all_nthI)
    show "length ls = length ?ds" using ds by (simp add: map_res_length)
    fix k assume k: "k < length ls"
    with lsp len have "wf_layer E (ls ! k)" "l_Descriptor (ls ! k) = None" by (auto simp: list_all2_conv_all_nth)
    from computed_Descriptor [OF this] map_res_nth [OF ds k] show "layer_matches E (ls ! k) (?ds ! k)" by auto
  qed
  have byid: "list_all2 (found_by_diffid E (UncompressedToImage E c)) ?hs ?ds"
  proof (rule list_all2_all_nthI)
    show "length ?hs = length ?ds" using match len by (auto dest: list_all2_lengthD)
    fix k assume k: "k < length ?hs"
    with map_res_nth [OF ls k] lsp match len show "found_by_diffid E (UncompressedToImage E c) (?hs ! k) (?ds ! k)"
      by (auto simp: found_by_diffid_def UncompressedToImage_def Let_def list_all2_conv_all_nth)
  qed
  have bydig: "is_ok (uie_LayerByDigest E c (d_Digest d))" if "d \<in> set ?ds" for d
  proof -
    let ?r = "lookup_at (map d_Digest ?ds) ?hs (d_Digest d) (ErrMsg (''unknown blob '' @ Hash_String (d_Digest d)))"
    have "length ?ds = length ?hs" using match len by (auto dest: list_all2_lengthD)
    then have "is_ok ?r" using \<open>d \<in> set ?ds\<close> by (intro lookup_at_ok) auto
    then obtain h where h: "?r = Inr h" by (auto simp: is_ok_iff)
    then have "h \<in> set ?hs" by (auto dest: lookup_at_Inr set_zip_rightD)
    with hon one have "is_ok (uie_LayerByDiffID E c h)" by (auto simp: list_all_iff is_ok_iff)
    with h m(1) cfr \<open>length ?ds = length ?hs\<close> show ?thesis
      by (simp add: uie_LayerByDigest_def BlobToDiffID_def FSLayers_def partial_DiffIDs_def)
  qed
  have "coherent_parts E (UncompressedToImage E c) rc cf (marshal_manifest E m) m ls"
    unfolding coherent_parts_def
    using raw cfg layers match m byid bydig mt lsp len cfr
    by (auto simp: UncompressedToImage_def partial_ConfigName_def partial_RawManifest_def
        partial_Digest_def partial_Size_def sha_def list_all2_conv_all_nth list_all_iff Let_def)
  then show ?thesis unfolding coherent_def by blast
qed

locale image_source =
  fixes make :: "'a \<Rightarrow> image" and honest :: "'a \<Rightarrow> bool" and E :: codec
  assumes makes_coherent: "honest x \<Longrightarrow> coherent E (make x)"
begin

lemma config_is_addressed:
  "honest x \<Longrightarrow> i_RawConfigFile (make x) = Inr rc \<Longrightarrow> i_Manifest (make x) = Inr m \<Longrightarrow>
     i_ConfigName (make x) = Inr (sha rc) \<and> d_Digest (m_Config m) = sha rc \<and> d_Size (m_Config m) = int (length rc)"
  by (drule makes_coherent) (auto simp: coherent_def coherent_parts_def)

lemma layers_are_aligned:
  "honest x \<Longrightarrow> i_Layers (make x) = Inr ls \<Longrightarrow> i_Manifest (make x) = Inr m \<Longrightarrow> i_ConfigFile (make x) = Inr cf \<Longrightarrow>
     length ls = length (m_Layers m) \<and> length ls = length (rf_DiffIDs (cf_RootFS cf))"
  by (drule makes_coherent) (auto simp: coherent_def coherent_parts_def dest: list_all2_lengthD)

end

interpretation compressed_image: image_source "CompressedToImage E" "honest_compressed_core E" E for E
  by unfold_locales (rule CompressedToImage_coherent)

interpretation uncompressed_image: image_source "UncompressedToImage E" "honest_uncompressed_core E" E for E
  by unfold_locales (rule UncompressedToImage_coherent)

section \<open>The empty image\<close>

definition empty_config :: config_file where
  "empty_config = zero_config_file\<lparr>cf_RootFS := \<lparr>rf_Type = ''layers'', rf_DiffIDs = []\<rparr>\<rparr>"

definition empty_manifest :: "bytes \<Rightarrow> manifest" where
  "empty_manifest rc =
     \<lparr>m_SchemaVersion = 2, m_MediaType = DockerManifestSchema2,
      m_Config = zero_descriptor\<lparr>d_MediaType := DockerConfigJSON, d_Size := int (length rc), d_Digest := sha rc\<rparr>,
      m_Layers = [], m_Annotations = []\<rparr>"

lemma emptyImage_honest:
  assumes "decode_config E (marshal_config E empty_config) = Inr empty_config"
    and "decode_manifest E (marshal_manifest E (empty_manifest (marshal_config E empty_config))) =
           Inr (empty_manifest (marshal_config E empty_config))"
  shows "honest_uncompressed_core E (emptyImage E)"
  using assms
  by (auto simp: honest_uncompressed_core_def emptyImage_def partial_RawConfigFile_def emptyImage_ConfigFile_def
      empty_config_def uie_Manifest_def uie_Layers_def partial_DiffIDs_def partial_ConfigFile_def ParseConfigFile_def
      empty_manifest_def sha_def SHA256_def Let_def)

lemma empty_Image_coherent:
  assumes "decode_config E (marshal_config E empty_config) = Inr empty_config"
    and "decode_manifest E (marshal_manifest E (empty_manifest (marshal_config E empty_config))) =
           Inr (empty_manifest (marshal_config E empty_config))"
  shows "coherent E (empty_Image E)"
  unfolding empty_Image_def by (intro uncompressed_image.makes_coherent emptyImage_honest assms)

lemma empty_Image_fields:
  assumes "decode_config E (marshal_config E empty_config) = Inr empty_config"
  shows "i_ConfigFile (empty_Image E) = Inr empty_config"
    and "i_Manifest (empty_Image E) = Inr (empty_manifest (marshal_config E empty_config))"
    and "i_Layers (empty_Image E) = Inr []"
  using assms
  by (simp_all add: empty_Image_def UncompressedToImage_def emptyImage_def partial_RawConfigFile_def emptyImage_ConfigFile_def
      empty_config_def uie_Manifest_def uie_Layers_def partial_DiffIDs_def partial_ConfigFile_def ParseConfigFile_def
      empty_manifest_def sha_def SHA256_def Let_def)

end
