(* ===== verification/Validate.thy ===== *)
theory Validate
  imports V1_Image
begin

text \<open>
  pkg/v1/validate: the checks on layers, images and indexes.  The texts of the messages carry the
  check that failed and the position, not the two values that differ.
\<close>

fun join_str :: "string \<Rightarrow> string list \<Rightarrow> string" where
  "join_str sep [] = []"
| "join_str sep [p] = p"
| "join_str sep (p # q # ps) = p @ sep @ join_str sep (q # ps)"

definition newline :: string where
  "newline = [CHR 0x0a]"

text \<open>The end of every check: an error that joins the messages, when there are any.\<close>

definition finish :: "string \<Rightarrow> string list \<Rightarrow> unit res" where
  "finish sep errs = (if errs \<noteq> [] then Inl (ErrMsg (join_str sep errs)) else Inr ())"

definition complain :: "bool \<Rightarrow> string \<Rightarrow> string list" where
  "complain bad msg = (if bad then [msg] else [])"

lemma finish_ok [simp]: "finish sep errs = Inr () \<longleftrightarrow> errs = []"
  by (simp add: finish_def)

lemma complain_Nil [simp]: "complain bad msg = [] \<longleftrightarrow> \<not> bad"
  by (simp add: complain_def)

section \<open>validate/layer.go\<close>

record computed_layer =
  comp_digest :: v1_hash
  comp_size :: int
  comp_diffid :: v1_hash
  comp_uncompressedDiffid :: v1_hash
  comp_uncompressedSize :: int

text \<open>The loop over the tar headers: a name seen before is an error.\<close>

fun check_names :: "string list \<Rightarrow> tar_entry list \<Rightarrow> go_error option \<Rightarrow> unit res" where
  "check_names files [] e = (case e of None \<Rightarrow> Inr () | Some err \<Rightarrow> Inl err)"
| "check_names files ((hdr, content) # entries) e =
     (if th_Name hdr \<in> set files then Inl (ErrMsg (''duplicate file path: '' @ th_Name hdr))
      else check_names (th_Name hdr # files) entries e)"

definition computeLayer :: "codec \<Rightarrow> layer \<Rightarrow> computed_layer res" where
  "computeLayer E layer =
     bnd (l_Compressed layer) (\<lambda>compressed.
     bnd (gunzip E compressed) (\<lambda>uncompressed.
     bnd (case untar E uncompressed of (entries, e) \<Rightarrow> check_names [] entries e) (\<lambda>_.
     bnd (l_Uncompressed layer) (\<lambda>ur.
     let (udiffid, usize) = SHA256 ur in
     Inr \<lparr>comp_digest = sha compressed, comp_size = int (length compressed), comp_diffid = sha uncompressed,
          comp_uncompressedDiffid = udiffid, comp_uncompressedSize = usize\<rparr>))))"

definition validate_Layer :: "codec \<Rightarrow> layer \<Rightarrow> unit res" where
  "validate_Layer E layer =
     bnd (computeLayer E layer) (\<lambda>cl.
     bnd (l_Digest layer) (\<lambda>digest.
     bnd (l_DiffID layer) (\<lambda>diffid.
     bnd (l_Size layer) (\<lambda>size'.
     finish newline
       (complain (digest \<noteq> comp_digest cl) ''mismatched digest'' @
        complain (diffid \<noteq> comp_diffid cl) ''mismatched diffid: SHA256(Gunzip(Compressed()))'' @
        complain (diffid \<noteq> comp_uncompressedDiffid cl) ''mismatched diffid: SHA256(Uncompressed())'' @
        complain (size' \<noteq> comp_size cl) ''mismatched size'')))))"

section \<open>validate/image.go\<close>

definition validateConfig :: "codec \<Rightarrow> image \<Rightarrow> unit res" where
  "validateConfig E img =
     bnd (i_ConfigName img) (\<lambda>cn.
     bnd (i_RawConfigFile img) (\<lambda>rc.
     let (hash, size') = SHA256 rc in
     bnd (i_Manifest img) (\<lambda>m.
     bnd (i_ConfigFile img) (\<lambda>cf.
     bnd (ParseConfigFile E rc) (\<lambda>pcf.
     finish newline
       (complain (cn \<noteq> hash) ''mismatched config digest'' @
        complain (d_Size (m_Config m) \<noteq> size') ''mismatched config size'' @
        complain (pcf \<noteq> cf) ''mismatched config content'' @
        complain (rf_Type (cf_RootFS cf) \<noteq> ''layers'') ''invalid ConfigFile.RootFS.Type''))))))"

text \<open>One round of the second loop of validateLayers.\<close>

definition layer_errors :: "image \<Rightarrow> manifest \<Rightarrow> config_file \<Rightarrow> nat \<Rightarrow> layer \<Rightarrow> computed_layer \<Rightarrow> string list res" where
  "layer_errors img m cf i layer cl =
     bnd (l_Digest layer) (\<lambda>digest.
     bnd (l_DiffID layer) (\<lambda>diffid.
     bnd (l_Size layer) (\<lambda>size'.
     bnd (l_MediaType layer) (\<lambda>mediaType.
     bnd (i_LayerByDigest img digest) (\<lambda>_.
     bnd (i_LayerByDiffID img diffid) (\<lambda>_.
     bnd (index_res (m_Layers m) i) (\<lambda>desc.
     bnd (index_res (rf_DiffIDs (cf_RootFS cf)) i) (\<lambda>cfdiffid.
     let at = \<lambda>what. ''mismatched layer['' @ show_nat i @ ''] '' @ what in
     Inr (complain (digest \<noteq> comp_digest cl) (at ''digest'') @
          complain (d_Digest desc \<noteq> comp_digest cl) (at ''digest: Manifest'') @
          complain (diffid \<noteq> comp_diffid cl) (at ''diffid: SHA256(Gunzip(Compressed()))'') @
          complain (diffid \<noteq> comp_uncompressedDiffid cl) (at ''diffid: SHA256(Uncompressed())'') @
          complain (cfdiffid \<noteq> comp_diffid cl) (at ''diffid: ConfigFile'') @
          complain (size' \<noteq> comp_size cl) (at ''size'') @
          complain (d_Size desc \<noteq> comp_size cl) (at ''size: Manifest'') @
          complain (d_MediaType desc \<noteq> mediaType) (at ''mediaType''))))))))))"

fun layers_errors :: "image \<Rightarrow> manifest \<Rightarrow> config_file \<Rightarrow> nat \<Rightarrow> (layer \<times> computed_layer) list \<Rightarrow> string list res" where
  "layers_errors img m cf i [] = Inr []"
| "layers_errors img m cf i ((layer, cl) # rest) =
     bnd (layer_errors img m cf i layer cl) (\<lambda>errs.
     bnd (layers_errors img m cf (Suc i) rest) (\<lambda>more. Inr (errs @ more)))"

definition validateLayers :: "codec \<Rightarrow> image \<Rightarrow> unit res" where
  "validateLayers E img =
     bnd (i_Layers img) (\<lambda>layers.
     bnd (map_res (computeLayer E) layers) (\<lambda>cls.
     bnd (i_ConfigFile img) (\<lambda>cf.
     bnd (i_Manifest img) (\<lambda>m.
     bnd (layers_errors img m cf 0 (zip layers cls)) (\<lambda>errs.
     finish newline errs)))))"

definition validateManifest :: "codec \<Rightarrow> image \<Rightarrow> unit res" where
  "validateManifest E img =
     bnd (i_Digest img) (\<lambda>digest.
     bnd (i_Size img) (\<lambda>size'.
     bnd (i_RawManifest img) (\<lambda>rm.
     let (hash, _) = SHA256 rm in
     bnd (i_Manifest img) (\<lambda>m.
     bnd (ParseManifest E rm) (\<lambda>pm.
     finish newline
       (complain (digest \<noteq> hash) ''mismatched manifest digest'' @
        complain (pm \<noteq> m) ''mismatched manifest content'' @
        complain (size' \<noteq> int (length rm)) ''mismatched manifest size''))))))"

definition failure :: "string \<Rightarrow> unit res \<Rightarrow> string list" where
  "failure what r = (case r of Inl e \<Rightarrow> [what] | Inr _ \<Rightarrow> [])"

lemma failure_Nil [simp]: "failure what r = [] \<longleftrightarrow> r = Inr ()"
  by (cases r) (auto simp: failure_def)

definition validate_Image :: "codec \<Rightarrow> image \<Rightarrow> unit res" where
  "validate_Image E img =
     finish (newline @ newline)
       (failure ''validating layers'' (validateLayers E img) @
        failure ''validating config'' (validateConfig E img) @
        failure ''validating manifest'' (validateManifest E img))"

section \<open>validate/index.go\<close>

definition validateMediaType :: "media_type res \<Rightarrow> media_type \<Rightarrow> unit res" where
  "validateMediaType mt want =
     bnd mt (\<lambda>got. if want \<noteq> got then Inl (ErrMsg (''mismatched mediaType: MediaType() = '' @ got @ '' != '' @ want)) else Inr ())"

definition validateIndexManifest :: "codec \<Rightarrow> image_index \<Rightarrow> unit res" where
  "validateIndexManifest E idx =
     bnd (ii_Digest idx) (\<lambda>digest.
     bnd (ii_Size idx) (\<lambda>size'.
     bnd (ii_RawManifest idx) (\<lambda>rm.
     let (hash, _) = SHA256 rm in
     bnd (ii_IndexManifest idx) (\<lambda>m.
     bnd (ParseIndexManifest E rm) (\<lambda>pm.
     finish newline
       (complain (digest \<noteq> hash) ''mismatched manifest digest'' @
        complain (pm \<noteq> m) ''mismatched manifest content'' @
        complain (size' \<noteq> int (length rm)) ''mismatched manifest size''))))))"

text \<open>
  Index and validateChildren call each other through the indexes that an index returns: the
  recursion is on the datatype image_index.  The messages of the children are put together in the
  order of the descriptors.
\<close>

fun collect :: "('a \<Rightarrow> string list res) \<Rightarrow> 'a list \<Rightarrow> string list res" where
  "collect f [] = Inr []"
| "collect f (x # xs) = bnd (f x) (\<lambda>errs. bnd (collect f xs) (\<lambda>more. Inr (errs @ more)))"

definition child_errors ::
    "codec \<Rightarrow> (v1_hash \<Rightarrow> image res) \<Rightarrow> (v1_hash \<Rightarrow> (media_type res \<times> unit res) res) \<Rightarrow> descriptor \<Rightarrow> string list res" where
  "child_errors E get_image get_index desc =
     (if IsIndex (d_MediaType desc) then
        bnd (get_index (d_Digest desc)) (\<lambda>(mt, r).
        Inr (failure ''failed to validate index Manifests'' r @
             failure ''failed to validate index MediaType'' (validateMediaType mt (d_MediaType desc))))
      else if IsImage (d_MediaType desc) then
        bnd (get_image (d_Digest desc)) (\<lambda>img.
        Inr (failure ''failed to validate image Manifests'' (validate_Image E img) @
             failure ''failed to validate image MediaType'' (validateMediaType (i_MediaType img) (d_MediaType desc))))
      else Inr [])"

primrec validate_Index :: "codec \<Rightarrow> image_index \<Rightarrow> unit res" where
  "validate_Index E (ImageIndex mt dg sz im rm get_image get_index wd) =
     finish (newline @ newline)
       (failure ''validating children''
          (bnd im (\<lambda>manifest.
           bnd (collect (child_errors E get_image
                  (\<lambda>h. map_sum id (\<lambda>idx. (ii_MediaType idx, validate_Index E idx)) (get_index h)))
                (im_Manifests manifest)) (\<lambda>errs. finish newline errs))) @
        failure ''validating index manifest'' (validateIndexManifest E (ImageIndex mt dg sz im rm get_image get_index wd)))"

section \<open>Validation\<close>

definition tar_names_ok :: "codec \<Rightarrow> bytes \<Rightarrow> bool" where
  "tar_names_ok E u = (case untar E u of (entries, e) \<Rightarrow> e = None \<and> distinct (map (th_Name \<circ> fst) entries))"

lemma check_names_ok:
  "check_names files entries e = Inr () \<longleftrightarrow>
     e = None \<and> distinct (map (th_Name \<circ> fst) entries) \<and> set (map (th_Name \<circ> fst) entries) \<inter> set files = {}"
  by (induction files entries e rule: check_names.induct) (auto split: option.splits)

lemma check_names_tar:
  "(case untar E u of (entries, e) \<Rightarrow> check_names [] entries e) = Inr () \<longleftrightarrow> tar_names_ok E u"
  by (cases "untar E u") (simp add: check_names_ok tar_names_ok_def)

lemma computeLayer_ok:
  "computeLayer E l = Inr cl \<longleftrightarrow>
     (\<exists>c u u'. l_Compressed l = Inr c \<and> gunzip E c = Inr u \<and> tar_names_ok E u \<and> l_Uncompressed l = Inr u' \<and>
        cl = \<lparr>comp_digest = sha c, comp_size = int (length c), comp_diffid = sha u, comp_uncompressedDiffid = sha u',
              comp_uncompressedSize = int (length u')\<rparr>)"
  by (auto simp: computeLayer_def check_names_tar sha_def SHA256_def)

definition layer_tar_ok :: "codec \<Rightarrow> layer \<Rightarrow> bool" where
  "layer_tar_ok E l = (case l_Uncompressed l of Inl _ \<Rightarrow> False | Inr u \<Rightarrow> tar_names_ok E u)"

lemma validate_Layer_wf: "wf_layer E l \<Longrightarrow> layer_tar_ok E l \<Longrightarrow> validate_Layer E l = Inr ()"
  by (erule wf_layerE) (auto simp: validate_Layer_def computeLayer_ok layer_tar_ok_def)

text \<open>
  C16. validate.Layer accepts exactly the layers whose compressed content decompresses to a tar
  stream without repeated names and whose Digest, Size, DiffID and Uncompressed agree with it, the
  last one up to its SHA-256.
\<close>

theorem validate_Layer_iff:
  "validate_Layer E l = Inr () \<longleftrightarrow>
     (\<exists>c u u'. l_Compressed l = Inr c \<and> gunzip E c = Inr u \<and> tar_names_ok E u \<and> l_Uncompressed l = Inr u' \<and>
        l_Digest l = Inr (sha c) \<and> l_Size l = Inr (int (length c)) \<and> l_DiffID l = Inr (sha u) \<and> sha u' = sha u)"
  by (auto simp: validate_Layer_def computeLayer_ok)

lemma all_less_Suc_shift: "(\<forall>k<Suc n. P k) \<longleftrightarrow> P 0 \<and> (\<forall>k<n. P (Suc k))"
  by (auto simp: less_Suc_eq_0_disj)

lemma layers_errors_Nil:
  "layers_errors img m cf i ps = Inr [] \<longleftrightarrow>
     (\<forall>k<length ps. layer_errors img m cf (i + k) (fst (ps ! k)) (snd (ps ! k)) = Inr [])"
proof (induction ps arbitrary: i)
  case (Cons p ps)
  obtain l cl where p: "p = (l, cl)" by (cases p)
  have "layers_errors img m cf i (p # ps) = Inr [] \<longleftrightarrow>
      layer_errors img m cf i l cl = Inr [] \<and> layers_errors img m cf (Suc i) ps = Inr []"
    by (auto simp: p)
  also have "\<dots> \<longleftrightarrow> (\<forall>k<length (p # ps). layer_errors img m cf (i + k) (fst ((p # ps) ! k)) (snd ((p # ps) ! k)) = Inr [])"
    unfolding length_Cons all_less_Suc_shift Cons.IH by (simp add: p)
  finally show ?case .
qed simp

text \<open>What the second loop of validateLayers asks of the layer at a position.\<close>

definition layer_agrees :: "codec \<Rightarrow> image \<Rightarrow> manifest \<Rightarrow> config_file \<Rightarrow> layer \<Rightarrow> nat \<Rightarrow> bool" where
  "layer_agrees E img m cf l k \<longleftrightarrow>
     validate_Layer E l = Inr () \<and>
     k < length (m_Layers m) \<and> k < length (rf_DiffIDs (cf_RootFS cf)) \<and>
     l_Digest l = Inr (d_Digest (m_Layers m ! k)) \<and> l_Size l = Inr (d_Size (m_Layers m ! k)) \<and>
     l_MediaType l = Inr (d_MediaType (m_Layers m ! k)) \<and> l_DiffID l = Inr (rf_DiffIDs (cf_RootFS cf) ! k) \<and>
     is_ok (i_LayerByDigest img (d_Digest (m_Layers m ! k))) \<and> is_ok (i_LayerByDiffID img (rf_DiffIDs (cf_RootFS cf) ! k))"

lemma layer_errors_Nil:
  assumes "computeLayer E l = Inr cl"
  shows "layer_errors img m cf k l cl = Inr [] \<longleftrightarrow> layer_agrees E img m cf l k"
  using assms
  by (auto simp: layer_errors_def layer_agrees_def validate_Layer_def is_ok_iff Let_def)

lemma validateLayers_iff:
  "validateLayers E img = Inr () \<longleftrightarrow>
     (\<exists>ls cf m. i_Layers img = Inr ls \<and> i_ConfigFile img = Inr cf \<and> i_Manifest img = Inr m \<and>
        (\<forall>k<length ls. layer_agrees E img m cf (ls ! k) k))"
proof
  assume "validateLayers E img = Inr ()"
  then obtain ls cls cf m where i: "i_Layers img = Inr ls" "i_ConfigFile img = Inr cf" "i_Manifest img = Inr m"
    and c: "map_res (computeLayer E) ls = Inr cls" and e: "layers_errors img m cf 0 (zip ls cls) = Inr []"
    by (auto simp: validateLayers_def)
  have "layer_agrees E img m cf (ls ! k) k" if "k < length ls" for k
  proof -
    have "layer_errors img m cf k (ls ! k) (cls ! k) = Inr []"
      using e that map_res_length [OF c] by (simp add: layers_errors_Nil)
    then show ?thesis by (simp only: layer_errors_Nil [OF map_res_nth [OF c that]])
  qed
  with i show "\<exists>ls cf m. i_Layers img = Inr ls \<and> i_ConfigFile img = Inr cf \<and> i_Manifest img = Inr m \<and>
        (\<forall>k<length ls. layer_agrees E img m cf (ls ! k) k)" by blast
next
  assume "\<exists>ls cf m. i_Layers img = Inr ls \<and> i_ConfigFile img = Inr cf \<and> i_Manifest img = Inr m \<and>
        (\<forall>k<length ls. layer_agrees E img m cf (ls ! k) k)"
  then obtain ls cf m where i: "i_Layers img = Inr ls" "i_ConfigFile img = Inr cf" "i_Manifest img = Inr m"
    and a: "\<And>k. k < length ls \<Longrightarrow> layer_agrees E img m cf (ls ! k) k" by blast
  have "list_all (\<lambda>l. \<exists>cl. computeLayer E l = Inr cl \<and> True) ls"
    using a by (fastforce simp: list_all_length layer_agrees_def validate_Layer_def)
  from map_res_Inr_list_all [OF this] obtain cls where c: "map_res (computeLayer E) ls = Inr cls" by blast
  have "layers_errors img m cf 0 (zip ls cls) = Inr []"
    using a map_res_length [OF c] layer_errors_Nil [OF map_res_nth [OF c]] by (simp add: layers_errors_Nil)
  with i c show "validateLayers E img = Inr ()" by (simp add: validateLayers_def)
qed

lemma validateConfig_iff:
  "validateConfig E img = Inr () \<longleftrightarrow>
     (\<exists>rc m cf. i_RawConfigFile img = Inr rc \<and> i_ConfigName img = Inr (sha rc) \<and> i_Manifest img = Inr m \<and>
        i_ConfigFile img = Inr cf \<and> decode_config E rc = Inr cf \<and> d_Size (m_Config m) = int (length rc) \<and>
        rf_Type (cf_RootFS cf) = ''layers'')"
  by (auto simp: validateConfig_def sha_def SHA256_def ParseConfigFile_def)

lemma validateManifest_iff:
  "validateManifest E img = Inr () \<longleftrightarrow>
     (\<exists>rm m. i_RawManifest img = Inr rm \<and> i_Digest img = Inr (sha rm) \<and> i_Size img = Inr (int (length rm)) \<and>
        i_Manifest img = Inr m \<and> decode_manifest E rm = Inr m)"
  by (auto simp: validateManifest_def sha_def SHA256_def ParseManifest_def)

lemma validate_Image_parts:
  "validate_Image E img = Inr () \<longleftrightarrow>
     validateLayers E img = Inr () \<and> validateConfig E img = Inr () \<and> validateManifest E img = Inr ()"
  by (simp add: validate_Image_def)

lemma validate_Image_of_parts:
  assumes c: "coherent_parts E i rc cf rm m ls" and t: "rf_Type (cf_RootFS cf) = ''layers''"
    and tar: "list_all (layer_tar_ok E) ls"
  shows "validate_Image E i = Inr ()"
proof -
  have l: "list_all2 (layer_matches E) ls (m_Layers m)"
    and d: "list_all2 (\<lambda>l h. l_DiffID l = Inr h) ls (rf_DiffIDs (cf_RootFS cf))"
    and f: "list_all2 (found_by_diffid E i) (rf_DiffIDs (cf_RootFS cf)) (m_Layers m)"
    and g: "list_all (\<lambda>d. is_ok (i_LayerByDigest i (d_Digest d))) (m_Layers m)"
    using c by (auto simp: coherent_parts_def)
  have "layer_agrees E i m cf (ls ! k) k" if k: "k < length ls" for k
  proof -
    have len: "k < length (m_Layers m)" "k < length (rf_DiffIDs (cf_RootFS cf))"
      using k l d by (auto dest: list_all2_lengthD)
    have "layer_matches E (ls ! k) (m_Layers m ! k)" using l k by (auto dest: list_all2_nthD)
    moreover have "l_DiffID (ls ! k) = Inr (rf_DiffIDs (cf_RootFS cf) ! k)" using d k by (auto dest: list_all2_nthD)
    moreover have "is_ok (i_LayerByDigest i (d_Digest (m_Layers m ! k)))" using g len by (auto simp: list_all_length)
    moreover have "found_by_diffid E i (rf_DiffIDs (cf_RootFS cf) ! k) (m_Layers m ! k)" using f len by (auto dest: list_all2_nthD)
    moreover have "layer_tar_ok E (ls ! k)" using tar k by (auto simp: list_all_length)
    ultimately show ?thesis using len
      by (auto simp: layer_agrees_def layer_matches_def found_by_diffid_def intro: validate_Layer_wf split: sum.splits)
  qed
  with c t show ?thesis
    by (auto simp: validate_Image_parts validateLayers_iff validateConfig_iff validateManifest_iff coherent_parts_def)
qed

context image_source
begin

lemma validates:
  assumes "honest x" and "i_ConfigFile (make x) = Inr cf" and "rf_Type (cf_RootFS cf) = ''layers''"
    and "i_Layers (make x) = Inr ls" and "list_all (layer_tar_ok E) ls"
  shows "validate_Image E (make x) = Inr ()"
  using makes_coherent [OF assms(1)] assms(2-5) validate_Image_of_parts
  unfolding coherent_def coherent_parts_def by fastforce

end

text \<open>
  C15. What validate.Image accepts: the layers it sees agree, one by one, with their manifest and
  config entries; the config and the manifest are what their raw bytes parse to and hash to; the
  size of the config is the one the manifest gives.
\<close>

theorem validate_Image_iff:
  "validate_Image E img = Inr () \<longleftrightarrow>
     (\<exists>ls cf m rc rm.
        i_Layers img = Inr ls \<and> list_all (\<lambda>k. layer_agrees E img m cf (ls ! k) k) [0..<length ls] \<and>
        i_RawConfigFile img = Inr rc \<and> i_ConfigName img = Inr (sha rc) \<and>
        i_ConfigFile img = Inr cf \<and> decode_config E rc = Inr cf \<and> rf_Type (cf_RootFS cf) = ''layers'' \<and>
        i_RawManifest img = Inr rm \<and> i_Digest img = Inr (sha rm) \<and> i_Size img = Inr (int (length rm)) \<and>
        i_Manifest img = Inr m \<and> decode_manifest E rm = Inr m \<and> d_Size (m_Config m) = int (length rc))"
  by (auto simp: validate_Image_parts validateLayers_iff validateConfig_iff validateManifest_iff list_all_iff)

text \<open>
  A codec on given documents, to apply the theorems at: the text of a document is its position in
  the list, compression puts the gzip magic in front, a tar stream is one entry whose content it is.
\<close>

definition table_codec :: "manifest list \<Rightarrow> index_manifest list \<Rightarrow> config_file list \<Rightarrow> codec" where
  "table_codec ms ims cfs =
     \<lparr>marshal_manifest = (\<lambda>m. show_nat (length (takeWhile (\<lambda>y. y \<noteq> m) ms))),
          marshal_index = (\<lambda>m. show_nat (length (takeWhile (\<lambda>y. y \<noteq> m) ims))),
          marshal_config = (\<lambda>m. show_nat (length (takeWhile (\<lambda>y. y \<noteq> m) cfs))),
          decode_manifest = (\<lambda>b. if parse_digits b < length ms then Inr (ms ! parse_digits b) else Inl ErrUnexpectedEOF),
          decode_index = (\<lambda>b. if parse_digits b < length ims then Inr (ims ! parse_digits b) else Inl ErrUnexpectedEOF),
          decode_config = (\<lambda>b. if parse_digits b < length cfs then Inr (cfs ! parse_digits b) else Inl ErrUnexpectedEOF),
          gzip = (\<lambda>_ b. gzipMagicHeader @ b), gunzip = (\<lambda>b. Inr (drop 2 b)),
          untar = (\<lambda>b. ([(\<lparr>th_Name = b, th_Typeflag = TypeReg, th_Size = 0, th_Mode = 0, th_ModTime = 0, th_Linkname = ''''\<rparr>, [])], None)),
          mktar = (\<lambda>es. Inr (concat (map (th_Name \<circ> fst) es)))\<rparr>"

lemma position_found: "x \<in> set xs \<Longrightarrow> length (takeWhile (\<lambda>y. y \<noteq> x) xs) < length xs \<and> xs ! length (takeWhile (\<lambda>y. y \<noteq> x) xs) = x"
  by (induction xs) auto

lemma table_codec_roundtrip:
  "m \<in> set ms \<Longrightarrow> decode_manifest (table_codec ms ims cfs) (marshal_manifest (table_codec ms ims cfs) m) = Inr m"
  "im \<in> set ims \<Longrightarrow> decode_index (table_codec ms ims cfs) (marshal_index (table_codec ms ims cfs) im) = Inr im"
  "cf \<in> set cfs \<Longrightarrow> decode_config (table_codec ms ims cfs) (marshal_config (table_codec ms ims cfs) cf) = Inr cf"
  using position_found by (fastforce simp: table_codec_def)+

lemma table_codec_gzip: "gunzip (table_codec ms ims cfs) (gzip (table_codec ms ims cfs) level b) = Inr b"
  by (simp add: table_codec_def gzipMagicHeader_def)

text \<open>
  Two things that validate.Image does not look at: the digest of the config in the manifest, and
  entries of the manifest beyond the layers of the image.
\<close>

lemma validate_Image_gap:
  "\<exists>E img m rc ls. validate_Image E img = Inr () \<and> i_Manifest img = Inr m \<and> i_RawConfigFile img = Inr rc \<and>
     i_Layers img = Inr ls \<and> d_Digest (m_Config m) \<noteq> sha rc \<and> length ls < length (m_Layers m)"
proof -
  let ?m = "\<lparr>m_SchemaVersion = 2, m_MediaType = DockerManifestSchema2, m_Config = zero_descriptor\<lparr>d_Size := 1\<rparr>,
             m_Layers = [zero_descriptor], m_Annotations = []\<rparr>"
  let ?cf = "zero_config_file\<lparr>cf_RootFS := \<lparr>rf_Type = ''layers'', rf_DiffIDs = []\<rparr>\<rparr>"
  let ?E = "table_codec [?m] [] [?cf]"
  let ?img = "\<lparr>i_Layers = Inr [], i_MediaType = Inr DockerManifestSchema2, i_Size = Inr 1, i_ConfigName = Inr (sha ''0''),
               i_ConfigFile = Inr ?cf, i_RawConfigFile = Inr ''0'', i_Digest = Inr (sha ''0''), i_Manifest = Inr ?m,
               i_RawManifest = Inr ''0'', i_LayerByDigest = (\<lambda>_. Inl ErrEOF), i_LayerByDiffID = (\<lambda>_. Inl ErrEOF),
               i_Descriptor = None\<rparr>"
  have "validate_Image ?E ?img = Inr ()" 
    by (simp add: validate_Image_parts validateLayers_iff validateConfig_iff validateManifest_iff table_codec_def parse_digits_def digit_val_def)
  moreover have "d_Digest (m_Config ?m) \<noteq> sha ''0''"
    by (simp add: zero_descriptor_def zero_hash_def sha_def SHA256_def)
  ultimately show ?thesis by (intro exI [of _ ?E] exI [of _ ?img] exI [of _ ?m]) simp
qed

section \<open>Indexes\<close>

lemma collect_Nil: "collect f xs = Inr [] \<longleftrightarrow> (\<forall>x\<in>set xs. f x = Inr [])"
  by (induction xs) auto

definition child_ok :: "codec \<Rightarrow> image_index \<Rightarrow> descriptor \<Rightarrow> bool" where
  "child_ok E idx desc =
     (if IsIndex (d_MediaType desc) then
        (case ii_ImageIndex idx (d_Digest desc) of
           Inl _ \<Rightarrow> False
         | Inr child \<Rightarrow> validate_Index E child = Inr () \<and> ii_MediaType child = Inr (d_MediaType desc))
      else if IsImage (d_MediaType desc) then
        (case ii_Image idx (d_Digest desc) of
           Inl _ \<Rightarrow> False
         | Inr img \<Rightarrow> validate_Image E img = Inr () \<and> i_MediaType img = Inr (d_MediaType desc))
      else True)"

lemma validateMediaType_ok [simp]: "validateMediaType mt want = Inr () \<longleftrightarrow> mt = Inr want"
  by (auto simp: validateMediaType_def)

lemma validate_Index_parts:
  "validate_Index E idx = Inr () \<longleftrightarrow>
     (\<exists>rm im. ii_RawManifest idx = Inr rm \<and> ii_Digest idx = Inr (sha rm) \<and> ii_Size idx = Inr (int (length rm)) \<and>
        ii_IndexManifest idx = Inr im \<and> decode_index E rm = Inr im \<and> list_all (child_ok E idx) (im_Manifests im))"
proof (cases idx)
  case (ImageIndex mt dg sz im rm get_image get_index wd)
  let ?g = "\<lambda>h. map_sum id (\<lambda>idx. (ii_MediaType idx, validate_Index E idx)) (get_index h)"
  have c: "child_errors E get_image ?g desc = Inr [] \<longleftrightarrow> child_ok E idx desc" for desc
    by (auto simp: ImageIndex child_errors_def child_ok_def split: sum.splits)
  show ?thesis
    by (auto simp: ImageIndex validateIndexManifest_def sha_def SHA256_def ParseIndexManifest_def collect_Nil
        c [unfolded ImageIndex] list_all_iff)
qed

text \<open>
  C17. What validate.Index accepts: its manifest is what its raw bytes parse to and hash to, and
  every descriptor of an image or of an index media type leads to a child of that media type which
  is itself accepted; descriptors of other media types are passed over.
\<close>

theorem validate_Index_iff:
  "validate_Index E idx = Inr () \<longleftrightarrow>
     (\<exists>rm im. ii_RawManifest idx = Inr rm \<and> ii_Digest idx = Inr (sha rm) \<and> ii_Size idx = Inr (int (length rm)) \<and>
        ii_IndexManifest idx = Inr im \<and> decode_index E rm = Inr im \<and> list_all (child_ok E idx) (im_Manifests im))"
  by (rule validate_Index_parts)

end
