(* ===== verification/Tarball_Layer.thy ===== *)
theory Tarball_Layer
  imports V1_Image
begin

text \<open>
  pkg/v1/tarball/layer.go: a layer from an opener.  Each call of the opener gives a new reader on
  the same content: it is the content together with the result of the first Read of two bytes, on
  which the detection of gzip rests.
\<close>

type_synonym opener = "(bytes \<times> read_result) res"

text \<open>A bytes.Reader, as in LayerFromReader.\<close>

definition bytes_opener :: "bytes \<Rightarrow> opener" where
  "bytes_opener b = Inr (b, if b = [] then ReadEOF [] else ReadData (take 2 b))"

definition open_content :: "opener \<Rightarrow> bytes res" where
  "open_content op = bnd op (\<lambda>(b, _). Inr b)"

record tarball_layer =
  tl_digest :: v1_hash
  tl_diffID :: v1_hash
  tl_size :: int
  tl_compressedopener :: "int \<Rightarrow> bytes res"
  tl_uncompressedopener :: "bytes res"
  tl_compression :: int

text \<open>The closure compressedopener reads the field compression when it is called: it takes its value.\<close>

definition tl_Compressed :: "tarball_layer \<Rightarrow> bytes res" where
  "tl_Compressed l = tl_compressedopener l (tl_compression l)"

definition tarball_layer_iface :: "tarball_layer \<Rightarrow> layer" where
  "tarball_layer_iface l =
     \<lparr>l_Digest = Inr (tl_digest l), l_DiffID = Inr (tl_diffID l), l_Compressed = tl_Compressed l,
      l_Uncompressed = tl_uncompressedopener l, l_Size = Inr (tl_size l), l_MediaType = Inr DockerLayer,
      l_Descriptor = None, l_UncompressedSize = None\<rparr>"

type_synonym layer_option = "tarball_layer \<Rightarrow> tarball_layer"

definition WithCompressionLevel :: "int \<Rightarrow> layer_option" where
  "WithCompressionLevel level l = l\<lparr>tl_compression := level\<rparr>"

text \<open>The memoized bytes are those of the first call, which happens when the digest is computed.\<close>

definition WithCompressedCaching :: layer_option where
  "WithCompressedCaching l = l\<lparr>tl_compressedopener := (\<lambda>level. bnd (tl_compressedopener l level) (\<lambda>buf. Inr buf))\<rparr>"

definition computeDigest :: "bytes res \<Rightarrow> (v1_hash \<times> int) res" where
  "computeDigest rc = bnd rc (\<lambda>b. Inr (SHA256 b))"

definition computeDiffID :: "bytes res \<Rightarrow> v1_hash res" where
  "computeDiffID rc = bnd rc (\<lambda>b. Inr (fst (SHA256 b)))"

definition LayerFromOpener :: "codec \<Rightarrow> opener \<Rightarrow> layer_option list \<Rightarrow> tarball_layer res" where
  "LayerFromOpener E opener opts =
     bnd opener (\<lambda>(content, first).
     bnd (IsGzipped first) (\<lambda>compressed.
     let l0 = \<lparr>tl_digest = zero_hash, tl_diffID = zero_hash, tl_size = 0, tl_compressedopener = (\<lambda>_. Inl nil_deref),
               tl_uncompressedopener = Inl nil_deref, tl_compression = gzip_BestSpeed\<rparr>;
         l1 = (if compressed
               then l0\<lparr>tl_compressedopener := (\<lambda>_. open_content opener),
                       tl_uncompressedopener := bnd (open_content opener) (\<lambda>urc. GunzipReadCloser E urc)\<rparr>
               else l0\<lparr>tl_uncompressedopener := open_content opener,
                       tl_compressedopener := (\<lambda>level. GzipReadCloserLevel E (open_content opener) level)\<rparr>);
         l2 = foldl (\<lambda>l opt. opt l) l1 opts
     in bnd (computeDigest (tl_Compressed l2)) (\<lambda>(digest, sz).
        bnd (computeDiffID (tl_uncompressedopener l2)) (\<lambda>diffID.
        Inr (l2\<lparr>tl_digest := digest, tl_size := sz, tl_diffID := diffID\<rparr>)))))"

definition LayerFromReader :: "codec \<Rightarrow> bytes res \<Rightarrow> layer_option list \<Rightarrow> tarball_layer res" where
  "LayerFromReader E reader opts = bnd reader (\<lambda>a. LayerFromOpener E (bytes_opener a) opts)"

text \<open>LayerFromFile: the files are a map from paths to openers (os.Open).\<close>

definition LayerFromFile :: "codec \<Rightarrow> (string \<Rightarrow> opener) \<Rightarrow> string \<Rightarrow> layer_option list \<Rightarrow> tarball_layer res" where
  "LayerFromFile E open_file path opts = LayerFromOpener E (open_file path) opts"

section \<open>The options\<close>

text \<open>What the options of the package do: they leave the openers as they are, up to memoization.\<close>

definition plain_option :: "layer_option \<Rightarrow> bool" where
  "plain_option f \<longleftrightarrow> (f = WithCompressedCaching \<or> f \<in> range WithCompressionLevel)"

definition same_content :: "tarball_layer \<Rightarrow> tarball_layer \<Rightarrow> bool" where
  "same_content l l' \<longleftrightarrow> (\<forall>level. tl_compressedopener l' level = tl_compressedopener l level) \<and>
     tl_uncompressedopener l' = tl_uncompressedopener l"

lemma plain_option_same: "plain_option f \<Longrightarrow> same_content l (f l)"
  by (auto simp: plain_option_def same_content_def WithCompressedCaching_def WithCompressionLevel_def)

lemma plain_options_same: "list_all plain_option opts \<Longrightarrow> same_content l (foldl (\<lambda>l opt. opt l) l opts)"
proof (induction opts arbitrary: l)
  case (Cons f opts)
  then have "same_content l (f l)" "same_content (f l) (foldl (\<lambda>l opt. opt l) (f l) opts)"
    by (auto intro: plain_option_same)
  then show ?case by (auto simp: same_content_def)
qed (simp add: same_content_def)

definition gzip_law :: "codec \<Rightarrow> bytes \<Rightarrow> bool" where
  "gzip_law E b \<longleftrightarrow> list_all (\<lambda>level. gunzip E (gzip E level b) = Inr b) [-2, -1, 0, 1, 2, 3, 4, 5, 6, 7, 8, 9]"

lemma gzip_lawD:
  assumes "gzip_law E b" and "-2 \<le> level" and "level \<le> 9"
  shows "gunzip E (gzip E level b) = Inr b"
proof -
  have "level \<in> {-2, -1, 0, 1, 2, 3, 4, 5, 6, 7, 8, 9}" using assms(2,3) by simp presburger
  with assms(1) show ?thesis by (auto simp: gzip_law_def)
qed

lemma LayerFromOpener_wf:
  assumes l: "LayerFromOpener E opener opts = Inr l" and o: "list_all plain_option opts"
    and g: "\<And>b r. opener = Inr (b, r) \<Longrightarrow> gzip_law E b"
  shows "wf_layer E (tarball_layer_iface l)"
proof -
  from l obtain content first compressed where op: "opener = Inr (content, first)" and z: "IsGzipped first = Inr compressed"
    by (auto simp: LayerFromOpener_def Let_def)
  define l1 where "l1 = (if compressed
      then \<lparr>tl_digest = zero_hash, tl_diffID = zero_hash, tl_size = 0, tl_compressedopener = (\<lambda>_. open_content opener),
            tl_uncompressedopener = bnd (open_content opener) (\<lambda>urc. GunzipReadCloser E urc), tl_compression = gzip_BestSpeed\<rparr>
      else \<lparr>tl_digest = zero_hash, tl_diffID = zero_hash, tl_size = 0,
            tl_compressedopener = (\<lambda>level. GzipReadCloserLevel E (open_content opener) level),
            tl_uncompressedopener = open_content opener, tl_compression = gzip_BestSpeed\<rparr>)"
  define l2 where "l2 = foldl (\<lambda>l opt. opt l) l1 opts"
  have same: "same_content l1 l2" unfolding l2_def using o by (rule plain_options_same)
  from l op z obtain c u where c: "tl_Compressed l2 = Inr c" and u: "tl_uncompressedopener l2 = Inr u"
    and l': "l = l2\<lparr>tl_digest := sha c, tl_size := int (length c), tl_diffID := sha u\<rparr>"
    by (auto simp: LayerFromOpener_def Let_def l2_def l1_def computeDigest_def computeDiffID_def sha_def SHA256_def
        cong: if_cong)
  have "gunzip E c = Inr u"
    using same c u op g [OF op]
    by (auto simp: same_content_def l1_def tl_Compressed_def open_content_def GunzipReadCloser_def GzipReadCloserLevel_def
        intro: gzip_lawD split: if_splits)
  with c u l' show ?thesis
    by (simp add: wf_layer_def tarball_layer_iface_def tl_Compressed_def)
qed

lemma LayerFromReader_wf:
  "LayerFromReader E (Inr a) opts = Inr l \<Longrightarrow> list_all plain_option opts \<Longrightarrow> gzip_law E a \<Longrightarrow>
     wf_layer E (tarball_layer_iface l)"
  by (auto simp: LayerFromReader_def bytes_opener_def intro: LayerFromOpener_wf)

interpretation tarball_source: layer_source
    "\<lambda>a. case LayerFromReader E (Inr a) [] of Inl _ \<Rightarrow> nil_layer | Inr l \<Rightarrow> tarball_layer_iface l"
    "\<lambda>a. is_ok (LayerFromReader E (Inr a) []) \<and> gzip_law E a" E for E
  by unfold_locales (auto simp: is_ok_iff intro: LayerFromReader_wf [where opts = "[]", simplified])

lemma IsGzipped_bytes:
  "IsGzipped (if b = [] then ReadEOF [] else ReadData (take 2 b)) = Inr (take 2 b = gzipMagicHeader)"
  by (simp add: IsGzipped_def gzipMagicHeader_def)

lemma tl_content:
  assumes "list_all plain_option opts" and "LayerFromReader E (Inr a) opts = Inr l"
  shows "if take 2 a = gzipMagicHeader then l_Compressed (tarball_layer_iface l) = Inr a
         else l_Uncompressed (tarball_layer_iface l) = Inr a"
proof -
  define l1 where "l1 = (if take 2 a = gzipMagicHeader
      then \<lparr>tl_digest = zero_hash, tl_diffID = zero_hash, tl_size = 0, tl_compressedopener = (\<lambda>_. Inr a),
            tl_uncompressedopener = GunzipReadCloser E a, tl_compression = gzip_BestSpeed\<rparr>
      else \<lparr>tl_digest = zero_hash, tl_diffID = zero_hash, tl_size = 0,
            tl_compressedopener = (\<lambda>level. GzipReadCloserLevel E (Inr a) level),
            tl_uncompressedopener = Inr a, tl_compression = gzip_BestSpeed\<rparr>)"
  define l2 where "l2 = foldl (\<lambda>l opt. opt l) l1 opts"
  have "same_content l1 l2" unfolding l2_def using assms(1) by (rule plain_options_same)
  moreover have "tl_compressedopener l = tl_compressedopener l2 \<and> tl_uncompressedopener l = tl_uncompressedopener l2"
    using assms(2) IsGzipped_bytes [of a]
    by (auto simp: LayerFromReader_def LayerFromOpener_def bytes_opener_def open_content_def Let_def l2_def l1_def cong: if_cong)
  ultimately show ?thesis
    by (auto simp: same_content_def l1_def tarball_layer_iface_def tl_Compressed_def)
qed

text \<open>
  A layer made from the bytes of a reader serves these bytes, as its compressed content when
  they begin with the gzip magic and as its uncompressed content otherwise, and its digest, size and
  diff id are those of its two contents, provided that decompression undoes compression on them.
\<close>

theorem LayerFromReader_spec:
  assumes "LayerFromReader E (Inr a) opts = Inr l" and "list_all plain_option opts" and "gzip_law E a"
  shows "wf_layer E (tarball_layer_iface l) \<and>
         (if take 2 a = gzipMagicHeader then l_Compressed (tarball_layer_iface l) = Inr a
          else l_Uncompressed (tarball_layer_iface l) = Inr a)"
  using tl_content [OF assms(2,1)] LayerFromReader_wf [OF assms] by simp

text \<open>A codec whose compression puts the magic in front.\<close>

definition magic_codec :: codec where
  "magic_codec =
     \<lparr>marshal_manifest = (\<lambda>_. ''m''), marshal_index = (\<lambda>_. ''i''), marshal_config = (\<lambda>_. ''c''),
      decode_manifest = (\<lambda>_. Inl ErrEOF), decode_index = (\<lambda>_. Inl ErrEOF), decode_config = (\<lambda>_. Inl ErrEOF),
      gzip = (\<lambda>_ b. gzipMagicHeader @ b), gunzip = (\<lambda>b. Inr (drop 2 b)), untar = (\<lambda>_. ([], None)),
      mktar = (\<lambda>_. Inr ''t'')\<rparr>"

theorem LayerFromReader_spec_witness:
  "\<exists>l. LayerFromReader magic_codec (Inr ''abc'') [WithCompressedCaching, WithCompressionLevel 9] = Inr l \<and>
     wf_layer magic_codec (tarball_layer_iface l) \<and> l_Uncompressed (tarball_layer_iface l) = Inr ''abc''"
proof -
  have "is_ok (LayerFromReader magic_codec (Inr ''abc'') [WithCompressedCaching, WithCompressionLevel 9])"
    by (simp add: LayerFromReader_def LayerFromOpener_def bytes_opener_def IsGzipped_def gzipMagicHeader_def open_content_def
        Let_def WithCompressedCaching_def WithCompressionLevel_def computeDigest_def computeDiffID_def tl_Compressed_def
        GzipReadCloserLevel_def SHA256_def)
  then obtain l where l: "LayerFromReader magic_codec (Inr ''abc'') [WithCompressedCaching, WithCompressionLevel 9] = Inr l"
    by (auto simp: is_ok_iff)
  have "list_all plain_option [WithCompressedCaching, WithCompressionLevel 9]" by (simp add: plain_option_def)
  moreover have "gzip_law magic_codec ''abc''" by (simp add: gzip_law_def magic_codec_def gzipMagicHeader_def)
  ultimately show ?thesis
    using LayerFromReader_spec [OF l] l by (simp add: gzipMagicHeader_def)
qed

end
