(* ===== verification/Go_Path.thy ===== *)
theory Go_Path
  imports Go_Prelude
begin

text \<open>
  The lexical path functions of packages path and path/filepath on a slash-separated system
  (Clean, Join, Dir, Base), with the size facts that make the loops over parent directories
  terminate.
\<close>

section \<open>Clean\<close>

text \<open>
  Clean walks the elements of the path with a stack (innermost element first): empty elements and
  single dots are dropped, a double dot removes the element before it, except at the root, where
  it is dropped, and at the start of a relative path, where it stays.
\<close>

definition clean_step :: "bool \<Rightarrow> string list \<Rightarrow> string \<Rightarrow> string list" where
  "clean_step rooted st e =
     (if e = '''' \<or> e = ''.'' then st
      else if e = ''..'' then
        (case st of
           [] \<Rightarrow> (if rooted then [] else [''..''])
         | t # ts \<Rightarrow> (if t = ''..'' then ''..'' # st else ts))
      else e # st)"

definition is_rooted :: "string \<Rightarrow> bool" where
  "is_rooted s = (case s of [] \<Rightarrow> False | c # _ \<Rightarrow> c = CHR ''/'')"

definition clean_elems :: "string \<Rightarrow> string list" where
  "clean_elems s = rev (foldl (clean_step (is_rooted s)) [] (split_on (CHR ''/'') s))"

definition path_clean :: "string \<Rightarrow> string" where
  "path_clean s =
     (let out = join_with (CHR ''/'') (clean_elems s) in
      if is_rooted s then CHR ''/'' # out
      else if out = '''' then ''.'' else out)"

definition path_join :: "string list \<Rightarrow> string" where
  "path_join elems =
     (let es = filter (\<lambda>e. e \<noteq> '''') elems in
      if es = [] then '''' else path_clean (join_with (CHR ''/'') es))"

text \<open>Everything up to and including the last slash.\<close>

definition dir_part :: "string \<Rightarrow> string" where
  "dir_part s = rev (dropWhile (\<lambda>c. c \<noteq> CHR ''/'') (rev s))"

definition path_dir :: "string \<Rightarrow> string" where
  "path_dir s = path_clean (dir_part s)"

definition path_base :: "string \<Rightarrow> string" where
  "path_base s =
     (if s = '''' then ''.''
      else (let t = rev (dropWhile (\<lambda>c. c = CHR ''/'') (rev s)) in
            if t = '''' then ''/''
            else rev (takeWhile (\<lambda>c. c \<noteq> CHR ''/'') (rev t))))"

section \<open>Sizes\<close>

definition wt :: "string list \<Rightarrow> nat" where
  "wt es = (\<Sum>e\<leftarrow>es. Suc (length e))"

lemma wt_simps [simp]:
  "wt [] = 0" "wt (e # es) = Suc (length e) + wt es" "wt (es @ fs) = wt es + wt fs" "wt (rev es) = wt es"
  by (simp_all add: wt_def rev_map [symmetric])

lemma length_join_with: "length (join_with c ps) = wt ps - 1"
proof (induction ps)
  case (Cons p ps)
  then show ?case by (cases ps) auto
qed simp

lemma wt_split_on: "wt (split_on c s) = Suc (length s)"
proof (induction s)
  case (Cons x xs)
  obtain p ps where "split_on c xs = p # ps" by (cases "split_on c xs") auto
  with Cons show ?case by auto
qed simp

lemma wt_clean_step: "wt (clean_step r st e) \<le> wt st + wt [e]"
  by (auto simp: clean_step_def split: list.splits)

lemma clean_step_empty [simp]: "clean_step r st [] = st"
  by (simp add: clean_step_def)

lemma wt_clean_foldl: "wt (foldl (clean_step r) st es) \<le> wt st + wt es"
proof (induction es arbitrary: st)
  case (Cons e es)
  have "wt (foldl (clean_step r) (clean_step r st e) es) \<le> wt (clean_step r st e) + wt es"
    by (rule Cons.IH)
  with wt_clean_step [of r st e] show ?case by simp
qed simp

lemma wt_clean_elems_rooted: "wt (clean_elems (CHR ''/'' # s)) \<le> Suc (length s)"
  using wt_clean_foldl [of True "[]" "split_on (CHR ''/'') s"]
  by (simp add: clean_elems_def is_rooted_def wt_split_on)

lemma wt_clean_elems: "wt (clean_elems s) \<le> Suc (length s)"
  using wt_clean_foldl [of "is_rooted s" "[]" "split_on (CHR ''/'') s"]
  by (simp add: clean_elems_def wt_split_on)

lemma wt_clean_elems_trailing:
  assumes "s \<noteq> []"
  shows "wt (clean_elems (s @ ''/'')) \<le> (if is_rooted s then length s else Suc (length s))"
proof -
  have r: "is_rooted (s @ ''/'') = is_rooted s"
    using assms by (cases s) (auto simp: is_rooted_def)
  have e: "clean_elems (s @ ''/'') = clean_elems s"
    using split_on_append_last [of "CHR ''/''" "[]" s] r by (simp add: clean_elems_def)
  show ?thesis
  proof (cases s)
    case (Cons c t)
    then show ?thesis
      using e wt_clean_elems_rooted [of t] wt_clean_elems [of s] by (auto simp: is_rooted_def)
  qed (use assms in simp)
qed

lemma length_path_clean_trailing:
  assumes "s \<noteq> []"
  shows "length (path_clean (s @ ''/'')) \<le> length s"
proof -
  have r: "is_rooted (s @ ''/'') = is_rooted s"
    using assms by (cases s) (auto simp: is_rooted_def)
  have "length s \<ge> 1" using assms by (cases s) auto
  with wt_clean_elems_trailing [OF assms] show ?thesis
    by (auto simp: path_clean_def Let_def r length_join_with split: if_splits)
qed

lemma dir_part_cases: "dir_part s = [] \<or> (\<exists>p t. s = p @ CHR ''/'' # t \<and> dir_part s = p @ ''/'')"
proof (cases "dropWhile (\<lambda>c. c \<noteq> CHR ''/'') (rev s)")
  case Nil
  then show ?thesis by (simp add: dir_part_def)
next
  case (Cons c r)
  then have c: "c = CHR ''/''"
    by (metis (mono_tags, lifting) hd_dropWhile list.discI list.sel(1))
  have "rev s = takeWhile (\<lambda>c. c \<noteq> CHR ''/'') (rev s) @ c # r"
    using Cons by (metis takeWhile_dropWhile_id)
  then have "s = rev r @ CHR ''/'' # rev (takeWhile (\<lambda>c. c \<noteq> CHR ''/'') (rev s))"
    using c by (metis append.assoc append_Cons append_Nil rev.simps(2) rev_append rev_rev_ident)
  moreover have "dir_part s = rev r @ ''/''" using Cons c by (simp add: dir_part_def)
  ultimately show ?thesis by blast
qed

text \<open>The measure that every step to the parent directory decreases.\<close>

definition path_rank :: "string \<Rightarrow> nat" where
  "path_rank s = 2 * length s + (if s = ''.'' then 0 else 1)"

lemma path_dir_rank:
  assumes "s \<noteq> ''''" and "path_dir s \<noteq> s"
  shows "path_rank (path_dir s) < path_rank s"
proof -
  consider "dir_part s = []" | p t where "s = p @ CHR ''/'' # t" "dir_part s = p @ ''/''"
    using dir_part_cases [of s] by blast
  then show ?thesis
  proof cases
    case 1
    then have d: "path_dir s = ''.''"
      by (simp add: path_dir_def path_clean_def clean_elems_def is_rooted_def clean_step_def)
    have "length s \<ge> 1" using assms(1) by (cases s) auto
    with d assms(2) show ?thesis by (auto simp: path_rank_def)
  next
    case (2 p t)
    show ?thesis
    proof (cases "p = []")
      case True
      then have d: "path_dir s = ''/''"
        using 2 by (simp add: path_dir_def path_clean_def clean_elems_def is_rooted_def clean_step_def)
      have "t \<noteq> []" using True 2 assms(2) d by auto
      then have "length t \<ge> 1" by (cases t) auto
      with d 2 True show ?thesis by (auto simp: path_rank_def)
    next
      case False
      then have "length (path_dir s) \<le> length p"
        using length_path_clean_trailing [of p] 2 by (simp add: path_dir_def)
      with 2 show ?thesis by (auto simp: path_rank_def)
    qed
  qed
qed

end
