(* ===== verification/Mutate.thy ===== *)
theory Mutate
  imports Tarball_Layer Validate Go_Path Go_Url
begin

text \<open>
  pkg/v1/mutate, images: appending layers, replacing the config, media types, timestamps (mutate.go
  and image.go).  The struct image memoizes what compute finds: it is a state that the methods take
  and return.
\<close>

section \<open>The struct image\<close>

record addendum =
  a_Layer :: "layer option"
  a_History :: history
  a_URLs :: "string list"
  a_Annotations :: string_map
  a_MediaType :: media_type

record mimage =
  mi_base :: image
  mi_adds :: "addendum list"
  mi_computed :: bool
  mi_configFile :: "config_file option"
  mi_manifest :: "manifest option"
  mi_mediaType :: "media_type option"
  mi_diffIDMap :: "v1_hash \<Rightarrow> layer option"
  mi_digestMap :: "v1_hash \<Rightarrow> layer option"

definition new_mimage :: "image \<Rightarrow> addendum list \<Rightarrow> mimage" where
  "new_mimage base adds =
     \<lparr>mi_base = base, mi_adds = adds, mi_computed = False, mi_configFile = None, mi_manifest = None,
      mi_mediaType = None, mi_diffIDMap = Map.empty, mi_digestMap = Map.empty\<rparr>"

definition mi_MediaType :: "mimage \<Rightarrow> media_type res" where
  "mi_MediaType i = (case mi_mediaType i of Some mt \<Rightarrow> Inr mt | None \<Rightarrow> i_MediaType (mi_base i))"

text \<open>The two loops of compute: over the config file and over the manifest.\<close>

fun add_diffIDs ::
    "addendum list \<Rightarrow> v1_hash list \<times> history list \<times> (v1_hash \<Rightarrow> layer option)
     \<Rightarrow> (v1_hash list \<times> history list \<times> (v1_hash \<Rightarrow> layer option)) res" where
  "add_diffIDs [] st = Inr st"
| "add_diffIDs (add # adds) (diffIDs, hist, dmap) =
     (case a_Layer add of
        None \<Rightarrow> add_diffIDs adds (diffIDs, hist @ [a_History add], dmap)
      | Some l \<Rightarrow>
          bnd (l_DiffID l) (\<lambda>diffID.
          add_diffIDs adds (diffIDs @ [diffID], hist @ [a_History add], dmap(diffID \<mapsto> l))))"

definition override_descriptor :: "addendum \<Rightarrow> descriptor \<Rightarrow> descriptor" where
  "override_descriptor add desc =
     (let desc1 = (if length (a_Annotations add) \<noteq> 0 then desc\<lparr>d_Annotations := a_Annotations add\<rparr> else desc);
          desc2 = (if length (a_URLs add) \<noteq> 0 then desc1\<lparr>d_URLs := a_URLs add\<rparr> else desc1)
      in if a_MediaType add \<noteq> '''' then desc2\<lparr>d_MediaType := a_MediaType add\<rparr> else desc2)"

fun add_descriptors ::
    "addendum list \<Rightarrow> descriptor list \<times> (v1_hash \<Rightarrow> layer option) \<Rightarrow> (descriptor list \<times> (v1_hash \<Rightarrow> layer option)) res" where
  "add_descriptors [] st = Inr st"
| "add_descriptors (add # adds) (ds, gmap) =
     (case a_Layer add of
        None \<Rightarrow> add_descriptors adds (ds, gmap)
      | Some l \<Rightarrow>
          bnd (layer_Descriptor l) (\<lambda>d.
          let desc = override_descriptor add d in
          add_descriptors adds (ds @ [desc], gmap(d_Digest desc \<mapsto> l))))"

text \<open>With OCI media types the media type of the manifest is cleared, with Docker ones it is set.\<close>

definition manifest_mediaType :: "media_type option \<Rightarrow> media_type \<Rightarrow> media_type" where
  "manifest_mediaType mt old =
     (case mt of
        None \<Rightarrow> old
      | Some t \<Rightarrow>
          if contains t OCIVendorPrefix then ''''
          else if contains t DockerVendorPrefix then t
          else old)"

definition compute :: "codec \<Rightarrow> mimage \<Rightarrow> mimage res" where
  "compute E i =
     (if mi_computed i then Inr i
      else
        bnd (case mi_configFile i of Some cf \<Rightarrow> Inr cf | None \<Rightarrow> i_ConfigFile (mi_base i)) (\<lambda>configFile.
        bnd (add_diffIDs (mi_adds i) (rf_DiffIDs (cf_RootFS configFile), cf_History configFile, Map.empty))
          (\<lambda>(diffIDs, hist, diffIDMap).
        bnd (i_Manifest (mi_base i)) (\<lambda>manifest.
        bnd (add_descriptors (mi_adds i) (m_Layers manifest, Map.empty)) (\<lambda>(manifestLayers, digestMap).
        let configFile' = configFile\<lparr>cf_RootFS := (cf_RootFS configFile)\<lparr>rf_DiffIDs := diffIDs\<rparr>, cf_History := hist\<rparr>;
            rcfg = marshal_config E configFile';
            (d, sz) = SHA256 rcfg;
            manifest' = manifest\<lparr>m_Layers := manifestLayers,
                                 m_Config := (m_Config manifest)\<lparr>d_Digest := d, d_Size := sz\<rparr>,
                                 m_MediaType := manifest_mediaType (mi_mediaType i) (m_MediaType manifest)\<rparr>
        in Inr (i\<lparr>mi_configFile := Some configFile', mi_manifest := Some manifest', mi_diffIDMap := diffIDMap,
                  mi_digestMap := digestMap, mi_computed := True\<rparr>))))))"

text \<open>A method that starts with compute and returns its error.\<close>

definition after_compute :: "codec \<Rightarrow> mimage \<Rightarrow> (mimage \<Rightarrow> 'a res) \<Rightarrow> 'a res \<times> mimage" where
  "after_compute E i f = (case compute E i of Inl e \<Rightarrow> (Inl e, i) | Inr j \<Rightarrow> (f j, j))"

definition deref :: "'a option \<Rightarrow> 'a res" where
  "deref p = (case p of None \<Rightarrow> Inl nil_deref | Some x \<Rightarrow> Inr x)"

text \<open>The map diffIDMap is nil before compute has run: then the base is asked.\<close>

definition mi_LayerByDiffID :: "mimage \<Rightarrow> v1_hash \<Rightarrow> layer res" where
  "mi_LayerByDiffID i h =
     (case mi_diffIDMap i h of Some l \<Rightarrow> Inr l | None \<Rightarrow> i_LayerByDiffID (mi_base i) h)"

definition mi_Layers :: "codec \<Rightarrow> mimage \<Rightarrow> layer list res \<times> mimage" where
  "mi_Layers E i =
     (case compute E i of
        Inl e \<Rightarrow>
          if e = ErrNotComputed
          then (bnd (i_Layers (mi_base i)) (\<lambda>ls.
                Inr (ls @ map (\<lambda>add. case a_Layer add of Some l \<Rightarrow> l | None \<Rightarrow> nil_layer) (mi_adds i))), i)
          else (Inl e, i)
      | Inr j \<Rightarrow>
          (bnd (partial_DiffIDs (deref (mi_configFile j))) (\<lambda>diffIDs. map_res (mi_LayerByDiffID j) diffIDs), j))"

definition mi_ConfigFile :: "codec \<Rightarrow> mimage \<Rightarrow> config_file res \<times> mimage" where
  "mi_ConfigFile E i = after_compute E i (\<lambda>j. deref (mi_configFile j))"

definition mi_RawConfigFile :: "codec \<Rightarrow> mimage \<Rightarrow> bytes res \<times> mimage" where
  "mi_RawConfigFile E i = after_compute E i (\<lambda>j. bnd (deref (mi_configFile j)) (\<lambda>cf. Inr (marshal_config E cf)))"

definition mi_ConfigName :: "codec \<Rightarrow> mimage \<Rightarrow> v1_hash res \<times> mimage" where
  "mi_ConfigName E i = after_compute E i (\<lambda>j. partial_ConfigName (fst (mi_RawConfigFile E j)))"

definition mi_Manifest :: "codec \<Rightarrow> mimage \<Rightarrow> manifest res \<times> mimage" where
  "mi_Manifest E i = after_compute E i (\<lambda>j. deref (mi_manifest j))"

definition mi_RawManifest :: "codec \<Rightarrow> mimage \<Rightarrow> bytes res \<times> mimage" where
  "mi_RawManifest E i = after_compute E i (\<lambda>j. bnd (deref (mi_manifest j)) (\<lambda>m. Inr (marshal_manifest E m)))"

definition mi_Digest :: "codec \<Rightarrow> mimage \<Rightarrow> v1_hash res \<times> mimage" where
  "mi_Digest E i = after_compute E i (\<lambda>j. partial_Digest (fst (mi_RawManifest E j)))"

definition mi_Size :: "codec \<Rightarrow> mimage \<Rightarrow> int res \<times> mimage" where
  "mi_Size E i = after_compute E i (\<lambda>j. partial_Size (fst (mi_RawManifest E j)))"

definition mi_LayerByDigest :: "codec \<Rightarrow> mimage \<Rightarrow> v1_hash \<Rightarrow> layer res \<times> mimage" where
  "mi_LayerByDigest E i h =
     (case mi_ConfigName E i of
        (Inl e, j) \<Rightarrow> (Inl e, j)
      | (Inr cn, j) \<Rightarrow>
          (if h = cn then partial_ConfigLayer (fst (mi_RawConfigFile E j))
           else (case mi_digestMap j h of Some l \<Rightarrow> Inr l | None \<Rightarrow> i_LayerByDigest (mi_base j) h), j))"

text \<open>
  The struct as a v1.Image: the results of its methods once one of them has run compute.  If compute
  fails it is run again by every method and fails again.
\<close>

definition as_image :: "codec \<Rightarrow> mimage \<Rightarrow> image" where
  "as_image E i =
     (let j = (case compute E i of Inl _ \<Rightarrow> i | Inr j \<Rightarrow> j) in
      \<lparr>i_Layers = fst (mi_Layers E j), i_MediaType = mi_MediaType j, i_Size = fst (mi_Size E j),
       i_ConfigName = fst (mi_ConfigName E j), i_ConfigFile = fst (mi_ConfigFile E j),
       i_RawConfigFile = fst (mi_RawConfigFile E j), i_Digest = fst (mi_Digest E j), i_Manifest = fst (mi_Manifest E j),
       i_RawManifest = fst (mi_RawManifest E j), i_LayerByDigest = (\<lambda>h. fst (mi_LayerByDigest E j h)),
       i_LayerByDiffID = mi_LayerByDiffID j, i_Descriptor = None\<rparr>)"

section \<open>mutate.go: the constructors\<close>

fun mutate_validate :: "addendum list \<Rightarrow> unit res" where
  "mutate_validate [] = Inr ()"
| "mutate_validate (add # adds) =
     (if a_Layer add = None \<and> \<not> h_EmptyLayer (a_History add)
      then Inl (ErrMsg ''unable to add a nil layer to the image'')
      else mutate_validate adds)"

definition Append :: "codec \<Rightarrow> image \<Rightarrow> addendum list \<Rightarrow> image res" where
  "Append E base adds =
     (if length adds = 0 then Inr base
      else bnd (mutate_validate adds) (\<lambda>_. Inr (as_image E (new_mimage base adds))))"

definition layer_addendum :: "layer \<Rightarrow> addendum" where
  "layer_addendum l = \<lparr>a_Layer = Some l, a_History = zero_history, a_URLs = [], a_Annotations = [], a_MediaType = ''''\<rparr>"

definition AppendLayers :: "codec \<Rightarrow> image \<Rightarrow> layer list \<Rightarrow> image res" where
  "AppendLayers E base layers = Append E base (map layer_addendum layers)"

definition new_config_image :: "image \<Rightarrow> config_file \<Rightarrow> mimage res" where
  "new_config_image base cfg =
     bnd (i_Manifest base) (\<lambda>m.
     Inr ((new_mimage base [])\<lparr>mi_manifest := Some m, mi_configFile := Some cfg\<rparr>))"

definition mutate_ConfigFile :: "codec \<Rightarrow> image \<Rightarrow> config_file \<Rightarrow> image res" where
  "mutate_ConfigFile E base cfg = bnd (new_config_image base cfg) (\<lambda>i. Inr (as_image E i))"

definition mutate_Config :: "codec \<Rightarrow> image \<Rightarrow> v1_config \<Rightarrow> image res" where
  "mutate_Config E base cfg =
     bnd (i_ConfigFile base) (\<lambda>cf. mutate_ConfigFile E base (cf\<lparr>cf_Config := cfg\<rparr>))"

text \<open>
  Config assigns to a field of the config file that the base returned.  When the base is itself a
  struct image, that is the config file it has memoized: this is the base after the call.
\<close>

definition Config_on_mimage :: "codec \<Rightarrow> mimage \<Rightarrow> v1_config \<Rightarrow> mimage" where
  "Config_on_mimage E i cfg =
     (case mi_ConfigFile E i of
        (Inl _, j) \<Rightarrow> j
      | (Inr cf, j) \<Rightarrow> j\<lparr>mi_configFile := Some (cf\<lparr>cf_Config := cfg\<rparr>)\<rparr>)"

definition CreatedAt :: "codec \<Rightarrow> image \<Rightarrow> go_time \<Rightarrow> image res" where
  "CreatedAt E base created =
     bnd (i_ConfigFile base) (\<lambda>cf. mutate_ConfigFile E base (cf\<lparr>cf_Created := created\<rparr>))"

definition mutate_MediaType :: "codec \<Rightarrow> image \<Rightarrow> media_type \<Rightarrow> image" where
  "mutate_MediaType E img mt = as_image E ((new_mimage img [])\<lparr>mi_mediaType := Some mt\<rparr>)"

section \<open>mutate.go: timestamps\<close>

definition retime :: "go_time \<Rightarrow> tar_entry \<Rightarrow> tar_entry" where
  "retime t = (\<lambda>(hdr, content). (hdr\<lparr>th_ModTime := t\<rparr>, if th_Typeflag hdr = TypeReg then content else []))"

text \<open>The opener gzips the rewritten tar into a pipe: its first Read gives the start of the stream.\<close>

definition layerTime :: "codec \<Rightarrow> layer \<Rightarrow> go_time \<Rightarrow> layer res" where
  "layerTime E layer t =
     (case l_Uncompressed layer of
        Inl _ \<Rightarrow> Inl (ErrMsg ''getting layer'')
      | Inr r \<Rightarrow>
          (case untar E r of
             (_, Some err) \<Rightarrow> Inl (ErrMsg ''reading layer'')
           | (entries, None) \<Rightarrow>
               (case mktar E (map (retime t) entries) of
                  Inl _ \<Rightarrow> Inl (ErrMsg ''writing tar header'')
                | Inr b \<Rightarrow>
                    (case bnd (GzipReadCloser E (Inr b)) (\<lambda>z. LayerFromOpener E (bytes_opener z) []) of
                       Inl _ \<Rightarrow> Inl (ErrMsg ''creating layer'')
                     | Inr l \<Rightarrow> Inr (tarball_layer_iface l)))))"

text \<open>
  The loop over the history assigns to its loop variable, a copy of the entry: it leaves the
  history of the new config file as it is.
\<close>

definition mutate_Time :: "codec \<Rightarrow> image \<Rightarrow> go_time \<Rightarrow> image res" where
  "mutate_Time E img t =
     (case i_Layers img of
        Inl _ \<Rightarrow> Inl (ErrMsg ''getting image layers'')
      | Inr layers \<Rightarrow>
          (case map_res (\<lambda>l. layerTime E l t) layers of
             Inl _ \<Rightarrow> Inl (ErrMsg ''setting layer times'')
           | Inr newLayers \<Rightarrow>
               (case AppendLayers E (empty_Image E) newLayers of
                  Inl _ \<Rightarrow> Inl (ErrMsg ''appending layers'')
                | Inr newImage \<Rightarrow>
                    (case i_ConfigFile img of
                       Inl _ \<Rightarrow> Inl (ErrMsg ''getting original config file'')
                     | Inr ocf \<Rightarrow>
                         (case i_ConfigFile newImage of
                            Inl _ \<Rightarrow> Inl (ErrMsg ''setting config file'')
                          | Inr cf \<Rightarrow>
                              mutate_ConfigFile E newImage
                                (cf\<lparr>cf_Architecture := cf_Architecture ocf, cf_OS := cf_OS ocf, cf_OSVersion := cf_OSVersion ocf,
                                    cf_Config := cf_Config ocf, cf_Created := t\<rparr>))))))"

definition Canonical :: "codec \<Rightarrow> image \<Rightarrow> image res" where
  "Canonical E img =
     bnd (mutate_Time E img 0) (\<lambda>img.
     bnd (i_ConfigFile img) (\<lambda>cf.
     mutate_ConfigFile E img
       (cf\<lparr>cf_Container := '''', cf_Config := (cf_Config cf)\<lparr>c_Hostname := ''''\<rparr>, cf_DockerVersion := ''''\<rparr>)))"

section \<open>Memoization\<close>

lemma compute_computed [simp]: "mi_computed i \<Longrightarrow> compute E i = Inr i"
  by (simp add: compute_def)

lemma compute_result: "compute E i = Inr j \<Longrightarrow> mi_computed j \<and> compute E j = Inr j"
  by (auto simp: compute_def SHA256_def Let_def split: if_splits)

lemmas mi_method_defs = mi_ConfigFile_def mi_RawConfigFile_def mi_ConfigName_def mi_Manifest_def mi_RawManifest_def
  mi_Digest_def mi_Size_def after_compute_def

section \<open>The loops of compute\<close>

definition add_layers :: "addendum list \<Rightarrow> layer list" where
  "add_layers adds = List.map_filter a_Layer adds"

lemma add_layers_simps [simp]:
  "add_layers [] = []"
  "add_layers (a # as) = (case a_Layer a of None \<Rightarrow> add_layers as | Some l \<Rightarrow> l # add_layers as)"
  by (simp_all add: add_layers_def map_filter_def split: option.splits)

definition diff_id :: "layer \<Rightarrow> v1_hash" where
  "diff_id l = (case l_DiffID l of Inr h \<Rightarrow> h | Inl _ \<Rightarrow> zero_hash)"

definition map_of_layers :: "(layer \<Rightarrow> v1_hash) \<Rightarrow> layer list \<Rightarrow> (v1_hash \<Rightarrow> layer option) \<Rightarrow> v1_hash \<Rightarrow> layer option" where
  "map_of_layers key ls m = foldl (\<lambda>m l. m(key l \<mapsto> l)) m ls"

lemma map_of_layers_simps [simp]:
  "map_of_layers key [] m = m"
  "map_of_layers key (l # ls) m = map_of_layers key ls (m(key l \<mapsto> l))"
  by (simp_all add: map_of_layers_def)

lemma map_of_layers_Some: "map_of_layers key ls m h = Some l \<Longrightarrow> (l \<in> set ls \<and> key l = h) \<or> m h = Some l"
  by (induction ls arbitrary: m) (fastforce split: if_splits)+

lemma map_of_layers_dom: "map_of_layers key ls m h \<noteq> None \<longleftrightarrow> h \<in> key ` set ls \<or> m h \<noteq> None"
  by (induction ls arbitrary: m) auto

lemma add_diffIDs_eq:
  assumes "list_all (\<lambda>l. is_ok (l_DiffID l)) (add_layers adds)"
  shows "add_diffIDs adds (ds, hs, dm) =
    Inr (ds @ map diff_id (add_layers adds), hs @ map a_History adds, map_of_layers diff_id (add_layers adds) dm)"
  using assms
proof (induction adds arbitrary: ds hs dm)
  case (Cons a adds)
  then show ?case
    by (cases "a_Layer a") (auto simp: is_ok_iff diff_id_def)
qed simp

definition addendum_ok :: "codec \<Rightarrow> addendum \<Rightarrow> bool" where
  "addendum_ok E add =
     (case a_Layer add of
        None \<Rightarrow> True
      | Some l \<Rightarrow>
          (case layer_Descriptor l of Inl _ \<Rightarrow> False | Inr d \<Rightarrow> layer_matches E l (override_descriptor add d)))"

lemma add_descriptors_ok:
  assumes "list_all (addendum_ok E) adds"
  shows "\<exists>new gm'. add_descriptors adds (ds, gm) = Inr (ds @ new, gm') \<and> list_all2 (layer_matches E) (add_layers adds) new \<and>
           dom gm' = dom gm \<union> d_Digest ` set new"
  using assms
proof (induction adds arbitrary: ds gm)
  case (Cons a adds)
  show ?case
  proof (cases "a_Layer a")
    case None
    with Cons show ?thesis by simp
  next
    case (Some l)
    with Cons.prems obtain d where d: "layer_Descriptor l = Inr d" "layer_matches E l (override_descriptor a d)"
      by (auto simp: addendum_ok_def split: sum.splits)
    let ?d = "override_descriptor a d"
    from Cons.prems have "list_all (addendum_ok E) adds" by simp
    from Cons.IH [OF this, of "ds @ [?d]" "gm(d_Digest ?d \<mapsto> l)"]
    obtain new gm' where n: "add_descriptors adds (ds @ [?d], gm(d_Digest ?d \<mapsto> l)) = Inr ((ds @ [?d]) @ new, gm')"
      "list_all2 (layer_matches E) (add_layers adds) new" "dom gm' = dom (gm(d_Digest ?d \<mapsto> l)) \<union> d_Digest ` set new"
      by blast
    with Some d show ?thesis by (intro exI [of _ "?d # new"] exI [of _ gm']) (auto simp: Let_def)
  qed
qed simp

lemma addendum_layer_wf: "list_all (addendum_ok E) adds \<Longrightarrow> l \<in> set (add_layers adds) \<Longrightarrow> wf_layer E l"
proof (induction adds)
  case (Cons a adds)
  then show ?case by (cases "a_Layer a") (auto simp: addendum_ok_def layer_matches_def split: sum.splits)
qed simp

section \<open>Coherence of the mutated image\<close>

definition identity_of :: "descriptor \<Rightarrow> v1_hash \<times> int \<times> media_type" where
  "identity_of d = (d_Digest d, d_Size d, d_MediaType d)"

definition honest_mimage :: "codec \<Rightarrow> mimage \<Rightarrow> bool" where
  "honest_mimage E i \<longleftrightarrow>
     coherent E (mi_base i) \<and> list_all (addendum_ok E) (mi_adds i) \<and> \<not> mi_computed i \<and>
     (case mi_configFile i of
        None \<Rightarrow> True
      | Some cf \<Rightarrow> partial_DiffIDs (Inr cf) = partial_DiffIDs (i_ConfigFile (mi_base i))) \<and>
     (case compute E i of
        Inl _ \<Rightarrow> False
      | Inr j \<Rightarrow>
          (case (mi_configFile j, mi_manifest j) of
             (Some cf, Some m) \<Rightarrow>
               decode_config E (marshal_config E cf) = Inr cf \<and> decode_manifest E (marshal_manifest E m) = Inr m \<and>
               functional (zip (rf_DiffIDs (cf_RootFS cf)) (map identity_of (m_Layers m)))
           | _ \<Rightarrow> False))"

lemma layer_matches_identity:
  "layer_matches E l d \<Longrightarrow> identity_of d' = identity_of d \<Longrightarrow> layer_matches E l d'"
  by (auto simp: layer_matches_def identity_of_def)

lemma diff_id_wf: "wf_layer E l \<Longrightarrow> l_DiffID l = Inr (diff_id l)"
  by (auto simp: diff_id_def elim: wf_layerE)

lemma compute_spec:
  assumes base: "coherent_parts E (mi_base i) rc0 cf0 rm0 m0 ls0" and adds: "list_all (addendum_ok E) (mi_adds i)"
    and fresh: "\<not> mi_computed i" and cfg: "mi_configFile i = None \<or> (\<exists>cf. mi_configFile i = Some cf \<and> rf_DiffIDs (cf_RootFS cf) = rf_DiffIDs (cf_RootFS cf0))"
  shows "\<exists>j cf m new. compute E i = Inr j \<and> mi_computed j \<and> mi_base j = mi_base i \<and> mi_adds j = mi_adds i \<and> mi_mediaType j = mi_mediaType i \<and>
     mi_configFile j = Some cf \<and> mi_manifest j = Some m \<and>
     rf_DiffIDs (cf_RootFS cf) = rf_DiffIDs (cf_RootFS cf0) @ map diff_id (add_layers (mi_adds i)) \<and>
     (let c0 = (case mi_configFile i of Some c \<Rightarrow> c | None \<Rightarrow> cf0) in
      cf = c0\<lparr>cf_RootFS := (cf_RootFS c0)\<lparr>rf_DiffIDs := rf_DiffIDs (cf_RootFS cf)\<rparr>, cf_History := cf_History c0 @ map a_History (mi_adds i)\<rparr>) \<and>
     m_Layers m = m_Layers m0 @ new \<and> list_all2 (layer_matches E) (add_layers (mi_adds i)) new \<and>
     m_Config m = (m_Config m0)\<lparr>d_Digest := sha (marshal_config E cf), d_Size := int (length (marshal_config E cf))\<rparr> \<and>
     mi_diffIDMap j = map_of_layers diff_id (add_layers (mi_adds i)) Map.empty \<and> dom (mi_digestMap j) = d_Digest ` set new"
proof -
  let ?c0 = "case mi_configFile i of Some c \<Rightarrow> c | None \<Rightarrow> cf0"
  have c0: "(case mi_configFile i of Some cf \<Rightarrow> Inr cf | None \<Rightarrow> i_ConfigFile (mi_base i)) = Inr ?c0"
    and d0: "rf_DiffIDs (cf_RootFS ?c0) = rf_DiffIDs (cf_RootFS cf0)"
    using base cfg by (auto simp: coherent_parts_def split: option.splits)
  have ok: "list_all (\<lambda>l. is_ok (l_DiffID l)) (add_layers (mi_adds i))"
    using addendum_layer_wf [OF adds] by (fastforce simp: list_all_iff is_ok_iff dest: diff_id_wf)
  obtain new gm where n: "add_descriptors (mi_adds i) (m_Layers m0, Map.empty) = Inr (m_Layers m0 @ new, gm)"
      "list_all2 (layer_matches E) (add_layers (mi_adds i)) new" "dom gm = d_Digest ` set new"
    using add_descriptors_ok [OF adds, of "m_Layers m0" Map.empty] by auto
  have m0: "i_Manifest (mi_base i) = Inr m0" using base by (simp add: coherent_parts_def)
  show ?thesis
    using fresh n by (simp add: compute_def c0 m0 add_diffIDs_eq [OF ok] d0 SHA256_def sha_def Let_def)
qed

lemma mi_view:
  assumes "compute E i = Inr j" and "mi_configFile j = Some cf" and "mi_manifest j = Some m"
  shows "i_ConfigFile (as_image E i) = Inr cf" and "i_RawConfigFile (as_image E i) = Inr (marshal_config E cf)"
    and "i_ConfigName (as_image E i) = Inr (sha (marshal_config E cf))"
    and "i_Manifest (as_image E i) = Inr m" and "i_RawManifest (as_image E i) = Inr (marshal_manifest E m)"
    and "i_Digest (as_image E i) = Inr (sha (marshal_manifest E m))"
    and "i_Size (as_image E i) = Inr (int (length (marshal_manifest E m)))"
    and "i_Layers (as_image E i) = map_res (mi_LayerByDiffID j) (rf_DiffIDs (cf_RootFS cf))"
    and "i_LayerByDiffID (as_image E i) = mi_LayerByDiffID j"
    and "i_MediaType (as_image E i) = mi_MediaType j"
    and "i_LayerByDigest (as_image E i) h =
           (if h = sha (marshal_config E cf) then Inr (configLayer h (marshal_config E cf))
            else (case mi_digestMap j h of Some l \<Rightarrow> Inr l | None \<Rightarrow> i_LayerByDigest (mi_base j) h))"
  using assms compute_result [OF assms(1)]
  by (auto simp: as_image_def Let_def mi_method_defs mi_Layers_def mi_LayerByDigest_def deref_def partial_ConfigName_def
      partial_Digest_def partial_Size_def partial_DiffIDs_def partial_ConfigLayer_def sha_def)

lemma found_in_mimage:
  assumes base: "coherent_parts E (mi_base i) rc0 cf0 rm0 m0 ls0"
    and new: "list_all2 (layer_matches E) ls new"
    and j: "mi_diffIDMap j = map_of_layers diff_id ls Map.empty" "mi_base j = mi_base i"
    and fn: "functional (zip (rf_DiffIDs (cf_RootFS cf0) @ map diff_id ls) (map identity_of (m_Layers m0 @ new)))"
    and hd: "(h, d) \<in> set (zip (rf_DiffIDs (cf_RootFS cf0) @ map diff_id ls) (m_Layers m0 @ new))"
  shows "\<exists>l. mi_LayerByDiffID j h = Inr l \<and> layer_matches E l d \<and> l_DiffID l = Inr h"
proof -
  let ?hs = "rf_DiffIDs (cf_RootFS cf0)" and ?ds = "m_Layers m0"
  have byid: "list_all2 (found_by_diffid E (mi_base i)) ?hs ?ds" using base by (simp add: coherent_parts_def)
  then have len: "length ?hs = length ?ds" by (rule list_all2_lengthD)
  have hid: "(h, identity_of d) \<in> set (zip (?hs @ map diff_id ls) (map identity_of (?ds @ new)))"
    using hd by (force simp: zip_map2 simp del: zip_append map_append)
  show ?thesis
  proof (cases "mi_diffIDMap j h")
    case (Some l)
    then have l: "l \<in> set ls" "diff_id l = h" using map_of_layers_Some [of diff_id ls Map.empty h l] j by auto
    then obtain k where k: "k < length ls" "ls ! k = l" by (auto simp: in_set_conv_nth)
    with new have nk: "k < length new" "layer_matches E l (new ! k)" by (auto dest: list_all2_lengthD list_all2_nthD)
    have "(h, identity_of (new ! k)) \<in> set (zip (map diff_id ls) (map identity_of new))"
      using k nk l by (auto simp: in_set_zip intro!: exI [of _ k])
    then have "(h, identity_of (new ! k)) \<in> set (zip (?hs @ map diff_id ls) (map identity_of (?ds @ new)))"
      using len by simp
    from functionalD [OF fn hid this] nk(2) have "layer_matches E l d" by (auto intro: layer_matches_identity)
    with Some l show ?thesis by (auto simp: mi_LayerByDiffID_def layer_matches_def intro: diff_id_wf)
  next
    case None
    then have "h \<notin> diff_id ` set ls" using map_of_layers_dom [of diff_id ls Map.empty h] j by auto
    moreover from hd len have "(h, d) \<in> set (zip ?hs ?ds) \<or> (h, d) \<in> set (zip (map diff_id ls) new)" by auto
    ultimately have "(h, d) \<in> set (zip ?hs ?ds)" by (auto dest!: set_zip_leftD)
    from list_all2_in_zip [OF byid this] None j show ?thesis
      by (auto simp: found_by_diffid_def mi_LayerByDiffID_def split: sum.splits)
  qed
qed

lemma as_image_coherent:
  assumes "honest_mimage E i"
  shows "coherent E (as_image E i)"
proof -
  from assms obtain rc0 cf0 rm0 m0 ls0 where base: "coherent_parts E (mi_base i) rc0 cf0 rm0 m0 ls0"
    by (auto simp: honest_mimage_def coherent_def)
  have adds: "list_all (addendum_ok E) (mi_adds i)" and fresh: "\<not> mi_computed i"
    using assms by (auto simp: honest_mimage_def)
  have cfg: "mi_configFile i = None \<or> (\<exists>cf. mi_configFile i = Some cf \<and> rf_DiffIDs (cf_RootFS cf) = rf_DiffIDs (cf_RootFS cf0))"
    using assms base by (auto simp: honest_mimage_def partial_DiffIDs_def coherent_parts_def split: option.splits)
  from compute_spec [OF base adds fresh cfg] obtain j cf m new where c: "compute E i = Inr j" "mi_base j = mi_base i"
      "mi_configFile j = Some cf" "mi_manifest j = Some m"
    and hs: "rf_DiffIDs (cf_RootFS cf) = rf_DiffIDs (cf_RootFS cf0) @ map diff_id (add_layers (mi_adds i))"
    and ds: "m_Layers m = m_Layers m0 @ new" "list_all2 (layer_matches E) (add_layers (mi_adds i)) new"
    and mc: "m_Config m = (m_Config m0)\<lparr>d_Digest := sha (marshal_config E cf), d_Size := int (length (marshal_config E cf))\<rparr>"
    and dm: "mi_diffIDMap j = map_of_layers diff_id (add_layers (mi_adds i)) Map.empty" "dom (mi_digestMap j) = d_Digest ` set new"
    and mt: "mi_mediaType j = mi_mediaType i"
    by metis
  note view = mi_view [OF c(1,3,4)]
  from assms c have rt: "decode_config E (marshal_config E cf) = Inr cf" "decode_manifest E (marshal_manifest E m) = Inr m"
    and fn: "functional (zip (rf_DiffIDs (cf_RootFS cf)) (map identity_of (m_Layers m)))"
    by (auto simp: honest_mimage_def)
  let ?hs = "rf_DiffIDs (cf_RootFS cf)" and ?ds = "m_Layers m"
  have found: "\<exists>l. mi_LayerByDiffID j h = Inr l \<and> layer_matches E l d \<and> l_DiffID l = Inr h" if "(h, d) \<in> set (zip ?hs ?ds)" for h d
    using found_in_mimage [OF base ds(2) dm(1) c(2)] fn that by (simp only: hs ds)
  have len: "length ?hs = length ?ds"
    using base list_all2_lengthD [OF ds(2)] by (auto simp: hs ds(1) coherent_parts_def dest!: list_all2_lengthD)
  then have "list_all2 (\<lambda>h d. \<exists>l. mi_LayerByDiffID j h = Inr l \<and> (layer_matches E l d \<and> l_DiffID l = Inr h)) ?hs ?ds"
    using found by (auto simp: list_all2_iff)
  from list_all2_map_res [OF this] obtain ls where ls: "map_res (mi_LayerByDiffID j) ?hs = Inr ls" "length ls = length ?hs"
    and lsk: "\<forall>k<length ?hs. layer_matches E (ls ! k) (?ds ! k) \<and> l_DiffID (ls ! k) = Inr (?hs ! k)" by blast
  have byid: "list_all2 (found_by_diffid E (as_image E i)) ?hs ?ds"
    using len found by (fastforce simp: list_all2_iff found_by_diffid_def view)
  have bydig: "is_ok (i_LayerByDigest (as_image E i) (d_Digest d))" if "d \<in> set ?ds" for d
  proof (cases "d \<in> set new")
    case True
    then have "mi_digestMap j (d_Digest d) \<noteq> None" using dm(2) by (metis domIff image_eqI)
    then show ?thesis by (auto simp: view)
  next
    case False
    with that base have "is_ok (i_LayerByDigest (mi_base i) (d_Digest d))"
      by (auto simp: ds coherent_parts_def list_all_iff)
    then show ?thesis by (auto simp: view c split: option.splits)
  qed
  have "is_ok (mi_MediaType j)"
    using base mt c by (auto simp: mi_MediaType_def coherent_parts_def split: option.splits)
  then have "coherent_parts E (as_image E i) (marshal_config E cf) cf (marshal_manifest E m) m ls"
    unfolding coherent_parts_def
    using rt mc ls lsk len byid bydig by (auto simp: view list_all2_conv_all_nth list_all_iff)
  then show ?thesis unfolding coherent_def by blast
qed

interpretation mutated_image: image_source "as_image E" "honest_mimage E" E for E
  by unfold_locales (rule as_image_coherent)

section \<open>Properties\<close>

definition demo_layer :: layer where
  "demo_layer =
     \<lparr>l_Digest = Inr (sha (gzipMagicHeader @ ''x'')), l_DiffID = Inr (sha ''x''), l_Compressed = Inr (gzipMagicHeader @ ''x''),
      l_Uncompressed = Inr ''x'', l_Size = Inr 3, l_MediaType = Inr DockerLayer, l_Descriptor = None, l_UncompressedSize = None\<rparr>"

definition demo_config :: config_file where
  "demo_config = empty_config\<lparr>cf_RootFS := \<lparr>rf_Type = ''layers'', rf_DiffIDs = [sha ''x'']\<rparr>, cf_History := [zero_history]\<rparr>"

definition demo_manifest :: manifest where
  "demo_manifest = (empty_manifest ''0'')
     \<lparr>m_Layers := [zero_descriptor\<lparr>d_MediaType := DockerLayer, d_Size := 3, d_Digest := sha (gzipMagicHeader @ ''x'')\<rparr>],
      m_Config := zero_descriptor\<lparr>d_MediaType := DockerConfigJSON, d_Size := 1, d_Digest := sha ''1''\<rparr>\<rparr>"

definition demo_codec :: codec where
  "demo_codec = table_codec [empty_manifest ''0'', demo_manifest] [] [empty_config, demo_config]"

definition demo_image :: mimage where
  "demo_image = new_mimage (empty_Image demo_codec) [layer_addendum demo_layer]"

lemma show_01: "show_nat 0 = ''0''" "show_nat (Suc 0) = ''1''"
  by code_simp+

lemma demo_distinct: "empty_config \<noteq> demo_config" "empty_manifest ''0'' \<noteq> demo_manifest"
  by (auto simp: demo_config_def demo_manifest_def empty_config_def empty_manifest_def zero_config_file_def)

lemma demo_marshal:
  "marshal_config demo_codec empty_config = ''0''" "marshal_config demo_codec demo_config = ''1''"
  "marshal_manifest demo_codec (empty_manifest ''0'') = ''0''" "marshal_manifest demo_codec demo_manifest = ''1''"
  using demo_distinct by (simp_all add: demo_codec_def table_codec_def show_01)

lemma demo_decode:
  "decode_config demo_codec ''0'' = Inr empty_config" "decode_config demo_codec ''1'' = Inr demo_config"
  "decode_manifest demo_codec ''0'' = Inr (empty_manifest ''0'')" "decode_manifest demo_codec ''1'' = Inr demo_manifest"
  by (simp_all add: demo_codec_def table_codec_def parse_digits_def digit_val_def)

lemma demo_layer_wf: "wf_layer demo_codec demo_layer"
  by (simp add: wf_layer_def demo_layer_def demo_codec_def table_codec_def gzipMagicHeader_def)

lemma demo_base: "coherent demo_codec (empty_Image demo_codec)"
  by (rule empty_Image_coherent) (simp_all add: demo_marshal demo_decode)

lemma demo_addendum: "addendum_ok demo_codec (layer_addendum demo_layer)"
  using demo_layer_wf
  by (simp add: addendum_ok_def layer_addendum_def layer_Descriptor_def partial_Descriptor_def override_descriptor_def
      layer_matches_def demo_layer_def)

lemma demo_compute:
  "compute demo_codec demo_image =
     Inr (demo_image\<lparr>mi_configFile := Some demo_config, mi_manifest := Some demo_manifest, mi_computed := True,
                    mi_diffIDMap := [sha ''x'' \<mapsto> demo_layer],
                    mi_digestMap := [sha (gzipMagicHeader @ ''x'') \<mapsto> demo_layer]\<rparr>)"
proof -
  note f = empty_Image_fields [of demo_codec]
  have e: "i_ConfigFile (empty_Image demo_codec) = Inr empty_config"
    "i_Manifest (empty_Image demo_codec) = Inr (empty_manifest ''0'')"
    using f by (simp_all add: demo_marshal demo_decode)
  have c: "empty_config\<lparr>cf_RootFS := (cf_RootFS empty_config)\<lparr>rf_DiffIDs := [sha ''x'']\<rparr>, cf_History := [zero_history]\<rparr> = demo_config"
    by (simp add: demo_config_def empty_config_def)
  have em: "rf_DiffIDs (cf_RootFS empty_config) = []" "cf_History empty_config = []" "m_Layers (empty_manifest b) = []" for b
    by (simp_all add: empty_config_def zero_config_file_def empty_manifest_def)
  show ?thesis
    by (simp add: compute_def demo_image_def new_mimage_def e em c layer_addendum_def demo_layer_def layer_Descriptor_def
        partial_Descriptor_def override_descriptor_def demo_marshal SHA256_def manifest_mediaType_def)
       (simp add: demo_manifest_def empty_manifest_def sha_def SHA256_def zero_descriptor_def)
qed

lemma demo_honest: "honest_mimage demo_codec demo_image"
  using demo_base demo_addendum
  by (simp add: honest_mimage_def demo_compute demo_marshal demo_decode)
     (simp add: demo_image_def new_mimage_def functional_def demo_config_def demo_manifest_def)

text \<open>
  C7. A mutated image is coherent: when the base is, the addenda carry well-formed layers with
  agreeing descriptors, a replaced config file keeps the diff ids of the base, no diff id stands for
  two different blobs and the new documents survive a JSON round trip, then the raw documents, the
  digests, the sizes, the layers and the lookups of the result agree with each other.
\<close>

theorem mutate_coherent:
  assumes "honest_mimage E i"
  shows "coherent E (as_image E i)"
  using assms by (rule mutated_image.makes_coherent)

theorem mutate_coherent_witness: "coherent demo_codec (as_image demo_codec demo_image)"
  by (rule mutate_coherent [OF demo_honest])

text \<open>
  C31. What Append computes: the config file of the base with the diff ids and the history entries
  of the addenda behind its own, and the manifest of the base with their descriptors behind its own
  and the config descriptor of the new config file.
\<close>

theorem Append_spec:
  assumes "coherent E base" and "list_all (addendum_ok E) adds" and "mutate_validate adds = Inr ()" and "adds \<noteq> []"
  shows "\<exists>img cf0 cf m0 m new. Append E base adds = Inr img \<and>
     i_ConfigFile base = Inr cf0 \<and> i_ConfigFile img = Inr cf \<and> i_Manifest base = Inr m0 \<and> i_Manifest img = Inr m \<and>
     cf_History cf = cf_History cf0 @ map a_History adds \<and>
     rf_DiffIDs (cf_RootFS cf) = rf_DiffIDs (cf_RootFS cf0) @ map diff_id (add_layers adds) \<and>
     cf_Config cf = cf_Config cf0 \<and>
     m_Layers m = m_Layers m0 @ new \<and> list_all2 (layer_matches E) (add_layers adds) new \<and>
     d_Digest (m_Config m) = sha (marshal_config E cf) \<and> d_Size (m_Config m) = int (length (marshal_config E cf)) \<and>
     i_ConfigName img = Inr (sha (marshal_config E cf)) \<and> i_Digest img = Inr (sha (marshal_manifest E m))"
proof -
  let ?i = "new_mimage base adds"
  obtain rc0 cf0 rm0 m0 ls0 where b: "coherent_parts E (mi_base ?i) rc0 cf0 rm0 m0 ls0"
    using assms(1) by (auto simp: coherent_def new_mimage_def)
  have a: "list_all (addendum_ok E) (mi_adds ?i)" "\<not> mi_computed ?i" "mi_configFile ?i = None" "mi_adds ?i = adds"
    using assms(2) by (simp_all add: new_mimage_def)
  obtain j cf m new where c: "compute E ?i = Inr j" "mi_configFile j = Some cf" "mi_manifest j = Some m"
    and h: "rf_DiffIDs (cf_RootFS cf) = rf_DiffIDs (cf_RootFS cf0) @ map diff_id (add_layers adds)"
    and cf: "cf = cf0\<lparr>cf_RootFS := (cf_RootFS cf0)\<lparr>rf_DiffIDs := rf_DiffIDs (cf_RootFS cf)\<rparr>, cf_History := cf_History cf0 @ map a_History adds\<rparr>"
    and d: "m_Layers m = m_Layers m0 @ new" "list_all2 (layer_matches E) (add_layers adds) new"
    and mc: "m_Config m = (m_Config m0)\<lparr>d_Digest := sha (marshal_config E cf), d_Size := int (length (marshal_config E cf))\<rparr>"
    using compute_spec [OF b a(1,2) disjI1 [OF a(3)]] a(3,4) by auto
  have "cf_History cf = cf_History cf0 @ map a_History adds" "cf_Config cf = cf_Config cf0"
    by (subst cf, simp)+
  then show ?thesis
    using assms(3,4) b h d mc mi_view [OF c]
    by (simp add: Append_def coherent_parts_def new_mimage_def)
qed

theorem Append_spec_witness:
  "\<exists>img m. Append demo_codec (empty_Image demo_codec) [layer_addendum demo_layer] = Inr img \<and>
     i_Manifest img = Inr m \<and> length (m_Layers m) = 1"
proof -
  have v: "list_all (addendum_ok demo_codec) [layer_addendum demo_layer]" "mutate_validate [layer_addendum demo_layer] = Inr ()"
    using demo_addendum by (simp_all add: layer_addendum_def)
  have e: "i_Manifest (empty_Image demo_codec) = Inr (empty_manifest ''0'')"
    using empty_Image_fields(2) [of demo_codec] by (simp add: demo_marshal demo_decode)
  from Append_spec [OF demo_base v] obtain img m m0 new where
    "Append demo_codec (empty_Image demo_codec) [layer_addendum demo_layer] = Inr img" "i_Manifest img = Inr m"
    "i_Manifest (empty_Image demo_codec) = Inr m0" "m_Layers m = m_Layers m0 @ new"
    "list_all2 (layer_matches demo_codec) (add_layers [layer_addendum demo_layer]) new" by blast
  then show ?thesis using e by (auto simp: empty_manifest_def layer_addendum_def dest: list_all2_lengthD)
qed

lemma mi_LayerByDigest_computed:
  assumes "compute E i = Inr j"
  shows "mi_LayerByDigest E i h = (fst (mi_LayerByDigest E j h), j)"
proof -
  have n: "mi_ConfigName E i = (fst (mi_ConfigName E j), j)" "mi_ConfigName E j = (fst (mi_ConfigName E j), j)"
    using assms compute_result [OF assms] by (simp_all add: mi_method_defs)
  show ?thesis
    unfolding mi_LayerByDigest_def by (subst n, subst n(2), subst n(2)) (simp split: sum.splits)
qed

lemma as_image_computed: "compute E i = Inr j \<Longrightarrow> as_image E j = as_image E i"
  using compute_result [of E i j] by (simp add: as_image_def)

text \<open>
  The methods do not depend on whether compute has run, and running them again changes nothing:
  each gives the result that the memoized image gives, and leaves a state whose image is the same.
\<close>

theorem mutate_methods_stable:
  "fst (mi_ConfigFile E i) = i_ConfigFile (as_image E i) \<and> fst (mi_RawConfigFile E i) = i_RawConfigFile (as_image E i) \<and>
   fst (mi_ConfigName E i) = i_ConfigName (as_image E i) \<and> fst (mi_Manifest E i) = i_Manifest (as_image E i) \<and>
   fst (mi_RawManifest E i) = i_RawManifest (as_image E i) \<and> fst (mi_Digest E i) = i_Digest (as_image E i) \<and>
   fst (mi_Size E i) = i_Size (as_image E i) \<and> fst (mi_Layers E i) = i_Layers (as_image E i) \<and>
   fst (mi_LayerByDigest E i h) = i_LayerByDigest (as_image E i) h \<and>
   as_image E (snd (mi_Manifest E i)) = as_image E i \<and> as_image E (snd (mi_Layers E i)) = as_image E i \<and>
   as_image E (snd (mi_LayerByDigest E i h)) = as_image E i"
proof (cases "compute E i")
  case (Inl e)
  then show ?thesis by (simp add: as_image_def Let_def mi_method_defs mi_Layers_def mi_LayerByDigest_def)
next
  case (Inr j)
  note j = compute_result [OF Inr]
  have "as_image E (snd (mi_Manifest E i)) = as_image E i" "as_image E (snd (mi_Layers E i)) = as_image E i"
    "as_image E (snd (mi_LayerByDigest E i h)) = as_image E i"
    using Inr as_image_computed [OF Inr] by (simp_all add: mi_method_defs mi_Layers_def mi_LayerByDigest_computed [OF Inr])
  then show ?thesis
    using Inr j mi_LayerByDigest_computed [OF Inr, of h]
    by (simp add: as_image_def Let_def mi_method_defs mi_Layers_def)
qed

text \<open>
  LayerByDiffID does not run compute: on a fresh image it asks the base, so that an appended layer is
  not found until some other method has been called.
\<close>

lemma LayerByDiffID_before_compute:
  "mi_LayerByDiffID (new_mimage base adds) h = i_LayerByDiffID base h"
  by (simp add: mi_LayerByDiffID_def new_mimage_def)

lemma empty_LayerByDiffID: "\<not> is_ok (i_LayerByDiffID (empty_Image E) h)"
  by (simp add: empty_Image_def UncompressedToImage_def Let_def uie_LayerByDiffID_def emptyImage_def
      emptyImage_LayerByDiffID_def)

lemma LayerByDiffID_gap:
  "\<not> is_ok (mi_LayerByDiffID demo_image (sha ''x'')) \<and>
   is_ok (i_LayerByDiffID (as_image demo_codec demo_image) (sha ''x''))"
proof
  show "\<not> is_ok (mi_LayerByDiffID demo_image (sha ''x''))"
    by (simp add: demo_image_def LayerByDiffID_before_compute empty_LayerByDiffID)
  have "i_LayerByDiffID (as_image demo_codec demo_image) (sha ''x'') = Inr demo_layer"
    by (subst mi_view(9) [OF demo_compute]) (simp_all add: mi_LayerByDiffID_def)
  then show "is_ok (i_LayerByDiffID (as_image demo_codec demo_image) (sha ''x''))" by simp
qed

text \<open>
  Config on an image that is itself a mutated image replaces the config of that base in place: its
  raw config is the new one while its manifest still has the digest of the old one.
\<close>

lemma Config_leaves_stale_manifest:
  assumes "compute E i = Inr j" and "mi_configFile j = Some cf" and "mi_manifest j = Some m"
  shows "let i' = Config_on_mimage E i cfg in
         i_RawConfigFile (as_image E i') = Inr (marshal_config E (cf\<lparr>cf_Config := cfg\<rparr>)) \<and>
         i_Manifest (as_image E i') = Inr m"
  using assms compute_result [OF assms(1)]
  by (simp add: Config_on_mimage_def mi_method_defs deref_def as_image_def Let_def)

section \<open>Timestamps\<close>

lemma add_diffIDs_history:
  "add_diffIDs adds (ds, hs, dm) = Inr (ds', hs', dm') \<Longrightarrow> hs' = hs @ map a_History adds"
  by (induction adds arbitrary: ds hs dm) (fastforce split: option.splits)+

lemma mutated_history:
  assumes "i_ConfigFile (as_image E (new_mimage base adds)) = Inr cf" and "i_ConfigFile base = Inr cf0"
  shows "cf_History cf = cf_History cf0 @ map a_History adds"
proof (cases "compute E (new_mimage base adds)")
  case (Inl e)
  with assms(1) show ?thesis by (simp add: as_image_def Let_def mi_method_defs)
next
  case (Inr j)
  with assms(1) compute_result [OF Inr] have "mi_configFile j = Some cf"
    by (auto simp: as_image_def Let_def mi_method_defs deref_def split: option.splits)
  with Inr assms(2) show ?thesis
    by (auto simp: compute_def new_mimage_def SHA256_def Let_def) (rule add_diffIDs_history)
qed

lemma mutate_ConfigFile_result:
  "mutate_ConfigFile E base cfg = Inr img \<Longrightarrow> i_ConfigFile img = Inr cfg"
  by (auto simp: mutate_ConfigFile_def new_config_image_def new_mimage_def as_image_def Let_def mi_method_defs
      compute_def SHA256_def deref_def)

text \<open>
  Time sets the creation time of the config file but leaves that of every history entry at zero,
  whatever the time given.
\<close>

lemma mutate_Time_history:
  assumes t: "mutate_Time E img t = Inr img'" and e: "i_ConfigFile (empty_Image E) = Inr empty_config"
  shows "\<exists>cf. i_ConfigFile img' = Inr cf \<and> cf_Created cf = t \<and> list_all (\<lambda>h. h_Created h = 0) (cf_History cf)"
proof -
  from t obtain newLayers newImage and ocf :: config_file and cf :: config_file where a: "AppendLayers E (empty_Image E) newLayers = Inr newImage"
    and cf: "i_ConfigFile newImage = Inr cf"
    and r: "mutate_ConfigFile E newImage (cf\<lparr>cf_Architecture := cf_Architecture ocf, cf_OS := cf_OS ocf,
               cf_OSVersion := cf_OSVersion ocf, cf_Config := cf_Config ocf, cf_Created := t\<rparr>) = Inr img'"
    by (auto simp: mutate_Time_def split: sum.splits)
  have "cf_History cf = map (\<lambda>_. zero_history) newLayers"
  proof (cases "newLayers = []")
    case True
    with a e cf show ?thesis by (simp add: AppendLayers_def Append_def empty_config_def zero_config_file_def)
  next
    case False
    with a have "newImage = as_image E (new_mimage (empty_Image E) (map layer_addendum newLayers))"
      by (auto simp: AppendLayers_def Append_def)
    with cf mutated_history [OF _ e] show ?thesis
      by (auto simp: empty_config_def zero_config_file_def layer_addendum_def)
  qed
  with mutate_ConfigFile_result [OF r] show ?thesis by (auto simp: list_all_iff zero_history_def)
qed

lemma layerTime_ok:
  "layerTime E l t = Inr l' \<longleftrightarrow>
     (\<exists>r entries b tl. l_Uncompressed l = Inr r \<and> untar E r = (entries, None) \<and> mktar E (map (retime t) entries) = Inr b \<and>
        LayerFromReader E (Inr (gzip E gzip_BestSpeed b)) [] = Inr tl \<and> l' = tarball_layer_iface tl)"
  by (auto simp: layerTime_def LayerFromReader_def GzipReadCloser_def GzipReadCloserLevel_def gzip_BestSpeed_def
      split: sum.splits prod.splits option.splits)

text \<open>
  layerTime yields a well-formed layer whose tar stream has the entries of the original in the
  same order, with every modification time set to the given one and with the content of the regular
  files; the codecs are assumed to read back what they wrote, and gzip to write its magic.
\<close>

theorem layerTime_spec:
  assumes "layerTime E l t = Inr l'" and "l_Uncompressed l = Inr r" and "untar E r = (entries, None)"
    and "mktar E (map (retime t) entries) = Inr b" and "untar E b = (map (retime t) entries, None)"
    and "gunzip E (gzip E gzip_BestSpeed b) = Inr b" and "take 2 (gzip E gzip_BestSpeed b) = gzipMagicHeader"
    and "gzip_law E (gzip E gzip_BestSpeed b)"
  shows "wf_layer E l' \<and> l_Uncompressed l' = Inr b \<and> untar E b = (map (retime t) entries, None) \<and>
         list_all (\<lambda>(hdr, content). th_ModTime hdr = t) (map (retime t) entries)"
proof -
  from assms obtain tl where tl: "LayerFromReader E (Inr (gzip E gzip_BestSpeed b)) [] = Inr tl" "l' = tarball_layer_iface tl"
    by (auto simp: layerTime_ok)
  have w: "wf_layer E l'" using LayerFromReader_wf [OF tl(1) _ assms(8)] tl(2) by simp
  have "l_Compressed l' = Inr (gzip E gzip_BestSpeed b)" using tl_content [OF _ tl(1)] assms(7) tl(2) by simp
  with w assms(6) have "l_Uncompressed l' = Inr b" by (auto elim: wf_layerE)
  with w assms(5) show ?thesis by (auto simp: list_all_iff retime_def)
qed

theorem layerTime_spec_witness:
  "\<exists>l'. layerTime demo_codec demo_layer 0 = Inr l' \<and> wf_layer demo_codec l' \<and> l_Uncompressed l' = Inr ''x''"
proof -
  let ?es = "[(\<lparr>th_Name = ''x'', th_Typeflag = TypeReg, th_Size = 0, th_Mode = 0, th_ModTime = 0, th_Linkname = ''''\<rparr>, [])]"
  have u: "l_Uncompressed demo_layer = Inr ''x''" by (simp add: demo_layer_def)
  have e: "untar demo_codec ''x'' = (?es, None)" "map (retime 0) ?es = ?es" "mktar demo_codec ?es = Inr ''x''"
    by (simp_all add: demo_codec_def table_codec_def retime_def)
  have z: "gunzip demo_codec (gzip demo_codec level b) = Inr b" "take 2 (gzip demo_codec level b) = gzipMagicHeader" for level b
    by (simp_all add: demo_codec_def table_codec_def gzipMagicHeader_def)
  then have g: "gzip_law demo_codec b" for b by (simp add: gzip_law_def)
  have "is_ok (layerTime demo_codec demo_layer 0)"
    by (simp add: layerTime_def u e demo_codec_def table_codec_def retime_def LayerFromOpener_def bytes_opener_def
        IsGzipped_def gzipMagicHeader_def open_content_def Let_def computeDigest_def computeDiffID_def tl_Compressed_def
        GzipReadCloser_def GzipReadCloserLevel_def gzip_BestSpeed_def SHA256_def GunzipReadCloser_def)
  then obtain l' where l: "layerTime demo_codec demo_layer 0 = Inr l'" by (auto simp: is_ok_iff)
  have b: "mktar demo_codec (map (retime 0) ?es) = Inr ''x''" "untar demo_codec ''x'' = (map (retime 0) ?es, None)"
    using e by simp_all
  from layerTime_spec [OF l u e(1) b z(1) z(2) g] l show ?thesis by blast
qed

end
