(* ===== verification/Mutate_Extract.thy ===== *)
theory Mutate_Extract
  imports Validate Go_Path
begin

text \<open>
  pkg/v1/mutate, Extract: the flattened file system of an image.  The layers are read from the last
  to the first; a map of the names already handled says for each whether it hides what lies at or
  below it in the layers underneath.
\<close>

definition whiteoutPrefix :: string where
  "whiteoutPrefix = ''.wh.''"

type_synonym file_map = "string \<Rightarrow> bool option"

function inWhiteoutDir :: "file_map \<Rightarrow> string \<Rightarrow> bool" where
  "inWhiteoutDir fileMap file =
     (if file = '''' then False
      else (let dirname = path_dir file in
            if file = dirname then False
            else if fileMap dirname = Some True then True
            else inWhiteoutDir fileMap dirname))"
  by pat_completeness auto
termination
  by (relation "measure (\<lambda>(m, f). path_rank f)") (auto intro: path_dir_rank)

declare inWhiteoutDir.simps [simp del]

definition is_tombstone :: "tar_header \<Rightarrow> bool" where
  "is_tombstone hdr = prefix whiteoutPrefix (path_base (th_Name hdr))"

text \<open>The name under which an entry is handled.\<close>

definition entry_name :: "tar_header \<Rightarrow> string" where
  "entry_name hdr =
     (let basename = path_base (th_Name hdr);
          dirname = path_dir (th_Name hdr);
          basename' = (if is_tombstone hdr then drop (length whiteoutPrefix) basename else basename)
      in if th_Typeflag hdr = TypeDir then th_Name hdr else path_join [dirname, basename'])"

definition hides :: "tar_header \<Rightarrow> bool" where
  "hides hdr \<longleftrightarrow> is_tombstone hdr \<or> th_Typeflag hdr \<noteq> TypeDir"

text \<open>One entry: the new map and what is written.  Errors of WriteHeader are ignored by the code.\<close>

definition extract_entry :: "file_map \<Rightarrow> tar_entry \<Rightarrow> file_map \<times> tar_entry list" where
  "extract_entry fileMap = (\<lambda>(hdr, content).
     let name = entry_name hdr in
     if fileMap name \<noteq> None then (fileMap, [])
     else if inWhiteoutDir fileMap name then (fileMap, [])
     else (fileMap(name \<mapsto> hides hdr),
           if is_tombstone hdr then [] else [(hdr, if th_Size hdr > 0 then content else [])]))"

fun extract_entries :: "file_map \<Rightarrow> tar_entry list \<Rightarrow> file_map \<times> tar_entry list" where
  "extract_entries fileMap [] = (fileMap, [])"
| "extract_entries fileMap (e # es) =
     (case extract_entry fileMap e of (fm1, out1) \<Rightarrow>
      case extract_entries fm1 es of (fm2, out2) \<Rightarrow> (fm2, out1 @ out2))"

text \<open>The loop over the layers, the top one first: what was written, and the error that ended it.\<close>

fun extract_layers :: "codec \<Rightarrow> file_map \<Rightarrow> layer list \<Rightarrow> tar_entry list \<times> go_error option" where
  "extract_layers E fileMap [] = ([], None)"
| "extract_layers E fileMap (layer # below) =
     (case l_Uncompressed layer of
        Inl err \<Rightarrow> ([], Some (ErrMsg ''reading layer contents''))
      | Inr r \<Rightarrow>
          (case untar E r of (entries, err) \<Rightarrow>
           case extract_entries fileMap entries of (fm1, out) \<Rightarrow>
             (case err of
                Some e \<Rightarrow> (out, Some (ErrMsg ''reading tar''))
              | None \<Rightarrow> (case extract_layers E fm1 below of (out', e') \<Rightarrow> (out @ out', e')))))"

definition flatten :: "codec \<Rightarrow> image \<Rightarrow> tar_entry list \<times> go_error option" where
  "flatten E img =
     (case i_Layers img of
        Inl err \<Rightarrow> ([], Some (ErrMsg ''retrieving image layers''))
      | Inr layers \<Rightarrow> extract_layers E Map.empty (rev layers))"

text \<open>
  The reader end of the pipe of Extract: the tar stream of what was written, then the error that
  extract returned, or io.EOF.
\<close>

definition mutate_Extract :: "codec \<Rightarrow> image \<Rightarrow> tar_entry list res" where
  "mutate_Extract E img = (case flatten E img of (out, None) \<Rightarrow> Inr out | (out, Some e) \<Rightarrow> Inl e)"

section \<open>Parent directories\<close>

function ancestors :: "string \<Rightarrow> string list" where
  "ancestors file =
     (if file = '''' \<or> path_dir file = file then [] else path_dir file # ancestors (path_dir file))"
  by pat_completeness auto
termination
  by (relation "measure path_rank") (auto intro: path_dir_rank)

declare ancestors.simps [simp del]

lemma inWhiteoutDir_iff: "inWhiteoutDir fm f \<longleftrightarrow> (\<exists>d\<in>set (ancestors f). fm d = Some True)"
proof (induction f rule: ancestors.induct)
  case (1 f)
  show ?case
  proof (cases "f = '''' \<or> path_dir f = f")
    case True
    then show ?thesis by (subst inWhiteoutDir.simps, subst ancestors.simps) auto
  next
    case False
    then have "ancestors f = path_dir f # ancestors (path_dir f)" by (subst ancestors.simps) simp
    moreover have "inWhiteoutDir fm f \<longleftrightarrow> fm (path_dir f) = Some True \<or> inWhiteoutDir fm (path_dir f)"
      using False by (subst inWhiteoutDir.simps) (auto simp: Let_def)
    ultimately show ?thesis using False 1 by auto
  qed
qed

section \<open>What is written\<close>

definition hidden :: "file_map \<Rightarrow> string \<Rightarrow> bool" where
  "hidden fm n \<longleftrightarrow> fm n \<noteq> None \<or> (\<exists>d\<in>set (ancestors n). fm d = Some True)"

lemma extract_entry_eq:
  "extract_entry fm (hdr, content) =
     (if hidden fm (entry_name hdr) then (fm, [])
      else (fm(entry_name hdr \<mapsto> hides hdr),
            if is_tombstone hdr then [] else [(hdr, if th_Size hdr > 0 then content else [])]))"
  by (simp add: extract_entry_def hidden_def inWhiteoutDir_iff Let_def)

text \<open>The map only grows.\<close>

lemma extract_entries_map: "extract_entries fm es = (fm', out) \<Longrightarrow> fm \<subseteq>\<^sub>m fm'"
proof (induction es arbitrary: fm fm' out)
  case (Cons e es)
  obtain hdr content where e: "e = (hdr, content)" by (cases e)
  obtain fm1 out1 where one: "extract_entry fm e = (fm1, out1)" by fastforce
  obtain fm2 out2 where two: "extract_entries fm1 es = (fm2, out2)" by fastforce
  from one have "fm \<subseteq>\<^sub>m fm1"
    by (auto simp: e extract_entry_eq hidden_def map_le_def split: if_splits)
  moreover from Cons.IH [OF two] have "fm1 \<subseteq>\<^sub>m fm2" .
  ultimately show ?case using Cons.prems one two by (auto intro: map_le_trans)
qed (simp add: map_le_def)

definition name_of :: "tar_entry \<Rightarrow> string" where
  "name_of e = entry_name (fst e)"

text \<open>Nothing is below a written entry that is not a directory, and no name is written twice.\<close>

definition flattened :: "tar_entry list \<Rightarrow> bool" where
  "flattened out \<longleftrightarrow>
     list_all (\<lambda>e. \<not> is_tombstone (fst e)) out \<and> distinct (map name_of out) \<and>
     sorted_wrt (\<lambda>e e'. hides (fst e) \<longrightarrow> name_of e \<notin> set (ancestors (name_of e'))) out"

definition recorded :: "file_map \<Rightarrow> tar_entry \<Rightarrow> bool" where
  "recorded fm e \<longleftrightarrow> fm (name_of e) = Some (hides (fst e))"

lemma extract_entries_spec:
  assumes "extract_entries fm es = (fm', out)"
  shows "list_all (\<lambda>e. \<not> hidden fm (name_of e)) out \<and> list_all (recorded fm') out \<and> flattened out"
  using assms
proof (induction es arbitrary: fm fm' out)
  case Nil
  then show ?case by (simp add: flattened_def)
next
  case (Cons e es)
  obtain hdr content where e: "e = (hdr, content)" by (cases e)
  obtain fm1 out1 where one: "extract_entry fm e = (fm1, out1)" by fastforce
  obtain fm2 out2 where two: "extract_entries fm1 es = (fm2, out2)" by fastforce
  have fin: "fm' = fm2" "out = out1 @ out2" using Cons.prems one two by auto
  note ih = Cons.IH [OF two]
  show ?case
  proof (cases "hidden fm (entry_name hdr)")
    case True
    with one have "fm1 = fm" "out1 = []" by (auto simp: e extract_entry_eq)
    with ih fin show ?thesis by simp
  next
    case False
    with one have fm1: "fm1 = fm(entry_name hdr \<mapsto> hides hdr)"
      and out1: "out1 = (if is_tombstone hdr then [] else [(hdr, if th_Size hdr > 0 then content else [])])"
      by (auto simp: e extract_entry_eq)
    have new: "fm (entry_name hdr) = None" using False by (simp add: hidden_def)
    have mono: "hidden fm n \<Longrightarrow> hidden fm1 n" for n
      using new by (fastforce simp: hidden_def fm1)
    have rec: "fm2 (entry_name hdr) = Some (hides hdr)"
      using extract_entries_map [OF two] by (auto simp: fm1 map_le_def)
    have later: "list_all (\<lambda>e. name_of e \<noteq> entry_name hdr \<and> (hides hdr \<longrightarrow> entry_name hdr \<notin> set (ancestors (name_of e)))) out2"
    proof -
      have "n \<noteq> entry_name hdr \<and> (hides hdr \<longrightarrow> entry_name hdr \<notin> set (ancestors n))" if "\<not> hidden fm1 n" for n
        using that by (auto simp: hidden_def fm1 split: if_splits)
      with ih show ?thesis by (auto simp: list_all_iff)
    qed
    show ?thesis
      using ih fin False rec later mono
      by (auto simp: out1 flattened_def recorded_def name_of_def list_all_iff)
  qed
qed

lemma flattened_append:
  assumes "flattened a" and "flattened b" and "list_all (recorded fm) a" and "list_all (\<lambda>e. \<not> hidden fm (name_of e)) b"
  shows "flattened (a @ b)"
  using assms
  by (fastforce simp: flattened_def recorded_def hidden_def list_all_iff sorted_wrt_append)

lemma extract_layers_spec:
  "extract_layers E fm ls = (out, err) \<Longrightarrow> list_all (\<lambda>e. \<not> hidden fm (name_of e)) out \<and> flattened out"
proof (induction ls arbitrary: fm out err)
  case Nil
  then show ?case by (simp add: flattened_def)
next
  case (Cons l ls)
  show ?case
  proof (cases "l_Uncompressed l")
    case (Inl e)
    with Cons.prems show ?thesis by (simp add: flattened_def)
  next
    case (Inr r)
    obtain entries e where u: "untar E r = (entries, e)" by fastforce
    obtain fm1 o1 where x: "extract_entries fm entries = (fm1, o1)" by fastforce
    note s1 = extract_entries_spec [OF x]
    show ?thesis
    proof (cases e)
      case (Some err')
      with Cons.prems Inr u x s1 show ?thesis by simp
    next
      case None
      obtain o2 e2 where y: "extract_layers E fm1 ls = (o2, e2)" by fastforce
      note s2 = Cons.IH [OF y]
      have out: "out = o1 @ o2" using Cons.prems Inr u x y None by simp
      have "hidden fm n \<Longrightarrow> hidden fm1 n" for n
        using extract_entries_map [OF x] by (auto simp: hidden_def map_le_def dom_def)
      with s1 s2 show ?thesis
        using flattened_append [of o1 o2 fm1] by (auto simp: out list_all_iff)
    qed
  qed
qed



lemma whiteout_handled:
  assumes "\<not> hidden fm (entry_name hdr)" and "is_tombstone hdr"
  shows "fst (extract_entry fm (hdr, content)) (entry_name hdr) = Some True"
  using assms by (simp add: extract_entry_eq hides_def)


end
