(* ===== verification/Mutate_Index.thy ===== *)
theory Mutate_Index
  imports Mutate
begin

text \<open>
  pkg/v1/mutate, indexes (index.go, the index part of mutate.go) and rebasing (rebase.go).
\<close>

section \<open>index.go\<close>

text \<open>
  An Appendable is a v1.ImageIndex, a v1.Image, or something else that has the three methods
  MediaType, Digest and Size (and perhaps Descriptor).
\<close>

datatype appendable =
    AddIndex image_index
  | AddImage image
  | AddOther "descriptor res option" "media_type res" "v1_hash res" "int res"

record index_addendum =
  ia_Add :: appendable
  ia_Descriptor :: descriptor

definition appendable_Descriptor :: "appendable \<Rightarrow> descriptor res" where
  "appendable_Descriptor a =
     (case a of
        AddIndex idx \<Rightarrow> index_Descriptor idx
      | AddImage img \<Rightarrow> image_Descriptor img
      | AddOther wd mt dg sz \<Rightarrow> partial_Descriptor wd sz dg mt)"

definition override :: "descriptor \<Rightarrow> descriptor \<Rightarrow> descriptor" where
  "override ov desc =
     (let d1 = (if d_Size ov \<noteq> 0 then desc\<lparr>d_Size := d_Size ov\<rparr> else desc);
          d2 = (if d_MediaType ov \<noteq> '''' then d1\<lparr>d_MediaType := d_MediaType ov\<rparr> else d1);
          d3 = (if d_Digest ov \<noteq> zero_hash then d2\<lparr>d_Digest := d_Digest ov\<rparr> else d2);
          d4 = (if d_Platform ov \<noteq> None then d3\<lparr>d_Platform := d_Platform ov\<rparr> else d3);
          d5 = (if length (d_URLs ov) \<noteq> 0 then d4\<lparr>d_URLs := d_URLs ov\<rparr> else d4)
      in if length (d_Annotations ov) \<noteq> 0 then d5\<lparr>d_Annotations := d_Annotations ov\<rparr> else d5)"

definition computeDescriptor :: "index_addendum \<Rightarrow> descriptor res" where
  "computeDescriptor ia = bnd (appendable_Descriptor (ia_Add ia)) (\<lambda>desc. Inr (override (ia_Descriptor ia) desc))"

record mindex =
  mx_base :: image_index
  mx_adds :: "index_addendum list"
  mx_computed :: bool
  mx_manifest :: "index_manifest option"
  mx_mediaType :: "media_type option"
  mx_imageMap :: "v1_hash \<Rightarrow> image option"
  mx_indexMap :: "v1_hash \<Rightarrow> image_index option"

definition new_mindex :: "image_index \<Rightarrow> index_addendum list \<Rightarrow> mindex" where
  "new_mindex base adds =
     \<lparr>mx_base = base, mx_adds = adds, mx_computed = False, mx_manifest = None, mx_mediaType = None,
      mx_imageMap = Map.empty, mx_indexMap = Map.empty\<rparr>"

definition mx_MediaType :: "mindex \<Rightarrow> media_type res" where
  "mx_MediaType i = (case mx_mediaType i of Some mt \<Rightarrow> Inr mt | None \<Rightarrow> ii_MediaType (mx_base i))"

text \<open>
  The loop over the addenda fills the two maps of the struct as it goes, so that they are changed
  also when it ends with an error.
\<close>

fun add_manifests :: "index_addendum list \<Rightarrow> descriptor list \<Rightarrow> mindex \<Rightarrow> descriptor list res \<times> mindex" where
  "add_manifests [] ds i = (Inr ds, i)"
| "add_manifests (add # adds) ds i =
     (case computeDescriptor add of
        Inl e \<Rightarrow> (Inl e, i)
      | Inr desc \<Rightarrow>
          add_manifests adds (ds @ [desc])
            (case ia_Add add of
               AddIndex idx \<Rightarrow> i\<lparr>mx_indexMap := (mx_indexMap i)(d_Digest desc \<mapsto> idx)\<rparr>
             | AddImage img \<Rightarrow> i\<lparr>mx_imageMap := (mx_imageMap i)(d_Digest desc \<mapsto> img)\<rparr>
             | AddOther _ _ _ _ \<Rightarrow> i))"

definition mx_compute :: "mindex \<Rightarrow> unit res \<times> mindex" where
  "mx_compute i =
     (if mx_computed i then (Inr (), i)
      else
        let i1 = i\<lparr>mx_imageMap := Map.empty, mx_indexMap := Map.empty\<rparr> in
        case ii_IndexManifest (mx_base i) of
          Inl e \<Rightarrow> (Inl e, i1)
        | Inr m \<Rightarrow>
            (case add_manifests (mx_adds i) (im_Manifests m) i1 of
               (Inl e, i2) \<Rightarrow> (Inl e, i2)
             | (Inr manifests, i2) \<Rightarrow>
                 (Inr (), i2\<lparr>mx_manifest := Some (m\<lparr>im_Manifests := manifests,
                                                 im_MediaType := manifest_mediaType (mx_mediaType i) (im_MediaType m)\<rparr>),
                             mx_computed := True\<rparr>)))"

definition mx_Image :: "mindex \<Rightarrow> v1_hash \<Rightarrow> image res" where
  "mx_Image i h = (case mx_imageMap i h of Some img \<Rightarrow> Inr img | None \<Rightarrow> ii_Image (mx_base i) h)"

definition mx_ImageIndex :: "mindex \<Rightarrow> v1_hash \<Rightarrow> image_index res" where
  "mx_ImageIndex i h = (case mx_indexMap i h of Some idx \<Rightarrow> Inr idx | None \<Rightarrow> ii_ImageIndex (mx_base i) h)"

definition mx_IndexManifest :: "mindex \<Rightarrow> index_manifest res \<times> mindex" where
  "mx_IndexManifest i = (case mx_compute i of (Inl e, j) \<Rightarrow> (Inl e, j) | (Inr _, j) \<Rightarrow> (deref (mx_manifest j), j))"

definition mx_RawManifest :: "codec \<Rightarrow> mindex \<Rightarrow> bytes res \<times> mindex" where
  "mx_RawManifest E i =
     (case mx_compute i of
        (Inl e, j) \<Rightarrow> (Inl e, j)
      | (Inr _, j) \<Rightarrow> (bnd (deref (mx_manifest j)) (\<lambda>m. Inr (marshal_index E m)), j))"

definition mx_Digest :: "codec \<Rightarrow> mindex \<Rightarrow> v1_hash res \<times> mindex" where
  "mx_Digest E i =
     (case mx_compute i of
        (Inl e, j) \<Rightarrow> (Inl e, j)
      | (Inr _, j) \<Rightarrow> (case mx_RawManifest E j of (r, k) \<Rightarrow> (partial_Digest r, k)))"

definition mx_Size :: "codec \<Rightarrow> mindex \<Rightarrow> int res \<times> mindex" where
  "mx_Size E i = (case mx_RawManifest E i of (r, j) \<Rightarrow> (partial_Size r, j))"

text \<open>The struct as a v1.ImageIndex, once compute has run.\<close>

definition as_index :: "codec \<Rightarrow> mindex \<Rightarrow> image_index" where
  "as_index E i =
     (let j = snd (mx_compute i) in
      ImageIndex (mx_MediaType j) (fst (mx_Digest E j)) (fst (mx_Size E j)) (fst (mx_IndexManifest j))
        (fst (mx_RawManifest E j)) (mx_Image j) (mx_ImageIndex j) None)"

definition AppendManifests :: "codec \<Rightarrow> image_index \<Rightarrow> index_addendum list \<Rightarrow> image_index" where
  "AppendManifests E base adds = as_index E (new_mindex base adds)"

definition IndexMediaType :: "codec \<Rightarrow> image_index \<Rightarrow> media_type \<Rightarrow> image_index" where
  "IndexMediaType E idx mt = as_index E ((new_mindex idx [])\<lparr>mx_mediaType := Some mt\<rparr>)"

section \<open>rebase.go\<close>

text \<open>
  createAddendums: the loop over the history, which advances in the layers at every entry that is
  not empty, then the loop over the layers that are left.
\<close>

fun history_addendums ::
    "nat \<Rightarrow> nat \<Rightarrow> layer list \<Rightarrow> nat \<Rightarrow> nat \<Rightarrow> history list \<Rightarrow> (addendum list \<times> nat) res" where
  "history_addendums startHistory startLayer layers historyIndex layerIndex [] = Inr ([], layerIndex)"
| "history_addendums startHistory startLayer layers historyIndex layerIndex (h # hs) =
     bnd (if h_EmptyLayer h then Inr (None, layerIndex)
          else bnd (index_res layers layerIndex) (\<lambda>l. Inr (Some l, Suc layerIndex))) (\<lambda>(l, layerIndex').
     bnd (history_addendums startHistory startLayer layers (Suc historyIndex) layerIndex' hs) (\<lambda>(adds, n).
     Inr (if startHistory \<le> historyIndex \<or> startLayer \<le> layerIndex'
          then (\<lparr>a_Layer = l, a_History = h, a_URLs = [], a_Annotations = [], a_MediaType = ''''\<rparr> # adds, n)
          else (adds, n))))"

definition remaining_addendums :: "nat \<Rightarrow> layer list \<Rightarrow> nat \<Rightarrow> addendum list res" where
  "remaining_addendums startLayer layers layerIndex =
     map_res (\<lambda>i. bnd (index_res layers layerIndex) (\<lambda>l. Inr (layer_addendum l)))
       (filter (\<lambda>i. startLayer \<le> i) [layerIndex..<length layers])"

definition createAddendums :: "nat \<Rightarrow> nat \<Rightarrow> history list \<Rightarrow> layer list \<Rightarrow> addendum list res" where
  "createAddendums startHistory startLayer hist layers =
     bnd (history_addendums startHistory startLayer layers 0 0 hist) (\<lambda>(adds, layerIndex).
     bnd (remaining_addendums startLayer layers layerIndex) (\<lambda>more.
     Inr (adds @ more)))"

fun same_layers :: "layer list \<Rightarrow> layer list \<Rightarrow> unit res" where
  "same_layers [] _ = Inr ()"
| "same_layers (l # ls) origLayers =
     (case l_Digest l of
        Inl _ \<Rightarrow> Inl (ErrMsg ''failed to get digest of layer'')
      | Inr oldLayerDigest \<Rightarrow>
          bnd (index_res origLayers 0) (\<lambda>orig.
          case l_Digest orig of
            Inl _ \<Rightarrow> Inl (ErrMsg ''failed to get digest of layer'')
          | Inr origLayerDigest \<Rightarrow>
              if oldLayerDigest \<noteq> origLayerDigest then Inl (ErrMsg ''image is not based on (layer mismatch)'')
              else same_layers ls (tl origLayers)))"

definition Rebase :: "codec \<Rightarrow> image \<Rightarrow> image \<Rightarrow> image \<Rightarrow> image res" where
  "Rebase E orig oldBase newBase =
     bnd (wrap ''failed to get layers for original'' (i_Layers orig)) (\<lambda>origLayers.
     bnd (i_Layers oldBase) (\<lambda>oldBaseLayers.
     if length oldBaseLayers > length origLayers then Inl (ErrMsg ''image is not based on (too few layers)'')
     else
     bnd (same_layers oldBaseLayers origLayers) (\<lambda>_.
     bnd (wrap ''failed to get config for old base'' (i_ConfigFile oldBase)) (\<lambda>oldConfig.
     bnd (wrap ''failed to get config for original'' (i_ConfigFile orig)) (\<lambda>origConfig.
     bnd (wrap ''could not get config for new base'' (i_ConfigFile newBase)) (\<lambda>newConfig.
     bnd (wrap ''failed to create empty image with original config'' (mutate_Config E (empty_Image E) (cf_Config origConfig)))
       (\<lambda>rebasedImage0.
     bnd (wrap ''could not get config for rebased image'' (i_ConfigFile rebasedImage0)) (\<lambda>rebasedConfig.
     bnd (wrap ''failed to replace config for rebased image''
           (mutate_ConfigFile E rebasedImage0
              (rebasedConfig\<lparr>cf_Architecture := cf_Architecture newConfig, cf_OS := cf_OS newConfig,
                             cf_OSVersion := cf_OSVersion newConfig\<rparr>))) (\<lambda>rebasedImage1.
     bnd (wrap ''could not get new base layers for new base'' (i_Layers newBase)) (\<lambda>newBaseLayers.
     bnd (createAddendums 0 0 (cf_History newConfig) newBaseLayers) (\<lambda>adds1.
     bnd (wrap ''failed to append new base image'' (Append E rebasedImage1 adds1)) (\<lambda>rebasedImage2.
     bnd (createAddendums (length (cf_History oldConfig)) (length oldBaseLayers + 1) (cf_History origConfig) origLayers)
       (\<lambda>adds2.
     wrap ''failed to append original image'' (Append E rebasedImage2 adds2))))))))))))))"

section \<open>Creating addenda\<close>

definition count_layers :: "history list \<Rightarrow> nat" where
  "count_layers hs = length (filter (\<lambda>h. \<not> h_EmptyLayer h) hs)"

lemma count_layers_simps [simp]:
  "count_layers [] = 0"
  "count_layers (h # hs) = (if h_EmptyLayer h then count_layers hs else Suc (count_layers hs))"
  by (simp_all add: count_layers_def)

lemma history_addendums_append:
  "history_addendums sH sL ls hi li (hs1 @ hs2) =
     bnd (history_addendums sH sL ls hi li hs1) (\<lambda>(a, n).
     bnd (history_addendums sH sL ls (hi + length hs1) n hs2) (\<lambda>(b, m). Inr (a @ b, m)))"
proof (induction hs1 arbitrary: hi li)
  case Nil
  then show ?case by (cases "history_addendums sH sL ls hi li hs2") auto
next
  case (Cons h hs)
  show ?case
  proof (cases "if h_EmptyLayer h then Inr (None, li) else bnd (index_res ls li) (\<lambda>l. Inr (Some l, Suc li))")
    case (Inl e)
    then show ?thesis by simp
  next
    case (Inr p)
    obtain l li' where p: "p = (l, li')" by (cases p)
    show ?thesis
    proof (cases "history_addendums sH sL ls (Suc hi) li' hs")
      case (Inl e)
      with Inr p Cons.IH [of "Suc hi" li'] show ?thesis by simp
    next
      case first: (Inr q)
      obtain a n where q: "q = (a, n)" by (cases q)
      show ?thesis
        using Inr p Cons.IH [of "Suc hi" li'] first q
        by (cases "history_addendums sH sL ls (Suc (hi + length hs)) n hs2") auto
    qed
  qed
qed

lemma history_addendums_skip:
  assumes "hi + length hs \<le> sH" and "li + count_layers hs < sL" and "li + count_layers hs \<le> length ls"
  shows "history_addendums sH sL ls hi li hs = Inr ([], li + count_layers hs)"
  using assms
proof (induction hs arbitrary: hi li)
  case (Cons h hs)
  show ?case
  proof (cases "h_EmptyLayer h")
    case True
    with Cons.prems Cons.IH [of "Suc hi" li] show ?thesis by simp
  next
    case False
    with Cons.prems Cons.IH [of "Suc hi" "Suc li"] show ?thesis by (simp add: index_res_def)
  qed
qed simp

lemma history_addendums_take:
  assumes "sH \<le> hi" and "li + count_layers hs \<le> length ls"
  shows "\<exists>adds. history_addendums sH sL ls hi li hs = Inr (adds, li + count_layers hs) \<and>
           map a_History adds = hs \<and> add_layers adds = take (count_layers hs) (drop li ls)"
  using assms
proof (induction hs arbitrary: hi li)
  case (Cons h hs)
  show ?case
  proof (cases "h_EmptyLayer h")
    case True
    with Cons.prems Cons.IH [of "Suc hi" li] show ?thesis by auto
  next
    case False
    with Cons.prems have li: "li < length ls" by simp
    obtain adds where "history_addendums sH sL ls (Suc hi) (Suc li) hs = Inr (adds, Suc li + count_layers hs)"
      "map a_History adds = hs" "add_layers adds = take (count_layers hs) (drop (Suc li) ls)"
      using Cons.IH [of "Suc hi" "Suc li"] Cons.prems False by auto
    moreover have "drop li ls = ls ! li # drop (Suc li) ls" using li by (simp add: Cons_nth_drop_Suc)
    ultimately show ?thesis using Cons.prems False li by (simp add: index_res_def)
  qed
qed simp

lemma createAddendums_top:
  assumes "count_layers oldH = length oldL" and "count_layers topH = length topL"
  shows "\<exists>adds. createAddendums (length oldH) (length oldL + 1) (oldH @ topH) (oldL @ topL) = Inr adds \<and>
           map a_History adds = topH \<and> add_layers adds = topL"
proof -
  let ?ls = "oldL @ topL"
  have s: "history_addendums (length oldH) (length oldL + 1) ?ls 0 0 oldH = Inr ([], length oldL)"
    using history_addendums_skip [of 0 oldH "length oldH" 0 "length oldL + 1" ?ls] assms by simp
  obtain adds where t: "history_addendums (length oldH) (length oldL + 1) ?ls (length oldH) (length oldL) topH =
      Inr (adds, length oldL + count_layers topH)" "map a_History adds = topH" "add_layers adds = topL"
    using history_addendums_take [of "length oldH" "length oldH" "length oldL" topH ?ls "length oldL + 1"] assms by auto
  with s assms show ?thesis
    by (simp add: createAddendums_def history_addendums_append remaining_addendums_def)
qed

lemma createAddendums_all:
  assumes "count_layers hs = length ls"
  shows "\<exists>adds. createAddendums 0 0 hs ls = Inr adds \<and> map a_History adds = hs \<and> add_layers adds = ls"
proof -
  obtain adds where "history_addendums 0 0 ls 0 0 hs = Inr (adds, count_layers hs)" "map a_History adds = hs" "add_layers adds = ls"
    using history_addendums_take [of 0 0 0 hs ls 0] assms by auto
  with assms show ?thesis by (simp add: createAddendums_def remaining_addendums_def)
qed

text \<open>
  Without history, or with too little of it, the same layer is appended again and again, and the
  first layer above an old base is lost; with too much of it the code runs off the slice.
\<close>

lemma createAddendums_repeats: "createAddendums 0 0 [] [a, b] = Inr [layer_addendum a, layer_addendum a]"
  by (simp add: createAddendums_def remaining_addendums_def index_res_def upt_rec)

lemma createAddendums_loses: "createAddendums 0 (length [a] + 1) [] [a, b] = Inr []"
  by (simp add: createAddendums_def remaining_addendums_def index_res_def upt_rec)

lemma createAddendums_panics:
  "createAddendums 0 0 [zero_history] [] = Inl (Panic ''index out of range'')"
  by (simp add: createAddendums_def index_res_def zero_history_def)

section \<open>Rebasing\<close>

definition plain_addendum :: "addendum \<Rightarrow> bool" where
  "plain_addendum a \<longleftrightarrow> a_URLs a = [] \<and> a_Annotations a = [] \<and> a_MediaType a = '''' \<and>
     (a_Layer a = None \<longrightarrow> h_EmptyLayer (a_History a))"

lemma plain_override [simp]: "plain_addendum a \<Longrightarrow> override_descriptor a d = d"
  by (simp add: plain_addendum_def override_descriptor_def)

lemma plain_validate: "list_all plain_addendum adds \<Longrightarrow> mutate_validate adds = Inr ()"
  by (induction adds) (auto simp: plain_addendum_def)

lemma history_addendums_plain: "history_addendums sH sL ls hi li hs = Inr (adds, n) \<Longrightarrow> list_all plain_addendum adds"
  by (induction hs arbitrary: hi li adds) (auto simp: plain_addendum_def split: if_splits)

lemma createAddendums_plain: "createAddendums sH sL hs ls = Inr adds \<Longrightarrow> list_all plain_addendum adds"
proof -
  assume "createAddendums sH sL hs ls = Inr adds"
  then obtain a n b where a: "history_addendums sH sL ls 0 0 hs = Inr (a, n)" and b: "remaining_addendums sL ls n = Inr b"
    and "adds = a @ b" by (auto simp: createAddendums_def)
  moreover have "list_all plain_addendum b"
    using map_res_set [OF b [unfolded remaining_addendums_def]]
    by (fastforce simp: list_all_iff plain_addendum_def layer_addendum_def)
  ultimately show ?thesis using history_addendums_plain [OF a] by simp
qed

lemma add_descriptors_plain:
  "list_all plain_addendum adds \<Longrightarrow> map_res layer_Descriptor (add_layers adds) = Inr ds \<Longrightarrow>
     \<exists>gm'. add_descriptors adds (ds0, gm) = Inr (ds0 @ ds, gm')"
proof (induction adds arbitrary: ds0 ds gm)
  case (Cons a adds)
  show ?case
  proof (cases "a_Layer a")
    case None
    with Cons show ?thesis by simp
  next
    case (Some l)
    with Cons.prems obtain d ds' where d: "layer_Descriptor l = Inr d" "ds = d # ds'" "map_res layer_Descriptor (add_layers adds) = Inr ds'"
      by auto
    obtain gm' where "add_descriptors adds (ds0 @ [d], gm(d_Digest d \<mapsto> l)) = Inr ((ds0 @ [d]) @ ds', gm')"
      using Cons.IH [OF _ d(3)] Cons.prems(1) by (simp only: list.pred_inject) blast
    with Cons.prems(1) Some d show ?thesis by (intro exI [of _ gm']) (simp add: Let_def del: fun_upd_apply)
  qed
qed simp

text \<open>What a config file and a list of descriptors become when addenda are appended.\<close>

definition extended :: "addendum list \<Rightarrow> config_file \<Rightarrow> config_file" where
  "extended adds cf = cf\<lparr>cf_RootFS := (cf_RootFS cf)\<lparr>rf_DiffIDs := rf_DiffIDs (cf_RootFS cf) @ map diff_id (add_layers adds)\<rparr>,
                         cf_History := cf_History cf @ map a_History adds\<rparr>"

lemma Append_plain:
  assumes "i_ConfigFile base = Inr cf0" and "i_Manifest base = Inr m0" and p: "list_all plain_addendum adds"
    and ok: "list_all (\<lambda>l. is_ok (l_DiffID l)) (add_layers adds)" and ds: "map_res layer_Descriptor (add_layers adds) = Inr ds"
  shows "\<exists>img m. Append E base adds = Inr img \<and> i_ConfigFile img = Inr (extended adds cf0) \<and> i_Manifest img = Inr m \<and>
           m_Layers m = m_Layers m0 @ ds"
proof (cases "adds = []")
  case True
  with assms show ?thesis by (simp add: Append_def extended_def)
next
  case False
  obtain gm where gm: "add_descriptors adds (m_Layers m0, Map.empty) = Inr (m_Layers m0 @ ds, gm)"
    using add_descriptors_plain [OF p ds] by blast
  obtain j m where j: "compute E (new_mimage base adds) = Inr j" "mi_configFile j = Some (extended adds cf0)"
      "mi_manifest j = Some m" "m_Layers m = m_Layers m0 @ ds"
    using assms(1,2) gm by (simp add: compute_def new_mimage_def add_diffIDs_eq [OF ok] extended_def SHA256_def Let_def)
  with False plain_validate [OF p] mi_view [OF j(1-3)] show ?thesis by (simp add: Append_def)
qed

lemma mutate_ConfigFile_ok:
  assumes "i_Manifest base = Inr m0"
  shows "\<exists>img m. mutate_ConfigFile E base cfg = Inr img \<and> i_ConfigFile img = Inr cfg \<and> i_Manifest img = Inr m \<and>
           m_Layers m = m_Layers m0"
proof -
  obtain img where img: "mutate_ConfigFile E base cfg = Inr img"
    using assms by (simp add: mutate_ConfigFile_def new_config_image_def)
  moreover have "\<exists>m. i_Manifest img = Inr m \<and> m_Layers m = m_Layers m0"
    using img assms
    by (auto simp: mutate_ConfigFile_def new_config_image_def new_mimage_def as_image_def Let_def mi_method_defs
        compute_def SHA256_def deref_def)
  ultimately show ?thesis using mutate_ConfigFile_result by blast
qed

lemma same_layers_ok:
  "list_all2 (\<lambda>a b. \<exists>h. l_Digest a = Inr h \<and> l_Digest b = Inr h) old origOld \<Longrightarrow> same_layers old (origOld @ upper) = Inr ()"
  by (induction old origOld rule: list_all2_induct) (auto simp: index_res_def)

lemma diff_ids_ok: "list_all (\<lambda>l. is_ok (l_DiffID l)) (ls :: layer list) \<Longrightarrow> map_res l_DiffID ls = Inr (map diff_id ls)"
  by (induction ls) (auto simp: is_ok_iff diff_id_def)

text \<open>
  C33. Rebase moves the part of an image above its old base onto the new base: when the history of
  each of the images accounts for its layers, and the old base is a prefix of the original, the
  result has the layers, diff ids and history of the new base followed by those above the old base,
  the config of the original, and the platform of the new base.
\<close>

theorem Rebase_spec:
  assumes orig: "i_Layers orig = Inr (origOld @ upper)" "i_ConfigFile orig = Inr origC" "cf_History origC = oldH @ topH"
    and old: "i_Layers oldBase = Inr old" "i_ConfigFile oldBase = Inr oldC" "length (cf_History oldC) = length oldH"
    and new: "i_Layers newBase = Inr newL" "i_ConfigFile newBase = Inr newC"
    and base: "list_all2 (\<lambda>a b. \<exists>h. l_Digest a = Inr h \<and> l_Digest b = Inr h) old origOld"
    and counts: "count_layers oldH = length origOld" "count_layers topH = length upper" "count_layers (cf_History newC) = length newL"
    and ok: "list_all (\<lambda>l. is_ok (l_DiffID l)) (newL @ upper)" "map_res layer_Descriptor newL = Inr ds1" "map_res layer_Descriptor upper = Inr ds2"
    and E: "decode_config E (marshal_config E empty_config) = Inr empty_config"
  shows "\<exists>img cf m. Rebase E orig oldBase newBase = Inr img \<and> i_ConfigFile img = Inr cf \<and> i_Manifest img = Inr m \<and>
     m_Layers m = ds1 @ ds2 \<and> rf_DiffIDs (cf_RootFS cf) = map diff_id (newL @ upper) \<and>
     cf_History cf = cf_History newC @ topH \<and> cf_Config cf = cf_Config origC \<and>
     cf_Architecture cf = cf_Architecture newC \<and> cf_OS cf = cf_OS newC \<and> cf_OSVersion cf = cf_OSVersion newC"
proof -
  have len: "length old = length origOld" using base by (rule list_all2_lengthD)
  note e = empty_Image_fields [OF E]
  let ?c0 = "empty_config\<lparr>cf_Config := cf_Config origC\<rparr>"
  obtain i0 m0 where i0: "mutate_ConfigFile E (empty_Image E) ?c0 = Inr i0" "i_ConfigFile i0 = Inr ?c0" "i_Manifest i0 = Inr m0"
      "m_Layers m0 = []"
    using mutate_ConfigFile_ok [OF e(2), of E ?c0] by (auto simp: empty_manifest_def)
  let ?c1 = "?c0\<lparr>cf_Architecture := cf_Architecture newC, cf_OS := cf_OS newC, cf_OSVersion := cf_OSVersion newC\<rparr>"
  obtain i1 m1 where i1: "mutate_ConfigFile E i0 ?c1 = Inr i1" "i_ConfigFile i1 = Inr ?c1" "i_Manifest i1 = Inr m1"
      "m_Layers m1 = []"
    using mutate_ConfigFile_ok [OF i0(3)] i0(4) by metis
  obtain a1 where a1: "createAddendums 0 0 (cf_History newC) newL = Inr a1" "map a_History a1 = cf_History newC" "add_layers a1 = newL"
    using createAddendums_all [OF counts(3)] by blast
  obtain i2 m2 where i2: "Append E i1 a1 = Inr i2" "i_ConfigFile i2 = Inr (extended a1 ?c1)" "i_Manifest i2 = Inr m2" "m_Layers m2 = ds1"
    using Append_plain [OF i1(2,3) createAddendums_plain [OF a1(1)], of ds1 E] ok a1(3) i1(4) by auto
  obtain a2 where a2: "createAddendums (length oldH) (length old + 1) (oldH @ topH) (origOld @ upper) = Inr a2"
      "map a_History a2 = topH" "add_layers a2 = upper"
    using createAddendums_top [OF counts(1,2)] len by auto
  obtain i3 m3 where i3: "Append E i2 a2 = Inr i3" "i_ConfigFile i3 = Inr (extended a2 (extended a1 ?c1))" "i_Manifest i3 = Inr m3"
      "m_Layers m3 = ds1 @ ds2"
    using Append_plain [OF i2(2,3) createAddendums_plain [OF a2(1)], of ds2 E] ok a2(3) i2(4) by auto
  have "Rebase E orig oldBase newBase = Inr i3"
    using orig old new len e(1) i0 i1 a1(1) i2(1) a2(1) i3(1) same_layers_ok [OF base]
    by (simp add: Rebase_def wrap_def mutate_Config_def)
  moreover have "rf_DiffIDs (cf_RootFS empty_config) = []" "cf_History empty_config = []"
    by (simp_all add: empty_config_def zero_config_file_def)
  ultimately show ?thesis
    using i3 a1 a2 by (intro exI [of _ i3]) (simp add: extended_def)
qed

text \<open>An image of one layer, rebased from the empty base onto itself.\<close>

theorem Rebase_spec_witness:
  "\<exists>img m. Rebase demo_codec (as_image demo_codec demo_image) (empty_Image demo_codec) (as_image demo_codec demo_image) = Inr img \<and>
     i_Manifest img = Inr m \<and> length (m_Layers m) = 2"
proof -
  note v = mi_view [OF demo_compute, of demo_config demo_manifest, simplified]
  have l: "i_Layers (as_image demo_codec demo_image) = Inr [demo_layer]"
    by (simp add: v demo_config_def mi_LayerByDiffID_def)
  have c: "i_ConfigFile (as_image demo_codec demo_image) = Inr demo_config" by (rule v)
  have E: "decode_config demo_codec (marshal_config demo_codec empty_config) = Inr empty_config"
    by (simp add: demo_marshal demo_decode)
  note e = empty_Image_fields [OF E]
  obtain d where d: "layer_Descriptor demo_layer = Inr d"
    by (simp add: layer_Descriptor_def partial_Descriptor_def demo_layer_def)
  have h: "cf_History demo_config = [] @ [zero_history]" "cf_History empty_config = []"
    by (simp_all add: demo_config_def empty_config_def zero_config_file_def)
  have k: "is_ok (l_DiffID demo_layer)" by (simp add: demo_layer_def)
  have z: "count_layers [zero_history] = 1" by (simp add: zero_history_def)
  from Rebase_spec [where origOld = "[]" and upper = "[demo_layer]" and oldH = "[]" and topH = "[zero_history]" and old = "[]"
      and newL = "[demo_layer]" and ?ds1.0 = "[d]" and ?ds2.0 = "[d]", OF _ c h(1) e(3) e(1) _ l c _ _ _ _ _ _ _ E] l h d k z
  show ?thesis by auto
qed

section \<open>Appending to an index\<close>

lemma add_manifests_frame:
  assumes "add_manifests adds ds i = (r, j)"
  shows "mx_base j = mx_base i \<and> mx_adds j = mx_adds i \<and> mx_mediaType j = mx_mediaType i"
  using assms
proof (induction adds arbitrary: ds i)
  case (Cons a adds)
  show ?case
  proof (cases "computeDescriptor a")
    case (Inl e)
    with Cons.prems show ?thesis by auto
  next
    case (Inr d)
    with Cons.prems show ?thesis
      by (cases "ia_Add a") (auto dest!: Cons.IH)
  qed
qed simp

lemma add_manifests_ok:
  assumes "map_res computeDescriptor adds = Inr new" and "distinct (map d_Digest new)"
  shows "\<exists>j. add_manifests adds ds i = (Inr (ds @ new), j) \<and>
     (\<forall>(ia, d)\<in>set (zip adds new).
        (\<forall>idx. ia_Add ia = AddIndex idx \<longrightarrow> mx_indexMap j (d_Digest d) = Some idx) \<and>
        (\<forall>img. ia_Add ia = AddImage img \<longrightarrow> mx_imageMap j (d_Digest d) = Some img)) \<and>
     (\<forall>h. h \<notin> d_Digest ` set new \<longrightarrow> mx_indexMap j h = mx_indexMap i h \<and> mx_imageMap j h = mx_imageMap i h)"
  using assms
proof (induction adds arbitrary: ds i new)
  case (Cons a adds)
  then obtain d new' where d: "computeDescriptor a = Inr d" "new = d # new'" "map_res computeDescriptor adds = Inr new'"
    "distinct (map d_Digest new')" "d_Digest d \<notin> d_Digest ` set new'" by auto
  let ?i = "case ia_Add a of
               AddIndex idx \<Rightarrow> i\<lparr>mx_indexMap := (mx_indexMap i)(d_Digest d \<mapsto> idx)\<rparr>
             | AddImage img \<Rightarrow> i\<lparr>mx_imageMap := (mx_imageMap i)(d_Digest d \<mapsto> img)\<rparr>
             | AddOther _ _ _ _ \<Rightarrow> i"
  obtain j where j: "add_manifests adds (ds @ [d]) ?i = (Inr ((ds @ [d]) @ new'), j)"
    and m: "\<forall>(ia, d)\<in>set (zip adds new').
        (\<forall>idx. ia_Add ia = AddIndex idx \<longrightarrow> mx_indexMap j (d_Digest d) = Some idx) \<and>
        (\<forall>img. ia_Add ia = AddImage img \<longrightarrow> mx_imageMap j (d_Digest d) = Some img)"
    and r: "\<forall>h. h \<notin> d_Digest ` set new' \<longrightarrow> mx_indexMap j h = mx_indexMap ?i h \<and> mx_imageMap j h = mx_imageMap ?i h"
    using Cons.IH [OF d(3,4)] by blast
  have "(\<forall>idx. ia_Add a = AddIndex idx \<longrightarrow> mx_indexMap j (d_Digest d) = Some idx) \<and>
        (\<forall>img. ia_Add a = AddImage img \<longrightarrow> mx_imageMap j (d_Digest d) = Some img)"
    using r d(5) by (cases "ia_Add a") auto
  moreover have "mx_indexMap j h = mx_indexMap i h \<and> mx_imageMap j h = mx_imageMap i h" if "h \<notin> d_Digest ` set new" for h
    using r that d(2) by (cases "ia_Add a") auto
  ultimately show ?case using j m d(1,2) by (intro exI [of _ j]) simp
qed simp

definition addendum_valid :: "codec \<Rightarrow> index_addendum \<Rightarrow> descriptor \<Rightarrow> bool" where
  "addendum_valid E ia d =
     (case ia_Add ia of
        AddIndex idx \<Rightarrow> IsIndex (d_MediaType d) \<and> validate_Index E idx = Inr () \<and> ii_MediaType idx = Inr (d_MediaType d)
      | AddImage img \<Rightarrow> IsImage (d_MediaType d) \<and> validate_Image E img = Inr () \<and> i_MediaType img = Inr (d_MediaType d)
      | AddOther _ _ _ _ \<Rightarrow> \<not> IsIndex (d_MediaType d) \<and> \<not> IsImage (d_MediaType d))"

lemma AppendManifests_fields:
  assumes "ii_IndexManifest base = Inr im" and "map_res computeDescriptor adds = Inr new" and "distinct (map d_Digest new)"
  shows "let idx = AppendManifests E base adds; im' = im\<lparr>im_Manifests := im_Manifests im @ new\<rparr> in
     ii_IndexManifest idx = Inr im' \<and> ii_RawManifest idx = Inr (marshal_index E im') \<and>
     ii_Digest idx = Inr (sha (marshal_index E im')) \<and> ii_Size idx = Inr (int (length (marshal_index E im'))) \<and>
     (\<forall>(ia, d)\<in>set (zip adds new).
        (\<forall>c. ia_Add ia = AddIndex c \<longrightarrow> ii_ImageIndex idx (d_Digest d) = Inr c) \<and>
        (\<forall>c. ia_Add ia = AddImage c \<longrightarrow> ii_Image idx (d_Digest d) = Inr c)) \<and>
     (\<forall>h. h \<notin> d_Digest ` set new \<longrightarrow> ii_ImageIndex idx h = ii_ImageIndex base h \<and> ii_Image idx h = ii_Image base h)"
proof -
  let ?i = "new_mindex base adds"
  let ?im = "im\<lparr>im_Manifests := im_Manifests im @ new\<rparr>"
  obtain j where j: "add_manifests adds (im_Manifests im) ?i = (Inr (im_Manifests im @ new), j)"
    and m: "\<forall>(ia, d)\<in>set (zip adds new).
        (\<forall>idx. ia_Add ia = AddIndex idx \<longrightarrow> mx_indexMap j (d_Digest d) = Some idx) \<and>
        (\<forall>img. ia_Add ia = AddImage img \<longrightarrow> mx_imageMap j (d_Digest d) = Some img)"
    and r: "\<forall>h. h \<notin> d_Digest ` set new \<longrightarrow> mx_indexMap j h = None \<and> mx_imageMap j h = None"
    using add_manifests_ok [OF assms(2,3), of "im_Manifests im" ?i] by (auto simp: new_mindex_def)
  have fr: "mx_base j = base" "mx_mediaType j = None"
    using add_manifests_frame [OF j] by (simp_all add: new_mindex_def)
  have i1: "?i\<lparr>mx_imageMap := Map.empty, mx_indexMap := Map.empty\<rparr> = ?i" by (simp add: new_mindex_def)
  let ?j = "j\<lparr>mx_manifest := Some ?im, mx_computed := True\<rparr>"
  have c: "mx_compute ?i = (Inr (), ?j)"
  proof -
    have "mx_computed ?i = False" "mx_base ?i = base" "mx_adds ?i = adds" "mx_mediaType ?i = None"
      by (simp_all add: new_mindex_def)
    then show ?thesis using assms(1) j by (simp add: mx_compute_def i1 manifest_mediaType_def Let_def)
  qed
  have c2: "mx_compute ?j = (Inr (), ?j)" by (simp add: mx_compute_def)
  show ?thesis
    using m r fr
    by (auto simp: AppendManifests_def as_index_def c Let_def mx_IndexManifest_def mx_RawManifest_def mx_Digest_def mx_Size_def
        c2 deref_def partial_Digest_def partial_Size_def sha_def mx_Image_def mx_ImageIndex_def)
qed

text \<open>
  C34. Appending valid children to a valid index gives a valid index: the descriptors of the addenda
  name the media types of what is appended, their digests are new and pairwise different, and the new
  manifest survives a JSON round trip.
\<close>

theorem AppendManifests_validates:
  assumes base: "validate_Index E base = Inr ()" "ii_IndexManifest base = Inr im"
    and new: "map_res computeDescriptor adds = Inr new" "list_all2 (addendum_valid E) adds new"
    and dist: "distinct (map d_Digest new)" "d_Digest ` set new \<inter> d_Digest ` set (im_Manifests im) = {}"
    and json: "decode_index E (marshal_index E (im\<lparr>im_Manifests := im_Manifests im @ new\<rparr>)) = Inr (im\<lparr>im_Manifests := im_Manifests im @ new\<rparr>)"
  shows "validate_Index E (AppendManifests E base adds) = Inr ()"
proof -
  let ?x = "AppendManifests E base adds"
  note f = AppendManifests_fields [OF base(2) new(1) dist(1), of E, unfolded Let_def]
  have old: "child_ok E ?x d" if "d \<in> set (im_Manifests im)" for d
  proof -
    have "d_Digest d \<notin> d_Digest ` set new" using that dist(2) by blast
    with f have "ii_ImageIndex ?x (d_Digest d) = ii_ImageIndex base (d_Digest d)" "ii_Image ?x (d_Digest d) = ii_Image base (d_Digest d)"
      by blast+
    moreover have "child_ok E base d" using base that by (auto simp: validate_Index_parts list_all_iff)
    ultimately show ?thesis by (simp add: child_ok_def)
  qed
  have len: "length adds = length new" using new(2) by (rule list_all2_lengthD)
  have added: "child_ok E ?x d" if "d \<in> set new" for d
  proof -
    obtain ia where z: "(ia, d) \<in> set (zip adds new)" using \<open>d \<in> set new\<close> len by (metis in_set_impl_in_set_zip2)
    with new(2) have v: "addendum_valid E ia d" by (auto dest: list_all2_in_zip)
    from f z have m: "\<And>c. ia_Add ia = AddIndex c \<Longrightarrow> ii_ImageIndex ?x (d_Digest d) = Inr c"
      "\<And>c. ia_Add ia = AddImage c \<Longrightarrow> ii_Image ?x (d_Digest d) = Inr c" by blast+
    show ?thesis
      using v m media_kinds_disjoint [of "d_MediaType d"]
      by (cases "ia_Add ia") (auto simp: addendum_valid_def child_ok_def)
  qed
  show ?thesis
    using f old added json by (auto simp: validate_Index_parts list_all_iff)
qed

text \<open>An index appended to the empty index.\<close>

theorem AppendManifests_validates_witness:
  "\<exists>E idx. validate_Index E idx = Inr () \<and>
     validate_Index E (AppendManifests E (empty_Index E) [\<lparr>ia_Add = AddIndex idx, ia_Descriptor = zero_descriptor\<rparr>]) = Inr ()"
proof -
  let ?d = "zero_descriptor\<lparr>d_MediaType := OCIImageIndex, d_Size := 1, d_Digest := sha ''0''\<rparr>"
  let ?im = "base_index\<lparr>im_Manifests := [?d]\<rparr>"
  let ?E = "table_codec [] [base_index, ?im] []"
  have ne: "base_index \<noteq> ?im" by (simp add: base_index_def)
  have m: "marshal_index ?E base_index = ''0''" by (simp add: table_codec_def show_01)
  have r: "decode_index ?E (marshal_index ?E base_index) = Inr base_index" "decode_index ?E (marshal_index ?E ?im) = Inr ?im"
    by (rule table_codec_roundtrip(2); simp)+
  have b: "ii_IndexManifest (empty_Index ?E) = Inr base_index" "im_Manifests base_index = []"
    by (simp_all add: empty_Index_def Let_def) (simp add: base_index_def)
  have f: "ii_RawManifest (empty_Index ?E) = Inr ''0''" "ii_Digest (empty_Index ?E) = Inr (sha ''0'')"
      "ii_Size (empty_Index ?E) = Inr 1" "ii_MediaType (empty_Index ?E) = Inr OCIImageIndex"
      "ii_Descriptor (empty_Index ?E) = None"
    using m by (simp_all add: empty_Index_def Let_def partial_Digest_def partial_Size_def sha_def)
  have v: "validate_Index ?E (empty_Index ?E) = Inr ()"
    using r(1) m by (simp add: validate_Index_parts f b)
  let ?a = "\<lparr>ia_Add = AddIndex (empty_Index ?E), ia_Descriptor = zero_descriptor\<rparr>"
  have d: "map_res computeDescriptor [?a] = Inr [?d]"
    by (simp add: computeDescriptor_def appendable_Descriptor_def index_Descriptor_def partial_Descriptor_def f override_def)
       (simp add: zero_descriptor_def)
  have "validate_Index ?E (AppendManifests ?E (empty_Index ?E) [?a]) = Inr ()"
    by (rule AppendManifests_validates [OF v b(1) d])
      (use v r(2) b f(4) in \<open>simp_all add: addendum_valid_def IsIndex_def\<close>)
  with v show ?thesis by blast
qed

end
