(* ===== verification/Go_Http.thy ===== *)
theory Go_Http
  imports Go_Prelude
begin

text \<open>
  net/http and net/url, as far as the sources use them: a URL with its query already parsed into the
  list of its key-value pairs, requests, responses, and headers with canonical keys.
\<close>

type_synonym params = "(string \<times> string) list"

record url =
  u_Scheme :: string
  u_Host :: string
  u_Path :: string
  u_Query :: params

record http_request =
  rq_Method :: string
  rq_URL :: url
  rq_Host :: string
  rq_Header :: params
  rq_Body :: bytes
  rq_GetBody :: bool

record http_response =
  rs_StatusCode :: int
  rs_Header :: params
  rs_Body :: bytes

text \<open>url.Values.Get and http.Header.Get: the first value of the key, or the empty string.\<close>

definition get_first :: "params \<Rightarrow> string \<Rightarrow> string" where
  "get_first ps k = (case map_of ps k of Some v \<Rightarrow> v | None \<Rightarrow> '''')"

text \<open>http.Header.Set: one value for the key.\<close>

definition set_param :: "params \<Rightarrow> string \<Rightarrow> string \<Rightarrow> params" where
  "set_param ps k v = (k, v) # filter (\<lambda>p. fst p \<noteq> k) ps"

lemma get_first_set [simp]: "get_first (set_param ps k v) k' = (if k' = k then v else get_first ps k')"
proof -
  have "map_of (filter (\<lambda>p. fst p \<noteq> k) ps) k' = map_of ps k'" if "k' \<noteq> k"
    using that by (induction ps) auto
  then show ?thesis by (simp add: get_first_def set_param_def)
qed

lemma get_first_simps [simp]:
  "get_first [] k = ''''"
  "get_first ((k', v) # ps) k = (if k' = k then v else get_first ps k)"
  by (simp_all add: get_first_def)

text \<open>
  A request as http.NewRequest makes it from the bytes of a buffer, and from a reader of another
  kind, which the client cannot read a second time.
\<close>

definition new_request :: "string \<Rightarrow> url \<Rightarrow> bytes \<Rightarrow> http_request" where
  "new_request m u b = \<lparr>rq_Method = m, rq_URL = u, rq_Host = u_Host u, rq_Header = [], rq_Body = b, rq_GetBody = True\<rparr>"

definition new_stream_request :: "string \<Rightarrow> url \<Rightarrow> bytes \<Rightarrow> http_request" where
  "new_stream_request m u b = (new_request m u b)\<lparr>rq_GetBody := False\<rparr>"

text \<open>The status codes by name.\<close>

definition StatusOK :: int where "StatusOK = 200"
definition StatusCreated :: int where "StatusCreated = 201"
definition StatusAccepted :: int where "StatusAccepted = 202"
definition StatusNoContent :: int where "StatusNoContent = 204"
definition StatusTemporaryRedirect :: int where "StatusTemporaryRedirect = 307"
definition StatusBadRequest :: int where "StatusBadRequest = 400"
definition StatusUnauthorized :: int where "StatusUnauthorized = 401"
definition StatusNotFound :: int where "StatusNotFound = 404"
definition StatusRequestedRangeNotSatisfiable :: int where "StatusRequestedRangeNotSatisfiable = 416"

lemmas status_defs = StatusOK_def StatusCreated_def StatusAccepted_def StatusNoContent_def StatusTemporaryRedirect_def
  StatusBadRequest_def StatusUnauthorized_def StatusNotFound_def StatusRequestedRangeNotSatisfiable_def

section \<open>fmt.Sscanf with the format of two integers and a dash\<close>

text \<open>
  The verb d skips blanks, takes an optional sign and at least one digit, and fails on a value that
  does not fit in 64 bits; what follows the second number is not read.
\<close>

definition scan_int :: "string \<Rightarrow> (int \<times> string) option" where
  "scan_int s =
     (let s1 = dropWhile (\<lambda>c. c = CHR '' '' \<or> c = CHR 0x09) s;
          (neg, s2) = (case s1 of
                         [] \<Rightarrow> (False, s1)
                       | c # r \<Rightarrow> if c = CHR ''-'' then (True, r) else if c = CHR ''+'' then (False, r) else (False, s1));
          ds = takeWhile is_digit s2;
          v = (if neg then - int (parse_digits ds) else int (parse_digits ds))
      in if ds = [] \<or> v < - (2 ^ 63) \<or> 2 ^ 63 \<le> v then None
         else Some (v, dropWhile is_digit s2))"

definition scan_range :: "string \<Rightarrow> (int \<times> int) option" where
  "scan_range s =
     (case scan_int s of
        None \<Rightarrow> None
      | Some (a, r) \<Rightarrow>
          (case r of
             [] \<Rightarrow> None
           | c # r' \<Rightarrow>
               if c = CHR ''-'' then (case scan_int r' of None \<Rightarrow> None | Some (b, _) \<Rightarrow> Some (a, b)) else None))"

lemma show_nat_head: "\<exists>c r. show_nat n = c # r \<and> is_digit c"
  using show_nat_digits [of n] show_nat_not_Nil [of n] by (cases "show_nat n") auto

lemma digit_not_special: "is_digit c \<Longrightarrow> c \<noteq> CHR '' '' \<and> c \<noteq> CHR 0x09 \<and> c \<noteq> CHR ''-'' \<and> c \<noteq> CHR ''+''"
  by (auto simp: is_digit_def)

lemma scan_show_nat:
  assumes "int n < 2 ^ 63" and "r = [] \<or> \<not> is_digit (hd r)"
  shows "scan_int (show_nat n @ r) = Some (int n, r)"
proof -
  obtain c t where c: "show_nat n = c # t" "is_digit c" using show_nat_head by blast
  have tw: "takeWhile is_digit (show_nat n @ r) = show_nat n" "dropWhile is_digit (show_nat n @ r) = r"
    using assms(2) show_nat_digits [of n]
    by (cases r; auto simp: takeWhile_append2 dropWhile_append2)+
  from digit_not_special [OF c(2)] c assms(1) tw show ?thesis
    using parse_show_nat [of n] by (simp add: scan_int_def Let_def)
qed

lemma scan_range_show:
  assumes "int a < 2 ^ 63" and "int b < 2 ^ 63"
  shows "scan_range (show_nat a @ ''-'' @ show_nat b) = Some (int a, int b)"
  using scan_show_nat [OF assms(1), of "CHR ''-'' # show_nat b"] scan_show_nat [OF assms(2), of "[]"]
  by (simp add: scan_range_def is_digit_def)

end
