(* ===== verification/Go_Net.thy ===== *)
theory Go_Net
  imports Go_Http Go_Url Go_Path "HOL-Library.Char_ord" "HOL-Library.List_Lexorder"
begin

text \<open>
  net/url and the client of net/http, as far as the sources use them: parsing and printing of URLs,
  resolution of references, encoding of queries, and http.Client.Do, which sends a request through a
  RoundTripper and follows redirects.  URLs with user information, an opaque part or a fragment are
  not modelled: parsing gives an error for the first two and drops the third.
\<close>

section \<open>Percent encoding\<close>

definition hex_upper :: "nat \<Rightarrow> char" where
  "hex_upper d = char_of (if d < 10 then 48 + d else 55 + d)"

definition unreserved :: "char \<Rightarrow> bool" where
  "unreserved c \<longleftrightarrow> is_alpha c \<or> is_digit c \<or> c \<in> set ''-_.~''"

definition path_char :: "char \<Rightarrow> bool" where
  "path_char c \<longleftrightarrow> unreserved c \<or> c \<in> set ''$&+,/:;=@''"

definition percent :: "char \<Rightarrow> string" where
  "percent c = [CHR ''%'', hex_upper (byte c div 16), hex_upper (byte c mod 16)]"

definition escape_path :: "string \<Rightarrow> string" where
  "escape_path s = concat (map (\<lambda>c. if path_char c then [c] else percent c) s)"

definition escape_query :: "string \<Rightarrow> string" where
  "escape_query s = concat (map (\<lambda>c. if unreserved c then [c] else if c = CHR '' '' then ''+'' else percent c) s)"

fun unescape :: "bool \<Rightarrow> string \<Rightarrow> string option" where
  "unescape query [] = Some []"
| "unescape query (c # s) =
     (if c = CHR ''%'' then
        (case s of
           a # b # r \<Rightarrow>
             if is_hex_digit a \<and> is_hex_digit b
             then map_option (\<lambda>t. char_of (16 * unhex a + unhex b) # t) (unescape query r)
             else None
         | _ \<Rightarrow> None)
      else map_option (\<lambda>t. (if query \<and> c = CHR ''+'' then CHR '' '' else c) # t) (unescape query s))"

section \<open>Queries\<close>

text \<open>Values.Encode sorts by key; Query drops the pairs that do not parse.\<close>

definition encode_query :: "params \<Rightarrow> string" where
  "encode_query q = join_with (CHR ''&'') (map (\<lambda>(k, v). escape_query k @ ''='' @ escape_query v) (sort_key fst q))"

definition parse_pair :: "string \<Rightarrow> params" where
  "parse_pair s =
     (if s = '''' then []
      else case split_n2 (CHR ''='') s of
             [k, v] \<Rightarrow> (case (unescape True k, unescape True v) of (Some k', Some v') \<Rightarrow> [(k', v')] | _ \<Rightarrow> [])
           | _ \<Rightarrow> (case unescape True s of Some k' \<Rightarrow> [(k', '''')] | None \<Rightarrow> []))"

definition parse_query :: "string \<Rightarrow> params" where
  "parse_query s = concat (map parse_pair (concat (map (split_on (CHR '';'')) (split_on (CHR ''&'') s))))"

section \<open>url.Parse and ResolveReference\<close>

definition url_string :: "url \<Rightarrow> string" where
  "url_string u =
     (if u_Scheme u = '''' then '''' else u_Scheme u @ '':'') @
     (if u_Scheme u \<noteq> '''' \<or> u_Host u \<noteq> '''' then ''//'' @ u_Host u else '''') @
     (if u_Path u \<noteq> '''' \<and> hd (u_Path u) \<noteq> CHR ''/'' \<and> u_Host u \<noteq> '''' then ''/'' else '''') @
     escape_path (u_Path u) @
     (if u_Query u = [] then '''' else ''?'' @ encode_query (u_Query u))"

text \<open>getscheme: the scheme and the rest, None for a missing scheme in front of a colon.\<close>

definition get_scheme :: "string \<Rightarrow> (string \<times> string) option" where
  "get_scheme s =
     (let h = takeWhile (\<lambda>c. is_alpha c \<or> is_digit c \<or> c \<in> set ''+-.'') s;
          r = dropWhile (\<lambda>c. is_alpha c \<or> is_digit c \<or> c \<in> set ''+-.'') s in
      if h \<noteq> [] \<and> \<not> is_alpha (hd h) then Some ('''', s)
      else case r of
             [] \<Rightarrow> Some ('''', s)
           | c # t \<Rightarrow>
               if c \<noteq> CHR '':'' then Some ('''', s)
               else if h = [] then None else Some (to_lower h, t))"

text \<open>The parts of a reference: scheme, host, escaped path, raw query if there is one.\<close>

record url_ref =
  ur_Scheme :: string
  ur_Host :: string
  ur_Path :: string
  ur_Query :: string

definition url_error :: go_error where
  "url_error = ErrURL (ErrMsg ''parse'')"

definition parse_authority :: "string \<Rightarrow> string \<Rightarrow> string \<Rightarrow> string \<Rightarrow> url_ref res" where
  "parse_authority scheme auth path query =
     (if CHR ''@'' \<in> set auth then Inl url_error
      else case parse_host auth of
             None \<Rightarrow> Inl url_error
           | Some h \<Rightarrow>
               (case unescape False path of
                  None \<Rightarrow> Inl url_error
                | Some _ \<Rightarrow> Inr \<lparr>ur_Scheme = scheme, ur_Host = h, ur_Path = path, ur_Query = query\<rparr>))"

definition parse_rest :: "string \<Rightarrow> string \<Rightarrow> string \<Rightarrow> url_ref res" where
  "parse_rest scheme rest query =
     (if \<not> prefix ''/'' rest \<and> scheme \<noteq> '''' then Inl url_error
      else if \<not> prefix ''/'' rest \<and> CHR '':'' \<in> set (takeWhile (\<lambda>c. c \<noteq> CHR ''/'') rest) then Inl url_error
      else if prefix ''//'' rest \<and> (scheme \<noteq> '''' \<or> \<not> prefix ''///'' rest) then
        parse_authority scheme (takeWhile (\<lambda>c. c \<noteq> CHR ''/'') (drop 2 rest)) (dropWhile (\<lambda>c. c \<noteq> CHR ''/'') (drop 2 rest)) query
      else (case unescape False rest of
              Some _ \<Rightarrow> Inr \<lparr>ur_Scheme = scheme, ur_Host = '''', ur_Path = rest, ur_Query = query\<rparr>
            | None \<Rightarrow> Inl url_error))"

definition parse_ref :: "string \<Rightarrow> url_ref res" where
  "parse_ref raw =
     (if list_ex is_ctl raw then Inl url_error
      else case get_scheme (takeWhile (\<lambda>c. c \<noteq> CHR ''#'') raw) of
             None \<Rightarrow> Inl url_error
           | Some (scheme, rest) \<Rightarrow>
               parse_rest scheme (takeWhile (\<lambda>c. c \<noteq> CHR ''?'') rest) (drop 1 (dropWhile (\<lambda>c. c \<noteq> CHR ''?'') rest)))"

definition decoded :: "string \<Rightarrow> string" where
  "decoded p = (case unescape False p of Some q \<Rightarrow> q | None \<Rightarrow> p)"

definition url_Parse :: "string \<Rightarrow> url res" where
  "url_Parse s =
     bnd (parse_ref s) (\<lambda>r. Inr \<lparr>u_Scheme = ur_Scheme r, u_Host = ur_Host r, u_Path = decoded (ur_Path r), u_Query = parse_query (ur_Query r)\<rparr>)"

fun dot_step :: "string list \<Rightarrow> string \<Rightarrow> string list" where
  "dot_step dst e = (if e = ''.'' then dst else if e = ''..'' then butlast dst else dst @ [e])"

definition resolvePath :: "string \<Rightarrow> string \<Rightarrow> string" where
  "resolvePath base ref =
     (let full = (if ref = '''' then base else if hd ref \<noteq> CHR ''/'' then dir_part base @ ref else ref);
          src = split_on (CHR ''/'') full;
          dst = foldl dot_step [] src;
          dst' = (if last src = ''.'' \<or> last src = ''..'' then dst @ [''''] else dst);
          out = join_with (CHR ''/'') dst'
      in if full = '''' then '''' else ''/'' @ (if prefix ''/'' out then drop 1 out else out))"

text \<open>Parsing a reference and resolving it against a base URL.\<close>

definition url_resolve :: "url \<Rightarrow> string \<Rightarrow> url res" where
  "url_resolve base s =
     bnd (parse_ref s) (\<lambda>r.
       let scheme = (if ur_Scheme r = '''' then u_Scheme base else ur_Scheme r) in
       if ur_Scheme r \<noteq> '''' \<or> ur_Host r \<noteq> '''' then
         Inr \<lparr>u_Scheme = scheme, u_Host = ur_Host r, u_Path = decoded (resolvePath (ur_Path r) ''''), u_Query = parse_query (ur_Query r)\<rparr>
       else
         Inr \<lparr>u_Scheme = scheme, u_Host = u_Host base,
              u_Path = decoded (resolvePath (escape_path (u_Path base)) (ur_Path r)),
              u_Query = (if ur_Path r = '''' \<and> ur_Query r = '''' then u_Query base else parse_query (ur_Query r))\<rparr>)"

section \<open>http.Client.Do\<close>

text \<open>
  A RoundTripper takes a request and the state of the world; it gives the response or an error, the
  request object as it is afterwards, because the transports set headers of the request they are
  given, and the new state.
\<close>

type_synonym 's round_tripper = "http_request \<Rightarrow> 's \<Rightarrow> http_response res \<times> http_request \<times> 's"

definition same_or_sub_domain :: "string \<Rightarrow> string \<Rightarrow> bool" where
  "same_or_sub_domain dst src \<longleftrightarrow> dst = src \<or> suffix (''.'' @ src) dst"

text \<open>The headers of the first request that a redirected one keeps.\<close>

definition redirect_headers :: "http_request \<Rightarrow> url \<Rightarrow> params" where
  "redirect_headers ireq u =
     filter (\<lambda>p. fst p \<notin> {''Authorization'', ''Www-Authenticate'', ''Cookie'', ''Cookie2''} \<or>
                 same_or_sub_domain (u_Host u) (u_Host (rq_URL ireq))) (rq_Header ireq)"

text \<open>redirectBehavior: the method of the next request and whether it has the body.\<close>

definition redirectBehavior :: "http_request \<Rightarrow> string \<Rightarrow> http_response \<Rightarrow> (string \<times> bool) option" where
  "redirectBehavior ireq meth resp =
     (let code = rs_StatusCode resp in
      if code = 301 \<or> code = 302 \<or> code = 303 then
        Some (if meth = ''GET'' \<or> meth = ''HEAD'' then meth else ''GET'', False)
      else if code = 307 \<or> code = 308 then
        (if get_first (rs_Header resp) ''Location'' = '''' then None
         else if \<not> rq_GetBody ireq then None
         else Some (meth, True))
      else None)"

text \<open>
  One round: the error, or the response with its request, and the request to send next if the
  response is a redirect.
\<close>

definition client_step ::
    "'s round_tripper \<Rightarrow> http_request \<Rightarrow> http_request \<Rightarrow> 's \<Rightarrow> (http_response \<times> http_request \<times> http_request option) res \<times> 's" where
  "client_step rt ireq req s =
     (case rt req s of
        (Inl e, _, s') \<Rightarrow> (Inl (ErrURL e), s')
      | (Inr resp, req', s') \<Rightarrow>
          (case redirectBehavior ireq (rq_Method req) resp of
             None \<Rightarrow> (Inr (resp, req', None), s')
           | Some (meth, body) \<Rightarrow>
               let loc = get_first (rs_Header resp) ''Location'' in
               if loc = '''' then (Inl (ErrURL (ErrMsg ''response missing Location header'')), s')
               else
                 (case url_resolve (rq_URL req') loc of
                    Inl e \<Rightarrow> (Inl (ErrURL (ErrMsg ''failed to parse Location header'')), s')
                  | Inr u \<Rightarrow>
                      (Inr (resp, req',
                        Some \<lparr>rq_Method = meth, rq_URL = u,
                              rq_Host = (if rq_Host req' \<noteq> '''' \<and> rq_Host req' \<noteq> u_Host (rq_URL req') \<and>
                                            (case parse_ref loc of Inr r \<Rightarrow> ur_Scheme r = '''' | Inl _ \<Rightarrow> False)
                                         then rq_Host req' else ''''),
                              rq_Header = redirect_headers ireq u,
                              rq_Body = (if body then rq_Body ireq else []), rq_GetBody = True\<rparr>), s'))))"

fun client_loop :: "nat \<Rightarrow> 's round_tripper \<Rightarrow> http_request \<Rightarrow> http_request \<Rightarrow> 's \<Rightarrow> (http_response \<times> http_request) res \<times> 's" where
  "client_loop 0 rt ireq req s =
     (case client_step rt ireq req s of
        (Inl e, s') \<Rightarrow> (Inl e, s')
      | (Inr (resp, req', None), s') \<Rightarrow> (Inr (resp, req'), s')
      | (Inr (resp, req', Some next'), s') \<Rightarrow> (Inl (ErrURL (ErrMsg ''stopped after 10 redirects'')), s'))"
| "client_loop (Suc n) rt ireq req s =
     (case client_step rt ireq req s of
        (Inl e, s') \<Rightarrow> (Inl e, s')
      | (Inr (resp, req', None), s') \<Rightarrow> (Inr (resp, req'), s')
      | (Inr (resp, req', Some next'), s') \<Rightarrow> client_loop n rt ireq next' s')"

text \<open>At most ten requests.  The request with the response is the one that was answered, resp.Request.\<close>

definition client_Do :: "'s round_tripper \<Rightarrow> http_request \<Rightarrow> 's \<Rightarrow> (http_response \<times> http_request) res \<times> 's" where
  "client_Do rt req s = client_loop 9 rt req req s"

definition is_redirect :: "http_response \<Rightarrow> bool" where
  "is_redirect resp \<longleftrightarrow> rs_StatusCode resp \<in> {301, 302, 303, 307, 308}"

lemma client_Do_direct:
  assumes "rt req s = (Inr resp, req', s')" and "\<not> is_redirect resp"
  shows "client_Do rt req s = (Inr (resp, req'), s')"
  using assms by (simp add: client_Do_def numeral_eq_Suc client_step_def redirectBehavior_def is_redirect_def Let_def)

lemma client_Do_error: "rt req s = (Inl e, req', s') \<Longrightarrow> client_Do rt req s = (Inl (ErrURL e), s')"
  by (simp add: client_Do_def numeral_eq_Suc client_step_def)

text \<open>An invariant that every call of the transport keeps is kept by the client.\<close>

lemma client_loop_inv:
  assumes "\<And>req s r req' s'. I s \<Longrightarrow> rt req s = (r, req', s') \<Longrightarrow> I s'"
  shows "I s \<Longrightarrow> client_loop n rt ireq req s = (r, s') \<Longrightarrow> I s'"
proof (induction n arbitrary: req s)
  case 0
  then show ?case
    by (auto simp: client_step_def Let_def split: prod.splits sum.splits option.splits if_splits intro: assms)
next
  case (Suc n)
  obtain q s1 where st: "client_step rt ireq req s = (q, s1)" by fastforce
  have "I s1"
    using st Suc.prems(1)
    by (auto simp: client_step_def Let_def split: prod.splits sum.splits option.splits if_splits intro: assms)
  with Suc.prems(2) st Suc.IH show ?case by (auto split: sum.splits option.splits)
qed

lemma client_Do_inv:
  assumes "\<And>req s r req' s'. I s \<Longrightarrow> rt req s = (r, req', s') \<Longrightarrow> I s'"
  shows "I s \<Longrightarrow> client_Do rt req s = (r, s') \<Longrightarrow> I s'"
  unfolding client_Do_def by (rule client_loop_inv [where I = I and rt = rt]) (rule assms)

section \<open>Plain paths\<close>

text \<open>
  The elements that need no escaping and that cleaning leaves alone, and the absolute paths of such
  elements: parsing and resolving them as a reference gives them back.
\<close>

definition plain_elem :: "string \<Rightarrow> bool" where
  "plain_elem e \<longleftrightarrow> e \<noteq> '''' \<and> e \<noteq> ''.'' \<and> e \<noteq> ''..'' \<and> list_all unreserved e"

definition slash_path :: "string list \<Rightarrow> string" where
  "slash_path es = CHR ''/'' # join_with (CHR ''/'') es"

lemma unreserved_props:
  assumes "unreserved c"
  shows "c \<noteq> CHR ''/'' \<and> c \<noteq> CHR ''%'' \<and> c \<noteq> CHR ''#'' \<and> c \<noteq> CHR ''?'' \<and> c \<noteq> CHR '':'' \<and> \<not> is_ctl c"
  using assms by (auto simp: unreserved_def is_alpha_def is_digit_def is_ctl_def byte_def)

lemma plain_elem_no_slash: "plain_elem e \<Longrightarrow> CHR ''/'' \<notin> set e"
  using unreserved_props by (auto simp: plain_elem_def list_all_iff)

lemma set_join_with: "set (join_with c es) \<subseteq> insert c (\<Union> (set ` set es))"
  by (induction c es rule: join_with.induct) auto

lemma slash_path_chars: "list_all plain_elem es \<Longrightarrow> c \<in> set (slash_path es) \<Longrightarrow> c = CHR ''/'' \<or> unreserved c"
  using set_join_with [of "CHR ''/''" es] by (auto simp: slash_path_def plain_elem_def list_all_iff)

lemma takeWhile_id: "(\<And>x. x \<in> set xs \<Longrightarrow> P x) \<Longrightarrow> takeWhile P xs = xs"
  by (induction xs) auto

lemma dropWhile_id: "(\<And>x. x \<in> set xs \<Longrightarrow> P x) \<Longrightarrow> dropWhile P xs = []"
  by (induction xs) auto

lemma unescape_plain: "CHR ''%'' \<notin> set s \<Longrightarrow> unescape False s = Some s"
  by (induction s) auto

lemma escape_path_plain: "list_all path_char s \<Longrightarrow> escape_path s = s"
  by (induction s) (auto simp: escape_path_def)

lemma dot_step_plain: "list_all plain_elem es \<Longrightarrow> foldl dot_step ds es = ds @ es"
  by (induction es arbitrary: ds) (auto simp: plain_elem_def)

lemma join_head: "es \<noteq> [] \<Longrightarrow> list_all plain_elem es \<Longrightarrow> \<exists>c r. join_with (CHR ''/'') es = c # r \<and> c \<noteq> CHR ''/''"
proof (cases es)
  case (Cons e es')
  assume "list_all plain_elem es"
  then obtain c r where "e = c # r" "unreserved c" using Cons by (cases e) (auto simp: plain_elem_def)
  then show ?thesis using Cons unreserved_props [of c] by (cases es') auto
qed simp

lemma parse_ref_plain:
  assumes ne: "es \<noteq> []" and pl: "list_all plain_elem es"
  shows "parse_ref (slash_path es) = Inr \<lparr>ur_Scheme = '''', ur_Host = '''', ur_Path = slash_path es, ur_Query = ''''\<rparr>"
proof -
  let ?p = "slash_path es"
  have ch: "c \<noteq> CHR ''%'' \<and> c \<noteq> CHR ''#'' \<and> c \<noteq> CHR ''?'' \<and> \<not> is_ctl c" if "c \<in> set ?p" for c
    using slash_path_chars [OF pl that] unreserved_props [of c] by (auto simp: is_ctl_def byte_def)
  have ctl: "\<not> list_ex is_ctl ?p" using ch by (auto simp: list_ex_iff)
  have h: "takeWhile (\<lambda>c. c \<noteq> CHR ''#'') ?p = ?p" using ch by (intro takeWhile_id) blast
  have q: "takeWhile (\<lambda>c. c \<noteq> CHR ''?'') ?p = ?p" using ch by (intro takeWhile_id) blast
  have q': "dropWhile (\<lambda>c. c \<noteq> CHR ''?'') ?p = []" using ch by (intro dropWhile_id) blast
  have sc: "get_scheme ?p = Some ('''', ?p)"
    by (simp add: get_scheme_def slash_path_def is_alpha_def is_digit_def byte_def)
  obtain c r where j: "join_with (CHR ''/'') es = c # r" "c \<noteq> CHR ''/''" using join_head [OF ne pl] by blast
  have pre: "prefix ''/'' ?p" "\<not> prefix ''//'' ?p" using j by (auto simp: slash_path_def)
  have un: "unescape False ?p = Some ?p" using ch by (intro unescape_plain) blast
  show ?thesis
    unfolding parse_ref_def h sc using ctl pre by (simp add: q q' parse_rest_def un)
qed

lemma resolvePath_plain:
  assumes ne: "es \<noteq> []" and pl: "list_all plain_elem es"
  shows "resolvePath b (slash_path es) = slash_path es"
proof -
  have sp: "split_on (CHR ''/'') (slash_path es) = '''' # es"
    using ne pl plain_elem_no_slash by (simp add: slash_path_def split_join list_all_iff)
  have last: "last ('''' # es) \<noteq> ''.'' \<and> last ('''' # es) \<noteq> ''..''"
    using ne pl by (simp add: list_all_iff plain_elem_def)
  have f: "foldl dot_step [] ('''' # es) = '''' # es" using dot_step_plain [OF pl, of "['''']"] by simp
  have "join_with (CHR ''/'') ('''' # es) = slash_path es" using ne by (simp add: slash_path_def join_with_Cons)
  with last show ?thesis
    unfolding resolvePath_def Let_def by (simp add: slash_path_def [of es, symmetric] sp f del: foldl.simps)
       (simp add: slash_path_def)
qed

lemma url_resolve_plain:
  assumes "es \<noteq> []" and "list_all plain_elem es"
  shows "url_resolve u (slash_path es) = Inr \<lparr>u_Scheme = u_Scheme u, u_Host = u_Host u, u_Path = slash_path es, u_Query = []\<rparr>"
proof -
  have "CHR ''%'' \<notin> set (slash_path es)" using slash_path_chars [OF assms(2)] unreserved_props by blast
  then have "decoded (slash_path es) = slash_path es" by (simp add: decoded_def unescape_plain)
  moreover have "parse_query '''' = []" by (simp add: parse_query_def parse_pair_def)
  ultimately show ?thesis
    by (simp add: url_resolve_def parse_ref_plain [OF assms] resolvePath_plain [OF assms] Let_def) (simp add: slash_path_def)
qed

end
