(* ===== verification/Content_Store.thy ===== *)
theory Content_Store
  imports V1_Data
begin

text \<open>
  The interface of the stores that are addressed by content: the blobs of the registry, the blobs
  directory of an OCI layout.  A store satisfies its invariant when what it returns for a hash has
  that hash.
\<close>

locale blob_store =
  fixes put :: "'s \<Rightarrow> bytes \<Rightarrow> 's" and get :: "'s \<Rightarrow> v1_hash \<Rightarrow> bytes option" and inv :: "'s \<Rightarrow> bool"
  assumes held: "inv s \<Longrightarrow> get (put s b) (sha b) \<noteq> None"
    and get_other: "inv s \<Longrightarrow> h \<noteq> sha b \<Longrightarrow> get (put s b) h = get s h"
    and inv_put: "inv s \<Longrightarrow> inv (put s b)"
    and addressed: "inv s \<Longrightarrow> get s h = Some b \<Longrightarrow> sha b = h"
begin

lemma inv_puts: "inv s \<Longrightarrow> inv (foldl put s bs)"
  by (induction bs arbitrary: s) (auto intro: inv_put)

lemma kept: "inv s \<Longrightarrow> get s h \<noteq> None \<Longrightarrow> get (put s b) h \<noteq> None"
  by (cases "h = sha b") (auto simp: held get_other)

lemma kept_puts: "inv s \<Longrightarrow> get s h \<noteq> None \<Longrightarrow> get (foldl put s bs) h \<noteq> None"
proof (induction bs arbitrary: s)
  case (Cons b bs)
  then have "inv (put s b)" "get (put s b) h \<noteq> None" by (auto intro: inv_put dest: kept [of s h b])
  with Cons.IH show ?case by simp
qed simp

text \<open>Whatever was put is there at the end, up to contents that hash to the same value.\<close>

lemma all_there: "inv s \<Longrightarrow> b \<in> set bs \<Longrightarrow> \<exists>c. get (foldl put s bs) (sha b) = Some c \<and> sha c = sha b"
proof (induction bs arbitrary: s)
  case (Cons a bs)
  show ?case
  proof (cases "b = a")
    case True
    with Cons.prems have "get (put s a) (sha b) \<noteq> None" "inv (put s a)" by (auto dest: held simp: inv_put)
    from kept_puts [OF this(2,1), of bs] obtain c where "get (foldl put (put s a) bs) (sha b) = Some c" by auto
    with addressed [OF inv_puts [OF \<open>inv (put s a)\<close>]] show ?thesis by auto
  next
    case False
    with Cons.prems Cons.IH [of "put s a"] show ?thesis by (auto intro: inv_put)
  qed
qed simp

end

text \<open>A store in which the last content put under a hash is the one that is got.\<close>

locale content_store = blob_store +
  assumes get_put: "inv s \<Longrightarrow> get (put s b) (sha b) = Some b"
begin

text \<open>Without two contents of one hash among those put and stored, the order does not matter.\<close>

lemma put_twice: "inv s \<Longrightarrow> get (put (put s b) b) h = get (put s b) h"
  by (cases "h = sha b") (auto simp: get_put get_other inv_put)

lemma put_commutes: "inv s \<Longrightarrow> sha a \<noteq> sha b \<Longrightarrow> get (put (put s a) b) h = get (put (put s b) a) h"
  by (cases "h = sha a"; cases "h = sha b") (auto simp: get_put get_other inv_put)

end

text \<open>A store that keeps the content that it already has for a hash.\<close>

locale append_store = blob_store +
  assumes get_put: "inv s \<Longrightarrow> get (put s b) (sha b) = Some (case get s (sha b) of None \<Rightarrow> b | Some c \<Rightarrow> c)"
begin

lemma put_twice: "inv s \<Longrightarrow> get (put (put s a) b) h = (if h = sha b \<and> h \<noteq> sha a \<and> get s h = None then Some b else get (put s a) h)"
  using get_put [of s a] by (cases "h = sha b"; cases "h = sha a") (auto simp: get_put get_other inv_put split: option.splits)

text \<open>What is put first stays.\<close>

lemma stays: "inv s \<Longrightarrow> get s h = Some c \<Longrightarrow> get (foldl put s bs) h = Some c"
proof (induction bs arbitrary: s)
  case (Cons b bs)
  have "get (put s b) h = Some c" using Cons.prems by (cases "h = sha b") (auto simp: get_put get_other)
  with Cons show ?case by (simp add: inv_put)
qed simp

text \<open>Without collisions, every content that was put is got.\<close>

lemma got:
  assumes "inv s" and "b \<in> set bs" and "inj_on sha (set bs)" and "\<And>c. get s (sha b) = Some c \<Longrightarrow> c = b"
  shows "get (foldl put s bs) (sha b) = Some b"
  using assms
proof (induction bs arbitrary: s)
  case (Cons a bs)
  show ?case
  proof (cases "a = b")
    case True
    have "get (put s a) (sha b) = Some b" using Cons.prems(1,4) True by (auto simp: get_put split: option.splits)
    with stays [OF inv_put [OF Cons.prems(1)] this] show ?thesis by simp
  next
    case False
    with Cons.prems have "sha a \<noteq> sha b" "b \<in> set bs" "inj_on sha (set bs)" by (auto simp: inj_on_def)
    with Cons.IH [OF inv_put [OF Cons.prems(1)], of a] Cons.prems(1,4) show ?thesis by (simp add: get_other)
  qed
qed simp

lemma got_frame: "inv s \<Longrightarrow> h \<notin> sha ` set bs \<Longrightarrow> get (foldl put s bs) h = get s h"
proof (induction bs arbitrary: s)
  case (Cons b bs)
  then have "h \<noteq> sha b" by auto
  with Cons show ?case by (auto simp: inv_put get_other)
qed simp

end

end
