(* ===== verification/Registry_Server.thy ===== *)
theory Registry_Server
  imports Go_Net Go_Path Validate Content_Store
begin

text \<open>
  pkg/registry: the in-memory registry.  Its state is the blobs, keyed by their digest, the uploads
  in progress, and for every repository the manifests by tag and by digest.  A handler is a function
  of the request and the state, because it holds its lock while it reads or writes the maps; the
  number that rand.Int63 gives to a new upload is an argument.
\<close>

section \<open>error.go\<close>

record reg_error =
  re_Status :: int
  re_Code :: string
  re_Message :: string

text \<open>The JSON of an error: encoding/json is an argument, on the list of code and message.\<close>

definition regError_Write :: "((string \<times> string) list \<Rightarrow> bytes) \<Rightarrow> params \<Rightarrow> reg_error \<Rightarrow> http_response" where
  "regError_Write enc hdrs r =
     \<lparr>rs_StatusCode = re_Status r, rs_Header = hdrs, rs_Body = enc [(re_Code r, re_Message r)]\<rparr>"

section \<open>blobs.go\<close>

record blobs_state =
  bs_contents :: "string \<Rightarrow> bytes option"
  bs_uploads :: "string \<Rightarrow> bytes option"

type_synonym reg_result = "reg_error + http_response"

definition reg_fail :: "int \<Rightarrow> string \<Rightarrow> string \<Rightarrow> reg_result" where
  "reg_fail status code msg = Inl \<lparr>re_Status = status, re_Code = code, re_Message = msg\<rparr>"

definition respond :: "int \<Rightarrow> params \<Rightarrow> bytes \<Rightarrow> reg_result" where
  "respond status hdrs body = Inr \<lparr>rs_StatusCode = status, rs_Header = hdrs, rs_Body = body\<rparr>"

text \<open>
  The elements of the path, without the empty one in front and without an empty one at the end.
  A path without a slash has no elements and is a panic in the code; a server that routes only
  absolute paths never passes one.
\<close>

definition path_elems :: "string \<Rightarrow> string list" where
  "path_elems p =
     (let elem = tl (split_on (CHR ''/'') p) in
      if elem \<noteq> [] \<and> last elem = '''' then butlast elem else elem)"

definition elem_from_end :: "string list \<Rightarrow> nat \<Rightarrow> string" where
  "elem_from_end elem k = elem ! (length elem - k)"

definition isBlob :: "http_request \<Rightarrow> bool" where
  "isBlob req =
     (let elem = path_elems (u_Path (rq_URL req)) in
      if length elem < 3 then False
      else elem_from_end elem 2 = ''blobs'' \<or>
           (elem_from_end elem 3 = ''blobs'' \<and> elem_from_end elem 2 = ''uploads''))"

definition sha_string :: "bytes \<Rightarrow> string" where
  "sha_string b = ''sha256:'' @ sha256_hex b"

definition upload_location :: "string list \<Rightarrow> nat \<Rightarrow> string \<Rightarrow> string" where
  "upload_location elem k ident =
     ''/'' @ path_join [''v2'', path_join (take (length elem - k - 1) (drop 1 elem)), ''blobs/uploads'', ident]"

definition blobs_handle :: "nat \<Rightarrow> http_request \<Rightarrow> blobs_state \<Rightarrow> reg_result \<times> blobs_state" where
  "blobs_handle rnd req b =
     (let elem = path_elems (u_Path (rq_URL req)) in
      if length elem < 4 then
        (reg_fail StatusBadRequest ''NAME_INVALID'' ''blobs must be attached to a repo'', b)
      else
        let target = elem_from_end elem 1;
            service = elem_from_end elem 2;
            digest = get_first (u_Query (rq_URL req)) ''digest'';
            contentRange = get_first (rq_Header req) ''Content-Range'';
            meth = rq_Method req
        in
        if meth = ''HEAD'' then
          (case bs_contents b target of
             None \<Rightarrow> (reg_fail StatusNotFound ''BLOB_UNKNOWN'' ''Unknown blob'', b)
           | Some c \<Rightarrow>
               (respond StatusOK [(''Content-Length'', show_nat (length c)), (''Docker-Content-Digest'', target)] [], b))
        else if meth = ''GET'' then
          (case bs_contents b target of
             None \<Rightarrow> (reg_fail StatusNotFound ''BLOB_UNKNOWN'' ''Unknown blob'', b)
           | Some c \<Rightarrow>
               (respond StatusOK [(''Content-Length'', show_nat (length c)), (''Docker-Content-Digest'', target)] c, b))
        else if meth = ''POST'' \<and> target = ''uploads'' \<and> digest \<noteq> '''' then
          (let l = rq_Body req; d = sha_string l in
           if d \<noteq> digest then
             (reg_fail StatusBadRequest ''DIGEST_INVALID'' ''digest does not match contents'', b)
           else
             (respond StatusCreated [(''Docker-Content-Digest'', d)] [], b\<lparr>bs_contents := (bs_contents b)(d \<mapsto> l)\<rparr>))
        else if meth = ''POST'' \<and> target = ''uploads'' \<and> digest = '''' then
          (respond StatusAccepted [(''Location'', upload_location elem 2 (show_nat rnd)), (''Range'', ''0-0'')] [], b)
        else if meth = ''PATCH'' \<and> service = ''uploads'' \<and> contentRange \<noteq> '''' then
          (case scan_range contentRange of
             None \<Rightarrow>
               (reg_fail StatusRequestedRangeNotSatisfiable ''BLOB_UPLOAD_UNKNOWN'' ''We don't understand your Content-Range'', b)
           | Some (start, end') \<Rightarrow>
               let have = (case bs_uploads b target of Some u \<Rightarrow> u | None \<Rightarrow> []) in
               if start \<noteq> int (length have) then
                 (reg_fail StatusRequestedRangeNotSatisfiable ''BLOB_UPLOAD_UNKNOWN'' ''Your content range doesn't match what we have'', b)
               else
                 let l = have @ rq_Body req in
                 (respond StatusNoContent
                    [(''Location'', upload_location elem 3 target), (''Range'', ''0-'' @ show_int (int (length l) - 1))] [],
                  b\<lparr>bs_uploads := (bs_uploads b)(target \<mapsto> l)\<rparr>))
        else if meth = ''PATCH'' \<and> service = ''uploads'' \<and> contentRange = '''' then
          (if bs_uploads b target \<noteq> None then
             (reg_fail StatusBadRequest ''BLOB_UPLOAD_INVALID'' ''Stream uploads after first write are not allowed'', b)
           else
             let l = rq_Body req in
             (respond StatusNoContent
                [(''Location'', upload_location elem 3 target), (''Range'', ''0-'' @ show_int (int (length l) - 1))] [],
              b\<lparr>bs_uploads := (bs_uploads b)(target \<mapsto> l)\<rparr>))
        else if meth = ''PUT'' \<and> service = ''uploads'' \<and> digest = '''' then
          (reg_fail StatusBadRequest ''DIGEST_INVALID'' ''digest not specified'', b)
        else if meth = ''PUT'' \<and> service = ''uploads'' \<and> digest \<noteq> '''' then
          (let l = (case bs_uploads b target of Some u \<Rightarrow> u | None \<Rightarrow> []) @ rq_Body req; d = sha_string l in
           if d \<noteq> digest then
             (reg_fail StatusBadRequest ''DIGEST_INVALID'' ''digest does not match contents'', b)
           else
             (respond StatusCreated [(''Docker-Content-Digest'', d)] [],
              b\<lparr>bs_contents := (bs_contents b)(d \<mapsto> l), bs_uploads := (bs_uploads b)(target := None)\<rparr>))
        else
          (reg_fail StatusBadRequest ''METHOD_UNKNOWN'' ''We don't understand your method + url'', b))"

section \<open>manifest.go\<close>

record reg_manifest =
  rm_contentType :: media_type
  rm_blob :: bytes

type_synonym repo_manifests = "string \<Rightarrow> reg_manifest option"
type_synonym manifests_state = "string \<Rightarrow> repo_manifests option"

definition isManifest :: "http_request \<Rightarrow> bool" where
  "isManifest req =
     (let elems = tl (split_on (CHR ''/'') (u_Path (rq_URL req))) in
      if length elems < 4 then False else elem_from_end elems 2 = ''manifests'')"

definition manifest_headers :: "reg_manifest \<Rightarrow> params" where
  "manifest_headers m =
     [(''Docker-Content-Digest'', sha_string (rm_blob m)), (''Content-Type'', rm_contentType m),
      (''Content-Length'', show_nat (length (rm_blob m)))]"

text \<open>The loop over the descriptors of an index that is put: the first one that is missing.\<close>

fun missing_child :: "repo_manifests \<Rightarrow> descriptor list \<Rightarrow> descriptor option" where
  "missing_child c [] = None"
| "missing_child c (desc # descs) =
     (if c (Hash_String (d_Digest desc)) = None then Some desc else missing_child c descs)"

definition manifests_handle :: "codec \<Rightarrow> http_request \<Rightarrow> manifests_state \<Rightarrow> reg_result \<times> manifests_state" where
  "manifests_handle E req m =
     (let elem = tl (split_on (CHR ''/'') (u_Path (rq_URL req)));
          target = elem_from_end elem 1;
          repo = join_with (CHR ''/'') (take (length elem - 3) (drop 1 elem));
          meth = rq_Method req
      in
      if meth = ''GET'' then
        (case m repo of
           None \<Rightarrow> (reg_fail StatusNotFound ''NAME_UNKNOWN'' ''Unknown name'', m)
         | Some c \<Rightarrow>
             (case c target of
                None \<Rightarrow> (reg_fail StatusNotFound ''MANIFEST_UNKNOWN'' ''Unknown manifest'', m)
              | Some mf \<Rightarrow> (respond StatusOK (manifest_headers mf) (rm_blob mf), m)))
      else if meth = ''HEAD'' then
        (case m repo of
           None \<Rightarrow> (reg_fail StatusNotFound ''NAME_UNKNOWN'' ''Unknown name'', m)
         | Some c \<Rightarrow>
             (case c target of
                None \<Rightarrow> (reg_fail StatusNotFound ''MANIFEST_UNKNOWN'' ''Unknown manifest'', m)
              | Some mf \<Rightarrow> (respond StatusOK (manifest_headers mf) [], m)))
      else if meth = ''PUT'' then
        (let c = (case m repo of Some c \<Rightarrow> c | None \<Rightarrow> Map.empty);
             m1 = m(repo \<mapsto> c);
             b = rq_Body req;
             digest = sha_string b;
             mf = \<lparr>rm_contentType = get_first (rq_Header req) ''Content-Type'', rm_blob = b\<rparr>;
             stored = (respond StatusCreated [(''Docker-Content-Digest'', digest)] [], m(repo \<mapsto> c(target \<mapsto> mf, digest \<mapsto> mf)))
         in
         if rm_contentType mf = OCIImageIndex \<or> rm_contentType mf = DockerManifestList then
           (case ParseIndexManifest E b of
              Inl e \<Rightarrow> (reg_fail StatusNotFound ''MANIFEST_UNKNOWN'' ''parse error'', m1)
            | Inr im \<Rightarrow>
                (case missing_child c (im_Manifests im) of
                   Some desc \<Rightarrow>
                     (reg_fail StatusNotFound ''MANIFEST_UNKNOWN'' (''Sub-manifest '' @ Hash_String (d_Digest desc) @ '' not found''), m1)
                 | None \<Rightarrow> stored))
         else stored)
      else
        (reg_fail StatusBadRequest ''METHOD_UNKNOWN'' ''We don't understand your method + url'', m))"

section \<open>registry.go\<close>

record reg_state =
  rg_blobs :: blobs_state
  rg_manifests :: manifests_state

definition registry_New :: reg_state where
  "registry_New = \<lparr>rg_blobs = \<lparr>bs_contents = Map.empty, bs_uploads = Map.empty\<rparr>, rg_manifests = Map.empty\<rparr>"

text \<open>The headers that are set on the response before the result is known, the result, the state.\<close>

definition registry_v2 :: "codec \<Rightarrow> nat \<Rightarrow> http_request \<Rightarrow> reg_state \<Rightarrow> params \<times> reg_result \<times> reg_state" where
  "registry_v2 E rnd req r =
     (if isBlob req then
        (case blobs_handle rnd req (rg_blobs r) of (res, b) \<Rightarrow> ([], res, r\<lparr>rg_blobs := b\<rparr>))
      else if isManifest req then
        (case manifests_handle E req (rg_manifests r) of (res, m) \<Rightarrow> ([], res, r\<lparr>rg_manifests := m\<rparr>))
      else
        let h = [(''Docker-Distribution-API-Version'', ''registry/2.0'')] in
        if u_Path (rq_URL req) \<noteq> ''/v2/'' \<and> u_Path (rq_URL req) \<noteq> ''/v2'' then
          (h, reg_fail StatusNotFound ''METHOD_UNKNOWN'' ''We don't understand your method + url'', r)
        else (h, respond StatusOK h [], r))"

definition registry_root ::
    "((string \<times> string) list \<Rightarrow> bytes) \<Rightarrow> codec \<Rightarrow> nat \<Rightarrow> http_request \<Rightarrow> reg_state \<Rightarrow> http_response \<times> reg_state" where
  "registry_root enc E rnd req r =
     (case registry_v2 E rnd req r of
        (h, Inl rerr, r') \<Rightarrow> (regError_Write enc h rerr, r')
      | (h, Inr resp, r') \<Rightarrow> (resp, r'))"

section \<open>Paths\<close>

definition plain_elems :: "string list \<Rightarrow> bool" where
  "plain_elems es \<longleftrightarrow> es \<noteq> [] \<and> list_all (\<lambda>e. CHR ''/'' \<notin> set e) es \<and> last es \<noteq> ''''"

lemma split_slash_path: "plain_elems es \<Longrightarrow> tl (split_on (CHR ''/'') (slash_path es)) = es"
  by (simp add: slash_path_def plain_elems_def list_all_iff split_join)

lemma path_elems_slash: "plain_elems es \<Longrightarrow> path_elems (slash_path es) = es"
  using split_slash_path [of es] by (simp add: path_elems_def Let_def plain_elems_def)

lemma elem_from_end_last [simp]:
  "elem_from_end (xs @ [a]) (Suc 0) = a" "elem_from_end (xs @ [a, b]) (Suc 0) = b" "elem_from_end (xs @ [a, b]) 2 = a"
  "elem_from_end (xs @ [a, b, c]) (Suc 0) = c" "elem_from_end (xs @ [a, b, c]) 2 = b" "elem_from_end (xs @ [a, b, c]) 3 = a"
  by (simp_all add: elem_from_end_def nth_append)

lemma elem_from_end_Cons: "0 < k \<Longrightarrow> k \<le> length xs \<Longrightarrow> elem_from_end (x # xs) k = elem_from_end xs k"
  by (auto simp: elem_from_end_def Suc_diff_le)

section \<open>Content addressing\<close>

definition blobs_inv :: "blobs_state \<Rightarrow> bool" where
  "blobs_inv b \<longleftrightarrow> (\<forall>d c. bs_contents b d = Some c \<longrightarrow> d = sha_string c)"

lemma blobs_handle_inv:
  assumes "blobs_inv b" and "blobs_handle rnd req b = (res, b')"
  shows "blobs_inv b' \<and> (\<forall>d. bs_contents b d \<noteq> None \<longrightarrow> bs_contents b' d \<noteq> None)"
  using assms
  by (auto simp: blobs_handle_def blobs_inv_def Let_def reg_fail_def respond_def split: if_splits option.splits prod.splits)

definition put_ok :: "http_request \<Rightarrow> bool" where
  "put_ok req \<longleftrightarrow>
     (let target = elem_from_end (tl (split_on (CHR ''/'') (u_Path (rq_URL req)))) 1 in
      rq_Method req = ''PUT'' \<and> isManifest req \<and> \<not> isBlob req \<and> is_ok (NewHash target) \<longrightarrow> target = sha_string (rq_Body req))"

definition children_present :: "codec \<Rightarrow> repo_manifests \<Rightarrow> reg_manifest \<Rightarrow> bool" where
  "children_present E c mf =
     (if IsIndex (rm_contentType mf) then
        (case ParseIndexManifest E (rm_blob mf) of
           Inl _ \<Rightarrow> False
         | Inr im \<Rightarrow> list_all (\<lambda>d. c (Hash_String (d_Digest d)) \<noteq> None) (im_Manifests im))
      else True)"

definition manifests_inv :: "codec \<Rightarrow> manifests_state \<Rightarrow> bool" where
  "manifests_inv E m \<longleftrightarrow>
     (\<forall>repo c k mf. m repo = Some c \<longrightarrow> c k = Some mf \<longrightarrow>
        children_present E c mf \<and> (is_ok (NewHash k) \<longrightarrow> k = sha_string (rm_blob mf)) \<and> c (sha_string (rm_blob mf)) \<noteq> None)"

lemma missing_child_None: "missing_child c ds = None \<longleftrightarrow> list_all (\<lambda>d. c (Hash_String (d_Digest d)) \<noteq> None) ds"
  by (induction ds) auto

lemma sha_string_hash: "sha_string b = Hash_String (sha b)"
  by (simp add: sha_string_def Hash_String_def sha_def SHA256_def)

lemma sha_string_ok [simp]: "is_ok (NewHash (sha_string b))"
  by (simp add: sha_string_hash)

lemma children_present_mono:
  "children_present E c mf \<Longrightarrow> dom c \<subseteq> dom c' \<Longrightarrow> children_present E c' mf"
  by (fastforce simp: children_present_def list_all_iff split: sum.splits)

text \<open>The three outcomes of a PUT that change the state.\<close>

lemma manifests_put:
  assumes "manifests_handle E req m = (res, m')"
  defines "elem \<equiv> tl (split_on (CHR ''/'') (u_Path (rq_URL req)))"
  defines "repo \<equiv> join_with (CHR ''/'') (take (length elem - 3) (drop 1 elem))"
  defines "c \<equiv> (case m repo of Some c \<Rightarrow> c | None \<Rightarrow> Map.empty)"
  defines "mf \<equiv> \<lparr>rm_contentType = get_first (rq_Header req) ''Content-Type'', rm_blob = rq_Body req\<rparr>"
  shows "m' = m \<or> m' = m(repo \<mapsto> c) \<or>
         (m' = m(repo \<mapsto> c(elem_from_end elem 1 \<mapsto> mf, sha_string (rq_Body req) \<mapsto> mf)) \<and>
          rq_Method req = ''PUT'' \<and> children_present E c mf)"
  using assms(1)
  unfolding manifests_handle_def elem_def [symmetric] Let_def repo_def [symmetric] c_def [symmetric] mf_def [symmetric]
  by (auto simp: children_present_def IsIndex_def missing_child_None mf_def split: if_splits option.splits sum.splits)

lemma manifests_handle_inv:
  assumes inv: "manifests_inv E m" and h: "manifests_handle E req m = (res, m')" and g: "put_ok req"
    and kind: "isManifest req" "\<not> isBlob req"
  shows "manifests_inv E m'"
proof -
  define elem where "elem = tl (split_on (CHR ''/'') (u_Path (rq_URL req)))"
  define repo where "repo = join_with (CHR ''/'') (take (length elem - 3) (drop 1 elem))"
  define c where "c = (case m repo of Some c \<Rightarrow> c | None \<Rightarrow> Map.empty)"
  define mf where "mf = \<lparr>rm_contentType = get_first (rq_Header req) ''Content-Type'', rm_blob = rq_Body req\<rparr>"
  let ?t = "elem_from_end elem 1" and ?d = "sha_string (rq_Body req)"
  let ?c = "c(?t \<mapsto> mf, ?d \<mapsto> mf)"
  have ci: "children_present E c f \<and> (is_ok (NewHash k) \<longrightarrow> k = sha_string (rm_blob f)) \<and> c (sha_string (rm_blob f)) \<noteq> None"
    if "c k = Some f" for k f
    using inv that by (auto simp: manifests_inv_def c_def split: option.splits)
  consider "m' = m" | "m' = m(repo \<mapsto> c)"
    | "m' = m(repo \<mapsto> ?c)" "rq_Method req = ''PUT''" "children_present E c mf"
    using manifests_put [OF h] unfolding elem_def [symmetric] repo_def [symmetric] c_def [symmetric] mf_def [symmetric] by blast
  then show ?thesis
  proof cases
    case 1
    with inv show ?thesis by simp
  next
    case 2
    with inv ci show ?thesis by (auto simp: manifests_inv_def split: if_splits)
  next
    case 3
    have t: "is_ok (NewHash ?t) \<Longrightarrow> ?t = ?d"
      using g 3(2) kind by (simp add: put_ok_def Let_def elem_def)
    have d: "dom c \<subseteq> dom ?c" by auto
    have new: "children_present E ?c f \<and> (is_ok (NewHash k) \<longrightarrow> k = sha_string (rm_blob f)) \<and> ?c (sha_string (rm_blob f)) \<noteq> None"
      if k: "?c k = Some f" for k f
    proof (cases "k = ?t \<or> k = ?d")
      case True
      with k have f: "f = mf" by (auto split: if_splits)
      have "is_ok (NewHash k) \<longrightarrow> k = ?d" using True t by blast
      with children_present_mono [OF 3(3) d] f show ?thesis by (simp add: mf_def)
    next
      case False
      with k have "c k = Some f" by simp
      from ci [OF this] have f: "children_present E c f" "is_ok (NewHash k) \<longrightarrow> k = sha_string (rm_blob f)"
        "c (sha_string (rm_blob f)) \<noteq> None" by blast+
      from f(3) d have "?c (sha_string (rm_blob f)) \<noteq> None" by auto
      with f(2) children_present_mono [OF f(1) d] show ?thesis by blast
    qed
    show ?thesis
      unfolding manifests_inv_def
    proof (intro allI impI)
      fix repo' c' k f
      assume c': "m' repo' = Some c'" and k: "c' k = Some f"
      show "children_present E c' f \<and> (is_ok (NewHash k) \<longrightarrow> k = sha_string (rm_blob f)) \<and> c' (sha_string (rm_blob f)) \<noteq> None"
      proof (cases "repo' = repo")
        case True
        with c' 3(1) have "c' = ?c" by simp
        with new k show ?thesis by blast
      next
        case False
        with c' 3(1) have "m repo' = Some c'" by simp
        with inv k show ?thesis unfolding manifests_inv_def by blast
      qed
    qed
  qed
qed

section \<open>Reachable states\<close>

inductive reg_step :: "codec \<Rightarrow> reg_state \<Rightarrow> reg_state \<Rightarrow> bool" for E where
  request: "registry_v2 E rnd req r = (h, res, r') \<Longrightarrow> put_ok req \<Longrightarrow> reg_step E r r'"

inductive reg_reachable :: "codec \<Rightarrow> reg_state \<Rightarrow> bool" for E where
  start: "reg_reachable E registry_New"
| step: "reg_reachable E r \<Longrightarrow> reg_step E r r' \<Longrightarrow> reg_reachable E r'"

inductive_cases reg_stepE: "reg_step E r r'"

lemma reg_step_inv:
  assumes "reg_step E r r'" and "blobs_inv (rg_blobs r)" and "manifests_inv E (rg_manifests r)"
  shows "blobs_inv (rg_blobs r') \<and> manifests_inv E (rg_manifests r') \<and>
         (\<forall>d. bs_contents (rg_blobs r) d \<noteq> None \<longrightarrow> bs_contents (rg_blobs r') d \<noteq> None)"
proof -
  obtain rnd req h res where 1: "registry_v2 E rnd req r = (h, res, r')" "put_ok req"
    using assms(1) by (rule reg_stepE)
  show ?thesis
  proof (cases "isBlob req")
    case True
    obtain res' b where b: "blobs_handle rnd req (rg_blobs r) = (res', b)" by fastforce
    with True 1 have "r' = r\<lparr>rg_blobs := b\<rparr>" by (simp add: registry_v2_def)
    with blobs_handle_inv [OF assms(2) b] assms(3) show ?thesis by simp
  next
    case nb: False
    show ?thesis
    proof (cases "isManifest req")
      case True
      obtain res' m where m: "manifests_handle E req (rg_manifests r) = (res', m)" by fastforce
      with True nb 1 have "r' = r\<lparr>rg_manifests := m\<rparr>" by (simp add: registry_v2_def)
      with manifests_handle_inv [OF assms(3) m 1(2) True nb] assms(2) show ?thesis by simp
    next
      case False
      with nb 1 have "r' = r" by (auto simp: registry_v2_def Let_def split: if_splits)
      with assms show ?thesis by simp
    qed
  qed
qed



text \<open>
  Without that restriction a manifest can be put under the digest of another one, which it replaces.
\<close>

lemma manifest_digest_not_checked:
  assumes "plain_elems [''v2'', repo, ''manifests'', sha_string a]" and "CHR ''/'' \<notin> set repo"
  shows "\<exists>res m'. manifests_handle E
      (new_request ''PUT'' \<lparr>u_Scheme = s, u_Host = hh, u_Path = slash_path [''v2'', repo, ''manifests'', sha_string a], u_Query = []\<rparr> b) m
        = (res, m') \<and> (\<exists>c mf. m' repo = Some c \<and> c (sha_string a) = Some mf \<and> rm_blob mf = b)"
  using split_slash_path [OF assms(1)]
  by (auto simp: manifests_handle_def new_request_def elem_from_end_def Let_def media_type_defs)

section \<open>Uploading a blob\<close>

definition upload_elems :: "string list \<Rightarrow> string \<Rightarrow> string list" where
  "upload_elems ns ident = ''v2'' # ns @ [''blobs'', ''uploads'', ident]"

definition blob_elems :: "string list \<Rightarrow> string \<Rightarrow> string list" where
  "blob_elems ns d = ''v2'' # ns @ [''blobs'', d]"

definition http_url :: "string list \<Rightarrow> params \<Rightarrow> url" where
  "http_url es q = \<lparr>u_Scheme = ''http'', u_Host = ''registry'', u_Path = slash_path es, u_Query = q\<rparr>"

definition patch_chunk :: "string list \<Rightarrow> string \<Rightarrow> nat \<Rightarrow> bytes \<Rightarrow> http_request" where
  "patch_chunk ns ident start chunk =
     (new_request ''PATCH'' (http_url (upload_elems ns ident) []) chunk)
       \<lparr>rq_Header := [(''Content-Range'', show_nat start @ ''-'' @ show_nat (start + length chunk))]\<rparr>"

definition put_upload :: "string list \<Rightarrow> string \<Rightarrow> string \<Rightarrow> bytes \<Rightarrow> http_request" where
  "put_upload ns ident d body = new_request ''PUT'' (http_url (upload_elems ns ident) [(''digest'', d)]) body"

definition get_blob :: "string list \<Rightarrow> string \<Rightarrow> http_request" where
  "get_blob ns d = new_request ''GET'' (http_url (blob_elems ns d) []) []"

fun status_of :: "reg_result \<Rightarrow> int" where
  "status_of (Inl e) = re_Status e"
| "status_of (Inr r) = rs_StatusCode r"

text \<open>The pieces of a body, patched one after the other: the statuses and the final state.\<close>

fun patch_all :: "string list \<Rightarrow> string \<Rightarrow> nat \<Rightarrow> bytes list \<Rightarrow> blobs_state \<Rightarrow> int list \<times> blobs_state" where
  "patch_all ns ident start [] b = ([], b)"
| "patch_all ns ident start (chunk # pieces) b =
     (case blobs_handle 0 (patch_chunk ns ident start chunk) b of
        (res, b1) \<Rightarrow>
          (case patch_all ns ident (start + length chunk) pieces b1 of (ss, b2) \<Rightarrow> (status_of res # ss, b2)))"

definition names_ok :: "string list \<Rightarrow> string \<Rightarrow> bool" where
  "names_ok ns ident \<longleftrightarrow> ns \<noteq> [] \<and> list_all (\<lambda>e. CHR ''/'' \<notin> set e) ns \<and> CHR ''/'' \<notin> set ident \<and> ident \<noteq> ''''"

lemma upload_path: "names_ok ns ident \<Longrightarrow> path_elems (slash_path (upload_elems ns ident)) = upload_elems ns ident"
  by (rule path_elems_slash) (auto simp: names_ok_def plain_elems_def upload_elems_def)

lemma blob_path: "names_ok ns ident \<Longrightarrow> path_elems (slash_path (blob_elems ns ident)) = blob_elems ns ident"
  by (rule path_elems_slash) (auto simp: names_ok_def plain_elems_def blob_elems_def)

lemma upload_elems_end:
  "elem_from_end (upload_elems ns ident) (Suc 0) = ident" "elem_from_end (upload_elems ns ident) 2 = ''uploads''"
  "length (upload_elems ns ident) = length ns + 4"
  by (simp_all add: upload_elems_def elem_from_end_def nth_append)

lemma blob_elems_end:
  "elem_from_end (blob_elems ns d) (Suc 0) = d" "elem_from_end (blob_elems ns d) 2 = ''blobs''" "length (blob_elems ns d) = length ns + 3"
  by (simp_all add: blob_elems_def elem_from_end_def nth_append)

definition upload_so_far :: "blobs_state \<Rightarrow> string \<Rightarrow> bytes" where
  "upload_so_far b ident = (case bs_uploads b ident of Some u \<Rightarrow> u | None \<Rightarrow> [])"

lemma patch_chunk_ok:
  assumes "names_ok ns ident" and "length (upload_so_far b ident) = start" and "int (start + length chunk) < 2 ^ 63"
  shows "\<exists>res. blobs_handle 0 (patch_chunk ns ident start chunk) b =
           (res, b\<lparr>bs_uploads := (bs_uploads b)(ident \<mapsto> upload_so_far b ident @ chunk)\<rparr>) \<and> status_of res = StatusNoContent"
proof -
  have r: "scan_range (show_nat start @ ''-'' @ show_nat (start + length chunk)) = Some (int start, int (start + length chunk))"
    using assms(3) by (intro scan_range_show) auto
  have n: "show_nat start @ ''-'' @ show_nat (start + length chunk) \<noteq> []" by simp
  show ?thesis
    using assms(2) r n
    by (simp add: blobs_handle_def patch_chunk_def new_request_def http_url_def upload_path [OF assms(1)] upload_elems_end
        upload_so_far_def [symmetric] respond_def Let_def del: append_Cons append.simps)
qed

lemma patch_all_ok:
  assumes "names_ok ns ident" and "length (upload_so_far b ident) = start" and "int (start + length (concat pieces)) < 2 ^ 63"
  shows "\<exists>b'. patch_all ns ident start pieces b = (map (\<lambda>_. StatusNoContent) pieces, b') \<and>
           upload_so_far b' ident = upload_so_far b ident @ concat pieces \<and> bs_contents b' = bs_contents b \<and>
           (\<forall>t. t \<noteq> ident \<longrightarrow> bs_uploads b' t = bs_uploads b t)"
  using assms(2,3)
proof (induction pieces arbitrary: start b)
  case (Cons c cs)
  let ?b = "b\<lparr>bs_uploads := (bs_uploads b)(ident \<mapsto> upload_so_far b ident @ c)\<rparr>"
  obtain res where r: "blobs_handle 0 (patch_chunk ns ident start c) b = (res, ?b)" "status_of res = StatusNoContent"
    using patch_chunk_ok [OF assms(1) Cons.prems(1), of c] Cons.prems(2) by auto
  have "length (upload_so_far ?b ident) = start + length c" using Cons.prems(1) by (simp add: upload_so_far_def)
  moreover have "int (start + length c + length (concat cs)) < 2 ^ 63" using Cons.prems(2) by simp
  ultimately obtain b' where "patch_all ns ident (start + length c) cs ?b = (map (\<lambda>_. StatusNoContent) cs, b')"
    "upload_so_far b' ident = upload_so_far ?b ident @ concat cs" "bs_contents b' = bs_contents ?b" "\<forall>t. t \<noteq> ident \<longrightarrow> bs_uploads b' t = bs_uploads ?b t"
    using Cons.IH by blast
  with r show ?case by (simp add: upload_so_far_def)
qed simp

lemma put_upload_ok:
  assumes "names_ok ns ident" and "sha_string (upload_so_far b ident @ body) = d"
  shows "blobs_handle 0 (put_upload ns ident d body) b =
     (respond StatusCreated [(''Docker-Content-Digest'', d)] [],
      b\<lparr>bs_contents := (bs_contents b)(d \<mapsto> upload_so_far b ident @ body), bs_uploads := (bs_uploads b)(ident := None)\<rparr>)"
proof -
  have "d \<noteq> ''''" using assms(2) by (auto simp: sha_string_def)
  then show ?thesis
    using assms(2)
    by (simp add: blobs_handle_def put_upload_def new_request_def http_url_def upload_path [OF assms(1)] upload_elems_end
        upload_so_far_def [symmetric] Let_def)
qed

lemma get_blob_ok:
  assumes "names_ok ns d" and "bs_contents b d = Some c"
  shows "blobs_handle 0 (get_blob ns d) b =
     (respond StatusOK [(''Content-Length'', show_nat (length c)), (''Docker-Content-Digest'', d)] c, b)"
proof -
  have "\<not> length ns + 3 < 4" using assms(1) by (cases ns) (auto simp: names_ok_def)
  with assms show ?thesis
    by (simp add: blobs_handle_def get_blob_def new_request_def http_url_def blob_path [OF assms(1)] blob_elems_end Let_def)
qed

lemma sha_string_names: "ns \<noteq> [] \<Longrightarrow> list_all (\<lambda>e. CHR ''/'' \<notin> set e) ns \<Longrightarrow> names_ok ns (sha_string c)"
  using sha256_hex_chars [of c] by (auto simp: names_ok_def sha_string_def hexChars_def)

text \<open>
  C24. A blob that is uploaded in pieces, each patched at the offset where the previous one ended,
  and then committed with the digest of the whole is served afterwards by that digest; every request
  succeeds, the upload is closed, and the other blobs and the other uploads are as they were.
\<close>

theorem chunked_upload:
  assumes "names_ok ns ident" and "bs_uploads b ident = None" and "int (length (concat pieces)) < 2 ^ 63"
  shows "\<exists>b1 b2. patch_all ns ident 0 pieces b = (map (\<lambda>_. StatusNoContent) pieces, b1) \<and>
     blobs_handle 0 (put_upload ns ident (sha_string (concat pieces @ body)) body) b1 =
       (respond StatusCreated [(''Docker-Content-Digest'', sha_string (concat pieces @ body))] [], b2) \<and>
     bs_contents b2 = (bs_contents b)(sha_string (concat pieces @ body) \<mapsto> concat pieces @ body) \<and>
     bs_uploads b2 = bs_uploads b \<and>
     (\<exists>hs. blobs_handle 0 (get_blob ns (sha_string (concat pieces @ body))) b2 = (respond StatusOK hs (concat pieces @ body), b2))"
proof -
  let ?all = "concat pieces @ body"
  have "length (upload_so_far b ident) = 0" using assms(2) by (simp add: upload_so_far_def)
  with patch_all_ok [OF assms(1) this, of pieces] assms(2,3) obtain b1 where
    b1: "patch_all ns ident 0 pieces b = (map (\<lambda>_. StatusNoContent) pieces, b1)" "upload_so_far b1 ident = concat pieces"
      "bs_contents b1 = bs_contents b" "\<forall>t. t \<noteq> ident \<longrightarrow> bs_uploads b1 t = bs_uploads b t"
    by (auto simp: upload_so_far_def)
  let ?b2 = "b1\<lparr>bs_contents := (bs_contents b1)(sha_string ?all \<mapsto> ?all), bs_uploads := (bs_uploads b1)(ident := None)\<rparr>"
  have p: "blobs_handle 0 (put_upload ns ident (sha_string ?all) body) b1 =
      (respond StatusCreated [(''Docker-Content-Digest'', sha_string ?all)] [], ?b2)"
    using put_upload_ok [OF assms(1), of b1 body "sha_string ?all"] b1(2) by simp
  have u: "bs_uploads ?b2 = bs_uploads b" using b1(4) assms(2) by auto
  have "blobs_handle 0 (get_blob ns (sha_string ?all)) ?b2 =
      (respond StatusOK [(''Content-Length'', show_nat (length ?all)), (''Docker-Content-Digest'', sha_string ?all)] ?all, ?b2)"
    using assms(1) by (intro get_blob_ok sha_string_names) (auto simp: names_ok_def)
  moreover have "bs_contents ?b2 = (bs_contents b)(sha_string ?all \<mapsto> ?all)" using b1(3) by simp
  ultimately show ?thesis using b1(1) p u by blast
qed

theorem chunked_upload_witness:
  "\<exists>b2 hs. blobs_handle 0 (get_blob [''repo''] (sha_string ''abcd'')) b2 = (respond StatusOK hs ''abcd'', b2)"
  using chunked_upload [of "[''repo'']" "''id''" "\<lparr>bs_contents = Map.empty, bs_uploads = Map.empty\<rparr>" "[''a'', ''bc'']" "''d''"]
  by (auto simp: names_ok_def)

text \<open>
  A request that is refused changes nothing, and no request touches an upload other than the one
  its path names nor removes or alters a blob, except by storing a content with the same digest.
\<close>

theorem blobs_handle_frame:
  assumes "blobs_handle rnd req b = (res, b')"
  shows "(case res of Inl _ \<Rightarrow> b' = b | Inr _ \<Rightarrow> True) \<and>
     (\<forall>t. t \<noteq> elem_from_end (path_elems (u_Path (rq_URL req))) 1 \<longrightarrow> bs_uploads b' t = bs_uploads b t) \<and>
     (\<forall>d. bs_contents b' d = bs_contents b d \<or> (\<exists>c. bs_contents b' d = Some c \<and> d = sha_string c))"
  using assms
  by (auto simp: blobs_handle_def Let_def reg_fail_def respond_def split: if_splits option.splits prod.splits)

theorem blobs_handle_frame_witness:
  "bs_uploads (snd (blobs_handle 0 (put_upload [''r''] ''id'' ''d'' ''x'') \<lparr>bs_contents = Map.empty, bs_uploads = [''other'' \<mapsto> ''y'']\<rparr>)) ''other'' = Some ''y''"
proof -
  let ?b = "\<lparr>bs_contents = Map.empty, bs_uploads = [''other'' \<mapsto> ''y'']\<rparr>"
  obtain res b' where h: "blobs_handle 0 (put_upload [''r''] ''id'' ''d'' ''x'') ?b = (res, b')" by fastforce
  have "elem_from_end (path_elems (u_Path (rq_URL (put_upload [''r''] ''id'' ''d'' ''x'')))) 1 = ''id''"
    using upload_path [of "[''r'']" "''id''"] upload_elems_end [of "[''r'']" "''id''"]
    by (simp add: put_upload_def new_request_def http_url_def names_ok_def)
  with blobs_handle_frame [OF h] show ?thesis by (simp add: h)
qed

section \<open>The blobs as a content store\<close>

definition post_blob :: "string list \<Rightarrow> bytes \<Rightarrow> http_request" where
  "post_blob ns c = new_request ''POST'' (http_url (''v2'' # ns @ [''blobs'', ''uploads'']) [(''digest'', sha_string c)]) c"

definition registry_put :: "string list \<Rightarrow> blobs_state \<Rightarrow> bytes \<Rightarrow> blobs_state" where
  "registry_put ns b c = snd (blobs_handle 0 (post_blob ns c) b)"

definition registry_get :: "blobs_state \<Rightarrow> v1_hash \<Rightarrow> bytes option" where
  "registry_get b h = (if wf_hash h then bs_contents b (Hash_String h) else None)"

lemma registry_put_eq:
  assumes "ns \<noteq> []" and "list_all (\<lambda>e. CHR ''/'' \<notin> set e) ns"
  shows "registry_put ns b c = b\<lparr>bs_contents := (bs_contents b)(sha_string c \<mapsto> c)\<rparr>"
proof -
  have p: "path_elems (slash_path (''v2'' # ns @ [''blobs'', ''uploads''])) = ''v2'' # ns @ [''blobs'', ''uploads'']"
    using assms by (intro path_elems_slash) (auto simp: plain_elems_def)
  have e: "elem_from_end (''v2'' # ns @ [''blobs'', ''uploads'']) (Suc 0) = ''uploads''"
    by (simp add: elem_from_end_def nth_append)
  have d: "sha_string c \<noteq> ''''" by (simp add: sha_string_def)
  show ?thesis
    using assms(1) p e d by (cases ns) (simp_all add: registry_put_def post_blob_def new_request_def http_url_def blobs_handle_def Let_def)
qed

interpretation registry_store: content_store "registry_put [''library'', ''repo'']" registry_get blobs_inv
proof unfold_locales
  fix s b h
  have e: "registry_put [''library'', ''repo''] s b = s\<lparr>bs_contents := (bs_contents s)(sha_string b \<mapsto> b)\<rparr>"
    by (rule registry_put_eq) simp_all
  show "registry_get (registry_put [''library'', ''repo''] s b) (sha b) = Some b" "registry_get (registry_put [''library'', ''repo''] s b) (sha b) \<noteq> None"
    by (simp_all add: e registry_get_def sha_string_hash)
  show "registry_get (registry_put [''library'', ''repo''] s b) h = registry_get s h" if "h \<noteq> sha b"
    using that Hash_String_inj by (auto simp: e registry_get_def sha_string_hash)
  show "blobs_inv (registry_put [''library'', ''repo''] s b)" if "blobs_inv s"
    using that by (auto simp: e blobs_inv_def)
  show "sha b = h" if "blobs_inv s" "registry_get s h = Some b"
    using that Hash_String_inj by (auto simp: blobs_inv_def registry_get_def sha_string_hash split: if_splits)
qed

section \<open>Manifests put and got\<close>

definition manifest_elems :: "string list \<Rightarrow> string \<Rightarrow> string list" where
  "manifest_elems ns ref = ''v2'' # ns @ [''manifests'', ref]"

definition put_manifest :: "string list \<Rightarrow> string \<Rightarrow> media_type \<Rightarrow> bytes \<Rightarrow> http_request" where
  "put_manifest ns ref ty b = (new_request ''PUT'' (http_url (manifest_elems ns ref) []) b)\<lparr>rq_Header := [(''Content-Type'', ty)]\<rparr>"

definition get_manifest :: "string list \<Rightarrow> string \<Rightarrow> http_request" where
  "get_manifest ns ref = new_request ''GET'' (http_url (manifest_elems ns ref) []) []"

definition lookup_manifest :: "manifests_state \<Rightarrow> string list \<Rightarrow> string \<Rightarrow> reg_manifest option" where
  "lookup_manifest m ns ref = (case m (join_with (CHR ''/'') ns) of Some c \<Rightarrow> c ref | None \<Rightarrow> None)"

definition manifest_accepted :: "codec \<Rightarrow> manifests_state \<Rightarrow> string list \<Rightarrow> media_type \<Rightarrow> bytes \<Rightarrow> bool" where
  "manifest_accepted E m ns ty b =
     (if IsIndex ty then
        (case ParseIndexManifest E b of
           Inl _ \<Rightarrow> False
         | Inr im \<Rightarrow> list_all (\<lambda>d. lookup_manifest m ns (Hash_String (d_Digest d)) \<noteq> None) (im_Manifests im))
      else True)"

lemma manifest_path: "names_ok ns ref \<Longrightarrow> tl (split_on (CHR ''/'') (slash_path (manifest_elems ns ref))) = manifest_elems ns ref"
  by (rule split_slash_path) (auto simp: names_ok_def plain_elems_def manifest_elems_def)

lemma manifest_elems_end:
  "elem_from_end (manifest_elems ns ref) (Suc 0) = ref" "length (manifest_elems ns ref) = length ns + 3"
  "take (length ns) (drop (Suc 0) (manifest_elems ns ref)) = ns"
  by (simp_all add: manifest_elems_def elem_from_end_def nth_append)

lemma get_manifest_handle:
  assumes "names_ok ns ref"
  shows "manifests_handle E (get_manifest ns ref) m =
    (case lookup_manifest m ns ref of
       Some mf \<Rightarrow> (respond StatusOK (manifest_headers mf) (rm_blob mf), m)
     | None \<Rightarrow> (if m (join_with (CHR ''/'') ns) = None then reg_fail StatusNotFound ''NAME_UNKNOWN'' ''Unknown name''
               else reg_fail StatusNotFound ''MANIFEST_UNKNOWN'' ''Unknown manifest'', m))"
  by (simp add: manifests_handle_def get_manifest_def new_request_def http_url_def manifest_path [OF assms] manifest_elems_end
      lookup_manifest_def Let_def split: option.splits)

lemma put_manifest_handle:
  fixes m :: manifests_state
  assumes "names_ok ns ref"
  defines "repo \<equiv> join_with (CHR ''/'') ns"
  defines "c \<equiv> (case m repo of Some c \<Rightarrow> c | None \<Rightarrow> Map.empty)"
  shows "\<exists>status m'. manifests_handle E (put_manifest ns ref ty b) m =
     (if manifest_accepted E m ns ty b then respond StatusCreated [(''Docker-Content-Digest'', sha_string b)] []
      else reg_fail StatusNotFound ''MANIFEST_UNKNOWN'' status, m') \<and>
     m' = (if manifest_accepted E m ns ty b
           then m(repo \<mapsto> c(ref \<mapsto> \<lparr>rm_contentType = ty, rm_blob = b\<rparr>, sha_string b \<mapsto> \<lparr>rm_contentType = ty, rm_blob = b\<rparr>))
           else m(repo \<mapsto> c))"
proof -
  let ?mf = "\<lparr>rm_contentType = ty, rm_blob = b\<rparr>"
  have l: "lookup_manifest m ns = c" by (auto simp: lookup_manifest_def c_def repo_def split: option.splits)
  have a: "manifest_accepted E m ns ty b \<longleftrightarrow>
      (if IsIndex ty then (case ParseIndexManifest E b of Inl _ \<Rightarrow> False | Inr im \<Rightarrow> missing_child c (im_Manifests im) = None) else True)"
    unfolding manifest_accepted_def l missing_child_None ..
  have q: "rq_Method (put_manifest ns ref ty b) = ''PUT''" "rq_Body (put_manifest ns ref ty b) = b"
    "get_first (rq_Header (put_manifest ns ref ty b)) ''Content-Type'' = ty"
    "tl (split_on (CHR ''/'') (u_Path (rq_URL (put_manifest ns ref ty b)))) = manifest_elems ns ref"
    by (simp_all add: put_manifest_def new_request_def http_url_def manifest_path [OF assms(1)])
  have t: "join_with (CHR ''/'') (take (length (manifest_elems ns ref) - 3) (drop 1 (manifest_elems ns ref))) = repo"
    "elem_from_end (manifest_elems ns ref) 1 = ref"
    by (simp_all add: manifest_elems_end repo_def)
  have e: "manifests_handle E (put_manifest ns ref ty b) m =
     (if ty = OCIImageIndex \<or> ty = DockerManifestList then
        (case ParseIndexManifest E b of
           Inl e \<Rightarrow> (reg_fail StatusNotFound ''MANIFEST_UNKNOWN'' ''parse error'', m(repo \<mapsto> c))
         | Inr im \<Rightarrow>
             (case missing_child c (im_Manifests im) of
                Some desc \<Rightarrow>
                  (reg_fail StatusNotFound ''MANIFEST_UNKNOWN'' (''Sub-manifest '' @ Hash_String (d_Digest desc) @ '' not found''), m(repo \<mapsto> c))
              | None \<Rightarrow> (respond StatusCreated [(''Docker-Content-Digest'', sha_string b)] [],
                          m(repo \<mapsto> c(ref \<mapsto> ?mf, sha_string b \<mapsto> ?mf)))))
      else (respond StatusCreated [(''Docker-Content-Digest'', sha_string b)] [], m(repo \<mapsto> c(ref \<mapsto> ?mf, sha_string b \<mapsto> ?mf))))"
    unfolding manifests_handle_def Let_def q t c_def [symmetric] by simp
  show ?thesis
    unfolding e a IsIndex_def by (auto split: sum.splits option.splits)
qed

text \<open>
  C25. Putting a manifest succeeds unless it is an index that does not parse or that has a child the
  repository lacks.  When it succeeds, the manifest is served, with its type and its digest, both by
  the name it was put under and by its digest, and every other manifest of every repository is
  served as before; when it does not, all of them are.
\<close>

theorem manifest_put_get:
  assumes "names_ok ns ref"
  shows "case manifests_handle E (put_manifest ns ref ty b) m of (res, m') \<Rightarrow>
     (case res of
        Inr rs \<Rightarrow> manifest_accepted E m ns ty b \<and>
          rs = \<lparr>rs_StatusCode = StatusCreated, rs_Header = [(''Docker-Content-Digest'', sha_string b)], rs_Body = []\<rparr> \<and>
          list_all (\<lambda>k. manifests_handle E (get_manifest ns k) m' =
            (respond StatusOK [(''Docker-Content-Digest'', sha_string b), (''Content-Type'', ty), (''Content-Length'', show_nat (length b))] b, m'))
            [ref, sha_string b] \<and>
          (\<forall>ns' k. join_with (CHR ''/'') ns' \<noteq> join_with (CHR ''/'') ns \<or> k \<notin> {ref, sha_string b} \<longrightarrow>
             lookup_manifest m' ns' k = lookup_manifest m ns' k)
      | Inl e \<Rightarrow> \<not> manifest_accepted E m ns ty b \<and> re_Status e = StatusNotFound \<and>
          (\<forall>ns' k. lookup_manifest m' ns' k = lookup_manifest m ns' k))"
proof -
  let ?mf = "\<lparr>rm_contentType = ty, rm_blob = b\<rparr>"
  let ?r = "join_with (CHR ''/'') ns"
  define c where "c = (case m ?r of Some c \<Rightarrow> c | None \<Rightarrow> Map.empty)"
  have l: "lookup_manifest m ns' k = c k" if "join_with (CHR ''/'') ns' = ?r" for ns' k
    using that by (auto simp: lookup_manifest_def c_def split: option.splits)
  have n: "names_ok ns (sha_string b)" using assms by (intro sha_string_names) (auto simp: names_ok_def)
  obtain status m' where h: "manifests_handle E (put_manifest ns ref ty b) m =
     (if manifest_accepted E m ns ty b then respond StatusCreated [(''Docker-Content-Digest'', sha_string b)] []
      else reg_fail StatusNotFound ''MANIFEST_UNKNOWN'' status, m')"
     "m' = (if manifest_accepted E m ns ty b then m(?r \<mapsto> c(ref \<mapsto> ?mf, sha_string b \<mapsto> ?mf)) else m(?r \<mapsto> c))"
    using put_manifest_handle [OF assms, of E ty b m, folded c_def] by (elim exE conjE) (rule that)
  show ?thesis
  proof (cases "manifest_accepted E m ns ty b")
    case True
    with h(2) have m': "m' = m(?r \<mapsto> c(ref \<mapsto> ?mf, sha_string b \<mapsto> ?mf))" by simp
    have "lookup_manifest m' ns ref = Some ?mf" "lookup_manifest m' ns (sha_string b) = Some ?mf"
      by (simp_all add: m' lookup_manifest_def)
    moreover have "manifest_headers ?mf =
        [(''Docker-Content-Digest'', sha_string b), (''Content-Type'', ty), (''Content-Length'', show_nat (length b))]"
      by (simp add: manifest_headers_def)
    ultimately have g: "list_all (\<lambda>k. manifests_handle E (get_manifest ns k) m' =
            (respond StatusOK [(''Docker-Content-Digest'', sha_string b), (''Content-Type'', ty), (''Content-Length'', show_nat (length b))] b, m'))
            [ref, sha_string b]"
      unfolding list.pred_inject get_manifest_handle [OF assms] get_manifest_handle [OF n] by simp
    have o': "lookup_manifest m' ns' k = lookup_manifest m ns' k"
      if "join_with (CHR ''/'') ns' \<noteq> ?r \<or> k \<notin> {ref, sha_string b}" for ns' k
      using that l [of ns' k] by (cases "join_with (CHR ''/'') ns' = ?r") (auto simp: m' lookup_manifest_def)
    from True h(1) g o' show ?thesis by (simp add: respond_def)
  next
    case False
    with h(2) have "lookup_manifest m' ns' k = lookup_manifest m ns' k" for ns' k
      using l [of ns' k] by (cases "join_with (CHR ''/'') ns' = ?r") (auto simp: lookup_manifest_def)
    with False h(1) show ?thesis by (simp add: reg_fail_def)
  qed
qed

theorem manifest_put_get_witness:
  "\<exists>res m' hs. manifests_handle (table_codec [] [] []) (put_manifest [''r''] ''latest'' DockerManifestSchema2 ''m'') Map.empty = (res, m') \<and>
     manifests_handle (table_codec [] [] []) (get_manifest [''r''] ''latest'') m' = (respond StatusOK hs ''m'', m')"
proof -
  have a: "manifest_accepted (table_codec [] [] []) Map.empty [''r''] DockerManifestSchema2 ''m''"
    by (simp add: manifest_accepted_def IsIndex_def media_type_defs)
  obtain res m' where h: "manifests_handle (table_codec [] [] []) (put_manifest [''r''] ''latest'' DockerManifestSchema2 ''m'') Map.empty = (res, m')"
    by fastforce
  have "names_ok [''r''] ''latest''" by (simp add: names_ok_def)
  from manifest_put_get [OF this, where E = "table_codec [] [] []" and ty = DockerManifestSchema2 and b = "''m''" and m = Map.empty] h a
  show ?thesis by (cases res) auto
qed

end
