(* ===== verification/Retry.thy ===== *)
theory Retry
  imports Complex_Main Go_Prelude
begin

text \<open>
  pkg/internal/retry and its package wait: calling a function again while its error is one to retry,
  with exponentially growing sleeps.  The function that is called is a function of the state of the
  world; the sleeps are part of the result.  Durations are integers of nanoseconds.  The factors are
  rational numbers, with truncation where the code converts a float64 to a Duration; the random
  numbers are given as a sequence, of which every jittered step takes the next one.
\<close>

section \<open>wait/kubernetes\_apimachinery\_wait.go\<close>

record backoff =
  bo_Duration :: int
  bo_Factor :: rat
  bo_Jitter :: rat
  bo_Steps :: int
  bo_Cap :: int

definition to_duration :: "rat \<Rightarrow> int" where
  "to_duration x = (if x < 0 then \<lceil>x\<rceil> else \<lfloor>x\<rfloor>)"

definition Jitter :: "rat \<Rightarrow> int \<Rightarrow> rat \<Rightarrow> int" where
  "Jitter rnd duration maxFactor =
     (let f = (if maxFactor \<le> 0 then 1 else maxFactor) in duration + to_duration (rnd * f * of_int duration))"

definition Backoff_Step :: "rat \<Rightarrow> backoff \<Rightarrow> int \<times> backoff" where
  "Backoff_Step rnd b =
     (if bo_Steps b < 1 then (if 0 < bo_Jitter b then Jitter rnd (bo_Duration b) (bo_Jitter b) else bo_Duration b, b)
      else
        let b1 = b\<lparr>bo_Steps := bo_Steps b - 1\<rparr>;
            b2 = (if bo_Factor b \<noteq> 0 then
                    let d = to_duration (of_int (bo_Duration b) * bo_Factor b) in
                    if 0 < bo_Cap b \<and> bo_Cap b < d then b1\<lparr>bo_Duration := bo_Cap b, bo_Steps := 0\<rparr>
                    else b1\<lparr>bo_Duration := d\<rparr>
                  else b1);
            duration = (if 0 < bo_Jitter b then Jitter rnd (bo_Duration b) (bo_Jitter b) else bo_Duration b)
        in (duration, b2))"

definition ErrWaitTimeout :: go_error where
  "ErrWaitTimeout = ErrMsg ''timed out waiting for the condition''"

lemma Backoff_Step_Steps:
  "1 \<le> bo_Steps b \<Longrightarrow> bo_Steps (snd (Backoff_Step rnd b)) = bo_Steps b - 1 \<or> bo_Steps (snd (Backoff_Step rnd b)) = 0"
  by (simp add: Backoff_Step_def Let_def)

text \<open>
  The condition gives whether it is done and an error; the result is the error that the function
  returns, the sleeps, the state.
\<close>

function ExponentialBackoff ::
    "(nat \<Rightarrow> rat) \<Rightarrow> backoff \<Rightarrow> ('s \<Rightarrow> (bool \<times> go_error option) \<times> 's) \<Rightarrow> 's \<Rightarrow> go_error option \<times> int list \<times> 's" where
  "ExponentialBackoff rnd b condition s =
     (if bo_Steps b \<le> 0 then (Some ErrWaitTimeout, [], s)
      else
        (case condition s of
           ((ok, err), s1) \<Rightarrow>
             if err \<noteq> None \<or> ok then (err, [], s1)
             else if bo_Steps b = 1 then (Some ErrWaitTimeout, [], s1)
             else
               (case Backoff_Step (rnd 0) b of
                  (d, b1) \<Rightarrow>
                    (case ExponentialBackoff (\<lambda>i. rnd (Suc i)) b1 condition s1 of
                       (e, ds, s2) \<Rightarrow> (e, d # ds, s2)))))"
  by pat_completeness auto
termination
proof (relation "measure (\<lambda>(rnd, b, c, s). nat (bo_Steps b))", simp, goal_cases)
  case (1 rnd b c s x s1 ok err d b1)
  then have "snd (Backoff_Step (rnd 0) b) = b1" by (metis snd_conv)
  with 1 Backoff_Step_Steps [of b "rnd 0"] show ?case by auto
qed

declare ExponentialBackoff.simps [simp del]

section \<open>retry.go\<close>

text \<open>
  The interface temporary: transport.Error, whose Temporary method is the first definition, network
  errors, the error of an expired context, and url.Error, which forwards the question.
\<close>

definition temporaryErrorCodes :: "string list" where
  "temporaryErrorCodes = [''BLOB_UPLOAD_INVALID'', ''TOOMANYREQUESTS'']"

definition Error_Temporary :: "(string \<times> string \<times> string option) list \<Rightarrow> bool" where
  "Error_Temporary errors = (if errors = [] then False else list_all (\<lambda>d. fst d \<in> set temporaryErrorCodes) errors)"

fun Temporary_err :: "go_error \<Rightarrow> bool" where
  "Temporary_err (ErrTransport c ds raw r) \<longleftrightarrow> Error_Temporary ds"
| "Temporary_err (ErrTemporary m) \<longleftrightarrow> True"
| "Temporary_err ErrDeadlineExceeded \<longleftrightarrow> True"
| "Temporary_err (ErrURL e) \<longleftrightarrow> Temporary_err e"
| "Temporary_err e \<longleftrightarrow> False"

definition IsTemporary :: "go_error option \<Rightarrow> bool" where
  "IsTemporary err =
     (if err = Some ErrDeadlineExceeded then False
      else case err of None \<Rightarrow> False | Some e \<Rightarrow> Temporary_err e)"

definition IsNotNil :: "go_error option \<Rightarrow> bool" where
  "IsNotNil err \<longleftrightarrow> err \<noteq> None"

text \<open>The variable err of Retry is part of the state that the condition changes.\<close>

definition retry_condition ::
    "('s \<Rightarrow> go_error option \<times> 's) \<Rightarrow> (go_error option \<Rightarrow> bool) \<Rightarrow> go_error option \<times> 's \<Rightarrow>
     (bool \<times> go_error option) \<times> go_error option \<times> 's" where
  "retry_condition f p st =
     (case f (snd st) of (err, s) \<Rightarrow> ((if p err then (False, None) else (True, err)), err, s))"

definition Retry ::
    "(nat \<Rightarrow> rat) \<Rightarrow> ('s \<Rightarrow> go_error option \<times> 's) \<Rightarrow> (go_error option \<Rightarrow> bool) \<Rightarrow> backoff \<Rightarrow> 's \<Rightarrow> go_error option \<times> 's" where
  "Retry rnd f p b s = snd (snd (ExponentialBackoff rnd b (retry_condition f p) (None, s)))"

section \<open>What Retry does\<close>

text \<open>At most n calls, up to the first whose error is not to be retried.\<close>

fun attempts :: "nat \<Rightarrow> ('s \<Rightarrow> go_error option \<times> 's) \<Rightarrow> (go_error option \<Rightarrow> bool) \<Rightarrow> 's \<Rightarrow> go_error option \<times> 's" where
  "attempts 0 f p s = (None, s)"
| "attempts (Suc n) f p s =
     (case f s of (err, s1) \<Rightarrow> if n = 0 \<or> \<not> p err then (err, s1) else attempts n f p s1)"

lemma ExponentialBackoff_attempts:
  "\<exists>m. m \<le> nat (bo_Steps b) \<and> (0 < bo_Steps b \<longrightarrow> 0 < m) \<and> (bo_Cap b \<le> 0 \<longrightarrow> m = nat (bo_Steps b)) \<and>
     (case ExponentialBackoff rnd b (retry_condition f p) (e0, s) of
        (r, ds, e, s') \<Rightarrow> (if m = 0 then (e, s') = (e0, s) else (e, s') = attempts m f p s) \<and> length ds \<le> m)"
proof (induction "nat (bo_Steps b)" arbitrary: b rnd e0 s rule: less_induct)
  case less
  show ?case
  proof (cases "bo_Steps b \<le> 0")
    case True
    then show ?thesis by (subst ExponentialBackoff.simps) simp
  next
    case pos: False
    obtain err s1 where f: "f s = (err, s1)" by fastforce
    show ?thesis
    proof (cases "p err \<and> bo_Steps b \<noteq> 1")
      case False
      have l: "fst (snd (ExponentialBackoff rnd b (retry_condition f p) (e0, s))) = [] \<and>
          snd (snd (ExponentialBackoff rnd b (retry_condition f p) (e0, s))) = (err, s1)"
        using False pos f by (subst (1 2) ExponentialBackoff.simps) (auto simp: retry_condition_def)
      obtain n where n: "nat (bo_Steps b) = Suc n" using pos by (cases "nat (bo_Steps b)") auto
      have "n = 0 \<or> \<not> p err" using False n by auto
      with f have "attempts (nat (bo_Steps b)) f p s = (err, s1)" by (auto simp: n)
      with l pos show ?thesis by (intro exI [of _ "nat (bo_Steps b)"]) (auto split: prod.splits)
    next
      case True
      obtain d b1 where st: "Backoff_Step (rnd 0) b = (d, b1)" by fastforce
      have b1: "bo_Steps b1 = bo_Steps b - 1 \<or> bo_Steps b1 = 0" "bo_Cap b1 = bo_Cap b"
          "bo_Cap b \<le> 0 \<longrightarrow> bo_Steps b1 = bo_Steps b - 1"
        using st pos by (auto simp: Backoff_Step_def Let_def split: if_splits)
      have "nat (bo_Steps b1) < nat (bo_Steps b)" using b1(1) pos by auto
      from less [OF this, of err s1 "\<lambda>i. rnd (Suc i)"] obtain m where m: "m \<le> nat (bo_Steps b1)" "0 < bo_Steps b1 \<longrightarrow> 0 < m"
        "bo_Cap b1 \<le> 0 \<longrightarrow> m = nat (bo_Steps b1)"
        "case ExponentialBackoff (\<lambda>i. rnd (Suc i)) b1 (retry_condition f p) (err, s1) of
           (r, ds, e, s') \<Rightarrow> (if m = 0 then (e, s') = (err, s1) else (e, s') = attempts m f p s1) \<and> length ds \<le> m"
        by (elim exE conjE) (rule that)
      obtain r ds e s' where X: "ExponentialBackoff (\<lambda>i. rnd (Suc i)) b1 (retry_condition f p) (err, s1) = (r, ds, e, s')"
        by (rule prod_cases4)
      have E: "ExponentialBackoff rnd b (retry_condition f p) (e0, s) = (r, d # ds, e, s')"
        using True pos f st X by (subst ExponentialBackoff.simps) (simp add: retry_condition_def)
      have att: "attempts (Suc m) f p s = (e, s')"
        using m(4) f True by (auto simp: X split: if_splits)
      have len: "length (d # ds) \<le> Suc m"
        using m(4) by (simp add: X)
      have "Suc m \<le> nat (bo_Steps b) \<and> (bo_Cap b \<le> 0 \<longrightarrow> Suc m = nat (bo_Steps b))"
        using m(1,3) b1 pos by (auto simp: nat_eq_iff)
      with att len show ?thesis by (intro exI [of _ "Suc m"]) (simp add: E del: attempts.simps)
    qed
  qed
qed

text \<open>
  C36. Retry calls its function until it returns an error that is not to be retried, at most as often
  as the backoff has steps, at least once if it has any, exactly that often when no cap cuts the
  steps short, and returns the error of the last call; it sleeps at most once after every call.
  With no step at all it returns no error without calling the function.
\<close>

theorem Retry_spec:
  "\<exists>m. m \<le> nat (bo_Steps b) \<and> (bo_Steps b \<le> 0 \<or> 0 < m) \<and> (bo_Cap b > 0 \<or> m = nat (bo_Steps b)) \<and>
     Retry rnd f p b s = attempts m f p s \<and>
     length (fst (snd (ExponentialBackoff rnd b (retry_condition f p) (None, s)))) \<le> m"
proof -
  obtain r ds e s' where X: "ExponentialBackoff rnd b (retry_condition f p) (None, s) = (r, ds, e, s')"
    by (rule prod_cases4)
  show ?thesis
    using ExponentialBackoff_attempts [where b = b and rnd = rnd and f = f and p = p and s = s and ?e0.0 = None]
    by (elim exE conjE, rule_tac x = m in exI) (auto simp: Retry_def X split: if_splits)
qed

text \<open>A call that returns a final error, or none, is the last one.\<close>

lemma Retry_first: "0 < bo_Steps b \<Longrightarrow> f s = (e, s') \<Longrightarrow> \<not> p e \<Longrightarrow> Retry rnd f p b s = (e, s')"
  by (simp add: Retry_def, subst ExponentialBackoff.simps) (auto simp: retry_condition_def)

lemma not_temporary [simp]: "\<not> IsTemporary None" "\<not> Temporary_err (ErrMsg m)" "IsTemporary (Some e) \<longleftrightarrow> e \<noteq> ErrDeadlineExceeded \<and> Temporary_err e"
  by (simp_all add: IsTemporary_def)

end
