(* ===== verification/Transport_Error.thy ===== *)
theory Transport_Error
  imports Go_Net Retry
begin

text \<open>
  pkg/v1/remote/transport/error.go: the structured error of a registry, its text, in which the query
  of the failed request is redacted, and the check of a status code.  The decoding of the JSON bodies
  that registries and token servers send, and of WWW-Authenticate headers, is done by packages
  outside the repository; they are the fields of the record net_codec.
\<close>

type_synonym diagnostic = "string \<times> string \<times> string option"

record net_codec =
  decode_errors :: "bytes \<Rightarrow> diagnostic list"
  decode_token :: "bytes \<Rightarrow> (string \<times> string \<times> string) res"
  response_challenges :: "http_response \<Rightarrow> (string \<times> params) list"

section \<open>Texts\<close>

definition status_texts :: "(int \<times> string) list" where
  "status_texts =
    [(200, ''OK''), (201, ''Created''), (202, ''Accepted''), (204, ''No Content''), (206, ''Partial Content''),
     (301, ''Moved Permanently''), (302, ''Found''), (303, ''See Other''), (304, ''Not Modified''),
     (307, ''Temporary Redirect''), (308, ''Permanent Redirect''), (400, ''Bad Request''), (401, ''Unauthorized''),
     (402, ''Payment Required''), (403, ''Forbidden''), (404, ''Not Found''), (405, ''Method Not Allowed''),
     (406, ''Not Acceptable''), (407, ''Proxy Authentication Required''), (408, ''Request Timeout''), (409, ''Conflict''),
     (410, ''Gone''), (411, ''Length Required''), (412, ''Precondition Failed''), (413, ''Request Entity Too Large''),
     (414, ''Request URI Too Long''), (415, ''Unsupported Media Type''), (416, ''Requested Range Not Satisfiable''),
     (417, ''Expectation Failed''), (422, ''Unprocessable Entity''), (429, ''Too Many Requests''),
     (500, ''Internal Server Error''), (501, ''Not Implemented''), (502, ''Bad Gateway''), (503, ''Service Unavailable''),
     (504, ''Gateway Timeout'')]"

text \<open>http.StatusText on the codes that servers of this protocol send; an unknown code has no text.\<close>

definition StatusText :: "int \<Rightarrow> string" where
  "StatusText code = (case map_of status_texts code of Some t \<Rightarrow> t | None \<Rightarrow> '''')"

definition Diagnostic_String :: "diagnostic \<Rightarrow> string" where
  "Diagnostic_String d =
     (case d of (code, msg, detail) \<Rightarrow>
        let m = code @ '': '' @ msg in (case detail of None \<Rightarrow> m | Some t \<Rightarrow> m @ ''; '' @ t))"

fun join_text :: "string \<Rightarrow> string list \<Rightarrow> string" where
  "join_text sep [] = ''''"
| "join_text sep [p] = p"
| "join_text sep (p # q # ps) = p @ sep @ join_text sep (q # ps)"

definition responseErr :: "int \<Rightarrow> diagnostic list \<Rightarrow> bytes \<Rightarrow> (string \<times> string) option \<Rightarrow> string" where
  "responseErr code errors rawBody request =
     (let unexpected = ''unexpected status code '' @ show_int code @ '' '' @ StatusText code in
      case errors of
        [] \<Rightarrow>
          if rawBody = [] then
            (if (case request of Some (m, _) \<Rightarrow> m = ''HEAD'' | None \<Rightarrow> False)
             then unexpected @ '' (HEAD responses have no body, use GET for details)''
             else unexpected)
          else unexpected @ '': '' @ rawBody
      | [d] \<Rightarrow> Diagnostic_String d
      | _ \<Rightarrow> ''multiple errors returned: '' @ join_text ''; '' (map Diagnostic_String errors))"

definition Error_Error :: "int \<Rightarrow> diagnostic list \<Rightarrow> bytes \<Rightarrow> (string \<times> string) option \<Rightarrow> string" where
  "Error_Error code errors rawBody request =
     (case request of None \<Rightarrow> '''' | Some (m, u) \<Rightarrow> m @ '' '' @ u @ '': '') @ responseErr code errors rawBody request"

section \<open>Redaction and CheckError\<close>

definition paramWhitelist :: "string list" where
  "paramWhitelist = [''scope'', ''service'', ''mount'', ''from'', ''digest'', ''n'', ''last'']"

definition redactURL :: "url \<Rightarrow> url" where
  "redactURL original =
     original\<lparr>u_Query := map (\<lambda>(k, v). (k, if k \<in> set paramWhitelist then v else ''REDACTED'')) (u_Query original)\<rparr>"

definition CheckError :: "net_codec \<Rightarrow> http_response \<times> http_request \<Rightarrow> int list \<Rightarrow> unit res" where
  "CheckError N r codes =
     (case r of (resp, req) \<Rightarrow>
        if rs_StatusCode resp \<in> set codes then Inr ()
        else Inl (ErrTransport (rs_StatusCode resp) (decode_errors N (rs_Body resp)) (rs_Body resp)
                   (Some (rq_Method req, url_string (redactURL (rq_URL req))))))"

lemma CheckError_ok [simp]: "CheckError N (resp, req) codes = Inr u \<longleftrightarrow> rs_StatusCode resp \<in> set codes"
  by (simp add: CheckError_def)

text \<open>The text of an error value of this model, for the kinds that transport.Error makes.\<close>

fun error_text :: "go_error \<Rightarrow> string" where
  "error_text (ErrTransport c ds raw r) = Error_Error c ds raw r"
| "error_text (ErrMsg m) = m"
| "error_text (ErrURL e) = error_text e"
| "error_text _ = ''''"

text \<open>Two URLs that differ only in the values of query parameters outside the whitelist.\<close>

definition same_public :: "url \<Rightarrow> url \<Rightarrow> bool" where
  "same_public u v \<longleftrightarrow>
     u_Scheme u = u_Scheme v \<and> u_Host u = u_Host v \<and> u_Path u = u_Path v \<and>
     list_all2 (\<lambda>p q. fst p = fst q \<and> (fst p \<in> set paramWhitelist \<longrightarrow> snd p = snd q)) (u_Query u) (u_Query v)"

lemma redactURL_public: "same_public u v \<Longrightarrow> redactURL u = redactURL v"
proof -
  assume p: "same_public u v"
  have "map (\<lambda>(k, x). (k, if k \<in> set paramWhitelist then x else ''REDACTED'')) xs =
        map (\<lambda>(k, x). (k, if k \<in> set paramWhitelist then x else ''REDACTED'')) ys"
    if "list_all2 (\<lambda>p q. fst p = fst q \<and> (fst p \<in> set paramWhitelist \<longrightarrow> snd p = snd q)) xs ys" for xs ys :: params
    using that by (induction rule: list_all2_induct) auto
  with p show ?thesis by (cases u; cases v) (simp add: redactURL_def same_public_def)
qed

text \<open>
  A response passes CheckError exactly when its code is one of those listed.  Otherwise the
  error carries the code, the body and its diagnostics, it is temporary exactly when there are
  diagnostics and each is one of the two temporary codes, and neither it nor its text depends on the
  values of query parameters of the request outside the whitelist, such as those of a signed URL.
\<close>

theorem CheckError_spec:
  assumes "same_public (rq_URL req) (rq_URL req')" and "rq_Method req = rq_Method req'"
  shows "CheckError N (resp, req) codes = CheckError N (resp, req') codes \<and>
     (case CheckError N (resp, req) codes of
        Inr _ \<Rightarrow> rs_StatusCode resp \<in> set codes
      | Inl e \<Rightarrow>
          rs_StatusCode resp \<notin> set codes \<and>
          (\<exists>rd. e = ErrTransport (rs_StatusCode resp) (decode_errors N (rs_Body resp)) (rs_Body resp) rd) \<and>
          Temporary_err e = (decode_errors N (rs_Body resp) \<noteq> [] \<and>
            list_all (\<lambda>d. fst d = ''BLOB_UPLOAD_INVALID'' \<or> fst d = ''TOOMANYREQUESTS'') (decode_errors N (rs_Body resp))))"
  using assms by (simp add: CheckError_def redactURL_public Error_Temporary_def temporaryErrorCodes_def)

theorem CheckError_spec_witness:
  "\<exists>N resp. \<not> is_ok (CheckError N (resp, new_request ''GET'' \<lparr>u_Scheme = ''https'', u_Host = ''h'', u_Path = ''/'', u_Query = [(''sig'', ''a'')]\<rparr> []) [200]) \<and>
     CheckError N (resp, new_request ''GET'' \<lparr>u_Scheme = ''https'', u_Host = ''h'', u_Path = ''/'', u_Query = [(''sig'', ''a'')]\<rparr> []) [200] =
     CheckError N (resp, new_request ''GET'' \<lparr>u_Scheme = ''https'', u_Host = ''h'', u_Path = ''/'', u_Query = [(''sig'', ''b'')]\<rparr> []) [200]"
proof -
  let ?N = "\<lparr>decode_errors = \<lambda>_. [], decode_token = \<lambda>_. Inl ErrEOF, response_challenges = \<lambda>_. []\<rparr>"
  let ?r = "\<lparr>rs_StatusCode = 403, rs_Header = [], rs_Body = ''no''\<rparr>"
  let ?q = "\<lambda>v. new_request ''GET'' \<lparr>u_Scheme = ''https'', u_Host = ''h'', u_Path = ''/'', u_Query = [(''sig'', v)]\<rparr> []"
  have "same_public (rq_URL (?q ''a'')) (rq_URL (?q ''b''))" "rq_Method (?q ''a'') = rq_Method (?q ''b'')"
    by (simp_all add: same_public_def new_request_def paramWhitelist_def)
  from CheckError_spec [OF this, of ?N ?r "[200]"]
  show ?thesis by (intro exI [of _ ?N] exI [of _ ?r]) (auto simp: is_ok_def split: sum.splits)
qed

end
