(* ===== verification/Transport.thy ===== *)
theory Transport
  imports Transport_Error Name_Ref
begin

text \<open>
  pkg/authn and pkg/v1/remote/transport: the authentication handshake with a registry.  Every
  transport wraps another one; a transport with a state of its own, the bearer transport, carries it
  in front of the state of the one it wraps.
\<close>

section \<open>authn\<close>

record auth_config =
  ac_Username :: string
  ac_Password :: string
  ac_Auth :: string
  ac_IdentityToken :: string
  ac_RegistryToken :: string

definition no_auth :: auth_config where
  "no_auth = \<lparr>ac_Username = '''', ac_Password = '''', ac_Auth = '''', ac_IdentityToken = '''', ac_RegistryToken = ''''\<rparr>"

text \<open>
  An Authenticator: the singleton Anonymous, or another one by the result of its method.
\<close>

datatype authenticator = Anonymous | Authenticator "auth_config res"

definition Authorization :: "authenticator \<Rightarrow> auth_config res" where
  "Authorization a = (case a of Anonymous \<Rightarrow> Inr no_auth | Authenticator r \<Rightarrow> r)"

definition FromConfig :: "auth_config \<Rightarrow> authenticator" where
  "FromConfig cfg = Authenticator (Inr cfg)"

definition authn_Basic :: "string \<Rightarrow> string \<Rightarrow> authenticator" where
  "authn_Basic user pass = Authenticator (Inr (no_auth\<lparr>ac_Username := user, ac_Password := pass\<rparr>))"

definition authn_Bearer :: "string \<Rightarrow> authenticator" where
  "authn_Bearer token = Authenticator (Inr (no_auth\<lparr>ac_RegistryToken := token\<rparr>))"

text \<open>
  A Keychain by its method; the argument is the registry of the resource.  The docker config file is
  read by a package outside the repository, which is an argument: a credential for a key.
\<close>

type_synonym keychain = "string \<Rightarrow> authenticator res"

definition DefaultAuthKey :: string where
  "DefaultAuthKey = ''https://'' @ DefaultRegistry @ ''/v1/''"

definition defaultKeychain_Resolve :: "(string \<Rightarrow> auth_config res) res \<Rightarrow> keychain" where
  "defaultKeychain_Resolve load target =
     bnd load (\<lambda>get.
       let key = (if target = DefaultRegistry then DefaultAuthKey else target) in
       bnd (get key) (\<lambda>cfg. if cfg = no_auth then Inr Anonymous else Inr (FromConfig cfg)))"

fun multiKeychain_Resolve :: "keychain list \<Rightarrow> keychain" where
  "multiKeychain_Resolve [] target = Inr Anonymous"
| "multiKeychain_Resolve (kc # kcs) target =
     bnd (kc target) (\<lambda>auth. if auth \<noteq> Anonymous then Inr auth else multiKeychain_Resolve kcs target)"

section \<open>encoding/base64\<close>

definition base64_alphabet :: string where
  "base64_alphabet = ''ABCDEFGHIJKLMNOPQRSTUVWXYZabcdefghijklmnopqrstuvwxyz0123456789+/''"

definition sextet :: "nat \<Rightarrow> char" where
  "sextet k = base64_alphabet ! k"

fun base64 :: "bytes \<Rightarrow> string" where
  "base64 [] = ''''"
| "base64 [a] = [sextet (byte a div 4), sextet (byte a mod 4 * 16), CHR ''='', CHR ''='']"
| "base64 [a, b] =
     [sextet (byte a div 4), sextet (byte a mod 4 * 16 + byte b div 16), sextet (byte b mod 16 * 4), CHR ''='']"
| "base64 (a # b # c # r) =
     [sextet (byte a div 4), sextet (byte a mod 4 * 16 + byte b div 16), sextet (byte b mod 16 * 4 + byte c div 64),
      sextet (byte c mod 64)] @ base64 r"

section \<open>basic.go, useragent.go\<close>

definition with_header :: "http_request \<Rightarrow> string \<Rightarrow> string \<Rightarrow> http_request" where
  "with_header req k v = req\<lparr>rq_Header := set_param (rq_Header req) k v\<rparr>"

definition basic_header :: "auth_config \<Rightarrow> string option" where
  "basic_header auth =
     (if ac_RegistryToken auth \<noteq> '''' then Some (''Bearer '' @ ac_RegistryToken auth)
      else if ac_Username auth \<noteq> '''' \<and> ac_Password auth \<noteq> '''' then
        Some (''Basic '' @ base64 (ac_Username auth @ '':'' @ ac_Password auth))
      else if ac_Auth auth \<noteq> '''' then Some (''Basic '' @ ac_Auth auth)
      else None)"

definition basic_RoundTrip :: "authenticator \<Rightarrow> string \<Rightarrow> 's round_tripper \<Rightarrow> 's round_tripper" where
  "basic_RoundTrip auth target inner req s =
     (if auth \<noteq> Anonymous then
        (case Authorization auth of
           Inl e \<Rightarrow> (Inl e, req, s)
         | Inr cfg \<Rightarrow>
             if rq_Host req = target \<or> u_Host (rq_URL req) = target then
               (case basic_header cfg of
                  Some hdr \<Rightarrow> inner (with_header req ''Authorization'' hdr) s
                | None \<Rightarrow> inner req s)
             else inner req s)
      else inner req s)"

definition defaultUserAgent :: string where
  "defaultUserAgent = ''go-containerregistry''"

text \<open>The version is set when the program is built.\<close>

definition ggcrVersion :: "string \<Rightarrow> string" where
  "ggcrVersion version = (if version \<noteq> '''' then defaultUserAgent @ ''/'' @ version else defaultUserAgent)"

definition NewUserAgent :: "string \<Rightarrow> string \<Rightarrow> string" where
  "NewUserAgent version ua = (if ua = '''' then ggcrVersion version else ua @ '' '' @ ggcrVersion version)"

definition userAgent_RoundTrip :: "string \<Rightarrow> 's round_tripper \<Rightarrow> 's round_tripper" where
  "userAgent_RoundTrip ua inner req s = inner (with_header req ''User-Agent'' ua) s"

section \<open>bearer.go, schemer.go: hosts\<close>

text \<open>net.SplitHostPort and net.JoinHostPort\<close>

definition before_last :: "char \<Rightarrow> string \<Rightarrow> string" where
  "before_last c s = take (length s - length (after_last c s) - 1) s"

definition SplitHostPort :: "string \<Rightarrow> (string \<times> string) option" where
  "SplitHostPort hostport =
     (if CHR '':'' \<notin> set hostport then None
      else let port = after_last (CHR '':'') hostport; h = before_last (CHR '':'') hostport in
        if prefix ''['' hostport then
          (case split_n2 (CHR '']'') hostport of
             [a, b] \<Rightarrow>
               if b \<noteq> CHR '':'' # port then None
               else if CHR ''['' \<in> set (drop 1 a) \<or> CHR ''['' \<in> set b \<or> CHR '']'' \<in> set b then None
               else Some (drop 1 a, port)
           | _ \<Rightarrow> None)
        else if CHR '':'' \<in> set h \<or> CHR ''['' \<in> set hostport \<or> CHR '']'' \<in> set hostport then None
        else Some (h, port))"

definition JoinHostPort :: "string \<Rightarrow> string \<Rightarrow> string" where
  "JoinHostPort host port = (if CHR '':'' \<in> set host then ''['' @ host @ '']:'' @ port else host @ '':'' @ port)"

definition portMap :: "string \<Rightarrow> string" where
  "portMap scheme = (if scheme = ''http'' then ''80'' else if scheme = ''https'' then ''443'' else '''')"

definition canonicalAddress :: "string \<Rightarrow> string \<Rightarrow> string" where
  "canonicalAddress host scheme =
     (let n = count_list host (CHR '':'') in
      if n = 1 \<or> (2 \<le> n \<and> contains host '']:'') then
        (case SplitHostPort host of
           None \<Rightarrow> host
         | Some (hostname, port) \<Rightarrow> JoinHostPort hostname (if port = '''' then portMap scheme else port))
      else JoinHostPort host (portMap scheme))"

definition matchesHost :: "registry \<Rightarrow> http_request \<Rightarrow> string \<Rightarrow> bool" where
  "matchesHost reg req scheme =
     (let r = canonicalAddress (RegistryStr reg) scheme in
      canonicalAddress (rq_Host req) scheme = r \<or> canonicalAddress (u_Host (rq_URL req)) scheme = r)"

definition scheme_RoundTrip :: "string \<Rightarrow> registry \<Rightarrow> 's round_tripper \<Rightarrow> 's round_tripper" where
  "scheme_RoundTrip scheme reg inner req s =
     (if matchesHost reg req scheme then inner (req\<lparr>rq_URL := (rq_URL req)\<lparr>u_Scheme := scheme\<rparr>\<rparr>) s else inner req s)"

section \<open>bearer.go\<close>

record bearer_transport =
  bt_basic :: authenticator
  bt_token :: string
  bt_registry :: registry
  bt_realm :: string
  bt_service :: string
  bt_scopes :: "string list"
  bt_scheme :: string

text \<open>Sending a request to the token server and reading the answer.\<close>

definition token_request :: "net_codec \<Rightarrow> 's round_tripper \<Rightarrow> http_request \<Rightarrow> 's \<Rightarrow> bytes res \<times> 's" where
  "token_request N rt req s =
     (case client_Do rt req s of
        (Inl e, s') \<Rightarrow> (Inl e, s')
      | (Inr r, s') \<Rightarrow> (bnd (CheckError N r [StatusOK]) (\<lambda>_. Inr (rs_Body (fst r))), s'))"

definition oauth_values :: "bearer_transport \<Rightarrow> auth_config \<Rightarrow> params" where
  "oauth_values bt auth =
     [(''scope'', join_with (CHR '' '') (bt_scopes bt)), (''service'', bt_service bt), (''client_id'', defaultUserAgent)] @
     (if ac_IdentityToken auth \<noteq> '''' then
        [(''grant_type'', ''refresh_token''), (''refresh_token'', ac_IdentityToken auth)]
      else if ac_Username auth \<noteq> '''' \<and> ac_Password auth \<noteq> '''' then
        [(''grant_type'', ''password''), (''username'', ac_Username auth), (''password'', ac_Password auth),
         (''access_type'', ''offline'')]
      else [])"

definition refreshOauth :: "net_codec \<Rightarrow> 's round_tripper \<Rightarrow> bearer_transport \<Rightarrow> 's \<Rightarrow> bytes res \<times> 's" where
  "refreshOauth N inner bt s =
     (case Authorization (bt_basic bt) of
        Inl e \<Rightarrow> (Inl e, s)
      | Inr auth \<Rightarrow>
          (case url_Parse (bt_realm bt) of
             Inl e \<Rightarrow> (Inl e, s)
           | Inr u \<Rightarrow>
               token_request N inner
                 (with_header (new_request ''POST'' u (encode_query (oauth_values bt auth)))
                    ''Content-Type'' ''application/x-www-form-urlencoded'') s))"

text \<open>The query of the realm with the scopes, one pair each, in place of its own, and the service.\<close>

definition token_query :: "bearer_transport \<Rightarrow> params \<Rightarrow> params" where
  "token_query bt q = set_param (map (\<lambda>sc. (''scope'', sc)) (bt_scopes bt) @ filter (\<lambda>p. fst p \<noteq> ''scope'') q) ''service'' (bt_service bt)"

definition refreshBasic :: "net_codec \<Rightarrow> 's round_tripper \<Rightarrow> bearer_transport \<Rightarrow> 's \<Rightarrow> bytes res \<times> 's" where
  "refreshBasic N inner bt s =
     (case url_Parse (bt_realm bt) of
        Inl e \<Rightarrow> (Inl e, s)
      | Inr u \<Rightarrow>
          token_request N (basic_RoundTrip (bt_basic bt) (u_Host u) inner)
            (new_request ''GET'' (u\<lparr>u_Query := token_query bt (u_Query u)\<rparr>) []) s)"

definition is_transport_404 :: "go_error \<Rightarrow> bool" where
  "is_transport_404 e = (case e of ErrTransport code _ _ _ \<Rightarrow> code = StatusNotFound | _ \<Rightarrow> False)"

text \<open>What refresh makes of the answer of the token server.\<close>

definition use_token :: "net_codec \<Rightarrow> bytes \<Rightarrow> bearer_transport \<Rightarrow> unit res \<times> bearer_transport" where
  "use_token N content bt =
     (case decode_token N content of
        Inl e \<Rightarrow> (Inl e, bt)
      | Inr (token, access, refresh) \<Rightarrow>
          let tok = (if access \<noteq> '''' then access else token) in
          if tok \<noteq> '''' then
            let bt1 = bt\<lparr>bt_token := tok\<rparr> in
            (Inr (), if refresh \<noteq> '''' then bt1\<lparr>bt_basic := FromConfig (no_auth\<lparr>ac_IdentityToken := refresh\<rparr>)\<rparr> else bt1)
          else (Inl (ErrMsg (''no token in bearer response:\<newline>'' @ content)), bt))"

definition refresh_content :: "net_codec \<Rightarrow> 's round_tripper \<Rightarrow> auth_config \<Rightarrow> bearer_transport \<Rightarrow> 's \<Rightarrow> bytes res \<times> 's" where
  "refresh_content N inner auth bt s =
     (if ac_IdentityToken auth \<noteq> '''' then
        (case refreshOauth N inner bt s of
           (Inl e, s') \<Rightarrow> if is_transport_404 e then refreshBasic N inner bt s' else (Inl e, s')
         | r \<Rightarrow> r)
      else refreshBasic N inner bt s)"

definition bearer_refresh :: "net_codec \<Rightarrow> 's round_tripper \<Rightarrow> bearer_transport \<times> 's \<Rightarrow> unit res \<times> bearer_transport \<times> 's" where
  "bearer_refresh N inner st =
     (case st of (bt, s) \<Rightarrow>
        (case Authorization (bt_basic bt) of
           Inl e \<Rightarrow> (Inl e, bt, s)
         | Inr auth \<Rightarrow>
             if ac_RegistryToken auth \<noteq> '''' then (Inr (), bt\<lparr>bt_token := ac_RegistryToken auth\<rparr>, s)
             else
               (case refresh_content N inner auth bt s of
                  (Inl e, s') \<Rightarrow> (Inl e, bt, s')
                | (Inr content, s') \<Rightarrow> (case use_token N content bt of (r, bt') \<Rightarrow> (r, bt', s')))))"

text \<open>The scopes that the challenges ask for are added behind those already requested.\<close>

fun add_wanted :: "string list \<Rightarrow> string list \<Rightarrow> string list \<Rightarrow> string list" where
  "add_wanted got scopes [] = scopes"
| "add_wanted got scopes (want # ws) = add_wanted got (if want \<in> set got then scopes else scopes @ [want]) ws"

fun add_challenges :: "string list \<Rightarrow> (string \<times> params) list \<Rightarrow> string list" where
  "add_challenges scopes [] = scopes"
| "add_challenges scopes (wac # wacs) =
     add_challenges
       (case map_of (snd wac) ''scope'' of
          None \<Rightarrow> scopes
        | Some scope \<Rightarrow> add_wanted scopes scopes (split_on (CHR '' '') scope)) wacs"

definition bearer_send :: "'s round_tripper \<Rightarrow> (bearer_transport \<times> 's) round_tripper" where
  "bearer_send inner req st =
     (case st of (bt, s) \<Rightarrow>
        let req' = (if matchesHost (bt_registry bt) req (bt_scheme bt)
                    then with_header req ''Authorization'' (''Bearer '' @ bt_token bt) else req) in
        (case inner req' s of (r, q, s') \<Rightarrow> (r, q, bt, s')))"

definition bearer_RoundTrip :: "net_codec \<Rightarrow> 's round_tripper \<Rightarrow> (bearer_transport \<times> 's) round_tripper" where
  "bearer_RoundTrip N inner req st =
     (case bearer_send inner req st of
        (Inl e, q, st1) \<Rightarrow> (Inl e, q, st1)
      | (Inr res, q, bt1, s1) \<Rightarrow>
          let challenges = response_challenges N res in
          if challenges \<noteq> [] then
            (case bearer_refresh N inner (bt1\<lparr>bt_scopes := add_challenges (bt_scopes bt1) challenges\<rparr>, s1) of
               (Inl e, st2) \<Rightarrow> (Inl e, q, st2)
             | (Inr _, st2) \<Rightarrow> bearer_send inner q st2)
          else (Inr res, q, bt1, s1))"

section \<open>ping.go\<close>

record ping_resp =
  pr_challenge :: string
  pr_parameters :: params
  pr_scheme :: string

text \<open>parseChallenge; the pairs that come later win in the map, so they are in front.\<close>

definition parseChallenge :: "string \<Rightarrow> params" where
  "parseChallenge suffix' =
     rev (map (\<lambda>token.
       let token' = trim token '' '' in
       (case split_n2 (CHR ''='') token' of
          [k, v] \<Rightarrow> (k, trim v [CHR 0x22])
        | _ \<Rightarrow> (token', ''''))) (split_on (CHR '','') suffix'))"

fun ping_schemes :: "net_codec \<Rightarrow> registry \<Rightarrow> 's round_tripper \<Rightarrow> string list \<Rightarrow> string list \<Rightarrow> 's \<Rightarrow> ping_resp res \<times> 's" where
  "ping_schemes N reg t [] errs s = (Inl (ErrMsg (join_text ''; '' errs)), s)"
| "ping_schemes N reg t (scheme # schemes) errs s =
     (case client_Do t (new_request ''GET'' \<lparr>u_Scheme = scheme, u_Host = Registry_Name reg, u_Path = ''/v2/'', u_Query = []\<rparr> []) s of
        (Inl e, s') \<Rightarrow> ping_schemes N reg t schemes (errs @ [error_text e]) s'
      | (Inr (resp, req), s') \<Rightarrow>
          (if rs_StatusCode resp = StatusOK then
             Inr \<lparr>pr_challenge = ''anonymous'', pr_parameters = [], pr_scheme = scheme\<rparr>
           else if rs_StatusCode resp = StatusUnauthorized then
             (case response_challenges N resp of
                (sch, ps) # _ \<Rightarrow> Inr \<lparr>pr_challenge = to_lower sch, pr_parameters = ps, pr_scheme = scheme\<rparr>
              | [] \<Rightarrow> Inr \<lparr>pr_challenge = to_lower (get_first (rs_Header resp) ''Www-Authenticate''), pr_parameters = [], pr_scheme = scheme\<rparr>)
           else (case CheckError N (resp, req) [StatusOK, StatusUnauthorized] of
                   Inl e \<Rightarrow> Inl e | Inr _ \<Rightarrow> Inl (ErrMsg '''')),
           s'))"

definition ping :: "net_codec \<Rightarrow> registry \<Rightarrow> 's round_tripper \<Rightarrow> 's \<Rightarrow> ping_resp res \<times> 's" where
  "ping N reg t s = ping_schemes N reg t (if Scheme reg = ''http'' then [''https'', ''http''] else [''https'']) [] s"

section \<open>transport.go\<close>

text \<open>
  The transport that New returns: the scheme and the user agent that its inner transports set, and
  how it authenticates.  The string of an option is the user agent of the transport that was given,
  if it was one that sets it.
\<close>

datatype auth_kind = NoAuth | BasicAuth authenticator string | BearerAuth bearer_transport

record session =
  ss_registry :: registry
  ss_scheme :: string
  ss_agent :: string
  ss_auth :: auth_kind

definition given_transport :: "string option \<Rightarrow> 's round_tripper \<Rightarrow> 's round_tripper" where
  "given_transport ua t = (case ua of None \<Rightarrow> t | Some a \<Rightarrow> userAgent_RoundTrip a t)"

definition wrapped_transport :: "registry \<Rightarrow> string \<Rightarrow> string \<Rightarrow> 's round_tripper \<Rightarrow> 's round_tripper" where
  "wrapped_transport reg scheme agent t = scheme_RoundTrip scheme reg (userAgent_RoundTrip agent t)"

definition print_map :: "params \<Rightarrow> string" where
  "print_map ps = ''map['' @ join_with (CHR '' '') (map (\<lambda>(k, v). k @ '':'' @ v) (sort_key fst ps)) @ '']''"

definition NewWithContext ::
    "net_codec \<Rightarrow> string \<Rightarrow> registry \<Rightarrow> authenticator \<Rightarrow> string option \<Rightarrow> 's round_tripper \<Rightarrow> string list \<Rightarrow> 's \<Rightarrow> session res \<times> 's" where
  "NewWithContext N version reg auth ua t scopes s =
     (case ping N reg (given_transport ua t) s of
        (Inl e, s1) \<Rightarrow> (Inl e, s1)
      | (Inr pr, s1) \<Rightarrow>
          let agent = (case ua of Some a \<Rightarrow> a | None \<Rightarrow> NewUserAgent version '''');
              inner = wrapped_transport reg (pr_scheme pr) agent t;
              ses = \<lparr>ss_registry = reg, ss_scheme = pr_scheme pr, ss_agent = agent, ss_auth = NoAuth\<rparr>;
              ch = to_lower (pr_challenge pr)
          in
          if ch = ''anonymous'' then (Inr ses, s1)
          else if ch = ''basic'' then (Inr (ses\<lparr>ss_auth := BasicAuth auth (RegistryStr reg)\<rparr>), s1)
          else if ch = ''bearer'' then
            (case map_of (pr_parameters pr) ''realm'' of
               None \<Rightarrow> (Inl (ErrMsg (''malformed www-authenticate, missing realm: '' @ print_map (pr_parameters pr))), s1)
             | Some realm \<Rightarrow>
                 let service = (case map_of (pr_parameters pr) ''service'' of Some sv \<Rightarrow> sv | None \<Rightarrow> Registry_Name reg);
                     bt = \<lparr>bt_basic = auth, bt_token = '''', bt_registry = reg, bt_realm = realm, bt_service = service,
                           bt_scopes = scopes, bt_scheme = pr_scheme pr\<rparr>
                 in
                 (case bearer_refresh N inner (bt, s1) of
                    (Inl e, _, s2) \<Rightarrow> (Inl e, s2)
                  | (Inr _, bt', s2) \<Rightarrow> (Inr (ses\<lparr>ss_auth := BearerAuth bt'\<rparr>), s2)))
          else (Inl (ErrMsg (''unrecognized challenge: '' @ pr_challenge pr)), s1))"

definition session_RoundTrip :: "net_codec \<Rightarrow> 's round_tripper \<Rightarrow> (session \<times> 's) round_tripper" where
  "session_RoundTrip N t req st =
     (case st of (ses, s) \<Rightarrow>
        let inner = wrapped_transport (ss_registry ses) (ss_scheme ses) (ss_agent ses) t in
        (case ss_auth ses of
           NoAuth \<Rightarrow> (case inner req s of (r, q, s') \<Rightarrow> (r, q, ses, s'))
         | BasicAuth auth target \<Rightarrow> (case basic_RoundTrip auth target inner req s of (r, q, s') \<Rightarrow> (r, q, ses, s'))
         | BearerAuth bt \<Rightarrow>
             (case bearer_RoundTrip N inner req (bt, s) of
                (r, q, bt', s') \<Rightarrow> (r, q, ses\<lparr>ss_auth := BearerAuth bt'\<rparr>, s'))))"

section \<open>retry.go\<close>

text \<open>Sleep for 0.1, 0.3, 0.9, 2.7 seconds.\<close>

definition defaultBackoff :: backoff where
  "defaultBackoff = \<lparr>bo_Duration = 100000000, bo_Factor = 3, bo_Jitter = 1 / 10, bo_Steps = 5, bo_Cap = 0\<rparr>"

text \<open>The results of the inner RoundTrip, named results of the function, are part of the state.\<close>

definition retry_RoundTrip :: "(nat \<Rightarrow> rat) \<Rightarrow> (go_error option \<Rightarrow> bool) \<Rightarrow> backoff \<Rightarrow> 's round_tripper \<Rightarrow> 's round_tripper" where
  "retry_RoundTrip rnd predicate b inner req s =
     (case Retry rnd
        (\<lambda>(_, q, s). case inner q s of (r, q', s') \<Rightarrow> ((case r of Inl e \<Rightarrow> Some e | Inr _ \<Rightarrow> None), (Some r, q', s')))
        predicate b (None, req, s) of
        (_, out, q, s') \<Rightarrow> ((case out of Some r \<Rightarrow> r | None \<Rightarrow> Inl (Panic ''nil response'')), q, s'))"

end
