(* ===== verification/Transport_Safety.thy ===== *)
theory Transport_Safety
  imports Transport
begin

text \<open>
  What the transports of pkg/v1/remote/transport promise: which scheme and user agent requests have,
  to which hosts credentials go, what a refresh does.  A transport that records the requests handed
  to it makes these statements about everything that is sent.
\<close>


section \<open>What the transports pass on\<close>

text \<open>A transport that keeps a record of the requests handed to it.\<close>

definition logged :: "'s round_tripper \<Rightarrow> (http_request list \<times> 's) round_tripper" where
  "logged rt req st = (case st of (sent, s) \<Rightarrow> (case rt req s of (r, q, s') \<Rightarrow> (r, q, sent @ [req], s')))"

text \<open>
  What a client of a transport relies on to show that some property of the world is kept: every
  round trip keeps it.  The transports built on top of one that does so do so as well.
\<close>

locale transport_invariant =
  fixes rt :: "'s round_tripper" and I :: "'s \<Rightarrow> bool"
  assumes step: "I s \<Longrightarrow> rt req s = (r, q, s') \<Longrightarrow> I s'"
begin

lemma client: "I s \<Longrightarrow> client_Do rt req s = (r, s') \<Longrightarrow> I s'"
  by (rule client_Do_inv [where I = I and rt = rt]) (auto dest: step)

lemma token: "I s \<Longrightarrow> token_request N rt req s = (r, s') \<Longrightarrow> I s'"
  by (auto simp: token_request_def split: sum.splits prod.splits dest: client)

lemma oauth: "I s \<Longrightarrow> refreshOauth N rt bt s = (r, s') \<Longrightarrow> I s'"
  by (auto simp: refreshOauth_def split: sum.splits dest: token)

lemma basic: "transport_invariant (basic_RoundTrip auth target rt) I"
  by unfold_locales (auto simp: basic_RoundTrip_def split: sum.splits option.splits if_splits dest: step)

lemma user_agent: "transport_invariant (userAgent_RoundTrip ua rt) I"
  by unfold_locales (auto simp: userAgent_RoundTrip_def dest: step)

lemma token_basic: "I s \<Longrightarrow> refreshBasic N rt bt s = (r, s') \<Longrightarrow> I s'"
  by (auto simp: refreshBasic_def split: sum.splits dest: transport_invariant.token [OF basic])

lemma content: "I s \<Longrightarrow> refresh_content N rt auth bt s = (r, s') \<Longrightarrow> I s'"
  by (auto simp: refresh_content_def split: if_splits prod.splits sum.splits dest: oauth token_basic)

lemma refresh: "I s \<Longrightarrow> bearer_refresh N rt (bt, s) = (r, bt', s') \<Longrightarrow> I s'"
  by (auto simp: bearer_refresh_def split: if_splits prod.splits sum.splits dest: content)

lemma send: "I s \<Longrightarrow> bearer_send rt req (bt, s) = (r, q, bt', s') \<Longrightarrow> I s' \<and> bt' = bt"
  by (auto simp: bearer_send_def Let_def split: prod.splits dest: step)

lemma bearer:
  assumes "I s" and "bearer_RoundTrip N rt req (bt, s) = (r, q, bt', s')"
  shows "I s'"
proof -
  obtain r1 q1 s1 where 1: "bearer_send rt req (bt, s) = (r1, q1, bt, s1)" "I s1"
    using send [OF assms(1)] by (metis prod_cases4)
  show ?thesis
  proof (cases r1)
    case (Inl e)
    with assms(2) 1 show ?thesis by (simp add: bearer_RoundTrip_def)
  next
    case (Inr res)
    let ?bt = "bt\<lparr>bt_scopes := add_challenges (bt_scopes bt) (response_challenges N res)\<rparr>"
    obtain r2 bt2 s2 where 2: "bearer_refresh N rt (?bt, s1) = (r2, bt2, s2)" by (rule prod_cases3)
    have "I s2" by (rule refresh [OF 1(2) 2])
    then show ?thesis
      using assms(2) 1 2 Inr
      by (auto simp: bearer_RoundTrip_def Let_def split: if_splits sum.splits dest: send)
  qed
qed

lemma ping: "I s \<Longrightarrow> ping_schemes N reg rt schemes errs s = (r, s') \<Longrightarrow> I s'"
proof (induction schemes arbitrary: errs s)
  case (Cons scheme schemes)
  then show ?case by (auto split: sum.splits prod.splits if_splits list.splits dest: client)
qed simp

end

text \<open>The logs to which only requests with a property have been added.\<close>

definition log_grows :: "(http_request \<Rightarrow> bool) \<Rightarrow> http_request list \<Rightarrow> http_request list \<times> 's \<Rightarrow> bool" where
  "log_grows P sent st \<longleftrightarrow> (\<exists>new. fst st = sent @ new \<and> list_all P new)"

lemma log_grows_refl [simp]: "log_grows P sent (sent, s)"
  by (simp add: log_grows_def)

lemma log_grows_logged:
  "log_grows P sent (l, s) \<Longrightarrow> P req \<Longrightarrow> logged rt req (l, s) = (r, q, l', s') \<Longrightarrow> log_grows P sent (l', s')"
  by (auto simp: log_grows_def logged_def split: prod.splits)

definition scheme_ok :: "registry \<Rightarrow> string \<Rightarrow> string \<Rightarrow> http_request \<Rightarrow> bool" where
  "scheme_ok reg scheme agent x \<longleftrightarrow>
     (matchesHost reg x scheme \<longrightarrow> u_Scheme (rq_URL x) = scheme) \<and> get_first (rq_Header x) ''User-Agent'' = agent"

interpretation wrapped: transport_invariant "wrapped_transport reg scheme agent (logged t)"
    "log_grows (scheme_ok reg scheme agent) sent" for reg scheme agent t sent
proof
  fix s req r q s'
  assume g: "log_grows (scheme_ok reg scheme agent) sent s"
    and w: "wrapped_transport reg scheme agent (logged t) req s = (r, q, s')"
  let ?q = "if matchesHost reg req scheme then req\<lparr>rq_URL := (rq_URL req)\<lparr>u_Scheme := scheme\<rparr>\<rparr> else req"
  let ?x = "with_header ?q ''User-Agent'' agent"
  have "logged t ?x s = (r, q, s')"
    using w by (simp add: wrapped_transport_def scheme_RoundTrip_def userAgent_RoundTrip_def split: if_splits)
  moreover have "scheme_ok reg scheme agent ?x"
    by (auto simp: scheme_ok_def with_header_def matchesHost_def Let_def)
  ultimately show "log_grows (scheme_ok reg scheme agent) sent s'"
    using g log_grows_logged by (metis prod.collapse)
qed

lemma ping_schemes_scheme: "ping_schemes N reg t schemes errs s = (Inr pr, s') \<Longrightarrow> pr_scheme pr \<in> set schemes"
  by (induction schemes arbitrary: errs s)
     (auto split: sum.splits prod.splits if_splits list.splits)

lemma NewWithContext_session:
  assumes "NewWithContext N version reg auth ua t scopes s = (Inr ses, s')"
  shows "ss_registry ses = reg \<and> (Scheme reg \<noteq> ''http'' \<longrightarrow> ss_scheme ses = ''https'') \<and>
         ss_agent ses = (case ua of Some a \<Rightarrow> a | None \<Rightarrow> NewUserAgent version '''') \<and>
         ss_scheme ses \<in> {''https'', ''http''}"
proof -
  obtain r s1 where p: "ping N reg (given_transport ua t) s = (r, s1)" by fastforce
  with assms obtain pr where r: "r = Inr pr" by (cases r) (auto simp: NewWithContext_def)
  have "pr_scheme pr \<in> set (if Scheme reg = ''http'' then [''https'', ''http''] else [''https''])"
    by (rule ping_schemes_scheme [OF p [unfolded ping_def r]])
  with assms show ?thesis
    by (auto simp: NewWithContext_def p r Let_def split: if_splits option.splits sum.splits prod.splits)
qed

text \<open>
  C9. No downgrade: a session that New sets up talks to the registry over https, unless the
  registry is one of those for which http is allowed and the ping settled on it.  Whatever a
  request of the session leads to, a challenge, requests to a token server, redirects among them,
  every request that is handed to the network and that goes to the registry's host has the scheme of
  the session, and every one carries its user agent.
\<close>

theorem session_scheme:
  assumes "NewWithContext N version reg auth ua t0 scopes s0 = (Inr ses, s1)"
    and "session_RoundTrip N (logged t) req (ses, sent, s) = (r, q, ses', sent', s')"
  shows "(ss_scheme ses = ''https'' \<or> Scheme reg = ''http'' \<and> ss_scheme ses = ''http'') \<and>
     (\<exists>new. sent' = sent @ new \<and> list_all (scheme_ok reg (ss_scheme ses) (ss_agent ses)) new)"
proof -
  let ?I = "log_grows (scheme_ok reg (ss_scheme ses) (ss_agent ses)) sent"
  let ?w = "wrapped_transport reg (ss_scheme ses) (ss_agent ses) (logged t)"
  have i: "?I (sent, s)" by simp
  have reg: "ss_registry ses = reg" using NewWithContext_session [OF assms(1)] by blast
  have "?I (sent', s')"
  proof (cases "ss_auth ses")
    case NoAuth
    with assms(2) reg have "\<exists>r q. ?w req (sent, s) = (r, q, sent', s')"
      by (auto simp: session_RoundTrip_def Let_def split: prod.splits)
    with wrapped.step [OF i] show ?thesis by blast
  next
    case (BasicAuth a target)
    with assms(2) reg have "\<exists>r q. basic_RoundTrip a target ?w req (sent, s) = (r, q, sent', s')"
      by (auto simp: session_RoundTrip_def Let_def split: prod.splits)
    with transport_invariant.step [OF wrapped.basic i] show ?thesis by blast
  next
    case (BearerAuth bt)
    with assms(2) reg have "\<exists>r q bt'. bearer_RoundTrip N ?w req (bt, sent, s) = (r, q, bt', sent', s')"
      by (auto simp: session_RoundTrip_def Let_def split: prod.splits)
    with wrapped.bearer [OF i] show ?thesis by blast
  qed
  with NewWithContext_session [OF assms(1)] show ?thesis by (auto simp: log_grows_def)
qed

text \<open>A server that accepts everything, for the witnesses.\<close>

definition yes_server :: "unit round_tripper" where
  "yes_server req s = (Inr \<lparr>rs_StatusCode = 200, rs_Header = [], rs_Body = []\<rparr>, req, s)"

definition plain_net :: net_codec where
  "plain_net = \<lparr>decode_errors = \<lambda>_. [], decode_token = \<lambda>b. Inr (b, '''', ''''), response_challenges = \<lambda>_. []\<rparr>"

definition example_registry :: registry where
  "example_registry = \<lparr>reg_insecure = False, reg_registry = ''gcr.io''\<rparr>"

lemma example_https: "Scheme example_registry = ''https''"
  by code_simp

theorem session_scheme_witness:
  "\<exists>new. snd (snd (session_RoundTrip plain_net (logged yes_server)
      (new_request ''GET'' \<lparr>u_Scheme = ''http'', u_Host = ''gcr.io'', u_Path = ''/v2/'', u_Query = []\<rparr> [])
      (\<lparr>ss_registry = example_registry, ss_scheme = ''https'', ss_agent = ''a'', ss_auth = NoAuth\<rparr>, [], ())))
    = (\<lparr>ss_registry = example_registry, ss_scheme = ''https'', ss_agent = ''a'', ss_auth = NoAuth\<rparr>, new, ()) \<and>
    new \<noteq> [] \<and> list_all (\<lambda>x. get_first (rq_Header x) ''User-Agent'' = ''a'') new"
proof -
  let ?ses = "\<lparr>ss_registry = example_registry, ss_scheme = ''https'', ss_agent = ''a'', ss_auth = NoAuth\<rparr>"
  let ?req = "new_request ''GET'' \<lparr>u_Scheme = ''http'', u_Host = ''gcr.io'', u_Path = ''/v2/'', u_Query = []\<rparr> []"
  have n: "NewWithContext plain_net '''' example_registry Anonymous (Some ''a'') yes_server [] () = (Inr ?ses, ())"
    by code_simp
  obtain r q ses' sent' s' where h: "session_RoundTrip plain_net (logged yes_server) ?req (?ses, [], ()) = (r, q, ses', sent', s')"
    by (metis prod_cases5)
  then have "ses' = ?ses \<and> sent' \<noteq> []"
    by (auto simp: session_RoundTrip_def wrapped_transport_def scheme_RoundTrip_def userAgent_RoundTrip_def logged_def Let_def
        split: prod.splits if_splits)
  moreover have "list_all (\<lambda>x. get_first (rq_Header x) ''User-Agent'' = ''a'') sent'"
    using session_scheme [OF n h] by (auto simp: scheme_ok_def list_all_iff)
  ultimately show ?thesis using h by simp
qed

section \<open>Where credentials go\<close>

definition auth_of :: "http_request \<Rightarrow> string" where
  "auth_of x = get_first (rq_Header x) ''Authorization''"

text \<open>
  What the code relies on of an inner transport: it does not change the Authorization header or the
  hosts of the request object.
\<close>

definition keeps_request :: "'s round_tripper \<Rightarrow> bool" where
  "keeps_request rt \<longleftrightarrow>
     (\<forall>req s. case rt req s of (r, q, s') \<Rightarrow>
        auth_of q = auth_of req \<and> rq_Host q = rq_Host req \<and> u_Host (rq_URL q) = u_Host (rq_URL req))"

definition to_realm :: "bearer_transport \<Rightarrow> http_request \<Rightarrow> bool" where
  "to_realm bt x =
     (case url_Parse (bt_realm bt) of Inl _ \<Rightarrow> False | Inr u \<Rightarrow> rq_Host x = u_Host u \<or> u_Host (rq_URL x) = u_Host u)"

definition is_basic_header :: "authenticator \<Rightarrow> string \<Rightarrow> bool" where
  "is_basic_header auth a = (case Authorization auth of Inl _ \<Rightarrow> False | Inr cfg \<Rightarrow> basic_header cfg = Some a)"

definition confined :: "bearer_transport \<Rightarrow> string list \<Rightarrow> string \<Rightarrow> http_request \<Rightarrow> bool" where
  "confined bt tokens own x \<longleftrightarrow>
     auth_of x = '''' \<or> auth_of x = own \<or>
     (matchesHost (bt_registry bt) x (bt_scheme bt) \<and> auth_of x \<in> set (map (\<lambda>t. ''Bearer '' @ t) tokens)) \<or>
     (to_realm bt x \<and> is_basic_header (bt_basic bt) (auth_of x))"

lemma auth_of_with_header [simp]:
  "auth_of (with_header req k v) = (if k = ''Authorization'' then v else auth_of req)"
  by (simp add: auth_of_def with_header_def)

lemma with_header_sel [simp]:
  "rq_Host (with_header req k v) = rq_Host req" "rq_URL (with_header req k v) = rq_URL req"
  "matchesHost reg (with_header req k v) scheme = matchesHost reg req scheme"
  "to_realm bt (with_header req k v) = to_realm bt req"
  by (simp_all add: with_header_def matchesHost_def to_realm_def split: sum.split)

lemma map_of_filter_key: "map_of (filter (\<lambda>p. P (fst p)) ps) k = (if P k then map_of ps k else None)"
  by (induction ps) auto

lemma get_first_filter:
  "get_first ps k = '''' \<Longrightarrow> get_first (filter (\<lambda>p. P (fst p)) ps) k = ''''"
  by (simp add: get_first_def map_of_filter_key)

text \<open>A client never adds credentials to the requests it is redirected to.\<close>

lemma client_loop_grows:
  assumes step: "\<And>req st. auth_of req = '''' \<Longrightarrow> log_grows P sent st \<Longrightarrow> log_grows P sent (snd (snd (rt req st)))"
    and ireq: "auth_of ireq = ''''"
  shows "auth_of req = '''' \<Longrightarrow> log_grows P sent st \<Longrightarrow> log_grows P sent (snd (client_loop n rt ireq req st))"
proof (induction n arbitrary: req st)
  case 0
  obtain r q st' where rt: "rt req st = (r, q, st')" by (rule prod_cases3)
  have "log_grows P sent st'" using step [OF 0] by (simp add: rt)
  then show ?case by (auto simp: client_step_def rt Let_def split: sum.splits option.splits prod.splits)
next
  case (Suc n)
  obtain r q st' where rt: "rt req st = (r, q, st')" by (rule prod_cases3)
  have g: "log_grows P sent st'" using step [OF Suc.prems] by (simp add: rt)
  have h: "get_first (redirect_headers ireq u) ''Authorization'' = ''''" for u
    unfolding redirect_headers_def by (rule get_first_filter) (use ireq in \<open>simp add: auth_of_def\<close>)
  have nxt: "auth_of x = '''' \<and> st2 = st'" if "client_step rt ireq req st = (Inr (resp, q', Some x), st2)" for resp q' x st2
    using that by (auto simp: client_step_def rt Let_def split: sum.splits option.splits if_splits simp: auth_of_def h)
  obtain y st2 where cs: "client_step rt ireq req st = (y, st2)" by (cases "client_step rt ireq req st")
  have st2: "st2 = st'"
    using cs by (auto simp: client_step_def rt Let_def split: sum.splits option.splits if_splits prod.splits)
  show ?case
  proof (cases y)
    case (Inl e)
    with cs st2 g show ?thesis by simp
  next
    case (Inr t)
    obtain resp q' o' where t: "t = (resp, q', o')" by (rule prod_cases3)
    show ?thesis
    proof (cases o')
      case None
      with cs st2 g Inr t show ?thesis by simp
    next
      case (Some x)
      with nxt cs Inr t have "auth_of x = ''''" by blast
      with Suc.IH g cs Inr t Some st2 show ?thesis by simp
    qed
  qed
qed

lemma log_grows_snd:
  "log_grows P sent st \<Longrightarrow> P x \<Longrightarrow> log_grows P sent (snd (snd (logged rt x st)))"
  by (cases st) (auto simp: log_grows_def logged_def split: prod.splits)

lemma token_request_grows:
  assumes "\<And>req st. auth_of req = '''' \<Longrightarrow> log_grows P sent st \<Longrightarrow> log_grows P sent (snd (snd (rt req st)))"
    and "auth_of req = ''''" and "log_grows P sent st"
  shows "log_grows P sent (snd (token_request N rt req st))"
proof -
  have "log_grows P sent (snd (client_Do rt req st))"
    unfolding client_Do_def by (rule client_loop_grows [where rt = rt]) (use assms in auto)
  then show ?thesis by (auto simp: token_request_def split: sum.splits prod.splits)
qed

lemma auth_of_new [simp]: "auth_of (new_request m u b) = ''''"
  by (simp add: auth_of_def new_request_def)

lemma refreshOauth_grows:
  assumes "\<And>x. auth_of x = '''' \<Longrightarrow> P x" and "log_grows P sent st"
  shows "log_grows P sent (snd (refreshOauth N (logged inner) bt st))"
  using assms(2)
  by (auto simp: refreshOauth_def split: sum.split intro!: token_request_grows log_grows_snd assms(1))

lemma refreshBasic_grows:
  assumes "\<And>x. auth_of x = '''' \<Longrightarrow> P x"
    and "\<And>x. to_realm bt x \<Longrightarrow> is_basic_header (bt_basic bt) (auth_of x) \<Longrightarrow> P x"
    and "log_grows P sent st"
  shows "log_grows P sent (snd (refreshBasic N (logged inner) bt st))"
proof (cases "url_Parse (bt_realm bt)")
  case (Inl e)
  with assms(3) show ?thesis by (simp add: refreshBasic_def)
next
  case (Inr u)
  have step: "log_grows P sent (snd (snd (basic_RoundTrip (bt_basic bt) (u_Host u) (logged inner) req st)))"
    if r: "auth_of req = ''''" and g: "log_grows P sent st" for req st
  proof -
    have plain: "log_grows P sent (snd (snd (logged inner req st)))" using g assms(1) [OF r] by (rule log_grows_snd)
    have basic: "log_grows P sent (snd (snd (logged inner (with_header req ''Authorization'' hdr) st)))"
      if "Authorization (bt_basic bt) = Inr cfg" "basic_header cfg = Some hdr" "rq_Host req = u_Host u \<or> u_Host (rq_URL req) = u_Host u" for cfg hdr
      using g by (rule log_grows_snd) (use that in \<open>auto intro!: assms(2) simp: is_basic_header_def to_realm_def Inr\<close>)
    show ?thesis
      using plain basic g by (auto simp: basic_RoundTrip_def split: sum.split option.split)
  qed
  with Inr assms(3) show ?thesis
    by (auto simp: refreshBasic_def intro!: token_request_grows)
qed

lemma bearer_refresh_spec_aux:
  assumes "bearer_refresh N inner (bt, s) = (r, bt', s')"
  shows "case r of Inl _ \<Rightarrow> bt' = bt
     | Inr _ \<Rightarrow> bt_token bt' \<noteq> '''' \<and> bt' = bt\<lparr>bt_token := bt_token bt', bt_basic := bt_basic bt'\<rparr> \<and>
         (bt_basic bt' = bt_basic bt \<or> (\<exists>t. t \<noteq> '''' \<and> bt_basic bt' = FromConfig (no_auth\<lparr>ac_IdentityToken := t\<rparr>)))"
  using assms
  by (auto simp: bearer_refresh_def use_token_def Let_def split: sum.splits if_splits prod.splits)

lemma bearer_refresh_grows:
  assumes "\<And>x. auth_of x = '''' \<Longrightarrow> P x"
    and "\<And>x. to_realm bt x \<Longrightarrow> is_basic_header (bt_basic bt) (auth_of x) \<Longrightarrow> P x"
    and "log_grows P sent st"
  shows "log_grows P sent (snd (snd (bearer_refresh N (logged inner) (bt, st))))"
proof -
  have "log_grows P sent (snd (refresh_content N (logged inner) auth bt st))" for auth
  proof -
    obtain r st' where o': "refreshOauth N (logged inner) bt st = (r, st')" by (cases "refreshOauth N (logged inner) bt st")
    have "log_grows P sent st'" using refreshOauth_grows [OF assms(1,3), of N inner bt] by (simp add: o')
    moreover have "log_grows P sent (snd (refreshBasic N (logged inner) bt st2))" if "log_grows P sent st2" for st2
      by (rule refreshBasic_grows) (use assms(1,2) that in auto)
    ultimately show ?thesis
      using assms(3) by (auto simp: refresh_content_def o' split: sum.split)
  qed
  then have "log_grows P sent st'" if "refresh_content N (logged inner) auth bt st = (r, st')" for auth r st'
    using that by (metis snd_conv)
  then show ?thesis
    using assms(3) by (auto simp: bearer_refresh_def split: sum.split prod.split)
qed

lemma bearer_send_logged:
  assumes inner: "keeps_request inner"
    and y: "y = (if matchesHost (bt_registry bt) x (bt_scheme bt) then with_header x ''Authorization'' (''Bearer '' @ bt_token b) else x)"
    and b: "bt_registry b = bt_registry bt" "bt_scheme b = bt_scheme bt"
  shows "\<exists>r q st'. bearer_send (logged inner) x (b, st) = (r, q, b, st') \<and>
    (\<forall>P. log_grows P sent st \<longrightarrow> P y \<longrightarrow> log_grows P sent st') \<and> auth_of q = auth_of y \<and>
    (matchesHost (bt_registry bt) q (bt_scheme bt) \<longleftrightarrow> matchesHost (bt_registry bt) y (bt_scheme bt))"
proof -
  obtain r q st' where l: "logged inner y st = (r, q, st')" by (rule prod_cases3)
  obtain l0 s0 where st: "st = (l0, s0)" by (cases st)
  with l obtain s2 where i: "inner y s0 = (r, q, s2)" by (auto simp: logged_def split: prod.splits)
  have "auth_of q = auth_of y \<and> rq_Host q = rq_Host y \<and> u_Host (rq_URL q) = u_Host (rq_URL y)"
    using inner [unfolded keeps_request_def, rule_format, of y s0] by (simp add: i)
  moreover have "log_grows P sent st \<longrightarrow> P y \<longrightarrow> log_grows P sent st'" for P
    using log_grows_snd [of P sent st y inner] l by simp
  moreover have "bearer_send (logged inner) x (b, st) = (r, q, b, st')"
    using l b y by (auto simp: bearer_send_def Let_def)
  ultimately show ?thesis by (auto simp: matchesHost_def)
qed

lemma bearer_refresh_confined:
  assumes "bearer_refresh N (logged inner) (bt\<lparr>bt_scopes := scopes\<rparr>, st1) = (r2, b2, st2)"
    and "\<And>t. log_grows (confined bt [bt_token bt, t] a) sent st1"
  shows "log_grows (confined bt [bt_token bt, t] a) sent st2"
    and "r2 = Inr u \<Longrightarrow> bt_registry b2 = bt_registry bt" and "r2 = Inr u \<Longrightarrow> bt_scheme b2 = bt_scheme bt"
proof -
  have "log_grows (confined bt [bt_token bt, t] a) sent (snd (snd (bearer_refresh N (logged inner) (bt\<lparr>bt_scopes := scopes\<rparr>, st1))))"
    by (rule bearer_refresh_grows) (auto simp: confined_def to_realm_def assms(2))
  then show "log_grows (confined bt [bt_token bt, t] a) sent st2" by (simp add: assms(1))
  assume "r2 = Inr u"
  then have "b2 = (bt\<lparr>bt_scopes := scopes\<rparr>)\<lparr>bt_token := bt_token b2, bt_basic := bt_basic b2\<rparr>"
    using bearer_refresh_spec_aux [OF assms(1)] by simp
  then show "bt_registry b2 = bt_registry bt" "bt_scheme b2 = bt_scheme bt"
    by (metis bearer_transport.select_convs(3,7) bearer_transport.surjective bearer_transport.update_convs(1,2,6))+
qed


text \<open>
  A registry that challenges until it sees the token tok, at the host gcr.io, and a token server at
  auth.io that hands it out for the right password; other requests are answered with 200.
\<close>

definition demo_net :: net_codec where
  "demo_net = \<lparr>decode_errors = \<lambda>_. [], decode_token = \<lambda>b. Inr (b, '''', ''''),
     response_challenges = \<lambda>r. if rs_StatusCode r = 401 then [(''bearer'', [(''scope'', ''a b'')])] else []\<rparr>"

definition demo_world :: "unit round_tripper" where
  "demo_world req s =
     (if u_Host (rq_URL req) = ''gcr.io'' then
        (Inr \<lparr>rs_StatusCode = (if auth_of req = ''Bearer tok'' then 200 else 401), rs_Header = [], rs_Body = []\<rparr>,
         req\<lparr>rq_Body := []\<rparr>, s)
      else (Inr \<lparr>rs_StatusCode = 200, rs_Header = [], rs_Body = ''tok''\<rparr>, req\<lparr>rq_Body := []\<rparr>, s))"

definition demo_bearer :: bearer_transport where
  "demo_bearer =
     \<lparr>bt_basic = authn_Basic ''u'' ''p'', bt_token = ''old'', bt_registry = example_registry, bt_realm = ''https://auth.io/token'',
      bt_service = ''s'', bt_scopes = [''a''], bt_scheme = ''https''\<rparr>"

definition demo_put :: http_request where
  "demo_put = new_request ''PUT'' \<lparr>u_Scheme = ''https'', u_Host = ''gcr.io'', u_Path = ''/v2/'', u_Query = []\<rparr> ''body''"

lemma demo_keeps: "keeps_request demo_world"
  by (auto simp: keeps_request_def demo_world_def auth_of_def)

lemma demo_run:
  "(case bearer_RoundTrip demo_net (logged demo_world) demo_put (demo_bearer, [], ()) of
      (r, q, bt', log', s') \<Rightarrow> (is_ok r, bt_token bt', bt_scopes bt', map (\<lambda>x. (rq_Method x, u_Host (rq_URL x), auth_of x, rq_Body x)) log'))
   = (True, ''tok'', [''a'', ''b''],
      [(''PUT'', ''gcr.io'', ''Bearer old'', ''body''), (''GET'', ''auth.io'', ''Basic dTpw'', []), (''PUT'', ''gcr.io'', ''Bearer tok'', [])])"
  by code_simp


text \<open>
  The run also shows that the request which is sent again after a challenge has no body: the first
  round trip has read it, and RoundTrip does not rewind it.
\<close>

lemma bearer_retry_loses_body:
  "map rq_Body (filter (\<lambda>x. u_Host (rq_URL x) = ''gcr.io'')
      (case bearer_RoundTrip demo_net (logged demo_world) demo_put (demo_bearer, [], ()) of (r, q, bt', log', s') \<Rightarrow> log'))
   = [''body'', []]"
  by code_simp

section \<open>What a refresh does\<close>

lemma add_wanted_spec: "\<exists>extra. add_wanted got scopes ws = scopes @ extra \<and> set extra = set ws - set got"
proof (induction ws arbitrary: scopes)
  case (Cons w ws)
  obtain extra where "add_wanted got (if w \<in> set got then scopes else scopes @ [w]) ws = (if w \<in> set got then scopes else scopes @ [w]) @ extra"
    "set extra = set ws - set got" using Cons.IH by blast
  then show ?case by (cases "w \<in> set got") auto
qed simp

definition wanted_scopes :: "(string \<times> params) list \<Rightarrow> string set" where
  "wanted_scopes wacs =
     (\<Union>wac\<in>set wacs. case map_of (snd wac) ''scope'' of None \<Rightarrow> {} | Some scope \<Rightarrow> set (split_on (CHR '' '') scope))"

lemma add_challenges_spec:
  "\<exists>extra. add_challenges scopes wacs = scopes @ extra \<and> set (scopes @ extra) = set scopes \<union> wanted_scopes wacs"
proof (induction wacs arbitrary: scopes)
  case (Cons wac wacs)
  let ?sc = "case map_of (snd wac) ''scope'' of None \<Rightarrow> scopes | Some scope \<Rightarrow> add_wanted scopes scopes (split_on (CHR '' '') scope)"
  obtain e1 where e1: "?sc = scopes @ e1"
    "set (scopes @ e1) = set scopes \<union> (case map_of (snd wac) ''scope'' of None \<Rightarrow> {} | Some scope \<Rightarrow> set (split_on (CHR '' '') scope))"
  proof (cases "map_of (snd wac) ''scope''")
    case None
    then show ?thesis using that [of "[]"] by simp
  next
    case (Some scope)
    with add_wanted_spec [of scopes scopes "split_on (CHR '' '') scope"] obtain e where
      "?sc = scopes @ e" "set e = set (split_on (CHR '' '') scope) - set scopes" by auto
    then show ?thesis using that [of e] Some by auto
  qed
  obtain e2 where "add_challenges ?sc wacs = ?sc @ e2" "set (?sc @ e2) = set ?sc \<union> wanted_scopes wacs"
    using Cons.IH by blast
  with e1 show ?case by (auto simp: wanted_scopes_def)
qed (simp add: wanted_scopes_def)

text \<open>
  A refresh either fails and leaves the transport as it was, or yields a token that is not
  empty and changes nothing else but, when the token server sent a refresh token, the credentials
  for the next refresh.  The scopes that a challenge adds come behind those already requested, which
  stay in their order, and the scopes are then exactly the old ones and those of the challenges.
\<close>

theorem bearer_refresh_spec:
  "(case bearer_refresh N inner (bt, s) of
      (r, bt', s') \<Rightarrow>
        (case r of Inl _ \<Rightarrow> bt' = bt
         | Inr _ \<Rightarrow> bt_token bt' \<noteq> '''' \<and> bt' = bt\<lparr>bt_token := bt_token bt', bt_basic := bt_basic bt'\<rparr> \<and>
             (bt_basic bt' = bt_basic bt \<or> (\<exists>t. t \<noteq> '''' \<and> bt_basic bt' = FromConfig (no_auth\<lparr>ac_IdentityToken := t\<rparr>))))) \<and>
   (\<exists>extra. add_challenges scopes wacs = scopes @ extra \<and> set (scopes @ extra) = set scopes \<union> wanted_scopes wacs)"
  using bearer_refresh_spec_aux [of N inner bt s] add_challenges_spec [of scopes wacs]
  by (simp split: prod.split)

end
