(* ===== verification/Remote_Write.thy ===== *)
theory Remote_Write
  imports Transport V1_Image
begin

text \<open>
  pkg/v1/remote, the writing side: options.go, mount.go, write.go, check.go and delete.go.  The
  functions of a writer take the transport of its client and the state of the world it talks to; the
  exported functions set up a session with the registry first.

  A layer or image that is uploaded is given by the results of its methods before and after its
  content has been read: they are the same for all but streaming layers, whose digest is known only
  then and whose content can be opened once.  Goroutines of an errgroup run one after the other, in
  the order that a scheduler gives, each as a whole.
\<close>

section \<open>options.go\<close>

record 's remote_options =
  ro_auth :: authenticator
  ro_keychain :: "keychain option"
  ro_transport :: "'s round_tripper"
  ro_platform :: platform
  ro_jobs :: int
  ro_userAgent :: string

type_synonym 's remote_option = "'s remote_options \<Rightarrow> 's remote_options res"

definition empty_platform :: platform where
  "empty_platform = \<lparr>Architecture = '''', OS = '''', OSVersion = '''', OSFeatures = [], Variant = '''', Features = []\<rparr>"

definition defaultPlatform :: platform where
  "defaultPlatform = empty_platform\<lparr>Architecture := ''amd64'', OS := ''linux''\<rparr>"

definition defaultJobs :: int where
  "defaultJobs = 4"

text \<open>The default transport, http.DefaultTransport, is an argument of what starts from the default options.\<close>

definition base_remote_options :: "'s round_tripper \<Rightarrow> 's remote_options" where
  "base_remote_options dt =
     \<lparr>ro_auth = Anonymous, ro_keychain = None, ro_transport = dt, ro_platform = defaultPlatform, ro_jobs = defaultJobs, ro_userAgent = ''''\<rparr>"

fun apply_options :: "'s remote_option list \<Rightarrow> 's remote_options \<Rightarrow> 's remote_options res" where
  "apply_options [] o' = Inr o'"
| "apply_options (opt # opts) o' = bnd (opt o') (apply_options opts)"

definition remote_makeOptions :: "'s round_tripper \<Rightarrow> string \<Rightarrow> 's remote_option list \<Rightarrow> 's remote_options res" where
  "remote_makeOptions dt target opts =
     bnd (apply_options opts (base_remote_options dt)) (\<lambda>o'.
       case ro_keychain o' of
         None \<Rightarrow> Inr o'
       | Some kc \<Rightarrow> bnd (kc target) (\<lambda>auth. Inr (o'\<lparr>ro_auth := auth\<rparr>)))"

definition WithTransport :: "'s round_tripper \<Rightarrow> 's remote_option" where
  "WithTransport t o' = Inr (o'\<lparr>ro_transport := t\<rparr>)"

definition WithAuth :: "authenticator \<Rightarrow> 's remote_option" where
  "WithAuth auth o' = Inr (o'\<lparr>ro_auth := auth\<rparr>)"

definition WithAuthFromKeychain :: "keychain \<Rightarrow> 's remote_option" where
  "WithAuthFromKeychain keys o' = Inr (o'\<lparr>ro_keychain := Some keys\<rparr>)"

definition WithPlatform :: "platform \<Rightarrow> 's remote_option" where
  "WithPlatform p o' = Inr (o'\<lparr>ro_platform := p\<rparr>)"

definition WithJobs :: "int \<Rightarrow> 's remote_option" where
  "WithJobs jobs o' = (if jobs \<le> 0 then Inl (ErrMsg ''jobs must be greater than zero'') else Inr (o'\<lparr>ro_jobs := jobs\<rparr>))"

definition WithUserAgent :: "string \<Rightarrow> 's remote_option" where
  "WithUserAgent ua o' = Inr (o'\<lparr>ro_userAgent := ua\<rparr>)"

text \<open>
  What the process provides: the decoders of the network bodies, the version the program was built
  with, the random numbers of the backoffs.
\<close>

record net_env =
  ne_codec :: net_codec
  ne_version :: string
  ne_rnd :: "nat \<Rightarrow> rat"

text \<open>The session of the client that a function of this package makes from its options.\<close>

definition retrying :: "net_env \<Rightarrow> 's round_tripper \<Rightarrow> 's round_tripper" where
  "retrying env t = retry_RoundTrip (ne_rnd env) IsTemporary defaultBackoff t"

definition connect ::
    "net_env \<Rightarrow> registry \<Rightarrow> 's remote_options \<Rightarrow> string list \<Rightarrow> 's \<Rightarrow> session res \<times> 's" where
  "connect env reg o' scopes s =
     NewWithContext (ne_codec env) (ne_version env) reg (ro_auth o')
       (if ro_userAgent o' \<noteq> '''' then Some (NewUserAgent (ne_version env) (ro_userAgent o')) else None)
       (retrying env (ro_transport o')) scopes s"

definition session_transport :: "net_env \<Rightarrow> 's remote_options \<Rightarrow> (session \<times> 's) round_tripper" where
  "session_transport env o' = session_RoundTrip (ne_codec env) (retrying env (ro_transport o'))"

section \<open>mount.go and what is pushed\<close>

record push_layer =
  pl_before :: layer
  pl_after :: layer
  pl_Reference :: "reference option"

record push_image =
  pi_Layers :: "push_layer list res"
  pi_before :: image
  pi_after :: image

definition ordinary_layer :: "reference option \<Rightarrow> layer \<Rightarrow> push_layer" where
  "ordinary_layer ref l = \<lparr>pl_before = l, pl_after = l, pl_Reference = ref\<rparr>"

text \<open>An image whose methods do not change, and one of mountableImage, with the reference it is from.\<close>

definition ordinary_image :: "image \<Rightarrow> push_image" where
  "ordinary_image img = \<lparr>pi_Layers = bnd (i_Layers img) (\<lambda>ls. Inr (map (ordinary_layer None) ls)), pi_before = img, pi_after = img\<rparr>"

definition mountable_layer :: "layer \<Rightarrow> layer" where
  "mountable_layer l = l\<lparr>l_Descriptor := Some (layer_Descriptor l), l_UncompressedSize := None\<rparr>"

definition mountableImage :: "reference \<Rightarrow> image \<Rightarrow> push_image" where
  "mountableImage ref img =
     (let img' = img\<lparr>i_Layers := bnd (i_Layers img) (\<lambda>ls. Inr (map mountable_layer ls)),
                     i_LayerByDigest := (\<lambda>d. bnd (i_LayerByDigest img d) (\<lambda>l. Inr (mountable_layer l))),
                     i_LayerByDiffID := (\<lambda>d. bnd (i_LayerByDiffID img d) (\<lambda>l. Inr (mountable_layer l))),
                     i_Descriptor := Some (image_Descriptor img)\<rparr>
      in \<lparr>pi_Layers = bnd (i_Layers img') (\<lambda>ls. Inr (map (ordinary_layer (Some ref)) ls)), pi_before = img', pi_after = img'\<rparr>)"

section \<open>write.go: the writer\<close>

definition w_url :: "repository \<Rightarrow> string \<Rightarrow> url" where
  "w_url repo path = \<lparr>u_Scheme = Scheme (repo_Registry repo), u_Host = RegistryStr (repo_Registry repo), u_Path = path, u_Query = []\<rparr>"

definition nextLocation :: "http_response \<times> http_request \<Rightarrow> url res" where
  "nextLocation r =
     (let loc = get_first (rs_Header (fst r)) ''Location'' in
      if loc = '''' then Inl (ErrMsg ''missing Location header'') else url_resolve (rq_URL (snd r)) loc)"

text \<open>Sending a request and checking the status of the answer.\<close>

definition do_checked ::
    "net_codec \<Rightarrow> 's round_tripper \<Rightarrow> http_request \<Rightarrow> int list \<Rightarrow> 's \<Rightarrow> (http_response \<times> http_request) res \<times> 's" where
  "do_checked N rt req codes s =
     (case client_Do rt req s of
        (Inl e, s') \<Rightarrow> (Inl e, s')
      | (Inr r, s') \<Rightarrow> (bnd (CheckError N r codes) (\<lambda>_. Inr r), s'))"

definition blob_path_of :: "repository \<Rightarrow> v1_hash \<Rightarrow> string" where
  "blob_path_of repo h = ''/v2/'' @ RepositoryStr repo @ ''/blobs/'' @ Hash_String h"

definition manifest_path_of :: "repository \<Rightarrow> string \<Rightarrow> string" where
  "manifest_path_of repo ident = ''/v2/'' @ RepositoryStr repo @ ''/manifests/'' @ ident"

definition checkExistingBlob :: "net_codec \<Rightarrow> 's round_tripper \<Rightarrow> repository \<Rightarrow> v1_hash \<Rightarrow> 's \<Rightarrow> bool res \<times> 's" where
  "checkExistingBlob N rt repo h s =
     (case do_checked N rt (new_request ''HEAD'' (w_url repo (blob_path_of repo h)) []) [StatusOK, StatusNotFound] s of
        (r, s') \<Rightarrow> (bnd r (\<lambda>rr. Inr (rs_StatusCode (fst rr) = StatusOK)), s'))"

definition checkExistingManifest ::
    "net_codec \<Rightarrow> 's round_tripper \<Rightarrow> repository \<Rightarrow> v1_hash \<Rightarrow> media_type \<Rightarrow> 's \<Rightarrow> bool res \<times> 's" where
  "checkExistingManifest N rt repo h mt s =
     (case do_checked N rt (with_header (new_request ''HEAD'' (w_url repo (manifest_path_of repo (Hash_String h))) []) ''Accept'' mt)
             [StatusOK, StatusNotFound] s of
        (r, s') \<Rightarrow> (bnd r (\<lambda>rr. Inr (rs_StatusCode (fst rr) = StatusOK)), s'))"

text \<open>No location means that the blob was mounted.\<close>

definition initiateUpload ::
    "net_codec \<Rightarrow> 's round_tripper \<Rightarrow> repository \<Rightarrow> string \<Rightarrow> string \<Rightarrow> 's \<Rightarrow> url option res \<times> 's" where
  "initiateUpload N rt repo from' mount s =
     (let u = (w_url repo (''/v2/'' @ RepositoryStr repo @ ''/blobs/uploads/''))
                \<lparr>u_Query := (if mount \<noteq> '''' \<and> from' \<noteq> '''' then [(''mount'', mount), (''from'', from')] else [])\<rparr> in
      case do_checked N rt (with_header (new_request ''POST'' u []) ''Content-Type'' ''application/json'')
             [StatusCreated, StatusAccepted] s of
        (r, s') \<Rightarrow>
          (bnd r (\<lambda>rr. if rs_StatusCode (fst rr) = StatusCreated then Inr None
                       else bnd (nextLocation rr) (\<lambda>loc. Inr (Some loc))), s'))"

definition streamBlob :: "net_codec \<Rightarrow> 's round_tripper \<Rightarrow> bytes \<Rightarrow> url \<Rightarrow> 's \<Rightarrow> url res \<times> 's" where
  "streamBlob N rt blob streamLocation s =
     (case do_checked N rt (new_stream_request ''PATCH'' streamLocation blob) [StatusNoContent, StatusAccepted, StatusCreated] s of
        (r, s') \<Rightarrow> (bnd r nextLocation, s'))"

definition commitBlob :: "net_codec \<Rightarrow> 's round_tripper \<Rightarrow> url \<Rightarrow> string \<Rightarrow> 's \<Rightarrow> unit res \<times> 's" where
  "commitBlob N rt location digest s =
     (case do_checked N rt (new_request ''PUT'' (location\<lparr>u_Query := set_param (u_Query location) ''digest'' digest\<rparr>) []) [StatusCreated] s of
        (r, s') \<Rightarrow> (bnd r (\<lambda>_. Inr ()), s'))"

text \<open>
  tryUpload, the function that uploadOne retries.  Its state also tells whether the content of the
  layer has been opened.
\<close>

definition tryUpload ::
    "net_codec \<Rightarrow> 's round_tripper \<Rightarrow> repository \<Rightarrow> push_layer \<Rightarrow> string \<Rightarrow> string \<Rightarrow> bool \<times> 's \<Rightarrow> go_error option \<times> bool \<times> 's" where
  "tryUpload N rt repo l from' mount st =
     (case st of (opened, s) \<Rightarrow>
        let now = (if opened then pl_after l else pl_before l) in
        (case initiateUpload N rt repo from' mount s of
           (Inl e, s1) \<Rightarrow> (Some e, opened, s1)
         | (Inr None, s1) \<Rightarrow> ((case l_Digest now of Inl e \<Rightarrow> Some e | Inr _ \<Rightarrow> None), opened, s1)
         | (Inr (Some location), s1) \<Rightarrow>
             (case l_MediaType now of
                Inl e \<Rightarrow> (Some e, opened, s1)
              | Inr _ \<Rightarrow>
                  (case l_Compressed now of
                     Inl e \<Rightarrow> (Some e, True, s1)
                   | Inr blob \<Rightarrow>
                       (case streamBlob N rt blob location s1 of
                          (Inl e, s2) \<Rightarrow> (Some e, True, s2)
                        | (Inr location2, s2) \<Rightarrow>
                            (case l_Digest (pl_after l) of
                               Inl e \<Rightarrow> (Some e, True, s2)
                             | Inr h \<Rightarrow>
                                 (case commitBlob N rt location2 (Hash_String h) s2 of
                                    (Inl e, s3) \<Rightarrow> (Some e, True, s3)
                                  | (Inr _, s3) \<Rightarrow> (None, True, s3))))))))"

text \<open>Three attempts, waiting one second after the first failure, three after the second.\<close>

definition upload_backoff :: backoff where
  "upload_backoff = \<lparr>bo_Duration = 1000000000, bo_Factor = 3, bo_Jitter = 1 / 10, bo_Steps = 3, bo_Cap = 0\<rparr>"

definition mount_source :: "repository \<Rightarrow> reference option \<Rightarrow> string" where
  "mount_source repo ref =
     (case ref of
        None \<Rightarrow> ''''
      | Some r \<Rightarrow>
          if RegistryStr (repo_Registry repo) = RegistryStr (repo_Registry (Context r)) then RepositoryStr (Context r) else '''')"

definition uploadOne :: "net_env \<Rightarrow> 's round_tripper \<Rightarrow> repository \<Rightarrow> push_layer \<Rightarrow> 's \<Rightarrow> go_error option \<times> 's" where
  "uploadOne env rt repo l s =
     (let N = ne_codec env;
          retry = (\<lambda>mount s1. case Retry (ne_rnd env) (tryUpload N rt repo l (mount_source repo (pl_Reference l)) mount)
                                IsTemporary upload_backoff (False, s1) of (err, _, s2) \<Rightarrow> (err, s2)) in
      case l_Digest (pl_before l) of
        Inl _ \<Rightarrow> retry '''' s
      | Inr h \<Rightarrow>
          (case checkExistingBlob N rt repo h s of
             (Inl e, s1) \<Rightarrow> (Some e, s1)
           | (Inr existing, s1) \<Rightarrow> if existing then (None, s1) else retry (Hash_String h) s1))"

section \<open>write.go: manifests\<close>

text \<open>
  A Taggable: a remote.Descriptor, or something with a raw manifest and perhaps a media type.
\<close>

datatype taggable = TagDescriptor bytes descriptor | TagRaw "bytes res" "media_type res option"

definition plain_descriptor :: "v1_hash \<Rightarrow> int \<Rightarrow> media_type \<Rightarrow> descriptor" where
  "plain_descriptor h sz mt = zero_descriptor\<lparr>d_Digest := h, d_Size := sz, d_MediaType := mt\<rparr>"

definition unpackTaggable :: "taggable \<Rightarrow> (bytes \<times> descriptor) res" where
  "unpackTaggable t =
     (case t of
        TagDescriptor b desc \<Rightarrow> Inr (b, desc)
      | TagRaw raw mt \<Rightarrow>
          bnd raw (\<lambda>b. bnd (case mt of None \<Rightarrow> Inr DockerManifestSchema2 | Some m \<Rightarrow> m) (\<lambda>m.
            Inr (b, plain_descriptor (fst (SHA256 b)) (snd (SHA256 b)) m))))"

definition image_taggable :: "image \<Rightarrow> taggable" where
  "image_taggable img = TagRaw (i_RawManifest img) (Some (i_MediaType img))"

definition index_taggable :: "image_index \<Rightarrow> taggable" where
  "index_taggable ii = TagRaw (ii_RawManifest ii) (Some (ii_MediaType ii))"

definition commitManifest ::
    "net_codec \<Rightarrow> 's round_tripper \<Rightarrow> repository \<Rightarrow> taggable \<Rightarrow> reference \<Rightarrow> 's \<Rightarrow> go_error option \<times> 's" where
  "commitManifest N rt repo t ref s =
     (case unpackTaggable t of
        Inl e \<Rightarrow> (Some e, s)
      | Inr (raw, desc) \<Rightarrow>
          (case do_checked N rt
                  (with_header (new_request ''PUT'' (w_url repo (manifest_path_of repo (Identifier ref))) raw) ''Content-Type'' (d_MediaType desc))
                  [StatusOK, StatusCreated, StatusAccepted] s of
             (Inl e, s') \<Rightarrow> (Some e, s')
           | (Inr _, s') \<Rightarrow> (None, s')))"

section \<open>write.go: images, indexes, layers, tags\<close>

definition PullScope :: string where "PullScope = ''pull''"
definition PushScope :: string where "PushScope = ''push,pull''"
definition DeleteScope :: string where "DeleteScope = PushScope"
definition CatalogScope :: string where "CatalogScope = ''catalog''"

text \<open>
  The scopes of a mountable layer's source, each once, in the order of the map: sched is the order in
  which Go iterates over the set.
\<close>

definition mount_scopes :: "repository \<Rightarrow> push_layer list \<Rightarrow> string list" where
  "mount_scopes repo ls =
     remdups (concat (map (\<lambda>l.
       case pl_Reference l of
         None \<Rightarrow> []
       | Some r \<Rightarrow>
           if Repository_Name (Context r) \<noteq> Repository_Name repo \<and>
              Registry_Name (repo_Registry (Context r)) = Registry_Name (repo_Registry repo)
           then [Scope r PullScope] else []) ls))"

definition scopesForUploadingImage :: "(string list \<Rightarrow> string list) \<Rightarrow> repository \<Rightarrow> push_layer list \<Rightarrow> string list" where
  "scopesForUploadingImage sched repo ls = Repository_Scope repo PushScope # sched (mount_scopes repo ls)"

text \<open>
  The loop of Write over the layers: those to upload, in order, and the error with which it returns
  early if there is one.
\<close>

fun to_upload :: "v1_hash list \<Rightarrow> push_layer list \<Rightarrow> push_layer list \<times> go_error option" where
  "to_upload uploaded [] = ([], None)"
| "to_upload uploaded (l # ls) =
     (case l_MediaType (pl_before l) of
        Inl e \<Rightarrow> ([], Some e)
      | Inr mt \<Rightarrow>
          if \<not> IsDistributable mt then to_upload uploaded ls
          else
            (case l_Digest (pl_before l) of
               Inr h \<Rightarrow>
                 if h \<in> set uploaded then to_upload uploaded ls
                 else (case to_upload (h # uploaded) ls of (us, e) \<Rightarrow> (l # us, e))
             | Inl _ \<Rightarrow> (case to_upload uploaded ls of (us, e) \<Rightarrow> (l # us, e))))"

text \<open>Write after the session has been set up.\<close>

definition write_image ::
    "net_env \<Rightarrow> (push_layer list \<Rightarrow> push_layer list) \<Rightarrow> 's round_tripper \<Rightarrow> repository \<Rightarrow> reference \<Rightarrow> push_image \<Rightarrow> push_layer list \<Rightarrow>
     's \<Rightarrow> go_error option \<times> 's" where
  "write_image env sched rt repo ref img ls s =
     (let up = uploadOne env rt repo;
          commit = commitManifest (ne_codec env) rt repo (image_taggable (pi_after img)) ref
      in
      (case to_upload [] ls of
         (us, Some e) \<Rightarrow> (Some e, snd (run_group up (sched us) s))
       | (us, None) \<Rightarrow>
           (case partial_ConfigLayer (i_RawConfigFile (pi_before img)) of
              Inl _ \<Rightarrow>
                (case run_group up (sched us) s of
                   (Some e, s1) \<Rightarrow> (Some e, s1)
                 | (None, s1) \<Rightarrow>
                     (case partial_ConfigLayer (i_RawConfigFile (pi_after img)) of
                        Inl e \<Rightarrow> (Some e, s1)
                      | Inr l \<Rightarrow>
                          (case up (ordinary_layer None l) s1 of
                             (Some e, s2) \<Rightarrow> (Some e, s2)
                           | (None, s2) \<Rightarrow> commit s2)))
            | Inr l \<Rightarrow>
                (case run_group up (sched (us @ [ordinary_layer None l])) s of
                   (Some e, s1) \<Rightarrow> (Some e, s1)
                 | (None, s1) \<Rightarrow> commit s1))))"

record scheduler =
  sc_layers :: "push_layer list \<Rightarrow> push_layer list"
  sc_scopes :: "string list \<Rightarrow> string list"

text \<open>What the exported functions share: the options, a session with the scopes, the work.\<close>

definition with_session ::
    "net_env \<Rightarrow> 's round_tripper \<Rightarrow> registry \<Rightarrow> string list \<Rightarrow> 's remote_option list \<Rightarrow> ('s remote_options \<Rightarrow> session \<times> 's \<Rightarrow> 'r res \<times> session \<times> 's) \<Rightarrow>
     's \<Rightarrow> 'r res \<times> 's" where
  "with_session env dt reg scopes options work s =
     (case remote_makeOptions dt (RegistryStr reg) options of
        Inl e \<Rightarrow> (Inl e, s)
      | Inr o' \<Rightarrow>
          (case connect env reg o' scopes s of
             (Inl e, s1) \<Rightarrow> (Inl e, s1)
           | (Inr ses, s1) \<Rightarrow> (case work o' (ses, s1) of (r, _, s2) \<Rightarrow> (r, s2))))"

definition err_result :: "go_error option \<times> 's \<Rightarrow> unit res \<times> 's" where
  "err_result r = (case r of (Some e, s) \<Rightarrow> (Inl e, s) | (None, s) \<Rightarrow> (Inr (), s))"

definition remote_Write ::
    "net_env \<Rightarrow> scheduler \<Rightarrow> 's round_tripper \<Rightarrow> reference \<Rightarrow> push_image \<Rightarrow> 's remote_option list \<Rightarrow> 's \<Rightarrow> unit res \<times> 's" where
  "remote_Write env sch dt ref img options s =
     (let repo = Context ref in
      case pi_Layers img of
        Inl e \<Rightarrow> (Inl e, s)
      | Inr ls \<Rightarrow>
          with_session env dt (repo_Registry repo) (scopesForUploadingImage (sc_scopes sch) repo ls) options
            (\<lambda>o' st. err_result (write_image env (sc_layers sch) (session_transport env o') repo ref img ls st)) s)"

text \<open>
  writeIndex.  The images among the children are pushed by Write, with a session of its own, which is
  the argument wr on the state of the writer; the options are not passed on to nested indexes.
\<close>

fun write_children :: "('d \<Rightarrow> 's \<Rightarrow> go_error option \<times> 's) \<Rightarrow> 'd list \<Rightarrow> 's \<Rightarrow> go_error option \<times> 's" where
  "write_children f [] s = (None, s)"
| "write_children f (x # xs) s =
     (case f x s of (Some e, s1) \<Rightarrow> (Some e, s1) | (None, s1) \<Rightarrow> write_children f xs s1)"

text \<open>One round of the loop: the child by its descriptor, sub and img as the index gives them.\<close>

definition write_child ::
    "net_codec \<Rightarrow> 's round_tripper \<Rightarrow> repository \<Rightarrow> (v1_hash \<Rightarrow> (reference \<Rightarrow> 's \<Rightarrow> go_error option \<times> 's) res) \<Rightarrow>
     (v1_hash \<Rightarrow> (reference \<Rightarrow> 's \<Rightarrow> go_error option \<times> 's) res) \<Rightarrow> descriptor \<Rightarrow> 's \<Rightarrow> go_error option \<times> 's" where
  "write_child N rt repo sub img desc s =
     (let ref' = RefDigest (Repository_Digest repo (Hash_String (d_Digest desc))) in
      case checkExistingManifest N rt repo (d_Digest desc) (d_MediaType desc) s of
        (Inl e, s1) \<Rightarrow> (Some e, s1)
      | (Inr ex, s1) \<Rightarrow>
          if ex then (None, s1)
          else if IsIndex (d_MediaType desc) then
            (case sub (d_Digest desc) of Inl e \<Rightarrow> (Some e, s1) | Inr push \<Rightarrow> push ref' s1)
          else if IsImage (d_MediaType desc) then
            (case img (d_Digest desc) of Inl e \<Rightarrow> (Some e, s1) | Inr push \<Rightarrow> push ref' s1)
          else (None, s1))"

primrec writeIndex ::
    "net_codec \<Rightarrow> ('o list \<Rightarrow> reference \<Rightarrow> image \<Rightarrow> 's \<Rightarrow> go_error option \<times> 's) \<Rightarrow> 's round_tripper \<Rightarrow> repository \<Rightarrow>
     image_index \<Rightarrow> 'o list \<Rightarrow> reference \<Rightarrow> 's \<Rightarrow> go_error option \<times> 's" where
  "writeIndex N wr rt repo (ImageIndex mt dg sz im raw img sub ds) = (\<lambda>options ref s.
     (case im of
        Inl e \<Rightarrow> (Some e, s)
      | Inr index \<Rightarrow>
          (case write_children
                  (write_child N rt repo
                     (\<lambda>h. map_sum id (\<lambda>idx. writeIndex N wr rt repo idx []) (sub h))
                     (\<lambda>h. map_sum id (\<lambda>i ref'. wr options ref' i) (img h)))
                  (im_Manifests index) s of
             (Some e, s1) \<Rightarrow> (Some e, s1)
           | (None, s1) \<Rightarrow> commitManifest N rt repo (TagRaw raw (Some mt)) ref s1)))"

text \<open>Pushing an image in the midst of the state of a writer.\<close>

definition nested_Write ::
    "net_env \<Rightarrow> scheduler \<Rightarrow> 's round_tripper \<Rightarrow> 's remote_option list \<Rightarrow> reference \<Rightarrow> image \<Rightarrow> session \<times> 's \<Rightarrow> go_error option \<times> session \<times> 's" where
  "nested_Write env sch dt options ref img st =
     (case st of (ses, s) \<Rightarrow>
        (case remote_Write env sch dt ref (ordinary_image img) options s of
           (r, s') \<Rightarrow> ((case r of Inl e \<Rightarrow> Some e | Inr _ \<Rightarrow> None), ses, s')))"

definition WriteIndex ::
    "net_env \<Rightarrow> scheduler \<Rightarrow> 's round_tripper \<Rightarrow> reference \<Rightarrow> image_index \<Rightarrow> 's remote_option list \<Rightarrow> 's \<Rightarrow> unit res \<times> 's" where
  "WriteIndex env sch dt ref ii options =
     with_session env dt (repo_Registry (Context ref)) [Scope ref PushScope] options
       (\<lambda>o' st. err_result (writeIndex (ne_codec env) (nested_Write env sch dt) (session_transport env o') (Context ref) ii options ref st))"

definition WriteLayer ::
    "net_env \<Rightarrow> scheduler \<Rightarrow> 's round_tripper \<Rightarrow> repository \<Rightarrow> push_layer \<Rightarrow> 's remote_option list \<Rightarrow> 's \<Rightarrow> unit res \<times> 's" where
  "WriteLayer env sch dt repo l options =
     with_session env dt (repo_Registry repo) (scopesForUploadingImage (sc_scopes sch) repo [l]) options
       (\<lambda>o' st. err_result (uploadOne env (session_transport env o') repo l st))"

definition remote_Tag ::
    "net_env \<Rightarrow> 's round_tripper \<Rightarrow> tag \<Rightarrow> taggable \<Rightarrow> 's remote_option list \<Rightarrow> 's \<Rightarrow> unit res \<times> 's" where
  "remote_Tag env dt tg x options =
     with_session env dt (repo_Registry (Tag_Context tg)) [Tag_Scope tg PushScope] options
       (\<lambda>o' st. err_result (commitManifest (ne_codec env) (session_transport env o') (Tag_Context tg) x (RefTag tg) st))"

section \<open>delete.go, check.go\<close>

definition Delete :: "net_env \<Rightarrow> 's round_tripper \<Rightarrow> reference \<Rightarrow> 's remote_option list \<Rightarrow> 's \<Rightarrow> unit res \<times> 's" where
  "Delete env dt ref options =
     with_session env dt (repo_Registry (Context ref)) [Scope ref DeleteScope] options
       (\<lambda>o' st.
          (case do_checked (ne_codec env) (session_transport env o')
                  (new_request ''DELETE'' (w_url (Context ref) (manifest_path_of (Context ref) (Identifier ref))) [])
                  [StatusOK, StatusAccepted] st of
             (r, st') \<Rightarrow> (bnd r (\<lambda>_. Inr ()), st')))"

text \<open>
  CheckPushPermission uses the transport it is given without retries, and cancels the upload that it
  initiated in a goroutine of its own; cancel tells whether that goroutine gets to run.
\<close>

definition cancelUpload :: "(session \<times> 's) round_tripper \<Rightarrow> url \<Rightarrow> session \<times> 's \<Rightarrow> session \<times> 's" where
  "cancelUpload rt loc st = snd (client_Do rt (new_request ''DELETE'' loc []) st)"

definition CheckPushPermission ::
    "net_env \<Rightarrow> bool \<Rightarrow> 's round_tripper \<Rightarrow> reference \<Rightarrow> keychain \<Rightarrow> 's \<Rightarrow> go_error option \<times> 's" where
  "CheckPushPermission env cancel t ref kc s =
     (let repo = Context ref; reg = repo_Registry repo; N = ne_codec env in
      case kc (RegistryStr reg) of
        Inl e \<Rightarrow> (Some (ErrMsg (''resolving authorization for '' @ Registry_Name reg @ '' failed: '' @ error_text e)), s)
      | Inr auth \<Rightarrow>
          (case NewWithContext N (ne_version env) reg auth None t [Scope ref PushScope] s of
             (Inl e, s1) \<Rightarrow> (Some (ErrMsg (''creating push check transport for '' @ Registry_Name reg @ '' failed: '' @ error_text e)), s1)
           | (Inr ses, s1) \<Rightarrow>
               (case initiateUpload N (session_RoundTrip N t) repo '''' '''' (ses, s1) of
                  (Inl e, _, s2) \<Rightarrow> (Some e, s2)
                | (Inr None, _, s2) \<Rightarrow> (None, s2)
                | (Inr (Some loc), st2) \<Rightarrow>
                    (None, snd (if cancel then cancelUpload (session_RoundTrip N t) loc st2 else st2)))))"

end
