(* ===== verification/Registry_Client.thy ===== *)
theory Registry_Client
  imports Transport_Safety Remote_Write Registry_Server
begin

text \<open>
  The client of pkg/v1/remote against the registry of pkg/registry: what its requests do to the state
  of the registry, and that a pushed image arrives there.  A client relies on its transport only
  through the locale registry_transport, which is interpreted on the transports that the client
  builds around a registry.
\<close>

section \<open>Paths of the protocol\<close>

lemma join_with_append: "ps \<noteq> [] \<Longrightarrow> qs \<noteq> [] \<Longrightarrow> join_with c (ps @ qs) = join_with c ps @ c # join_with c qs"
proof (induction ps)
  case (Cons p ps)
  then show ?case by (cases "ps = []") (auto simp: join_with_Cons)
qed simp

lemma clean_plain: "es \<noteq> [] \<Longrightarrow> list_all plain_elem es \<Longrightarrow> path_clean (join_with (CHR ''/'') es) = join_with (CHR ''/'') es"
proof -
  assume ne: "es \<noteq> []" and pl: "list_all plain_elem es"
  obtain c r where j: "join_with (CHR ''/'') es = c # r" "c \<noteq> CHR ''/''" using join_head [OF ne pl] by blast
  have sp: "split_on (CHR ''/'') (join_with (CHR ''/'') es) = es"
    using ne pl plain_elem_no_slash by (intro split_join) (auto simp: list_all_iff)
  have "foldl (clean_step False) ds es = rev es @ ds" if "list_all plain_elem es" for ds es
    using that by (induction es arbitrary: ds) (auto simp: clean_step_def plain_elem_def)
  moreover have r: "is_rooted (join_with (CHR ''/'') es) = False" using j by (simp add: is_rooted_def)
  ultimately have "clean_elems (join_with (CHR ''/'') es) = es"
    using pl unfolding clean_elems_def sp r by simp
  with j show ?thesis by (simp add: path_clean_def is_rooted_def)
qed

lemma plain_words [simp]: "plain_elem ''v2''" "plain_elem ''blobs''" "plain_elem ''uploads''" "plain_elem ''manifests''"
  by (simp_all add: plain_elem_def unreserved_def is_alpha_def is_digit_def byte_def)

lemma plain_show_nat [simp]: "plain_elem (show_nat n)"
proof -
  have d: "is_digit (CHR ''.'') = False" by (simp add: is_digit_def)
  have "show_nat n \<noteq> ''.'' \<and> show_nat n \<noteq> ''..''" using show_nat_digits [of n] d by auto
  with show_nat_digits [of n] show ?thesis by (auto simp: plain_elem_def list_all_iff unreserved_def)
qed

definition plain_repo :: "string list \<Rightarrow> bool" where
  "plain_repo ns \<longleftrightarrow> ns \<noteq> [] \<and> list_all plain_elem ns"

lemma plain_names_ok: "plain_repo ns \<Longrightarrow> CHR ''/'' \<notin> set ident \<Longrightarrow> ident \<noteq> '''' \<Longrightarrow> names_ok ns ident"
  using plain_elem_no_slash by (auto simp: plain_repo_def names_ok_def list_all_iff)

lemma upload_location_plain:
  assumes "plain_repo ns" and "plain_elem ident"
  shows "''/'' @ path_join [''v2'', path_join ns, ''blobs/uploads'', ident] = slash_path (upload_elems ns ident)"
proof -
  have ns: "ns \<noteq> []" "list_all plain_elem ns" using assms(1) by (auto simp: plain_repo_def)
  have f: "filter (\<lambda>e. e \<noteq> '''') ns = ns" using ns(2) by (auto simp: list_all_iff plain_elem_def intro: filter_True)
  have jn: "path_join ns = join_with (CHR ''/'') ns" using ns f by (simp add: path_join_def clean_plain)
  have jne: "join_with (CHR ''/'') ns \<noteq> ''''" using join_head [OF ns] by auto
  have ide: "ident \<noteq> ''''" using assms(2) by (simp add: plain_elem_def)
  have j: "join_with (CHR ''/'') [''v2'', join_with (CHR ''/'') ns, ''blobs/uploads'', ident] = join_with (CHR ''/'') (upload_elems ns ident)"
    using ns(1) join_with_append [of ns "[''blobs'', ''uploads'', ident]" "CHR ''/''"]
    by (simp add: upload_elems_def join_with_Cons)
  have "path_clean (join_with (CHR ''/'') (upload_elems ns ident)) = join_with (CHR ''/'') (upload_elems ns ident)"
    using ns assms(2) by (intro clean_plain) (auto simp: upload_elems_def)
  moreover have "path_join [''v2'', join_with (CHR ''/'') ns, ''blobs/uploads'', ident] =
      path_clean (join_with (CHR ''/'') [''v2'', join_with (CHR ''/'') ns, ''blobs/uploads'', ident])"
    using jne ide by (simp add: path_join_def del: join_with.simps)
  ultimately show ?thesis unfolding jn j by (simp add: slash_path_def)
qed

lemma repo_paths:
  assumes "ns \<noteq> []"
  shows "''/v2/'' @ join_with (CHR ''/'') ns @ ''/blobs/'' @ d = slash_path (blob_elems ns d)"
    and "''/v2/'' @ join_with (CHR ''/'') ns @ ''/manifests/'' @ d = slash_path (manifest_elems ns d)"
    and "''/v2/'' @ join_with (CHR ''/'') ns @ ''/blobs/uploads/'' = slash_path (''v2'' # ns @ [''blobs'', ''uploads'', ''''])"
  using assms join_with_append [of ns "[''blobs'', d]" "CHR ''/''"] join_with_append [of ns "[''manifests'', d]" "CHR ''/''"]
    join_with_append [of ns "[''blobs'', ''uploads'', '''']" "CHR ''/''"]
  by (simp_all add: slash_path_def blob_elems_def manifest_elems_def join_with_Cons)

section \<open>The answers of the registry\<close>

text \<open>What the registry does with the requests of a client, for any number it draws and any host.\<close>

lemma root_blob:
  assumes "names_ok ns d" and "u_Path (rq_URL req) = slash_path (blob_elems ns d)"
    and "rq_Method req = ''HEAD'' \<or> rq_Method req = ''GET''"
  shows "\<exists>resp. registry_root enc E rnd req r = (resp, r) \<and>
     (case bs_contents (rg_blobs r) d of
        None \<Rightarrow> rs_StatusCode resp = StatusNotFound
      | Some c \<Rightarrow> rs_StatusCode resp = StatusOK \<and>
          rs_Header resp = [(''Content-Length'', show_nat (length c)), (''Docker-Content-Digest'', d)] \<and>
          rs_Body resp = (if rq_Method req = ''GET'' then c else []))"
proof -
  have ns: "\<not> length ns + 3 < 4" "\<not> length ns + 3 < 3" using assms(1) by (cases ns; auto simp: names_ok_def)+
  have b: "isBlob req"
    using ns by (simp add: isBlob_def assms(2) blob_path [OF assms(1)] blob_elems_end)
  show ?thesis
    using assms(3) ns
    by (cases "bs_contents (rg_blobs r) d")
       (auto simp: registry_root_def registry_v2_def b blobs_handle_def assms(2) blob_path [OF assms(1)] blob_elems_end
          respond_def reg_fail_def regError_Write_def)
qed

lemma root_start_upload:
  assumes "plain_repo ns" and "u_Path (rq_URL req) = slash_path (''v2'' # ns @ [''blobs'', ''uploads'', ''''])"
    and "rq_Method req = ''POST''" and "get_first (u_Query (rq_URL req)) ''digest'' = ''''"
  shows "\<exists>resp. registry_root enc E rnd req r = (resp, r) \<and> rs_StatusCode resp = StatusAccepted \<and>
     get_first (rs_Header resp) ''Location'' = slash_path (upload_elems ns (show_nat rnd))"
proof -
  have ns: "ns \<noteq> []" "list_all plain_elem ns" using assms(1) by (auto simp: plain_repo_def)
  have "tl (split_on (CHR ''/'') (slash_path (''v2'' # ns @ [''blobs'', ''uploads'', '''']))) = ''v2'' # ns @ [''blobs'', ''uploads'', '''']"
    unfolding slash_path_def using ns plain_elem_no_slash
    by (simp del: join_with.simps, subst split_join) (auto simp: list_all_iff)
  then have p: "path_elems (slash_path (''v2'' # ns @ [''blobs'', ''uploads'', ''''])) = ''v2'' # ns @ [''blobs'', ''uploads'']"
    by (simp add: path_elems_def butlast_append)
  have len: "length (''v2'' # ns @ [''blobs'', ''uploads'']) = length ns + 3" by simp
  have e: "elem_from_end (''v2'' # ns @ [''blobs'', ''uploads'']) (Suc 0) = ''uploads''"
    "elem_from_end (''v2'' # ns @ [''blobs'', ''uploads'']) 2 = ''blobs''"
    by (simp_all add: elem_from_end_def nth_append)
  have n: "\<not> length ns + 3 < 4" using ns(1) by (cases ns) auto
  have b: "isBlob req" using n by (simp add: isBlob_def assms(2) p e)
  have loc: "upload_location (''v2'' # ns @ [''blobs'', ''uploads'']) 2 (show_nat rnd) = slash_path (upload_elems ns (show_nat rnd))"
    using upload_location_plain [OF assms(1), of "show_nat rnd"] by (simp add: upload_location_def)
  show ?thesis
    using n by (simp add: registry_root_def registry_v2_def b blobs_handle_def assms(2-4) p e respond_def loc)
qed

lemma root_patch:
  assumes "plain_repo ns" and "plain_elem ident" and "u_Path (rq_URL req) = slash_path (upload_elems ns ident)"
    and "rq_Method req = ''PATCH''" and "get_first (rq_Header req) ''Content-Range'' = ''''"
    and "bs_uploads (rg_blobs r) ident = None"
  shows "\<exists>resp. registry_root enc E rnd req r =
       (resp, r\<lparr>rg_blobs := (rg_blobs r)\<lparr>bs_uploads := (bs_uploads (rg_blobs r))(ident \<mapsto> rq_Body req)\<rparr>\<rparr>) \<and>
     rs_StatusCode resp = StatusNoContent \<and> get_first (rs_Header resp) ''Location'' = slash_path (upload_elems ns ident)"
proof -
  have nm: "names_ok ns ident"
    using assms(1,2) plain_elem_no_slash by (intro plain_names_ok) (auto simp: plain_elem_def)
  have b: "isBlob req"
    by (simp add: isBlob_def assms(3) upload_path [OF nm] upload_elems_end) (simp add: upload_elems_def elem_from_end_def nth_append)
  have loc: "upload_location (upload_elems ns ident) 3 ident = slash_path (upload_elems ns ident)"
    using upload_location_plain [OF assms(1,2)] by (simp add: upload_location_def upload_elems_def)
  show ?thesis
    by (simp add: registry_root_def registry_v2_def b blobs_handle_def assms(3-6) upload_path [OF nm] upload_elems_end respond_def loc Let_def)
qed

lemma root_commit:
  assumes "names_ok ns ident" and "u_Path (rq_URL req) = slash_path (upload_elems ns ident)"
    and "rq_Method req = ''PUT''" and "get_first (u_Query (rq_URL req)) ''digest'' = sha_string c" and "rq_Body req = []"
    and "bs_uploads (rg_blobs r) ident = Some c"
  shows "\<exists>resp. registry_root enc E rnd req r =
       (resp, r\<lparr>rg_blobs := (rg_blobs r)\<lparr>bs_contents := (bs_contents (rg_blobs r))(sha_string c \<mapsto> c),
                                         bs_uploads := (bs_uploads (rg_blobs r))(ident := None)\<rparr>\<rparr>) \<and>
     rs_StatusCode resp = StatusCreated"
proof -
  have b: "isBlob req"
    by (simp add: isBlob_def assms(2) upload_path [OF assms(1)] upload_elems_end) (simp add: upload_elems_def elem_from_end_def nth_append)
  have "sha_string c \<noteq> ''''" by (simp add: sha_string_def)
  then show ?thesis
    by (simp add: registry_root_def registry_v2_def b blobs_handle_def assms upload_path [OF assms(1)] upload_elems_end respond_def Let_def)
qed

lemma manifest_request:
  assumes "names_ok ns ident" and "u_Path (rq_URL req) = slash_path (manifest_elems ns ident)"
  shows "isManifest req" and "\<not> isBlob req"
proof -
  have ns: "\<not> length ns + 3 < 4" "\<not> length ns + 3 < 3" using assms(1) by (cases ns; auto simp: names_ok_def)+
  have l2: "elem_from_end (manifest_elems ns ident) 2 = ''manifests''"
    by (simp add: manifest_elems_def elem_from_end_def nth_append)
  show "isManifest req" using ns by (simp add: isManifest_def assms(2) manifest_path [OF assms(1)] manifest_elems_end l2)
  have "path_elems (slash_path (manifest_elems ns ident)) = manifest_elems ns ident"
    using assms(1) by (intro path_elems_slash) (auto simp: names_ok_def plain_elems_def manifest_elems_def)
  then show "\<not> isBlob req" by (simp add: isBlob_def assms(2) l2 manifest_elems_end)
qed

text \<open>The handler looks at the method, the path, the body and the content type only.\<close>

lemma manifests_handle_cong:
  assumes "rq_Method a = rq_Method b" "u_Path (rq_URL a) = u_Path (rq_URL b)" "rq_Body a = rq_Body b"
    "get_first (rq_Header a) ''Content-Type'' = get_first (rq_Header b) ''Content-Type''"
  shows "manifests_handle E a m = manifests_handle E b m"
  unfolding manifests_handle_def assms ..

lemma root_put_manifest:
  assumes "names_ok ns ident" and "u_Path (rq_URL req) = slash_path (manifest_elems ns ident)" and "rq_Method req = ''PUT''"
    and "manifest_accepted E (rg_manifests r) ns (get_first (rq_Header req) ''Content-Type'') (rq_Body req)"
  defines "mf \<equiv> \<lparr>rm_contentType = get_first (rq_Header req) ''Content-Type'', rm_blob = rq_Body req\<rparr>"
  shows "\<exists>resp m'. registry_root enc E rnd req r = (resp, r\<lparr>rg_manifests := m'\<rparr>) \<and> rs_StatusCode resp = StatusCreated \<and>
     lookup_manifest m' ns ident = Some mf \<and> lookup_manifest m' ns (sha_string (rq_Body req)) = Some mf \<and>
     (\<forall>ns' k. join_with (CHR ''/'') ns' \<noteq> join_with (CHR ''/'') ns \<or> (k \<noteq> ident \<and> k \<noteq> sha_string (rq_Body req)) \<longrightarrow>
        lookup_manifest m' ns' k = lookup_manifest (rg_manifests r) ns' k)"
proof -
  let ?ty = "get_first (rq_Header req) ''Content-Type''" and ?b = "rq_Body req" and ?m = "rg_manifests r"
  let ?repo = "join_with (CHR ''/'') ns"
  define c where "c = (case ?m ?repo of Some c \<Rightarrow> c | None \<Rightarrow> Map.empty)"
  have h: "manifests_handle E req ?m = manifests_handle E (put_manifest ns ident ?ty ?b) ?m"
    by (rule manifests_handle_cong) (simp_all add: put_manifest_def new_request_def http_url_def assms(2,3))
  obtain status m' where p: "manifests_handle E (put_manifest ns ident ?ty ?b) ?m =
       (respond StatusCreated [(''Docker-Content-Digest'', sha_string ?b)] [], m')"
     "m' = ?m(?repo \<mapsto> c(ident \<mapsto> mf, sha_string ?b \<mapsto> mf))"
    using put_manifest_handle [OF assms(1), of E ?ty ?b ?m, folded c_def] assms(4) unfolding mf_def by auto
  have l: "lookup_manifest ?m ns' k = c k" if "join_with (CHR ''/'') ns' = ?repo" for ns' k
    using that by (auto simp: lookup_manifest_def c_def split: option.splits)
  have a: "registry_root enc E rnd req r =
      (\<lparr>rs_StatusCode = StatusCreated, rs_Header = [(''Docker-Content-Digest'', sha_string ?b)], rs_Body = []\<rparr>, r\<lparr>rg_manifests := m'\<rparr>)"
    using manifest_request [OF assms(1,2)] by (simp add: registry_root_def registry_v2_def h p(1) respond_def)
  have o': "lookup_manifest m' ns' k = lookup_manifest ?m ns' k"
    if "join_with (CHR ''/'') ns' \<noteq> ?repo \<or> (k \<noteq> ident \<and> k \<noteq> sha_string ?b)" for ns' k
    using that l [of ns' k] by (cases "join_with (CHR ''/'') ns' = ?repo") (auto simp: p(2) lookup_manifest_def)
  have l2: "lookup_manifest m' ns ident = Some mf" "lookup_manifest m' ns (sha_string ?b) = Some mf"
    by (simp_all add: p(2) lookup_manifest_def)
  show ?thesis
    by (rule exI, rule exI, intro conjI allI impI, rule a, simp, rule l2(1), rule l2(2), rule o', assumption)
qed

lemma root_manifest:
  assumes "names_ok ns ident" and "u_Path (rq_URL req) = slash_path (manifest_elems ns ident)"
    and "rq_Method req = ''GET'' \<or> rq_Method req = ''HEAD''"
  shows "\<exists>resp. registry_root enc E rnd req r = (resp, r) \<and>
     (case lookup_manifest (rg_manifests r) ns ident of
        None \<Rightarrow> rs_StatusCode resp = StatusNotFound
      | Some mf \<Rightarrow> rs_StatusCode resp = StatusOK \<and> rs_Header resp = manifest_headers mf \<and>
          rs_Body resp = (if rq_Method req = ''GET'' then rm_blob mf else []))"
proof -
  have t: "take (length (manifest_elems ns ident) - 3) (drop 1 (manifest_elems ns ident)) = ns"
    "elem_from_end (manifest_elems ns ident) 1 = ident"
    by (simp_all add: manifest_elems_end)
  have m: "manifests_handle E req (rg_manifests r) =
    (case lookup_manifest (rg_manifests r) ns ident of
       Some mf \<Rightarrow> (respond StatusOK (manifest_headers mf) (if rq_Method req = ''GET'' then rm_blob mf else []), rg_manifests r)
     | None \<Rightarrow> (if rg_manifests r (join_with (CHR ''/'') ns) = None then reg_fail StatusNotFound ''NAME_UNKNOWN'' ''Unknown name''
               else reg_fail StatusNotFound ''MANIFEST_UNKNOWN'' ''Unknown manifest'', rg_manifests r))"
    using assms(3) unfolding manifests_handle_def Let_def assms(2) manifest_path [OF assms(1)] t
    by (auto simp: lookup_manifest_def split: option.splits)
  show ?thesis
    using manifest_request [OF assms(1,2)]
    by (cases "lookup_manifest (rg_manifests r) ns ident")
       (auto simp: registry_root_def registry_v2_def m respond_def reg_fail_def regError_Write_def)
qed

lemma root_ping:
  assumes "u_Path (rq_URL req) = ''/v2/''"
  shows "\<exists>resp. registry_root enc E rnd req r = (resp, r) \<and> rs_StatusCode resp = StatusOK"
  by (simp add: registry_root_def registry_v2_def isBlob_def isManifest_def assms path_elems_def respond_def Let_def)

lemma blobs_handle_status:
  "blobs_handle rnd req b = (res, b') \<Longrightarrow> status_of res \<in> {200, 201, 202, 204, 400, 404, 416}"
  by (auto simp: blobs_handle_def Let_def reg_fail_def respond_def status_defs split: if_splits option.splits prod.splits)

lemma manifests_handle_status:
  "manifests_handle E req m = (res, m') \<Longrightarrow> status_of res \<in> {200, 201, 400, 404}"
  by (auto simp: manifests_handle_def Let_def reg_fail_def respond_def status_defs split: if_splits option.splits sum.splits)

lemma registry_no_redirect:
  assumes "registry_root enc E rnd req r = (resp, r')"
  shows "\<not> is_redirect resp"
proof -
  obtain h res r1 where v: "registry_v2 E rnd req r = (h, res, r1)" by (rule prod_cases3)
  have "status_of res \<in> {200, 201, 202, 204, 400, 404, 416}"
    using v blobs_handle_status manifests_handle_status
    by (fastforce simp: registry_v2_def Let_def reg_fail_def respond_def status_defs split: if_splits prod.splits)
  moreover have "rs_StatusCode resp = status_of res"
    using assms by (cases res) (auto simp: registry_root_def v regError_Write_def)
  ultimately show ?thesis by (auto simp: is_redirect_def)
qed

section \<open>Clients of a registry\<close>

text \<open>
  What the functions of pkg/v1/remote rely on of a transport: requests to the host of the registry are
  answered by a registry, whose state is part of the state of the world.
\<close>

locale registry_transport =
  fixes rt :: "'s round_tripper" and enc :: "(string \<times> string) list \<Rightarrow> bytes" and E :: codec
    and view :: "'s \<Rightarrow> reg_state" and ok :: "'s \<Rightarrow> bool" and host :: string
  assumes serves: "ok s \<Longrightarrow> u_Host (rq_URL req) = host \<Longrightarrow> rq_Host req = host \<Longrightarrow>
      \<exists>rnd resp q s'. rt req s = (Inr resp, q, s') \<and> ok s' \<and> registry_root enc E rnd req (view s) = (resp, view s') \<and>
        u_Host (rq_URL q) = host"
begin

lemma do_checked_ok:
  assumes "ok s" and "u_Host (rq_URL req) = host" and "rq_Host req = host"
    and "\<And>rnd. \<exists>resp r'. registry_root enc E rnd req (view s) = (resp, r') \<and> rs_StatusCode resp \<in> set codes \<and> P rnd resp r'"
  shows "\<exists>rnd resp q s'. do_checked N rt req codes s = (Inr (resp, q), s') \<and> ok s' \<and> P rnd resp (view s') \<and> u_Host (rq_URL q) = host"
proof -
  obtain rnd resp q s' where r: "rt req s = (Inr resp, q, s')" "ok s'" "registry_root enc E rnd req (view s) = (resp, view s')"
    "u_Host (rq_URL q) = host"
    using serves [OF assms(1-3)] by blast
  have c: "client_Do rt req s = (Inr (resp, q), s')"
    using client_Do_direct [where rt = rt, OF r(1)] registry_no_redirect [OF r(3)] by blast
  from assms(4) [of rnd] r(3) have "rs_StatusCode resp \<in> set codes" "P rnd resp (view s')" by auto
  with c r(2,4) show ?thesis by (auto simp: do_checked_def bnd_def CheckError_def)
qed

end

definition repo_at :: "repository \<Rightarrow> string \<Rightarrow> string list \<Rightarrow> bool" where
  "repo_at repo host ns \<longleftrightarrow>
     RegistryStr (repo_Registry repo) = host \<and> RepositoryStr repo = join_with (CHR ''/'') ns \<and> plain_repo ns"

lemma repo_at_url [simp]:
  assumes "repo_at repo host ns"
  shows "u_Host (w_url repo p) = host" "u_Path (w_url repo p) = p" "u_Query (w_url repo p) = []"
  using assms by (simp_all add: repo_at_def w_url_def)

lemma new_request_sel [simp]:
  "rq_Method (new_request m u b) = m" "rq_URL (new_request m u b) = u" "rq_Host (new_request m u b) = u_Host u"
  "rq_Body (new_request m u b) = b" "rq_Header (new_request m u b) = []"
  "rq_Method (new_stream_request m u b) = m" "rq_URL (new_stream_request m u b) = u"
  "rq_Host (new_stream_request m u b) = u_Host u" "rq_Body (new_stream_request m u b) = b" "rq_Header (new_stream_request m u b) = []"
  by (simp_all add: new_request_def new_stream_request_def)

lemma with_header_sel2 [simp]:
  "rq_Method (with_header req k v) = rq_Method req" "rq_Body (with_header req k v) = rq_Body req"
  "get_first (rq_Header (with_header req k v)) k' = (if k' = k then v else get_first (rq_Header req) k')"
  by (simp_all add: with_header_def)

lemma hash_names: "plain_repo ns \<Longrightarrow> names_ok ns (Hash_String (sha b))"
  using sha_string_names [of ns b] by (auto simp: plain_repo_def sha_string_hash list_all_iff plain_elem_no_slash)

context registry_transport
begin

text \<open>A blob that the registry has is found, and one that it lacks is not, without changing anything.\<close>

lemma check_blob:
  assumes "repo_at repo host ns" and "ok s" and "names_ok ns (Hash_String h)"
  shows "\<exists>s'. checkExistingBlob N rt repo h s = (Inr (bs_contents (rg_blobs (view s)) (Hash_String h) \<noteq> None), s') \<and> ok s' \<and> view s' = view s"
proof -
  let ?req = "new_request ''HEAD'' (w_url repo (blob_path_of repo h)) []"
  let ?P = "\<lambda>(rnd::nat) resp r'. r' = view s \<and> (rs_StatusCode resp = StatusOK \<longleftrightarrow> bs_contents (rg_blobs (view s)) (Hash_String h) \<noteq> None)"
  have p: "u_Path (rq_URL ?req) = slash_path (blob_elems ns (Hash_String h))"
    using assms(1) repo_paths(1) [of ns "Hash_String h"] by (simp add: blob_path_of_def repo_at_def plain_repo_def w_url_def)
  have "\<exists>resp r'. registry_root enc E rnd ?req (view s) = (resp, r') \<and> rs_StatusCode resp \<in> set [StatusOK, StatusNotFound] \<and> ?P rnd resp r'" for rnd
    using root_blob [OF assms(3) p, of enc E rnd "view s"] by (auto simp: status_defs split: option.splits)
  from do_checked_ok [where P = ?P, OF assms(2) _ _ this, of N] assms(1) show ?thesis
    by (auto simp: checkExistingBlob_def)
qed

text \<open>An upload of a content whose digest is known at the end.\<close>

lemma try_upload:
  assumes "repo_at repo host ns" and "ok s" and "bs_uploads (rg_blobs (view s)) = Map.empty"
    and "is_ok (l_MediaType (pl_before l))" and "l_Compressed (pl_before l) = Inr b" and "l_Digest (pl_after l) = Inr (sha b)"
  shows "\<exists>s'. tryUpload N rt repo l from' mount (False, s) = (None, True, s') \<and> ok s' \<and>
     view s' = (view s)\<lparr>rg_blobs := (rg_blobs (view s))\<lparr>bs_contents := (bs_contents (rg_blobs (view s)))(sha_string b \<mapsto> b)\<rparr>\<rparr>"
proof -
  have ns: "plain_repo ns" "ns \<noteq> []" using assms(1) by (auto simp: repo_at_def plain_repo_def)
  let ?q = "if mount \<noteq> '''' \<and> from' \<noteq> '''' then [(''mount'', mount), (''from'', from')] else []"
  let ?u = "(w_url repo (''/v2/'' @ RepositoryStr repo @ ''/blobs/uploads/''))\<lparr>u_Query := ?q\<rparr>"
  let ?post = "with_header (new_request ''POST'' ?u []) ''Content-Type'' ''application/json''"
  have pp: "u_Path (rq_URL ?post) = slash_path (''v2'' # ns @ [''blobs'', ''uploads'', ''''])"
    using assms(1) repo_paths(3) [of ns] by (simp add: repo_at_def plain_repo_def w_url_def if_distrib)
  have pd: "get_first (u_Query (rq_URL ?post)) ''digest'' = ''''" by simp
  have ph: "u_Host (rq_URL ?post) = host" "rq_Host ?post = host" using assms(1) by (simp_all add: repo_at_def w_url_def)
  let ?P1 = "\<lambda>rnd resp r'. r' = view s \<and> rs_StatusCode resp = StatusAccepted \<and>
               get_first (rs_Header resp) ''Location'' = slash_path (upload_elems ns (show_nat rnd))"
  have "\<exists>resp r'. registry_root enc E rnd ?post (view s) = (resp, r') \<and> rs_StatusCode resp \<in> set [StatusCreated, StatusAccepted] \<and> ?P1 rnd resp r'" for rnd
    using root_start_upload [OF ns(1) pp _ pd, of enc E rnd "view s"] by auto
  from do_checked_ok [where P = ?P1, OF assms(2) ph this, of N] obtain rnd resp q s1 where
    1: "do_checked N rt ?post [StatusCreated, StatusAccepted] s = (Inr (resp, q), s1)" "ok s1" "view s1 = view s"
      "rs_StatusCode resp = StatusAccepted" "get_first (rs_Header resp) ''Location'' = slash_path (upload_elems ns (show_nat rnd))"
      "u_Host (rq_URL q) = host" by auto
  let ?id = "show_nat rnd" and ?es = "upload_elems ns (show_nat rnd)"
  have es: "?es \<noteq> []" "list_all plain_elem ?es" using ns(1) by (auto simp: upload_elems_def plain_repo_def)
  have nl: "nextLocation (resp', q') = Inr \<lparr>u_Scheme = u_Scheme (rq_URL q'), u_Host = u_Host (rq_URL q'), u_Path = slash_path ?es, u_Query = []\<rparr>"
    if "get_first (rs_Header resp') ''Location'' = slash_path ?es" for resp' q'
    using that url_resolve_plain [OF es, of "rq_URL q'"] by (simp add: nextLocation_def Let_def) (simp add: slash_path_def)
  let ?loc = "\<lparr>u_Scheme = u_Scheme (rq_URL q), u_Host = host, u_Path = slash_path ?es, u_Query = []\<rparr>"
  have init: "initiateUpload N rt repo from' mount s = (Inr (Some ?loc), s1)"
    using 1 nl [OF 1(5), of q] by (simp add: initiateUpload_def Let_def status_defs del: append_Cons)
  let ?patch = "new_stream_request ''PATCH'' ?loc b"
  let ?b1 = "(rg_blobs (view s))\<lparr>bs_uploads := (bs_uploads (rg_blobs (view s)))(?id \<mapsto> b)\<rparr>"
  let ?P2 = "\<lambda>(n::nat) resp r'. r' = (view s)\<lparr>rg_blobs := ?b1\<rparr> \<and> get_first (rs_Header resp) ''Location'' = slash_path ?es"
  have ph2: "u_Host (rq_URL ?patch) = host" "rq_Host ?patch = host" by simp_all
  have "\<exists>resp r'. registry_root enc E n ?patch (view s1) = (resp, r') \<and>
      rs_StatusCode resp \<in> set [StatusNoContent, StatusAccepted, StatusCreated] \<and> ?P2 n resp r'" for n
    using root_patch [OF ns(1), of ?id ?patch "view s" enc E n] assms(3) 1(3) by auto
  from do_checked_ok [where P = ?P2, OF 1(2) ph2 this, of N] obtain resp2 q2 s2 where
    2: "do_checked N rt ?patch [StatusNoContent, StatusAccepted, StatusCreated] s1 = (Inr (resp2, q2), s2)" "ok s2"
      "view s2 = (view s)\<lparr>rg_blobs := ?b1\<rparr>" "get_first (rs_Header resp2) ''Location'' = slash_path ?es" "u_Host (rq_URL q2) = host" by auto
  let ?loc2 = "\<lparr>u_Scheme = u_Scheme (rq_URL q2), u_Host = host, u_Path = slash_path ?es, u_Query = []\<rparr>"
  have str: "streamBlob N rt b ?loc s1 = (Inr ?loc2, s2)"
    using 2 nl [OF 2(4), of q2] by (simp add: streamBlob_def)
  let ?put = "new_request ''PUT'' (?loc2\<lparr>u_Query := set_param (u_Query ?loc2) ''digest'' (Hash_String (sha b))\<rparr>) []"
  have nm: "names_ok ns ?id"
    using ns(1) plain_elem_no_slash [OF plain_show_nat] by (intro plain_names_ok) auto
  let ?r3 = "(view s)\<lparr>rg_blobs := (rg_blobs (view s))\<lparr>bs_contents := (bs_contents (rg_blobs (view s)))(sha_string b \<mapsto> b)\<rparr>\<rparr>"
  have fin: "(view s2)\<lparr>rg_blobs := (rg_blobs (view s2))\<lparr>bs_contents := (bs_contents (rg_blobs (view s2)))(sha_string b \<mapsto> b),
                                         bs_uploads := (bs_uploads (rg_blobs (view s2)))(?id := None)\<rparr>\<rparr> = ?r3"
    using assms(3) by (simp add: 2(3))
  have up2: "bs_uploads (rg_blobs (view s2)) ?id = Some b" by (simp add: 2(3))
  have "\<exists>resp r'. registry_root enc E n ?put (view s2) = (resp, r') \<and> rs_StatusCode resp \<in> set [StatusCreated] \<and> r' = ?r3" for n
    using root_commit [OF nm, of ?put b "view s2" enc E n] up2 fin by (auto simp: sha_string_hash)
  from do_checked_ok [where P = "\<lambda>_ _ r'. r' = ?r3", OF 2(2) _ _ this, of N] obtain resp3 q3 s3 where
    3: "do_checked N rt ?put [StatusCreated] s2 = (Inr (resp3, q3), s3)" "ok s3" "view s3 = ?r3" by auto
  then have com: "commitBlob N rt ?loc2 (Hash_String (sha b)) s2 = (Inr (), s3)" by (simp add: commitBlob_def)
  from assms(4) obtain mt where "l_MediaType (pl_before l) = Inr mt" by (auto simp: is_ok_iff)
  then show ?thesis using init str com 3 assms(5,6) by (simp add: tryUpload_def)
qed

end

section \<open>Pushing layers and images\<close>

definition content_of :: "push_layer \<Rightarrow> bytes" where
  "content_of l = (case l_Compressed (pl_before l) of Inr b \<Rightarrow> b | Inl _ \<Rightarrow> [])"

text \<open>
  A layer that can be opened once and, when it has been read, tells the digest of its content; a
  digest told before is the same one.
\<close>

definition pushable :: "push_layer \<Rightarrow> bool" where
  "pushable l \<longleftrightarrow>
     is_ok (l_MediaType (pl_before l)) \<and> l_Compressed (pl_before l) = Inr (content_of l) \<and>
     l_Digest (pl_after l) = Inr (sha (content_of l)) \<and>
     (case l_Digest (pl_before l) of Inl _ \<Rightarrow> True | Inr h \<Rightarrow> h = sha (content_of l))"

definition blobs_grown :: "bytes list \<Rightarrow> reg_state \<Rightarrow> reg_state \<Rightarrow> bool" where
  "blobs_grown bs r r' \<longleftrightarrow>
     rg_manifests r' = rg_manifests r \<and> bs_uploads (rg_blobs r') = Map.empty \<and>
     (\<forall>b\<in>set bs. bs_contents (rg_blobs r') (sha_string b) \<noteq> None) \<and>
     (\<forall>d. bs_contents (rg_blobs r') d = bs_contents (rg_blobs r) d \<or>
          (\<exists>b\<in>set bs. d = sha_string b \<and> bs_contents (rg_blobs r') d = Some b))"

lemma blobs_grown_trans:
  assumes "blobs_grown as r r1" and "blobs_grown bs r1 r2"
  shows "blobs_grown (as @ bs) r r2"
proof -
  have "bs_contents (rg_blobs r2) (sha_string b) \<noteq> None" if "b \<in> set as" for b
  proof -
    have "bs_contents (rg_blobs r1) (sha_string b) \<noteq> None" using assms(1) that by (simp add: blobs_grown_def)
    with assms(2) show ?thesis by (force simp: blobs_grown_def)
  qed
  moreover have "bs_contents (rg_blobs r2) d = bs_contents (rg_blobs r) d \<or>
      (\<exists>b\<in>set (as @ bs). d = sha_string b \<and> bs_contents (rg_blobs r2) d = Some b)" for d
    using assms unfolding blobs_grown_def by (metis UnCI set_append)
  ultimately show ?thesis using assms by (auto simp: blobs_grown_def)
qed

context registry_transport
begin

lemma upload_one:
  assumes "repo_at repo host ns" and "ok s" and "bs_uploads (rg_blobs (view s)) = Map.empty" and "pushable l"
  shows "\<exists>s'. uploadOne env rt repo l s = (None, s') \<and> ok s' \<and> blobs_grown [content_of l] (view s) (view s')"
proof -
  let ?b = "content_of l"
  have p: "is_ok (l_MediaType (pl_before l))" "l_Compressed (pl_before l) = Inr ?b" "l_Digest (pl_after l) = Inr (sha ?b)"
    using assms(4) by (auto simp: pushable_def)
  have ns: "names_ok ns (Hash_String (sha ?b))" using assms(1) by (intro hash_names) (simp add: repo_at_def)
  have up: "\<exists>s'. (case Retry (ne_rnd env) (tryUpload (ne_codec env) rt repo l f mount) IsTemporary upload_backoff (False, s1) of
        (err, _, s2) \<Rightarrow> (err, s2)) = (None, s') \<and> ok s' \<and> blobs_grown [?b] (view s1) (view s')"
    if s1: "ok s1" "view s1 = view s" for f mount s1
  proof -
    obtain s2 where t: "tryUpload (ne_codec env) rt repo l f mount (False, s1) = (None, True, s2)" "ok s2"
      "view s2 = (view s1)\<lparr>rg_blobs := (rg_blobs (view s1))\<lparr>bs_contents := (bs_contents (rg_blobs (view s1)))(sha_string ?b \<mapsto> ?b)\<rparr>\<rparr>"
      using try_upload [OF assms(1) s1(1) _ p] assms(3) s1(2) by metis
    have "Retry (ne_rnd env) (tryUpload (ne_codec env) rt repo l f mount) IsTemporary upload_backoff (False, s1) = (None, True, s2)"
      by (rule Retry_first) (simp_all add: t upload_backoff_def)
    then show ?thesis using t(2,3) assms(3) s1(2) by (auto simp: blobs_grown_def)
  qed
  show ?thesis
  proof (cases "l_Digest (pl_before l)")
    case (Inl e)
    with up [OF assms(2)] show ?thesis by (simp add: uploadOne_def Let_def)
  next
    case (Inr h)
    with assms(4) have h: "h = sha ?b" by (simp add: pushable_def)
    obtain s1 where c: "checkExistingBlob (ne_codec env) rt repo h s =
        (Inr (bs_contents (rg_blobs (view s)) (Hash_String h) \<noteq> None), s1)" "ok s1" "view s1 = view s"
      using check_blob [OF assms(1,2), of h] ns h by blast
    show ?thesis
    proof (cases "bs_contents (rg_blobs (view s)) (Hash_String h) = None")
      case True
      with Inr c up [OF c(2,3)] show ?thesis by (simp add: uploadOne_def Let_def)
    next
      case False
      with Inr c assms(3) show ?thesis by (auto simp: uploadOne_def Let_def blobs_grown_def h sha_string_hash)
    qed
  qed
qed

lemma upload_group:
  assumes "repo_at repo host ns" and "list_all pushable ls"
  shows "ok s \<Longrightarrow> bs_uploads (rg_blobs (view s)) = Map.empty \<Longrightarrow>
     \<exists>s'. run_group (uploadOne env rt repo) ls s = (None, s') \<and> ok s' \<and> blobs_grown (map content_of ls) (view s) (view s')"
  using assms(2)
proof (induction ls arbitrary: s)
  case Nil
  then show ?case by (simp add: blobs_grown_def)
next
  case (Cons l ls)
  obtain s1 where 1: "uploadOne env rt repo l s = (None, s1)" "ok s1" "blobs_grown [content_of l] (view s) (view s1)"
    using upload_one [OF assms(1) Cons.prems(1,2)] Cons.prems(3) by auto
  then have "bs_uploads (rg_blobs (view s1)) = Map.empty" by (simp add: blobs_grown_def)
  with Cons.IH [OF 1(2)] Cons.prems(3) obtain s2 where 2: "run_group (uploadOne env rt repo) ls s1 = (None, s2)" "ok s2"
    "blobs_grown (map content_of ls) (view s1) (view s2)" by auto
  from blobs_grown_trans [OF 1(3) 2(3)] 1 2 show ?case by simp
qed

end

text \<open>What a PUT of a manifest leaves behind.\<close>

definition manifest_put :: "string list \<Rightarrow> string \<Rightarrow> media_type \<Rightarrow> bytes \<Rightarrow> reg_state \<Rightarrow> reg_state \<Rightarrow> bool" where
  "manifest_put ns ident mt raw r r' \<longleftrightarrow>
     rg_blobs r' = rg_blobs r \<and>
     lookup_manifest (rg_manifests r') ns ident = Some \<lparr>rm_contentType = mt, rm_blob = raw\<rparr> \<and>
     lookup_manifest (rg_manifests r') ns (sha_string raw) = Some \<lparr>rm_contentType = mt, rm_blob = raw\<rparr> \<and>
     (\<forall>ns' k. join_with (CHR ''/'') ns' \<noteq> join_with (CHR ''/'') ns \<or> (k \<noteq> ident \<and> k \<noteq> sha_string raw) \<longrightarrow>
        lookup_manifest (rg_manifests r') ns' k = lookup_manifest (rg_manifests r) ns' k)"

end
