(* ===== verification/Registry_Network.thy ===== *)
theory Registry_Network
  imports Registry_Client
begin

text \<open>
  The transports that a client builds around a registry, for retries, its user agent, the scheme and
  the session, still are transports to that registry; and a network of registries, on which the
  interface of the client is interpreted.
\<close>

section \<open>Sessions\<close>

text \<open>The registry sees neither the scheme nor any header but the two it reads.\<close>

definition same_request :: "http_request \<Rightarrow> http_request \<Rightarrow> bool" where
  "same_request a b \<longleftrightarrow>
     rq_Method a = rq_Method b \<and> u_Path (rq_URL a) = u_Path (rq_URL b) \<and> u_Query (rq_URL a) = u_Query (rq_URL b) \<and>
     rq_Body a = rq_Body b \<and> get_first (rq_Header a) ''Content-Type'' = get_first (rq_Header b) ''Content-Type'' \<and>
     get_first (rq_Header a) ''Content-Range'' = get_first (rq_Header b) ''Content-Range''"

lemma registry_root_cong:
  assumes "same_request a b"
  shows "registry_root enc E rnd a r = registry_root enc E rnd b r"
proof -
  note e = assms [unfolded same_request_def]
  have "blobs_handle rnd a x = blobs_handle rnd b x" for x by (simp only: blobs_handle_def e)
  moreover have "manifests_handle E a m = manifests_handle E b m" for m using e by (intro manifests_handle_cong) auto
  moreover have "isBlob a = isBlob b" "isManifest a = isManifest b" using e by (simp_all add: isBlob_def isManifest_def)
  ultimately show ?thesis using e by (simp add: registry_root_def registry_v2_def)
qed

lemma retrying_first:
  assumes "inner req s = (Inr resp, q, s')"
  shows "retry_RoundTrip rnd IsTemporary defaultBackoff inner req s = (Inr resp, q, s')"
proof -
  have "Retry rnd (\<lambda>(_, q, s). case inner q s of (r, q', s') \<Rightarrow> ((case r of Inl e \<Rightarrow> Some e | Inr _ \<Rightarrow> None), (Some r, q', s')))
      IsTemporary defaultBackoff (None, req, s) = (None, Some (Inr resp), q, s')"
    by (rule Retry_first) (simp_all add: assms defaultBackoff_def)
  then show ?thesis by (simp add: retry_RoundTrip_def)
qed

context registry_transport
begin

lemma retrying_transport: "registry_transport (retrying env rt) enc E view ok host"
proof (unfold_locales, goal_cases)
  case (1 s req)
  from serves [OF this] show ?case unfolding retrying_def by (blast intro: retrying_first)
qed

lemma agent_transport: "registry_transport (userAgent_RoundTrip ua rt) enc E view ok host"
proof (unfold_locales, goal_cases)
  case (1 s req)
  let ?req = "with_header req ''User-Agent'' ua"
  have "same_request ?req req" by (simp add: same_request_def with_header_def)
  moreover have "u_Host (rq_URL ?req) = host" "rq_Host ?req = host" using 1 by (simp_all add: with_header_def)
  ultimately show ?case
    using serves [OF 1(1), of ?req] registry_root_cong [of ?req req] unfolding userAgent_RoundTrip_def by auto
qed

lemma scheme_transport: "registry_transport (scheme_RoundTrip scheme reg rt) enc E view ok host"
proof (unfold_locales, goal_cases)
  case (1 s req)
  let ?req = "req\<lparr>rq_URL := (rq_URL req)\<lparr>u_Scheme := scheme\<rparr>\<rparr>"
  have "same_request ?req req" by (simp add: same_request_def)
  then show ?case
    using serves [OF 1(1), of ?req] serves [OF 1] registry_root_cong [of ?req req] 1 unfolding scheme_RoundTrip_def by auto
qed

lemma given: "registry_transport (given_transport ua rt) enc E view ok host"
proof (cases ua)
  case None
  then show ?thesis by (simp add: given_transport_def) (rule registry_transport_axioms)
qed (simp add: given_transport_def agent_transport)

end

definition session_view :: "('s \<Rightarrow> reg_state) \<Rightarrow> session \<times> 's \<Rightarrow> reg_state" where
  "session_view view st = view (snd st)"

definition session_ok :: "('s \<Rightarrow> bool) \<Rightarrow> session \<times> 's \<Rightarrow> bool" where
  "session_ok ok st \<longleftrightarrow> ss_auth (fst st) = NoAuth \<and> ok (snd st)"

context registry_transport
begin

lemma wrapped: "registry_transport (wrapped_transport reg scheme agent rt) enc E view ok host"
  unfolding wrapped_transport_def by (rule registry_transport.scheme_transport [OF agent_transport])

lemma session:
  assumes "ro_transport o' = rt"
  shows "registry_transport (session_transport env o') enc E (session_view view) (session_ok ok) host"
proof (unfold_locales, goal_cases)
  case (1 st req)
  obtain ses s where st: "st = (ses, s)" by (rule prod.exhaust)
  let ?in = "wrapped_transport (ss_registry ses) (ss_scheme ses) (ss_agent ses) (retrying env rt)"
  from 1 st have ok: "ok s" "ss_auth ses = NoAuth" by (auto simp: session_ok_def)
  have w: "registry_transport ?in enc E view ok host"
    by (rule registry_transport.wrapped [OF retrying_transport])
  from registry_transport.serves [OF w ok(1) 1(2,3)] show ?case
    by (auto simp: session_transport_def session_RoundTrip_def st ok(2) assms Let_def session_view_def session_ok_def)
qed

text \<open>The handshake with a registry that asks for no authentication.\<close>

lemma connect_anonymous:
  assumes "ro_transport o' = rt" and "Registry_Name reg = host" and "ok s"
  shows "\<exists>ses s1. connect env reg o' scopes s = (Inr ses, s1) \<and> ok s1 \<and> view s1 = view s \<and> ss_auth ses = NoAuth"
proof -
  let ?ua = "if ro_userAgent o' \<noteq> '''' then Some (NewUserAgent (ne_version env) (ro_userAgent o')) else None"
  let ?t = "given_transport ?ua (retrying env rt)"
  let ?req = "new_request ''GET'' \<lparr>u_Scheme = ''https'', u_Host = Registry_Name reg, u_Path = ''/v2/'', u_Query = []\<rparr> []"
  have g: "registry_transport ?t enc E view ok host"
    by (rule registry_transport.given [OF retrying_transport])
  have "u_Host (rq_URL ?req) = host" "rq_Host ?req = host" by (simp_all add: assms(2))
  from registry_transport.serves [OF g assms(3) this] obtain rnd resp q s1 where
    r: "?t ?req s = (Inr resp, q, s1)" "ok s1" "registry_root enc E rnd ?req (view s) = (resp, view s1)" by blast
  have c: "client_Do ?t ?req s = (Inr (resp, q), s1)"
    using client_Do_direct [where rt = ?t, OF r(1)] registry_no_redirect [OF r(3)] by blast
  have "rs_StatusCode resp = StatusOK" "view s1 = view s"
    using root_ping [of ?req enc E rnd "view s"] r(3) by auto
  then have "ping (ne_codec env) reg ?t s = (Inr \<lparr>pr_challenge = ''anonymous'', pr_parameters = [], pr_scheme = ''https''\<rparr>, s1)"
    using c by (simp add: ping_def)
  then show ?thesis
    using r(2) \<open>view s1 = view s\<close> by (simp add: connect_def NewWithContext_def assms(1) Let_def to_lower_def lower_char_def)
qed

end

section \<open>A network of registries\<close>

text \<open>
  The registries by their hosts, and the numbers that they draw for new uploads, in the order in which
  they are drawn; a request goes to the host of its URL.
\<close>

record network =
  nw_regs :: "string \<Rightarrow> reg_state option"
  nw_draws :: "nat \<Rightarrow> nat"

definition registry_network :: "((string \<times> string) list \<Rightarrow> bytes) \<Rightarrow> codec \<Rightarrow> network round_tripper" where
  "registry_network enc E req w =
     (let host = u_Host (rq_URL req) in
      case nw_regs w host of
        None \<Rightarrow> (Inl (ErrMsg (''dial tcp: lookup '' @ host @ '': no such host'')), req, w)
      | Some r \<Rightarrow>
          (case registry_root enc E (nw_draws w 0) req r of
             (resp, r') \<Rightarrow> (Inr resp, req, w\<lparr>nw_regs := (nw_regs w)(host \<mapsto> r'), nw_draws := (\<lambda>i. nw_draws w (Suc i))\<rparr>)))"

definition registry_of :: "string \<Rightarrow> network \<Rightarrow> reg_state" where
  "registry_of host w = (case nw_regs w host of Some r \<Rightarrow> r | None \<Rightarrow> registry_New)"

text \<open>The networks that differ from one in the registry of a host only.\<close>

definition others_as :: "string \<Rightarrow> network \<Rightarrow> network \<Rightarrow> bool" where
  "others_as host w0 w \<longleftrightarrow> nw_regs w host \<noteq> None \<and> (\<forall>h. h \<noteq> host \<longrightarrow> nw_regs w h = nw_regs w0 h)"

lemma network_serves: "registry_transport (registry_network enc E) enc E (registry_of host) (others_as host w0) host"
proof (unfold_locales, goal_cases)
  case (1 w req)
  then obtain r where r: "nw_regs w host = Some r" by (auto simp: others_as_def)
  obtain resp r' where e: "registry_root enc E (nw_draws w 0) req r = (resp, r')" by (rule prod.exhaust)
  show ?case
    using 1 r e by (auto simp: registry_network_def Let_def registry_of_def others_as_def)
qed

interpretation net: registry_transport "registry_network enc E" enc E "registry_of host" "others_as host w0" host
  for enc E host w0
  by (rule network_serves)

lemma Registry_Name_Str: "Registry_Name reg = RegistryStr reg"
  by (simp add: Registry_Name_def)

text \<open>Running a piece of work in a session.\<close>

definition reaches :: "((string \<times> string) list \<Rightarrow> bytes) \<Rightarrow> codec \<Rightarrow> network round_tripper \<Rightarrow> repository \<Rightarrow> string list \<Rightarrow>
    network remote_option list \<Rightarrow> network \<Rightarrow> bool" where
  "reaches enc E dt repo ns options w \<longleftrightarrow>
     repo_at repo (RegistryStr (repo_Registry repo)) ns \<and> nw_regs w (RegistryStr (repo_Registry repo)) \<noteq> None \<and>
     bs_uploads (rg_blobs (registry_of (RegistryStr (repo_Registry repo)) w)) = Map.empty \<and>
     (case remote_makeOptions dt (RegistryStr (repo_Registry repo)) options of
        Inl _ \<Rightarrow> False
      | Inr o' \<Rightarrow> ro_transport o' = registry_network enc E)"

lemma with_session_net:
  assumes "remote_makeOptions dt host options = Inr o'" and "ro_transport o' = registry_network enc E"
    and "RegistryStr reg = host" and "nw_regs w host \<noteq> None"
    and work: "\<And>ses s. \<lbrakk>ss_auth ses = NoAuth; others_as host w s; registry_of host s = registry_of host w;
         registry_transport (session_transport env o') enc E (session_view (registry_of host)) (session_ok (others_as host w)) host\<rbrakk> \<Longrightarrow>
       \<exists>res st. work o' (ses, s) = (res, st) \<and> session_ok (others_as host w) st \<and> P res (session_view (registry_of host) st)"
  shows "\<exists>res w'. with_session env dt reg scopes options work w = (res, w') \<and> others_as host w w' \<and> P res (registry_of host w')"
proof -
  have "others_as host w w" using assms(4) by (simp add: others_as_def)
  from net.connect_anonymous [OF assms(2) assms(3) [folded Registry_Name_Str] this, of env scopes] obtain ses s1 where
    c: "connect env reg o' scopes w = (Inr ses, s1)" "others_as host w s1" "registry_of host s1 = registry_of host w" "ss_auth ses = NoAuth"
    by blast
  have "registry_transport (session_transport env o') enc E (session_view (registry_of host)) (session_ok (others_as host w)) host"
    by (rule net.session [OF assms(2)])
  from work [OF c(4,2,3) this] obtain res st where w: "work o' (ses, s1) = (res, st)" "session_ok (others_as host w) st"
    "P res (session_view (registry_of host) st)" by blast
  obtain ses2 s2 where st: "st = (ses2, s2)" by (rule prod.exhaust)
  show ?thesis using assms(1,3) c(1) w by (auto simp: with_session_def st session_ok_def session_view_def)
qed

lemma err_result_None [simp]: "err_result (None, s) = (Inr (), s)"
  by (simp add: err_result_def)

lemma reachesD:
  assumes "reaches enc E dt repo ns options w"
  defines "host \<equiv> RegistryStr (repo_Registry repo)"
  obtains o' where "repo_at repo host ns" "nw_regs w host \<noteq> None" "bs_uploads (rg_blobs (registry_of host w)) = Map.empty"
    "remote_makeOptions dt host options = Inr o'" "ro_transport o' = registry_network enc E"
  using assms by (auto simp: reaches_def split: sum.splits)

end
