(* ===== verification/Registry_Push.thy ===== *)
theory Registry_Push
  imports Registry_Network
begin

text \<open>
  Pushing images and indexes to a registry: the work of a writer, inside the interface of the client
  to a registry, and the exported functions on a network of registries.
\<close>

context registry_transport
begin

lemma commit_manifest:
  assumes "repo_at repo host ns" and "ok s" and "names_ok ns (Identifier ref)" and "unpackTaggable t = Inr (raw, desc)"
    and "manifest_accepted E (rg_manifests (view s)) ns (d_MediaType desc) raw"
  shows "\<exists>s'. commitManifest N rt repo t ref s = (None, s') \<and> ok s' \<and>
     manifest_put ns (Identifier ref) (d_MediaType desc) raw (view s) (view s')"
proof -
  let ?req = "with_header (new_request ''PUT'' (w_url repo (manifest_path_of repo (Identifier ref))) raw) ''Content-Type'' (d_MediaType desc)"
  have p: "u_Path (rq_URL ?req) = slash_path (manifest_elems ns (Identifier ref))"
    using assms(1) repo_paths(2) [of ns "Identifier ref"] by (simp add: manifest_path_of_def repo_at_def plain_repo_def w_url_def)
  have h: "u_Host (rq_URL ?req) = host" "rq_Host ?req = host" using assms(1) by simp_all
  let ?P = "\<lambda>(rnd::nat) resp r'. manifest_put ns (Identifier ref) (d_MediaType desc) raw (view s) r'"
  have "\<exists>resp r'. registry_root enc E rnd ?req (view s) = (resp, r') \<and>
      rs_StatusCode resp \<in> set [StatusOK, StatusCreated, StatusAccepted] \<and> ?P rnd resp r'" for rnd
    using root_put_manifest [OF assms(3) p, of E "view s" enc rnd] assms(5)
    by (auto simp: manifest_put_def)
  from do_checked_ok [where P = ?P, OF assms(2) h this, of N] show ?thesis
    by (auto simp: commitManifest_def assms(4))
qed

end

section \<open>Pushing an image\<close>

text \<open>
  An image that can be pushed: its manifest is not that of an index, the layers that may be
  distributed can be uploaded, and the config file is known before the layers have been read or
  becomes known then.
\<close>

definition distributable :: "push_layer \<Rightarrow> bool" where
  "distributable l \<longleftrightarrow> (case l_MediaType (pl_before l) of Inr mt \<Rightarrow> IsDistributable mt | Inl _ \<Rightarrow> False)"

definition config_known :: "push_image \<Rightarrow> bytes \<Rightarrow> bool" where
  "config_known img cfg \<longleftrightarrow>
     i_RawConfigFile (pi_before img) = Inr cfg \<or>
     \<not> is_ok (i_RawConfigFile (pi_before img)) \<and> i_RawConfigFile (pi_after img) = Inr cfg"

definition pushable_image :: "push_image \<Rightarrow> push_layer list \<Rightarrow> bytes \<Rightarrow> media_type \<Rightarrow> bytes \<Rightarrow> bool" where
  "pushable_image img ls cfg mt raw \<longleftrightarrow>
     pi_Layers img = Inr ls \<and> list_all (\<lambda>l. is_ok (l_MediaType (pl_before l)) \<and> (distributable l \<longrightarrow> pushable l)) ls \<and>
     config_known img cfg \<and> i_MediaType (pi_after img) = Inr mt \<and> i_RawManifest (pi_after img) = Inr raw \<and> \<not> IsIndex mt"

definition pushed_blobs :: "push_layer list \<Rightarrow> bytes \<Rightarrow> bytes list" where
  "pushed_blobs ls cfg = map content_of (filter distributable ls) @ [cfg]"

definition image_pushed :: "string list \<Rightarrow> string \<Rightarrow> media_type \<Rightarrow> bytes \<Rightarrow> bytes list \<Rightarrow> reg_state \<Rightarrow> reg_state \<Rightarrow> bool" where
  "image_pushed ns ident mt raw bs r r' \<longleftrightarrow>
     bs_uploads (rg_blobs r') = Map.empty \<and>
     (\<forall>b\<in>set bs. bs_contents (rg_blobs r') (sha_string b) \<noteq> None) \<and>
     (\<forall>d. bs_contents (rg_blobs r') d = bs_contents (rg_blobs r) d \<or>
          (\<exists>b\<in>set bs. d = sha_string b \<and> bs_contents (rg_blobs r') d = Some b)) \<and>
     lookup_manifest (rg_manifests r') ns ident = Some \<lparr>rm_contentType = mt, rm_blob = raw\<rparr> \<and>
     lookup_manifest (rg_manifests r') ns (sha_string raw) = Some \<lparr>rm_contentType = mt, rm_blob = raw\<rparr> \<and>
     (\<forall>ns' k. join_with (CHR ''/'') ns' \<noteq> join_with (CHR ''/'') ns \<or> (k \<noteq> ident \<and> k \<noteq> sha_string raw) \<longrightarrow>
        lookup_manifest (rg_manifests r') ns' k = lookup_manifest (rg_manifests r) ns' k)"

lemma image_pushedI:
  "blobs_grown bs r r1 \<Longrightarrow> manifest_put ns ident mt raw r1 r' \<Longrightarrow> image_pushed ns ident mt raw bs r r'"
  unfolding image_pushed_def blobs_grown_def manifest_put_def by metis

lemma blobs_grown_cong:
  assumes "blobs_grown bs r r'" and "set bs \<subseteq> set bs'" and "\<forall>b'\<in>set bs'. \<exists>b\<in>set bs. sha_string b = sha_string b'"
  shows "blobs_grown bs' r r'"
  using assms unfolding blobs_grown_def by (fastforce simp: subset_iff)

lemma to_upload_spec:
  assumes "list_all (\<lambda>l. is_ok (l_MediaType (pl_before l)) \<and> (distributable l \<longrightarrow> pushable l)) ls"
  shows "\<exists>us. to_upload up ls = (us, None) \<and> set us \<subseteq> set (filter distributable ls) \<and>
     (\<forall>l\<in>set ls. distributable l \<longrightarrow>
        (\<exists>h\<in>set up. l_Digest (pl_before l) = Inr h) \<or> (\<exists>u\<in>set us. sha_string (content_of u) = sha_string (content_of l)))"
  using assms
proof (induction ls arbitrary: up)
  case (Cons l ls)
  from Cons.prems obtain mt where mt: "l_MediaType (pl_before l) = Inr mt" by (auto simp: is_ok_iff)
  have d: "distributable l \<longleftrightarrow> IsDistributable mt" by (simp add: distributable_def mt)
  have rest: "list_all (\<lambda>l. is_ok (l_MediaType (pl_before l)) \<and> (distributable l \<longrightarrow> pushable l)) ls" using Cons.prems by simp
  note IH = Cons.IH [OF rest]
  show ?case
  proof (cases "IsDistributable mt")
    case False
    with IH [of up] show ?thesis by (auto simp: mt d)
  next
    case True
    show ?thesis
    proof (cases "l_Digest (pl_before l)")
      case (Inl e)
      from IH [of up] obtain us where "to_upload up ls = (us, None)" "set us \<subseteq> set (filter distributable ls)"
        "\<forall>l\<in>set ls. distributable l \<longrightarrow> (\<exists>h\<in>set up. l_Digest (pl_before l) = Inr h) \<or>
           (\<exists>u\<in>set us. sha_string (content_of u) = sha_string (content_of l))" by auto
      with True Inl mt d show ?thesis by (intro exI [of _ "l # us"]) auto
    next
      case (Inr h)
      show ?thesis
      proof (cases "h \<in> set up")
        case True
        with IH [of up] Inr mt d \<open>IsDistributable mt\<close> show ?thesis by auto
      next
        case False
        from IH [of "h # up"] obtain us where us: "to_upload (h # up) ls = (us, None)" "set us \<subseteq> set (filter distributable ls)"
          "\<forall>l\<in>set ls. distributable l \<longrightarrow> (\<exists>h'\<in>set (h # up). l_Digest (pl_before l) = Inr h') \<or>
             (\<exists>u\<in>set us. sha_string (content_of u) = sha_string (content_of l))" by auto
        have h: "h = sha (content_of l)" using Cons.prems Inr d True by (simp add: pushable_def)
        have "sha_string (content_of l) = sha_string (content_of l')"
          if "l' \<in> set ls" "distributable l'" "l_Digest (pl_before l') = Inr h" for l'
          using that rest h by (auto simp: list_all_iff pushable_def sha_string_hash)
        with us False True Inr mt d show ?thesis by (intro exI [of _ "l # us"]) auto
      qed
    qed
  qed
qed simp

lemma pushable_config: "pushable (ordinary_layer None (configLayer (sha b) b))" "content_of (ordinary_layer None (configLayer (sha b) b)) = b"
  by (simp_all add: pushable_def content_of_def ordinary_layer_def configLayer_def)

lemma ConfigLayer_sha: "partial_ConfigLayer (Inr b) = Inr (configLayer (sha b) b)" "\<not> is_ok r \<Longrightarrow> \<exists>e. partial_ConfigLayer r = Inl e"
  by (auto simp: partial_ConfigLayer_def partial_ConfigName_def sha_def is_ok_iff split: sum.splits) (cases r; simp)

context registry_transport
begin

lemma upload_fair:
  assumes "repo_at repo host ns" and "list_all pushable us" and "fair_order sched"
    and "ok s" and "bs_uploads (rg_blobs (view s)) = Map.empty"
  shows "\<exists>s'. run_group (uploadOne env rt repo) (sched us) s = (None, s') \<and> ok s' \<and> blobs_grown (map content_of us) (view s) (view s')"
proof -
  have m: "set (sched us) = set us" using assms(3) by (metis fair_order_def set_mset_mset)
  then have "list_all pushable (sched us)" using assms(2) by (simp add: list_all_iff)
  from upload_group [OF assms(1) this assms(4,5)] obtain s' where s': "run_group (uploadOne env rt repo) (sched us) s = (None, s')" "ok s'"
    "blobs_grown (map content_of (sched us)) (view s) (view s')" by auto
  moreover have "blobs_grown (map content_of us) (view s) (view s')"
    using s'(3) by (rule blobs_grown_cong) (auto simp: m)
  ultimately show ?thesis by blast
qed

lemma write_image_pushes:
  assumes "repo_at repo host ns" and "ok s" and "bs_uploads (rg_blobs (view s)) = Map.empty" and "names_ok ns (Identifier ref)"
    and "fair_order sched" and "pushable_image img ls cfg mt raw"
  shows "\<exists>s'. write_image env sched rt repo ref img ls s = (None, s') \<and> ok s' \<and>
     image_pushed ns (Identifier ref) mt raw (pushed_blobs ls cfg) (view s) (view s')"
proof -
  let ?up = "uploadOne env rt repo" and ?cl = "ordinary_layer None (configLayer (sha cfg) cfg)"
  from assms(6) have i: "list_all (\<lambda>l. is_ok (l_MediaType (pl_before l)) \<and> (distributable l \<longrightarrow> pushable l)) ls"
    "config_known img cfg" "i_MediaType (pi_after img) = Inr mt" "i_RawManifest (pi_after img) = Inr raw" "\<not> IsIndex mt"
    by (auto simp: pushable_image_def)
  from to_upload_spec [OF i(1), of "[]"] obtain us where us: "to_upload [] ls = (us, None)" "set us \<subseteq> set (filter distributable ls)"
    "\<forall>l\<in>set ls. distributable l \<longrightarrow> (\<exists>u\<in>set us. sha_string (content_of u) = sha_string (content_of l))" by auto
  have pu: "list_all pushable us" using us(2) i(1) by (auto simp: list_all_iff)
  have cong: "blobs_grown (pushed_blobs ls cfg) r r'" if "blobs_grown (map content_of us @ [cfg]) r r'" for r r'
    using that by (rule blobs_grown_cong) (use us in \<open>fastforce simp: pushed_blobs_def\<close>)+
  have commit: "\<exists>s'. commitManifest (ne_codec env) rt repo (image_taggable (pi_after img)) ref s1 = (None, s') \<and> ok s' \<and>
      image_pushed ns (Identifier ref) mt raw (pushed_blobs ls cfg) (view s) (view s')"
    if s1: "ok s1" "blobs_grown (map content_of us @ [cfg]) (view s) (view s1)" for s1
  proof -
    have u: "unpackTaggable (image_taggable (pi_after img)) = Inr (raw, plain_descriptor (fst (SHA256 raw)) (snd (SHA256 raw)) mt)"
      by (simp add: unpackTaggable_def image_taggable_def i)
    have mt: "d_MediaType (plain_descriptor h sz mt) = mt" for h sz by (simp add: plain_descriptor_def)
    have acc: "manifest_accepted E m ns mt raw" for m using i(5) by (simp add: manifest_accepted_def)
    from commit_manifest [OF assms(1) s1(1) assms(4) u, unfolded mt, OF acc] image_pushedI [OF cong [OF s1(2)]]
    show ?thesis by blast
  qed
  show ?thesis
  proof (cases "i_RawConfigFile (pi_before img)")
    case (Inr c)
    with i(2) have c: "c = cfg" by (simp add: config_known_def)
    have "list_all pushable (us @ [?cl])" using pu pushable_config by simp
    from upload_fair [OF assms(1) this assms(5,2,3)] obtain s1 where s1: "run_group ?up (sched (us @ [?cl])) s = (None, s1)" "ok s1"
      "blobs_grown (map content_of us @ [cfg]) (view s) (view s1)" by (auto simp: pushable_config)
    with commit [OF s1(2,3)] Inr c us(1) show ?thesis by (simp add: write_image_def Let_def ConfigLayer_sha)
  next
    case (Inl e)
    with i(2) have c: "i_RawConfigFile (pi_after img) = Inr cfg" by (simp add: config_known_def)
    from upload_fair [OF assms(1) pu assms(5,2,3)] obtain s1 where s1: "run_group ?up (sched us) s = (None, s1)" "ok s1"
      "blobs_grown (map content_of us) (view s) (view s1)" by auto
    have "bs_uploads (rg_blobs (view s1)) = Map.empty" using s1(3) by (simp add: blobs_grown_def)
    from upload_one [OF assms(1) s1(2) this pushable_config(1)] obtain s2 where s2: "?up ?cl s1 = (None, s2)" "ok s2"
      "blobs_grown [cfg] (view s1) (view s2)" by (auto simp: pushable_config)
    from commit [OF s2(2) blobs_grown_trans [OF s1(3) s2(3)]] s1(1) s2(1) Inl c us(1) show ?thesis
      by (simp add: write_image_def Let_def ConfigLayer_sha partial_ConfigLayer_def partial_ConfigName_def sha_def)
  qed
qed

end

lemma write_reaches:
  assumes "reaches enc E dt (Context ref) ns options w" and "names_ok ns (Identifier ref)" and "fair_order (sc_layers sch)"
    and "pushable_image img ls cfg mt raw"
  defines "host \<equiv> RegistryStr (repo_Registry (Context ref))"
  shows "\<exists>w'. remote_Write env sch dt ref img options w = (Inr (), w') \<and> others_as host w w' \<and>
     image_pushed ns (Identifier ref) mt raw (pushed_blobs ls cfg) (registry_of host w) (registry_of host w')"
proof -
  from assms(1) obtain o' where r: "repo_at (Context ref) host ns" "nw_regs w host \<noteq> None" "bs_uploads (rg_blobs (registry_of host w)) = Map.empty"
    "remote_makeOptions dt host options = Inr o'" "ro_transport o' = registry_network enc E"
    unfolding host_def by (rule reachesD)
  let ?P = "\<lambda>res r'. res = Inr () \<and> image_pushed ns (Identifier ref) mt raw (pushed_blobs ls cfg) (registry_of host w) r'"
  let ?work = "\<lambda>o' st. err_result (write_image env (sc_layers sch) (session_transport env o') (Context ref) ref img ls st)"
  have work: "\<exists>res st. ?work o' (ses, s) = (res, st) \<and> session_ok (others_as host w) st \<and> ?P res (session_view (registry_of host) st)"
    if ses: "ss_auth ses = NoAuth" "others_as host w s" "registry_of host s = registry_of host w"
      and T: "registry_transport (session_transport env o') enc E (session_view (registry_of host)) (session_ok (others_as host w)) host"
    for ses s
  proof -
    have ok: "session_ok (others_as host w) (ses, s)" using ses by (simp add: session_ok_def)
    have v: "session_view (registry_of host) (ses, s) = registry_of host w" using ses by (simp add: session_view_def)
    from registry_transport.write_image_pushes [OF T r(1) ok _ assms(2-4), of env] r(3) v obtain st where
      "write_image env (sc_layers sch) (session_transport env o') (Context ref) ref img ls (ses, s) = (None, st)"
      "session_ok (others_as host w) st"
      "image_pushed ns (Identifier ref) mt raw (pushed_blobs ls cfg) (registry_of host w) (session_view (registry_of host) st)"
      by auto
    then show ?thesis by auto
  qed
  have ls: "pi_Layers img = Inr ls" using assms(4) by (simp add: pushable_image_def)
  show ?thesis
    using with_session_net [where P = ?P and work = ?work and env = env and reg = "repo_Registry (Context ref)"
        and scopes = "scopesForUploadingImage (sc_scopes sch) (Context ref) ls", OF r(4,5) _ r(2) work]
    by (simp add: remote_Write_def Let_def ls host_def)
qed

section \<open>A small world\<close>

definition demo_env :: net_env where
  "demo_env = \<lparr>ne_codec = \<lparr>decode_errors = \<lambda>_. [], decode_token = \<lambda>_. Inl (ErrMsg ''not JSON''), response_challenges = \<lambda>_. []\<rparr>,
               ne_version = '''', ne_rnd = \<lambda>_. 0\<rparr>"

definition demo_net :: "codec \<Rightarrow> network round_tripper" where
  "demo_net E = registry_network (\<lambda>_. ''err'') E"

definition demo_world :: network where
  "demo_world = \<lparr>nw_regs = [''r.io'' \<mapsto> registry_New], nw_draws = (\<lambda>i. i)\<rparr>"

definition demo_repo :: repository where
  "demo_repo = \<lparr>repo_Registry = \<lparr>reg_insecure = False, reg_registry = ''r.io''\<rparr>, repo_repository = ''app''\<rparr>"

definition demo_ref :: reference where
  "demo_ref = RefTag \<lparr>tag_Repository = demo_repo, tag_tag = ''v1'', tag_original = ''r.io/app:v1''\<rparr>"

lemma demo_repo_str: "RepositoryStr demo_repo = ''app''" "RegistryStr (repo_Registry demo_repo) = ''r.io''"
  by (simp_all add: demo_repo_def RepositoryStr_def hasImplicitNamespace_def RegistryStr_def DefaultRegistry_def)

lemma demo_ref_str: "Context demo_ref = demo_repo" "Identifier demo_ref = ''v1''"
  by (simp_all add: demo_ref_def Context_def Tag_Context_def Identifier_def Tag_Identifier_def TagStr_def)

lemma demo_reaches: "reaches (\<lambda>_. ''err'') E (demo_net E) demo_repo [''app''] [] demo_world"
  by (simp add: reaches_def repo_at_def demo_repo_str plain_repo_def plain_elem_def unreserved_def is_alpha_def is_digit_def byte_def
      demo_world_def registry_of_def registry_New_def remote_makeOptions_def base_remote_options_def demo_net_def)

lemma demo_names: "names_ok [''app''] ''v1''"
  by (simp add: names_ok_def)

definition demo_push_layer :: push_layer where
  "demo_push_layer = ordinary_layer None (nil_layer\<lparr>l_Digest := Inr (sha ''x''), l_Compressed := Inr ''x'', l_MediaType := Inr DockerLayer\<rparr>)"

definition demo_push_image :: push_image where
  "demo_push_image =
     (let img = \<lparr>i_Layers = Inl nil_deref, i_MediaType = Inr DockerManifestSchema2, i_Size = Inl nil_deref, i_ConfigName = Inl nil_deref,
                 i_ConfigFile = Inl nil_deref, i_RawConfigFile = Inr ''c'', i_Digest = Inl nil_deref, i_Manifest = Inl nil_deref,
                 i_RawManifest = Inr ''m'', i_LayerByDigest = \<lambda>_. Inl nil_deref, i_LayerByDiffID = \<lambda>_. Inl nil_deref, i_Descriptor = None\<rparr>
      in \<lparr>pi_Layers = Inr [demo_push_layer, demo_push_layer], pi_before = img, pi_after = img\<rparr>)"

lemma demo_pushable: "pushable_image demo_push_image [demo_push_layer, demo_push_layer] ''c'' DockerManifestSchema2 ''m''"
  by (simp add: pushable_image_def demo_push_image_def demo_push_layer_def ordinary_layer_def pushable_def content_of_def config_known_def
      IsIndex_def media_type_defs Let_def nil_layer_def)

text \<open>
  C5. Write pushes an image.  To a registry that asks for no authentication, with no upload in
  progress, in whatever order the goroutines run and whether the digests of the layers are known
  beforehand or only once they have been streamed, Write succeeds; afterwards the registry holds every
  layer that may be distributed and the config file under their digests, and serves the manifest,
  with its media type, under the identifier of the reference and under its own digest.  Blobs that
  were there are as they were or were pushed again; every other manifest, and every other registry,
  is unchanged.
\<close>

theorem remote_Write_pushes:
  assumes "reaches enc E dt (Context ref) ns options w" and "names_ok ns (Identifier ref)" and "fair_order (sc_layers sch)"
    and "pushable_image img ls cfg mt raw"
  defines "host \<equiv> RegistryStr (repo_Registry (Context ref))"
  shows "\<exists>w'. remote_Write env sch dt ref img options w = (Inr (), w') \<and> others_as host w w' \<and>
     image_pushed ns (Identifier ref) mt raw (pushed_blobs ls cfg) (registry_of host w) (registry_of host w')"
  unfolding host_def by (rule write_reaches [OF assms(1-4)])

theorem remote_Write_pushes_witness:
  "\<exists>w'. remote_Write demo_env \<lparr>sc_layers = rev, sc_scopes = id\<rparr> (demo_net (table_codec [] [] [])) demo_ref demo_push_image [] demo_world = (Inr (), w') \<and>
     lookup_manifest (rg_manifests (registry_of ''r.io'' w')) [''app''] ''v1'' =
       Some \<lparr>rm_contentType = DockerManifestSchema2, rm_blob = ''m''\<rparr>"
  using remote_Write_pushes [OF demo_reaches [of "table_codec [] [] []", folded demo_ref_str(1)] demo_names [folded demo_ref_str(2)] _ demo_pushable,
      of "\<lparr>sc_layers = rev, sc_scopes = id\<rparr>" demo_env]
  by (auto simp: fair_order_def demo_ref_str demo_repo_str image_pushed_def)

end
