(* ===== verification/Remote_Read.thy ===== *)
theory Remote_Read
  imports Remote_Write
begin

text \<open>
  pkg/v1/remote, the reading side: descriptor.go, image.go, index.go, layer.go, list.go and
  catalog.go.  A method that talks to the registry is a function of the transport of its client and of
  the state of the world; an object that keeps what it has fetched is returned with its new state.
\<close>

section \<open>Descriptors and fetchers\<close>

definition newErrSchema1 :: "media_type \<Rightarrow> go_error" where
  "newErrSchema1 schema = ErrSchema1 schema"

text \<open>fmt verb q on texts of the protocol: printable ASCII without quotes and backslashes.\<close>

definition quoted :: "string \<Rightarrow> string" where
  "quoted s = CHR 0x22 # s @ [CHR 0x22]"

text \<open>
  A Descriptor without its client, which is the transport that is passed along.
\<close>

record remote_descriptor =
  rd_Ref :: reference
  rd_Descriptor :: descriptor
  rd_Manifest :: bytes
  rd_platform :: platform

definition fetcher_url :: "reference \<Rightarrow> string \<Rightarrow> string \<Rightarrow> url" where
  "fetcher_url ref resource ident =
     \<lparr>u_Scheme = Scheme (repo_Registry (Context ref)), u_Host = RegistryStr (repo_Registry (Context ref)),
      u_Path = ''/v2/'' @ RepositoryStr (Context ref) @ ''/'' @ resource @ ''/'' @ ident, u_Query = []\<rparr>"

text \<open>How a reference is printed.\<close>

definition Reference_String :: "reference \<Rightarrow> string" where
  "Reference_String ref = (case ref of RefTag t \<Rightarrow> Tag_String t | RefDigest d \<Rightarrow> Digest_String d)"

definition digest_mismatch :: "reference \<Rightarrow> v1_hash \<Rightarrow> string \<Rightarrow> go_error" where
  "digest_mismatch fref got want =
     ErrMsg (''manifest digest: '' @ quoted (Hash_String got) @ '' does not match requested digest: '' @ quoted want @
             '' for '' @ quoted (Reference_String fref))"

text \<open>What fetchManifest and headManifest make of the response; only a reference by digest is verified.\<close>

definition check_digest :: "reference \<Rightarrow> reference \<Rightarrow> v1_hash \<Rightarrow> unit res" where
  "check_digest fref ref digest =
     (case ref of
        RefDigest d \<Rightarrow> if Hash_String digest \<noteq> DigestStr d then Inl (digest_mismatch fref digest (DigestStr d)) else Inr ()
      | RefTag _ \<Rightarrow> Inr ())"

definition manifest_of_response :: "reference \<Rightarrow> reference \<Rightarrow> http_response \<Rightarrow> (bytes \<times> descriptor) res" where
  "manifest_of_response fref ref resp =
     (let manifest = rs_Body resp;
          mediaType = get_first (rs_Header resp) ''Content-Type'';
          digest = (case NewHash (get_first (rs_Header resp) ''Docker-Content-Digest'') of
                      Inr contentDigest \<Rightarrow> if mediaType = DockerManifestSchema1Signed then contentDigest else fst (SHA256 manifest)
                    | Inl _ \<Rightarrow> fst (SHA256 manifest))
      in bnd (check_digest fref ref digest) (\<lambda>_. Inr (manifest, plain_descriptor digest (snd (SHA256 manifest)) mediaType)))"

definition manifest_request :: "string \<Rightarrow> reference \<Rightarrow> reference \<Rightarrow> media_type list \<Rightarrow> http_request" where
  "manifest_request meth fref ref acceptable =
     with_header (new_request meth (fetcher_url fref ''manifests'' (Identifier ref)) []) ''Accept'' (join_with (CHR '','') acceptable)"

definition fetchManifest ::
    "net_codec \<Rightarrow> 's round_tripper \<Rightarrow> reference \<Rightarrow> reference \<Rightarrow> media_type list \<Rightarrow> 's \<Rightarrow> (bytes \<times> descriptor) res \<times> 's" where
  "fetchManifest N rt fref ref acceptable s =
     (case do_checked N rt (manifest_request ''GET'' fref ref acceptable) [StatusOK] s of
        (r, s') \<Rightarrow> (bnd r (\<lambda>rr. manifest_of_response fref ref (fst rr)), s'))"

text \<open>strconv.ParseInt in base 10, for 64 bits\<close>

definition parse_int64 :: "string \<Rightarrow> int res" where
  "parse_int64 s =
     (let neg = (case s of c # _ \<Rightarrow> c = CHR ''-'' | [] \<Rightarrow> False);
          ds = (case s of c # r \<Rightarrow> if c = CHR ''-'' \<or> c = CHR ''+'' then r else s | [] \<Rightarrow> []);
          v = (if neg then - int (parse_digits ds) else int (parse_digits ds))
      in if ds = [] \<or> \<not> list_all is_digit ds then Inl (ErrMsg (''strconv.ParseInt: parsing '' @ quoted s @ '': invalid syntax''))
         else if v < - (2 ^ 63) \<or> 2 ^ 63 \<le> v then Inl (ErrMsg (''strconv.ParseInt: parsing '' @ quoted s @ '': value out of range''))
         else Inr v)"

definition headManifest ::
    "net_codec \<Rightarrow> 's round_tripper \<Rightarrow> reference \<Rightarrow> reference \<Rightarrow> media_type list \<Rightarrow> 's \<Rightarrow> descriptor res \<times> 's" where
  "headManifest N rt fref ref acceptable s =
     (case do_checked N rt (manifest_request ''HEAD'' fref ref acceptable) [StatusOK] s of
        (r, s') \<Rightarrow>
          (bnd r (\<lambda>rr. let hdr = rs_Header (fst rr) in
             bnd (parse_int64 (get_first hdr ''Content-Length'')) (\<lambda>size.
             bnd (NewHash (get_first hdr ''Docker-Content-Digest'')) (\<lambda>digest.
             bnd (check_digest fref ref digest) (\<lambda>_. Inr (plain_descriptor digest size (get_first hdr ''Content-Type'')))))), s'))"

text \<open>A body arrives as a whole; what reads it verifies it against the hash.\<close>

definition fetchBlob :: "net_codec \<Rightarrow> 's round_tripper \<Rightarrow> reference \<Rightarrow> v1_hash \<Rightarrow> 's \<Rightarrow> read_result list res \<times> 's" where
  "fetchBlob N rt fref h s =
     (case do_checked N rt (new_request ''GET'' (fetcher_url fref ''blobs'' (Hash_String h)) []) [StatusOK] s of
        (r, s') \<Rightarrow> (bnd r (\<lambda>rr. VerifyReadCloser [ReadEOF (rs_Body (fst rr))] h), s'))"

definition headBlob :: "net_codec \<Rightarrow> 's round_tripper \<Rightarrow> reference \<Rightarrow> v1_hash \<Rightarrow> 's \<Rightarrow> http_response res \<times> 's" where
  "headBlob N rt fref h s =
     (case do_checked N rt (new_request ''HEAD'' (fetcher_url fref ''blobs'' (Hash_String h)) []) [StatusOK] s of
        (r, s') \<Rightarrow> (bnd r (\<lambda>rr. Inr (fst rr)), s'))"

section \<open>image.go\<close>

definition acceptableImageMediaTypes :: "media_type list" where
  "acceptableImageMediaTypes = [DockerManifestSchema2, OCIManifestSchema1]"

definition acceptableIndexMediaTypes :: "media_type list" where
  "acceptableIndexMediaTypes = [DockerManifestList, OCIImageIndex]"

record remote_image =
  ri_Ref :: reference
  ri_manifest :: "bytes option"
  ri_config :: "bytes option"
  ri_mediaType :: media_type
  ri_descriptor :: "descriptor option"

definition remoteImage_MediaType :: "remote_image \<Rightarrow> media_type res" where
  "remoteImage_MediaType r = Inr (if ri_mediaType r \<noteq> '''' then ri_mediaType r else DockerManifestSchema2)"

definition remoteImage_RawManifest :: "net_codec \<Rightarrow> 's round_tripper \<Rightarrow> remote_image \<Rightarrow> 's \<Rightarrow> bytes res \<times> remote_image \<times> 's" where
  "remoteImage_RawManifest N rt r s =
     (case ri_manifest r of
        Some m \<Rightarrow> (Inr m, r, s)
      | None \<Rightarrow>
          (case fetchManifest N rt (ri_Ref r) (ri_Ref r) acceptableImageMediaTypes s of
             (Inl e, s') \<Rightarrow> (Inl e, r, s')
           | (Inr (m, desc), s') \<Rightarrow>
               (Inr m, r\<lparr>ri_manifest := Some m, ri_mediaType := d_MediaType desc,
                          ri_descriptor := (case ri_descriptor r of None \<Rightarrow> Some desc | d \<Rightarrow> d)\<rparr>, s')))"

text \<open>ioutil.ReadAll: what was read, with the error if the reader ended with one.\<close>

fun ReadAll :: "read_result list \<Rightarrow> bytes \<times> go_error option" where
  "ReadAll [] = ([], None)"
| "ReadAll (ReadData b # rs) = (case ReadAll rs of (c, e) \<Rightarrow> (b @ c, e))"
| "ReadAll (ReadEOF b # rs) = (b, None)"
| "ReadAll (ReadErr b e # rs) = (b, Some e)"

text \<open>The config is kept as soon as it has been read, even when reading it ended with an error.\<close>

definition remoteImage_RawConfigFile ::
    "net_codec \<Rightarrow> codec \<Rightarrow> 's round_tripper \<Rightarrow> remote_image \<Rightarrow> 's \<Rightarrow> bytes res \<times> remote_image \<times> 's" where
  "remoteImage_RawConfigFile N E rt r s =
     (case ri_config r of
        Some c \<Rightarrow> (Inr c, r, s)
      | None \<Rightarrow>
          (case remoteImage_RawManifest N rt r s of
             (raw, r1, s1) \<Rightarrow>
               (case partial_Manifest E raw of
                  Inl e \<Rightarrow> (Inl e, r1, s1)
                | Inr m \<Rightarrow>
                    (case fetchBlob N rt (ri_Ref r) (d_Digest (m_Config m)) s1 of
                       (Inl e, s2) \<Rightarrow> (Inl e, r1, s2)
                     | (Inr body, s2) \<Rightarrow>
                         (case ReadAll body of
                            (c, Some e) \<Rightarrow> (Inl e, r1\<lparr>ri_config := Some c\<rparr>, s2)
                          | (c, None) \<Rightarrow> (Inr c, r1\<lparr>ri_config := Some c\<rparr>, s2))))))"

text \<open>
  Descriptor.  Its first result is the field, which is not nil for the images that this package makes.
\<close>

definition remoteImage_Descriptor :: "net_codec \<Rightarrow> 's round_tripper \<Rightarrow> remote_image \<Rightarrow> 's \<Rightarrow> descriptor res \<times> remote_image \<times> 's" where
  "remoteImage_Descriptor N rt r s =
     (case remoteImage_RawManifest N rt r s of
        (Inl e, r1, s1) \<Rightarrow> (Inl e, r1, s1)
      | (Inr _, r1, s1) \<Rightarrow> ((case ri_descriptor r1 of Some d \<Rightarrow> Inr d | None \<Rightarrow> Inl nil_deref), r1, s1))"

text \<open>The sources of a layer, one after the other, until one answers.\<close>

fun try_sources :: "net_codec \<Rightarrow> 's round_tripper \<Rightarrow> v1_hash \<Rightarrow> url list \<Rightarrow> go_error \<Rightarrow> 's \<Rightarrow> read_result list res \<times> 's" where
  "try_sources N rt h [] lastErr s = (Inl lastErr, s)"
| "try_sources N rt h (u # us) lastErr s =
     (case do_checked N rt (new_request ''GET'' u []) [StatusOK] s of
        (Inl e, s') \<Rightarrow> try_sources N rt h us e s'
      | (Inr r, s') \<Rightarrow> (VerifyReadCloser [ReadEOF (rs_Body (fst r))] h, s'))"

definition remoteImageLayer_Manifest ::
    "net_codec \<Rightarrow> codec \<Rightarrow> 's round_tripper \<Rightarrow> remote_image \<Rightarrow> 's \<Rightarrow> manifest res \<times> remote_image \<times> 's" where
  "remoteImageLayer_Manifest N E rt r s = (case remoteImage_RawManifest N rt r s of (raw, r1, s1) \<Rightarrow> (partial_Manifest E raw, r1, s1))"

definition remoteImageLayer_ConfigFile ::
    "net_codec \<Rightarrow> codec \<Rightarrow> 's round_tripper \<Rightarrow> remote_image \<Rightarrow> 's \<Rightarrow> config_file res \<times> remote_image \<times> 's" where
  "remoteImageLayer_ConfigFile N E rt r s =
     (case remoteImage_RawConfigFile N E rt r s of (raw, r1, s1) \<Rightarrow> (partial_ConfigFile E raw, r1, s1))"

definition remoteImageLayer_Compressed ::
    "net_codec \<Rightarrow> codec \<Rightarrow> 's round_tripper \<Rightarrow> remote_image \<Rightarrow> v1_hash \<Rightarrow> 's \<Rightarrow> read_result list res \<times> remote_image \<times> 's" where
  "remoteImageLayer_Compressed N E rt r digest s =
     (case remoteImageLayer_Manifest N E rt r s of
        (m, r1, s1) \<Rightarrow>
          (case BlobDescriptor m digest of
             Inl e \<Rightarrow> (Inl e, r1, s1)
           | Inr d \<Rightarrow>
               (case map_res url_Parse (d_URLs d) of
                  Inl e \<Rightarrow> (Inl e, r1, s1)
                | Inr us \<Rightarrow>
                    (case try_sources N rt digest (fetcher_url (ri_Ref r) ''blobs'' (Hash_String digest) # us) nil_deref s1 of
                       (res, s2) \<Rightarrow> (res, r1, s2)))))"

definition remoteImageLayer_MediaType ::
    "net_codec \<Rightarrow> codec \<Rightarrow> 's round_tripper \<Rightarrow> remote_image \<Rightarrow> v1_hash \<Rightarrow> 's \<Rightarrow> media_type res \<times> remote_image \<times> 's" where
  "remoteImageLayer_MediaType N E rt r digest s =
     (case remoteImageLayer_Manifest N E rt r s of
        (m, r1, s1) \<Rightarrow> (bnd (BlobDescriptor m digest) (\<lambda>d. Inr (d_MediaType d)), r1, s1))"

definition remoteImageLayer_Size ::
    "net_codec \<Rightarrow> codec \<Rightarrow> 's round_tripper \<Rightarrow> remote_image \<Rightarrow> v1_hash \<Rightarrow> 's \<Rightarrow> int res \<times> remote_image \<times> 's" where
  "remoteImageLayer_Size N E rt r digest s =
     (case remoteImageLayer_Manifest N E rt r s of (m, r1, s1) \<Rightarrow> (BlobSize m digest, r1, s1))"

definition remoteImageLayer_DiffID ::
    "net_codec \<Rightarrow> codec \<Rightarrow> 's round_tripper \<Rightarrow> remote_image \<Rightarrow> v1_hash \<Rightarrow> 's \<Rightarrow> v1_hash res \<times> remote_image \<times> 's" where
  "remoteImageLayer_DiffID N E rt r digest s =
     (case remoteImageLayer_Manifest N E rt r s of
        (m, r1, s1) \<Rightarrow>
          (case FSLayers m of
             Inl e \<Rightarrow> (Inl e, r1, s1)
           | Inr _ \<Rightarrow>
               (case remoteImageLayer_ConfigFile N E rt r1 s1 of
                  (cf, r2, s2) \<Rightarrow> (BlobToDiffID m cf digest, r2, s2))))"

definition remoteImageLayer_Descriptor ::
    "net_codec \<Rightarrow> codec \<Rightarrow> 's round_tripper \<Rightarrow> remote_image \<Rightarrow> v1_hash \<Rightarrow> 's \<Rightarrow> descriptor res \<times> remote_image \<times> 's" where
  "remoteImageLayer_Descriptor N E rt r digest s =
     (case remoteImageLayer_Manifest N E rt r s of (m, r1, s1) \<Rightarrow> (BlobDescriptor m digest, r1, s1))"

text \<open>
  The image as its methods show it in a state: each method gives what it would give if it were called
  then.  Reading a stream to its end is part of the method.
\<close>

definition read_to_end :: "read_result list res \<Rightarrow> bytes res" where
  "read_to_end r = bnd r read_all"

definition remote_image_layer :: "net_codec \<Rightarrow> codec \<Rightarrow> 's round_tripper \<Rightarrow> remote_image \<Rightarrow> 's \<Rightarrow> v1_hash \<Rightarrow> compressed_layer" where
  "remote_image_layer N E rt r s h =
     \<lparr>cl_Digest = Inr h,
      cl_Compressed = read_to_end (fst (remoteImageLayer_Compressed N E rt r h s)),
      cl_Size = fst (remoteImageLayer_Size N E rt r h s),
      cl_MediaType = fst (remoteImageLayer_MediaType N E rt r h s),
      cl_DiffID = Some (fst (remoteImageLayer_DiffID N E rt r h s)),
      cl_Descriptor = Some (fst (remoteImageLayer_Descriptor N E rt r h s)),
      cl_UncompressedSize = None\<rparr>"

definition remoteImage_LayerByDigest ::
    "net_codec \<Rightarrow> codec \<Rightarrow> 's round_tripper \<Rightarrow> remote_image \<Rightarrow> 's \<Rightarrow> v1_hash \<Rightarrow> compressed_layer res" where
  "remoteImage_LayerByDigest N E rt r s h = Inr (remote_image_layer N E rt r s h)"

definition remote_core :: "net_codec \<Rightarrow> codec \<Rightarrow> 's round_tripper \<Rightarrow> remote_image \<Rightarrow> 's \<Rightarrow> compressed_image_core" where
  "remote_core N E rt r s =
     \<lparr>cic_RawConfigFile = fst (remoteImage_RawConfigFile N E rt r s),
      cic_MediaType = remoteImage_MediaType r,
      cic_RawManifest = fst (remoteImage_RawManifest N rt r s),
      cic_LayerByDigest = remoteImage_LayerByDigest N E rt r s,
      cic_Descriptor = Some (fst (remoteImage_Descriptor N rt r s))\<rparr>"

text \<open>What Descriptor.Image returns: the layers can be mounted from the repository of the image.\<close>

definition pulled_image :: "net_codec \<Rightarrow> codec \<Rightarrow> 's round_tripper \<Rightarrow> remote_image \<Rightarrow> 's \<Rightarrow> push_image" where
  "pulled_image N E rt r s = mountableImage (ri_Ref r) (CompressedToImage E (remote_core N E rt r s))"

section \<open>index.go\<close>

record remote_index =
  rx_Ref :: reference
  rx_manifest :: "bytes option"
  rx_mediaType :: media_type
  rx_descriptor :: "descriptor option"

definition remoteIndex_MediaType :: "remote_index \<Rightarrow> media_type res" where
  "remoteIndex_MediaType r = Inr (if rx_mediaType r \<noteq> '''' then rx_mediaType r else DockerManifestList)"

definition remoteIndex_RawManifest :: "net_codec \<Rightarrow> 's round_tripper \<Rightarrow> remote_index \<Rightarrow> 's \<Rightarrow> bytes res \<times> remote_index \<times> 's" where
  "remoteIndex_RawManifest N rt r s =
     (case rx_manifest r of
        Some m \<Rightarrow> (Inr m, r, s)
      | None \<Rightarrow>
          (case fetchManifest N rt (rx_Ref r) (rx_Ref r) acceptableIndexMediaTypes s of
             (Inl e, s') \<Rightarrow> (Inl e, r, s')
           | (Inr (m, desc), s') \<Rightarrow>
               (Inr m, r\<lparr>rx_manifest := Some m, rx_mediaType := d_MediaType desc,
                          rx_descriptor := (case rx_descriptor r of None \<Rightarrow> Some desc | d \<Rightarrow> d)\<rparr>, s')))"

definition remoteIndex_Digest :: "net_codec \<Rightarrow> 's round_tripper \<Rightarrow> remote_index \<Rightarrow> 's \<Rightarrow> v1_hash res \<times> remote_index \<times> 's" where
  "remoteIndex_Digest N rt r s = (case remoteIndex_RawManifest N rt r s of (raw, st) \<Rightarrow> (partial_Digest raw, st))"

definition remoteIndex_Size :: "net_codec \<Rightarrow> 's round_tripper \<Rightarrow> remote_index \<Rightarrow> 's \<Rightarrow> int res \<times> remote_index \<times> 's" where
  "remoteIndex_Size N rt r s = (case remoteIndex_RawManifest N rt r s of (raw, st) \<Rightarrow> (partial_Size raw, st))"

definition remoteIndex_Descriptor :: "net_codec \<Rightarrow> 's round_tripper \<Rightarrow> remote_index \<Rightarrow> 's \<Rightarrow> descriptor res \<times> remote_index \<times> 's" where
  "remoteIndex_Descriptor N rt r s =
     (case remoteIndex_RawManifest N rt r s of
        (Inl e, r1, s1) \<Rightarrow> (Inl e, r1, s1)
      | (Inr _, r1, s1) \<Rightarrow> ((case rx_descriptor r1 of Some d \<Rightarrow> Inr d | None \<Rightarrow> Inl nil_deref), r1, s1))"

definition remoteIndex_IndexManifest ::
    "net_codec \<Rightarrow> codec \<Rightarrow> 's round_tripper \<Rightarrow> remote_index \<Rightarrow> 's \<Rightarrow> index_manifest res \<times> remote_index \<times> 's" where
  "remoteIndex_IndexManifest N E rt r s =
     (case remoteIndex_RawManifest N rt r s of (raw, st) \<Rightarrow> (bnd raw (\<lambda>b. ParseIndexManifest E b), st))"

definition isSubset :: "string list \<Rightarrow> string list \<Rightarrow> bool" where
  "isSubset lst required = list_all (\<lambda>value'. value' \<in> set lst) required"

definition matchesPlatform :: "platform \<Rightarrow> platform \<Rightarrow> bool" where
  "matchesPlatform given required =
     (if Architecture given \<noteq> Architecture required \<or> OS given \<noteq> OS required then False
      else if OSVersion required \<noteq> '''' \<and> OSVersion given \<noteq> OSVersion required then False
      else if Variant required \<noteq> '''' \<and> Variant given \<noteq> Variant required then False
      else if \<not> isSubset (OSFeatures given) (OSFeatures required) then False
      else if \<not> isSubset (Features given) (Features required) then False
      else True)"

text \<open>
  The child is described as the index describes it; what fetchManifest says of it is dropped.
\<close>

definition childDescriptor ::
    "net_codec \<Rightarrow> 's round_tripper \<Rightarrow> reference \<Rightarrow> descriptor \<Rightarrow> platform \<Rightarrow> 's \<Rightarrow> remote_descriptor res \<times> 's" where
  "childDescriptor N rt xref child platform s =
     (let ref = RefDigest (Repository_Digest (Context xref) (Hash_String (d_Digest child))) in
      case fetchManifest N rt xref ref [d_MediaType child] s of
        (Inl e, s') \<Rightarrow> (Inl e, s')
      | (Inr (manifest, _), s') \<Rightarrow>
          (Inr \<lparr>rd_Ref = ref, rd_Descriptor = child, rd_Manifest = manifest, rd_platform = platform\<rparr>, s'))"

definition child_platform :: "descriptor \<Rightarrow> platform" where
  "child_platform d = (case d_Platform d of Some p \<Rightarrow> p | None \<Rightarrow> defaultPlatform)"

definition childByPlatform ::
    "net_codec \<Rightarrow> codec \<Rightarrow> 's round_tripper \<Rightarrow> remote_index \<Rightarrow> platform \<Rightarrow> 's \<Rightarrow> remote_descriptor res \<times> remote_index \<times> 's" where
  "childByPlatform N E rt r platform s =
     (case remoteIndex_IndexManifest N E rt r s of
        (Inl e, r1, s1) \<Rightarrow> (Inl e, r1, s1)
      | (Inr index, r1, s1) \<Rightarrow>
          (case find (\<lambda>d. matchesPlatform (child_platform d) platform) (im_Manifests index) of
             Some child \<Rightarrow> (case childDescriptor N rt (rx_Ref r1) child platform s1 of (res, s2) \<Rightarrow> (res, r1, s2))
           | None \<Rightarrow>
               (Inl (ErrMsg (''no child with platform '' @ OS platform @ ''/'' @ Architecture platform @ '' in index '' @ Reference_String (rx_Ref r1))),
                r1, s1)))"

definition childByHash ::
    "net_codec \<Rightarrow> codec \<Rightarrow> 's round_tripper \<Rightarrow> remote_index \<Rightarrow> v1_hash \<Rightarrow> 's \<Rightarrow> remote_descriptor res \<times> remote_index \<times> 's" where
  "childByHash N E rt r h s =
     (case remoteIndex_IndexManifest N E rt r s of
        (Inl e, r1, s1) \<Rightarrow> (Inl e, r1, s1)
      | (Inr index, r1, s1) \<Rightarrow>
          (case find (\<lambda>d. h = d_Digest d) (im_Manifests index) of
             Some child \<Rightarrow> (case childDescriptor N rt (rx_Ref r1) child defaultPlatform s1 of (res, s2) \<Rightarrow> (res, r1, s2))
           | None \<Rightarrow> (Inl (ErrMsg (''no child with digest '' @ Hash_String h @ '' in index '' @ Reference_String (rx_Ref r1))), r1, s1)))"

section \<open>descriptor.go: images and indexes of descriptors\<close>

definition descriptor_image :: "remote_descriptor \<Rightarrow> remote_image" where
  "descriptor_image d =
     \<lparr>ri_Ref = rd_Ref d, ri_manifest = Some (rd_Manifest d), ri_config = None, ri_mediaType = d_MediaType (rd_Descriptor d),
      ri_descriptor = Some (rd_Descriptor d)\<rparr>"

definition descriptor_index :: "remote_descriptor \<Rightarrow> remote_index" where
  "descriptor_index d =
     \<lparr>rx_Ref = rd_Ref d, rx_manifest = Some (rd_Manifest d), rx_mediaType = d_MediaType (rd_Descriptor d),
      rx_descriptor = Some (rd_Descriptor d)\<rparr>"

definition is_schema1 :: "media_type \<Rightarrow> bool" where
  "is_schema1 mt \<longleftrightarrow> mt = DockerManifestSchema1 \<or> mt = DockerManifestSchema1Signed"

text \<open>
  Descriptor.Image follows a chain of indexes down to an image.  The chain is as long as the registry
  makes it, so not to return is a possible result, None.
\<close>

partial_function (option) Descriptor_Image ::
    "net_codec \<Rightarrow> codec \<Rightarrow> 's round_tripper \<Rightarrow> remote_descriptor \<Rightarrow> 's \<Rightarrow> (remote_image res \<times> 's) option" where
  "Descriptor_Image N E rt d s =
     (let mt = d_MediaType (rd_Descriptor d) in
      if is_schema1 mt then Some (Inl (newErrSchema1 mt), s)
      else if IsIndex mt then
        (case childByPlatform N E rt (descriptor_index d) (rd_platform d) s of
           (Inl e, _, s1) \<Rightarrow> Some (Inl e, s1)
         | (Inr child, _, s1) \<Rightarrow> Descriptor_Image N E rt child s1)
      else Some (Inr (descriptor_image d), s))"

definition Descriptor_ImageIndex :: "remote_descriptor \<Rightarrow> remote_index res" where
  "Descriptor_ImageIndex d =
     (let mt = d_MediaType (rd_Descriptor d) in
      if is_schema1 mt then Inl (newErrSchema1 mt)
      else if IsImage mt then Inl (ErrMsg (''unexpected media type for ImageIndex(): '' @ mt @ ''; call Image() instead''))
      else Inr (descriptor_index d))"

definition remoteIndex_Image ::
    "net_codec \<Rightarrow> codec \<Rightarrow> 's round_tripper \<Rightarrow> remote_index \<Rightarrow> v1_hash \<Rightarrow> 's \<Rightarrow> (remote_image res \<times> remote_index \<times> 's) option" where
  "remoteIndex_Image N E rt r h s =
     (case childByHash N E rt r h s of
        (Inl e, st) \<Rightarrow> Some (Inl e, st)
      | (Inr d, r1, s1) \<Rightarrow> map_option (\<lambda>(res, s2). (res, r1, s2)) (Descriptor_Image N E rt d s1))"

definition remoteIndex_ImageIndex ::
    "net_codec \<Rightarrow> codec \<Rightarrow> 's round_tripper \<Rightarrow> remote_index \<Rightarrow> v1_hash \<Rightarrow> 's \<Rightarrow> remote_index res \<times> remote_index \<times> 's" where
  "remoteIndex_ImageIndex N E rt r h s =
     (case childByHash N E rt r h s of (res, st) \<Rightarrow> (bnd res Descriptor_ImageIndex, st))"

section \<open>The exported functions\<close>

text \<open>
  They return the object with its client: the options, which hold the transport, and the session.
\<close>

type_synonym 's client = "'s remote_options \<times> session"

definition makeFetcher :: "net_env \<Rightarrow> reference \<Rightarrow> 's remote_options \<Rightarrow> 's \<Rightarrow> session res \<times> 's" where
  "makeFetcher env ref o' s = connect env (repo_Registry (Context ref)) o' [Scope ref PullScope] s"

definition with_fetcher ::
    "net_env \<Rightarrow> 's round_tripper \<Rightarrow> reference \<Rightarrow> 's remote_option list \<Rightarrow>
     ('s remote_options \<Rightarrow> session \<times> 's \<Rightarrow> 'r res \<times> session \<times> 's) \<Rightarrow> 's \<Rightarrow> ('r \<times> 's client) res \<times> 's" where
  "with_fetcher env dt ref options work s =
     (case remote_makeOptions dt (RegistryStr (repo_Registry (Context ref))) options of
        Inl e \<Rightarrow> (Inl e, s)
      | Inr o' \<Rightarrow>
          (case makeFetcher env ref o' s of
             (Inl e, s1) \<Rightarrow> (Inl e, s1)
           | (Inr ses, s1) \<Rightarrow> (case work o' (ses, s1) of (r, ses', s2) \<Rightarrow> (bnd r (\<lambda>x. Inr (x, o', ses')), s2))))"

definition remote_get ::
    "net_env \<Rightarrow> 's round_tripper \<Rightarrow> reference \<Rightarrow> media_type list \<Rightarrow> 's remote_option list \<Rightarrow> 's \<Rightarrow> (remote_descriptor \<times> 's client) res \<times> 's" where
  "remote_get env dt ref acceptable options =
     with_fetcher env dt ref options (\<lambda>o' st.
       case fetchManifest (ne_codec env) (session_transport env o') ref ref acceptable st of
         (r, st') \<Rightarrow>
           (bnd r (\<lambda>(b, desc). Inr \<lparr>rd_Ref = ref, rd_Descriptor = desc, rd_Manifest = b, rd_platform = ro_platform o'\<rparr>), st'))"

definition all_acceptable :: "media_type list" where
  "all_acceptable = [DockerManifestSchema1, DockerManifestSchema1Signed] @ acceptableImageMediaTypes @ acceptableIndexMediaTypes"

definition remote_Get ::
    "net_env \<Rightarrow> 's round_tripper \<Rightarrow> reference \<Rightarrow> 's remote_option list \<Rightarrow> 's \<Rightarrow> (remote_descriptor \<times> 's client) res \<times> 's" where
  "remote_Get env dt ref = remote_get env dt ref all_acceptable"

definition remote_Head :: "net_env \<Rightarrow> 's round_tripper \<Rightarrow> reference \<Rightarrow> 's remote_option list \<Rightarrow> 's \<Rightarrow> descriptor res \<times> 's" where
  "remote_Head env dt ref options s =
     (case with_fetcher env dt ref options
             (\<lambda>o' st. headManifest (ne_codec env) (session_transport env o') ref ref all_acceptable st) s of
        (r, s') \<Rightarrow> (bnd r (\<lambda>(d, _). Inr d), s'))"

definition remote_Image ::
    "net_env \<Rightarrow> codec \<Rightarrow> 's round_tripper \<Rightarrow> reference \<Rightarrow> 's remote_option list \<Rightarrow> 's \<Rightarrow> ((remote_image \<times> 's client) res \<times> 's) option" where
  "remote_Image env E dt ref options s =
     (case remote_Get env dt ref options s of
        (Inl e, s1) \<Rightarrow> Some (Inl e, s1)
      | (Inr (d, o', ses), s1) \<Rightarrow>
          map_option (\<lambda>(r, ses', s2). (bnd r (\<lambda>img. Inr (img, o', ses')), s2))
            (Descriptor_Image (ne_codec env) E (session_transport env o') d (ses, s1)))"

definition remote_Index ::
    "net_env \<Rightarrow> 's round_tripper \<Rightarrow> reference \<Rightarrow> 's remote_option list \<Rightarrow> 's \<Rightarrow> (remote_index \<times> 's client) res \<times> 's" where
  "remote_Index env dt ref options s =
     (case remote_get env dt ref acceptableIndexMediaTypes options s of
        (r, s1) \<Rightarrow> (bnd r (\<lambda>(d, c). bnd (Descriptor_ImageIndex d) (\<lambda>x. Inr (x, c))), s1))"

section \<open>layer.go\<close>

text \<open>http.Response.ContentLength: -1 when it is not known.\<close>

definition ContentLength :: "http_response \<Rightarrow> int" where
  "ContentLength resp =
     (case parse_int64 (get_first (rs_Header resp) ''Content-Length'') of
        Inr n \<Rightarrow> if 0 \<le> n then n else -1
      | Inl _ \<Rightarrow> -1)"

definition remoteLayer_Size :: "net_codec \<Rightarrow> 's round_tripper \<Rightarrow> reference \<Rightarrow> v1_hash \<Rightarrow> 's \<Rightarrow> int res \<times> 's" where
  "remoteLayer_Size N rt ref h s = (case headBlob N rt ref h s of (r, s') \<Rightarrow> (bnd r (\<lambda>resp. Inr (ContentLength resp)), s'))"

definition remote_layer :: "net_codec \<Rightarrow> 's round_tripper \<Rightarrow> reference \<Rightarrow> v1_hash \<Rightarrow> 's \<Rightarrow> compressed_layer" where
  "remote_layer N rt ref h s =
     \<lparr>cl_Digest = Inr h, cl_Compressed = read_to_end (fst (fetchBlob N rt ref h s)), cl_Size = fst (remoteLayer_Size N rt ref h s),
      cl_MediaType = Inr DockerLayer, cl_DiffID = None, cl_Descriptor = None, cl_UncompressedSize = None\<rparr>"

text \<open>Layer gives the hash; the methods of the layer are those of CompressedToLayer, remote_layer.\<close>

definition remote_Layer ::
    "net_env \<Rightarrow> 's round_tripper \<Rightarrow> digest \<Rightarrow> 's remote_option list \<Rightarrow> 's \<Rightarrow> (v1_hash \<times> 's client) res \<times> 's" where
  "remote_Layer env dt d options = with_fetcher env dt (RefDigest d) options (\<lambda>_ st. (NewHash (Digest_Identifier d), st))"

section \<open>list.go, catalog.go\<close>

text \<open>encoding/json on the pages: the value of the key with the names, if the object has that key.\<close>

record list_codec =
  decode_tags :: "bytes \<Rightarrow> string list option res"
  decode_repos :: "bytes \<Rightarrow> string list option res"

definition getNextPageURL :: "http_response \<times> http_request \<Rightarrow> url option res" where
  "getNextPageURL r =
     (let link = get_first (rs_Header (fst r)) ''Link'' in
      case link of
        [] \<Rightarrow> Inr None
      | c # rest \<Rightarrow>
          if c \<noteq> CHR ''<'' then Inl (ErrMsg (''failed to parse link header: missing '<' in: '' @ link))
          else if CHR ''>'' \<notin> set link then Inl (ErrMsg (''failed to parse link header: missing '>' in: '' @ link))
          else bnd (url_resolve (rq_URL (snd r)) (takeWhile (\<lambda>x. x \<noteq> CHR ''>'') rest)) (\<lambda>u. Inr (Some u)))"

text \<open>
  The loop over the pages.  The variable parsed keeps its value when a page lacks the key; the chain
  of links may not end, so not to return is a possible result, None.
\<close>

partial_function (option) list_pages ::
    "(bytes \<Rightarrow> string list option res) \<Rightarrow> net_codec \<Rightarrow> 's round_tripper \<Rightarrow> url \<Rightarrow> string list \<Rightarrow> string list \<Rightarrow> 's \<Rightarrow>
     (string list res \<times> 's) option" where
  "list_pages dec N rt uri parsed acc s =
     (case do_checked N rt (new_request ''GET'' uri []) [StatusOK] s of
        (Inl e, s1) \<Rightarrow> Some (Inl e, s1)
      | (Inr r, s1) \<Rightarrow>
          (case dec (rs_Body (fst r)) of
             Inl e \<Rightarrow> Some (Inl e, s1)
           | Inr page \<Rightarrow>
               let parsed' = (case page of Some names \<Rightarrow> names | None \<Rightarrow> parsed) in
               (case getNextPageURL r of
                  Inl e \<Rightarrow> Some (Inl e, s1)
                | Inr None \<Rightarrow> Some (Inr (acc @ parsed'), s1)
                | Inr (Some u) \<Rightarrow> list_pages dec N rt u parsed' (acc @ parsed') s1)))"

definition tags_url :: "repository \<Rightarrow> url" where
  "tags_url repo =
     \<lparr>u_Scheme = Scheme (repo_Registry repo), u_Host = RegistryStr (repo_Registry repo),
      u_Path = ''/v2/'' @ RepositoryStr repo @ ''/tags/list'', u_Query = [(''n'', ''1000'')]\<rparr>"

definition catalog_url :: "registry \<Rightarrow> params \<Rightarrow> url" where
  "catalog_url reg query = \<lparr>u_Scheme = Scheme reg, u_Host = RegistryStr reg, u_Path = ''/v2/_catalog'', u_Query = query\<rparr>"

definition session_pages ::
    "net_env \<Rightarrow> 's round_tripper \<Rightarrow> registry \<Rightarrow> string list \<Rightarrow> 's remote_option list \<Rightarrow> (bytes \<Rightarrow> string list option res) \<Rightarrow> url \<Rightarrow> 's \<Rightarrow>
     (string list res \<times> 's) option" where
  "session_pages env dt reg scopes options dec uri s =
     (case remote_makeOptions dt (RegistryStr reg) options of
        Inl e \<Rightarrow> Some (Inl e, s)
      | Inr o' \<Rightarrow>
          (case connect env reg o' scopes s of
             (Inl e, s1) \<Rightarrow> Some (Inl e, s1)
           | (Inr ses, s1) \<Rightarrow>
               map_option (\<lambda>(r, _, s2). (r, s2)) (list_pages dec (ne_codec env) (session_transport env o') uri [] [] (ses, s1))))"

definition remote_List ::
    "list_codec \<Rightarrow> net_env \<Rightarrow> 's round_tripper \<Rightarrow> repository \<Rightarrow> 's remote_option list \<Rightarrow> 's \<Rightarrow> (string list res \<times> 's) option" where
  "remote_List L env dt repo options =
     session_pages env dt (repo_Registry repo) [Repository_Scope repo PullScope] options (decode_tags L) (tags_url repo)"

definition Catalog ::
    "list_codec \<Rightarrow> net_env \<Rightarrow> 's round_tripper \<Rightarrow> registry \<Rightarrow> 's remote_option list \<Rightarrow> 's \<Rightarrow> (string list res \<times> 's) option" where
  "Catalog L env dt target options =
     session_pages env dt target [Registry_Scope target PullScope] options (decode_repos L) (catalog_url target [(''n'', ''10000'')])"

definition CatalogPage ::
    "list_codec \<Rightarrow> net_env \<Rightarrow> 's round_tripper \<Rightarrow> registry \<Rightarrow> string \<Rightarrow> int \<Rightarrow> 's remote_option list \<Rightarrow> 's \<Rightarrow> string list res \<times> 's" where
  "CatalogPage L env dt target from' n options =
     with_session env dt target [Registry_Scope target PullScope] options (\<lambda>o' st.
       case do_checked (ne_codec env) (session_transport env o')
              (new_request ''GET'' (catalog_url target [(''last'', from'), (''n'', show_int n)]) []) [StatusOK] st of
         (r, st') \<Rightarrow>
           (bnd r (\<lambda>rr. bnd (decode_repos L (rs_Body (fst rr))) (\<lambda>page. Inr (case page of Some names \<Rightarrow> names | None \<Rightarrow> []))), st'))"

end
