(* ===== verification/Pull_Safety.thy ===== *)
theory Pull_Safety
  imports Remote_Read Validate
begin

text \<open>
  What a client can rely on when it pulls by digest, whatever the registry and the network do: the
  manifest, the config file and the layers that it is given have the digests that lead to them; and
  the two places where the code lets something else through.
\<close>

section \<open>Manifests\<close>

lemma Hash_String_sha: "Hash_String h = Hash_String (sha b) \<longleftrightarrow> h = sha b"
proof
  assume eq: "Hash_String h = Hash_String (sha b)"
  have "CHR '':'' \<notin> set (sha256_hex b)" using sha256_hex_chars [of b] hexChars_no_colon by auto
  then have c: "count_list (Hash_String (sha b)) (CHR '':'') = 1"
    by (simp add: Hash_String_def sha_def SHA256_def count_notin)
  have "count_list (Hash_String h) (CHR '':'') = 1" using c eq by simp
  then have "CHR '':'' \<notin> set (Algorithm h)" by (simp add: Hash_String_def count_list_0_iff)
  moreover have "Algorithm h @ '':'' @ Hex h = ''sha256'' @ '':'' @ sha256_hex b"
    using eq by (simp add: Hash_String_def sha_def SHA256_def)
  ultimately have "Algorithm h = ''sha256'' \<and> Hex h = sha256_hex b"
    by (simp add: append_eq_append_conv2) (auto simp: Cons_eq_append_conv append_eq_Cons_conv)
  then show "h = sha b" by (cases h) (simp add: sha_def SHA256_def)
qed simp

text \<open>
  What fetchManifest returns: the body of the response; fetched by digest, the body has that digest
  unless the response says that it is a signed manifest of the old format.
\<close>

lemma manifest_of_response_verified:
  assumes "manifest_of_response fref ref resp = Inr (b, desc)"
  shows "b = rs_Body resp" and "d_Size desc = int (length b)" and "d_MediaType desc = get_first (rs_Header resp) ''Content-Type''"
    and "d_MediaType desc \<noteq> DockerManifestSchema1Signed \<Longrightarrow> d_Digest desc = sha b"
    and "ref = RefDigest d \<Longrightarrow> Hash_String (d_Digest desc) = DigestStr d"
  using assms
  by (auto simp: manifest_of_response_def Let_def check_digest_def plain_descriptor_def sha_def SHA256_def
      split: if_splits sum.splits reference.splits)

lemma fetchManifest_verified:
  assumes "fetchManifest N rt fref (RefDigest d) acc s = (Inr (b, desc), s')"
  shows "Hash_String (d_Digest desc) = DigestStr d \<and> d_Size desc = int (length b) \<and>
     (d_MediaType desc \<noteq> DockerManifestSchema1Signed \<longrightarrow> d_Digest desc = sha b)"
  using assms manifest_of_response_verified
  by (fastforce simp: fetchManifest_def split: prod.splits)

section \<open>Blobs\<close>

lemma read_verified_body: "read_to_end (VerifyReadCloser rs h) = Inr b \<Longrightarrow> sha b = h"
  using VerifyReadCloser_spec [of rs h b] by (auto simp: read_to_end_def)

lemma read_all_ReadAll: "read_all rs = (case ReadAll rs of (b, None) \<Rightarrow> Inr b | (b, Some e) \<Rightarrow> Inl e)"
  by (induction rs rule: ReadAll.induct) (auto split: prod.splits option.splits)

section \<open>Images\<close>

text \<open>
  What a digest vouches for: the manifest with that digest, and what is vouched for by the digest of a
  child, if the manifest is that of an index.
\<close>

inductive vouched :: "codec \<Rightarrow> v1_hash \<Rightarrow> bytes \<Rightarrow> bool" for E where
  vouched_itself: "vouched E (sha raw) raw"
| vouched_child: "ParseIndexManifest E raw0 = Inr im \<Longrightarrow> child \<in> set (im_Manifests im) \<Longrightarrow> vouched E (d_Digest child) raw \<Longrightarrow>
    vouched E (sha raw0) raw"

text \<open>A client whose responses are never said to be signed manifests of the old format.\<close>

definition no_signed_schema1 :: "net_codec \<Rightarrow> 's round_tripper \<Rightarrow> bool" where
  "no_signed_schema1 N rt \<longleftrightarrow>
     (\<forall>req codes s r s'. do_checked N rt req codes s = (Inr r, s') \<longrightarrow>
        get_first (rs_Header (fst r)) ''Content-Type'' \<noteq> DockerManifestSchema1Signed)"

lemma DigestStr_child: "DigestStr (Repository_Digest repo ident) = ident"
  by (simp add: Repository_Digest_def DigestStr_def)

lemma childDescriptor_verified:
  assumes "no_signed_schema1 N rt" and "childDescriptor N rt xref child p s = (Inr d, s')"
  shows "sha (rd_Manifest d) = d_Digest child \<and> rd_Descriptor d = child"
proof -
  let ?ref = "RefDigest (Repository_Digest (Context xref) (Hash_String (d_Digest child)))"
  from assms(2) obtain m desc where f: "fetchManifest N rt xref ?ref [d_MediaType child] s = (Inr (m, desc), s')"
    and d: "d = \<lparr>rd_Ref = ?ref, rd_Descriptor = child, rd_Manifest = m, rd_platform = p\<rparr>"
    by (auto simp: childDescriptor_def Let_def split: prod.splits sum.splits)
  from f obtain r where r: "do_checked N rt (manifest_request ''GET'' xref ?ref [d_MediaType child]) [StatusOK] s = (Inr r, s')"
    "manifest_of_response xref ?ref (fst r) = Inr (m, desc)"
    by (auto simp: fetchManifest_def split: prod.splits)
  from r(1) assms(1) have "get_first (rs_Header (fst r)) ''Content-Type'' \<noteq> DockerManifestSchema1Signed"
    unfolding no_signed_schema1_def by blast
  with manifest_of_response_verified [OF r(2)] have "d_Digest desc = sha m" "Hash_String (d_Digest desc) = Hash_String (d_Digest child)"
    by (auto simp: DigestStr_child)
  then have "Hash_String (d_Digest child) = Hash_String (sha m)" by simp
  then have "d_Digest child = sha m" unfolding Hash_String_sha .
  with d show ?thesis by simp
qed

lemma childByPlatform_first:
  assumes "childByPlatform N E rt (descriptor_index d) p s = (Inr c, r1, s1)"
  obtains im child where "ParseIndexManifest E (rd_Manifest d) = Inr im"
    "find (\<lambda>x. matchesPlatform (child_platform x) p) (im_Manifests im) = Some child"
    "childDescriptor N rt (rd_Ref d) child p s = (Inr c, s1)"
  using assms
  by (auto simp: childByPlatform_def remoteIndex_IndexManifest_def remoteIndex_RawManifest_def descriptor_index_def
      split: sum.splits option.splits prod.splits)

definition image_vouched :: "codec \<Rightarrow> v1_hash \<Rightarrow> remote_image \<Rightarrow> bool" where
  "image_vouched E h img \<longleftrightarrow>
     (case ri_manifest img of None \<Rightarrow> False | Some raw \<Rightarrow> vouched E h raw) \<and> ri_config img = None \<and>
     \<not> IsIndex (ri_mediaType img) \<and> \<not> is_schema1 (ri_mediaType img)"

lemma Descriptor_Image_vouched:
  assumes "Descriptor_Image N E rt d s = Some res"
  shows "no_signed_schema1 N rt \<longrightarrow> (case fst res of Inl _ \<Rightarrow> True | Inr img \<Rightarrow> image_vouched E (sha (rd_Manifest d)) img)"
proof (rule Descriptor_Image.raw_induct
    [where P = "\<lambda>N E rt d s res. no_signed_schema1 N rt \<longrightarrow>
       (case fst res of Inl _ \<Rightarrow> True | Inr img \<Rightarrow> image_vouched E (sha (rd_Manifest d)) img)", OF _ assms], rule impI)
  fix f and N :: net_codec and E and rt :: "'s round_tripper" and d s res
  assume IH: "\<And>N E rt d s res. f N E rt d s = Some res \<Longrightarrow> no_signed_schema1 N rt \<longrightarrow>
       (case fst res of Inl _ \<Rightarrow> True | Inr img \<Rightarrow> image_vouched E (sha (rd_Manifest d)) img)"
    and step: "(let mt = d_MediaType (rd_Descriptor d)
        in if is_schema1 mt then Some (Inl (newErrSchema1 mt), s)
           else if IsIndex mt
                then case childByPlatform N E rt (descriptor_index d) (rd_platform d) s of
                     (Inl e, x, s1) \<Rightarrow> Some (Inl e, s1)
                     | (Inr child, x, s1) \<Rightarrow> f N E rt child s1
                else Some (Inr (descriptor_image d), s)) = Some res"
    and ns: "no_signed_schema1 N rt"
  show "case fst res of Inl _ \<Rightarrow> True | Inr img \<Rightarrow> image_vouched E (sha (rd_Manifest d)) img"
  proof (cases "IsIndex (d_MediaType (rd_Descriptor d)) \<and> \<not> is_schema1 (d_MediaType (rd_Descriptor d))")
    case False
    with step show ?thesis
      by (auto simp: Let_def descriptor_image_def image_vouched_def vouched_itself split: if_splits)
  next
    case True
    show ?thesis
    proof (cases "childByPlatform N E rt (descriptor_index d) (rd_platform d) s")
      case (fields r x s1)
      show ?thesis
      proof (cases r)
        case (Inl e)
        with step True fields show ?thesis by (simp add: Let_def) (auto)
      next
        case (Inr c)
        from step True fields Inr have r: "f N E rt c s1 = Some res" by (simp add: Let_def)
        from fields Inr have "childByPlatform N E rt (descriptor_index d) (rd_platform d) s = (Inr c, x, s1)" by simp
        then obtain im child where im: "ParseIndexManifest E (rd_Manifest d) = Inr im"
          "find (\<lambda>x. matchesPlatform (child_platform x) (rd_platform d)) (im_Manifests im) = Some child"
          "childDescriptor N rt (rd_Ref d) child (rd_platform d) s = (Inr c, s1)" by (rule childByPlatform_first)
        have v: "sha (rd_Manifest c) = d_Digest child" using childDescriptor_verified [OF ns im(3)] by simp
        have m: "child \<in> set (im_Manifests im)" using im(2) by (auto simp: find_Some_iff)
        from IH [OF r] ns v vouched_child [OF im(1) m] show ?thesis
          by (auto simp: image_vouched_def split: sum.splits option.splits)
      qed
    qed
  qed
qed

text \<open>What the methods of an image return, whatever the transport does.\<close>

lemma remote_config_verified:
  assumes "ri_manifest r = Some raw" and "ri_config r = None"
    and "remoteImage_RawConfigFile N E rt r s = (Inr b, r', s')"
  shows "\<exists>m. ParseManifest E raw = Inr m \<and> d_Digest (m_Config m) = sha b"
proof -
  from assms obtain m body where m: "ParseManifest E raw = Inr m"
    and body: "fetchBlob N rt (ri_Ref r) (d_Digest (m_Config m)) s = (Inr body, s')" "ReadAll body = (b, None)"
    by (auto simp: remoteImage_RawConfigFile_def remoteImage_RawManifest_def partial_Manifest_def split: sum.splits prod.splits option.splits)
  from body(1) obtain rs where "VerifyReadCloser rs (d_Digest (m_Config m)) = Inr body"
    by (auto simp: fetchBlob_def split: prod.splits)
  with body(2) have "read_to_end (VerifyReadCloser rs (d_Digest (m_Config m))) = Inr b"
    by (simp add: read_to_end_def read_all_ReadAll)
  from read_verified_body [OF this] m show ?thesis by auto
qed

lemma try_sources_verified: "try_sources N rt h us e s = (r, s') \<Longrightarrow> read_to_end r = Inr b \<Longrightarrow> sha b = h"
proof (induction N rt h us e s rule: try_sources.induct)
  case (2 N rt h u us e s)
  then show ?case
    by (auto split: prod.splits sum.splits dest: read_verified_body)
qed (auto simp: read_to_end_def)

lemma remote_layer_verified:
  assumes "remoteImageLayer_Compressed N E rt r h s = (res, st)" and "read_to_end res = Inr b"
  shows "sha b = h"
proof -
  obtain m r1 s1 where m: "remoteImageLayer_Manifest N E rt r s = (m, r1, s1)" by (rule prod_cases3)
  show ?thesis
  proof (cases "BlobDescriptor m h")
    case (Inl e)
    with assms m show ?thesis by (simp add: remoteImageLayer_Compressed_def read_to_end_def) auto
  next
    case (Inr d)
    show ?thesis
    proof (cases "map_res url_Parse (d_URLs d)")
      case (Inl e)
      with assms m Inr show ?thesis by (simp add: remoteImageLayer_Compressed_def read_to_end_def) auto
    next
      case us: (Inr us)
      obtain res2 s2 where t: "try_sources N rt h (fetcher_url (ri_Ref r) ''blobs'' (Hash_String h) # us) nil_deref s1 = (res2, s2)"
        by (rule prod.exhaust)
      with assms(1) m Inr us have "res2 = res" by (simp add: remoteImageLayer_Compressed_def del: try_sources.simps)
      with try_sources_verified [OF t] assms(2) show ?thesis by simp
    qed
  qed
qed

section \<open>Two ways around the verification\<close>

text \<open>
  A child of an index is asked for by digest, but a response that calls itself a signed manifest of
  the old format may have any digest that its header claims, and the media type of the response is
  forgotten: the child is taken for what the index says it is.
\<close>

definition lying_registry :: "v1_hash \<Rightarrow> bytes \<Rightarrow> unit round_tripper" where
  "lying_registry h b req s =
     (Inr \<lparr>rs_StatusCode = StatusOK,
           rs_Header = [(''Content-Type'', DockerManifestSchema1Signed), (''Docker-Content-Digest'', Hash_String h)],
           rs_Body = b\<rparr>, req, s)"

lemma lying_do_checked:
  "do_checked N (lying_registry h b) req [StatusOK] s =
     (Inr (\<lparr>rs_StatusCode = StatusOK,
            rs_Header = [(''Content-Type'', DockerManifestSchema1Signed), (''Docker-Content-Digest'', Hash_String h)],
            rs_Body = b\<rparr>, req), s)"
  by (subst do_checked_def, subst client_Do_direct [where rt = "lying_registry h b", OF lying_registry_def])
     (simp_all add: is_redirect_def StatusOK_def CheckError_def)

lemma child_not_verified:
  assumes "wf_hash (d_Digest child)"
  shows "\<exists>d. childDescriptor N (lying_registry (d_Digest child) b) xref child p () = (Inr d, ()) \<and>
     rd_Manifest d = b \<and> rd_Descriptor d = child"
  using assms
  by (simp add: childDescriptor_def Let_def fetchManifest_def lying_do_checked manifest_of_response_def check_digest_def
      NewHash_String DigestStr_child)

text \<open>
  RawConfigFile fails on a config that does not have the digest of the manifest, but keeps it, and
  returns it when it is called again.
\<close>

lemma config_verified_once:
  assumes "remoteImage_RawConfigFile N E rt r s = (Inl e, r', s')" and "ri_config r' = Some c"
  shows "remoteImage_RawConfigFile N E rt r' s2 = (Inr c, r', s2)"
  using assms by (simp add: remoteImage_RawConfigFile_def)

lemma config_kept_unverified:
  assumes "ri_manifest r = Some raw" and "ri_config r = None" and "ParseManifest E raw = Inr m"
    and "do_checked N rt (new_request ''GET'' (fetcher_url (ri_Ref r) ''blobs'' (Hash_String (d_Digest (m_Config m)))) []) [StatusOK] s = (Inr rr, s')"
    and "wf_hash (d_Digest (m_Config m))" and "sha (rs_Body (fst rr)) \<noteq> d_Digest (m_Config m)"
  shows "\<exists>e r'. remoteImage_RawConfigFile N E rt r s = (Inl e, r', s') \<and>
     remoteImage_RawConfigFile N E rt r' s' = (Inr (rs_Body (fst rr)), r', s')"
proof -
  let ?b = "rs_Body (fst rr)" and ?h = "d_Digest (m_Config m)"
  obtain e where "VerifyReadCloser [ReadEOF ?b] ?h = Inr [ReadErr ?b e, snd (verifyReader_Read ?h ?b (ReadEOF []))]"
    using assms(5,6) by (cases ?h) (auto simp: VerifyReadCloser_def Hasher_def wf_hash_def verifyReader_Read_def Let_def sha_def SHA256_def)
  then have "remoteImage_RawConfigFile N E rt r s = (Inl e, r\<lparr>ri_config := Some ?b\<rparr>, s')"
    using assms(1-4) by (simp add: remoteImage_RawConfigFile_def remoteImage_RawManifest_def partial_Manifest_def fetchBlob_def)
  moreover from this have "remoteImage_RawConfigFile N E rt (r\<lparr>ri_config := Some ?b\<rparr>) s' = (Inr ?b, r\<lparr>ri_config := Some ?b\<rparr>, s')"
    by (rule config_verified_once) simp
  ultimately show ?thesis by blast
qed

section \<open>A registry that serves one manifest\<close>

definition bare_codec :: net_codec where
  "bare_codec = \<lparr>decode_errors = \<lambda>_. [], decode_token = \<lambda>_. Inl (ErrMsg ''not JSON''), response_challenges = \<lambda>_. []\<rparr>"

definition one_manifest :: "bytes \<Rightarrow> unit round_tripper" where
  "one_manifest b req s = (Inr \<lparr>rs_StatusCode = StatusOK, rs_Header = [(''Content-Type'', DockerManifestSchema2)], rs_Body = b\<rparr>, req, s)"

lemma one_manifest_do:
  "do_checked N (one_manifest b) req codes s =
     (bnd (CheckError N (\<lparr>rs_StatusCode = StatusOK, rs_Header = [(''Content-Type'', DockerManifestSchema2)], rs_Body = b\<rparr>, req) codes)
        (\<lambda>_. Inr (\<lparr>rs_StatusCode = StatusOK, rs_Header = [(''Content-Type'', DockerManifestSchema2)], rs_Body = b\<rparr>, req)), s)"
  by (subst do_checked_def, subst client_Do_direct [where rt = "one_manifest b", OF one_manifest_def])
     (simp_all add: is_redirect_def StatusOK_def)

lemma one_manifest_plain: "no_signed_schema1 N (one_manifest b)"
  by (auto simp: no_signed_schema1_def one_manifest_do media_type_defs)

definition one_digest :: "bytes \<Rightarrow> digest" where
  "one_digest b = Repository_Digest \<lparr>repo_Registry = \<lparr>reg_insecure = False, reg_registry = ''r.io''\<rparr>, repo_repository = ''app''\<rparr> (Hash_String (sha b))"

lemma one_manifest_fetch:
  "fetchManifest bare_codec (one_manifest b) fref (RefDigest (one_digest b)) acc () =
     (Inr (b, plain_descriptor (sha b) (int (length b)) DockerManifestSchema2), ())"
proof -
  have "snd (SHA256 b) = int (length b)" by (simp add: SHA256_def)
  then show ?thesis
    by (auto simp: fetchManifest_def one_manifest_do manifest_of_response_def check_digest_def one_digest_def DigestStr_child
        CheckError_def sha_def [symmetric] media_type_defs Let_def split: sum.splits)
qed



end
