(* ===== verification/Image_Copies.thy ===== *)
theory Image_Copies
  imports V1_Image
begin

text \<open>
  Images that are copies of one another: an image that has been written somewhere and is read back
  by what serves its manifest, its config file and its layers.
\<close>

text \<open>A manifest that describes each of its blobs in one way.\<close>

definition descriptors_agree :: "manifest \<Rightarrow> bool" where
  "descriptors_agree m \<longleftrightarrow>
     (\<forall>d\<in>set (m_Config m # m_Layers m). \<forall>d'\<in>set (m_Config m # m_Layers m). d_Digest d = d_Digest d' \<longrightarrow> d = d')"

lemma BlobDescriptor_once:
  assumes "descriptors_agree m" and "d \<in> set (m_Layers m)"
  shows "BlobDescriptor (Inr m) (d_Digest d) = Inr d"
proof (cases "d_Digest (m_Config m) = d_Digest d")
  case True
  with assms show ?thesis by (auto simp: BlobDescriptor_def descriptors_agree_def)
next
  case False
  obtain d' where d': "find (\<lambda>l. d_Digest l = d_Digest d) (m_Layers m) = Some d'"
    using assms(2) by (cases "find (\<lambda>l. d_Digest l = d_Digest d) (m_Layers m)") (auto simp: find_None_iff)
  then have "d' \<in> set (m_Layers m)" "d_Digest d' = d_Digest d" by (auto simp: find_Some_iff)
  with assms have "d' = d" unfolding descriptors_agree_def by auto
  with d' False show ?thesis by (simp add: BlobDescriptor_def)
qed

lemma coherent_contents:
  assumes "list_all2 (layer_matches E) ls ds" and "list_all2 (\<lambda>l h. l_DiffID l = Inr h) ls hs"
  shows "\<exists>cs. list_all2 (\<lambda>l c. l_Compressed l = Inr c) ls cs \<and>
     list_all2 (\<lambda>c d. d_Digest d = sha c \<and> d_Size d = int (length c)) cs ds \<and>
     list_all2 (\<lambda>c h. \<exists>u. gunzip E c = Inr u \<and> h = sha u) cs hs"
  using assms
proof (induction ls ds arbitrary: hs rule: list_all2_induct)
  case (Cons l ls d ds)
  from Cons.prems obtain h hs' where hs: "hs = h # hs'" "l_DiffID l = Inr h" "list_all2 (\<lambda>l h. l_DiffID l = Inr h) ls hs'"
    by (auto simp: list_all2_Cons1)
  from Cons.IH [OF hs(3)] obtain cs where cs: "list_all2 (\<lambda>l c. l_Compressed l = Inr c) ls cs"
    "list_all2 (\<lambda>c d. d_Digest d = sha c \<and> d_Size d = int (length c)) cs ds"
    "list_all2 (\<lambda>c h. \<exists>u. gunzip E c = Inr u \<and> h = sha u) cs hs'" by blast
  from Cons.hyps(1) obtain c u where "l_Compressed l = Inr c" "gunzip E c = Inr u" "d_Digest d = sha c" "l_DiffID l = Inr (sha u)"
    "d_Size d = int (length c)"
    by (auto simp: layer_matches_def elim: wf_layerE)
  with cs hs show ?case by (intro exI [of _ "c # cs"]) auto
qed simp

lemma functional_zipI:
  assumes "length xs = length ys" and "\<And>i j. i < length xs \<Longrightarrow> j < length xs \<Longrightarrow> xs ! i = xs ! j \<Longrightarrow> ys ! i = ys ! j"
  shows "functional (zip xs ys)"
proof -
  have "b = b'" if p: "(a, b) \<in> set (zip xs ys)" "(a, b') \<in> set (zip xs ys)" for a b b'
  proof -
    obtain i j where "i < length xs" "a = xs ! i" "b = ys ! i" "j < length xs" "a = xs ! j" "b' = ys ! j"
      using p assms(1) by (auto simp: set_zip)
    then show ?thesis using assms(2) [of i j] by simp
  qed
  then show ?thesis unfolding functional_def by blast
qed

lemma map_res_Inr: "map_res (\<lambda>x. Inr (f x)) xs = Inr (map f xs)"
  by (induction xs) auto

definition pulled_as :: "codec \<Rightarrow> image \<Rightarrow> bytes \<Rightarrow> bytes \<Rightarrow> bytes list \<Rightarrow> bool" where
  "pulled_as E pulled rm rc cs \<longleftrightarrow>
     coherent E pulled \<and> i_RawManifest pulled = Inr rm \<and> i_Digest pulled = Inr (sha rm) \<and> i_RawConfigFile pulled = Inr rc \<and>
     (\<exists>ls. i_Layers pulled = Inr ls \<and> map l_Compressed ls = map Inr cs)"

text \<open>What serves a layer with some contents under its descriptor.\<close>

definition serves_blob :: "codec \<Rightarrow> compressed_image_core \<Rightarrow> descriptor \<Rightarrow> bytes \<Rightarrow> v1_hash \<Rightarrow> bool" where
  "serves_blob E core d c h =
     (case cic_LayerByDigest core (d_Digest d) of
        Inl _ \<Rightarrow> False
      | Inr cl \<Rightarrow>
          cl_Compressed cl = Inr c \<and> cl_Digest cl = Inr (d_Digest d) \<and> cl_Size cl = Inr (d_Size d) \<and>
          cl_MediaType cl = Inr (d_MediaType d) \<and> cl_DiffID cl \<in> {None, Some (Inr h)})"

text \<open>Whatever serves contents under descriptors and a config file with their hashes is a coherent image of them.\<close>

lemma copy_of_contents:
  assumes dm: "decode_manifest E rm = Inr m" and dc: "decode_config E rc = Inr cf"
    and cd: "d_Digest (m_Config m) = sha rc" "d_Size (m_Config m) = int (length rc)"
    and cs: "list_all2 (\<lambda>c d. d_Digest d = sha c \<and> d_Size d = int (length c)) cs (m_Layers m)"
      "list_all2 (\<lambda>c h. \<exists>u. gunzip E c = Inr u \<and> h = sha u) cs (rf_DiffIDs (cf_RootFS cf))"
    and f: "functional (zip (rf_DiffIDs (cf_RootFS cf)) (map d_Digest (m_Layers m)))"
    and raw: "cic_RawManifest core = Inr rm" and cfg: "cic_RawConfigFile core = Inr rc" and mt: "is_ok (cic_MediaType core)"
    and blobs: "\<And>k. k < length cs \<Longrightarrow> serves_blob E core (m_Layers m ! k) (cs ! k) (rf_DiffIDs (cf_RootFS cf) ! k)"
  shows "pulled_as E (CompressedToImage E core) rm rc cs"
proof -
  let ?ds = "m_Layers m" and ?hs = "rf_DiffIDs (cf_RootFS cf)"
  have len: "length ?ds = length cs" "length ?hs = length cs" using cs by (auto dest: list_all2_lengthD)
  have at_i: "d_Digest (?ds ! k) = sha (cs ! k)" "d_Size (?ds ! k) = int (length (cs ! k))" "\<exists>u. gunzip E (cs ! k) = Inr u \<and> ?hs ! k = sha u"
    if "k < length cs" for k
    using cs that by (auto simp: list_all2_conv_all_nth)
  have "honest_blob E core (?ds ! k) (?hs ! k)" if k: "k < length cs" for k
  proof -
    from at_i [OF k] obtain u where u: "gunzip E (cs ! k) = Inr u" "?hs ! k = sha u" by blast
    from blobs [OF k] obtain cl where cl: "cic_LayerByDigest core (d_Digest (?ds ! k)) = Inr cl" "cl_Compressed cl = Inr (cs ! k)"
      "cl_Digest cl = Inr (d_Digest (?ds ! k))" "cl_Size cl = Inr (d_Size (?ds ! k))" "cl_MediaType cl = Inr (d_MediaType (?ds ! k))"
      "cl_DiffID cl \<in> {None, Some (Inr (?hs ! k))}" by (auto simp: serves_blob_def split: sum.splits)
    have "cle_DiffID E cl = Inr (?hs ! k)"
      using cl(2,6) u by (auto simp: cle_DiffID_def cle_Uncompressed_def GunzipReadCloser_def sha_def)
    with cl u at_i [OF k] show ?thesis by (auto simp: honest_blob_def honest_compressed_def)
  qed
  then have "list_all2 (honest_blob E core) ?ds ?hs" using len by (simp add: list_all2_conv_all_nth)
  then have "honest_compressed_core E core" using raw cfg dm dc cd f mt by (simp add: honest_compressed_core_def)
  then have coh: "coherent E (CompressedToImage E core)" by (rule CompressedToImage_coherent)
  have "\<exists>l. cie_LayerByDigest E core (d_Digest (?ds ! k)) = Inr l \<and> l_Compressed l = Inr (cs ! k)" if k: "k < length cs" for k
    using blobs [OF k] by (auto simp: cie_LayerByDigest_def serves_blob_def CompressedToLayer_def split: sum.splits)
  then have "list_all2 (\<lambda>h c. \<exists>l. cie_LayerByDigest E core h = Inr l \<and> l_Compressed l = Inr c) (map d_Digest ?ds) cs"
    using len by (simp add: list_all2_conv_all_nth)
  from list_all2_map_res [OF this] len obtain zs where zs: "map_res (cie_LayerByDigest E core) (map d_Digest ?ds) = Inr zs"
    "length zs = length cs" "\<forall>k<length cs. l_Compressed (zs ! k) = Inr (cs ! k)" by auto
  have "map l_Compressed zs = map Inr cs" using zs(2,3) by (intro nth_equalityI) auto
  with zs(1) have "\<exists>ls. cie_Layers E core = Inr ls \<and> map l_Compressed ls = map Inr cs"
    by (simp add: cie_Layers_def FSLayers_def raw partial_Manifest_def ParseManifest_def dm)
  with coh raw cfg show ?thesis
    by (auto simp: pulled_as_def CompressedToImage_def partial_Digest_def sha_def)
qed

lemma coherent_functional:
  assumes "coherent_parts E i rc cf rm m ls"
  shows "functional (zip (rf_DiffIDs (cf_RootFS cf)) (map d_Digest (m_Layers m)))"
proof (rule functional_zipI)
  let ?ds = "m_Layers m" and ?hs = "rf_DiffIDs (cf_RootFS cf)"
  have fb: "list_all2 (found_by_diffid E i) ?hs ?ds" using assms by (simp add: coherent_parts_def)
  then show len: "length ?hs = length (map d_Digest ?ds)" by (auto dest: list_all2_lengthD)
  fix a b assume "a < length ?hs" "b < length ?hs" "?hs ! a = ?hs ! b"
  moreover from this fb have "found_by_diffid E i (?hs ! a) (?ds ! a)" "found_by_diffid E i (?hs ! b) (?ds ! b)"
    by (auto simp: list_all2_conv_all_nth)
  ultimately show "map d_Digest ?ds ! a = map d_Digest ?ds ! b"
    using len by (auto simp: found_by_diffid_def layer_matches_def split: sum.splits)
qed

lemma coherent_parts_contents:
  assumes "coherent_parts E i rc cf rm m ls" and "list_all2 (\<lambda>l c. l_Compressed l = Inr c) ls cs"
  shows "list_all2 (\<lambda>c d. d_Digest d = sha c \<and> d_Size d = int (length c)) cs (m_Layers m)"
    "list_all2 (\<lambda>c h. \<exists>u. gunzip E c = Inr u \<and> h = sha u) cs (rf_DiffIDs (cf_RootFS cf))"
proof -
  have "list_all2 (layer_matches E) ls (m_Layers m)" "list_all2 (\<lambda>l h. l_DiffID l = Inr h) ls (rf_DiffIDs (cf_RootFS cf))"
    using assms(1) by (auto simp: coherent_parts_def)
  from coherent_contents [OF this] obtain cs' where cs': "list_all2 (\<lambda>l c. l_Compressed l = Inr c) ls cs'"
    "list_all2 (\<lambda>c d. d_Digest d = sha c \<and> d_Size d = int (length c)) cs' (m_Layers m)"
    "list_all2 (\<lambda>c h. \<exists>u. gunzip E c = Inr u \<and> h = sha u) cs' (rf_DiffIDs (cf_RootFS cf))" by blast
  moreover have "cs' = cs" using assms(2) cs'(1) by (auto simp: list_all2_conv_all_nth intro!: nth_equalityI)
  ultimately show "list_all2 (\<lambda>c d. d_Digest d = sha c \<and> d_Size d = int (length c)) cs (m_Layers m)"
    "list_all2 (\<lambda>c h. \<exists>u. gunzip E c = Inr u \<and> h = sha u) cs (rf_DiffIDs (cf_RootFS cf))" by simp_all
qed

lemma copy_of_coherent:
  assumes i: "coherent_parts E i rc cf rm m ls" and cs: "list_all2 (\<lambda>l c. l_Compressed l = Inr c) ls cs"
    and core: "cic_RawManifest core = Inr rm" "cic_RawConfigFile core = Inr rc" "is_ok (cic_MediaType core)"
    and blobs: "\<And>k. k < length cs \<Longrightarrow> serves_blob E core (m_Layers m ! k) (cs ! k) (rf_DiffIDs (cf_RootFS cf) ! k)"
  shows "pulled_as E (CompressedToImage E core) rm rc cs"
proof (rule copy_of_contents [OF _ _ _ _ coherent_parts_contents [OF i cs] coherent_functional [OF i] core blobs])
qed (use i in \<open>auto simp: coherent_parts_def\<close>)

end
