(* ===== verification/Registry_Pull.thy ===== *)
theory Registry_Pull
  imports Registry_Push Pull_Safety Mutate Image_Copies
begin

text \<open>
  Reading from a registry, inside the interface of the client to it, and the round trip: an image that
  has been pushed to a registry of a network is pulled again unchanged.
\<close>

section \<open>Reading from a registry\<close>

lemma fetcher_url_at [simp]:
  assumes "repo_at (Context ref) host ns"
  shows "u_Host (fetcher_url ref res ident) = host" "u_Query (fetcher_url ref res ident) = []"
    "u_Path (fetcher_url ref ''manifests'' ident) = slash_path (manifest_elems ns ident)"
    "u_Path (fetcher_url ref ''blobs'' ident) = slash_path (blob_elems ns ident)"
  using assms repo_paths(1,2) [of ns ident] by (auto simp: repo_at_def fetcher_url_def plain_repo_def)

lemma NewHash_sha_string [simp]: "NewHash (sha_string b) = Inr (sha b)"
  by (simp add: sha_string_hash)

lemma SHA256_fst: "fst (SHA256 b) = sha b" "snd (SHA256 b) = int (length b)"
  by (simp_all add: sha_def SHA256_def)

context registry_transport
begin

lemma fetch_manifest:
  assumes "repo_at (Context fref) host ns" and "ok s" and "names_ok ns (Identifier ref)"
    and "lookup_manifest (rg_manifests (view s)) ns (Identifier ref) = Some mf"
    and "\<And>d. ref = RefDigest d \<Longrightarrow> DigestStr d = sha_string (rm_blob mf)"
  shows "\<exists>s'. fetchManifest N rt fref ref acc s =
       (Inr (rm_blob mf, plain_descriptor (sha (rm_blob mf)) (int (length (rm_blob mf))) (rm_contentType mf)), s') \<and> ok s' \<and> view s' = view s"
proof -
  let ?req = "manifest_request ''GET'' fref ref acc"
  have h: "u_Host (rq_URL ?req) = host" "rq_Host ?req = host" "u_Path (rq_URL ?req) = slash_path (manifest_elems ns (Identifier ref))"
    "rq_Method ?req = ''GET''"
    using assms(1) by (simp_all add: manifest_request_def with_header_def)
  let ?P = "\<lambda>(rnd::nat) resp r'. r' = view s \<and> rs_Header resp = manifest_headers mf \<and> rs_Body resp = rm_blob mf"
  have "\<exists>resp r'. registry_root enc E rnd ?req (view s) = (resp, r') \<and> rs_StatusCode resp \<in> set [StatusOK] \<and> ?P rnd resp r'" for rnd
    using root_manifest [OF assms(3) h(3), of enc E rnd "view s"] h(4) assms(4) by auto
  from do_checked_ok [where P = ?P, OF assms(2) h(1,2) this, of N] obtain resp q s' where
    r: "do_checked N rt ?req [StatusOK] s = (Inr (resp, q), s')" "ok s'" "view s' = view s" "rs_Header resp = manifest_headers mf"
      "rs_Body resp = rm_blob mf" by blast
  have "check_digest fref ref (sha (rm_blob mf)) = Inr ()"
    using assms(5) by (cases ref) (auto simp: check_digest_def sha_string_hash)
  then have "manifest_of_response fref ref resp =
      Inr (rm_blob mf, plain_descriptor (sha (rm_blob mf)) (int (length (rm_blob mf))) (rm_contentType mf))"
    by (simp add: manifest_of_response_def r(4,5) manifest_headers_def SHA256_fst Let_def)
  with r show ?thesis by (simp add: fetchManifest_def)
qed

lemma get_blob:
  assumes "repo_at (Context ref) host ns" and "ok s" and "names_ok ns (Hash_String h)"
    and "bs_contents (rg_blobs (view s)) (Hash_String h) = Some c"
  shows "\<exists>resp q s'. do_checked N rt (new_request ''GET'' (fetcher_url ref ''blobs'' (Hash_String h)) []) [StatusOK] s = (Inr (resp, q), s') \<and>
     rs_Body resp = c \<and> ok s' \<and> view s' = view s"
proof -
  let ?req = "new_request ''GET'' (fetcher_url ref ''blobs'' (Hash_String h)) []"
  have h: "u_Host (rq_URL ?req) = host" "rq_Host ?req = host" "u_Path (rq_URL ?req) = slash_path (blob_elems ns (Hash_String h))"
    using assms(1) by simp_all
  let ?P = "\<lambda>(rnd::nat) resp r'. r' = view s \<and> rs_Body resp = c"
  have "\<exists>resp r'. registry_root enc E rnd ?req (view s) = (resp, r') \<and> rs_StatusCode resp \<in> set [StatusOK] \<and> ?P rnd resp r'" for rnd
    using root_blob [OF assms(3) h(3), of enc E rnd "view s"] assms(4) by auto
  from do_checked_ok [where P = ?P, OF assms(2) h(1,2) this, of N] show ?thesis by blast
qed

lemma verify_sha: "\<exists>rs. VerifyReadCloser [ReadEOF c] (sha c) = Inr rs \<and> ReadAll rs = (c, None)"
proof -
  have "\<exists>rs. VerifyReadCloser [ReadEOF c] (sha c) = Inr rs \<and> read_all rs = Inr c"
    by (subst VerifyReadCloser_spec) simp
  then obtain rs where rs: "VerifyReadCloser [ReadEOF c] (sha c) = Inr rs" "read_all rs = Inr c" by blast
  have "rs = [ReadEOF c, snd (verifyReader_Read (sha c) c (ReadEOF []))]"
    using rs(1) by (auto simp: VerifyReadCloser_def Hasher_def sha_def SHA256_def verifyReader_Read_def Let_def)
  with rs(1) show ?thesis by simp
qed

lemma fetch_blob:
  assumes "repo_at (Context ref) host ns" and "ok s" and "bs_contents (rg_blobs (view s)) (sha_string c) = Some c"
  shows "\<exists>rs s'. fetchBlob N rt ref (sha c) s = (Inr rs, s') \<and> ReadAll rs = (c, None) \<and> ok s' \<and> view s' = view s"
proof -
  have "names_ok ns (Hash_String (sha c))" using assms(1) by (intro hash_names) (simp add: repo_at_def)
  from get_blob [OF assms(1,2) this] assms(3) obtain resp q s' where
    "do_checked N rt (new_request ''GET'' (fetcher_url ref ''blobs'' (Hash_String (sha c))) []) [StatusOK] s = (Inr (resp, q), s')"
    "rs_Body resp = c" "ok s'" "view s' = view s" unfolding sha_string_hash by blast
  with verify_sha [of c] show ?thesis by (auto simp: fetchBlob_def)
qed

end

section \<open>Pulling what was pushed\<close>

text \<open>A manifest that describes each of its blobs in one way, by sources that can be parsed.\<close>

definition described_once :: "manifest \<Rightarrow> bool" where
  "described_once m \<longleftrightarrow> descriptors_agree m \<and> list_all (\<lambda>d. is_ok (map_res url_Parse (d_URLs d))) (m_Layers m)"

context registry_transport
begin

lemma pulled_config:
  assumes "repo_at (Context (ri_Ref ri)) host ns" and "ok s" and "ri_manifest ri = Some rm" and "ri_config ri = None"
    and "decode_manifest E rm = Inr m" and "d_Digest (m_Config m) = sha rc"
    and "bs_contents (rg_blobs (view s)) (sha_string rc) = Some rc"
  shows "\<exists>s'. remoteImage_RawConfigFile N E rt ri s = (Inr rc, ri\<lparr>ri_config := Some rc\<rparr>, s') \<and> ok s' \<and> view s' = view s"
proof -
  from fetch_blob [OF assms(1,2,7)] obtain rs s' where "fetchBlob N rt (ri_Ref ri) (sha rc) s = (Inr rs, s')" "ReadAll rs = (rc, None)"
    "ok s'" "view s' = view s" by blast
  then show ?thesis
    by (simp add: remoteImage_RawConfigFile_def remoteImage_RawManifest_def assms partial_Manifest_def ParseManifest_def)
qed

lemma pulled_layer:
  assumes "repo_at (Context (ri_Ref ri)) host ns" and "ok s" and "ri_manifest ri = Some rm"
    and "decode_manifest E rm = Inr m" and "described_once m" and "d \<in> set (m_Layers m)" and "d_Digest d = sha c"
    and "bs_contents (rg_blobs (view s)) (sha_string c) = Some c"
  shows "read_to_end (fst (remoteImageLayer_Compressed N E rt ri (d_Digest d) s)) = Inr c"
proof -
  have ns: "names_ok ns (Hash_String (sha c))" using assms(1) by (intro hash_names) (simp add: repo_at_def)
  from get_blob [OF assms(1,2) ns] assms(8) obtain resp q s' where
    g: "do_checked N rt (new_request ''GET'' (fetcher_url (ri_Ref ri) ''blobs'' (Hash_String (sha c))) []) [StatusOK] s = (Inr (resp, q), s')"
      "rs_Body resp = c" unfolding sha_string_hash by blast
  obtain us where us: "map_res url_Parse (d_URLs d) = Inr us" using assms(5,6) by (auto simp: described_once_def list_all_iff is_ok_iff)
  have m: "remoteImageLayer_Manifest N E rt ri s = (Inr m, ri, s)"
    by (simp add: remoteImageLayer_Manifest_def remoteImage_RawManifest_def assms(3,4) partial_Manifest_def ParseManifest_def)
  have bd: "BlobDescriptor (Inr m) (sha c) = Inr d" using BlobDescriptor_once [OF _ assms(6)] assms(5,7) by (simp add: described_once_def)
  from verify_sha [of c] show ?thesis
    using g us by (auto simp: remoteImageLayer_Compressed_def m bd read_to_end_def read_all_ReadAll assms(7))
qed

end


section \<open>Pulling from a network\<close>

definition served_descriptor :: "reference \<Rightarrow> platform \<Rightarrow> reg_manifest \<Rightarrow> remote_descriptor" where
  "served_descriptor ref p mf =
     \<lparr>rd_Ref = ref, rd_Descriptor = plain_descriptor (sha (rm_blob mf)) (int (length (rm_blob mf))) (rm_contentType mf),
      rd_Manifest = rm_blob mf, rd_platform = p\<rparr>"

lemma get_net:
  assumes "reaches enc E dt (Context ref) ns options w" and "names_ok ns (Identifier ref)"
  defines "host \<equiv> RegistryStr (repo_Registry (Context ref))"
  assumes "lookup_manifest (rg_manifests (registry_of host w)) ns (Identifier ref) = Some mf"
    and "\<And>d. ref = RefDigest d \<Longrightarrow> DigestStr d = sha_string (rm_blob mf)"
  shows "\<exists>o' ses w'. remote_Get env dt ref options w = (Inr (served_descriptor ref (ro_platform o') mf, o', ses), w') \<and>
     ro_transport o' = registry_network enc E \<and> session_ok (others_as host w) (ses, w') \<and> registry_of host w' = registry_of host w"
proof -
  from assms(1) obtain o' where r: "repo_at (Context ref) host ns" "nw_regs w host \<noteq> None"
    "remote_makeOptions dt host options = Inr o'" "ro_transport o' = registry_network enc E"
    unfolding host_def by (rule reachesD)
  have "others_as host w w" using r(2) by (simp add: others_as_def)
  from net.connect_anonymous [OF r(4) _ this, of "repo_Registry (Context ref)" env "[Scope ref PullScope]"] obtain ses s1 where
    c: "connect env (repo_Registry (Context ref)) o' [Scope ref PullScope] w = (Inr ses, s1)" "others_as host w s1"
      "registry_of host s1 = registry_of host w" "ss_auth ses = NoAuth"
    by (auto simp: Registry_Name_Str host_def)
  have T: "registry_transport (session_transport env o') enc E (session_view (registry_of host)) (session_ok (others_as host w)) host"
    by (rule net.session [OF r(4)])
  have ok: "session_ok (others_as host w) (ses, s1)" using c by (simp add: session_ok_def)
  have l: "lookup_manifest (rg_manifests (session_view (registry_of host) (ses, s1))) ns (Identifier ref) = Some mf"
    using assms(4) c(3) by (simp add: session_view_def)
  from registry_transport.fetch_manifest [OF T r(1) ok assms(2) l assms(5), of "ne_codec env" all_acceptable] obtain st where
    f: "fetchManifest (ne_codec env) (session_transport env o') ref ref all_acceptable (ses, s1) =
        (Inr (rm_blob mf, plain_descriptor (sha (rm_blob mf)) (int (length (rm_blob mf))) (rm_contentType mf)), st)"
      "session_ok (others_as host w) st" "session_view (registry_of host) st = session_view (registry_of host) (ses, s1)" by blast
  obtain ses2 s2 where st: "st = (ses2, s2)" by (rule prod.exhaust)
  have "remote_Get env dt ref options w = (Inr (served_descriptor ref (ro_platform o') mf, o', ses2), s2)"
    using r(3) c(1) f(1) by (simp add: remote_Get_def remote_get_def with_fetcher_def makeFetcher_def host_def st served_descriptor_def)
  then show ?thesis using r(4) f(2,3) c(3) by (auto simp: st session_view_def)
qed

lemma image_net:
  assumes "reaches enc E dt (Context ref) ns options w" and "names_ok ns (Identifier ref)"
  defines "host \<equiv> RegistryStr (repo_Registry (Context ref))"
  assumes "lookup_manifest (rg_manifests (registry_of host w)) ns (Identifier ref) = Some mf"
    and "\<And>d. ref = RefDigest d \<Longrightarrow> DigestStr d = sha_string (rm_blob mf)" and "IsImage (rm_contentType mf)"
  shows "\<exists>ri o' ses w'. remote_Image env E dt ref options w = Some (Inr (ri, o', ses), w') \<and>
     ri_Ref ri = ref \<and> ri_manifest ri = Some (rm_blob mf) \<and> ri_config ri = None \<and>
     ro_transport o' = registry_network enc E \<and> session_ok (others_as host w) (ses, w') \<and> registry_of host w' = registry_of host w"
proof -
  from get_net [OF assms(1,2) assms(4) [unfolded host_def] assms(5), of env] obtain o' ses w' where
    g: "remote_Get env dt ref options w = (Inr (served_descriptor ref (ro_platform o') mf, o', ses), w')"
      "ro_transport o' = registry_network enc E" "session_ok (others_as host w) (ses, w')" "registry_of host w' = registry_of host w"
    unfolding host_def by blast
  let ?d = "served_descriptor ref (ro_platform o') mf"
  have mt: "d_MediaType (rd_Descriptor ?d) = rm_contentType mf" by (simp add: served_descriptor_def plain_descriptor_def)
  have "\<not> is_schema1 (rm_contentType mf)" "\<not> IsIndex (rm_contentType mf)"
    using assms(6) by (auto simp: is_schema1_def IsImage_def IsIndex_def media_type_defs)
  then have "Descriptor_Image N E rt ?d st = Some (Inr (descriptor_image ?d), st)" for N and rt :: "(session \<times> network) round_tripper" and st
    by (subst Descriptor_Image.simps) (simp add: Let_def mt)
  with g show ?thesis by (simp add: remote_Image_def) (simp add: descriptor_image_def served_descriptor_def)
qed

text \<open>No two of the contents that are pushed, or of one of them and a blob of the registry, have the same digest.\<close>

definition no_collision :: "bytes list \<Rightarrow> reg_state \<Rightarrow> bool" where
  "no_collision bs r \<longleftrightarrow>
     inj_on sha (set bs) \<and> (\<forall>b\<in>set bs. \<forall>c. bs_contents (rg_blobs r) (sha_string b) = Some c \<longrightarrow> c = b)"

lemma sha_string_inj: "sha_string a = sha_string b \<longleftrightarrow> sha a = sha b"
  by (simp add: sha_string_hash Hash_String_sha)

lemma pushed_served:
  assumes "image_pushed ns ident mt raw bs r r'" and "no_collision bs r" and "b \<in> set bs"
  shows "bs_contents (rg_blobs r') (sha_string b) = Some b"
proof -
  from assms(1,3) have ne: "bs_contents (rg_blobs r') (sha_string b) \<noteq> None" by (simp add: image_pushed_def)
  from assms(1) have "bs_contents (rg_blobs r') (sha_string b) = bs_contents (rg_blobs r) (sha_string b) \<or>
      (\<exists>b'\<in>set bs. sha_string b = sha_string b' \<and> bs_contents (rg_blobs r') (sha_string b) = Some b')"
    unfolding image_pushed_def by blast
  then show ?thesis
  proof
    assume e: "bs_contents (rg_blobs r') (sha_string b) = bs_contents (rg_blobs r) (sha_string b)"
    with ne obtain c where "bs_contents (rg_blobs r) (sha_string b) = Some c" by auto
    with e assms(2,3) show ?thesis by (auto simp: no_collision_def)
  next
    assume "\<exists>b'\<in>set bs. sha_string b = sha_string b' \<and> bs_contents (rg_blobs r') (sha_string b) = Some b'"
    then obtain b' where b': "b' \<in> set bs" "sha b = sha b'" "bs_contents (rg_blobs r') (sha_string b) = Some b'"
      by (auto simp: sha_string_inj)
    with assms(2,3) have "b' = b" by (auto simp: no_collision_def inj_on_def)
    with b' show ?thesis by simp
  qed
qed

section \<open>Pushing an image that is coherent\<close>

definition all_distributable :: "manifest \<Rightarrow> bool" where
  "all_distributable m \<longleftrightarrow> list_all (\<lambda>d. IsDistributable (d_MediaType d)) (m_Layers m)"

lemma coherent_pushable:
  assumes "coherent_parts E i rc cf rm m ls" and "i_MediaType i = Inr mt" and "IsImage mt" and "all_distributable m"
    and "list_all2 (\<lambda>l c. l_Compressed l = Inr c) ls cs"
  shows "pushable_image (ordinary_image i) (map (ordinary_layer None) ls) rc mt rm"
    and "pushed_blobs (map (ordinary_layer None) ls) rc = cs @ [rc]"
proof -
  from assms(1) have i: "i_Layers i = Inr ls" "i_RawConfigFile i = Inr rc" "i_RawManifest i = Inr rm"
    "list_all2 (layer_matches E) ls (m_Layers m)" by (auto simp: coherent_parts_def)
  have l: "pushable (ordinary_layer None l) \<and> distributable (ordinary_layer None l) \<and> is_ok (l_MediaType l)" if "l \<in> set ls" for l
  proof -
    from that i(4) obtain d where d: "layer_matches E l d" "d \<in> set (m_Layers m)" by (metis in_set_conv_nth list_all2_conv_all_nth)
    then obtain c where "l_Compressed l = Inr c" "l_Digest l = Inr (sha c)" "l_MediaType l = Inr (d_MediaType d)"
      by (auto simp: layer_matches_def elim: wf_layerE)
    with d(2) assms(4) show ?thesis
      by (auto simp: pushable_def ordinary_layer_def content_of_def distributable_def all_distributable_def list_all_iff)
  qed
  have "\<not> IsIndex mt" using assms(3) media_kinds_disjoint by blast
  with i assms(2) l show "pushable_image (ordinary_image i) (map (ordinary_layer None) ls) rc mt rm"
    by (auto simp: pushable_image_def ordinary_image_def config_known_def list_all_iff ordinary_layer_def)
  have "filter distributable (map (ordinary_layer None) ls) = map (ordinary_layer None) ls" using l by (auto simp: filter_id_conv)
  moreover have "map content_of (map (ordinary_layer None) ls) = cs"
    using assms(5) by (induction rule: list_all2_induct) (auto simp: content_of_def ordinary_layer_def)
  ultimately show "pushed_blobs (map (ordinary_layer None) ls) rc = cs @ [rc]" by (simp add: pushed_blobs_def)
qed

context registry_transport
begin

text \<open>A remote image whose blobs the registry has is a copy of the image that was pushed.\<close>

lemma pulled_image_as:
  assumes at: "repo_at (Context (ri_Ref ri)) host ns" and ok: "ok s" and ri: "ri_manifest ri = Some rm" "ri_config ri = None"
    and i: "coherent_parts E i rc cf rm m ls" and once: "described_once m"
    and cs: "list_all2 (\<lambda>l c. l_Compressed l = Inr c) ls cs" and inj: "inj_on sha (set cs)"
    and served: "\<And>c. c \<in> insert rc (set cs) \<Longrightarrow> bs_contents (rg_blobs (view s)) (sha_string c) = Some c"
  shows "pulled_as E (CompressedToImage E (remote_core N E rt ri s)) rm rc cs"
proof (rule copy_of_coherent [OF i cs])
  let ?ds = "m_Layers m" and ?hs = "rf_DiffIDs (cf_RootFS cf)" and ?core = "remote_core N E rt ri s"
  from i have dm: "decode_manifest E rm = Inr m" and dc: "decode_config E rc = Inr cf" and cfg: "d_Digest (m_Config m) = sha rc"
    and l2: "list_all2 (layer_matches E) ls ?ds" "list_all2 (\<lambda>l h. l_DiffID l = Inr h) ls ?hs"
    by (auto simp: coherent_parts_def)
  have raw: "remoteImage_RawManifest N rt ri s = (Inr rm, ri, s)" by (simp add: remoteImage_RawManifest_def ri)
  from pulled_config [OF at ok ri dm cfg] served obtain s1 where
    rc: "remoteImage_RawConfigFile N E rt ri s = (Inr rc, ri\<lparr>ri_config := Some rc\<rparr>, s1)" by blast
  show "cic_RawManifest ?core = Inr rm" "cic_RawConfigFile ?core = Inr rc" "is_ok (cic_MediaType ?core)"
    by (simp_all add: remote_core_def raw rc remoteImage_MediaType_def is_ok_def)
  fix k assume k: "k < length cs"
  from coherent_contents [OF l2] obtain cs' where cs': "list_all2 (\<lambda>l c. l_Compressed l = Inr c) ls cs'"
    "list_all2 (\<lambda>c d. d_Digest d = sha c \<and> d_Size d = int (length c)) cs' ?ds"
    "list_all2 (\<lambda>c h. \<exists>u. gunzip E c = Inr u \<and> h = sha u) cs' ?hs" by blast
  have "cs' = cs" using cs cs'(1) by (auto simp: list_all2_conv_all_nth intro!: nth_equalityI)
  note cs2 = cs'(2,3) [unfolded this]
  have len: "length ?ds = length cs" "length ?hs = length cs" using cs2 by (auto dest: list_all2_lengthD)
  have at_i: "d_Digest (?ds ! k) = sha (cs ! k)" "\<exists>u. gunzip E (cs ! k) = Inr u \<and> ?hs ! k = sha u" if "k < length cs" for k
    using cs2 that by (auto simp: list_all2_conv_all_nth)
  have "functional (zip (map d_Digest ?ds) ?hs)"
  proof (rule functional_zipI)
    fix a b assume "a < length (map d_Digest ?ds)" "b < length (map d_Digest ?ds)" "map d_Digest ?ds ! a = map d_Digest ?ds ! b"
    then have "a < length cs" "b < length cs" "cs ! a = cs ! b" using at_i(1) len inj by (auto simp: inj_on_def)
    then show "?hs ! a = ?hs ! b" using at_i(2) [of a] at_i(2) [of b] by auto
  qed (simp add: len)
  moreover have "(d_Digest (?ds ! k), ?hs ! k) \<in> set (zip (map d_Digest ?ds) ?hs)" using k len by (force simp: set_zip)
  ultimately have diff: "BlobToDiffID (Inr m) (Inr cf) (d_Digest (?ds ! k)) = Inr (?hs ! k)"
    using lookup_at_functional len by (simp add: BlobToDiffID_def FSLayers_def partial_DiffIDs_def)
  have lm: "remoteImageLayer_Manifest N E rt ri s = (Inr m, ri, s)"
    by (simp add: remoteImageLayer_Manifest_def raw partial_Manifest_def ParseManifest_def dm)
  have "remoteImageLayer_ConfigFile N E rt ri s = (Inr cf, ri\<lparr>ri_config := Some rc\<rparr>, s1)"
    by (simp add: remoteImageLayer_ConfigFile_def rc partial_ConfigFile_def ParseConfigFile_def dc)
  with diff have "fst (remoteImageLayer_DiffID N E rt ri (d_Digest (?ds ! k)) s) = Inr (?hs ! k)"
    by (simp add: remoteImageLayer_DiffID_def lm FSLayers_def)
  moreover have din: "?ds ! k \<in> set ?ds" using k len by simp
  moreover have "read_to_end (fst (remoteImageLayer_Compressed N E rt ri (d_Digest (?ds ! k)) s)) = Inr (cs ! k)"
    using pulled_layer [OF at ok ri(1) dm once din] at_i(1) [OF k] served k by auto
  moreover have "BlobDescriptor (Inr m) (d_Digest (?ds ! k)) = Inr (?ds ! k)"
    using BlobDescriptor_once [OF _ din] once by (simp add: described_once_def)
  ultimately show "serves_blob E ?core (?ds ! k) (cs ! k) (?hs ! k)"
    by (simp add: serves_blob_def remote_core_def remoteImage_LayerByDigest_def remote_image_layer_def
        remoteImageLayer_Size_def remoteImageLayer_MediaType_def lm BlobSize_def)
qed

end

text \<open>
  C1. A pushed image comes back.  Let a coherent image, whose layers may all be distributed and
  whose manifest describes every blob in one way, be pushed to a registry; then pulling it, by the
  reference it was pushed to or by the digest of its manifest, gives an image that is coherent again
  and has the same manifest, digest, config file and compressed layers, in the same order.
\<close>

theorem push_pull:
  assumes "reaches enc E dt (Context ref) ns options w" and "names_ok ns (Identifier ref)" and "fair_order (sc_layers sch)"
    and "coherent_parts E i rc cf rm m ls" and "i_MediaType i = Inr mt" and "IsImage mt" and "all_distributable m" and "described_once m"
    and "list_all2 (\<lambda>l c. l_Compressed l = Inr c) ls cs"
    and "no_collision (cs @ [rc]) (registry_of (RegistryStr (repo_Registry (Context ref))) w)"
    and "reaches enc E dt (Context ref) ns options' w"
    and "ref' = ref \<and> (\<forall>d. ref \<noteq> RefDigest d) \<or> ref' = RefDigest (Repository_Digest (Context ref) (sha_string rm))"
  shows "\<exists>w1 w2 ri o' ses. remote_Write env sch dt ref (ordinary_image i) options w = (Inr (), w1) \<and>
     remote_Image env E dt ref' options' w1 = Some (Inr (ri, o', ses), w2) \<and>
     pulled_as E (CompressedToImage E (remote_core (ne_codec env) E (session_transport env o') ri (ses, w2))) rm rc cs"
proof -
  let ?host = "RegistryStr (repo_Registry (Context ref))" and ?mf = "\<lparr>rm_contentType = mt, rm_blob = rm\<rparr>"
  note p = coherent_pushable [OF assms(4-7,9)]
  from write_reaches [OF assms(1-3) p(1), of env, unfolded p(2)] obtain w1 where
    w1: "remote_Write env sch dt ref (ordinary_image i) options w = (Inr (), w1)" "others_as ?host w w1"
      "image_pushed ns (Identifier ref) mt rm (cs @ [rc]) (registry_of ?host w) (registry_of ?host w1)" by blast
  have ctx: "Context ref' = Context ref"
    using assms(12) by (auto simp: Context_def Digest_Context_def Repository_Digest_def)
  have reach: "reaches enc E dt (Context ref') ns options' w1"
    using assms(11) w1(2,3) unfolding ctx by (auto simp: reaches_def others_as_def image_pushed_def)
  have id: "Identifier ref' = Identifier ref \<or> Identifier ref' = sha_string rm"
    using assms(12) by (auto simp: Identifier_def Digest_Identifier_def DigestStr_child)
  have "plain_repo ns" using assms(1) by (auto simp: reaches_def repo_at_def)
  then have names: "names_ok ns (Identifier ref')" using id assms(2) hash_names [of ns rm] by (auto simp: sha_string_hash)
  have look: "lookup_manifest (rg_manifests (registry_of ?host w1)) ns (Identifier ref') = Some ?mf"
    using id w1(3) by (auto simp: image_pushed_def)
  have dig: "DigestStr d = sha_string (rm_blob ?mf)" if "ref' = RefDigest d" for d
    using that assms(12) by (auto simp: DigestStr_child)
  from image_net [OF reach names look [folded ctx] dig, of env] assms(6) obtain ri o' ses w2 where
    im: "remote_Image env E dt ref' options' w1 = Some (Inr (ri, o', ses), w2)" "ri_Ref ri = ref'" "ri_manifest ri = Some rm"
      "ri_config ri = None" "ro_transport o' = registry_network enc E" "session_ok (others_as ?host w1) (ses, w2)"
      "registry_of ?host w2 = registry_of ?host w1" unfolding ctx by auto
  have T: "registry_transport (session_transport env o') enc E (session_view (registry_of ?host)) (session_ok (others_as ?host w1)) ?host"
    by (rule net.session [OF im(5)])
  have at: "repo_at (Context (ri_Ref ri)) ?host ns" using assms(1) by (simp add: im(2) ctx reaches_def)
  have sv: "bs_contents (rg_blobs (session_view (registry_of ?host) (ses, w2))) (sha_string c) = Some c" if "c \<in> insert rc (set cs)" for c
    using pushed_served [OF w1(3) assms(10), of c] that im(7) by (auto simp: session_view_def)
  have inj: "inj_on sha (set cs)" using assms(10) by (auto simp: no_collision_def inj_on_def)
  from registry_transport.pulled_image_as [OF T at im(6) im(3,4) assms(4,8,9) inj sv] im(1) w1(1) show ?thesis by blast
qed

theorem push_pull_witness:
  "\<exists>w1 w2 ri o' ses.
     remote_Write demo_env \<lparr>sc_layers = rev, sc_scopes = id\<rparr> (demo_net demo_codec) demo_ref (ordinary_image (empty_Image demo_codec)) [] demo_world = (Inr (), w1) \<and>
     remote_Image demo_env demo_codec (demo_net demo_codec) demo_ref [] w1 = Some (Inr (ri, o', ses), w2) \<and>
     pulled_as demo_codec (CompressedToImage demo_codec (remote_core (ne_codec demo_env) demo_codec (session_transport demo_env o') ri (ses, w2))) ''0'' ''0'' []"
proof -
  let ?i = "empty_Image demo_codec" and ?m = "empty_manifest ''0''"
  have f: "i_Manifest ?i = Inr ?m" "i_Layers ?i = Inr []" "i_RawConfigFile ?i = Inr ''0''" "i_MediaType ?i = Inr DockerManifestSchema2"
    "i_RawManifest ?i = Inr ''0''"
    using empty_Image_fields [of demo_codec] demo_marshal demo_decode
    by (simp_all add: empty_Image_def UncompressedToImage_def emptyImage_def partial_RawConfigFile_def emptyImage_ConfigFile_def
        empty_config_def Let_def partial_RawManifest_def)
  from demo_base obtain cf where parts: "coherent_parts demo_codec ?i ''0'' cf ''0'' ?m []"
    by (auto simp: coherent_def coherent_parts_def f)
  have m: "all_distributable ?m" "described_once ?m" by (simp_all add: all_distributable_def described_once_def descriptors_agree_def empty_manifest_def)
  have img: "IsImage DockerManifestSchema2" by (simp add: IsImage_def)
  have nc: "no_collision ([] @ [''0'']) (registry_of (RegistryStr (repo_Registry (Context demo_ref))) demo_world)"
    by (simp add: no_collision_def demo_ref_str demo_repo_str registry_of_def demo_world_def registry_New_def)
  have fair: "fair_order (sc_layers \<lparr>sc_layers = rev, sc_scopes = id\<rparr>)" by (simp add: fair_order_def)
  have ref: "demo_ref = demo_ref \<and> (\<forall>d. demo_ref \<noteq> RefDigest d) \<or> demo_ref = RefDigest (Repository_Digest (Context demo_ref) (sha_string ''0''))"
    by (simp add: demo_ref_def)
  show ?thesis
    by (rule push_pull [OF demo_reaches [folded demo_ref_str(1)] demo_names [folded demo_ref_str(2)] fair parts f(4) img m _ nc
          demo_reaches [folded demo_ref_str(1)] ref]) simp
qed

end
