(* ===== verification/Remote_Pages.thy ===== *)
theory Remote_Pages
  imports Remote_Read
begin

text \<open>
  The loop that List and Catalog run over the pages of a registry (pkg/v1/remote/list.go and
  catalog.go): what it returns, and when it does not return at all.
\<close>

section \<open>Pages\<close>

text \<open>One round of the loop: the answer, or the URL of the next page and what has been gathered.\<close>

type_synonym 's page_state = "url \<times> string list \<times> string list \<times> 's"

definition page_step ::
    "(bytes \<Rightarrow> string list option res) \<Rightarrow> net_codec \<Rightarrow> 's round_tripper \<Rightarrow> 's page_state \<Rightarrow> (string list res \<times> 's) + 's page_state" where
  "page_step dec N rt st =
     (case st of (uri, parsed, acc, s) \<Rightarrow>
        (case do_checked N rt (new_request ''GET'' uri []) [StatusOK] s of
           (Inl e, s1) \<Rightarrow> Inl (Inl e, s1)
         | (Inr r, s1) \<Rightarrow>
             (case dec (rs_Body (fst r)) of
                Inl e \<Rightarrow> Inl (Inl e, s1)
              | Inr page \<Rightarrow>
                  let parsed' = (case page of Some names \<Rightarrow> names | None \<Rightarrow> parsed) in
                  (case getNextPageURL r of
                     Inl e \<Rightarrow> Inl (Inl e, s1)
                   | Inr None \<Rightarrow> Inl (Inr (acc @ parsed'), s1)
                   | Inr (Some u) \<Rightarrow> Inr (u, parsed', acc @ parsed', s1)))))"

lemma list_pages_step:
  "list_pages dec N rt uri parsed acc s =
     (case page_step dec N rt (uri, parsed, acc, s) of
        Inl res \<Rightarrow> Some res
      | Inr (u, p, a, s1) \<Rightarrow> list_pages dec N rt u p a s1)"
  by (subst list_pages.simps) (auto simp: page_step_def Let_def split: sum.splits prod.splits option.splits)

text \<open>The pages that are followed, at most n of them.\<close>

fun follow :: "nat \<Rightarrow> (bytes \<Rightarrow> string list option res) \<Rightarrow> net_codec \<Rightarrow> 's round_tripper \<Rightarrow> 's page_state \<Rightarrow> (string list res \<times> 's) option" where
  "follow 0 dec N rt st = None"
| "follow (Suc n) dec N rt st =
     (case page_step dec N rt st of Inl res \<Rightarrow> Some res | Inr st' \<Rightarrow> follow n dec N rt st')"

lemma follow_mono: "follow n dec N rt st = Some res \<Longrightarrow> n \<le> m \<Longrightarrow> follow m dec N rt st = Some res"
proof (induction n arbitrary: st m)
  case (Suc n)
  then obtain k where "m = Suc k" "n \<le> k" by (cases m) auto
  with Suc show ?case by (auto split: sum.splits)
qed simp

lemma follow_sound: "follow n dec N rt (uri, parsed, acc, s) = Some res \<Longrightarrow> list_pages dec N rt uri parsed acc s = Some res"
proof (induction n arbitrary: uri parsed acc s)
  case (Suc n)
  then show ?case
    by (subst list_pages_step) (auto split: sum.splits)
qed simp

lemma follow_complete:
  assumes "list_pages dec N rt uri parsed acc s = Some res"
  shows "\<exists>n. follow n dec N rt (uri, parsed, acc, s) = Some res"
proof (rule list_pages.raw_induct
    [where P = "\<lambda>dec N rt uri parsed acc s res. \<exists>n. follow n dec N rt (uri, parsed, acc, s) = Some res", OF _ assms])
  fix f and dec :: "bytes \<Rightarrow> string list option res" and N and rt :: "'s round_tripper" and uri parsed acc s res
  assume IH: "\<And>dec N rt uri parsed acc s res. f dec N rt uri parsed acc s = Some res \<Longrightarrow>
       \<exists>n. follow n dec N rt (uri, parsed, acc, s) = Some res"
    and step: "(case do_checked N rt (new_request ''GET'' uri []) [StatusOK] s of
        (Inl e, s1) \<Rightarrow> Some (Inl e, s1)
      | (Inr r, s1) \<Rightarrow>
          (case dec (rs_Body (fst r)) of
             Inl e \<Rightarrow> Some (Inl e, s1)
           | Inr page \<Rightarrow>
               let parsed' = (case page of None \<Rightarrow> parsed | Some names \<Rightarrow> names) in
               (case getNextPageURL r of
                  Inl e \<Rightarrow> Some (Inl e, s1)
                | Inr None \<Rightarrow> Some (Inr (acc @ parsed'), s1)
                | Inr (Some u) \<Rightarrow> f dec N rt u parsed' (acc @ parsed') s1))) = Some res"
  have "(case page_step dec N rt (uri, parsed, acc, s) of
        Inl r \<Rightarrow> Some r | Inr (u, p, a, s1) \<Rightarrow> f dec N rt u p a s1) = Some res"
    using step by (auto simp: page_step_def Let_def split: sum.splits prod.splits option.splits)
  then show "\<exists>n. follow n dec N rt (uri, parsed, acc, s) = Some res"
  proof (cases "page_step dec N rt (uri, parsed, acc, s)")
    case (Inl r)
    then show ?thesis using \<open>(case _ of Inl r \<Rightarrow> _ r | Inr _ \<Rightarrow> _) = _\<close> by (intro exI [of _ "Suc 0"]) simp
  next
    case (Inr st)
    obtain u p a s1 where st: "st = (u, p, a, s1)" by (rule prod_cases4)
    with Inr \<open>(case _ of Inl r \<Rightarrow> _ r | Inr _ \<Rightarrow> _) = _\<close> have "f dec N rt u p a s1 = Some res" by simp
    from IH [OF this] obtain n where "follow n dec N rt (u, p, a, s1) = Some res" by blast
    with Inr st show ?thesis by (intro exI [of _ "Suc n"]) simp
  qed
qed


lemma list_pages_iff_follow:
  "list_pages dec N rt uri parsed acc s = Some res \<longleftrightarrow> (\<exists>n. follow n dec N rt (uri, parsed, acc, s) = Some res)"
  by (auto intro: follow_sound follow_complete)

lemma list_pages_None:
  "list_pages dec N rt uri parsed acc s = None \<longleftrightarrow> (\<forall>n. follow n dec N rt (uri, parsed, acc, s) = None)"
  using list_pages_iff_follow [where dec = dec and N = N and rt = rt and uri = uri and parsed = parsed and acc = acc and s = s]
  by (metis not_None_eq)

text \<open>
  The names that a page contributes, those of the page before it if it has no such key, and a complete
  run through the pages, as the links lead.
\<close>

definition page_names :: "string list \<Rightarrow> string list option \<Rightarrow> string list" where
  "page_names parsed page = (case page of Some names \<Rightarrow> names | None \<Rightarrow> parsed)"

inductive page_run :: "(bytes \<Rightarrow> string list option res) \<Rightarrow> net_codec \<Rightarrow> 's round_tripper \<Rightarrow> string list \<Rightarrow> url \<Rightarrow> 's \<Rightarrow> string list list \<Rightarrow> 's \<Rightarrow> bool"
  for dec N rt where
  page_last: "do_checked N rt (new_request ''GET'' uri []) [StatusOK] s = (Inr r, s1) \<Longrightarrow> dec (rs_Body (fst r)) = Inr page \<Longrightarrow>
     getNextPageURL r = Inr None \<Longrightarrow> page_run dec N rt parsed uri s [page_names parsed page] s1"
| page_more: "do_checked N rt (new_request ''GET'' uri []) [StatusOK] s = (Inr r, s1) \<Longrightarrow> dec (rs_Body (fst r)) = Inr page \<Longrightarrow>
     getNextPageURL r = Inr (Some u) \<Longrightarrow> page_run dec N rt (page_names parsed page) u s1 ps s2 \<Longrightarrow>
     page_run dec N rt parsed uri s (page_names parsed page # ps) s2"

lemma page_run_lists:
  "page_run dec N rt parsed uri s ps s' \<Longrightarrow> list_pages dec N rt uri parsed acc s = Some (Inr (acc @ concat ps), s')"
proof (induction arbitrary: acc rule: page_run.induct)
  case (page_last uri s r s1 page parsed)
  then show ?case by (subst list_pages.simps) (simp add: Let_def page_names_def)
next
  case (page_more uri s r s1 page u parsed ps s2)
  then show ?case by (subst list_pages.simps) (simp add: Let_def page_names_def)
qed

lemma follow_page_run:
  "follow n dec N rt (uri, parsed, acc, s) = Some (Inr names, s') \<Longrightarrow> \<exists>ps. page_run dec N rt parsed uri s ps s' \<and> names = acc @ concat ps"
proof (induction n arbitrary: uri parsed acc s)
  case (Suc n)
  let ?req = "new_request ''GET'' uri []"
  from Suc.prems obtain r s1 page where r: "do_checked N rt ?req [StatusOK] s = (Inr r, s1)" "dec (rs_Body (fst r)) = Inr page"
    by (auto simp: page_step_def split: prod.splits sum.splits)
  let ?p = "page_names parsed page"
  show ?case
  proof (cases "getNextPageURL r")
    case (Inl e)
    with Suc.prems r show ?thesis by (simp add: page_step_def Let_def)
  next
    case (Inr next')
    show ?thesis
    proof (cases next')
      case None
      from page_last [where dec = dec, OF r] Inr None have "page_run dec N rt parsed uri s [?p] s1" by simp
      with Suc.prems r Inr None show ?thesis
        by (intro exI [of _ "[?p]"]) (auto simp: page_step_def Let_def page_names_def)
    next
      case (Some u)
      with Suc.prems r Inr have "follow n dec N rt (u, ?p, acc @ ?p, s1) = Some (Inr names, s')"
        by (simp add: page_step_def Let_def page_names_def)
      from Suc.IH [OF this] obtain ps where "page_run dec N rt ?p u s1 ps s'" "names = acc @ ?p @ concat ps" by auto
      with page_more [where dec = dec, OF r] Inr Some show ?thesis by (intro exI [of _ "?p # ps"]) auto
    qed
  qed
qed simp

text \<open>
  C30. The loop of List and Catalog.  It returns the names of all pages, in order, exactly when the
  links lead through pages that can be read to one without a link; and it fails to return exactly when
  no number of rounds is enough, that is when every page links to another one that can be read.
\<close>

theorem list_pages_spec:
  "(list_pages dec N rt uri parsed [] s = Some (Inr names, s') \<longleftrightarrow>
      (\<exists>ps. page_run dec N rt parsed uri s ps s' \<and> names = concat ps)) \<and>
   (list_pages dec N rt uri parsed [] s = None \<longleftrightarrow> (\<forall>n. follow n dec N rt (uri, parsed, [], s) = None))"
proof (intro conjI iffI)
  assume "list_pages dec N rt uri parsed [] s = Some (Inr names, s')"
  then obtain n where "follow n dec N rt (uri, parsed, [], s) = Some (Inr names, s')" by (auto simp: list_pages_iff_follow)
  from follow_page_run [OF this] show "\<exists>ps. page_run dec N rt parsed uri s ps s' \<and> names = concat ps" by simp
next
  assume "\<exists>ps. page_run dec N rt parsed uri s ps s' \<and> names = concat ps"
  then show "list_pages dec N rt uri parsed [] s = Some (Inr names, s')" using page_run_lists [where acc = "[]"] by fastforce
qed (simp_all add: list_pages_None)

text \<open>A page without the key repeats the names of the page before it.\<close>

lemma missing_key_repeats:
  assumes "do_checked N rt (new_request ''GET'' uri []) [StatusOK] s = (Inr r, s1)" and "dec (rs_Body (fst r)) = Inr None"
    and "getNextPageURL r = Inr None"
  shows "list_pages dec N rt uri parsed acc s = Some (Inr (acc @ parsed), s1)"
  using assms by (subst list_pages.simps) (simp add: Let_def)

end
