(* ===== verification/Remote_Multi.thy ===== *)
theory Remote_Multi
  imports Remote_Write "HOL-Library.AList"
begin

text \<open>
  pkg/v1/remote/multi\_write.go: pushing several images and indexes at once.  The maps of the code are
  association lists; the order in which Go iterates over them, and in which the workers take what is
  to be done, is given by the scheduler.
\<close>

section \<open>Collecting what is to be pushed\<close>

type_synonym blob_map = "(v1_hash \<times> push_layer) list"
type_synonym manifest_map = "(reference \<times> taggable) list"

fun add_layers_of :: "push_layer list \<Rightarrow> blob_map \<Rightarrow> blob_map res" where
  "add_layers_of [] blobs = Inr blobs"
| "add_layers_of (l # ls) blobs =
     bnd (l_Digest (pl_before l)) (\<lambda>d.
     bnd (l_MediaType (pl_before l)) (\<lambda>mt.
     if \<not> IsDistributable mt then add_layers_of ls blobs else add_layers_of ls (AList.update d l blobs)))"

definition addImageBlobs :: "push_image \<Rightarrow> blob_map \<Rightarrow> blob_map res" where
  "addImageBlobs img blobs =
     bnd (pi_Layers img) (\<lambda>ls.
     bnd (add_layers_of ls blobs) (\<lambda>blobs1.
     bnd (partial_ConfigLayer (i_RawConfigFile (pi_before img))) (\<lambda>cl.
     bnd (l_Digest cl) (\<lambda>cld. Inr (AList.update cld (ordinary_layer None cl) blobs1)))))"

text \<open>One round of the loop over the children; sub and img are what the index gives for the child.\<close>

definition put_manifest_at :: "nat \<Rightarrow> reference \<Rightarrow> taggable \<Rightarrow> manifest_map list \<Rightarrow> manifest_map list" where
  "put_manifest_at lvl ref t ms = ms[lvl := AList.update ref t (ms ! lvl)]"

definition add_child ::
    "repository \<Rightarrow> nat \<Rightarrow> (v1_hash \<Rightarrow> (taggable \<times> (blob_map \<Rightarrow> manifest_map list \<Rightarrow> nat \<Rightarrow> (blob_map \<times> manifest_map list) res)) res) \<Rightarrow>
     (v1_hash \<Rightarrow> image res) \<Rightarrow> descriptor \<Rightarrow> blob_map \<times> manifest_map list \<Rightarrow> (blob_map \<times> manifest_map list) res" where
  "add_child repo lvl sub img desc st =
     (case st of (blobs, ms) \<Rightarrow>
        let ref = RefDigest (Repository_Digest repo (Hash_String (d_Digest desc))) in
        if IsIndex (d_MediaType desc) then
          bnd (sub (d_Digest desc)) (\<lambda>(t, add).
          bnd (add blobs ms (Suc lvl)) (\<lambda>(blobs1, ms1). Inr (blobs1, put_manifest_at lvl ref t ms1)))
        else if IsImage (d_MediaType desc) then
          bnd (img (d_Digest desc)) (\<lambda>i.
          bnd (addImageBlobs (ordinary_image i) blobs) (\<lambda>blobs1. Inr (blobs1, put_manifest_at lvl ref (image_taggable i) ms)))
        else Inl (ErrMsg (''unknown media type: '' @ d_MediaType desc)))"

fun add_children :: "('d \<Rightarrow> 'b \<Rightarrow> 'b res) \<Rightarrow> 'd list \<Rightarrow> 'b \<Rightarrow> 'b res" where
  "add_children f [] st = Inr st"
| "add_children f (d # ds) st = bnd (f d st) (add_children f ds)"

text \<open>The map newManifests[lvl] is there when it is written to: levels are added one by one.\<close>

primrec addIndexBlobs ::
    "image_index \<Rightarrow> repository \<Rightarrow> blob_map \<Rightarrow> manifest_map list \<Rightarrow> nat \<Rightarrow> (blob_map \<times> manifest_map list) res" where
  "addIndexBlobs (ImageIndex mt dg sz im raw img sub ds) = (\<lambda>repo blobs newManifests lvl.
     (let ms = (if length newManifests < Suc lvl then newManifests @ [[]] else newManifests) in
      bnd im (\<lambda>index.
        add_children
          (add_child repo lvl
             (\<lambda>h. case map_sum id (\<lambda>idx. addIndexBlobs idx repo) (sub h) of
                    Inl e \<Rightarrow> Inl e
                  | Inr add \<Rightarrow> bnd (sub h) (\<lambda>idx. Inr (index_taggable idx, add)))
             img)
          (im_Manifests index) (blobs, ms))))"

section \<open>MultiWrite\<close>

text \<open>What is to be pushed: an image, an index, or something else.\<close>

datatype push_item = PushImage push_image | PushIndex image_index | PushOther string

definition zero_repository :: repository where
  "zero_repository = \<lparr>repo_Registry = \<lparr>reg_insecure = False, reg_registry = ''''\<rparr>, repo_repository = ''''\<rparr>"

fun common_repo :: "repository \<Rightarrow> reference list \<Rightarrow> repository res" where
  "common_repo repo [] = Inr repo"
| "common_repo repo (ref # refs) =
     (if repo = zero_repository then common_repo (Context ref) refs
      else if Context ref \<noteq> repo then
        Inl (ErrMsg (''MultiWrite can only push to the same repository (saw '' @ CHR 0x22 # Repository_Name repo @ [CHR 0x22] @ '' and '' @
                     CHR 0x22 # Repository_Name (Context ref) @ [CHR 0x22] @ '')''))
      else common_repo repo refs)"

record multi_plan =
  mp_blobs :: blob_map
  mp_newManifests :: "manifest_map list"
  mp_images :: manifest_map
  mp_indexes :: manifest_map

fun collect_items :: "repository \<Rightarrow> (reference \<times> push_item) list \<Rightarrow> multi_plan \<Rightarrow> multi_plan res" where
  "collect_items repo [] p = Inr p"
| "collect_items repo ((ref, i) # is) p =
     (case i of
        PushImage img \<Rightarrow>
          bnd (addImageBlobs img (mp_blobs p)) (\<lambda>blobs.
          collect_items repo is (p\<lparr>mp_blobs := blobs, mp_images := AList.update ref (image_taggable (pi_after img)) (mp_images p)\<rparr>))
      | PushIndex idx \<Rightarrow>
          bnd (addIndexBlobs idx repo (mp_blobs p) (mp_newManifests p) 0) (\<lambda>(blobs, ms).
          collect_items repo is (p\<lparr>mp_blobs := blobs, mp_newManifests := ms, mp_indexes := AList.update ref (index_taggable idx) (mp_indexes p)\<rparr>))
      | PushOther ty \<Rightarrow> Inl (ErrMsg (''pushable resource was not Image or ImageIndex: '' @ ty)))"

text \<open>
  Workers that take one job after the other; one that fails stops, and the error of the group is the
  first.  When all have stopped, the jobs that are left are not done.
\<close>

fun run_workers :: "nat \<Rightarrow> ('a \<Rightarrow> 's \<Rightarrow> go_error option \<times> 's) \<Rightarrow> 'a list \<Rightarrow> 's \<Rightarrow> go_error option \<times> 's" where
  "run_workers 0 f xs s = (None, s)"
| "run_workers (Suc n) f [] s = (None, s)"
| "run_workers (Suc n) f (x # xs) s =
     (case f x s of
        (None, s1) \<Rightarrow> run_workers (Suc n) f xs s1
      | (Some e, s1) \<Rightarrow> (Some e, snd (run_workers n f xs s1)))"

record multi_scheduler =
  ms_blobs :: "push_layer list \<Rightarrow> push_layer list"
  ms_tasks :: "manifest_map \<Rightarrow> manifest_map"
  ms_scopes :: "string list \<Rightarrow> string list"

definition commitMany ::
    "net_codec \<Rightarrow> multi_scheduler \<Rightarrow> nat \<Rightarrow> 's round_tripper \<Rightarrow> repository \<Rightarrow> manifest_map \<Rightarrow> 's \<Rightarrow> go_error option \<times> 's" where
  "commitMany N sch jobs rt repo m = run_workers jobs (\<lambda>(ref, t). commitManifest N rt repo t ref) (ms_tasks sch m)"

fun commit_all ::
    "net_codec \<Rightarrow> multi_scheduler \<Rightarrow> nat \<Rightarrow> 's round_tripper \<Rightarrow> repository \<Rightarrow> manifest_map list \<Rightarrow> 's \<Rightarrow> go_error option \<times> 's" where
  "commit_all N sch jobs rt repo [] s = (None, s)"
| "commit_all N sch jobs rt repo (m # ms) s =
     (case commitMany N sch jobs rt repo m s of
        (Some e, s1) \<Rightarrow> (Some e, s1)
      | (None, s1) \<Rightarrow> commit_all N sch jobs rt repo ms s1)"

text \<open>The blobs, the images, the manifests that were found, from the lowest level up, the indexes.\<close>

definition write_plan ::
    "net_env \<Rightarrow> multi_scheduler \<Rightarrow> nat \<Rightarrow> 's round_tripper \<Rightarrow> repository \<Rightarrow> multi_plan \<Rightarrow> 's \<Rightarrow> go_error option \<times> 's" where
  "write_plan env sch jobs rt repo p s =
     (case run_workers jobs (uploadOne env rt repo) (ms_blobs sch (map snd (mp_blobs p))) s of
        (Some e, s1) \<Rightarrow> (Some e, s1)
      | (None, s1) \<Rightarrow>
          commit_all (ne_codec env) sch jobs rt repo (mp_images p # rev (mp_newManifests p) @ [mp_indexes p]) s1)"

definition empty_plan :: multi_plan where
  "empty_plan = \<lparr>mp_blobs = [], mp_newManifests = [], mp_images = [], mp_indexes = []\<rparr>"

definition MultiWrite ::
    "net_env \<Rightarrow> multi_scheduler \<Rightarrow> 's round_tripper \<Rightarrow> (reference \<times> push_item) list \<Rightarrow> 's remote_option list \<Rightarrow> 's \<Rightarrow> unit res \<times> 's" where
  "MultiWrite env sch dt m options s =
     (case common_repo zero_repository (map fst m) of
        Inl e \<Rightarrow> (Inl e, s)
      | Inr repo \<Rightarrow>
          (case collect_items repo m empty_plan of
             Inl e \<Rightarrow> (Inl e, s)
           | Inr p \<Rightarrow>
               with_session env dt (repo_Registry repo)
                 (scopesForUploadingImage (ms_scopes sch) repo (ms_blobs sch (map snd (mp_blobs p)))) options
                 (\<lambda>o' st. err_result (write_plan env sch (nat (ro_jobs o')) (session_transport env o') repo p st)) s))"

end
