(* ===== verification/Registry_Multi.thy ===== *)
theory Registry_Multi
  imports Registry_Push Remote_Multi
begin

text \<open>
  Pushing several images and indexes at once: what MultiWrite collects from honest images and indexes,
  level by level, and that carrying out such a plan puts every child before the manifest that names it.
\<close>

section \<open>Workers\<close>

lemma run_workers_group: "run_group f xs s = (None, s') \<Longrightarrow> 0 < n \<Longrightarrow> run_workers n f xs s = (None, s')"
proof (induction xs arbitrary: s)
  case Nil
  then show ?case by (cases n) auto
next
  case (Cons x xs)
  from Cons.prems(1) obtain s1 where "f x s = (None, s1)" "run_group f xs s1 = (None, s')"
    by (auto split: prod.splits option.splits)
  with Cons.IH Cons.prems(2) show ?case by (cases n) auto
qed

section \<open>Committing manifests\<close>

definition served_ids :: "string list \<Rightarrow> reg_state \<Rightarrow> string set" where
  "served_ids ns r = {k. lookup_manifest (rg_manifests r) ns k \<noteq> None}"

text \<open>A manifest that the registry accepts once it serves the names in S.\<close>

definition acceptable :: "codec \<Rightarrow> string list \<Rightarrow> string set \<Rightarrow> reference \<times> taggable \<Rightarrow> bool" where
  "acceptable E ns S rt \<longleftrightarrow>
     names_ok ns (Identifier (fst rt)) \<and>
     (case unpackTaggable (snd rt) of
        Inl _ \<Rightarrow> False
      | Inr (raw, desc) \<Rightarrow>
          IsIndex (d_MediaType desc) \<longrightarrow>
            (case ParseIndexManifest E raw of
               Inl _ \<Rightarrow> False
             | Inr im \<Rightarrow> \<forall>d\<in>set (im_Manifests im). Hash_String (d_Digest d) \<in> S))"

lemma acceptable_mono: "acceptable E ns S rt \<Longrightarrow> S \<subseteq> S' \<Longrightarrow> acceptable E ns S' rt"
  by (auto simp: acceptable_def split: sum.splits prod.splits)

definition put_as :: "reference \<times> taggable \<Rightarrow> string \<Rightarrow> reg_manifest \<Rightarrow> bool" where
  "put_as rt k mf \<longleftrightarrow>
     (case unpackTaggable (snd rt) of
        Inl _ \<Rightarrow> False
      | Inr (raw, desc) \<Rightarrow>
          (k = Identifier (fst rt) \<or> k = sha_string raw) \<and> mf = \<lparr>rm_contentType = d_MediaType desc, rm_blob = raw\<rparr>)"

text \<open>
  The blobs stay, what is served under the references is one of the manifests put, and so is every
  manifest that has changed, under its reference or its digest.
\<close>

definition committed :: "string list \<Rightarrow> (reference \<times> taggable) set \<Rightarrow> reg_state \<Rightarrow> reg_state \<Rightarrow> bool" where
  "committed ns X r r' \<longleftrightarrow>
     rg_blobs r' = rg_blobs r \<and>
     (\<forall>rt\<in>X. \<exists>rt'\<in>X. \<exists>mf. put_as rt' (Identifier (fst rt)) mf \<and> lookup_manifest (rg_manifests r') ns (Identifier (fst rt)) = Some mf) \<and>
     (\<forall>ns' k. lookup_manifest (rg_manifests r') ns' k = lookup_manifest (rg_manifests r) ns' k \<or>
        join_with (CHR ''/'') ns' = join_with (CHR ''/'') ns \<and>
        (\<exists>rt\<in>X. \<exists>mf. put_as rt k mf \<and> lookup_manifest (rg_manifests r') ns' k = Some mf))"

lemma committed_refl: "committed ns {} r r"
  by (simp add: committed_def)

lemma committed_grows: "committed ns X r r' \<Longrightarrow> served_ids ns r \<subseteq> served_ids ns r'"
  unfolding committed_def served_ids_def by (clarsimp, metis option.distinct(1))

lemma committed_trans:
  assumes "committed ns X r r1" and "committed ns Y r1 r2"
  shows "committed ns (X \<union> Y) r r2"
  unfolding committed_def
proof (intro conjI ballI allI)
  show "rg_blobs r2 = rg_blobs r" using assms by (simp add: committed_def)
next
  fix rt assume rt: "rt \<in> X \<union> Y"
  let ?k = "Identifier (fst rt)"
  let ?l = "\<lambda>r. lookup_manifest (rg_manifests r) ns ?k"
  let ?Q = "\<lambda>X r. \<exists>rt'\<in>X. \<exists>mf. put_as rt' ?k mf \<and> ?l r = Some mf"
  have "?Q X r1 \<or> ?Q Y r2" "?l r2 = ?l r1 \<or> ?Q Y r2" using rt assms unfolding committed_def by blast+
  then show "?Q (X \<union> Y) r2" by auto
next
  fix ns' k
  let ?l = "\<lambda>r. lookup_manifest (rg_manifests r) ns' k"
  let ?Q = "\<lambda>X r. join_with (CHR ''/'') ns' = join_with (CHR ''/'') ns \<and> (\<exists>rt\<in>X. \<exists>mf. put_as rt k mf \<and> ?l r = Some mf)"
  have 1: "?l r1 = ?l r \<or> ?Q X r1" and 2: "?l r2 = ?l r1 \<or> ?Q Y r2" using assms unfolding committed_def by blast+
  from 2 show "?l r2 = ?l r \<or> ?Q (X \<union> Y) r2"
  proof
    assume e: "?l r2 = ?l r1"
    from 1 e show ?thesis by auto
  qed auto
qed

context registry_transport
begin

lemma commit_one:
  assumes "repo_at repo host ns" and "ok s" and "acceptable E ns (served_ids ns (view s)) (ref, t)"
  shows "\<exists>s'. commitManifest N rt repo t ref s = (None, s') \<and> ok s' \<and> committed ns {(ref, t)} (view s) (view s')"
proof -
  from assms(3) obtain raw desc where u: "unpackTaggable t = Inr (raw, desc)"
    by (auto simp: acceptable_def split: sum.splits)
  have a: "manifest_accepted E (rg_manifests (view s)) ns (d_MediaType desc) raw"
    using assms(3) u by (auto simp: acceptable_def manifest_accepted_def served_ids_def list_all_iff split: sum.splits)
  have "names_ok ns (Identifier ref)" using assms(3) by (simp add: acceptable_def)
  from commit_manifest [OF assms(1,2) this u a, of N] obtain s' where
    s': "commitManifest N rt repo t ref s = (None, s')" "ok s'" "manifest_put ns (Identifier ref) (d_MediaType desc) raw (view s) (view s')"
    by blast
  have "committed ns {(ref, t)} (view s) (view s')"
    using s'(3) unfolding committed_def manifest_put_def served_ids_def put_as_def
    by (simp add: u) (metis lookup_manifest_def)
  with s' show ?thesis by blast
qed

lemma commit_group:
  assumes "repo_at repo host ns"
  shows "ok s \<Longrightarrow> list_all (acceptable E ns (served_ids ns (view s))) m \<Longrightarrow>
     \<exists>s'. run_group (\<lambda>(ref, t). commitManifest N rt repo t ref) m s = (None, s') \<and> ok s' \<and> committed ns (set m) (view s) (view s')"
proof (induction m arbitrary: s)
  case Nil
  then show ?case by (simp add: committed_refl)
next
  case (Cons x m)
  obtain ref t where x: "x = (ref, t)" by (rule prod.exhaust)
  with Cons.prems commit_one [OF assms Cons.prems(1), of ref t N] obtain s1 where
    1: "commitManifest N rt repo t ref s = (None, s1)" "ok s1" "committed ns {(ref, t)} (view s) (view s1)" by auto
  have "list_all (acceptable E ns (served_ids ns (view s1))) m"
    using Cons.prems(2) acceptable_mono [OF _ committed_grows [OF 1(3)]] by (auto simp: list_all_iff)
  from Cons.IH [OF 1(2) this] obtain s2 where
    2: "run_group (\<lambda>(ref, t). commitManifest N rt repo t ref) m s1 = (None, s2)" "ok s2" "committed ns (set m) (view s1) (view s2)"
    by blast
  from committed_trans [OF 1(3) 2(3)] 1 2 x show ?case by auto
qed

lemma commit_many:
  assumes "repo_at repo host ns" and "ok s" and "list_all (acceptable E ns (served_ids ns (view s))) m" and "0 < jobs"
    and "set (ms_tasks sch m) = set m"
  shows "\<exists>s'. commitMany N sch jobs rt repo m s = (None, s') \<and> ok s' \<and> committed ns (set m) (view s) (view s')"
proof -
  have "list_all (acceptable E ns (served_ids ns (view s))) (ms_tasks sch m)" using assms(3,5) by (auto simp: list_all_iff)
  from commit_group [OF assms(1,2) this, of N] assms(4,5) show ?thesis
    unfolding commitMany_def by (metis run_workers_group)
qed

end

section \<open>Honest images and indexes\<close>

text \<open>An image of MultiWrite: the digests of its layers and its config file are known beforehand.\<close>

definition honest_push :: "push_image \<Rightarrow> bool" where
  "honest_push img \<longleftrightarrow>
     (\<exists>ls cfg mt raw. pushable_image img ls cfg mt raw \<and> i_RawConfigFile (pi_before img) = Inr cfg \<and>
        list_all (\<lambda>l. is_ok (l_Digest (pl_before l))) ls)"

text \<open>The contents that the registry has when the image has been pushed.\<close>

definition image_contents :: "push_image \<Rightarrow> bytes set" where
  "image_contents img =
     (case pi_Layers img of Inr ls \<Rightarrow> content_of ` set (filter distributable ls) | Inl _ \<Rightarrow> {}) \<union>
     (case i_RawConfigFile (pi_before img) of Inr cfg \<Rightarrow> {cfg} | Inl _ \<Rightarrow> {})"

text \<open>
  An honest index: its manifest is the one it serves, and its children, images or indexes, are there,
  are honest, and have the digests by which the manifest names them.
\<close>

inductive honest_index :: "codec \<Rightarrow> image_index \<Rightarrow> bool" for E where
  "ii_MediaType ii = Inr mt \<Longrightarrow> IsIndex mt \<Longrightarrow> ii_RawManifest ii = Inr raw \<Longrightarrow> ii_IndexManifest ii = Inr im \<Longrightarrow>
   ParseIndexManifest E raw = Inr im \<Longrightarrow>
   \<forall>d\<in>set (im_Manifests im).
     (IsIndex (d_MediaType d) \<and>
        (\<exists>sub r. ii_ImageIndex ii (d_Digest d) = Inr sub \<and> honest_index E sub \<and> ii_RawManifest sub = Inr r \<and> d_Digest d = sha r)) \<or>
     (IsImage (d_MediaType d) \<and>
        (\<exists>img r. ii_Image ii (d_Digest d) = Inr img \<and> honest_push (ordinary_image img) \<and> i_RawManifest img = Inr r \<and> d_Digest d = sha r)) \<Longrightarrow>
   honest_index E ii"

text \<open>The manifests within an index, at every depth, with the image for those of images.\<close>

inductive manifest_within :: "image_index \<Rightarrow> descriptor \<times> image option \<Rightarrow> bool" where
  image_child: "ii_IndexManifest ii = Inr im \<Longrightarrow> d \<in> set (im_Manifests im) \<Longrightarrow> \<not> IsIndex (d_MediaType d) \<Longrightarrow> IsImage (d_MediaType d) \<Longrightarrow>
     ii_Image ii (d_Digest d) = Inr img \<Longrightarrow> manifest_within ii (d, Some img)"
| index_child: "ii_IndexManifest ii = Inr im \<Longrightarrow> d \<in> set (im_Manifests im) \<Longrightarrow> IsIndex (d_MediaType d) \<Longrightarrow>
     ii_ImageIndex ii (d_Digest d) = Inr sub \<Longrightarrow> manifest_within ii (d, None)"
| deeper: "ii_IndexManifest ii = Inr im \<Longrightarrow> d \<in> set (im_Manifests im) \<Longrightarrow> IsIndex (d_MediaType d) \<Longrightarrow>
     ii_ImageIndex ii (d_Digest d) = Inr sub \<Longrightarrow> manifest_within sub x \<Longrightarrow> manifest_within ii x"

section \<open>Blobs of a plan\<close>

definition blobs_ok :: "blob_map \<Rightarrow> bool" where
  "blobs_ok bs \<longleftrightarrow> (\<forall>(h, l)\<in>set bs. pushable l \<and> h = sha (content_of l))"

definition blobs_cover :: "bytes set \<Rightarrow> blob_map \<Rightarrow> bool" where
  "blobs_cover C bs \<longleftrightarrow> (\<forall>c\<in>C. sha c \<in> fst ` set bs)"

lemma set_update: "set (AList.update k v al) \<subseteq> insert (k, v) (set al)"
  by (induction al) auto

lemma fst_update: "fst ` set (AList.update k v al) = insert k (fst ` set al)"
  using dom_update [of k v al] by (simp add: dom_map_of_conv_image_fst [symmetric] update_conv')

lemma blobs_ok_update: "blobs_ok bs \<Longrightarrow> pushable l \<Longrightarrow> blobs_ok (AList.update (sha (content_of l)) l bs)"
  using set_update [of "sha (content_of l)" l bs] by (fastforce simp: blobs_ok_def)

lemma add_layers_spec:
  assumes "list_all (\<lambda>l. is_ok (l_MediaType (pl_before l)) \<and> (distributable l \<longrightarrow> pushable l) \<and> is_ok (l_Digest (pl_before l))) ls" and "blobs_ok bs"
  shows "\<exists>bs'. add_layers_of ls bs = Inr bs' \<and> blobs_ok bs' \<and> fst ` set bs \<subseteq> fst ` set bs' \<and>
     blobs_cover (content_of ` set (filter distributable ls)) bs'"
  using assms
proof (induction ls arbitrary: bs)
  case (Cons l ls)
  from Cons.prems obtain h mt where l: "l_Digest (pl_before l) = Inr h" "l_MediaType (pl_before l) = Inr mt" by (auto simp: is_ok_iff)
  have d: "distributable l \<longleftrightarrow> IsDistributable mt" by (simp add: distributable_def l)
  show ?case
  proof (cases "IsDistributable mt")
    case False
    with Cons l d show ?thesis by simp
  next
    case True
    with Cons.prems l d have p: "pushable l" "h = sha (content_of l)" by (auto simp: pushable_def)
    from Cons.IH [OF _ blobs_ok_update [OF Cons.prems(2) p(1)]] Cons.prems(1) obtain bs' where
      "add_layers_of ls (AList.update h l bs) = Inr bs'" "blobs_ok bs'" "fst ` set (AList.update h l bs) \<subseteq> fst ` set bs'"
      "blobs_cover (content_of ` set (filter distributable ls)) bs'" by (auto simp: p(2))
    with l d True p(2) show ?thesis by (auto simp: blobs_cover_def fst_update)
  qed
qed (simp add: blobs_cover_def)

lemma addImageBlobs_spec:
  assumes "honest_push img" and "blobs_ok bs"
  shows "\<exists>bs'. addImageBlobs img bs = Inr bs' \<and> blobs_ok bs' \<and> fst ` set bs \<subseteq> fst ` set bs' \<and> blobs_cover (image_contents img) bs'"
proof -
  from assms(1) obtain ls cfg mt raw where i: "pushable_image img ls cfg mt raw" "i_RawConfigFile (pi_before img) = Inr cfg"
    "list_all (\<lambda>l. is_ok (l_Digest (pl_before l))) ls" by (auto simp: honest_push_def)
  then have "list_all (\<lambda>l. is_ok (l_MediaType (pl_before l)) \<and> (distributable l \<longrightarrow> pushable l) \<and> is_ok (l_Digest (pl_before l))) ls"
    "pi_Layers img = Inr ls" by (auto simp: pushable_image_def list_all_iff)
  from add_layers_spec [OF this(1) assms(2)] this(2) obtain b1 where b1: "pi_Layers img = Inr ls" "add_layers_of ls bs = Inr b1" "blobs_ok b1"
    "fst ` set bs \<subseteq> fst ` set b1" "blobs_cover (content_of ` set (filter distributable ls)) b1" by blast
  let ?cl = "ordinary_layer None (configLayer (sha cfg) cfg)"
  have "blobs_ok (AList.update (sha cfg) ?cl b1)"
    using blobs_ok_update [OF b1(3) pushable_config(1)] by (simp add: pushable_config)
  moreover have "addImageBlobs img bs = Inr (AList.update (sha cfg) ?cl b1)"
    using b1 i(2) by (simp add: addImageBlobs_def ConfigLayer_sha) (simp add: configLayer_def)
  ultimately show ?thesis using b1 i(2) by (auto simp: fst_update blobs_cover_def image_contents_def)
qed

section \<open>Levels of a plan\<close>

definition level_ids :: "manifest_map list \<Rightarrow> nat \<Rightarrow> string set" where
  "level_ids ms l = (if l < length ms then (\<lambda>rt. Identifier (fst rt)) ` set (ms ! l) else {})"

definition levels_ok :: "codec \<Rightarrow> string list \<Rightarrow> manifest_map list \<Rightarrow> bool" where
  "levels_ok E ns ms \<longleftrightarrow> (\<forall>l<length ms. \<forall>rt\<in>set (ms ! l). acceptable E ns (level_ids ms (Suc l)) rt \<and> Identifier (fst rt) \<in> range sha_string)"

definition levels_grow :: "manifest_map list \<Rightarrow> manifest_map list \<Rightarrow> bool" where
  "levels_grow ms ms' \<longleftrightarrow> length ms \<le> length ms' \<and> (\<forall>l. level_ids ms l \<subseteq> level_ids ms' l)"

lemma levels_grow_refl: "levels_grow ms ms"
  by (simp add: levels_grow_def)

lemma levels_grow_trans: "levels_grow a b \<Longrightarrow> levels_grow b c \<Longrightarrow> levels_grow a c"
  by (fastforce simp: levels_grow_def)

lemma put_manifest_ids:
  assumes "lvl < length ms"
  shows "level_ids (put_manifest_at lvl ref t ms) l = (if l = lvl then insert (Identifier ref) (level_ids ms l) else level_ids ms l)"
proof -
  have "(\<lambda>rt. Identifier (fst rt)) ` set (AList.update ref t m) = insert (Identifier ref) ((\<lambda>rt. Identifier (fst rt)) ` set m)" for m
  proof -
    have "(\<lambda>rt. Identifier (fst rt)) ` set (AList.update ref t m) = Identifier ` (fst ` set (AList.update ref t m))" by (simp add: image_image)
    also have "\<dots> = insert (Identifier ref) (Identifier ` (fst ` set m))" by (simp only: fst_update image_insert)
    finally show ?thesis by (simp add: image_image)
  qed
  with assms show ?thesis by (auto simp: level_ids_def put_manifest_at_def nth_list_update)
qed

lemma put_manifest_grow: "lvl < length ms \<Longrightarrow> levels_grow ms (put_manifest_at lvl ref t ms)"
  using put_manifest_ids [of lvl ms ref t] by (auto simp: levels_grow_def) (simp add: put_manifest_at_def)

lemma put_manifest_ok:
  assumes "levels_ok E ns ms" and "lvl < length ms" and "acceptable E ns (level_ids ms (Suc lvl)) (ref, t)"
    and "Identifier ref \<in> range sha_string"
  shows "levels_ok E ns (put_manifest_at lvl ref t ms)"
proof -
  let ?ms = "put_manifest_at lvl ref t ms"
  have len: "length ?ms = length ms" by (simp add: put_manifest_at_def)
  have g: "level_ids ms l \<subseteq> level_ids ?ms l" for l using put_manifest_grow [OF assms(2)] by (simp add: levels_grow_def)
  show ?thesis
    unfolding levels_ok_def len
  proof (intro allI impI ballI)
    fix l rt assume l: "l < length ms" and rt: "rt \<in> set (?ms ! l)"
    have "rt \<in> set (ms ! l) \<or> l = lvl \<and> rt = (ref, t)"
      using rt l set_update [of ref t "ms ! lvl"] by (cases "l = lvl") (auto simp: put_manifest_at_def)
    then show "acceptable E ns (level_ids ?ms (Suc l)) rt \<and> Identifier (fst rt) \<in> range sha_string"
      using assms(1,3,4) l acceptable_mono [of E ns "level_ids ms (Suc l)" rt, OF _ g] by (auto simp: levels_ok_def)
  qed
qed

lemma new_level_ok: "levels_ok E ns ms \<Longrightarrow> levels_ok E ns (ms @ [[]])"
  unfolding levels_ok_def
proof (intro allI impI ballI)
  fix l rt assume a: "\<forall>l<length ms. \<forall>rt\<in>set (ms ! l). acceptable E ns (level_ids ms (Suc l)) rt \<and> Identifier (fst rt) \<in> range sha_string"
    and l: "l < length (ms @ [[]])" "rt \<in> set ((ms @ [[]]) ! l)"
  then have "l < length ms" "rt \<in> set (ms ! l)" by (auto simp: nth_append split: if_splits)
  moreover have "level_ids ms (Suc l) \<subseteq> level_ids (ms @ [[]]) (Suc l)" by (auto simp: level_ids_def nth_append)
  ultimately show "acceptable E ns (level_ids (ms @ [[]]) (Suc l)) rt \<and> Identifier (fst rt) \<in> range sha_string" using a acceptable_mono by blast
qed

lemma new_level_grow: "levels_grow ms (ms @ [[]])"
  by (auto simp: levels_grow_def level_ids_def nth_append)

section \<open>What addIndexBlobs collects\<close>

lemma addIndexBlobs_eq:
  "addIndexBlobs ii repo blobs newManifests lvl =
     bnd (ii_IndexManifest ii) (\<lambda>index.
       add_children
         (add_child repo lvl (\<lambda>h. bnd (ii_ImageIndex ii h) (\<lambda>idx. Inr (index_taggable idx, addIndexBlobs idx repo))) (ii_Image ii))
         (im_Manifests index) (blobs, if length newManifests < Suc lvl then newManifests @ [[]] else newManifests))"
proof (cases ii)
  case (ImageIndex mt dg sz im raw img sub ds)
  have "(\<lambda>h. case map_sum id (\<lambda>idx. addIndexBlobs idx repo) (sub h) of Inl e \<Rightarrow> Inl e | Inr add \<Rightarrow> bnd (sub h) (\<lambda>idx. Inr (index_taggable idx, add))) =
     (\<lambda>h. bnd (sub h) (\<lambda>idx. Inr (index_taggable idx, addIndexBlobs idx repo)))"
    by (auto simp: fun_eq_iff bnd_def split: sum.splits)
  then show ?thesis by (simp add: ImageIndex Let_def)
qed

text \<open>What a plan has after some children: what it had, their names at the level, and their images.\<close>

definition plan_grows :: "codec \<Rightarrow> string list \<Rightarrow> blob_map \<times> manifest_map list \<Rightarrow> blob_map \<times> manifest_map list \<Rightarrow> bool" where
  "plan_grows E ns st st' \<longleftrightarrow>
     (blobs_ok (fst st) \<and> levels_ok E ns (snd st) \<longrightarrow> blobs_ok (fst st') \<and> levels_ok E ns (snd st')) \<and>
     fst ` set (fst st) \<subseteq> fst ` set (fst st') \<and> levels_grow (snd st) (snd st')"

lemma plan_grows_trans: "plan_grows E ns a b \<Longrightarrow> plan_grows E ns b c \<Longrightarrow> plan_grows E ns a c"
  unfolding plan_grows_def using levels_grow_trans [of "snd a" "snd b" "snd c"] by (meson subset_trans)

lemma blobs_cover_mono: "blobs_cover C bs \<Longrightarrow> fst ` set bs \<subseteq> fst ` set bs' \<Longrightarrow> blobs_cover C bs'"
  by (auto simp: blobs_cover_def)

definition planned :: "descriptor \<times> image option \<Rightarrow> blob_map \<times> manifest_map list \<Rightarrow> bool" where
  "planned x st \<longleftrightarrow>
     (\<exists>l. Hash_String (d_Digest (fst x)) \<in> level_ids (snd st) l) \<and>
     (case snd x of None \<Rightarrow> True | Some img \<Rightarrow> blobs_cover (image_contents (ordinary_image img)) (fst st))"

definition child_planned :: "nat \<Rightarrow> (descriptor \<times> image option) set \<Rightarrow> descriptor \<Rightarrow> blob_map \<times> manifest_map list \<Rightarrow> bool" where
  "child_planned lvl X d st \<longleftrightarrow> Hash_String (d_Digest d) \<in> level_ids (snd st) lvl \<and> (\<forall>x\<in>X. planned x st)"

lemma planned_mono: "planned x st \<Longrightarrow> plan_grows E ns st st' \<Longrightarrow> planned x st'"
  using blobs_cover_mono by (cases "snd x") (auto simp: planned_def plan_grows_def levels_grow_def, blast+)

lemma child_planned_mono: "child_planned lvl X d st \<Longrightarrow> plan_grows E ns st st' \<Longrightarrow> child_planned lvl X d st'"
  using planned_mono unfolding child_planned_def plan_grows_def levels_grow_def by blast

lemma add_children_spec:
  assumes "\<forall>d\<in>set ds. \<forall>st. lvl < length (snd st) \<longrightarrow> blobs_ok (fst st) \<longrightarrow> levels_ok E ns (snd st) \<longrightarrow>
      (\<exists>st'. f d st = Inr st' \<and> plan_grows E ns st st' \<and> child_planned lvl (imgs d) d st')"
  shows "lvl < length (snd st) \<Longrightarrow> blobs_ok (fst st) \<Longrightarrow> levels_ok E ns (snd st) \<Longrightarrow>
      \<exists>st'. add_children f ds st = Inr st' \<and> plan_grows E ns st st' \<and> (\<forall>d\<in>set ds. child_planned lvl (imgs d) d st')"
  using assms
proof (induction ds arbitrary: st)
  case Nil
  then show ?case by (simp add: plan_grows_def levels_grow_refl)
next
  case (Cons d ds)
  from Cons.prems obtain st1 where 1: "f d st = Inr st1" "plan_grows E ns st st1" "child_planned lvl (imgs d) d st1" by force
  have "lvl < length (snd st1)" "blobs_ok (fst st1)" "levels_ok E ns (snd st1)"
    using 1(2) Cons.prems(1-3) by (auto simp: plan_grows_def levels_grow_def)
  from Cons.IH [OF this] Cons.prems(4) obtain st2 where 2: "add_children f ds st1 = Inr st2" "plan_grows E ns st1 st2"
    "\<forall>d\<in>set ds. child_planned lvl (imgs d) d st2" by auto
  from 1 2 plan_grows_trans [OF 1(2) 2(2)] child_planned_mono [OF 1(3) 2(2)] show ?case by auto
qed

text \<open>The manifests that the child of an index stands for.\<close>

definition manifests_of :: "image_index \<Rightarrow> descriptor \<Rightarrow> (descriptor \<times> image option) set" where
  "manifests_of ii d =
     (if IsIndex (d_MediaType d) then
        (case ii_ImageIndex ii (d_Digest d) of Inr sub \<Rightarrow> insert (d, None) {x. manifest_within sub x} | Inl _ \<Rightarrow> {})
      else if IsImage (d_MediaType d) then (case ii_Image ii (d_Digest d) of Inr img \<Rightarrow> {(d, Some img)} | Inl _ \<Rightarrow> {}) else {})"

lemma manifests_of_iff:
  "x \<in> manifests_of ii d \<longleftrightarrow>
     IsIndex (d_MediaType d) \<and> (\<exists>sub. ii_ImageIndex ii (d_Digest d) = Inr sub \<and> (x = (d, None) \<or> manifest_within sub x)) \<or>
     \<not> IsIndex (d_MediaType d) \<and> IsImage (d_MediaType d) \<and> (\<exists>img. ii_Image ii (d_Digest d) = Inr img \<and> x = (d, Some img))"
  by (cases "ii_ImageIndex ii (d_Digest d)"; cases "ii_Image ii (d_Digest d)") (auto simp: manifests_of_def)

lemma manifest_within_of: "manifest_within ii x \<Longrightarrow> \<exists>im. ii_IndexManifest ii = Inr im \<and> (\<exists>d\<in>set (im_Manifests im). x \<in> manifests_of ii d)"
  by (cases rule: manifest_within.cases) (auto simp: manifests_of_iff)

lemma add_image_child:
  assumes "IsImage (d_MediaType d)" and "ii_Image ii (d_Digest d) = Inr img" and "honest_push (ordinary_image img)"
    and "i_RawManifest img = Inr r" and "d_Digest d = sha r" and "plain_repo ns"
    and "lvl < length (snd st)" and "blobs_ok (fst st)" and "levels_ok E ns (snd st)"
  shows "\<exists>st'. add_child repo lvl sub (ii_Image ii) d st = Inr st' \<and> plan_grows E ns st st' \<and> child_planned lvl {(d, Some img)} d st'"
proof -
  obtain bs ms where st: "st = (bs, ms)" by (rule prod.exhaust)
  let ?ref = "RefDigest (Repository_Digest repo (Hash_String (d_Digest d)))"
  have ref: "Identifier ?ref = sha_string r" by (simp add: Identifier_def Digest_Identifier_def Repository_Digest_def DigestStr_def assms(5) sha_string_hash)
  from addImageBlobs_spec [OF assms(3), of bs] assms(8) st obtain bs' where b: "addImageBlobs (ordinary_image img) bs = Inr bs'" "blobs_ok bs'"
    "fst ` set bs \<subseteq> fst ` set bs'" "blobs_cover (image_contents (ordinary_image img)) bs'" by auto
  from assms(3) obtain mt where "i_MediaType img = Inr mt" "\<not> IsIndex mt"
    by (auto simp: honest_push_def pushable_image_def ordinary_image_def)
  then have acc: "acceptable E ns S (?ref, image_taggable img)" for S
    using hash_names [OF assms(6), of r] ref
    by (simp add: acceptable_def image_taggable_def unpackTaggable_def assms(4) plain_descriptor_def sha_string_hash)
  let ?ms = "put_manifest_at lvl ?ref (image_taggable img) ms"
  have l: "lvl < length ms" using assms(7) st by simp
  have "add_child repo lvl sub (ii_Image ii) d st = Inr (bs', ?ms)"
    using assms(1,2) b(1) media_kinds_disjoint [of "d_MediaType d"] by (simp add: add_child_def st Let_def)
  moreover have "plan_grows E ns st (bs', ?ms)"
    using b put_manifest_grow [OF l] put_manifest_ok [OF _ l acc] ref by (auto simp: plan_grows_def st)
  moreover have "child_planned lvl {(d, Some img)} d (bs', ?ms)"
    using b(4) ref by (auto simp: child_planned_def planned_def put_manifest_ids [OF l] assms(5) sha_string_hash)
  ultimately show ?thesis by blast
qed

definition index_planned :: "codec \<Rightarrow> string list \<Rightarrow> repository \<Rightarrow> image_index \<Rightarrow> nat \<Rightarrow> blob_map \<times> manifest_map list \<Rightarrow> bool" where
  "index_planned E ns repo ii lvl st \<longleftrightarrow>
     (\<exists>st'. addIndexBlobs ii repo (fst st) (snd st) lvl = Inr st' \<and> plan_grows E ns st st' \<and> lvl < length (snd st') \<and>
        (\<forall>im. ii_IndexManifest ii = Inr im \<longrightarrow> (\<forall>d\<in>set (im_Manifests im). Hash_String (d_Digest d) \<in> level_ids (snd st') lvl)) \<and>
        (\<forall>x. manifest_within ii x \<longrightarrow> planned x st'))"

lemma add_index_child:
  assumes "IsIndex (d_MediaType d)" and "ii_ImageIndex ii (d_Digest d) = Inr sub"
    and "ii_MediaType sub = Inr mt" "ii_RawManifest sub = Inr r" "ii_IndexManifest sub = Inr im" "ParseIndexManifest E r = Inr im"
    and "d_Digest d = sha r" and "plain_repo ns" and "index_planned E ns repo sub (Suc lvl) st"
    and "lvl < length (snd st)" and "blobs_ok (fst st)" and "levels_ok E ns (snd st)"
  shows "\<exists>st'. add_child repo lvl (\<lambda>h. bnd (ii_ImageIndex ii h) (\<lambda>idx. Inr (index_taggable idx, addIndexBlobs idx repo))) img d st = Inr st' \<and>
     plan_grows E ns st st' \<and> child_planned lvl (insert (d, None) {x. manifest_within sub x}) d st'"
proof -
  obtain bs ms where st: "st = (bs, ms)" by (rule prod.exhaust)
  let ?ref = "RefDigest (Repository_Digest repo (Hash_String (d_Digest d)))"
  have ref: "Identifier ?ref = sha_string r" by (simp add: Identifier_def Digest_Identifier_def Repository_Digest_def DigestStr_def assms(7) sha_string_hash)
  from assms(9) obtain bs1 ms1 where 1: "addIndexBlobs sub repo bs ms (Suc lvl) = Inr (bs1, ms1)" "plan_grows E ns st (bs1, ms1)"
    "\<forall>d\<in>set (im_Manifests im). Hash_String (d_Digest d) \<in> level_ids ms1 (Suc lvl)"
    "\<forall>x. manifest_within sub x \<longrightarrow> planned x (bs1, ms1)"
    by (auto simp: index_planned_def st assms(5))
  have acc: "acceptable E ns (level_ids ms1 (Suc lvl)) (?ref, index_taggable sub)"
    using hash_names [OF assms(8), of r] ref 1(3)
    by (simp add: acceptable_def index_taggable_def unpackTaggable_def assms(3,4,6) plain_descriptor_def sha_string_hash)
  have l: "lvl < length ms1" using 1(2) assms(10) by (auto simp: plan_grows_def levels_grow_def st)
  have ok: "blobs_ok bs1" "levels_ok E ns ms1" using 1(2) assms(11,12) by (auto simp: plan_grows_def)
  let ?ms = "put_manifest_at lvl ?ref (index_taggable sub) ms1"
  have g1: "plan_grows E ns (bs1, ms1) (bs1, ?ms)"
    using put_manifest_grow [OF l] put_manifest_ok [OF _ l acc] ref by (auto simp: plan_grows_def)
  from plan_grows_trans [OF 1(2) g1] have g: "plan_grows E ns st (bs1, ?ms)" .
  have "child_planned lvl (insert (d, None) {x. manifest_within sub x}) d (bs1, ?ms)"
    using 1(4) planned_mono [OF _ g1] ref by (auto simp: child_planned_def planned_def [of "(d, None)"] put_manifest_ids [OF l] assms(7) sha_string_hash)
  with g 1(1) assms(1,2) show ?thesis by (simp add: add_child_def st Let_def)
qed

lemma honest_index_planned:
  assumes "honest_index E ii" and "plain_repo ns"
  shows "lvl \<le> length (snd st) \<Longrightarrow> blobs_ok (fst st) \<Longrightarrow> levels_ok E ns (snd st) \<Longrightarrow> index_planned E ns repo ii lvl st"
  using assms(1)
proof (induction arbitrary: lvl st rule: honest_index.induct)
  case (1 ii mt raw im)
  obtain bs ms where st: "st = (bs, ms)" by (rule prod.exhaust)
  let ?ms = "if length ms < Suc lvl then ms @ [[]] else ms"
  let ?st = "(bs, ?ms)"
  let ?f = "add_child repo lvl (\<lambda>h. bnd (ii_ImageIndex ii h) (\<lambda>idx. Inr (index_taggable idx, addIndexBlobs idx repo))) (ii_Image ii)"
  have g0: "plan_grows E ns st ?st" using new_level_ok new_level_grow by (auto simp: plan_grows_def st levels_grow_refl)
  have st0: "lvl < length (snd ?st)" "blobs_ok (fst ?st)" "levels_ok E ns (snd ?st)"
    using 1(7-9) new_level_ok by (auto simp: st)
  have each: "\<exists>st2. ?f d st1 = Inr st2 \<and> plan_grows E ns st1 st2 \<and> child_planned lvl (manifests_of ii d) d st2"
    if d: "d \<in> set (im_Manifests im)" and s1: "lvl < length (snd st1)" "blobs_ok (fst st1)" "levels_ok E ns (snd st1)" for d st1
  proof -
    consider (sub) sub r where "IsIndex (d_MediaType d)" "ii_ImageIndex ii (d_Digest d) = Inr sub" "ii_RawManifest sub = Inr r" "d_Digest d = sha r"
        "honest_index E sub" "\<forall>st lvl. lvl \<le> length (snd st) \<longrightarrow> blobs_ok (fst st) \<longrightarrow> levels_ok E ns (snd st) \<longrightarrow> index_planned E ns repo sub lvl st"
      | (img) img r where "IsImage (d_MediaType d)" "ii_Image ii (d_Digest d) = Inr img" "honest_push (ordinary_image img)"
        "i_RawManifest img = Inr r" "d_Digest d = sha r"
      using bspec [OF 1(6) d] by blast
    then show ?thesis
    proof cases
      case (sub sub r)
      note i = sub(1) and hon = sub(5,6) and sub = sub(2-4)
      from hon(1) sub(2) obtain mt' im' where h: "ii_MediaType sub = Inr mt'" "ii_IndexManifest sub = Inr im'" "ParseIndexManifest E r = Inr im'"
        by cases auto
      have "manifests_of ii d = insert (d, None) {x. manifest_within sub x}" using i sub(1) by (simp add: manifests_of_def)
      moreover have "index_planned E ns repo sub (Suc lvl) st1" using s1 hon(2)[rule_format, of "Suc lvl" st1] by simp
      ultimately show ?thesis using add_index_child [OF i sub(1) h(1) sub(2) h(2,3) sub(3) assms(2) _ s1] by simp
    next
      case (img img r)
      note i = img
      have "manifests_of ii d = {(d, Some img)}" using i(1,2) media_kinds_disjoint by (auto simp: manifests_of_def)
      with add_image_child [OF i assms(2) s1] show ?thesis by simp
    qed
  qed
  then have "\<forall>d\<in>set (im_Manifests im). \<forall>st1. lvl < length (snd st1) \<longrightarrow> blobs_ok (fst st1) \<longrightarrow> levels_ok E ns (snd st1) \<longrightarrow>
      (\<exists>st2. ?f d st1 = Inr st2 \<and> plan_grows E ns st1 st2 \<and> child_planned lvl (manifests_of ii d) d st2)" by blast
  from add_children_spec [where imgs = "manifests_of ii" and f = ?f, OF this st0] obtain st2 where
    s2: "add_children ?f (im_Manifests im) ?st = Inr st2" "plan_grows E ns ?st st2" "\<forall>d\<in>set (im_Manifests im). child_planned lvl (manifests_of ii d) d st2"
    by blast
  have len: "lvl < length (snd st2)" using s2(2) st0(1) by (auto simp: plan_grows_def levels_grow_def)
  have a: "addIndexBlobs ii repo (fst st) (snd st) lvl = Inr st2"
    using s2(1) by (simp add: addIndexBlobs_eq 1(4) st)
  have ids: "\<forall>d\<in>set (im_Manifests im). Hash_String (d_Digest d) \<in> level_ids (snd st2) lvl" using s2(3) by (auto simp: child_planned_def)
  have im: "planned x st2" if w: "manifest_within ii x" for x
  proof -
    from manifest_within_of [OF w] obtain d where "d \<in> set (im_Manifests im)" "x \<in> manifests_of ii d" by (auto simp: 1(4))
    with s2(3) show ?thesis by (auto simp: child_planned_def)
  qed
  show ?case
    unfolding index_planned_def using a plan_grows_trans [OF g0 s2(2)] len ids im by (auto simp: 1(4))
qed

section \<open>What MultiWrite collects\<close>

definition honest_item :: "codec \<Rightarrow> push_item \<Rightarrow> bool" where
  "honest_item E i = (case i of PushImage img \<Rightarrow> honest_push img | PushIndex ii \<Rightarrow> honest_index E ii | PushOther _ \<Rightarrow> False)"

definition item_taggable :: "push_item \<Rightarrow> taggable" where
  "item_taggable i = (case i of PushImage img \<Rightarrow> image_taggable (pi_after img) | PushIndex ii \<Rightarrow> index_taggable ii | PushOther _ \<Rightarrow> TagRaw (Inl nil_deref) None)"

definition plan_ok :: "codec \<Rightarrow> string list \<Rightarrow> multi_plan \<Rightarrow> bool" where
  "plan_ok E ns p \<longleftrightarrow>
     blobs_ok (mp_blobs p) \<and> levels_ok E ns (mp_newManifests p) \<and>
     list_all (acceptable E ns {}) (mp_images p) \<and> list_all (acceptable E ns (level_ids (mp_newManifests p) 0)) (mp_indexes p)"

definition item_planned :: "reference \<times> push_item \<Rightarrow> multi_plan \<Rightarrow> bool" where
  "item_planned ri p =
     (case snd ri of
        PushImage img \<Rightarrow> fst ri \<in> fst ` set (mp_images p) \<and> blobs_cover (image_contents img) (mp_blobs p)
      | PushIndex ii \<Rightarrow> fst ri \<in> fst ` set (mp_indexes p) \<and> (\<forall>x. manifest_within ii x \<longrightarrow> planned x (mp_blobs p, mp_newManifests p))
      | PushOther _ \<Rightarrow> False)"

definition plan_extends :: "multi_plan \<Rightarrow> multi_plan \<Rightarrow> bool" where
  "plan_extends p p' \<longleftrightarrow>
     fst ` set (mp_blobs p) \<subseteq> fst ` set (mp_blobs p') \<and> levels_grow (mp_newManifests p) (mp_newManifests p') \<and>
     fst ` set (mp_images p) \<subseteq> fst ` set (mp_images p') \<and> fst ` set (mp_indexes p) \<subseteq> fst ` set (mp_indexes p')"

lemma plan_extends_trans: "plan_extends a b \<Longrightarrow> plan_extends b c \<Longrightarrow> plan_extends a c"
  unfolding plan_extends_def by (meson subset_trans levels_grow_trans)

lemma planned_extends:
  "planned x (mp_blobs p, mp_newManifests p) \<Longrightarrow> plan_extends p p' \<Longrightarrow> planned x (mp_blobs p', mp_newManifests p')"
  using blobs_cover_mono by (cases "snd x") (auto simp: planned_def plan_extends_def levels_grow_def, blast+)

lemma item_planned_mono:
  assumes "item_planned ri p" and "plan_extends p p'"
  shows "item_planned ri p'"
proof (cases "snd ri")
  case (PushImage img)
  with assms blobs_cover_mono [of "image_contents img" "mp_blobs p" "mp_blobs p'"] show ?thesis
    unfolding item_planned_def plan_extends_def by auto
next
  case (PushIndex ii)
  with assms planned_extends [OF _ assms(2)] show ?thesis unfolding item_planned_def plan_extends_def by auto
qed (use assms(1) in \<open>simp add: item_planned_def\<close>)

text \<open>The requested manifests of a plan.\<close>

definition requested :: "multi_plan \<Rightarrow> (reference \<times> taggable) set" where
  "requested p = set (mp_images p) \<union> set (mp_indexes p)"

lemma acceptable_update:
  "list_all (acceptable E ns S) m \<Longrightarrow> acceptable E ns S (ref, t) \<Longrightarrow> list_all (acceptable E ns S) (AList.update ref t m)"
  using set_update [of ref t m] by (auto simp: list_all_iff)

lemma collect_one:
  assumes "honest_item E i" and "names_ok ns (Identifier ref)" and "plain_repo ns" and "plan_ok E ns p"
  shows "\<exists>p'. (\<forall>is. collect_items repo ((ref, i) # is) p = collect_items repo is p') \<and> plan_ok E ns p' \<and> plan_extends p p' \<and> item_planned (ref, i) p' \<and>
     requested p' \<subseteq> insert (ref, item_taggable i) (requested p)"
proof (cases i)
  case (PushImage img)
  with assms(1) have hon: "honest_push img" by (simp add: honest_item_def)
  from addImageBlobs_spec [OF hon, of "mp_blobs p"] assms(4) obtain bs' where b: "addImageBlobs img (mp_blobs p) = Inr bs'" "blobs_ok bs'"
    "fst ` set (mp_blobs p) \<subseteq> fst ` set bs'" "blobs_cover (image_contents img) bs'" by (auto simp: plan_ok_def)
  from hon obtain mt raw where "i_MediaType (pi_after img) = Inr mt" "i_RawManifest (pi_after img) = Inr raw" "\<not> IsIndex mt"
    by (auto simp: honest_push_def pushable_image_def)
  then have acc: "acceptable E ns {} (ref, image_taggable (pi_after img))"
    using assms(2) by (simp add: acceptable_def image_taggable_def unpackTaggable_def plain_descriptor_def)
  let ?p = "p\<lparr>mp_blobs := bs', mp_images := AList.update ref (image_taggable (pi_after img)) (mp_images p)\<rparr>"
  have "plan_ok E ns ?p" using assms(4) b(2) acceptable_update [OF _ acc] by (simp add: plan_ok_def)
  moreover have "plan_extends p ?p" using b(3) by (auto simp: plan_extends_def fst_update levels_grow_refl)
  moreover have "item_planned (ref, i) ?p" using b(4) by (simp add: item_planned_def PushImage fst_update)
  moreover have "requested ?p \<subseteq> insert (ref, item_taggable i) (requested p)"
    using set_update [of ref "image_taggable (pi_after img)" "mp_images p"] by (auto simp: requested_def item_taggable_def PushImage)
  ultimately show ?thesis using b(1) PushImage by (intro exI [of _ ?p]) simp
next
  case (PushIndex ii)
  with assms(1) have hon: "honest_index E ii" by (simp add: honest_item_def)
  have "index_planned E ns repo ii 0 (mp_blobs p, mp_newManifests p)"
    using assms(4) by (intro honest_index_planned [OF hon assms(3)]) (auto simp: plan_ok_def)
  then obtain bs ms where 1: "addIndexBlobs ii repo (mp_blobs p) (mp_newManifests p) 0 = Inr (bs, ms)"
    "plan_grows E ns (mp_blobs p, mp_newManifests p) (bs, ms)"
    "\<forall>im. ii_IndexManifest ii = Inr im \<longrightarrow> (\<forall>d\<in>set (im_Manifests im). Hash_String (d_Digest d) \<in> level_ids ms 0)"
    "\<forall>x. manifest_within ii x \<longrightarrow> planned x (bs, ms)" by (auto simp: index_planned_def)
  from hon obtain mt raw im where i: "ii_MediaType ii = Inr mt" "ii_RawManifest ii = Inr raw" "ii_IndexManifest ii = Inr im" "ParseIndexManifest E raw = Inr im"
    by cases auto
  have acc: "acceptable E ns (level_ids ms 0) (ref, index_taggable ii)"
    using assms(2) 1(3) i by (simp add: acceptable_def index_taggable_def unpackTaggable_def plain_descriptor_def)
  have ids: "level_ids (mp_newManifests p) 0 \<subseteq> level_ids ms 0" using 1(2) by (simp add: plan_grows_def levels_grow_def)
  let ?p = "p\<lparr>mp_blobs := bs, mp_newManifests := ms, mp_indexes := AList.update ref (index_taggable ii) (mp_indexes p)\<rparr>"
  have "list_all (acceptable E ns (level_ids ms 0)) (mp_indexes p)"
    using assms(4) acceptable_mono [OF _ ids] by (auto simp: plan_ok_def list_all_iff)
  then have "plan_ok E ns ?p" using assms(4) 1(2) acceptable_update [OF _ acc] by (simp add: plan_ok_def plan_grows_def)
  moreover have "plan_extends p ?p" using 1(2) by (auto simp: plan_extends_def plan_grows_def fst_update)
  moreover have "item_planned (ref, i) ?p" using 1(4) by (simp add: item_planned_def PushIndex fst_update)
  moreover have "requested ?p \<subseteq> insert (ref, item_taggable i) (requested p)"
    using set_update [of ref "index_taggable ii" "mp_indexes p"] by (auto simp: requested_def item_taggable_def PushIndex)
  ultimately show ?thesis using 1(1) PushIndex by (intro exI [of _ ?p]) simp
next
  case (PushOther x)
  with assms(1) show ?thesis by (simp add: honest_item_def)
qed

lemma collect_spec:
  assumes "plain_repo ns"
  shows "\<forall>(ref, i)\<in>set is. honest_item E i \<and> names_ok ns (Identifier ref) \<Longrightarrow> plan_ok E ns p \<Longrightarrow>
     \<exists>p'. collect_items repo is p = Inr p' \<and> plan_ok E ns p' \<and> plan_extends p p' \<and> (\<forall>ri\<in>set is. item_planned ri p') \<and>
       requested p' \<subseteq> (\<lambda>(ref, i). (ref, item_taggable i)) ` set is \<union> requested p"
proof (induction "is" arbitrary: p)
  case Nil
  then show ?case by (simp add: plan_extends_def levels_grow_refl)
next
  case (Cons x "is")
  obtain ref i where x: "x = (ref, i)" by (rule prod.exhaust)
  with Cons.prems collect_one [OF _ _ assms, of E i ref p repo] obtain p1 where
    1: "\<forall>is. collect_items repo ((ref, i) # is) p = collect_items repo is p1" "plan_ok E ns p1" "plan_extends p p1" "item_planned (ref, i) p1"
    "requested p1 \<subseteq> insert (ref, item_taggable i) (requested p)" by auto
  from Cons.IH [OF _ 1(2)] Cons.prems(1) obtain p2 where
    2: "collect_items repo is p1 = Inr p2" "plan_ok E ns p2" "plan_extends p1 p2" "\<forall>ri\<in>set is. item_planned ri p2"
    "requested p2 \<subseteq> (\<lambda>(ref, i). (ref, item_taggable i)) ` set is \<union> requested p1" by auto
  from 1 2 x plan_extends_trans [OF 1(3) 2(3)] item_planned_mono [OF 1(4) 2(3)] show ?case by auto
qed

section \<open>Carrying out a plan\<close>

lemma commit_all_append:
  "commit_all N sch jobs rt repo (a @ b) s =
     (case commit_all N sch jobs rt repo a s of (None, s1) \<Rightarrow> commit_all N sch jobs rt repo b s1 | (Some e, s1) \<Rightarrow> (Some e, s1))"
  by (induction a arbitrary: s) (auto split: prod.splits option.splits)

lemma level_ids_Cons [simp]: "level_ids (m # ms) (Suc l) = level_ids ms l" "level_ids (m # ms) 0 = (\<lambda>rt. Identifier (fst rt)) ` set m"
  by (simp_all add: level_ids_def)

lemma levels_ok_Cons: "levels_ok E ns (m # ms) \<longleftrightarrow>
    (\<forall>rt\<in>set m. acceptable E ns (level_ids ms 0) rt \<and> Identifier (fst rt) \<in> range sha_string) \<and> levels_ok E ns ms"
  by (auto simp: levels_ok_def All_less_Suc2)

definition manifests_in :: "manifest_map list \<Rightarrow> (reference \<times> taggable) set" where
  "manifests_in ms = \<Union> (set ` set ms)"

lemma committed_serves: "committed ns X r r' \<Longrightarrow> rt \<in> X \<Longrightarrow> Identifier (fst rt) \<in> served_ids ns r'"
  by (fastforce simp: committed_def served_ids_def)

lemma level_ids_in: "k \<in> level_ids ms l \<Longrightarrow> \<exists>rt\<in>manifests_in ms. k = Identifier (fst rt)"
  by (force simp: level_ids_def manifests_in_def split: if_splits)

definition fair_tasks :: "multi_scheduler \<Rightarrow> bool" where
  "fair_tasks sch \<longleftrightarrow> fair_order (ms_blobs sch) \<and> (\<forall>m. set (ms_tasks sch m) = set m)"

context registry_transport
begin

lemma commit_levels:
  assumes "repo_at repo host ns" and "0 < jobs" and "fair_tasks sch"
  shows "ok s \<Longrightarrow> levels_ok E ns ms \<Longrightarrow>
    \<exists>s'. commit_all N sch jobs rt repo (rev ms) s = (None, s') \<and> ok s' \<and> committed ns (manifests_in ms) (view s) (view s')"
proof (induction ms arbitrary: s)
  case Nil
  then show ?case by (simp add: manifests_in_def committed_refl)
next
  case (Cons m ms)
  from Cons obtain s1 where 1: "commit_all N sch jobs rt repo (rev ms) s = (None, s1)" "ok s1" "committed ns (manifests_in ms) (view s) (view s1)"
    by (auto simp: levels_ok_Cons)
  have "level_ids ms 0 \<subseteq> served_ids ns (view s1)"
    using committed_serves [OF 1(3)] level_ids_in by blast
  then have "list_all (acceptable E ns (served_ids ns (view s1))) m"
    using Cons.prems(2) acceptable_mono [of E ns "level_ids ms 0"] by (auto simp: levels_ok_Cons list_all_iff)
  from commit_many [OF assms(1) 1(2) this assms(2), of sch N] assms(3) obtain s2 where
    2: "commitMany N sch jobs rt repo m s1 = (None, s2)" "ok s2" "committed ns (set m) (view s1) (view s2)" by (auto simp: fair_tasks_def)
  have "manifests_in (m # ms) = manifests_in ms \<union> set m" by (auto simp: manifests_in_def)
  with committed_trans [OF 1(3) 2(3)] 1 2 show ?case by (auto simp: commit_all_append)
qed

lemma write_plan_spec:
  assumes "repo_at repo host ns" and "0 < jobs" and "fair_tasks sch" and "plan_ok E ns p"
    and "ok s" and "bs_uploads (rg_blobs (view s)) = Map.empty"
  shows "\<exists>s' r. write_plan env sch jobs rt repo p s = (None, s') \<and> ok s' \<and>
     blobs_grown (map (content_of \<circ> snd) (mp_blobs p)) (view s) r \<and> committed ns (requested p \<union> manifests_in (mp_newManifests p)) r (view s')"
proof -
  have f: "fair_order (ms_blobs sch)" "set (ms_tasks sch m) = set m" for m using assms(3) by (auto simp: fair_tasks_def)
  have "list_all pushable (map snd (mp_blobs p))" using assms(4) by (auto simp: plan_ok_def blobs_ok_def list_all_iff)
  from upload_fair [OF assms(1) this f(1) assms(5,6)] obtain s1 where
    1: "run_group (uploadOne env rt repo) (ms_blobs sch (map snd (mp_blobs p))) s = (None, s1)" "ok s1"
      "blobs_grown (map (content_of \<circ> snd) (mp_blobs p)) (view s) (view s1)" by auto
  have "list_all (acceptable E ns (served_ids ns (view s1))) (mp_images p)"
    using assms(4) acceptable_mono [of E ns "{}"] by (auto simp: plan_ok_def list_all_iff)
  from commit_many [OF assms(1) 1(2) this assms(2) f(2)] obtain s2 where
    2: "commitMany (ne_codec env) sch jobs rt repo (mp_images p) s1 = (None, s2)" "ok s2" "committed ns (set (mp_images p)) (view s1) (view s2)" by blast
  from commit_levels [OF assms(1-3) 2(2), of "mp_newManifests p" "ne_codec env"] assms(4) obtain s3 where
    3: "commit_all (ne_codec env) sch jobs rt repo (rev (mp_newManifests p)) s2 = (None, s3)" "ok s3"
      "committed ns (manifests_in (mp_newManifests p)) (view s2) (view s3)" by (auto simp: plan_ok_def)
  have "level_ids (mp_newManifests p) 0 \<subseteq> served_ids ns (view s3)"
    using committed_serves [OF 3(3)] level_ids_in by blast
  then have "list_all (acceptable E ns (served_ids ns (view s3))) (mp_indexes p)"
    using assms(4) acceptable_mono by (auto simp: plan_ok_def list_all_iff)
  from commit_many [OF assms(1) 3(2) this assms(2) f(2)] obtain s4 where
    4: "commitMany (ne_codec env) sch jobs rt repo (mp_indexes p) s3 = (None, s4)" "ok s4" "committed ns (set (mp_indexes p)) (view s3) (view s4)" by blast
  have "requested p \<union> manifests_in (mp_newManifests p) = set (mp_images p) \<union> (manifests_in (mp_newManifests p) \<union> set (mp_indexes p))"
    by (auto simp: requested_def)
  with committed_trans [OF 2(3) committed_trans [OF 3(3) 4(3)]]
  have c: "committed ns (requested p \<union> manifests_in (mp_newManifests p)) (view s1) (view s4)" by simp
  have "write_plan env sch jobs rt repo p s = (None, s4)"
    using run_workers_group [OF 1(1) assms(2)] 2(1) 3(1) 4(1) by (simp add: write_plan_def commit_all_append)
  with 1(3) 4(2) c show ?thesis by blast
qed

end

section \<open>What has been pushed\<close>

definition holds_contents :: "reg_state \<Rightarrow> bytes set \<Rightarrow> bool" where
  "holds_contents r C \<longleftrightarrow> (\<forall>c\<in>C. bs_contents (rg_blobs r) (sha_string c) \<noteq> None)"

definition item_served :: "string list \<Rightarrow> reg_state \<Rightarrow> reference \<times> push_item \<Rightarrow> bool" where
  "item_served ns r ri \<longleftrightarrow>
     (\<exists>raw desc. unpackTaggable (item_taggable (snd ri)) = Inr (raw, desc) \<and>
        lookup_manifest (rg_manifests r) ns (Identifier (fst ri)) = Some \<lparr>rm_contentType = d_MediaType desc, rm_blob = raw\<rparr>) \<and>
     (case snd ri of
        PushImage img \<Rightarrow> holds_contents r (image_contents img)
      | PushIndex ii \<Rightarrow>
          (\<forall>d o'. manifest_within ii (d, o') \<longrightarrow>
             lookup_manifest (rg_manifests r) ns (Hash_String (d_Digest d)) \<noteq> None \<and>
             (\<forall>img. o' = Some img \<longrightarrow> holds_contents r (image_contents (ordinary_image img))))
      | PushOther _ \<Rightarrow> False)"

definition items_pushed :: "string list \<Rightarrow> (reference \<times> push_item) list \<Rightarrow> reg_state \<Rightarrow> reg_state \<Rightarrow> bool" where
  "items_pushed ns is r r' \<longleftrightarrow>
     bs_uploads (rg_blobs r') = Map.empty \<and> (\<forall>ri\<in>set is. item_served ns r' ri) \<and>
     (\<forall>d. bs_contents (rg_blobs r) d \<noteq> None \<longrightarrow> bs_contents (rg_blobs r') d \<noteq> None) \<and>
     (\<forall>ns' k. join_with (CHR ''/'') ns' \<noteq> join_with (CHR ''/'') ns \<or> (k \<notin> (\<lambda>ri. Identifier (fst ri)) ` set is \<and> k \<notin> range sha_string) \<longrightarrow>
        lookup_manifest (rg_manifests r') ns' k = lookup_manifest (rg_manifests r) ns' k)"

text \<open>The names are tags, all different.\<close>

definition tags_differ :: "(reference \<times> push_item) list \<Rightarrow> bool" where
  "tags_differ is \<longleftrightarrow> distinct (map (\<lambda>ri. Identifier (fst ri)) is) \<and> list_all (\<lambda>ri. CHR '':'' \<notin> set (Identifier (fst ri))) is"

lemma tags_not_digest: "tags_differ is \<Longrightarrow> ri \<in> set is \<Longrightarrow> Identifier (fst ri) \<notin> range sha_string"
  by (force simp: tags_differ_def list_all_iff sha_string_def)

lemma blobs_held:
  assumes "blobs_ok bs" and "blobs_cover C bs" and "blobs_grown (map (content_of \<circ> snd) bs) r r1" and "rg_blobs r' = rg_blobs r1"
  shows "holds_contents r' C"
  unfolding holds_contents_def
proof
  fix c assume "c \<in> C"
  with assms(2) obtain l where l: "(sha c, l) \<in> set bs" by (force simp: blobs_cover_def)
  with assms(1) have "sha c = sha (content_of l)" by (auto simp: blobs_ok_def)
  then have "sha_string c = sha_string (content_of l)" by (simp add: sha_string_hash)
  moreover have "bs_contents (rg_blobs r1) (sha_string (content_of l)) \<noteq> None"
    using assms(3) l by (fastforce simp: blobs_grown_def)
  ultimately show "bs_contents (rg_blobs r') (sha_string c) \<noteq> None" by (simp add: assms(4))
qed

lemma level_refs: "levels_ok E ns ms \<Longrightarrow> rt \<in> manifests_in ms \<Longrightarrow> Identifier (fst rt) \<in> range sha_string"
  unfolding levels_ok_def manifests_in_def by (metis (no_types, lifting) UnionE imageE in_set_conv_nth)

lemma items_pushed_by:
  assumes "plan_ok E ns p" and "\<forall>ri\<in>set is. item_planned ri p" and "requested p \<subseteq> (\<lambda>(ref, i). (ref, item_taggable i)) ` set is"
    and "blobs_grown (map (content_of \<circ> snd) (mp_blobs p)) r r1"
    and "committed ns (requested p \<union> manifests_in (mp_newManifests p)) r1 r'" and "tags_differ is"
  shows "items_pushed ns is r r'"
proof -
  let ?X = "requested p \<union> manifests_in (mp_newManifests p)"
  have ok: "blobs_ok (mp_blobs p)" "levels_ok E ns (mp_newManifests p)" using assms(1) by (auto simp: plan_ok_def)
  have b: "rg_blobs r' = rg_blobs r1" "rg_manifests r1 = rg_manifests r" using assms(4,5) by (auto simp: committed_def blobs_grown_def)
  note held = blobs_held [OF ok(1) _ assms(4) b(1)]
  have served: "lookup_manifest (rg_manifests r') ns k \<noteq> None" if "k \<in> level_ids (mp_newManifests p) l" for k l
    using level_ids_in [OF that] committed_serves [OF assms(5)] by (auto simp: served_ids_def)
  have put: "\<exists>ri\<in>set is. Identifier (fst ri) = k \<and> rt = (fst ri, item_taggable (snd ri))"
    if "rt \<in> ?X" "put_as rt k mf" "k \<notin> range sha_string" for rt k mf
  proof -
    have "k = Identifier (fst rt)" using that(2,3) by (auto simp: put_as_def split: sum.splits)
    with that(1,3) level_refs [OF ok(2), of rt] have "rt \<in> requested p" by blast
    with assms(3) \<open>k = _\<close> show ?thesis by (force simp: case_prod_beta)
  qed
  have item: "item_served ns r' ri" if ri: "ri \<in> set is" for ri
  proof -
    obtain ref i where e: "ri = (ref, i)" by (rule prod.exhaust)
    have pl: "item_planned ri p" using assms(2) ri by blast
    then obtain rt where rt: "rt \<in> requested p" "fst rt = ref"
      by (cases i) (force simp: item_planned_def requested_def e)+
    from rt assms(5) obtain rt' mf where m: "rt' \<in> ?X" "put_as rt' (Identifier ref) mf" "lookup_manifest (rg_manifests r') ns (Identifier ref) = Some mf"
      unfolding committed_def by blast
    from put [OF m(1,2)] tags_not_digest [OF assms(6) ri] e obtain ri' where ri': "ri' \<in> set is" "Identifier (fst ri') = Identifier ref"
      "rt' = (fst ri', item_taggable (snd ri'))" by auto
    have "ri' = ri" using assms(6) ri ri'(1,2) e by (auto simp: tags_differ_def distinct_map inj_on_def)
    with m ri'(3) e tags_not_digest [OF assms(6) ri] have 1: "\<exists>raw desc. unpackTaggable (item_taggable i) = Inr (raw, desc) \<and>
        lookup_manifest (rg_manifests r') ns (Identifier ref) = Some \<lparr>rm_contentType = d_MediaType desc, rm_blob = raw\<rparr>"
      by (auto simp: put_as_def split: sum.splits)
    show ?thesis
    proof (cases i)
      case (PushImage img)
      with pl held have "holds_contents r' (image_contents img)" by (simp add: item_planned_def e)
      with 1 PushImage show ?thesis by (simp add: item_served_def e)
    next
      case (PushIndex ii)
      have "lookup_manifest (rg_manifests r') ns (Hash_String (d_Digest d)) \<noteq> None \<and>
          (\<forall>img. o' = Some img \<longrightarrow> holds_contents r' (image_contents (ordinary_image img)))" if w: "manifest_within ii (d, o')" for d o'
      proof -
        have "planned (d, o') (mp_blobs p, mp_newManifests p)" using pl w by (simp add: item_planned_def e PushIndex)
        then show ?thesis using served held by (auto simp: planned_def)
      qed
      with 1 PushIndex show ?thesis unfolding item_served_def e by simp
    qed (use pl in \<open>simp add: item_planned_def e\<close>)
  qed
  have same: "lookup_manifest (rg_manifests r') ns' k = lookup_manifest (rg_manifests r) ns' k"
    if "join_with (CHR ''/'') ns' \<noteq> join_with (CHR ''/'') ns \<or> (k \<notin> (\<lambda>ri. Identifier (fst ri)) ` set is \<and> k \<notin> range sha_string)" for ns' k
  proof -
    from assms(5) have "lookup_manifest (rg_manifests r') ns' k = lookup_manifest (rg_manifests r1) ns' k \<or>
        join_with (CHR ''/'') ns' = join_with (CHR ''/'') ns \<and> (\<exists>rt\<in>?X. \<exists>mf. put_as rt k mf)" unfolding committed_def by blast
    with that put b(2) show ?thesis by (metis imageI)
  qed
  show ?thesis
    unfolding items_pushed_def using item same assms(4) b by (auto simp: blobs_grown_def) (metis option.distinct(1))
qed

lemma common_repo_same: "\<forall>ref\<in>set refs. Context ref = repo \<Longrightarrow> r = zero_repository \<or> r = repo \<Longrightarrow>
    common_repo r refs = Inr (if refs = [] then r else repo)"
  by (induction refs arbitrary: r) auto

text \<open>Everything that MultiWrite is given can be pushed to the same repository.\<close>

definition multi_pushable :: "codec \<Rightarrow> string list \<Rightarrow> repository \<Rightarrow> (reference \<times> push_item) list \<Rightarrow> bool" where
  "multi_pushable E ns repo is \<longleftrightarrow>
     is \<noteq> [] \<and> (\<forall>(ref, i)\<in>set is. Context ref = repo \<and> names_ok ns (Identifier ref) \<and> honest_item E i) \<and> tags_differ is"

definition some_jobs :: "network round_tripper \<Rightarrow> string \<Rightarrow> network remote_option list \<Rightarrow> bool" where
  "some_jobs dt host options \<longleftrightarrow> (case remote_makeOptions dt host options of Inl _ \<Rightarrow> False | Inr o' \<Rightarrow> 0 < ro_jobs o')"

lemma multi_write_pushes:
  assumes "reaches enc E dt repo ns options w" and "multi_pushable E ns repo is" and "fair_tasks sch"
    and "some_jobs dt (RegistryStr (repo_Registry repo)) options"
  defines "host \<equiv> RegistryStr (repo_Registry repo)"
  shows "\<exists>w'. MultiWrite env sch dt is options w = (Inr (), w') \<and> others_as host w w' \<and>
     items_pushed ns is (registry_of host w) (registry_of host w')"
proof -
  from assms(1) obtain o' where r: "repo_at repo host ns" "nw_regs w host \<noteq> None" "bs_uploads (rg_blobs (registry_of host w)) = Map.empty"
    "remote_makeOptions dt host options = Inr o'" "ro_transport o' = registry_network enc E"
    unfolding host_def by (rule reachesD)
  have j: "0 < nat (ro_jobs o')" using assms(4) r(4) by (simp add: some_jobs_def host_def)
  from r(1) have ns: "plain_repo ns" by (simp add: repo_at_def)
  have "plan_ok E ns empty_plan" by (simp add: plan_ok_def empty_plan_def blobs_ok_def levels_ok_def)
  moreover have "\<forall>(ref, i)\<in>set is. honest_item E i \<and> names_ok ns (Identifier ref)" using assms(2) by (auto simp: multi_pushable_def)
  ultimately obtain p where p: "collect_items repo is empty_plan = Inr p" "plan_ok E ns p" "\<forall>ri\<in>set is. item_planned ri p"
    "requested p \<subseteq> (\<lambda>(ref, i). (ref, item_taggable i)) ` set is"
    using collect_spec [OF ns, of "is" E empty_plan repo] by (auto simp: requested_def empty_plan_def)
  have c: "common_repo zero_repository (map fst is) = Inr repo"
    using assms(2) common_repo_same [of "map fst is" repo zero_repository] unfolding multi_pushable_def by fastforce
  let ?P = "\<lambda>res r'. res = Inr () \<and> items_pushed ns is (registry_of host w) r'"
  let ?work = "\<lambda>o' st. err_result (write_plan env sch (nat (ro_jobs o')) (session_transport env o') repo p st)"
  have work: "\<exists>res st. ?work o' (ses, s) = (res, st) \<and> session_ok (others_as host w) st \<and> ?P res (session_view (registry_of host) st)"
    if ses: "ss_auth ses = NoAuth" "others_as host w s" "registry_of host s = registry_of host w"
      and T: "registry_transport (session_transport env o') enc E (session_view (registry_of host)) (session_ok (others_as host w)) host"
    for ses s
  proof -
    have ok: "session_ok (others_as host w) (ses, s)" using ses by (simp add: session_ok_def)
    have v: "session_view (registry_of host) (ses, s) = registry_of host w" using ses by (simp add: session_view_def)
    from registry_transport.write_plan_spec [OF T r(1) j assms(3) p(2) ok, of env] r(3) v obtain st r1 where
      "write_plan env sch (nat (ro_jobs o')) (session_transport env o') repo p (ses, s) = (None, st)" "session_ok (others_as host w) st"
      "blobs_grown (map (content_of \<circ> snd) (mp_blobs p)) (registry_of host w) r1"
      "committed ns (requested p \<union> manifests_in (mp_newManifests p)) r1 (session_view (registry_of host) st)" by auto
    with items_pushed_by [OF p(2-4)] assms(2) show ?thesis by (auto simp: multi_pushable_def)
  qed
  show ?thesis
    using with_session_net [where P = ?P and work = ?work and env = env and reg = "repo_Registry repo"
        and scopes = "scopesForUploadingImage (ms_scopes sch) repo (ms_blobs sch (map snd (mp_blobs p)))", OF r(4,5) _ r(2) work]
    by (simp add: MultiWrite_def c p(1) host_def)
qed

text \<open>
  C6. MultiWrite pushes what it is given.  To a registry that asks for no authentication, images and
  indexes, with indexes and images within them at every depth, pushed under different tags of one
  repository: whatever the order in which Go goes over the maps and the workers take the blobs and the
  manifests, and however many workers there are, MultiWrite succeeds; each tag then serves the
  manifest of its image or index, the registry serves a manifest under the digest of every manifest
  within the indexes, so a child is always there when the manifest that names it is put, and it holds
  the config files and the layers that may be distributed of all those images.  No blob is lost, and
  no other tag, repository or registry changes.
\<close>

theorem MultiWrite_pushes:
  assumes "reaches enc E dt repo ns options w" and "multi_pushable E ns repo is" and "fair_tasks sch"
    and "some_jobs dt (RegistryStr (repo_Registry repo)) options"
  defines "host \<equiv> RegistryStr (repo_Registry repo)"
  shows "\<exists>w'. MultiWrite env sch dt is options w = (Inr (), w') \<and> others_as host w w' \<and>
     items_pushed ns is (registry_of host w) (registry_of host w')"
  unfolding host_def by (rule multi_write_pushes [OF assms(1-4)])

section \<open>A small push\<close>

definition demo_child :: image where
  "demo_child = pi_before demo_push_image\<lparr>i_Layers := Inr []\<rparr>"

definition demo_manifest :: "bytes \<Rightarrow> descriptor" where
  "demo_manifest raw = plain_descriptor (sha raw) 1 DockerManifestSchema2"

definition demo_index_manifest :: index_manifest where
  "demo_index_manifest = \<lparr>im_SchemaVersion = 2, im_MediaType = OCIImageIndex, im_Manifests = [demo_manifest ''m''], im_Annotations = []\<rparr>"

definition demo_index :: image_index where
  "demo_index = ImageIndex (Inr OCIImageIndex) (Inr (sha ''0'')) (Inr 1) (Inr demo_index_manifest) (Inr ''0'') (\<lambda>_. Inr demo_child)
     (\<lambda>_. Inl nil_deref) None"

definition multi_codec :: codec where
  "multi_codec = table_codec [] [demo_index_manifest] []"

definition demo_items :: "(reference \<times> push_item) list" where
  "demo_items =
     [(RefTag \<lparr>tag_Repository = demo_repo, tag_tag = ''v1'', tag_original = ''''\<rparr>, PushIndex demo_index),
      (RefTag \<lparr>tag_Repository = demo_repo, tag_tag = ''v2'', tag_original = ''''\<rparr>, PushImage demo_push_image)]"

definition demo_multi_scheduler :: multi_scheduler where
  "demo_multi_scheduler = \<lparr>ms_blobs = rev, ms_tasks = rev, ms_scopes = id\<rparr>"

lemma demo_child_honest: "honest_push (ordinary_image demo_child)"
  by (simp add: honest_push_def pushable_image_def ordinary_image_def demo_child_def demo_push_image_def Let_def config_known_def
      IsIndex_def media_type_defs)

lemma demo_index_honest: "honest_index multi_codec demo_index"
proof (rule honest_index.intros [where mt = OCIImageIndex and raw = "''0''" and im = demo_index_manifest])
  show "ParseIndexManifest multi_codec ''0'' = Inr demo_index_manifest"
    by (simp add: ParseIndexManifest_def multi_codec_def table_codec_def parse_digits_def digit_val_def)
  have "i_RawManifest demo_child = Inr ''m''" by (simp add: demo_child_def demo_push_image_def Let_def)
  with demo_child_honest show "\<forall>d\<in>set (im_Manifests demo_index_manifest).
     (IsIndex (d_MediaType d) \<and>
        (\<exists>sub r. ii_ImageIndex demo_index (d_Digest d) = Inr sub \<and> honest_index multi_codec sub \<and> ii_RawManifest sub = Inr r \<and> d_Digest d = sha r)) \<or>
     (IsImage (d_MediaType d) \<and>
        (\<exists>img r. ii_Image demo_index (d_Digest d) = Inr img \<and> honest_push (ordinary_image img) \<and> i_RawManifest img = Inr r \<and> d_Digest d = sha r))"
    by (simp add: demo_index_def demo_index_manifest_def demo_manifest_def plain_descriptor_def IsIndex_def IsImage_def media_type_defs)
qed (simp_all add: demo_index_def IsIndex_def media_type_defs)

lemma demo_image_honest: "honest_push demo_push_image"
  unfolding honest_push_def using demo_pushable
  by (intro exI [of _ "[demo_push_layer, demo_push_layer]"] exI [of _ "''c''"] exI [of _ DockerManifestSchema2] exI [of _ "''m''"])
    (simp add: demo_push_image_def demo_push_layer_def ordinary_layer_def Let_def nil_layer_def is_ok_def)

lemma demo_items_pushable: "multi_pushable multi_codec [''app''] demo_repo demo_items"
  by (simp add: multi_pushable_def demo_items_def tags_differ_def Context_def Tag_Context_def Identifier_def Tag_Identifier_def TagStr_def
      honest_item_def demo_index_honest demo_image_honest names_ok_def)

lemma demo_some_jobs: "some_jobs (demo_net E) ''r.io'' []"
  by (simp add: some_jobs_def remote_makeOptions_def base_remote_options_def defaultJobs_def)

theorem MultiWrite_pushes_witness:
  "\<exists>w'. MultiWrite demo_env demo_multi_scheduler (demo_net multi_codec) demo_items [] demo_world = (Inr (), w') \<and>
     lookup_manifest (rg_manifests (registry_of ''r.io'' w')) [''app''] ''v1'' = Some \<lparr>rm_contentType = OCIImageIndex, rm_blob = ''0''\<rparr> \<and>
     lookup_manifest (rg_manifests (registry_of ''r.io'' w')) [''app''] (sha_string ''m'') \<noteq> None"
proof -
  have f: "fair_tasks demo_multi_scheduler" by (simp add: fair_tasks_def fair_order_def demo_multi_scheduler_def)
  have m: "manifest_within demo_index (demo_manifest ''m'', Some demo_child)"
    by (rule image_child [where im = demo_index_manifest]) (simp_all add: demo_index_def demo_index_manifest_def demo_manifest_def plain_descriptor_def IsIndex_def IsImage_def media_type_defs)
  have j: "some_jobs (demo_net multi_codec) (RegistryStr (repo_Registry demo_repo)) []" by (simp add: demo_repo_str demo_some_jobs)
  from MultiWrite_pushes [OF demo_reaches demo_items_pushable f j, of demo_env] obtain w' where
    w: "MultiWrite demo_env demo_multi_scheduler (demo_net multi_codec) demo_items [] demo_world = (Inr (), w')"
      "items_pushed [''app''] demo_items (registry_of ''r.io'' demo_world) (registry_of ''r.io'' w')" by (auto simp: demo_repo_str)
  have "item_served [''app''] (registry_of ''r.io'' w') (RefTag \<lparr>tag_Repository = demo_repo, tag_tag = ''v1'', tag_original = ''''\<rparr>, PushIndex demo_index)"
    using w(2) by (simp add: items_pushed_def demo_items_def)
  then have s: "\<exists>raw desc. unpackTaggable (index_taggable demo_index) = Inr (raw, desc) \<and>
        lookup_manifest (rg_manifests (registry_of ''r.io'' w')) [''app''] ''v1'' = Some \<lparr>rm_contentType = d_MediaType desc, rm_blob = raw\<rparr>"
      "\<forall>d o'. manifest_within demo_index (d, o') \<longrightarrow>
        lookup_manifest (rg_manifests (registry_of ''r.io'' w')) [''app''] (Hash_String (d_Digest d)) \<noteq> None"
    by (simp_all add: item_served_def item_taggable_def Identifier_def Tag_Identifier_def TagStr_def)
  have "Hash_String (d_Digest (demo_manifest ''m'')) = sha_string ''m''" by (simp add: demo_manifest_def plain_descriptor_def sha_string_hash)
  with s(2) m have "lookup_manifest (rg_manifests (registry_of ''r.io'' w')) [''app''] (sha_string ''m'') \<noteq> None" by metis
  with s(1) w(1) show ?thesis
    by (auto simp: index_taggable_def unpackTaggable_def demo_index_def plain_descriptor_def)
qed

end
