(* ===== verification/Go_Files.thy ===== *)
theory Go_Files
  imports Go_Path V1_Data
begin

text \<open>
  Paths that are cleaned and joined, and files: the functions of packages path/filepath and os that
  the sources call, on a tree of files.
\<close>

section \<open>Cleaning twice\<close>

definition normal_elem :: "string \<Rightarrow> bool" where
  "normal_elem e \<longleftrightarrow> e \<noteq> '''' \<and> e \<noteq> ''.'' \<and> e \<noteq> ''..'' \<and> CHR ''/'' \<notin> set e"

text \<open>A clean path: double dots at the start, and only if it is relative, then names.\<close>

definition clean_form :: "bool \<Rightarrow> string list \<Rightarrow> bool" where
  "clean_form r es \<longleftrightarrow> (\<exists>k ns. es = replicate k ''..'' @ ns \<and> list_all normal_elem ns \<and> (r \<longrightarrow> k = 0))"

lemma normal_step: "normal_elem e \<Longrightarrow> clean_step r st e = e # st"
  by (auto simp: clean_step_def normal_elem_def)

lemma foldl_normal: "list_all normal_elem ns \<Longrightarrow> foldl (clean_step r) st ns = rev ns @ st"
  by (induction ns arbitrary: st) (auto simp: normal_step)

lemma foldl_dots: "foldl (clean_step False) (replicate j ''..'') (replicate k ''..'') = replicate (k + j) ''..''"
proof (induction k arbitrary: j)
  case (Suc k)
  have "clean_step False (replicate j ''..'') ''..'' = replicate (Suc j) ''..''" by (cases j) (auto simp: clean_step_def)
  with Suc [of "Suc j"] show ?case by simp
qed simp

lemma foldl_clean_form: "clean_form r es \<Longrightarrow> foldl (clean_step r) [] es = rev es"
  using foldl_dots [of 0] by (auto simp: clean_form_def foldl_normal)

lemma clean_form_snoc:
  assumes "clean_form r es" and "normal_elem e"
  shows "clean_form r (es @ [e])"
proof -
  from assms(1) obtain k ns where "es = replicate k ''..'' @ ns" "list_all normal_elem ns" "r \<longrightarrow> k = 0" by (auto simp: clean_form_def)
  with assms(2) show ?thesis unfolding clean_form_def by (intro exI [of _ k] exI [of _ "ns @ [e]"]) simp
qed

lemma clean_form_butlast:
  assumes "clean_form r (es @ [e])" and "e \<noteq> ''..''"
  shows "clean_form r es"
proof -
  from assms(1) obtain k ns where 1: "es @ [e] = replicate k ''..'' @ ns" "list_all normal_elem ns" "r \<longrightarrow> k = 0" by (auto simp: clean_form_def)
  show ?thesis
  proof (cases ns rule: rev_cases)
    case Nil
    with 1 assms(2) show ?thesis by (metis append_Nil2 in_set_replicate last_in_set last_snoc snoc_eq_iff_butlast)
  next
    case (snoc ms m)
    with 1 have "es = replicate k ''..'' @ ms" "list_all normal_elem ms" by auto
    with 1(3) show ?thesis by (auto simp: clean_form_def)
  qed
qed

lemma clean_form_dots:
  assumes "clean_form False (es @ [''..''])"
  shows "clean_form False (es @ [''..'', ''..''])"
proof -
  from assms obtain k ns where 1: "es @ [''..''] = replicate k ''..'' @ ns" "list_all normal_elem ns" by (auto simp: clean_form_def)
  then have "ns = []" by (cases ns rule: rev_cases) (auto simp: normal_elem_def)
  with 1(1) have "es @ [''..'', ''..''] = replicate (Suc k) ''..''"
    by (metis append.assoc append_Cons append_Nil append_Nil2 replicate_Suc replicate_append_same)
  then show ?thesis unfolding clean_form_def by (intro exI [of _ "Suc k"] exI [of _ "[]"]) simp
qed

lemma clean_step_form:
  assumes "clean_form r (rev st)" and "CHR ''/'' \<notin> set e"
  shows "clean_form r (rev (clean_step r st e))"
proof -
  have a: "e = '''' \<or> e = ''.'' \<or> e = ''..'' \<or> normal_elem e" using assms(2) by (auto simp: normal_elem_def)
  have b: "clean_form r (rev (clean_step r st ''..''))"
  proof (cases st)
    case Nil
    have "clean_form False [''..'']" unfolding clean_form_def by (intro exI [of _ 1] exI [of _ "[]"]) simp
    moreover have "clean_form True []" by (simp add: clean_form_def)
    ultimately show ?thesis using Nil by (cases r) (simp_all add: clean_step_def)
  next
    case (Cons t ts)
    show ?thesis
    proof (cases "t = ''..''")
      case True
      have "\<not> r" using assms(1) Cons True by (auto simp: clean_form_def normal_elem_def)
      with clean_form_dots [of "rev ts"] assms(1) Cons True show ?thesis by (simp add: clean_step_def)
    next
      case False
      with clean_form_butlast [of r "rev ts" t] assms(1) Cons show ?thesis by (simp add: clean_step_def)
    qed
  qed
  from a show ?thesis
  proof (elim disjE)
    assume "normal_elem e"
    with assms(1) show ?thesis by (simp add: normal_step clean_form_snoc)
  qed (use assms(1) b in \<open>simp_all add: clean_step_def\<close>)
qed

lemma foldl_form: "clean_form r (rev st) \<Longrightarrow> \<forall>e\<in>set es. CHR ''/'' \<notin> set e \<Longrightarrow> clean_form r (rev (foldl (clean_step r) st es))"
  by (induction es arbitrary: st) (auto simp: clean_step_form)

lemma clean_elems_form: "clean_form (is_rooted s) (clean_elems s)"
proof -
  have "clean_form (is_rooted s) (rev [])" by (auto simp: clean_form_def)
  moreover have "\<forall>e\<in>set (split_on (CHR ''/'') s). CHR ''/'' \<notin> set e" using split_on_parts_free by blast
  ultimately show ?thesis unfolding clean_elems_def by (rule foldl_form)
qed

lemma clean_form_parts:
  assumes "clean_form r es" and "e \<in> set es"
  shows "e \<noteq> '''' \<and> CHR ''/'' \<notin> set e"
proof -
  from assms obtain k ns where "e \<in> set (replicate k ''..'') \<or> e \<in> set ns" "list_all normal_elem ns"
    unfolding clean_form_def by (metis Un_iff set_append)
  then show ?thesis by (elim disjE) (simp_all add: list_all_iff normal_elem_def)
qed

lemma clean_clean: "clean_elems (path_clean s) = clean_elems s" "is_rooted (path_clean s) = is_rooted s"
proof -
  let ?es = "clean_elems s"
  note f = clean_elems_form [of s]
  have sp: "split_on (CHR ''/'') (join_with (CHR ''/'') ?es) = (if ?es = [] then [''''] else ?es)"
    using split_join [of ?es "CHR ''/''"] clean_form_parts [OF f] by (cases "?es = []") simp_all
  have hd: "\<exists>c t. join_with (CHR ''/'') ?es = c # t \<and> c \<noteq> CHR ''/''" if "?es \<noteq> []"
  proof -
    from that obtain e es where e: "?es = e # es" by (cases ?es) auto
    with clean_form_parts [OF f, of e] obtain c t where "e = c # t" "c \<noteq> CHR ''/''" by (cases e) auto
    with e show ?thesis by (cases es) auto
  qed
  have "is_rooted (path_clean s) = is_rooted s \<and> clean_elems (path_clean s) = ?es"
  proof (cases "is_rooted s")
    case True
    have "clean_elems (path_clean s) = rev (foldl (clean_step True) [] (split_on (CHR ''/'') (CHR ''/'' # join_with (CHR ''/'') ?es)))"
      using True by (simp add: clean_elems_def [of "CHR ''/'' # _"] path_clean_def Let_def is_rooted_def [of "CHR ''/'' # _"])
    also have "\<dots> = rev (foldl (clean_step True) [] ?es)" using sp by (cases "?es = []") simp_all
    finally show ?thesis using True foldl_clean_form [of True ?es] f by (simp add: path_clean_def Let_def is_rooted_def [of "CHR ''/'' # _"])
  next
    case False
    show ?thesis
    proof (cases "?es = []")
      case True
      with False show ?thesis by (simp add: path_clean_def Let_def clean_elems_def [of "''.''"] is_rooted_def clean_step_def)
    next
      case ne: False
      from hd [OF ne] have r: "\<not> is_rooted (join_with (CHR ''/'') ?es)" "join_with (CHR ''/'') ?es \<noteq> ''''" by (auto simp: is_rooted_def)
      have "clean_elems (join_with (CHR ''/'') ?es) = rev (foldl (clean_step False) [] ?es)"
        using r(1) sp ne by (simp add: clean_elems_def [of "join_with _ _"])
      with False r foldl_clean_form [of False ?es] f show ?thesis by (simp add: path_clean_def Let_def)
    qed
  qed
  then show "clean_elems (path_clean s) = clean_elems s" "is_rooted (path_clean s) = is_rooted s" by auto
qed

text \<open>Joining names to a path.\<close>

lemma split_on_append: "split_on c (s @ c # t) = split_on c s @ split_on c t"
proof (induction s)
  case (Cons x xs)
  obtain q qs where "split_on c xs = q # qs" by (cases "split_on c xs") auto
  with Cons show ?case by auto
qed simp

lemma path_join_names:
  assumes "list_all normal_elem es" and "p \<noteq> ''''"
  shows "clean_elems (path_join (p # es)) = clean_elems p @ es" "is_rooted (path_join (p # es)) = is_rooted p"
proof -
  have ne: "filter (\<lambda>e. e \<noteq> '''') es = es" using assms(1) by (auto simp: list_all_iff normal_elem_def intro: filter_True)
  have j: "path_join (p # es) = path_clean (join_with (CHR ''/'') (p # es))" using assms(2) ne by (simp add: path_join_def)
  have r: "is_rooted (join_with (CHR ''/'') (p # es)) = is_rooted p" using assms(2) by (cases p; cases es) (auto simp: is_rooted_def)
  have "split_on (CHR ''/'') (join_with (CHR ''/'') (p # es)) = split_on (CHR ''/'') p @ es"
  proof (cases "es = []")
    case False
    then have "join_with (CHR ''/'') (p # es) = p @ CHR ''/'' # join_with (CHR ''/'') es" by (rule join_with_Cons)
    moreover have "split_on (CHR ''/'') (join_with (CHR ''/'') es) = es"
      using False assms(1) by (intro split_join) (auto simp: list_all_iff normal_elem_def)
    ultimately show ?thesis by (simp add: split_on_append)
  qed simp
  with r foldl_normal [OF assms(1)] show "clean_elems (path_join (p # es)) = clean_elems p @ es" "is_rooted (path_join (p # es)) = is_rooted p"
    unfolding j clean_clean by (simp_all add: clean_elems_def)
qed

text \<open>A relative path of names is clean, and joining it is joining its names.\<close>

lemma path_join_relative:
  assumes "list_all normal_elem es" and "es \<noteq> []"
  shows "path_join es = join_with (CHR ''/'') es"
proof -
  obtain e es' where e: "es = e # es'" using assms(2) by (cases es) auto
  have n: "normal_elem e" "list_all normal_elem es'" using assms(1) e by auto
  then obtain c t where c: "e = c # t" "c \<noteq> CHR ''/''" by (cases e) (auto simp: normal_elem_def)
  have ne: "filter (\<lambda>e. e \<noteq> '''') es = es" using assms(1) by (auto simp: list_all_iff normal_elem_def intro: filter_True)
  have r: "\<not> is_rooted (join_with (CHR ''/'') es)" "join_with (CHR ''/'') es \<noteq> ''''" using c e by (cases es'; simp add: is_rooted_def)+
  have "split_on (CHR ''/'') (join_with (CHR ''/'') es) = es"
    using assms by (intro split_join) (auto simp: list_all_iff normal_elem_def)
  then have "clean_elems (join_with (CHR ''/'') es) = es" using r(1) foldl_normal [OF assms(1)] by (simp add: clean_elems_def)
  with r ne assms(2) show ?thesis by (simp add: path_join_def path_clean_def Let_def)
qed

lemma path_join_nested:
  assumes "list_all normal_elem es" and "es \<noteq> []" and "p \<noteq> ''''"
  shows "path_join [p, path_join es] = path_join (p # es)"
proof -
  have j: "path_join es = join_with (CHR ''/'') es" by (rule path_join_relative [OF assms(1,2)])
  have ne: "filter (\<lambda>e. e \<noteq> '''') es = es" using assms(1) by (auto simp: list_all_iff normal_elem_def intro: filter_True)
  obtain e es' where e: "es = e # es'" "e \<noteq> ''''" using assms(1,2) by (cases es) (auto simp: normal_elem_def)
  then have "join_with (CHR ''/'') es \<noteq> ''''" by (cases es') auto
  with ne assms(2,3) show ?thesis unfolding j by (simp add: path_join_def join_with_Cons)
qed

section \<open>Files\<close>

text \<open>
  A tree of files, by the names on the way from the working directory, or, after a slash, from the
  root; these two are always directories.  There are no links, and permissions are not modelled.
\<close>

datatype fs_node = FsDir | FsFile bytes

type_synonym file_system = "string list \<Rightarrow> fs_node option"

definition path_key :: "string \<Rightarrow> string list" where
  "path_key p = (if is_rooted p then ''/'' # clean_elems p else clean_elems p)"

definition node_at :: "file_system \<Rightarrow> string list \<Rightarrow> fs_node option" where
  "node_at fs k = (if k = [] \<or> k = [''/''] then Some FsDir else fs k)"

definition ErrNotDir :: go_error where
  "ErrNotDir = ErrMsg ''not a directory''"

definition ErrIsDir :: go_error where
  "ErrIsDir = ErrMsg ''is a directory''"

fun walk_dirs :: "file_system \<Rightarrow> string list \<Rightarrow> string list \<Rightarrow> go_error option" where
  "walk_dirs fs pre [] = None"
| "walk_dirs fs pre (e # es) =
     (case node_at fs (pre @ [e]) of
        Some FsDir \<Rightarrow> walk_dirs fs (pre @ [e]) es
      | Some (FsFile _) \<Rightarrow> Some ErrNotDir
      | None \<Rightarrow> Some ErrNotExist)"

definition os_lookup :: "file_system \<Rightarrow> string \<Rightarrow> fs_node res" where
  "os_lookup fs p =
     (if p = '''' then Inl ErrNotExist
      else
        (case walk_dirs fs [] (butlast (path_key p)) of
           Some e \<Rightarrow> Inl e
         | None \<Rightarrow> (case node_at fs (path_key p) of None \<Rightarrow> Inl ErrNotExist | Some n \<Rightarrow> Inr n)))"

definition os_Stat :: "file_system \<Rightarrow> string \<Rightarrow> unit res" where
  "os_Stat fs p = bnd (os_lookup fs p) (\<lambda>_. Inr ())"

text \<open>Opening a file and reading it to its end; a directory can be opened but not read.\<close>

definition os_ReadFile :: "file_system \<Rightarrow> string \<Rightarrow> bytes res" where
  "os_ReadFile fs p = bnd (os_lookup fs p) (\<lambda>n. case n of FsFile b \<Rightarrow> Inr b | FsDir \<Rightarrow> Inl ErrIsDir)"

fun mkdirs :: "file_system \<Rightarrow> string list \<Rightarrow> string list \<Rightarrow> go_error option \<times> file_system" where
  "mkdirs fs pre [] = (None, fs)"
| "mkdirs fs pre (e # es) =
     (case node_at fs (pre @ [e]) of
        Some FsDir \<Rightarrow> mkdirs fs (pre @ [e]) es
      | Some (FsFile _) \<Rightarrow> (Some ErrNotDir, fs)
      | None \<Rightarrow> mkdirs (fs(pre @ [e] \<mapsto> FsDir)) (pre @ [e]) es)"

definition os_MkdirAll :: "file_system \<Rightarrow> string \<Rightarrow> go_error option \<times> file_system" where
  "os_MkdirAll fs p = (if p = '''' then (Some ErrNotExist, fs) else mkdirs fs [] (path_key p))"

text \<open>Creating or truncating a file and writing to it.\<close>

definition os_WriteFile :: "file_system \<Rightarrow> string \<Rightarrow> bytes \<Rightarrow> go_error option \<times> file_system" where
  "os_WriteFile fs p b =
     (if p = '''' then (Some ErrNotExist, fs)
      else
        (case walk_dirs fs [] (butlast (path_key p)) of
           Some e \<Rightarrow> (Some e, fs)
         | None \<Rightarrow>
             (if node_at fs (path_key p) = Some FsDir then (Some ErrIsDir, fs)
              else (None, fs(path_key p \<mapsto> FsFile b)))))"

definition os_Create :: "file_system \<Rightarrow> string \<Rightarrow> go_error option \<times> file_system" where
  "os_Create fs p = os_WriteFile fs p []"

text \<open>Removing a file; the sources never remove a directory, and it is taken not to be empty.\<close>

definition ErrNotEmpty :: go_error where
  "ErrNotEmpty = ErrMsg ''directory not empty''"

definition os_Remove :: "file_system \<Rightarrow> string \<Rightarrow> go_error option \<times> file_system" where
  "os_Remove fs p =
     (case os_lookup fs p of
        Inl e \<Rightarrow> (Some e, fs)
      | Inr FsDir \<Rightarrow> (Some ErrNotEmpty, fs)
      | Inr (FsFile _) \<Rightarrow> (None, fs(path_key p := None)))"

section \<open>Directories\<close>

lemma path_key_names:
  assumes "list_all normal_elem es" and "p \<noteq> ''''"
  shows "path_key (path_join (p # es)) = path_key p @ es"
  using path_join_names [OF assms] by (simp add: path_key_def)

lemma path_key_empty [simp]: "path_key '''' = []"
  by (simp add: path_key_def is_rooted_def clean_elems_def)

text \<open>What is there is in a directory.\<close>

definition fs_tree :: "file_system \<Rightarrow> bool" where
  "fs_tree fs \<longleftrightarrow> (\<forall>k e. fs (k @ [e]) \<noteq> None \<longrightarrow> node_at fs k = Some FsDir)"

lemma fs_treeD: "fs_tree fs \<Longrightarrow> fs (k @ [e]) = Some n \<Longrightarrow> node_at fs k = Some FsDir"
  unfolding fs_tree_def by blast

lemma fs_tree_up: "fs_tree fs \<Longrightarrow> node_at fs (k @ [e]) = Some n \<Longrightarrow> node_at fs k = Some FsDir"
  using fs_treeD [of fs k e n] by (cases k) (auto simp: node_at_def split: if_splits)

text \<open>There is no file on the way.\<close>

definition way_free :: "file_system \<Rightarrow> string list \<Rightarrow> bool" where
  "way_free fs k \<longleftrightarrow> (\<forall>a b. k = a @ b \<longrightarrow> node_at fs a \<in> {None, Some FsDir})"

definition dir_at :: "file_system \<Rightarrow> string list \<Rightarrow> bool" where
  "dir_at fs k \<longleftrightarrow> (\<forall>a b. k = a @ b \<longrightarrow> node_at fs a = Some FsDir)"

lemma dir_at_prefix: "dir_at fs (a @ b) \<Longrightarrow> dir_at fs a"
  by (auto simp: dir_at_def)

lemma dir_at_snoc: "dir_at fs (k @ [e]) \<longleftrightarrow> dir_at fs k \<and> node_at fs (k @ [e]) = Some FsDir"
  unfolding dir_at_def by (auto simp: append_eq_append_conv2 Cons_eq_append_conv append_eq_Cons_conv)

lemma dir_at_Nil [simp]: "dir_at fs []"
  by (simp add: dir_at_def node_at_def)

lemma walk_dirs_None: "dir_at fs (pre @ es) \<Longrightarrow> walk_dirs fs pre es = None"
proof (induction es arbitrary: pre)
  case (Cons e es)
  have "node_at fs (pre @ [e]) = Some FsDir" using Cons.prems unfolding dir_at_def by (metis append.assoc append_Cons append_Nil)
  with Cons show ?case by simp
qed simp

lemma walk_dirs_dir: "walk_dirs fs pre es = None \<Longrightarrow> dir_at fs pre \<Longrightarrow> dir_at fs (pre @ es)"
proof (induction es arbitrary: pre)
  case (Cons e es)
  from Cons.prems have "node_at fs (pre @ [e]) = Some FsDir" "walk_dirs fs (pre @ [e]) es = None"
    by (auto split: option.splits fs_node.splits)
  with Cons.IH [of "pre @ [e]"] Cons.prems(2) show ?case by (simp add: dir_at_snoc)
qed simp

lemma fs_tree_dir: "fs_tree fs \<Longrightarrow> node_at fs k = Some FsDir \<Longrightarrow> dir_at fs k"
proof (induction k rule: rev_induct)
  case (snoc e k)
  with fs_tree_up [of fs k e] show ?case by (simp add: dir_at_snoc)
qed simp

lemma dir_at_update: "dir_at fs d \<Longrightarrow> dir_at (fs(d @ [e] \<mapsto> n)) d"
  unfolding dir_at_def node_at_def by (auto split: if_splits)

text \<open>MkdirAll, where no file is on the way: directories are added, and nothing else changes.\<close>

definition dirs_added :: "file_system \<Rightarrow> file_system \<Rightarrow> bool" where
  "dirs_added fs fs' \<longleftrightarrow> (\<forall>k. fs' k = fs k \<or> fs k = None \<and> fs' k = Some FsDir)"

lemma dirs_added_trans: "dirs_added a b \<Longrightarrow> dirs_added b c \<Longrightarrow> dirs_added a c"
  unfolding dirs_added_def by (metis option.distinct(1))

lemma way_free_added: "way_free fs k \<Longrightarrow> dirs_added fs fs' \<Longrightarrow> way_free fs' k"
  unfolding way_free_def dirs_added_def node_at_def by (metis insertCI option.distinct(1))

lemma mkdirs_spec:
  "fs_tree fs \<Longrightarrow> dir_at fs pre \<Longrightarrow> way_free fs (pre @ es) \<Longrightarrow>
     \<exists>fs'. mkdirs fs pre es = (None, fs') \<and> dirs_added fs fs' \<and> fs_tree fs' \<and> dir_at fs' (pre @ es) \<and>
       (\<forall>k. fs' k \<noteq> fs k \<longrightarrow> (\<exists>b. pre @ es = k @ b))"
proof (induction es arbitrary: fs pre)
  case Nil
  then show ?case by (auto simp: dirs_added_def)
next
  case (Cons e es)
  from Cons.prems(3) have free: "node_at fs (pre @ [e]) \<in> {None, Some FsDir}" unfolding way_free_def by (metis append.assoc append_Cons append_Nil)
  show ?case
  proof (cases "node_at fs (pre @ [e])")
    case (Some n)
    with free have "node_at fs (pre @ [e]) = Some FsDir" by auto
    with Cons.IH [of fs "pre @ [e]"] Cons.prems show ?thesis by (simp add: dir_at_snoc)
  next
    case None
    let ?fs = "fs(pre @ [e] \<mapsto> FsDir)"
    have k: "fs (pre @ [e]) = None" "pre @ [e] \<noteq> []" "pre @ [e] \<noteq> [''/'']" using None by (auto simp: node_at_def split: if_splits)
    have add: "dirs_added fs ?fs" using k by (simp add: dirs_added_def)
    have tree: "fs_tree ?fs"
      unfolding fs_tree_def
    proof (intro allI impI)
      fix k' e' assume a: "?fs (k' @ [e']) \<noteq> None"
      show "node_at ?fs k' = Some FsDir"
      proof (cases "k' @ [e'] = pre @ [e]")
        case True
        with Cons.prems(2) have "node_at fs k' = Some FsDir" by (auto simp: dir_at_def)
        then show ?thesis by (auto simp: node_at_def)
      next
        case False
        with a obtain n where "fs (k' @ [e']) = Some n" by (auto split: if_splits)
        with Cons.prems(1) have "node_at fs k' = Some FsDir" by (rule fs_treeD)
        then show ?thesis using k by (auto simp: node_at_def)
      qed
    qed
    have "dir_at ?fs pre" using Cons.prems(2) k(1) by (auto simp: dir_at_def node_at_def)
    then have dir: "dir_at ?fs (pre @ [e])" by (simp add: dir_at_snoc node_at_def)
    have "way_free ?fs ((pre @ [e]) @ es)" using way_free_added [OF Cons.prems(3) add] by simp
    from Cons.IH [OF tree dir this] obtain fs' where
      fs': "mkdirs ?fs (pre @ [e]) es = (None, fs')" "dirs_added ?fs fs'" "fs_tree fs'" "dir_at fs' ((pre @ [e]) @ es)"
      "\<forall>k. fs' k \<noteq> ?fs k \<longrightarrow> (\<exists>b. (pre @ [e]) @ es = k @ b)" by blast
    have "\<exists>b. pre @ e # es = k @ b" if "fs' k \<noteq> fs k" for k
      using fs'(5) that by (cases "k = pre @ [e]") auto
    with None dirs_added_trans [OF add fs'(2)] fs' show ?thesis by auto
  qed
qed

lemma MkdirAll_spec:
  assumes "p \<noteq> ''''" and "fs_tree fs" and "way_free fs (path_key p)"
  shows "\<exists>fs'. os_MkdirAll fs p = (None, fs') \<and> dirs_added fs fs' \<and> fs_tree fs' \<and> dir_at fs' (path_key p) \<and>
    (\<forall>k. fs' k \<noteq> fs k \<longrightarrow> (\<exists>b. path_key p = k @ b))"
  using mkdirs_spec [of fs "[]" "path_key p"] assms by (simp add: os_MkdirAll_def)

text \<open>Writing a file into a directory.\<close>

lemma WriteFile_spec:
  assumes "dir_at fs d" and "path_key p = d @ [e]" and "node_at fs (d @ [e]) \<noteq> Some FsDir" and "fs_tree fs"
  shows "os_WriteFile fs p b = (None, fs(d @ [e] \<mapsto> FsFile b))" "fs_tree (fs(d @ [e] \<mapsto> FsFile b))"
proof -
  show "os_WriteFile fs p b = (None, fs(d @ [e] \<mapsto> FsFile b))"
    using assms walk_dirs_None [of fs "[]" d] by (auto simp: os_WriteFile_def)
  have nd: "fs (d @ [e]) \<noteq> Some FsDir" "d @ [e] \<noteq> [''/'']" using assms(3) by (auto simp: node_at_def split: if_splits)
  show "fs_tree (fs(d @ [e] \<mapsto> FsFile b))"
    unfolding fs_tree_def
  proof (intro allI impI)
    fix k' e' assume a: "(fs(d @ [e] \<mapsto> FsFile b)) (k' @ [e']) \<noteq> None"
    have "node_at fs k' = Some FsDir"
    proof (cases "k' @ [e'] = d @ [e]")
      case True
      with assms(1) show ?thesis by (auto simp: dir_at_def)
    next
      case False
      with a obtain n where "fs (k' @ [e']) = Some n" by (auto split: if_splits)
      with assms(4) show ?thesis by (rule fs_treeD)
    qed
    moreover from this assms(3) have "k' \<noteq> d @ [e]" by auto
    ultimately show "node_at (fs(d @ [e] \<mapsto> FsFile b)) k' = Some FsDir" by (auto simp: node_at_def split: if_splits)
  qed
qed

lemma lookup_dir:
  assumes "dir_at fs d" and "path_key p = d @ [e]" and "d @ [e] \<noteq> [''/'']"
  shows "os_lookup fs p = (case fs (d @ [e]) of None \<Rightarrow> Inl ErrNotExist | Some n \<Rightarrow> Inr n)"
  using assms walk_dirs_None [of fs "[]" d] by (auto simp: os_lookup_def node_at_def)

text \<open>In a tree, a look-up sees exactly the nodes.\<close>

lemma lookup_tree:
  assumes "fs_tree fs" and "path_key p = d @ [e]" and "d @ [e] \<noteq> [''/'']"
  shows "os_lookup fs p = Inr n \<longleftrightarrow> fs (d @ [e]) = Some n"
proof
  assume "os_lookup fs p = Inr n"
  then show "fs (d @ [e]) = Some n" using assms(2,3) by (auto simp: os_lookup_def node_at_def split: option.splits if_splits)
next
  assume n: "fs (d @ [e]) = Some n"
  with assms(1) have "dir_at fs d" by (intro fs_tree_dir) (auto simp: fs_tree_def)
  from lookup_dir [OF this assms(2,3)] n show "os_lookup fs p = Inr n" by simp
qed

text \<open>Names that are hashes.\<close>

lemma wf_hash_name: "wf_hash h \<Longrightarrow> normal_elem (Hex h)"
proof -
  assume h: "wf_hash h"
  have "c \<noteq> CHR ''/'' \<and> c \<noteq> CHR ''.''" if "c \<in> set (Hex h)" for c
    using h that by (auto simp: wf_hash_def hexChars_def)
  moreover have "Hex h \<noteq> ''''" using h by (auto simp: wf_hash_def)
  ultimately show "normal_elem (Hex h)" unfolding normal_elem_def by (metis list.set_intros(1))
qed

lemma Hash_String_name: "wf_hash h \<Longrightarrow> normal_elem (Hash_String h)"
  using wf_hash_name [of h] by (auto simp: normal_elem_def Hash_String_def wf_hash_def)

end
