(* ===== verification/Layout.thy ===== *)
theory Layout
  imports Go_Files V1_Image "HOL-Library.AList"
begin

text \<open>
  pkg/v1/layout: images and indexes in a directory, with the blobs in files that are named by their
  hashes and an index in index.json.
\<close>

section \<open>layoutpath.go, read.go, blob.go, options.go\<close>

type_synonym layout_path = string

definition layout_join :: "layout_path \<Rightarrow> string list \<Rightarrow> string" where
  "layout_join l elem = path_join (l # elem)"

definition FromPath :: "file_system \<Rightarrow> string \<Rightarrow> layout_path res" where
  "FromPath fs path = bnd (os_Stat fs (path_join [path, ''index.json''])) (\<lambda>_. Inr path)"

definition blobPath :: "layout_path \<Rightarrow> v1_hash \<Rightarrow> string" where
  "blobPath l h = layout_join l [''blobs'', Algorithm h, Hex h]"

definition layout_Bytes :: "file_system \<Rightarrow> layout_path \<Rightarrow> v1_hash \<Rightarrow> bytes res" where
  "layout_Bytes fs l h = os_ReadFile fs (blobPath l h)"

text \<open>Blob opens the file; what is modelled is reading it to its end.\<close>

definition layout_Blob :: "file_system \<Rightarrow> layout_path \<Rightarrow> v1_hash \<Rightarrow> bytes res" where
  "layout_Blob fs l h = os_ReadFile fs (blobPath l h)"

type_synonym layout_option = "descriptor \<Rightarrow> descriptor res"

definition layout_WithAnnotations :: "string_map \<Rightarrow> layout_option" where
  "layout_WithAnnotations as desc = Inr (desc\<lparr>d_Annotations := foldl (\<lambda>m (k, v). AList.update k v m) (d_Annotations desc) as\<rparr>)"

definition layout_WithURLs :: "string list \<Rightarrow> layout_option" where
  "layout_WithURLs urls desc = Inr (desc\<lparr>d_URLs := d_URLs desc @ urls\<rparr>)"

definition layout_WithPlatform :: "platform \<Rightarrow> layout_option" where
  "layout_WithPlatform p desc = Inr (desc\<lparr>d_Platform := Some p\<rparr>)"

fun apply_layout_options :: "layout_option list \<Rightarrow> descriptor \<Rightarrow> descriptor res" where
  "apply_layout_options [] desc = Inr desc"
| "apply_layout_options (opt # opts) desc = bnd (opt desc) (apply_layout_options opts)"

section \<open>write.go\<close>

definition layoutFile :: string where
  "layoutFile = ''{'' @ [CHR 0x0A] @ ''    '' @ [CHR 0x22] @ ''imageLayoutVersion'' @ [CHR 0x22] @ '': '' @ [CHR 0x22] @ ''1.0.0'' @ [CHR 0x22, CHR 0x0A] @ ''}''"

text \<open>An action on the files and its error; go on when there is none.\<close>

type_synonym fs_action = "file_system \<Rightarrow> go_error option \<times> file_system"

definition fs_then :: "fs_action \<Rightarrow> fs_action \<Rightarrow> fs_action" where
  "fs_then a b fs = (case a fs of (Some e, fs1) \<Rightarrow> (Some e, fs1) | (None, fs1) \<Rightarrow> b fs1)"

definition fs_with :: "'a res \<Rightarrow> ('a \<Rightarrow> fs_action) \<Rightarrow> fs_action" where
  "fs_with r f fs = (case r of Inl e \<Rightarrow> (Some e, fs) | Inr x \<Rightarrow> f x fs)"

definition layout_WriteFile :: "layout_path \<Rightarrow> string \<Rightarrow> bytes \<Rightarrow> fs_action" where
  "layout_WriteFile l name b =
     fs_then (\<lambda>fs. os_MkdirAll fs (layout_join l [])) (\<lambda>fs. os_WriteFile fs (layout_join l [name]) b)"

text \<open>The reader gives some bytes and then ends, with an error or not; the file is written to until then.\<close>

definition WriteBlob :: "layout_path \<Rightarrow> v1_hash \<Rightarrow> bytes \<times> go_error option \<Rightarrow> fs_action" where
  "WriteBlob l hash r =
     (let dir = layout_join l [''blobs'', Algorithm hash]; file = path_join [dir, Hex hash] in
      fs_then (\<lambda>fs. os_MkdirAll fs dir)
        (\<lambda>fs. case os_Stat fs file of
                Inr _ \<Rightarrow> (None, fs)
              | Inl _ \<Rightarrow>
                  fs_then (\<lambda>fs. os_Create fs file)
                    (\<lambda>fs. case os_WriteFile fs file (fst r) of
                            (Some e, fs1) \<Rightarrow> (Some e, fs1)
                          | (None, fs1) \<Rightarrow> (snd r, fs1)) fs))"

definition writeLayer :: "layout_path \<Rightarrow> layer \<Rightarrow> fs_action" where
  "writeLayer l layer = fs_with (l_Digest layer) (\<lambda>d. fs_with (l_Compressed layer) (\<lambda>r. WriteBlob l d (r, None)))"

text \<open>The goroutines that write the layers run in the order that the scheduler gives.\<close>

definition layout_WriteImage :: "(layer list \<Rightarrow> layer list) \<Rightarrow> layout_path \<Rightarrow> image \<Rightarrow> fs_action" where
  "layout_WriteImage sched l img =
     fs_with (i_Layers img) (\<lambda>layers.
     fs_then (run_group (writeLayer l) (sched layers))
       (fs_with (i_ConfigName img) (\<lambda>cfgName.
        fs_with (i_RawConfigFile img) (\<lambda>cfgBlob.
        fs_then (WriteBlob l cfgName (cfgBlob, None))
          (fs_with (i_Digest img) (\<lambda>d.
           fs_with (i_RawManifest img) (\<lambda>manifest. WriteBlob l d (manifest, None))))))))"

fun fs_each :: "('d \<Rightarrow> fs_action) \<Rightarrow> 'd list \<Rightarrow> fs_action" where
  "fs_each f [] = (\<lambda>fs. (None, fs))"
| "fs_each f (d # ds) = fs_then (f d) (fs_each f ds)"

text \<open>WriteIndex, given the digest of the index and what writes it to a file.\<close>

definition write_index_file :: "layout_path \<Rightarrow> v1_hash res \<Rightarrow> (string \<Rightarrow> fs_action) \<Rightarrow> fs_action" where
  "write_index_file l dg w =
     fs_then (layout_WriteFile l ''oci-layout'' layoutFile)
       (fs_with dg (\<lambda>h. w (path_join [''blobs'', Algorithm h, Hex h])))"

text \<open>One round of the loop over the descriptors; what is neither an index nor an image is passed over.\<close>

definition layout_child ::
    "(layer list \<Rightarrow> layer list) \<Rightarrow> layout_path \<Rightarrow> (v1_hash \<Rightarrow> (v1_hash res \<times> (string \<Rightarrow> fs_action)) res) \<Rightarrow> (v1_hash \<Rightarrow> image res) \<Rightarrow>
     descriptor \<Rightarrow> fs_action" where
  "layout_child sched l sub img desc =
     (if IsIndex (d_MediaType desc) then fs_with (sub (d_Digest desc)) (\<lambda>(dg, w). write_index_file l dg w)
      else if IsImage (d_MediaType desc) then fs_with (img (d_Digest desc)) (layout_WriteImage sched l)
      else (\<lambda>fs. (None, fs)))"

primrec writeIndexToFile :: "image_index \<Rightarrow> (layer list \<Rightarrow> layer list) \<Rightarrow> layout_path \<Rightarrow> string \<Rightarrow> fs_action" where
  "writeIndexToFile (ImageIndex mt dg sz im raw img sub ds) = (\<lambda>sched l indexFile.
     fs_with im (\<lambda>index.
     fs_then
       (fs_each
          (layout_child sched l
             (\<lambda>h. case map_sum id (\<lambda>ii. writeIndexToFile ii sched l) (sub h) of
                    Inl e \<Rightarrow> Inl e
                  | Inr w \<Rightarrow> bnd (sub h) (\<lambda>ii. Inr (ii_Digest ii, w)))
             img)
          (im_Manifests index))
       (fs_with raw (\<lambda>rawIndex. layout_WriteFile l indexFile rawIndex))))"

definition layout_WriteIndex :: "(layer list \<Rightarrow> layer list) \<Rightarrow> layout_path \<Rightarrow> image_index \<Rightarrow> fs_action" where
  "layout_WriteIndex sched l ii = write_index_file l (ii_Digest ii) (writeIndexToFile ii sched l)"

definition layout_Write :: "(layer list \<Rightarrow> layer list) \<Rightarrow> string \<Rightarrow> image_index \<Rightarrow> file_system \<Rightarrow> (layout_path \<times> go_error option) \<times> file_system" where
  "layout_Write sched path ii fs =
     (case layout_WriteFile path ''oci-layout'' layoutFile fs of
        (Some e, fs1) \<Rightarrow> (('''', Some e), fs1)
      | (None, fs1) \<Rightarrow> (case writeIndexToFile ii sched path ''index.json'' fs1 of (e, fs2) \<Rightarrow> ((path, e), fs2)))"

section \<open>index.go\<close>

text \<open>An index of a layout has read its file; what it refers to is read from the files when it is asked for.\<close>

record layout_index =
  lx_mediaType :: media_type
  lx_path :: layout_path
  lx_rawIndex :: bytes

definition layout_ImageIndex :: "file_system \<Rightarrow> layout_path \<Rightarrow> layout_index res" where
  "layout_ImageIndex fs l =
     bnd (os_ReadFile fs (layout_join l [''index.json'']))
       (\<lambda>raw. Inr \<lparr>lx_mediaType = OCIImageIndex, lx_path = l, lx_rawIndex = raw\<rparr>)"

definition ImageIndexFromPath :: "file_system \<Rightarrow> string \<Rightarrow> layout_index res" where
  "ImageIndexFromPath fs path = bnd (FromPath fs path) (layout_ImageIndex fs)"

definition layoutIndex_Digest :: "layout_index \<Rightarrow> v1_hash res" where
  "layoutIndex_Digest i = partial_Digest (Inr (lx_rawIndex i))"

definition layoutIndex_Size :: "layout_index \<Rightarrow> int res" where
  "layoutIndex_Size i = partial_Size (Inr (lx_rawIndex i))"

definition layoutIndex_IndexManifest :: "codec \<Rightarrow> layout_index \<Rightarrow> index_manifest res" where
  "layoutIndex_IndexManifest E i = decode_index E (lx_rawIndex i)"

definition zero_v1_hash :: v1_hash where
  "zero_v1_hash = \<lparr>Algorithm = '''', Hex = ''''\<rparr>"

definition layout_findDescriptor :: "codec \<Rightarrow> layout_index \<Rightarrow> v1_hash \<Rightarrow> descriptor res" where
  "layout_findDescriptor E i h =
     bnd (layoutIndex_IndexManifest E i) (\<lambda>im.
     if h = zero_v1_hash then
       (case im_Manifests im of
          [d] \<Rightarrow> Inr d
        | _ \<Rightarrow> Inl (ErrMsg ''oci layout must contain only a single image to be used with layout.Image''))
     else
       (case find (\<lambda>d. d_Digest d = h) (im_Manifests im) of
          Some d \<Rightarrow> Inr d
        | None \<Rightarrow> Inl (ErrMsg (''could not find descriptor in index: '' @ Hash_String h))))"

definition isExpectedMediaType :: "media_type \<Rightarrow> media_type list \<Rightarrow> bool" where
  "isExpectedMediaType mt expected \<longleftrightarrow> mt \<in> set expected"

section \<open>image.go\<close>

record layout_image =
  lm_path :: layout_path
  lm_desc :: descriptor
  lm_rawManifest :: "bytes option"

definition layoutImage_RawManifest :: "file_system \<Rightarrow> layout_image \<Rightarrow> bytes res \<times> layout_image" where
  "layoutImage_RawManifest fs li =
     (case lm_rawManifest li of
        Some b \<Rightarrow> (Inr b, li)
      | None \<Rightarrow>
          (case layout_Bytes fs (lm_path li) (d_Digest (lm_desc li)) of
             Inl e \<Rightarrow> (Inl e, li)
           | Inr b \<Rightarrow> (Inr b, li\<lparr>lm_rawManifest := Some b\<rparr>)))"

definition layoutImage_Manifest :: "codec \<Rightarrow> file_system \<Rightarrow> layout_image \<Rightarrow> manifest res" where
  "layoutImage_Manifest E fs li = partial_Manifest E (fst (layoutImage_RawManifest fs li))"

definition layoutImage_RawConfigFile :: "codec \<Rightarrow> file_system \<Rightarrow> layout_image \<Rightarrow> bytes res" where
  "layoutImage_RawConfigFile E fs li =
     bnd (layoutImage_Manifest E fs li) (\<lambda>m. layout_Bytes fs (lm_path li) (d_Digest (m_Config m)))"

definition compressedBlob :: "file_system \<Rightarrow> layout_path \<Rightarrow> descriptor \<Rightarrow> compressed_layer" where
  "compressedBlob fs l desc =
     \<lparr>cl_Digest = Inr (d_Digest desc), cl_Compressed = layout_Blob fs l (d_Digest desc), cl_Size = Inr (d_Size desc),
      cl_MediaType = Inr (d_MediaType desc), cl_DiffID = None, cl_Descriptor = None, cl_UncompressedSize = None\<rparr>"

text \<open>A layer that has been completed, where a compressed layer is asked for.\<close>

definition layer_as_compressed :: "layer \<Rightarrow> compressed_layer" where
  "layer_as_compressed l =
     \<lparr>cl_Digest = l_Digest l, cl_Compressed = l_Compressed l, cl_Size = l_Size l, cl_MediaType = l_MediaType l,
      cl_DiffID = Some (l_DiffID l), cl_Descriptor = l_Descriptor l, cl_UncompressedSize = l_UncompressedSize l\<rparr>"

definition layoutImage_LayerByDigest :: "codec \<Rightarrow> file_system \<Rightarrow> layout_image \<Rightarrow> v1_hash \<Rightarrow> compressed_layer res" where
  "layoutImage_LayerByDigest E fs li h =
     bnd (layoutImage_Manifest E fs li) (\<lambda>m.
     if h = d_Digest (m_Config m) then Inr (compressedBlob fs (lm_path li) (m_Config m))
     else
       (case find (\<lambda>d. h = d_Digest d) (m_Layers m) of
          Some desc \<Rightarrow>
            (if d_MediaType desc \<in> {OCILayer, DockerLayer} then
               Inr (layer_as_compressed (CompressedToLayer E (compressedBlob fs (lm_path li) desc)))
             else Inl (ErrMsg (''unexpected media type: '' @ d_MediaType desc @ '' for layer: '' @ Hash_String (d_Digest desc))))
        | None \<Rightarrow> Inl (ErrMsg (''could not find layer in image: '' @ Hash_String h))))"

definition layout_core :: "codec \<Rightarrow> file_system \<Rightarrow> layout_image \<Rightarrow> compressed_image_core" where
  "layout_core E fs li =
     \<lparr>cic_RawConfigFile = layoutImage_RawConfigFile E fs li,
      cic_MediaType = Inr (d_MediaType (lm_desc li)),
      cic_RawManifest = fst (layoutImage_RawManifest fs li),
      cic_LayerByDigest = layoutImage_LayerByDigest E fs li,
      cic_Descriptor = None\<rparr>"

definition layoutIndex_Image :: "codec \<Rightarrow> layout_index \<Rightarrow> v1_hash \<Rightarrow> layout_image res" where
  "layoutIndex_Image E i h =
     bnd (layout_findDescriptor E i h) (\<lambda>desc.
     if \<not> isExpectedMediaType (d_MediaType desc) [OCIManifestSchema1, DockerManifestSchema2] then
       Inl (ErrMsg (''unexpected media type for '' @ Hash_String h @ '': '' @ d_MediaType desc))
     else Inr \<lparr>lm_path = lx_path i, lm_desc = desc, lm_rawManifest = None\<rparr>)"

definition layoutIndex_ImageIndex :: "codec \<Rightarrow> file_system \<Rightarrow> layout_index \<Rightarrow> v1_hash \<Rightarrow> layout_index res" where
  "layoutIndex_ImageIndex E fs i h =
     bnd (layout_findDescriptor E i h) (\<lambda>desc.
     if \<not> isExpectedMediaType (d_MediaType desc) [OCIImageIndex, DockerManifestList] then
       Inl (ErrMsg (''unexpected media type for '' @ Hash_String h @ '': '' @ d_MediaType desc))
     else
       bnd (layout_Bytes fs (lx_path i) h)
         (\<lambda>raw. Inr \<lparr>lx_mediaType = d_MediaType desc, lx_path = lx_path i, lx_rawIndex = raw\<rparr>))"

definition layoutIndex_Blob :: "file_system \<Rightarrow> layout_index \<Rightarrow> v1_hash \<Rightarrow> bytes res" where
  "layoutIndex_Blob fs i h = layout_Blob fs (lx_path i) h"

definition layout_Image :: "codec \<Rightarrow> file_system \<Rightarrow> layout_path \<Rightarrow> v1_hash \<Rightarrow> layout_image res" where
  "layout_Image E fs l h = bnd (layout_ImageIndex fs l) (\<lambda>ii. layoutIndex_Image E ii h)"

section \<open>Appending to index.json\<close>

text \<open>The encoder of an index with indentation is that of the JSON package.\<close>

definition AppendDescriptor :: "codec \<Rightarrow> (index_manifest \<Rightarrow> bytes) \<Rightarrow> layout_path \<Rightarrow> descriptor \<Rightarrow> fs_action" where
  "AppendDescriptor E indent l desc fs =
     fs_with (layout_ImageIndex fs l) (\<lambda>ii.
     fs_with (layoutIndex_IndexManifest E ii) (\<lambda>index.
     layout_WriteFile l ''index.json'' (indent (index\<lparr>im_Manifests := im_Manifests index @ [desc]\<rparr>)))) fs"

definition appended_descriptor :: "media_type res \<Rightarrow> v1_hash res \<Rightarrow> bytes res \<Rightarrow> layout_option list \<Rightarrow> descriptor res" where
  "appended_descriptor mt dg raw options =
     bnd mt (\<lambda>mt. bnd dg (\<lambda>d. bnd raw (\<lambda>manifest.
     apply_layout_options options (zero_descriptor\<lparr>d_MediaType := mt, d_Size := int (length manifest), d_Digest := d\<rparr>))))"

definition AppendImage ::
    "codec \<Rightarrow> (index_manifest \<Rightarrow> bytes) \<Rightarrow> (layer list \<Rightarrow> layer list) \<Rightarrow> layout_path \<Rightarrow> image \<Rightarrow> layout_option list \<Rightarrow> fs_action" where
  "AppendImage E indent sched l img options =
     fs_then (layout_WriteImage sched l img)
       (fs_with (appended_descriptor (i_MediaType img) (i_Digest img) (i_RawManifest img) options) (AppendDescriptor E indent l))"

definition AppendIndex ::
    "codec \<Rightarrow> (index_manifest \<Rightarrow> bytes) \<Rightarrow> (layer list \<Rightarrow> layer list) \<Rightarrow> layout_path \<Rightarrow> image_index \<Rightarrow> layout_option list \<Rightarrow> fs_action" where
  "AppendIndex E indent sched l ii options =
     fs_then (layout_WriteIndex sched l ii)
       (fs_with (appended_descriptor (ii_MediaType ii) (ii_Digest ii) (ii_RawManifest ii) options) (AppendDescriptor E indent l))"

end
