(* ===== verification/Layout_Store.thy ===== *)
theory Layout_Store
  imports Layout Content_Store Image_Copies Mutate
begin

text \<open>
  What a layout keeps: it is a store of blobs by their hashes, to which writing an image adds; an
  image that has been appended is read back; and two ways in which writing goes wrong.
\<close>

section \<open>The blobs of a layout\<close>

definition blobs_dir :: "layout_path \<Rightarrow> string list" where
  "blobs_dir l = path_key l @ [''blobs'', ''sha256'']"

definition layout_get :: "layout_path \<Rightarrow> file_system \<Rightarrow> v1_hash \<Rightarrow> bytes option" where
  "layout_get l fs h = (if wf_hash h then (case layout_Bytes fs l h of Inr b \<Rightarrow> Some b | Inl _ \<Rightarrow> None) else None)"

definition layout_put :: "layout_path \<Rightarrow> file_system \<Rightarrow> bytes \<Rightarrow> file_system" where
  "layout_put l fs b = snd (WriteBlob l (sha b) (b, None) fs)"

definition layout_inv :: "layout_path \<Rightarrow> file_system \<Rightarrow> bool" where
  "layout_inv l fs \<longleftrightarrow>
     l \<noteq> '''' \<and> fs_tree fs \<and> way_free fs (blobs_dir l) \<and>
     (\<forall>h n. wf_hash h \<longrightarrow> fs (blobs_dir l @ [Hex h]) = Some n \<longrightarrow> (\<exists>b. n = FsFile b \<and> sha b = h))"

lemma blob_names: "normal_elem ''blobs''" "normal_elem ''sha256''" "normal_elem ''index.json''" "normal_elem ''oci-layout''"
  by (simp_all add: normal_elem_def)

lemma blob_keys:
  assumes "l \<noteq> ''''" and "wf_hash h"
  shows "path_key (layout_join l [''blobs'', Algorithm h]) = blobs_dir l"
    and "path_key (path_join [layout_join l [''blobs'', Algorithm h], Hex h]) = blobs_dir l @ [Hex h]"
    and "path_key (blobPath l h) = blobs_dir l @ [Hex h]"
    and "layout_join l [''blobs'', Algorithm h] \<noteq> ''''"
proof -
  have a: "Algorithm h = ''sha256''" using assms(2) by (simp add: wf_hash_def)
  note n = wf_hash_name [OF assms(2)] blob_names
  show 1: "path_key (layout_join l [''blobs'', Algorithm h]) = blobs_dir l"
    using path_key_names [of "[''blobs'', ''sha256'']" l] n assms(1) by (simp add: layout_join_def blobs_dir_def a)
  then show 2: "layout_join l [''blobs'', Algorithm h] \<noteq> ''''" by (auto simp: blobs_dir_def)
  show "path_key (path_join [layout_join l [''blobs'', Algorithm h], Hex h]) = blobs_dir l @ [Hex h]"
    using path_key_names [of "[Hex h]" "layout_join l [''blobs'', Algorithm h]"] n 1 2 by simp
  show "path_key (blobPath l h) = blobs_dir l @ [Hex h]"
    using path_key_names [of "[''blobs'', ''sha256'', Hex h]" l] n assms(1) by (simp add: blobPath_def layout_join_def blobs_dir_def a)
qed

lemma blobs_dir_long: "blobs_dir l @ [e] \<noteq> [''/'']"
  by (simp add: blobs_dir_def)

lemma layout_get_iff:
  assumes "l \<noteq> ''''" and "fs_tree fs" and "wf_hash h"
  shows "layout_get l fs h = Some b \<longleftrightarrow> fs (blobs_dir l @ [Hex h]) = Some (FsFile b)"
proof -
  have "layout_Bytes fs l h = Inr b \<longleftrightarrow> os_lookup fs (blobPath l h) = Inr (FsFile b)"
    unfolding layout_Bytes_def os_ReadFile_def bnd_eq_Inr by (metis fs_node.case(1) fs_node.case(2) fs_node.exhaust sum.distinct(1) sum.inject(2))
  then show ?thesis
    using lookup_tree [OF assms(2) blob_keys(3) [OF assms(1,3)] blobs_dir_long] assms(3) by (auto simp: layout_get_def split: sum.splits)
qed

lemma layout_get_wf: "layout_get l fs h = Some b \<Longrightarrow> wf_hash h"
  by (simp add: layout_get_def split: if_splits)

text \<open>Writing a blob touches the directories of the blobs and the file of the blob, if it is not there yet.\<close>

definition blob_written :: "layout_path \<Rightarrow> v1_hash \<Rightarrow> bytes \<Rightarrow> file_system \<Rightarrow> file_system \<Rightarrow> bool" where
  "blob_written l h b fs fs' \<longleftrightarrow>
     fs' (blobs_dir l @ [Hex h]) = Some (case fs (blobs_dir l @ [Hex h]) of None \<Rightarrow> FsFile b | Some n \<Rightarrow> n) \<and>
     (\<forall>k. fs' k \<noteq> fs k \<longrightarrow> k = blobs_dir l @ [Hex h] \<or> (\<exists>b. blobs_dir l = k @ b))"

lemma WriteBlob_written:
  assumes "l \<noteq> ''''" and "wf_hash h" and "fs_tree fs" and "way_free fs (blobs_dir l)" and "fs (blobs_dir l @ [Hex h]) \<noteq> Some FsDir"
  shows "\<exists>fs'. WriteBlob l h (b, e) fs = (if fs (blobs_dir l @ [Hex h]) = None then e else None, fs') \<and>
    fs_tree fs' \<and> way_free fs' (blobs_dir l) \<and> dir_at fs' (blobs_dir l) \<and> blob_written l h b fs fs'"
proof -
  let ?dir = "layout_join l [''blobs'', Algorithm h]"
  let ?file = "path_join [?dir, Hex h]" and ?k = "blobs_dir l @ [Hex h]"
  note k = blob_keys [OF assms(1,2)]
  from MkdirAll_spec [OF k(4) assms(3)] assms(4) obtain fs1 where 1: "os_MkdirAll fs ?dir = (None, fs1)" "dirs_added fs fs1" "fs_tree fs1"
    "dir_at fs1 (blobs_dir l)" "\<forall>k. fs1 k \<noteq> fs k \<longrightarrow> (\<exists>b. blobs_dir l = k @ b)" by (auto simp: k(1))
  have same: "fs1 ?k = fs ?k" using 1(5) by (metis append.assoc append_self_conv not_Cons_self2 append_is_Nil_conv list.distinct(1))
  have w1: "way_free fs1 (blobs_dir l)" using 1(4) by (auto simp: way_free_def dir_at_def)
  have ne: "?file \<noteq> ''''" using k(2) by auto
  show ?thesis
  proof (cases "fs ?k")
    case (Some n)
    have "os_Stat fs1 ?file = Inr ()"
      using lookup_tree [OF 1(3) k(2) blobs_dir_long] Some same by (simp add: os_Stat_def)
    with 1 w1 Some same show ?thesis
      by (intro exI [of _ fs1]) (auto simp: WriteBlob_def Let_def fs_then_def blob_written_def)
  next
    case None
    have "os_lookup fs1 ?file = Inl ErrNotExist" using lookup_dir [OF 1(4) k(2) blobs_dir_long] None same ne by simp
    then have st: "os_Stat fs1 ?file = Inl ErrNotExist" by (simp add: os_Stat_def)
    have nd: "node_at fs1 ?k \<noteq> Some FsDir" using None same by (auto simp: node_at_def blobs_dir_def)
    note w = WriteFile_spec [OF 1(4) k(2) nd 1(3)]
    let ?fs2 = "fs1(?k \<mapsto> FsFile [])"
    have d2: "dir_at ?fs2 (blobs_dir l)" using 1(4) by (rule dir_at_update)
    have nd2: "node_at ?fs2 ?k \<noteq> Some FsDir" by (simp add: node_at_def blobs_dir_def)
    note w2 = WriteFile_spec [OF d2 k(2) nd2 w(2)]
    let ?fs3 = "?fs2(?k \<mapsto> FsFile b)"
    have "dir_at ?fs3 (blobs_dir l)" using d2 by (rule dir_at_update)
    moreover from this have "way_free ?fs3 (blobs_dir l)" by (auto simp: way_free_def dir_at_def)
    moreover have "blob_written l h b fs ?fs3" using 1(5) None by (auto simp: blob_written_def)
    ultimately show ?thesis
      using 1(1) st w w2 None
      by (intro exI [of _ ?fs3]) (simp add: WriteBlob_def Let_def fs_then_def os_Create_def)
  qed
qed

text \<open>A blob under the hash of its content keeps the invariant.\<close>

lemma blob_written_inv:
  assumes "layout_inv l fs" and "blob_written l (sha b) b fs fs'" and "fs_tree fs'" and "way_free fs' (blobs_dir l)"
  shows "layout_inv l fs'"
  unfolding layout_inv_def
proof (intro conjI allI impI)
  fix h n assume h: "wf_hash h" and n: "fs' (blobs_dir l @ [Hex h]) = Some n"
  have old: "\<exists>b. n = FsFile b \<and> sha b = h" if "fs (blobs_dir l @ [Hex h]) = Some n" for n
    using assms(1) h that by (simp add: layout_inv_def)
  show "\<exists>b. n = FsFile b \<and> sha b = h"
  proof (cases "Hex h = Hex (sha b)")
    case True
    then have "h = sha b" using h wf_hash_sha [of b] by (simp add: wf_hash_def)
    with assms(2) old n show ?thesis by (auto simp: blob_written_def split: option.splits)
  next
    case False
    then have "fs' (blobs_dir l @ [Hex h]) = fs (blobs_dir l @ [Hex h])" using assms(2) unfolding blob_written_def by force
    with old n show ?thesis by simp
  qed
qed (use assms in \<open>auto simp: layout_inv_def\<close>)

lemma put_blob:
  assumes "layout_inv l fs"
  shows "\<exists>fs'. WriteBlob l (sha b) (b, None) fs = (None, fs') \<and> layout_put l fs b = fs' \<and> layout_inv l fs' \<and> blob_written l (sha b) b fs fs' \<and>
    dir_at fs' (blobs_dir l)"
proof -
  have "fs (blobs_dir l @ [Hex (sha b)]) \<noteq> Some FsDir"
    using assms wf_hash_sha [of b] unfolding layout_inv_def by blast
  from WriteBlob_written [of l "sha b" fs b None] this assms obtain fs' where
    1: "WriteBlob l (sha b) (b, None) fs = (None, fs')" "fs_tree fs'" "way_free fs' (blobs_dir l)" "blob_written l (sha b) b fs fs'"
      "dir_at fs' (blobs_dir l)" by (auto simp: layout_inv_def)
  with blob_written_inv [OF assms 1(4,2,3)] show ?thesis by (auto simp: layout_put_def)
qed

lemma layout_get_put:
  assumes "layout_inv l fs"
  shows "layout_get l (layout_put l fs b) h =
    (if h = sha b then Some (case layout_get l fs h of None \<Rightarrow> b | Some c \<Rightarrow> c) else layout_get l fs h)"
proof (cases "wf_hash h")
  case True
  from put_blob [OF assms, of b] obtain fs' where p: "layout_put l fs b = fs'" "layout_inv l fs'" "blob_written l (sha b) b fs fs'" by blast
  have g: "layout_get l f h = Some c \<longleftrightarrow> f (blobs_dir l @ [Hex h]) = Some (FsFile c)" if "layout_inv l f" for f c
    using layout_get_iff [of l f h c] True that by (simp add: layout_inv_def)
  have inv: "f (blobs_dir l @ [Hex h]) \<noteq> Some FsDir" if "layout_inv l f" for f
    using that True unfolding layout_inv_def by blast
  have eq: "layout_get l f h = (case f (blobs_dir l @ [Hex h]) of Some (FsFile c) \<Rightarrow> Some c | _ \<Rightarrow> None)" if "layout_inv l f" for f
  proof (cases "layout_get l f h")
    case (Some c)
    with g [OF that, of c] show ?thesis by simp
  next
    case None
    with g [OF that] show ?thesis by (auto split: option.splits fs_node.splits)
  qed
  show ?thesis
  proof (cases "h = sha b")
    case True
    with p(3) inv [OF assms] show ?thesis
      unfolding p(1) eq [OF p(2)] eq [OF assms] by (auto simp: blob_written_def split: option.splits fs_node.splits)
  next
    case False
    then have "Hex h \<noteq> Hex (sha b)" using \<open>wf_hash h\<close> wf_hash_sha [of b] by (cases h; cases "sha b") (auto simp: wf_hash_def)
    then have "fs' (blobs_dir l @ [Hex h]) = fs (blobs_dir l @ [Hex h])" using p(3) unfolding blob_written_def by force
    with False show ?thesis unfolding p(1) eq [OF p(2)] eq [OF assms] by simp
  qed
next
  case False
  then have "h \<noteq> sha b" by auto
  with False show ?thesis by (simp add: layout_get_def)
qed

interpretation layout_store: append_store "layout_put l" "layout_get l" "layout_inv l" for l
proof unfold_locales
  fix fs b h c
  assume inv: "layout_inv l fs"
  show "layout_get l (layout_put l fs b) (sha b) \<noteq> None" "layout_get l (layout_put l fs b) (sha b) = Some (case layout_get l fs (sha b) of None \<Rightarrow> b | Some c \<Rightarrow> c)"
    by (simp_all add: layout_get_put [OF inv])
  show "layout_get l (layout_put l fs b) h = layout_get l fs h" if "h \<noteq> sha b"
    using that by (simp add: layout_get_put [OF inv])
  show "layout_inv l (layout_put l fs b)" using put_blob [OF inv, of b] by auto
  show "sha c = h" if g: "layout_get l fs h = Some c"
  proof -
    have h: "wf_hash h" using g by (rule layout_get_wf)
    with g inv have "fs (blobs_dir l @ [Hex h]) = Some (FsFile c)" using layout_get_iff [of l fs h c] by (simp add: layout_inv_def)
    with inv h show ?thesis unfolding layout_inv_def by blast
  qed
qed

section \<open>The layout as a set of blobs\<close>

text \<open>The abstract store: a partial map from hashes to contents, to which a content is added unless its hash is there.\<close>

definition add_blob :: "(v1_hash \<Rightarrow> bytes option) \<Rightarrow> bytes \<Rightarrow> v1_hash \<Rightarrow> bytes option" where
  "add_blob m b = (if m (sha b) = None then m(sha b \<mapsto> b) else m)"

lemma layout_get_add: "layout_inv l fs \<Longrightarrow> layout_get l (layout_put l fs b) = add_blob (layout_get l fs) b"
  by (rule ext) (auto simp: layout_get_put add_blob_def split: option.splits)

lemma layout_puts:
  "layout_inv l fs \<Longrightarrow> layout_get l (foldl (layout_put l) fs bs) = foldl add_blob (layout_get l fs) bs"
proof (induction bs arbitrary: fs)
  case (Cons b bs)
  from Cons.IH [OF layout_store.inv_put [OF Cons.prems]] show ?case by (simp add: layout_get_add [OF Cons.prems])
qed simp

text \<open>What is not among the blobs or their directories stays as it is.\<close>

definition blobs_only :: "layout_path \<Rightarrow> file_system \<Rightarrow> file_system \<Rightarrow> bool" where
  "blobs_only l fs fs' \<longleftrightarrow> (\<forall>k. fs' k \<noteq> fs k \<longrightarrow> (\<exists>e. k = blobs_dir l @ [e]) \<or> (\<exists>b. blobs_dir l = k @ b))"

lemma blobs_only_trans: "blobs_only l a b \<Longrightarrow> blobs_only l b c \<Longrightarrow> blobs_only l a c"
  unfolding blobs_only_def by metis

lemma puts_only: "layout_inv l fs \<Longrightarrow> blobs_only l fs (foldl (layout_put l) fs bs)"
proof (induction bs arbitrary: fs)
  case Nil
  then show ?case by (simp add: blobs_only_def)
next
  case (Cons b bs)
  from put_blob [OF Cons.prems, of b] have "blobs_only l fs (layout_put l fs b)" "layout_inv l (layout_put l fs b)"
    by (auto simp: blobs_only_def blob_written_def)
  with Cons.IH [OF this(2)] blobs_only_trans show ?case by simp
qed

definition layer_content :: "layer \<Rightarrow> bytes" where
  "layer_content l = (case l_Compressed l of Inr c \<Rightarrow> c | Inl _ \<Rightarrow> [])"

lemma writeLayer_put:
  assumes "layout_inv l fs" and "l_Compressed ly = Inr c" and "l_Digest ly = Inr (sha c)"
  shows "writeLayer l ly fs = (None, layout_put l fs (layer_content ly))"
  using put_blob [OF assms(1), of c] assms(2,3) by (auto simp: writeLayer_def fs_with_def layer_content_def)

lemma write_layers_put:
  assumes "\<forall>ly\<in>set ls. \<exists>c. l_Compressed ly = Inr c \<and> l_Digest ly = Inr (sha c)"
  shows "layout_inv l fs \<Longrightarrow> run_group (writeLayer l) ls fs = (None, foldl (layout_put l) fs (map layer_content ls))"
  using assms
proof (induction ls arbitrary: fs)
  case (Cons ly ls)
  from Cons.prems(2) obtain c where "l_Compressed ly = Inr c" "l_Digest ly = Inr (sha c)" by auto
  from writeLayer_put [OF Cons.prems(1) this] Cons.IH [OF layout_store.inv_put [OF Cons.prems(1)]] Cons.prems(2) show ?case by simp
qed simp

text \<open>An image all of whose digests are those of its contents.\<close>

definition storable :: "image \<Rightarrow> layer list \<Rightarrow> bytes \<Rightarrow> bytes \<Rightarrow> bool" where
  "storable i ls rc rm \<longleftrightarrow>
     i_Layers i = Inr ls \<and> list_all (\<lambda>ly. is_ok (l_Compressed ly) \<and> l_Digest ly = Inr (sha (layer_content ly))) ls \<and>
     i_RawConfigFile i = Inr rc \<and> i_ConfigName i = Inr (sha rc) \<and> i_RawManifest i = Inr rm \<and> i_Digest i = Inr (sha rm)"

definition image_blobs :: "layer list \<Rightarrow> bytes \<Rightarrow> bytes \<Rightarrow> bytes list" where
  "image_blobs ls rc rm = map layer_content ls @ [rc, rm]"

lemma WriteImage_puts:
  assumes "layout_inv l fs" and "storable i ls rc rm" and "fair_order sched"
  shows "layout_WriteImage sched l i fs = (None, foldl (layout_put l) fs (image_blobs (sched ls) rc rm))"
proof -
  have "set (sched ls) = set ls" using assms(3) by (metis fair_order_def set_mset_mset)
  with assms(2) have "\<forall>ly\<in>set (sched ls). \<exists>c. l_Compressed ly = Inr c \<and> l_Digest ly = Inr (sha c)"
    by (auto simp: storable_def list_all_iff is_ok_iff layer_content_def)
  from write_layers_put [OF this assms(1)] have
    1: "run_group (writeLayer l) (sched ls) fs = (None, foldl (layout_put l) fs (map layer_content (sched ls)))" .
  let ?fs1 = "foldl (layout_put l) fs (map layer_content (sched ls))"
  have i1: "layout_inv l ?fs1" using assms(1) by (rule layout_store.inv_puts)
  have i2: "layout_inv l (layout_put l ?fs1 rc)" using i1 by (rule layout_store.inv_put)
  have w1: "WriteBlob l (sha rc) (rc, None) ?fs1 = (None, layout_put l ?fs1 rc)" using put_blob [OF i1, of rc] by auto
  have w2: "WriteBlob l (sha rm) (rm, None) (layout_put l ?fs1 rc) = (None, layout_put l (layout_put l ?fs1 rc) rm)" using put_blob [OF i2, of rm] by auto
  from assms(2) 1 w1 w2 show ?thesis
    by (simp add: layout_WriteImage_def storable_def fs_with_def fs_then_def image_blobs_def)
qed

text \<open>
  C11. Writing an image to a layout adds its blobs and nothing else.  Seen as a partial map from
  hashes to contents, a layout that satisfies its invariant (every file of blobs/sha256 has the hash
  that is its name) goes over to the one to which the layers, in the order in which the goroutines
  run, the config file and the manifest have been added, each unless its hash is there; the write
  succeeds, the invariant is kept, and no other file is touched.
\<close>

theorem layout_WriteImage_refines:
  assumes "layout_inv l fs" and "storable i ls rc rm" and "fair_order sched"
  shows "\<exists>fs'. layout_WriteImage sched l i fs = (None, fs') \<and> layout_inv l fs' \<and>
     layout_get l fs' = foldl add_blob (layout_get l fs) (image_blobs (sched ls) rc rm) \<and> blobs_only l fs fs'"
  using WriteImage_puts [OF assms] layout_store.inv_puts [OF assms(1)] layout_puts [OF assms(1)] puts_only [OF assms(1)] by simp

section \<open>Appending an image and reading it back\<close>

definition index_key :: "layout_path \<Rightarrow> string list" where
  "index_key l = path_key l @ [''index.json'']"

lemma index_path:
  assumes "l \<noteq> ''''"
  shows "path_key (layout_join l [''index.json'']) = index_key l" "layout_join l [''index.json''] \<noteq> ''''"
proof -
  show p: "path_key (layout_join l [''index.json'']) = index_key l"
    using path_key_names [of "[''index.json'']" l] assms blob_names by (simp add: layout_join_def index_key_def)
  then show "layout_join l [''index.json''] \<noteq> ''''" by (auto simp: index_key_def)
qed

lemma index_not_blob: "index_key l \<noteq> blobs_dir l @ [e]" "blobs_dir l \<noteq> index_key l @ b"
  by (auto simp: index_key_def blobs_dir_def)

lemma read_index:
  assumes "l \<noteq> ''''" and "fs_tree fs" and "fs (index_key l) = Some (FsFile raw)" and "index_key l \<noteq> [''/'']"
  shows "layout_ImageIndex fs l = Inr \<lparr>lx_mediaType = OCIImageIndex, lx_path = l, lx_rawIndex = raw\<rparr>"
  using lookup_tree [OF assms(2) index_path(1) [OF assms(1), unfolded index_key_def]] assms(3,4)
  by (simp add: layout_ImageIndex_def os_ReadFile_def index_key_def)

lemma index_key_not_root: "index_key l \<noteq> [''/'']"
  by (simp add: index_key_def)

text \<open>Writing index.json keeps the blobs.\<close>

lemma write_index:
  assumes "layout_inv l fs" and "fs (index_key l) = Some (FsFile raw)"
  shows "layout_WriteFile l ''index.json'' b fs = (None, fs(index_key l \<mapsto> FsFile b)) \<and> layout_inv l (fs(index_key l \<mapsto> FsFile b)) \<and>
    layout_get l (fs(index_key l \<mapsto> FsFile b)) = layout_get l fs"
proof -
  let ?fs = "fs(index_key l \<mapsto> FsFile b)"
  have l: "l \<noteq> ''''" "fs_tree fs" "way_free fs (blobs_dir l)" using assms(1) by (auto simp: layout_inv_def)
  have jl: "path_key (layout_join l []) = path_key l" using path_key_names [of "[]" l] l(1) by (simp add: layout_join_def)
  have ne: "layout_join l [] \<noteq> ''''" using l(1) by (simp add: layout_join_def path_join_def path_clean_def Let_def)
  have dir: "dir_at fs (path_key l)"
    using fs_treeD [OF l(2), of "path_key l" "''index.json''"] assms(2) fs_tree_dir [OF l(2)] by (simp add: index_key_def)
  have mk: "os_MkdirAll fs (layout_join l []) = (None, fs)"
  proof -
    have "mkdirs fs pre es = (None, fs)" if "dir_at fs (pre @ es)" for pre es
      using that
    proof (induction es arbitrary: pre)
      case (Cons e es)
      have "node_at fs (pre @ [e]) = Some FsDir" using Cons.prems unfolding dir_at_def by (metis append.assoc append_Cons append_Nil)
      with Cons show ?case by simp
    qed simp
    from this [of "[]"] dir show ?thesis by (simp add: os_MkdirAll_def jl ne)
  qed
  have nd: "node_at fs (path_key l @ [''index.json'']) \<noteq> Some FsDir" using assms(2) by (simp add: node_at_def index_key_def)
  note w = WriteFile_spec [OF dir index_path(1) [OF l(1), unfolded index_key_def] nd l(2), folded index_key_def]
  have same: "?fs (blobs_dir l @ [e]) = fs (blobs_dir l @ [e])" for e using index_not_blob(1) [of l e] by auto
  have "way_free ?fs (blobs_dir l)"
    using l(3) index_not_blob(2) [of l] by (auto simp: way_free_def node_at_def)
  with w(2) l(1) same assms(1) have inv: "layout_inv l ?fs" by (simp add: layout_inv_def)
  have "layout_get l ?fs h = layout_get l fs h" for h
  proof (cases "wf_hash h")
    case True
    have "layout_get l ?fs h = Some c \<longleftrightarrow> layout_get l fs h = Some c" for c
      by (simp only: layout_get_iff [OF l(1) w(2) True] layout_get_iff [OF l(1,2) True] same)
    then show ?thesis by (metis not_Some_eq)
  qed (simp add: layout_get_def)
  with inv mk w(1) show ?thesis by (auto simp: layout_WriteFile_def fs_then_def)
qed

lemma coherent_storable:
  assumes "coherent_parts E i rc cf rm m ls" and "list_all2 (\<lambda>l c. l_Compressed l = Inr c) ls cs"
  shows "storable i ls rc rm" and "map layer_content ls = cs"
proof -
  from assms(1) have i: "i_Layers i = Inr ls" "i_RawConfigFile i = Inr rc" "i_ConfigName i = Inr (sha rc)" "i_RawManifest i = Inr rm"
    "i_Digest i = Inr (sha rm)" "list_all2 (layer_matches E) ls (m_Layers m)" by (auto simp: coherent_parts_def)
  have "is_ok (l_Compressed ly) \<and> l_Digest ly = Inr (sha (layer_content ly))" if "ly \<in> set ls" for ly
  proof -
    from that i(6) obtain d where "layer_matches E ly d" by (metis in_set_conv_nth list_all2_conv_all_nth)
    then obtain c where "l_Compressed ly = Inr c" "l_Digest ly = Inr (sha c)" by (auto simp: layer_matches_def elim: wf_layerE)
    then show ?thesis by (simp add: layer_content_def)
  qed
  with i show "storable i ls rc rm" by (simp add: storable_def list_all_iff)
  show "map layer_content ls = cs" using assms(2) by (induction rule: list_all2_induct) (auto simp: layer_content_def)
qed

lemma layout_Bytes_get: "layout_get l fs h = Some b \<Longrightarrow> layout_Bytes fs l h = Inr b \<and> layout_Blob fs l h = Inr b"
  by (auto simp: layout_get_def layout_Bytes_def layout_Blob_def split: if_splits sum.splits)

text \<open>The media types of the layers that a layout reads.\<close>

definition layout_layers :: "manifest \<Rightarrow> bool" where
  "layout_layers m \<longleftrightarrow> list_all (\<lambda>d. d_MediaType d \<in> {OCILayer, DockerLayer}) (m_Layers m)"

lemma layout_copy:
  assumes i: "coherent_parts E i rc cf rm m ls" and cs: "list_all2 (\<lambda>l c. l_Compressed l = Inr c) ls cs"
    and m: "descriptors_agree m" "layout_layers m"
    and held: "\<And>b. b \<in> set (cs @ [rc, rm]) \<Longrightarrow> layout_get l fs (sha b) = Some b" and d: "d_Digest desc = sha rm"
  shows "pulled_as E (CompressedToImage E (layout_core E fs \<lparr>lm_path = l, lm_desc = desc, lm_rawManifest = None\<rparr>)) rm rc cs"
proof (rule copy_of_coherent [OF i cs])
  let ?li = "\<lparr>lm_path = l, lm_desc = desc, lm_rawManifest = None\<rparr>"
  let ?core = "layout_core E fs ?li" and ?ds = "m_Layers m" and ?hs = "rf_DiffIDs (cf_RootFS cf)"
  from i have dm: "decode_manifest E rm = Inr m" and cfg: "d_Digest (m_Config m) = sha rc"
    and l2: "list_all2 (layer_matches E) ls ?ds" "list_all2 (\<lambda>l h. l_DiffID l = Inr h) ls ?hs"
    by (auto simp: coherent_parts_def)
  have b: "layout_Bytes fs l (sha rm) = Inr rm" "layout_Bytes fs l (sha rc) = Inr rc"
    using held [of rm] held [of rc] layout_Bytes_get by auto
  have raw: "fst (layoutImage_RawManifest fs ?li) = Inr rm" by (simp add: layoutImage_RawManifest_def d b)
  have man: "layoutImage_Manifest E fs ?li = Inr m" by (simp add: layoutImage_Manifest_def raw partial_Manifest_def ParseManifest_def dm)
  show "cic_RawManifest ?core = Inr rm" "cic_RawConfigFile ?core = Inr rc" "is_ok (cic_MediaType ?core)"
    by (simp_all add: layout_core_def raw layoutImage_RawConfigFile_def man cfg b is_ok_def)
  fix k assume k: "k < length cs"
  from coherent_contents [OF l2] obtain cs' where cs': "list_all2 (\<lambda>l c. l_Compressed l = Inr c) ls cs'"
    "list_all2 (\<lambda>c d. d_Digest d = sha c \<and> d_Size d = int (length c)) cs' ?ds"
    "list_all2 (\<lambda>c h. \<exists>u. gunzip E c = Inr u \<and> h = sha u) cs' ?hs" by blast
  have "cs' = cs" using cs cs'(1) by (auto simp: list_all2_conv_all_nth intro!: nth_equalityI)
  note cs2 = cs'(2,3) [unfolded this]
  let ?d = "?ds ! k"
  from cs2 k obtain u where at: "d_Digest ?d = sha (cs ! k)" "gunzip E (cs ! k) = Inr u" "?hs ! k = sha u" "?d \<in> set ?ds"
    by (auto simp: list_all2_conv_all_nth)
  have blob: "layout_Blob fs l (d_Digest ?d) = Inr (cs ! k)" using held [of "cs ! k"] layout_Bytes_get k at(1) by auto
  show "serves_blob E ?core ?d (cs ! k) (?hs ! k)"
  proof (cases "d_Digest ?d = d_Digest (m_Config m)")
    case True
    with m(1) at(4) have "m_Config m = ?d" by (auto simp: descriptors_agree_def)
    with blob show ?thesis by (simp add: serves_blob_def layout_core_def layoutImage_LayerByDigest_def man compressedBlob_def)
  next
    case False
    obtain d' where d': "find (\<lambda>x. d_Digest ?d = d_Digest x) ?ds = Some d'"
      using at(4) by (cases "find (\<lambda>x. d_Digest ?d = d_Digest x) ?ds") (auto simp: find_None_iff)
    then have "d' \<in> set ?ds" "d_Digest d' = d_Digest ?d" by (auto simp: find_Some_iff)
    with m(1) at(4) have e: "d' = ?d" unfolding descriptors_agree_def by auto
    have "d_MediaType ?d \<in> {OCILayer, DockerLayer}" using m(2) at(4) by (simp add: layout_layers_def list_all_iff)
    then have "layoutImage_LayerByDigest E fs ?li (d_Digest ?d) = Inr (layer_as_compressed (CompressedToLayer E (compressedBlob fs l ?d)))"
      using False d' e by (simp add: layoutImage_LayerByDigest_def man)
    with blob at(2,3) show ?thesis
      by (simp add: serves_blob_def layout_core_def layer_as_compressed_def CompressedToLayer_def compressedBlob_def
          cle_DiffID_def cle_Uncompressed_def GunzipReadCloser_def sha_def)
  qed
qed

text \<open>The options that layout has leave the digest and the media type alone.\<close>

definition known_option :: "layout_option \<Rightarrow> bool" where
  "known_option opt \<longleftrightarrow> (\<exists>as. opt = layout_WithAnnotations as) \<or> (\<exists>us. opt = layout_WithURLs us) \<or> (\<exists>p. opt = layout_WithPlatform p)"

lemma known_options: "list_all known_option opts \<Longrightarrow>
    \<exists>d'. apply_layout_options opts d = Inr d' \<and> d_Digest d' = d_Digest d \<and> d_MediaType d' = d_MediaType d \<and> d_Size d' = d_Size d"
proof (induction opts arbitrary: d)
  case (Cons opt opts)
  then obtain d1 where "opt d = Inr d1" "d_Digest d1 = d_Digest d" "d_MediaType d1 = d_MediaType d" "d_Size d1 = d_Size d"
    by (auto simp: known_option_def layout_WithAnnotations_def layout_WithURLs_def layout_WithPlatform_def)
  with Cons.IH [of d1] Cons.prems show ?case by auto
qed simp

text \<open>No two of the contents have the same digest, nor one of them and another blob of the layout.\<close>

definition no_clash :: "bytes list \<Rightarrow> (v1_hash \<Rightarrow> bytes option) \<Rightarrow> bool" where
  "no_clash bs m \<longleftrightarrow> inj_on sha (set bs) \<and> (\<forall>b\<in>set bs. \<forall>c. m (sha b) = Some c \<longrightarrow> c = b)"

text \<open>
  C12. An image that is appended to a layout is read back.  Let the layout satisfy its invariant and
  have an index.json that does not name the image yet.  Then AppendImage succeeds: index.json has one
  more entry, at its end, with the size, digest and media type of the manifest; the image found by the
  digest is coherent and has the same manifest, config file and layers; and every blob that was there
  is there.  The layers have the two media types that layout reads.
\<close>

theorem AppendImage_read_back:
  assumes "layout_inv l fs" and "fs (index_key l) = Some (FsFile raw)" and "decode_index E raw = Inr im"
    and "decode_index E (indent (im\<lparr>im_Manifests := im_Manifests im @ [d]\<rparr>)) = Inr (im\<lparr>im_Manifests := im_Manifests im @ [d]\<rparr>)"
    and "coherent_parts E i rc cf rm m ls" and "i_MediaType i = Inr mt" and "IsImage mt" and "descriptors_agree m" and "layout_layers m"
    and "list_all2 (\<lambda>l c. l_Compressed l = Inr c) ls cs" and "fair_order sched"
    and "no_clash (cs @ [rc, rm]) (layout_get l fs)" and "list_all known_option options"
    and "sha rm \<notin> d_Digest ` set (im_Manifests im)"
    and "apply_layout_options options (zero_descriptor\<lparr>d_MediaType := mt, d_Size := int (length rm), d_Digest := sha rm\<rparr>) = Inr d"
  shows "\<exists>fs' li ii. AppendImage E indent sched l i options fs = (None, fs') \<and> layout_inv l fs' \<and>
     layout_ImageIndex fs' l = Inr ii \<and> layoutIndex_IndexManifest E ii = Inr (im\<lparr>im_Manifests := im_Manifests im @ [d]\<rparr>) \<and>
     d_Digest d = sha rm \<and> d_MediaType d = mt \<and> d_Size d = int (length rm) \<and>
     layout_Image E fs' l (sha rm) = Inr li \<and> pulled_as E (CompressedToImage E (layout_core E fs' li)) rm rc cs \<and>
     (\<forall>h b. layout_get l fs h = Some b \<longrightarrow> layout_get l fs' h = Some b)"
proof -
  note st = coherent_storable [OF assms(5,10)]
  let ?bs = "image_blobs (sched ls) rc rm" and ?d0 = "zero_descriptor\<lparr>d_MediaType := mt, d_Size := int (length rm), d_Digest := sha rm\<rparr>"
  let ?fs1 = "foldl (layout_put l) fs ?bs"
  from known_options [OF assms(13), of ?d0] assms(15) have d: "apply_layout_options options ?d0 = Inr d" "d_Digest d = sha rm"
    "d_MediaType d = mt" "d_Size d = int (length rm)" by auto
  from assms(5) have i: "i_Digest i = Inr (sha rm)" "i_RawManifest i = Inr rm" by (auto simp: coherent_parts_def)
  let ?im = "im\<lparr>im_Manifests := im_Manifests im @ [d]\<rparr>"
  have inv1: "layout_inv l ?fs1" using assms(1) by (rule layout_store.inv_puts)
  have ix1: "?fs1 (index_key l) = Some (FsFile raw)"
    using puts_only [OF assms(1), of ?bs] index_not_blob [of l] assms(2) unfolding blobs_only_def by metis
  from write_index [OF inv1 ix1, of "indent ?im"] obtain fs' where
    fs': "layout_WriteFile l ''index.json'' (indent ?im) ?fs1 = (None, fs')" "layout_inv l fs'" "layout_get l fs' = layout_get l ?fs1"
      "fs' = ?fs1(index_key l \<mapsto> FsFile (indent ?im))" by blast
  have l: "l \<noteq> ''''" "fs_tree ?fs1" "fs_tree fs'" using inv1 fs'(2) by (auto simp: layout_inv_def)
  have r1: "layout_ImageIndex ?fs1 l = Inr \<lparr>lx_mediaType = OCIImageIndex, lx_path = l, lx_rawIndex = raw\<rparr>"
    using read_index [OF l(1,2) ix1] index_key_not_root by simp
  have r2: "layout_ImageIndex fs' l = Inr \<lparr>lx_mediaType = OCIImageIndex, lx_path = l, lx_rawIndex = indent ?im\<rparr>"
    using read_index [OF l(1,3)] fs'(4) index_key_not_root by simp
  have app: "AppendImage E indent sched l i options fs = (None, fs')"
    using WriteImage_puts [OF assms(1) st(1) assms(11)] r1 fs'(1) assms(3,6) d(1) i
    by (simp add: AppendImage_def fs_then_def appended_descriptor_def fs_with_def AppendDescriptor_def layoutIndex_IndexManifest_def)
  have sc: "set ?bs = set (cs @ [rc, rm])"
  proof -
    have "set (sched ls) = set ls" using assms(11) by (metis fair_order_def set_mset_mset)
    with st(2) show ?thesis by (auto simp: image_blobs_def)
  qed
  have held: "layout_get l fs' (sha b) = Some b" if "b \<in> set (cs @ [rc, rm])" for b
    using layout_store.got [OF assms(1), of b ?bs] that assms(12) unfolding sc fs'(3) no_clash_def by auto
  have "find (\<lambda>x. d_Digest x = sha rm) (im_Manifests im @ [d]) = Some d"
  proof -
    have "find (\<lambda>x. d_Digest x = sha rm) (xs @ [d]) = Some d" if "sha rm \<notin> d_Digest ` set xs" for xs
      using that d(2) by (induction xs) auto
    with assms(14) show ?thesis by blast
  qed
  moreover have "sha rm \<noteq> zero_v1_hash" by (simp add: zero_v1_hash_def sha_def SHA256_def)
  ultimately have li: "layout_Image E fs' l (sha rm) = Inr \<lparr>lm_path = l, lm_desc = d, lm_rawManifest = None\<rparr>"
    using assms(4,7) d(3)
    by (simp add: layout_Image_def r2 layoutIndex_Image_def layout_findDescriptor_def layoutIndex_IndexManifest_def isExpectedMediaType_def IsImage_def)
  have keep: "layout_get l fs' h = Some b" if "layout_get l fs h = Some b" for h b
    using layout_store.stays [OF assms(1) that, of ?bs] fs'(3) by simp
  from layout_copy [OF assms(5,10,8,9) held d(2)] have "pulled_as E (CompressedToImage E (layout_core E fs' \<lparr>lm_path = l, lm_desc = d, lm_rawManifest = None\<rparr>)) rm rc cs" .
  with app fs'(2) r2 li d keep assms(4) show ?thesis
    by (intro exI [of _ fs'] exI [of _ "\<lparr>lm_path = l, lm_desc = d, lm_rawManifest = None\<rparr>"]
        exI [of _ "\<lparr>lx_mediaType = OCIImageIndex, lx_path = l, lx_rawIndex = indent ?im\<rparr>"]) (simp add: layoutIndex_IndexManifest_def)
qed

section \<open>A small layout\<close>

definition demo_files :: file_system where
  "demo_files = [[''img''] \<mapsto> FsDir, [''img'', ''index.json''] \<mapsto> FsFile ''0'']"

definition demo_entry :: descriptor where
  "demo_entry = zero_descriptor\<lparr>d_MediaType := DockerManifestSchema2, d_Size := 1, d_Digest := sha ''0''\<rparr>"

definition layout_codec :: codec where
  "layout_codec = demo_codec\<lparr>decode_index := (\<lambda>b. if b = ''0'' then Inr base_index else if b = ''1'' then Inr (base_index\<lparr>im_Manifests := [demo_entry]\<rparr>) else Inl ErrUnexpectedEOF)\<rparr>"

lemma demo_path: "path_key ''img'' = [''img'']"
  by (simp add: path_key_def is_rooted_def clean_elems_def clean_step_def)

lemma demo_keys: "index_key ''img'' = [''img'', ''index.json'']" "blobs_dir ''img'' = [''img'', ''blobs'', ''sha256'']"
  by (simp_all add: index_key_def blobs_dir_def demo_path)

lemma demo_layout_inv: "layout_inv ''img'' demo_files"
proof -
  have t: "fs_tree demo_files"
    unfolding fs_tree_def demo_files_def by (auto simp: node_at_def append_eq_Cons_conv split: if_splits)
  have w: "way_free demo_files (blobs_dir ''img'')"
    unfolding way_free_def demo_keys by (auto simp: Cons_eq_append_conv node_at_def demo_files_def)
  show ?thesis using t w by (simp add: layout_inv_def demo_keys demo_files_def)
qed

lemma demo_layout_empty: "layout_get ''img'' demo_files h = None"
proof (rule ccontr)
  assume "layout_get ''img'' demo_files h \<noteq> None"
  then obtain b where b: "layout_get ''img'' demo_files h = Some b" by auto
  with layout_get_iff [of "''img''" demo_files h b] layout_get_wf [OF b] demo_layout_inv
  show False by (simp add: layout_inv_def demo_keys demo_files_def)
qed

lemma layout_codec_simps [simp]:
  "marshal_config layout_codec = marshal_config demo_codec" "marshal_manifest layout_codec = marshal_manifest demo_codec"
  "decode_config layout_codec = decode_config demo_codec" "decode_manifest layout_codec = decode_manifest demo_codec"
  by (simp_all add: layout_codec_def)

lemma demo_empty_image:
  obtains cf where "coherent_parts layout_codec (empty_Image layout_codec) ''0'' cf ''0'' (empty_manifest ''0'') []"
    and "i_MediaType (empty_Image layout_codec) = Inr DockerManifestSchema2"
proof -
  let ?i = "empty_Image layout_codec"
  have "coherent layout_codec ?i" by (rule empty_Image_coherent) (simp_all add: demo_marshal demo_decode)
  moreover have f: "i_Manifest ?i = Inr (empty_manifest ''0'')" "i_Layers ?i = Inr []" "i_RawConfigFile ?i = Inr ''0''" "i_MediaType ?i = Inr DockerManifestSchema2"
    "i_RawManifest ?i = Inr ''0''"
    using empty_Image_fields [of layout_codec] demo_marshal demo_decode
    by (simp_all add: empty_Image_def UncompressedToImage_def emptyImage_def partial_RawConfigFile_def emptyImage_ConfigFile_def
        empty_config_def Let_def partial_RawManifest_def)
  ultimately show thesis using that by (auto simp: coherent_def coherent_parts_def f)
qed

theorem AppendImage_read_back_witness:
  "\<exists>fs' li ii. AppendImage layout_codec (\<lambda>_. ''1'') id ''img'' (empty_Image layout_codec) [] demo_files = (None, fs') \<and> layout_inv ''img'' fs' \<and>
     layout_ImageIndex fs' ''img'' = Inr ii \<and> layoutIndex_IndexManifest layout_codec ii = Inr (base_index\<lparr>im_Manifests := [demo_entry]\<rparr>) \<and>
     layout_Image layout_codec fs' ''img'' (sha ''0'') = Inr li \<and>
     pulled_as layout_codec (CompressedToImage layout_codec (layout_core layout_codec fs' li)) ''0'' ''0'' []"
proof -
  let ?im = "base_index\<lparr>im_Manifests := im_Manifests base_index @ [demo_entry]\<rparr>"
  have im: "?im = base_index\<lparr>im_Manifests := [demo_entry]\<rparr>" by (simp add: base_index_def)
  obtain cf where i: "coherent_parts layout_codec (empty_Image layout_codec) ''0'' cf ''0'' (empty_manifest ''0'') []"
    "i_MediaType (empty_Image layout_codec) = Inr DockerManifestSchema2" by (rule demo_empty_image)
  have x: "demo_files (index_key ''img'') = Some (FsFile ''0'')" by (simp add: demo_keys demo_files_def)
  have d: "decode_index layout_codec ''0'' = Inr base_index" "decode_index layout_codec ((\<lambda>_. ''1'') ?im) = Inr ?im"
    by (simp_all add: layout_codec_def base_index_def)
  have m: "IsImage DockerManifestSchema2" "descriptors_agree (empty_manifest ''0'')" "layout_layers (empty_manifest ''0'')"
    by (simp_all add: IsImage_def descriptors_agree_def layout_layers_def empty_manifest_def)
  have c: "no_clash ([] @ [''0'', ''0'']) (layout_get ''img'' demo_files)" by (simp add: no_clash_def demo_layout_empty)
  have o: "apply_layout_options [] (zero_descriptor\<lparr>d_MediaType := DockerManifestSchema2, d_Size := int (length ''0''), d_Digest := sha ''0''\<rparr>) = Inr demo_entry"
    by (simp add: demo_entry_def)
  from AppendImage_read_back [where indent = "\<lambda>_. ''1''" and sched = id, OF demo_layout_inv x d i m _ _ c _ _ o] im show ?thesis
    by (simp add: fair_order_def base_index_def) blast
qed

theorem layout_WriteImage_refines_witness:
  "\<exists>fs'. layout_WriteImage rev ''img'' (empty_Image layout_codec) demo_files = (None, fs') \<and> layout_get ''img'' fs' (sha ''0'') = Some ''0''"
proof -
  obtain cf where i: "coherent_parts layout_codec (empty_Image layout_codec) ''0'' cf ''0'' (empty_manifest ''0'') []"
    by (rule demo_empty_image)
  have "storable (empty_Image layout_codec) [] ''0'' ''0''" by (rule coherent_storable [OF i]) simp
  from layout_WriteImage_refines [OF demo_layout_inv this, of rev] show ?thesis
    by (auto simp: fair_order_def image_blobs_def add_blob_def demo_layout_empty)
qed

section \<open>What goes wrong\<close>

text \<open>
  A reader that fails leaves a part of the blob in its file; the next attempt to write the blob finds
  the file and reports success, and the layout serves the part for good.
\<close>

lemma interrupted_blob_stays:
  assumes "layout_inv l fs" and "layout_get l fs (sha b) = None" and "b = a @ c" and "c \<noteq> []"
  shows "\<exists>fs1 fs2. WriteBlob l (sha b) (a, Some e) fs = (Some e, fs1) \<and> WriteBlob l (sha b) (b, None) fs1 = (None, fs2) \<and>
    layout_Bytes fs2 l (sha b) = Inr a"
proof -
  let ?k = "blobs_dir l @ [Hex (sha b)]"
  have l: "l \<noteq> ''''" "fs_tree fs" "way_free fs (blobs_dir l)" using assms(1) by (auto simp: layout_inv_def)
  have n: "fs ?k = None"
  proof (cases "fs ?k")
    case (Some n)
    with assms(1) wf_hash_sha [of b] obtain x where "n = FsFile x" unfolding layout_inv_def by blast
    with Some layout_get_iff [OF l(1,2) wf_hash_sha, of b x] assms(2) show ?thesis by auto
  qed
  then have "fs ?k \<noteq> Some FsDir" by simp
  from WriteBlob_written [OF l(1) wf_hash_sha l(2,3) this, of a "Some e"] n obtain fs1 where
    1: "WriteBlob l (sha b) (a, Some e) fs = (Some e, fs1)" "fs_tree fs1" "way_free fs1 (blobs_dir l)" "fs1 ?k = Some (FsFile a)"
    by (auto simp: blob_written_def)
  then have "fs1 ?k \<noteq> Some FsDir" by simp
  from WriteBlob_written [OF l(1) wf_hash_sha 1(2,3) this, of b None] 1(4) obtain fs2 where
    2: "WriteBlob l (sha b) (b, None) fs1 = (None, fs2)" "fs_tree fs2" "fs2 ?k = Some (FsFile a)"
    by (auto simp: blob_written_def)
  from layout_get_iff [OF l(1) 2(2) wf_hash_sha] 2(3) have "layout_get l fs2 (sha b) = Some a" by simp
  with layout_Bytes_get have "layout_Bytes fs2 l (sha b) = Inr a" by blast
  with 1(1) 2(1) show ?thesis by blast
qed

text \<open>
  WriteIndex writes the index to a file of blobs/sha256, a directory that only the blobs of images
  make: in a layout without one, an index that names nothing cannot be written.
\<close>

lemma WriteIndex_needs_dir:
  "fst (layout_WriteIndex id ''img'' (empty_Index E) demo_files) = Some ErrNotExist"
proof -
  let ?raw = "marshal_index E base_index" and ?fs1 = "demo_files([''img'', ''oci-layout''] \<mapsto> FsFile layoutFile)"
  have j: "path_key (layout_join ''img'' []) = [''img'']" "path_key (layout_join ''img'' [''oci-layout'']) = [''img'', ''oci-layout'']"
    using path_key_names [of "[]" "''img''"] path_key_names [of "[''oci-layout'']" "''img''"] blob_names by (simp_all add: layout_join_def demo_path)
  have ne: "layout_join ''img'' [] \<noteq> ''''" "layout_join ''img'' [''oci-layout''] \<noteq> ''''" using j by auto
  have n: "list_all normal_elem [''blobs'', ''sha256'', Hex (sha ?raw)]" using blob_names wf_hash_name [OF wf_hash_sha] by simp
  let ?file = "layout_join ''img'' [path_join [''blobs'', ''sha256'', Hex (sha ?raw)]]"
  have f: "path_key ?file = [''img'', ''blobs'', ''sha256'', Hex (sha ?raw)]"
    using path_key_names [OF n, of "''img''"] path_join_nested [OF n, of "''img''"] by (simp add: layout_join_def demo_path)
  have w1: "layout_WriteFile ''img'' ''oci-layout'' layoutFile demo_files = (None, ?fs1)"
    using j ne by (simp add: layout_WriteFile_def fs_then_def os_MkdirAll_def os_WriteFile_def node_at_def demo_files_def)
  have ne3: "?file \<noteq> ''''" using f by auto
  have w2: "layout_WriteFile ''img'' (path_join [''blobs'', ''sha256'', Hex (sha ?raw)]) ?raw ?fs1 = (Some ErrNotExist, ?fs1)"
    using j(1) ne(1) f ne3 by (simp add: layout_WriteFile_def fs_then_def os_MkdirAll_def os_WriteFile_def node_at_def demo_files_def)
  have a: "Algorithm (sha ?raw) = ''sha256''" using wf_hash_sha [of ?raw] by (simp add: wf_hash_def)
  have d: "ii_Digest (empty_Index E) = Inr (sha ?raw)" by (simp add: empty_Index_def Let_def partial_Digest_def sha_def)
  have wf: "writeIndexToFile (empty_Index E) id ''img'' fname fs = layout_WriteFile ''img'' fname ?raw fs" for fname fs
    by (simp add: empty_Index_def Let_def fs_with_def fs_then_def base_index_def)
  show ?thesis
    using w1 w2 a d by (simp add: layout_WriteIndex_def write_index_file_def fs_then_def fs_with_def wf)
qed

end
