(* ===== verification/Stream_Layer.thy ===== *)
theory Stream_Layer
  imports V1_Image
begin

text \<open>
  pkg/v1/stream/layer.go: a layer whose blob is read once and whose digests are known when it has been
  read.  The goroutine that compresses it and the consumer that reads take turns as a step relation.
\<close>

text \<open>
  What a gzip.Writer at a level has written after some calls of Write, and of Close if the flag is
  set; and what is relied on: it only ever adds to what it has written, and something by Close.
\<close>

type_synonym gzip_writer = "int \<Rightarrow> bytes list \<Rightarrow> bool \<Rightarrow> bytes"

definition gzip_writer_ok :: "gzip_writer \<Rightarrow> bool" where
  "gzip_writer_ok gz \<longleftrightarrow>
     (\<forall>lvl ws w. prefix (gz lvl ws False) (gz lvl (ws @ [w]) False)) \<and> (\<forall>lvl ws. strict_prefix (gz lvl ws False) (gz lvl ws True)) \<and>
     (\<forall>lvl. gz lvl [] False = [])"

section \<open>The layer\<close>

text \<open>
  The blob is the list of what its Read returns, and blob\_close what its Close returns, where an
  error that says that it is closed already counts as none.
\<close>

record stream_layer =
  sl_blob :: "read_result list"
  sl_blob_close :: "go_error option"
  sl_consumed :: bool
  sl_compression :: int
  sl_digest :: "v1_hash option"
  sl_diffID :: "v1_hash option"
  sl_size :: int

type_synonym stream_option = "stream_layer \<Rightarrow> stream_layer"

definition stream_WithCompressionLevel :: "int \<Rightarrow> stream_option" where
  "stream_WithCompressionLevel level l = l\<lparr>sl_compression := level\<rparr>"

definition stream_NewLayer :: "read_result list \<Rightarrow> go_error option \<Rightarrow> stream_option list \<Rightarrow> stream_layer" where
  "stream_NewLayer rc cl opts =
     foldl (\<lambda>l opt. opt l)
       \<lparr>sl_blob = rc, sl_blob_close = cl, sl_consumed = False, sl_compression = gzip_BestSpeed, sl_digest = None, sl_diffID = None, sl_size = 0\<rparr> opts"

definition stream_Digest :: "stream_layer \<Rightarrow> v1_hash res" where
  "stream_Digest l = (case sl_digest l of None \<Rightarrow> Inl ErrNotComputed | Some h \<Rightarrow> Inr h)"

definition stream_DiffID :: "stream_layer \<Rightarrow> v1_hash res" where
  "stream_DiffID l = (case sl_diffID l of None \<Rightarrow> Inl ErrNotComputed | Some h \<Rightarrow> Inr h)"

definition stream_Size :: "stream_layer \<Rightarrow> int res" where
  "stream_Size l = (if sl_size l = 0 then Inl ErrNotComputed else Inr (sl_size l))"

definition stream_MediaType :: "stream_layer \<Rightarrow> media_type res" where
  "stream_MediaType l = Inr DockerLayer"

definition stream_Uncompressed :: "stream_layer \<Rightarrow> bytes res" where
  "stream_Uncompressed l = Inl (ErrMsg ''NYI: stream.Layer.Uncompressed is not implemented'')"

section \<open>The reader\<close>

text \<open>
  The goroutine copies the blob into the hash and the gzip writer, then closes the reader, which
  flushes the gzip writer into the pipe, and ends by closing the pipe with an error or none.
\<close>

datatype stream_pc = Copying | Closing | Finished "go_error option"

text \<open>
  What has been written to the gzip writer; what is in the pipe, whose writer waits until all of it
  has been read; what has been read from it; and whether the consumer waits in Close.  The hash of the
  compressed stream and the counter see what has gone through the pipe.
\<close>

record stream_reader =
  cr_written :: "bytes list"
  cr_pending :: bytes
  cr_taken :: bytes
  cr_pc :: stream_pc
  cr_closing :: bool

definition newCompressedReader :: "stream_layer \<Rightarrow> stream_reader res" where
  "newCompressedReader l =
     (if sl_compression l < -2 \<or> 9 < sl_compression l then
        Inl (ErrMsg (''gzip: invalid compression level: '' @ show_int (sl_compression l)))
      else Inr \<lparr>cr_written = [], cr_pending = [], cr_taken = [], cr_pc = Copying, cr_closing = False\<rparr>)"

definition stream_Compressed :: "stream_layer \<Rightarrow> stream_reader res" where
  "stream_Compressed l = (if sl_consumed l then Inl ErrConsumed else newCompressedReader l)"

text \<open>io.Copy writes what a Read has returned, if it is anything.\<close>

definition copy_chunk :: "gzip_writer \<Rightarrow> int \<Rightarrow> bytes \<Rightarrow> stream_reader \<Rightarrow> stream_reader" where
  "copy_chunk gz lvl d r =
     (if d = [] then r
      else r\<lparr>cr_written := cr_written r @ [d], cr_pending := drop (length (cr_taken r)) (gz lvl (cr_written r @ [d]) False)\<rparr>)"

definition flush_gzip :: "gzip_writer \<Rightarrow> int \<Rightarrow> stream_reader \<Rightarrow> stream_reader" where
  "flush_gzip gz lvl r = r\<lparr>cr_pending := drop (length (cr_taken r)) (gz lvl (cr_written r) True), cr_pc := Closing\<rparr>"

text \<open>The rest of Close, when the gzip writer has been flushed.\<close>

definition close_layer :: "stream_reader \<Rightarrow> stream_layer \<Rightarrow> stream_layer" where
  "close_layer r l =
     l\<lparr>sl_diffID := Some (sha (concat (cr_written r))), sl_digest := Some (sha (cr_taken r)),
       sl_size := int (length (cr_taken r)), sl_consumed := True\<rparr>"

definition compressedReader_Close :: "stream_reader \<Rightarrow> stream_layer \<Rightarrow> go_error option \<times> stream_layer" where
  "compressedReader_Close r l =
     (case sl_blob_close l of Some e \<Rightarrow> (Some e, l) | None \<Rightarrow> (None, close_layer r l))"

record stream_state =
  sm_layer :: stream_layer
  sm_reader :: "stream_reader option"

text \<open>
  The steps of the goroutine and of the consumer, which opens the stream once.  Close of the consumer
  takes the lock and writes to the pipe, which it alone reads: before the goroutine has come to the end
  it blocks, unless reading the blob fails.
\<close>

inductive stream_step :: "gzip_writer \<Rightarrow> stream_state \<Rightarrow> stream_state \<Rightarrow> bool" for gz where
  open_stream: "stream_Compressed l = Inr r \<Longrightarrow> stream_step gz \<lparr>sm_layer = l, sm_reader = None\<rparr> \<lparr>sm_layer = l, sm_reader = Some r\<rparr>"
| copy_data: "cr_pc r = Copying \<Longrightarrow> cr_pending r = [] \<Longrightarrow> \<not> cr_closing r \<Longrightarrow> sl_blob l = ReadData d # rs \<Longrightarrow>
     stream_step gz \<lparr>sm_layer = l, sm_reader = Some r\<rparr>
       \<lparr>sm_layer = l\<lparr>sl_blob := rs\<rparr>, sm_reader = Some (copy_chunk gz (sl_compression l) d r)\<rparr>"
| copy_last: "cr_pc r = Copying \<Longrightarrow> cr_pending r = [] \<Longrightarrow> \<not> cr_closing r \<Longrightarrow> sl_blob l = ReadEOF d # rs \<Longrightarrow>
     stream_step gz \<lparr>sm_layer = l, sm_reader = Some r\<rparr>
       \<lparr>sm_layer = l\<lparr>sl_blob := []\<rparr>, sm_reader = Some (copy_chunk gz (sl_compression l) d r)\<rparr>"
| copy_before_error: "cr_pc r = Copying \<Longrightarrow> cr_pending r = [] \<Longrightarrow> \<not> cr_closing r \<Longrightarrow> sl_blob l = ReadErr d e # rs \<Longrightarrow> d \<noteq> [] \<Longrightarrow>
     stream_step gz \<lparr>sm_layer = l, sm_reader = Some r\<rparr>
       \<lparr>sm_layer = l\<lparr>sl_blob := ReadErr [] e # rs\<rparr>, sm_reader = Some (copy_chunk gz (sl_compression l) d r)\<rparr>"
| copy_fails: "cr_pc r = Copying \<Longrightarrow> cr_pending r = [] \<Longrightarrow> sl_blob l = ReadErr [] e # rs \<Longrightarrow>
     stream_step gz \<lparr>sm_layer = l, sm_reader = Some r\<rparr> \<lparr>sm_layer = l, sm_reader = Some (r\<lparr>cr_pc := Finished (Some e), cr_closing := False\<rparr>)\<rparr>"
| flush: "cr_pc r = Copying \<Longrightarrow> cr_pending r = [] \<Longrightarrow> \<not> cr_closing r \<Longrightarrow> sl_blob l = [] \<Longrightarrow>
     stream_step gz \<lparr>sm_layer = l, sm_reader = Some r\<rparr> \<lparr>sm_layer = l, sm_reader = Some (flush_gzip gz (sl_compression l) r)\<rparr>"
| finish: "cr_pc r = Closing \<Longrightarrow> cr_pending r = [] \<Longrightarrow> \<not> cr_closing r \<Longrightarrow> compressedReader_Close r l = (e, l') \<Longrightarrow>
     stream_step gz \<lparr>sm_layer = l, sm_reader = Some r\<rparr> \<lparr>sm_layer = l', sm_reader = Some (r\<lparr>cr_pc := Finished e\<rparr>)\<rparr>"
| read_some: "cr_pending r \<noteq> [] \<Longrightarrow> \<not> cr_closing r \<Longrightarrow> 0 < n \<Longrightarrow>
     stream_step gz \<lparr>sm_layer = l, sm_reader = Some r\<rparr>
       \<lparr>sm_layer = l, sm_reader = Some (r\<lparr>cr_taken := cr_taken r @ take n (cr_pending r), cr_pending := drop n (cr_pending r)\<rparr>)\<rparr>"
| close_early: "cr_pc r = Copying \<or> cr_pc r = Closing \<and> cr_pending r \<noteq> [] \<Longrightarrow>
     stream_step gz \<lparr>sm_layer = l, sm_reader = Some r\<rparr> \<lparr>sm_layer = l, sm_reader = Some (r\<lparr>cr_closing := True\<rparr>)\<rparr>"
| close_again: "cr_pc r = Finished None \<Longrightarrow> compressedReader_Close r l = (e, l') \<Longrightarrow>
     stream_step gz \<lparr>sm_layer = l, sm_reader = Some r\<rparr> \<lparr>sm_layer = l', sm_reader = Some r\<rparr>"

inductive_cases stream_stepE: "stream_step gz s s'"

definition stream_init :: "stream_layer \<Rightarrow> stream_state" where
  "stream_init l = \<lparr>sm_layer = l, sm_reader = None\<rparr>"

inductive stream_reachable :: "gzip_writer \<Rightarrow> stream_layer \<Rightarrow> stream_state \<Rightarrow> bool" for gz l0 where
  stream_start: "stream_reachable gz l0 (stream_init l0)"
| stream_next: "stream_reachable gz l0 s \<Longrightarrow> stream_step gz s s' \<Longrightarrow> stream_reachable gz l0 s'"

section \<open>The invariant\<close>

text \<open>What io.Copy writes of the rest of a blob before it ends or fails, and whether it fails.\<close>

fun stream_chunks :: "read_result list \<Rightarrow> bytes list" where
  "stream_chunks [] = []"
| "stream_chunks (ReadData d # rs) = (if d = [] then stream_chunks rs else d # stream_chunks rs)"
| "stream_chunks (ReadEOF d # rs) = (if d = [] then [] else [d])"
| "stream_chunks (ReadErr d e # rs) = (if d = [] then [] else [d])"

fun rest_fails :: "read_result list \<Rightarrow> bool" where
  "rest_fails [] = False"
| "rest_fails (ReadData d # rs) = rest_fails rs"
| "rest_fails (ReadEOF d # rs) = False"
| "rest_fails (ReadErr d e # rs) = True"

lemma read_all_rest: "read_all rs = Inr u \<longleftrightarrow> \<not> rest_fails rs \<and> concat (stream_chunks rs) = u"
  by (induction rs arbitrary: u rule: stream_chunks.induct) auto

definition fresh_stream :: "stream_layer \<Rightarrow> bool" where
  "fresh_stream l \<longleftrightarrow> \<not> sl_consumed l \<and> sl_digest l = None \<and> sl_diffID l = None \<and> sl_size l = 0"

text \<open>
  What has been written and what is left make the whole blob; what has been read and what is in the
  pipe make what the gzip writer has written.
\<close>

definition reader_inv :: "gzip_writer \<Rightarrow> stream_layer \<Rightarrow> stream_layer \<Rightarrow> stream_reader \<Rightarrow> bool" where
  "reader_inv gz l0 l r \<longleftrightarrow>
     sl_compression l = sl_compression l0 \<and> sl_blob_close l = sl_blob_close l0 \<and>
     cr_written r @ stream_chunks (sl_blob l) = stream_chunks (sl_blob l0) \<and> rest_fails (sl_blob l) = rest_fails (sl_blob l0) \<and>
     (case cr_pc r of
        Copying \<Rightarrow> fresh_stream l \<and> cr_taken r @ cr_pending r = gz (sl_compression l) (cr_written r) False
      | Closing \<Rightarrow> fresh_stream l \<and> sl_blob l = [] \<and> cr_taken r @ cr_pending r = gz (sl_compression l) (cr_written r) True
      | Finished None \<Rightarrow>
          sl_blob l = [] \<and> cr_pending r = [] \<and> cr_taken r = gz (sl_compression l) (cr_written r) True \<and> sl_blob_close l = None \<and>
          \<not> cr_closing r \<and> l = close_layer r l
      | Finished (Some e) \<Rightarrow> fresh_stream l \<and> (rest_fails (sl_blob l0) \<or> sl_blob_close l0 \<noteq> None))"

definition stream_inv :: "gzip_writer \<Rightarrow> stream_layer \<Rightarrow> stream_state \<Rightarrow> bool" where
  "stream_inv gz l0 s \<longleftrightarrow>
     (case sm_reader s of None \<Rightarrow> sm_layer s = l0 | Some r \<Rightarrow> reader_inv gz l0 (sm_layer s) r)"

lemma stream_step_inv:
  assumes "gzip_writer_ok gz" and "fresh_stream l0" and "stream_inv gz l0 s" and "stream_step gz s s'"
  shows "stream_inv gz l0 s'"
  using assms(4,3)
proof cases
  case (open_stream l r)
  then show ?thesis using assms(1-3)
    by (auto simp: stream_inv_def reader_inv_def stream_Compressed_def newCompressedReader_def gzip_writer_ok_def fresh_stream_def split: if_splits)
next
  case (copy_data r l d rs)
  have "prefix (gz (sl_compression l) (cr_written r) False) (gz (sl_compression l) (cr_written r @ [d]) False)"
    using assms(1) by (simp add: gzip_writer_ok_def)
  with copy_data assms(3) show ?thesis
    by (auto simp: stream_inv_def reader_inv_def copy_chunk_def fresh_stream_def prefix_def)
next
  case (copy_last r l d rs)
  have "prefix (gz (sl_compression l) (cr_written r) False) (gz (sl_compression l) (cr_written r @ [d]) False)"
    using assms(1) by (simp add: gzip_writer_ok_def)
  with copy_last assms(3) show ?thesis
    by (auto simp: stream_inv_def reader_inv_def copy_chunk_def fresh_stream_def prefix_def)
next
  case (copy_before_error r l d e rs)
  have "prefix (gz (sl_compression l) (cr_written r) False) (gz (sl_compression l) (cr_written r @ [d]) False)"
    using assms(1) by (simp add: gzip_writer_ok_def)
  with copy_before_error assms(3) show ?thesis
    by (auto simp: stream_inv_def reader_inv_def copy_chunk_def fresh_stream_def prefix_def)
next
  case (copy_fails r l e rs)
  with assms(3) show ?thesis by (auto simp: stream_inv_def reader_inv_def)
next
  case (flush r l)
  have "prefix (gz (sl_compression l) (cr_written r) False) (gz (sl_compression l) (cr_written r) True)"
    using assms(1) by (simp add: gzip_writer_ok_def strict_prefix_def)
  with flush assms(3) show ?thesis
    by (auto simp: stream_inv_def reader_inv_def flush_gzip_def prefix_def)
next
  case (finish r l e l')
  with assms(3) show ?thesis
    by (auto simp: stream_inv_def reader_inv_def compressedReader_Close_def close_layer_def split: option.splits)
next
  case (read_some r n l)
  with assms(3) show ?thesis
    by (auto simp: stream_inv_def reader_inv_def close_layer_def split: stream_pc.splits option.splits)
next
  case (close_early r l)
  with assms(3) show ?thesis
    by (auto simp: stream_inv_def reader_inv_def close_layer_def split: stream_pc.splits option.splits)
next
  case (close_again r l e l')
  with assms(3) show ?thesis
    by (auto simp: stream_inv_def reader_inv_def compressedReader_Close_def close_layer_def split: option.splits)
qed

lemma stream_reachable_inv:
  assumes "gzip_writer_ok gz" and "fresh_stream l0"
  shows "stream_reachable gz l0 s \<Longrightarrow> stream_inv gz l0 s"
proof (induction rule: stream_reachable.induct)
  case stream_start
  then show ?case by (simp add: stream_init_def stream_inv_def)
next
  case (stream_next s s')
  then show ?case using stream_step_inv [OF assms] by blast
qed

lemma options_fresh:
  "list_all (\<lambda>opt. \<exists>lvl. opt = stream_WithCompressionLevel lvl) opts \<Longrightarrow> fresh_stream l \<Longrightarrow> fresh_stream (foldl (\<lambda>l opt. opt l) l opts)"
proof (induction opts arbitrary: l)
  case (Cons opt opts)
  then obtain lvl where "opt = stream_WithCompressionLevel lvl" by auto
  then have "fresh_stream (opt l)" using Cons.prems(2) by (simp add: fresh_stream_def stream_WithCompressionLevel_def)
  with Cons show ?case by simp
qed simp

lemma NewLayer_fresh: "list_all (\<lambda>opt. \<exists>lvl. opt = stream_WithCompressionLevel lvl) opts \<Longrightarrow> fresh_stream (stream_NewLayer rc cl opts)"
  unfolding stream_NewLayer_def by (rule options_fresh) (simp_all add: fresh_stream_def)

end
