(* ===== verification/Stream_Runs.thy ===== *)
theory Stream_Runs
  imports Stream_Layer Registry_Push
begin

text \<open>
  Runs of a streamed layer: what its methods say at every moment, that runs end, what closing it too
  early does, and that it can be pushed.
\<close>

lemma stream_reports:
  assumes "gzip_writer_ok gz" and "fresh_stream l0" and "stream_reachable gz l0 s"
  shows "(stream_Digest (sm_layer s) = Inl ErrNotComputed \<and> stream_DiffID (sm_layer s) = Inl ErrNotComputed \<and>
      stream_Size (sm_layer s) = Inl ErrNotComputed \<and> \<not> sl_consumed (sm_layer s)) \<or>
    (\<exists>r u. sm_reader s = Some r \<and> read_all (sl_blob l0) = Inr u \<and> cr_taken r = gz (sl_compression l0) (stream_chunks (sl_blob l0)) True \<and>
      stream_Digest (sm_layer s) = Inr (sha (cr_taken r)) \<and> stream_DiffID (sm_layer s) = Inr (sha u) \<and>
      stream_Size (sm_layer s) = Inr (int (length (cr_taken r))) \<and> stream_Compressed (sm_layer s) = Inl ErrConsumed)"
proof -
  have inv: "stream_inv gz l0 s" by (rule stream_reachable_inv [OF assms])
  have fresh: "stream_Digest l = Inl ErrNotComputed \<and> stream_DiffID l = Inl ErrNotComputed \<and> stream_Size l = Inl ErrNotComputed \<and> \<not> sl_consumed l"
    if "fresh_stream l" for l
    using that by (simp add: fresh_stream_def stream_Digest_def stream_DiffID_def stream_Size_def)
  show ?thesis
  proof (cases "sm_reader s")
    case None
    with inv assms(2) have "fresh_stream (sm_layer s)" by (simp add: stream_inv_def)
    with fresh show ?thesis by blast
  next
    case (Some r)
    with inv have ri: "reader_inv gz l0 (sm_layer s) r" by (simp add: stream_inv_def)
    show ?thesis
    proof (cases "cr_pc r = Finished None")
      case False
      with ri have "fresh_stream (sm_layer s)" by (auto simp: reader_inv_def split: stream_pc.splits option.splits)
      with fresh show ?thesis by blast
    next
      case True
      with ri have c: "sl_blob (sm_layer s) = []" "cr_taken r = gz (sl_compression l0) (cr_written r) True"
        "cr_written r = stream_chunks (sl_blob l0)" "\<not> rest_fails (sl_blob l0)" and e: "sm_layer s = close_layer r (sm_layer s)"
        by (auto simp: reader_inv_def)
      have "strict_prefix (gz (sl_compression l0) (cr_written r) False) (cr_taken r)" using assms(1) c(2) by (simp add: gzip_writer_ok_def)
      then have ne: "cr_taken r \<noteq> []" by auto
      have v: "sl_digest (sm_layer s) = Some (sha (cr_taken r))" "sl_diffID (sm_layer s) = Some (sha (concat (cr_written r)))"
        "sl_size (sm_layer s) = int (length (cr_taken r))" "sl_consumed (sm_layer s)"
        by (subst e, simp add: close_layer_def)+
      have "read_all (sl_blob l0) = Inr (concat (cr_written r))" using c by (simp add: read_all_rest)
      with v ne c(2,3) show ?thesis
        by (intro disjI2 exI [of _ r] exI [of _ "concat (cr_written r)"])
          (simp add: Some stream_Digest_def stream_DiffID_def stream_Size_def stream_Compressed_def)
    qed
  qed
qed

text \<open>
  C13. What a streamed layer says of itself.  At every moment of its life, however the goroutine and
  the consumer take turns, Digest, DiffID and Size all say that they have not been computed yet, and
  the stream has not been read to its end; or all have been computed, the blob has been read to its
  end without an error, what the consumer has read is the gzip stream of the blob, they are its
  hash and length and the hash of the blob, and the layer cannot be opened again.
\<close>

theorem stream_methods:
  assumes "gzip_writer_ok gz" and "fresh_stream l0" and "stream_reachable gz l0 s"
  shows "(stream_Digest (sm_layer s) = Inl ErrNotComputed \<and> stream_DiffID (sm_layer s) = Inl ErrNotComputed \<and>
      stream_Size (sm_layer s) = Inl ErrNotComputed \<and> \<not> sl_consumed (sm_layer s)) \<or>
    (\<exists>r u. sm_reader s = Some r \<and> read_all (sl_blob l0) = Inr u \<and> cr_taken r = gz (sl_compression l0) (stream_chunks (sl_blob l0)) True \<and>
      stream_Digest (sm_layer s) = Inr (sha (cr_taken r)) \<and> stream_DiffID (sm_layer s) = Inr (sha u) \<and>
      stream_Size (sm_layer s) = Inr (int (length (cr_taken r))) \<and> stream_Compressed (sm_layer s) = Inl ErrConsumed)"
  by (rule stream_reports [OF assms])

section \<open>Runs end\<close>

definition consumer_blocked :: "stream_state \<Rightarrow> bool" where
  "consumer_blocked s \<longleftrightarrow> (case sm_reader s of None \<Rightarrow> False | Some r \<Rightarrow> cr_closing r)"

definition stream_stage :: "stream_state \<Rightarrow> nat" where
  "stream_stage s =
     (case sm_reader s of None \<Rightarrow> 3 | Some r \<Rightarrow> (case cr_pc r of Copying \<Rightarrow> 2 | Closing \<Rightarrow> 1 | Finished _ \<Rightarrow> 0))"

definition stream_left :: "stream_state \<Rightarrow> nat" where
  "stream_left s = (\<Sum>r\<leftarrow>sl_blob (sm_layer s). case r of ReadErr d _ \<Rightarrow> if d = [] then 1 else 2 | _ \<Rightarrow> 1)"

definition stream_piped :: "stream_state \<Rightarrow> nat" where
  "stream_piped s = (case sm_reader s of None \<Rightarrow> 0 | Some r \<Rightarrow> length (cr_pending r))"

definition stream_order :: "(stream_state \<times> stream_state) set" where
  "stream_order = measures [stream_stage, \<lambda>s. if consumer_blocked s then 0 else 1, stream_left, stream_piped]"

lemma close_layer_again: "l = close_layer r l \<Longrightarrow> compressedReader_Close r l = (e, l') \<Longrightarrow> l' = l"
  by (auto simp: compressedReader_Close_def split: option.splits)

lemma stream_step_order:
  assumes "stream_inv gz l0 s" and "stream_step gz s s'" and "s' \<noteq> s"
  shows "(s', s) \<in> stream_order"
  using assms(2)
proof cases
  case (close_early r l)
  with assms(3) have "\<not> cr_closing r" by auto
  with close_early show ?thesis by (simp add: stream_order_def stream_stage_def consumer_blocked_def)
next
  case (close_again r l e l')
  with assms(1) have "l = close_layer r l" by (simp add: stream_inv_def reader_inv_def)
  with close_layer_again close_again assms(3) show ?thesis by blast
qed (auto simp: stream_order_def stream_stage_def consumer_blocked_def stream_left_def stream_piped_def copy_chunk_def flush_gzip_def
    newCompressedReader_def stream_Compressed_def split: if_splits stream_pc.splits)

text \<open>A state that the run does not leave while the consumer goes on reading.\<close>

definition stream_ends :: "gzip_writer \<Rightarrow> stream_state \<Rightarrow> bool" where
  "stream_ends gz s \<longleftrightarrow> (\<forall>s'. stream_step gz s s' \<longrightarrow> s' = s \<or> consumer_blocked s')"

lemma blob_step:
  assumes "cr_pc r = Copying" and "cr_pending r = []" and "\<not> cr_closing r"
  shows "\<exists>s'. stream_step gz \<lparr>sm_layer = l, sm_reader = Some r\<rparr> s' \<and> s' \<noteq> \<lparr>sm_layer = l, sm_reader = Some r\<rparr> \<and> \<not> consumer_blocked s'"
proof -
  have c: "\<not> cr_closing (copy_chunk gz lvl d r)" for lvl d using assms(3) by (simp add: copy_chunk_def)
  have b: "l\<lparr>sl_blob := x\<rparr> \<noteq> l" if "sl_blob l \<noteq> x" for x using that by (metis stream_layer.select_convs(1) stream_layer.surjective stream_layer.update_convs(1))
  show ?thesis
  proof (cases "sl_blob l")
    case Nil
    from flush [OF assms this] have "stream_step gz \<lparr>sm_layer = l, sm_reader = Some r\<rparr> \<lparr>sm_layer = l, sm_reader = Some (flush_gzip gz (sl_compression l) r)\<rparr>" .
    moreover have "flush_gzip gz (sl_compression l) r \<noteq> r" using assms(1) by (auto simp: flush_gzip_def dest: arg_cong [of _ _ cr_pc])
    ultimately show ?thesis using assms(3)
      by (intro exI [of _ "\<lparr>sm_layer = l, sm_reader = Some (flush_gzip gz (sl_compression l) r)\<rparr>"]) (auto simp: consumer_blocked_def flush_gzip_def)
  next
    case (Cons x rs)
    show ?thesis
    proof (cases x)
      case (ReadData d)
      with copy_data [OF assms, of l d rs gz] Cons have
        st: "stream_step gz \<lparr>sm_layer = l, sm_reader = Some r\<rparr> \<lparr>sm_layer = l\<lparr>sl_blob := rs\<rparr>, sm_reader = Some (copy_chunk gz (sl_compression l) d r)\<rparr>"
        by simp
      show ?thesis by (rule exI, rule conjI, rule st) (use b [of rs] c Cons in \<open>auto simp: consumer_blocked_def\<close>)
    next
      case (ReadEOF d)
      with copy_last [OF assms, of l d rs gz] Cons have
        st: "stream_step gz \<lparr>sm_layer = l, sm_reader = Some r\<rparr> \<lparr>sm_layer = l\<lparr>sl_blob := []\<rparr>, sm_reader = Some (copy_chunk gz (sl_compression l) d r)\<rparr>"
        by simp
      show ?thesis by (rule exI, rule conjI, rule st) (use b [of "[]"] c Cons in \<open>auto simp: consumer_blocked_def\<close>)
    next
      case (ReadErr d e)
      show ?thesis
      proof (cases "d = []")
        case True
        from copy_fails [OF assms(1,2), of l e rs gz] Cons ReadErr True
        have st: "stream_step gz \<lparr>sm_layer = l, sm_reader = Some r\<rparr> \<lparr>sm_layer = l, sm_reader = Some (r\<lparr>cr_pc := Finished (Some e), cr_closing := False\<rparr>)\<rparr>" by simp
        have ne: "r\<lparr>cr_pc := Finished (Some e), cr_closing := False\<rparr> \<noteq> r" using assms(1) by (auto dest: arg_cong [of _ _ cr_pc])
        show ?thesis by (rule exI, rule conjI, rule st) (use ne in \<open>auto simp: consumer_blocked_def\<close>)
      next
        case False
        with copy_before_error [OF assms, of l d e rs gz] Cons ReadErr have
          st: "stream_step gz \<lparr>sm_layer = l, sm_reader = Some r\<rparr>
            \<lparr>sm_layer = l\<lparr>sl_blob := ReadErr [] e # rs\<rparr>, sm_reader = Some (copy_chunk gz (sl_compression l) d r)\<rparr>" by simp
        show ?thesis by (rule exI, rule conjI, rule st) (use b [of "ReadErr [] e # rs"] c Cons ReadErr False in \<open>auto simp: consumer_blocked_def\<close>)
      qed
    qed
  qed
qed

lemma stream_ends_finished:
  assumes "stream_ends gz s" and "\<not> consumer_blocked s" and "sm_reader s = None \<Longrightarrow> is_ok (stream_Compressed (sm_layer s))"
  shows "\<exists>r x. sm_reader s = Some r \<and> cr_pc r = Finished x"
proof (cases "sm_reader s")
  case None
  with assms(3) obtain r where r: "stream_Compressed (sm_layer s) = Inr r" by (auto simp: is_ok_iff)
  then have "\<not> cr_closing r" by (auto simp: stream_Compressed_def newCompressedReader_def split: if_splits)
  moreover have "s = \<lparr>sm_layer = sm_layer s, sm_reader = None\<rparr>" by (simp add: None [symmetric])
  with open_stream [OF r, of gz] have "stream_step gz s \<lparr>sm_layer = sm_layer s, sm_reader = Some r\<rparr>" by metis
  ultimately show ?thesis using assms(1) None unfolding stream_ends_def
    by (metis consumer_blocked_def option.distinct(1) option.simps(5) stream_state.select_convs(2))
next
  case (Some r)
  have s: "s = \<lparr>sm_layer = sm_layer s, sm_reader = Some r\<rparr>" by (simp add: Some [symmetric])
  have nb: "\<not> cr_closing r" using assms(2) Some by (simp add: consumer_blocked_def)
  have stay: "s' = s" if "stream_step gz s s'" "\<not> consumer_blocked s'" for s' using assms(1) that by (auto simp: stream_ends_def)
  have p: "cr_pending r = []" if "cr_pc r \<noteq> Finished x" for x
  proof (rule ccontr)
    assume ne: "cr_pending r \<noteq> []"
    let ?r = "r\<lparr>cr_taken := cr_taken r @ take (length (cr_pending r)) (cr_pending r), cr_pending := drop (length (cr_pending r)) (cr_pending r)\<rparr>"
    have "stream_step gz s \<lparr>sm_layer = sm_layer s, sm_reader = Some ?r\<rparr>" using ne nb by (subst s, intro read_some) auto
    from stay [OF this] nb have "\<lparr>sm_layer = sm_layer s, sm_reader = Some ?r\<rparr> = s" by (simp add: consumer_blocked_def)
    with Some have "cr_pending ?r = cr_pending r" by (metis option.inject stream_state.select_convs(2))
    with ne show False by simp
  qed
  show ?thesis
  proof (cases "cr_pc r")
    case Copying
    with p have "cr_pending r = []" by simp
    from blob_step [OF Copying this nb, of gz "sm_layer s"] stay show ?thesis using s by metis
  next
    case Closing
    with p have "cr_pending r = []" by simp
    obtain e l' where e: "compressedReader_Close r (sm_layer s) = (e, l')" by (rule prod.exhaust)
    have "stream_step gz s \<lparr>sm_layer = l', sm_reader = Some (r\<lparr>cr_pc := Finished e\<rparr>)\<rparr>"
      by (subst s, rule finish [OF Closing \<open>cr_pending r = []\<close> nb e])
    from stay [OF this] nb have "\<lparr>sm_layer = l', sm_reader = Some (r\<lparr>cr_pc := Finished e\<rparr>)\<rparr> = s" by (simp add: consumer_blocked_def)
    with Some have "cr_pc (r\<lparr>cr_pc := Finished e\<rparr>) = cr_pc r" by (metis option.inject stream_state.select_convs(2))
    with Closing show ?thesis by simp
  next
    case (Finished x)
    with Some show ?thesis by blast
  qed
qed

text \<open>
  C14. A streamed layer is computed in the end.  Every run from a fresh layer whose compression level
  is valid ends: no sequence of steps that change anything is infinite.  Where it ends, the consumer
  goes on reading and never having closed the stream before its end, reading or closing the blob has
  failed, or the layer has been consumed, and then by the property before its methods tell what they
  should.
\<close>

theorem stream_terminates:
  assumes "gzip_writer_ok gz" and "fresh_stream l0" and "-2 \<le> sl_compression l0" and "sl_compression l0 \<le> 9"
  shows "wf {(s', s). stream_reachable gz l0 s \<and> stream_step gz s s' \<and> s' \<noteq> s} \<and>
    (\<forall>s. stream_reachable gz l0 s \<and> stream_ends gz s \<and> \<not> consumer_blocked s \<and> \<not> sl_consumed (sm_layer s) \<longrightarrow>
       rest_fails (sl_blob l0) \<or> sl_blob_close l0 \<noteq> None)"
proof (intro conjI allI impI)
  have "{(s', s). stream_reachable gz l0 s \<and> stream_step gz s s' \<and> s' \<noteq> s} \<subseteq> stream_order"
    using stream_step_order stream_reachable_inv [OF assms(1,2)] by blast
  moreover have "wf stream_order" by (simp add: stream_order_def)
  ultimately show "wf {(s', s). stream_reachable gz l0 s \<and> stream_step gz s s' \<and> s' \<noteq> s}" by (rule wf_subset [rotated])
next
  fix s assume s: "stream_reachable gz l0 s \<and> stream_ends gz s \<and> \<not> consumer_blocked s \<and> \<not> sl_consumed (sm_layer s)"
  then have inv: "stream_inv gz l0 s" using stream_reachable_inv [OF assms(1,2)] by blast
  have "is_ok (stream_Compressed (sm_layer s))" if "sm_reader s = None"
    using inv that assms(2-4) by (simp add: stream_inv_def stream_Compressed_def newCompressedReader_def fresh_stream_def)
  from stream_ends_finished [OF _ _ this] s obtain r x where r: "sm_reader s = Some r" "cr_pc r = Finished x" by metis
  with inv have ri: "reader_inv gz l0 (sm_layer s) r" by (simp add: stream_inv_def)
  show "rest_fails (sl_blob l0) \<or> sl_blob_close l0 \<noteq> None"
  proof (cases x)
    case None
    with ri r have "sm_layer s = close_layer r (sm_layer s)" by (simp add: reader_inv_def)
    then have "sl_consumed (sm_layer s)" by (metis close_layer_def stream_layer.select_convs(3) stream_layer.surjective stream_layer.update_convs)
    with s show ?thesis by blast
  next
    case (Some e)
    with ri r show ?thesis by (simp add: reader_inv_def)
  qed
qed

section \<open>Closing too early\<close>

text \<open>
  A consumer that closes the stream before the goroutine has come to its end waits for ever, and holds
  the lock of the layer, unless reading the blob fails: nothing changes any more.
\<close>

lemma closed_early_stuck:
  assumes "gzip_writer_ok gz" and "fresh_stream l0" and "stream_reachable gz l0 s" and "consumer_blocked s"
    and "\<not> rest_fails (sl_blob l0)" and "stream_step gz s s'"
  shows "s' = s"
proof -
  have inv: "stream_inv gz l0 s" by (rule stream_reachable_inv [OF assms(1-3)])
  from assms(6) show ?thesis
    by cases (use inv assms(4,5) in \<open>auto simp: consumer_blocked_def stream_inv_def reader_inv_def split: stream_pc.splits option.splits\<close>)
qed

lemma closing_early_blocks:
  assumes "cr_pc r = Copying"
  shows "\<exists>s'. stream_step gz \<lparr>sm_layer = l, sm_reader = Some r\<rparr> s' \<and> consumer_blocked s'"
  using close_early [of r gz l] assms by (auto simp: consumer_blocked_def)

section \<open>Pushing a streamed layer\<close>

definition stream_view :: "gzip_writer \<Rightarrow> stream_layer \<Rightarrow> layer" where
  "stream_view gz l =
     \<lparr>l_Digest = stream_Digest l, l_DiffID = stream_DiffID l,
      l_Compressed = bnd (stream_Compressed l) (\<lambda>_. bnd (read_all (sl_blob l)) (\<lambda>_. Inr (gz (sl_compression l) (stream_chunks (sl_blob l)) True))),
      l_Uncompressed = stream_Uncompressed l, l_Size = stream_Size l, l_MediaType = stream_MediaType l,
      l_Descriptor = None, l_UncompressedSize = None\<rparr>"

text \<open>
  A streamed layer, as it is before and after it has been consumed, is one that can be pushed: what
  Write does with images applies to it.
\<close>

lemma stream_pushable:
  assumes "gzip_writer_ok gz" and "fresh_stream l0" and "-2 \<le> sl_compression l0" "sl_compression l0 \<le> 9"
    and "stream_reachable gz l0 s" and "sl_consumed (sm_layer s)"
  shows "pushable \<lparr>pl_before = stream_view gz l0, pl_after = stream_view gz (sm_layer s), pl_Reference = None\<rparr>"
proof -
  from stream_reports [OF assms(1,2,5)] assms(6) obtain r :: stream_reader and u where
    "read_all (sl_blob l0) = Inr u" "cr_taken r = gz (sl_compression l0) (stream_chunks (sl_blob l0)) True"
    "stream_Digest (sm_layer s) = Inr (sha (cr_taken r))" by blast
  with assms(2-4) show ?thesis
    by (simp add: pushable_def content_of_def stream_view_def stream_MediaType_def stream_Compressed_def newCompressedReader_def
        fresh_stream_def stream_Digest_def)
qed

section \<open>A small stream\<close>

definition demo_gz :: gzip_writer where
  "demo_gz lvl ws fin = concat ws @ (if fin then ''z'' else '''')"

definition demo_stream :: stream_layer where
  "demo_stream = stream_NewLayer [ReadEOF ''a''] None []"

lemma demo_gz_ok: "gzip_writer_ok demo_gz"
  by (simp add: gzip_writer_ok_def demo_gz_def strict_prefix_def)

lemma demo_stream_fresh: "fresh_stream demo_stream"
  unfolding demo_stream_def by (rule NewLayer_fresh) simp

definition demo_reader :: "bytes list \<Rightarrow> bytes \<Rightarrow> bytes \<Rightarrow> stream_pc \<Rightarrow> stream_reader" where
  "demo_reader ws pending taken pc = \<lparr>cr_written = ws, cr_pending = pending, cr_taken = taken, cr_pc = pc, cr_closing = False\<rparr>"

lemma demo_stream_run:
  "stream_reachable demo_gz demo_stream
     \<lparr>sm_layer = close_layer (demo_reader [''a''] '''' ''az'' Closing) (demo_stream\<lparr>sl_blob := []\<rparr>), sm_reader = Some (demo_reader [''a''] '''' ''az'' (Finished None))\<rparr>"
proof -
  let ?R = "stream_reachable demo_gz demo_stream" and ?l = "demo_stream\<lparr>sl_blob := []\<rparr>"
  have b: "sl_blob demo_stream = [ReadEOF ''a'']" "sl_compression demo_stream = 1" "sl_blob_close demo_stream = None" "\<not> sl_consumed demo_stream"
    by (simp_all add: demo_stream_def stream_NewLayer_def gzip_BestSpeed_def)
  have 0: "?R \<lparr>sm_layer = demo_stream, sm_reader = None\<rparr>" using stream_start [of demo_gz demo_stream] by (simp add: stream_init_def)
  have 1: "?R \<lparr>sm_layer = demo_stream, sm_reader = Some (demo_reader [] '''' '''' Copying)\<rparr>"
    by (rule stream_next [OF 0 open_stream]) (simp add: stream_Compressed_def newCompressedReader_def b demo_reader_def)
  have "copy_chunk demo_gz 1 ''a'' (demo_reader [] '''' '''' Copying) = demo_reader [''a''] ''a'' '''' Copying"
    by (simp add: copy_chunk_def demo_reader_def demo_gz_def)
  with stream_next [OF 1 copy_last [of _ _ "''a''" "[]"]] b have 2: "?R \<lparr>sm_layer = ?l, sm_reader = Some (demo_reader [''a''] ''a'' '''' Copying)\<rparr>"
    by (simp add: demo_reader_def)
  from stream_next [OF 2 read_some [of _ 1]] have 3: "?R \<lparr>sm_layer = ?l, sm_reader = Some (demo_reader [''a''] '''' ''a'' Copying)\<rparr>"
    by (simp add: demo_reader_def)
  have "flush_gzip demo_gz 1 (demo_reader [''a''] '''' ''a'' Copying) = demo_reader [''a''] ''z'' ''a'' Closing"
    by (simp add: flush_gzip_def demo_reader_def demo_gz_def)
  with stream_next [OF 3 flush] b have 4: "?R \<lparr>sm_layer = ?l, sm_reader = Some (demo_reader [''a''] ''z'' ''a'' Closing)\<rparr>"
    by (simp add: demo_reader_def)
  from stream_next [OF 4 read_some [of _ 1]] have 5: "?R \<lparr>sm_layer = ?l, sm_reader = Some (demo_reader [''a''] '''' ''az'' Closing)\<rparr>"
    by (simp add: demo_reader_def)
  have "compressedReader_Close (demo_reader [''a''] '''' ''az'' Closing) ?l = (None, close_layer (demo_reader [''a''] '''' ''az'' Closing) ?l)"
    by (simp add: compressedReader_Close_def b)
  from stream_next [OF 5 finish [OF _ _ _ this]] show ?thesis by (simp add: demo_reader_def)
qed

theorem stream_methods_witness:
  "\<exists>s. stream_reachable demo_gz demo_stream s \<and> stream_Digest (sm_layer s) = Inr (sha ''az'') \<and> stream_DiffID (sm_layer s) = Inr (sha ''a'')"
proof -
  let ?s = "\<lparr>sm_layer = close_layer (demo_reader [''a''] '''' ''az'' Closing) (demo_stream\<lparr>sl_blob := []\<rparr>), sm_reader = Some (demo_reader [''a''] '''' ''az'' (Finished None))\<rparr>"
  have c: "sl_consumed (sm_layer ?s)" by (simp add: close_layer_def)
  have "sl_blob demo_stream = [ReadEOF ''a'']" "cr_taken (demo_reader [''a''] '''' ''az'' (Finished None)) = ''az''"
    by (simp_all add: demo_stream_def stream_NewLayer_def demo_reader_def)
  with stream_methods [OF demo_gz_ok demo_stream_fresh demo_stream_run] c demo_stream_run show ?thesis
    by (intro exI [of _ ?s]) auto
qed

theorem stream_terminates_witness:
  "wf {(s', s). stream_reachable demo_gz demo_stream s \<and> stream_step demo_gz s s' \<and> s' \<noteq> s}"
  using stream_terminates [OF demo_gz_ok demo_stream_fresh] by (simp add: demo_stream_def stream_NewLayer_def gzip_BestSpeed_def)

end
