(* ===== verification/Cache.thy ===== *)
theory Cache
  imports Go_Files Tarball_Layer
begin

text \<open>
  pkg/v1/cache: cache.go, an image whose layers come from a cache; fs.go, a cache in a directory of
  files that are named by hashes and are filled when a layer is read; ro.go, a cache that is only read.
  A call that changes the files takes and returns them; logging is left out.
\<close>

section \<open>cache.go: the interface\<close>

text \<open>
  What a cache gives back: a layer, or one of a file system cache that writes to its file what is read
  from the layer it wraps.
\<close>

datatype cache_layer =
    PlainLayer layer
  | CachingLayer (cg_layer: layer) (cg_path: string) (cg_digest: v1_hash) (cg_diffID: v1_hash)

fun cached_content :: "cache_layer \<Rightarrow> layer" where
  "cached_content (PlainLayer l) = l"
| "cached_content (CachingLayer l _ _ _) = l"

record 's layer_cache =
  ca_Put :: "layer \<Rightarrow> 's \<Rightarrow> cache_layer res \<times> 's"
  ca_Get :: "v1_hash \<Rightarrow> 's \<Rightarrow> cache_layer res \<times> 's"
  ca_Delete :: "v1_hash \<Rightarrow> 's \<Rightarrow> go_error option \<times> 's"

section \<open>cache.go: the image\<close>

text \<open>One round of the loop: the layers that it appends.\<close>

definition cache_round :: "'s layer_cache \<Rightarrow> layer \<Rightarrow> 's \<Rightarrow> cache_layer list res \<times> 's" where
  "cache_round c l s =
     (case l_Digest l of
        Inl e \<Rightarrow> (Inl e, s)
      | Inr digest \<Rightarrow>
          (case ca_Get c digest s of
             (Inr cl, s1) \<Rightarrow> (Inr [cl], s1)
           | (Inl e, s1) \<Rightarrow>
               if e \<noteq> ErrCacheNotFound then (Inl e, s1)
               else
                 (case l_DiffID l of
                    Inl e \<Rightarrow> (Inl e, s1)
                  | Inr diffID \<Rightarrow>
                      (case ca_Get c diffID s1 of
                         (r, s2) \<Rightarrow>
                           (case r of
                              Inl e \<Rightarrow>
                                if e \<noteq> ErrCacheNotFound then (Inl e, s2)
                                else (case ca_Put c l s2 of (r', s3) \<Rightarrow> (bnd r' (\<lambda>p. Inr [p]), s3))
                            | Inr cl \<Rightarrow> (case ca_Put c l s2 of (r', s3) \<Rightarrow> (bnd r' (\<lambda>p. Inr [cl, p]), s3)))))))"

fun cache_rounds :: "'s layer_cache \<Rightarrow> layer list \<Rightarrow> cache_layer list \<Rightarrow> 's \<Rightarrow> cache_layer list res \<times> 's" where
  "cache_rounds c [] out s = (Inr out, s)"
| "cache_rounds c (l # ls) out s =
     (case cache_round c l s of
        (Inl e, s1) \<Rightarrow> (Inl e, s1)
      | (Inr new, s1) \<Rightarrow> cache_rounds c ls (out @ new) s1)"

definition cache_Layers :: "'s layer_cache \<Rightarrow> image \<Rightarrow> 's \<Rightarrow> cache_layer list res \<times> 's" where
  "cache_Layers c i s = (case i_Layers i of Inl e \<Rightarrow> (Inl e, s) | Inr ls \<Rightarrow> cache_rounds c ls [] s)"

definition get_or_put :: "'s layer_cache \<Rightarrow> layer res \<Rightarrow> v1_hash \<Rightarrow> 's \<Rightarrow> cache_layer res \<times> 's" where
  "get_or_put c inner h s =
     (case ca_Get c h s of
        (Inr l, s1) \<Rightarrow> (Inr l, s1)
      | (Inl e, s1) \<Rightarrow>
          if e = ErrCacheNotFound then (case inner of Inl e \<Rightarrow> (Inl e, s1) | Inr l \<Rightarrow> ca_Put c l s1)
          else (Inl e, s1))"

definition cache_LayerByDigest :: "'s layer_cache \<Rightarrow> image \<Rightarrow> v1_hash \<Rightarrow> 's \<Rightarrow> cache_layer res \<times> 's" where
  "cache_LayerByDigest c i h = get_or_put c (i_LayerByDigest i h) h"

definition cache_LayerByDiffID :: "'s layer_cache \<Rightarrow> image \<Rightarrow> v1_hash \<Rightarrow> 's \<Rightarrow> cache_layer res \<times> 's" where
  "cache_LayerByDiffID c i h = get_or_put c (i_LayerByDiffID i h) h"

section \<open>ro.go\<close>

definition cache_ReadOnly :: "'s layer_cache \<Rightarrow> 's layer_cache" where
  "cache_ReadOnly c = c\<lparr>ca_Put := (\<lambda>l s. (Inr (PlainLayer l), s)), ca_Delete := (\<lambda>h s. (None, s))\<rparr>"

section \<open>fs.go\<close>

definition cachepath :: "string \<Rightarrow> v1_hash \<Rightarrow> string" where
  "cachepath path h = path_join [path, Hash_String h]"

definition file_opener :: "file_system \<Rightarrow> string \<Rightarrow> opener" where
  "file_opener fs p = bnd (os_ReadFile fs p) bytes_opener"

definition fscache_Put :: "string \<Rightarrow> layer \<Rightarrow> file_system \<Rightarrow> cache_layer res \<times> file_system" where
  "fscache_Put path l fs = (bnd (l_Digest l) (\<lambda>digest. bnd (l_DiffID l) (\<lambda>diffID. Inr (CachingLayer l path digest diffID))), fs)"

definition fscache_Delete :: "string \<Rightarrow> v1_hash \<Rightarrow> file_system \<Rightarrow> go_error option \<times> file_system" where
  "fscache_Delete path h fs =
     (case os_Remove fs (cachepath path h) of
        (Some e, fs1) \<Rightarrow> (Some (if e = ErrNotExist then ErrCacheNotFound else e), fs1)
      | (None, fs1) \<Rightarrow> (None, fs1))"

text \<open>The layer of a file has its digests from when it was got.\<close>

definition fscache_Get :: "codec \<Rightarrow> string \<Rightarrow> v1_hash \<Rightarrow> file_system \<Rightarrow> cache_layer res \<times> file_system" where
  "fscache_Get E path h fs =
     (case LayerFromFile E (file_opener fs) (cachepath path h) [] of
        Inr l \<Rightarrow> (Inr (PlainLayer (tarball_layer_iface l)), fs)
      | Inl e \<Rightarrow>
          if e = ErrNotExist then (Inl ErrCacheNotFound, fs)
          else if e = ErrUnexpectedEOF then
            (case fscache_Delete path h fs of
               (Some e', fs1) \<Rightarrow> (Inl e', fs1)
             | (None, fs1) \<Rightarrow> (Inl ErrCacheNotFound, fs1))
          else (Inl e, fs))"

definition NewFilesystemCache :: "codec \<Rightarrow> string \<Rightarrow> file_system layer_cache" where
  "NewFilesystemCache E path =
     \<lparr>ca_Put = fscache_Put path, ca_Get = fscache_Get E path, ca_Delete = fscache_Delete path\<rparr>"

definition cache_create :: "string \<Rightarrow> v1_hash \<Rightarrow> file_system \<Rightarrow> go_error option \<times> file_system" where
  "cache_create path h fs =
     (case os_MkdirAll fs path of (Some e, fs1) \<Rightarrow> (Some e, fs1) | (None, fs1) \<Rightarrow> os_Create fs1 (cachepath path h))"

text \<open>
  Opening a caching layer creates the file; reading the first n bytes of its content, through the
  TeeReader, writes them to the file.
\<close>

definition cache_tee :: "string \<Rightarrow> v1_hash \<Rightarrow> bytes res \<Rightarrow> nat \<Rightarrow> file_system \<Rightarrow> bytes res \<times> file_system" where
  "cache_tee path h rc n fs =
     (case cache_create path h fs of
        (Some e, fs1) \<Rightarrow> (Inl e, fs1)
      | (None, fs1) \<Rightarrow>
          (case rc of
             Inl e \<Rightarrow> (Inl e, fs1)
           | Inr b \<Rightarrow>
               (case os_WriteFile fs1 (cachepath path h) (take n b) of
                  (Some e, fs2) \<Rightarrow> (Inl e, fs2)
                | (None, fs2) \<Rightarrow> (Inr (take n b), fs2))))"

definition cache_Compressed :: "cache_layer \<Rightarrow> nat \<Rightarrow> file_system \<Rightarrow> bytes res \<times> file_system" where
  "cache_Compressed cl n fs =
     (case cl of
        PlainLayer l \<Rightarrow> (bnd (l_Compressed l) (\<lambda>b. Inr (take n b)), fs)
      | CachingLayer l path digest diffID \<Rightarrow> cache_tee path digest (l_Compressed l) n fs)"

definition cache_Uncompressed :: "cache_layer \<Rightarrow> nat \<Rightarrow> file_system \<Rightarrow> bytes res \<times> file_system" where
  "cache_Uncompressed cl n fs =
     (case cl of
        PlainLayer l \<Rightarrow> (bnd (l_Uncompressed l) (\<lambda>b. Inr (take n b)), fs)
      | CachingLayer l path digest diffID \<Rightarrow> cache_tee path diffID (l_Uncompressed l) n fs)"

section \<open>fs.go: closing\<close>

text \<open>Every Close method is called, whatever the others return; the error is the first one.\<close>

fun close_all :: "('s \<Rightarrow> go_error option \<times> 's) list \<Rightarrow> go_error option \<Rightarrow> 's \<Rightarrow> go_error option \<times> 's" where
  "close_all [] err s = (err, s)"
| "close_all (c # cs) err s =
     (case c s of (lastErr, s1) \<Rightarrow> close_all cs (case err of None \<Rightarrow> lastErr | Some e \<Rightarrow> Some e) s1)"

definition readcloser_Close :: "('s \<Rightarrow> go_error option \<times> 's) list \<Rightarrow> 's \<Rightarrow> go_error option \<times> 's" where
  "readcloser_Close closes s = close_all closes None s"

text \<open>The state is the one after all of the calls, in their order.\<close>

lemma close_all_state: "snd (close_all cs err s) = foldl (\<lambda>s c. snd (c s)) s cs"
  by (induction cs arbitrary: err s) (auto split: prod.splits)

lemma close_all_keeps: "fst (close_all cs (Some e) s) = Some e"
  by (induction cs arbitrary: s) (auto split: prod.splits)

lemma readcloser_first_error:
  "fst (readcloser_Close (c # cs) s) = (case c s of (Some e, _) \<Rightarrow> Some e | (None, s1) \<Rightarrow> fst (readcloser_Close cs s1))"
  by (auto simp: readcloser_Close_def close_all_keeps split: prod.splits option.splits)

end
