(* ===== verification/Cache_Laws.thy ===== *)
theory Cache_Laws
  imports Cache
begin

text \<open>
  What caches promise to the image that uses them, and that the file system cache keeps it: what is
  got has the hash that is asked for, reading a layer to its end fills the cache, and what happens when
  it is not read to its end.
\<close>

section \<open>What a cache promises\<close>

definition cache_hit :: "codec \<Rightarrow> v1_hash \<Rightarrow> cache_layer \<Rightarrow> bool" where
  "cache_hit E h cl \<longleftrightarrow> wf_layer E (cached_content cl) \<and>
     (l_Digest (cached_content cl) = Inr h \<or> l_DiffID (cached_content cl) = Inr h)"

text \<open>What one round of Layers appends for a layer, by what the cache has.\<close>

definition round_view :: "codec \<Rightarrow> (v1_hash \<Rightarrow> bool) \<Rightarrow> layer \<Rightarrow> cache_layer list \<Rightarrow> bool" where
  "round_view E has l new \<longleftrightarrow>
     (\<exists>d f. l_Digest l = Inr d \<and> l_DiffID l = Inr f \<and>
        (if has d then \<exists>hit. new = [hit] \<and> cache_hit E d hit
         else if has f then \<exists>hit cl. new = [hit, cl] \<and> cache_hit E f hit \<and> cached_content cl = l
         else \<exists>cl. new = [cl] \<and> cached_content cl = l))"

text \<open>
  The interface that the cached image relies on, for caches that are filled when a layer is read and not
  when it is put.  In a good state a cache has a layer for a hash or not: it gives back a well-formed
  layer with this digest or diff id, or finds nothing.  Getting and putting do not change what it has, and
  what is put comes back as a layer of the same content.
\<close>

locale lazy_cache =
  fixes c :: "'s layer_cache" and E :: codec and good :: "'s \<Rightarrow> bool" and has :: "'s \<Rightarrow> v1_hash \<Rightarrow> bool"
  assumes get: "good s \<Longrightarrow> wf_hash h \<Longrightarrow> \<exists>s'. good s' \<and> has s' = has s \<and>
      (if has s h then \<exists>cl. ca_Get c h s = (Inr cl, s') \<and> cache_hit E h cl else ca_Get c h s = (Inl ErrCacheNotFound, s'))"
    and put: "good s \<Longrightarrow> wf_layer E l \<Longrightarrow>
      \<exists>cl s'. good s' \<and> has s' = has s \<and> ca_Put c l s = (Inr cl, s') \<and> cached_content cl = l"
begin

lemma round_ok:
  assumes "good s" and "wf_layer E l"
  shows "\<exists>new s'. cache_round c l s = (Inr new, s') \<and> good s' \<and> has s' = has s \<and> round_view E (has s) l new"
proof -
  from assms(2) obtain b u where l: "l_Digest l = Inr (sha b)" "l_DiffID l = Inr (sha u)" by (elim wf_layerE)
  from get [OF assms(1), of "sha b"] obtain s1 where s1: "good s1" "has s1 = has s"
    "if has s (sha b) then \<exists>cl. ca_Get c (sha b) s = (Inr cl, s1) \<and> cache_hit E (sha b) cl
     else ca_Get c (sha b) s = (Inl ErrCacheNotFound, s1)" by auto
  show ?thesis
  proof (cases "has s (sha b)")
    case True
    with s1 l show ?thesis by (auto simp: cache_round_def round_view_def)
  next
    case False
    from get [OF s1(1), of "sha u"] obtain s2 where s2: "good s2" "has s2 = has s"
      "if has s (sha u) then \<exists>cl. ca_Get c (sha u) s1 = (Inr cl, s2) \<and> cache_hit E (sha u) cl
       else ca_Get c (sha u) s1 = (Inl ErrCacheNotFound, s2)" using s1(2) by auto
    from put [OF s2(1) assms(2)] obtain cl s3 where
      p: "good s3" "has s3 = has s" "ca_Put c l s2 = (Inr cl, s3)" "cached_content cl = l" using s2(2) by auto
    show ?thesis
      using False s1(3) s2(3) p l by (cases "has s (sha u)") (auto simp: cache_round_def round_view_def)
  qed
qed

lemma rounds_ok:
  "good s \<Longrightarrow> list_all (wf_layer E) ls \<Longrightarrow>
     \<exists>news s'. cache_rounds c ls out s = (Inr (out @ concat news), s') \<and> good s' \<and> has s' = has s \<and>
       list_all2 (round_view E (has s)) ls news"
proof (induction ls arbitrary: out s)
  case (Cons l ls)
  then obtain new s1 where r: "cache_round c l s = (Inr new, s1)" "good s1" "has s1 = has s" "round_view E (has s) l new"
    using round_ok [of s l] by auto
  with Cons.IH [OF r(2), of "out @ new"] Cons.prems obtain news s' where
    "cache_rounds c ls (out @ new) s1 = (Inr ((out @ new) @ concat news), s')" "good s'" "has s' = has s"
    "list_all2 (round_view E (has s)) ls news" by auto
  with r show ?case by (intro exI [of _ "new # news"] exI [of _ s']) simp
qed simp

lemma Layers_ok:
  assumes "good s" and "i_Layers i = Inr ls" and "list_all (wf_layer E) ls"
  shows "\<exists>news s'. cache_Layers c i s = (Inr (concat news), s') \<and> good s' \<and> has s' = has s \<and>
    list_all2 (round_view E (has s)) ls news"
  using rounds_ok [OF assms(1,3), of "[]"] assms(2) by (auto simp: cache_Layers_def)

lemma get_or_put_ok:
  assumes "good s" and "wf_hash h" and "inner = Inr l" and "wf_layer E l"
  shows "\<exists>cl s'. get_or_put c inner h s = (Inr cl, s') \<and> good s' \<and> (if has s h then cache_hit E h cl else cached_content cl = l)"
proof -
  from get [OF assms(1,2)] obtain s1 where s1: "good s1"
    "if has s h then \<exists>cl. ca_Get c h s = (Inr cl, s1) \<and> cache_hit E h cl else ca_Get c h s = (Inl ErrCacheNotFound, s1)" by blast
  from put [OF s1(1) assms(4)] obtain cl s2 where "good s2" "ca_Put c l s1 = (Inr cl, s2)" "cached_content cl = l" by blast
  with s1 assms(3) show ?thesis by (cases "has s h") (auto simp: get_or_put_def)
qed

text \<open>A cache that is only read keeps the contract.\<close>

lemma read_only: "lazy_cache (cache_ReadOnly c) E good has"
proof
  have same: "ca_Get (cache_ReadOnly c) = ca_Get c" by (simp add: cache_ReadOnly_def)
  fix s h assume "good s" "wf_hash h"
  from get [OF this] show "\<exists>s'. good s' \<and> has s' = has s \<and>
      (if has s h then \<exists>cl. ca_Get (cache_ReadOnly c) h s = (Inr cl, s') \<and> cache_hit E h cl
       else ca_Get (cache_ReadOnly c) h s = (Inl ErrCacheNotFound, s'))" unfolding same .
qed (auto simp: cache_ReadOnly_def)

end

text \<open>Where no layer is cached by its diff id only, the layers are the same, one for one.\<close>

definition same_by_digest :: "codec \<Rightarrow> layer \<Rightarrow> cache_layer \<Rightarrow> bool" where
  "same_by_digest E l cl \<longleftrightarrow> cached_content cl = l \<or> (\<exists>d. l_Digest l = Inr d \<and> cache_hit E d cl)"

definition only_uncompressed :: "(v1_hash \<Rightarrow> bool) \<Rightarrow> layer \<Rightarrow> bool" where
  "only_uncompressed has l =
     (case (l_Digest l, l_DiffID l) of (Inr d, Inr f) \<Rightarrow> \<not> has d \<and> has f | _ \<Rightarrow> False)"

lemma round_view_single: "round_view E has l new \<Longrightarrow> \<not> only_uncompressed has l \<Longrightarrow> \<exists>cl. new = [cl] \<and> same_by_digest E l cl"
  by (auto simp: round_view_def only_uncompressed_def same_by_digest_def split: if_splits)

lemma round_views_single:
  "list_all2 (round_view E has) ls news \<Longrightarrow> list_all (\<lambda>l. \<not> only_uncompressed has l) ls \<Longrightarrow>
     list_all2 (same_by_digest E) ls (concat news)"
proof (induction ls news rule: list_all2_induct)
  case (Cons l ls new news)
  with round_view_single [of E has l new] show ?case by auto
qed simp

lemma round_view_length:
  "round_view E has l new \<Longrightarrow> length new = (if only_uncompressed has l then 2 else 1)"
  by (auto simp: round_view_def only_uncompressed_def split: if_splits)

lemma round_views_length:
  "list_all2 (round_view E has) ls news \<Longrightarrow> length (concat news) = length ls + length (filter (only_uncompressed has) ls)"
  by (induction ls news rule: list_all2_induct) (auto simp: round_view_length)

section \<open>The file system cache\<close>

text \<open>A file of the cache, and the layer that LayerFromFile makes of it.\<close>

definition entry_key :: "string \<Rightarrow> v1_hash \<Rightarrow> string list" where
  "entry_key path h = path_key path @ [Hash_String h]"

definition file_layer :: "bytes \<Rightarrow> bytes \<Rightarrow> layer" where
  "file_layer c u =
     \<lparr>l_Digest = Inr (sha c), l_DiffID = Inr (sha u), l_Compressed = Inr c, l_Uncompressed = Inr u,
      l_Size = Inr (int (length c)), l_MediaType = Inr DockerLayer, l_Descriptor = None, l_UncompressedSize = None\<rparr>"

lemma LayerFromReader_file:
  "bnd (LayerFromReader E (Inr b) []) (\<lambda>l. Inr (tarball_layer_iface l)) =
     (if take 2 b = gzipMagicHeader then bnd (gunzip E b) (\<lambda>u. Inr (file_layer b u))
      else Inr (file_layer (gzip E gzip_BestSpeed b) b))"
  using IsGzipped_bytes [of b]
  by (cases "gunzip E b")
     (auto simp: LayerFromReader_def LayerFromOpener_def bytes_opener_def open_content_def Let_def tarball_layer_iface_def
      file_layer_def tl_Compressed_def computeDigest_def computeDiffID_def GunzipReadCloser_def GzipReadCloserLevel_def
      gzip_BestSpeed_def sha_def SHA256_def)

definition truncated :: "codec \<Rightarrow> bytes \<Rightarrow> bool" where
  "truncated E b \<longleftrightarrow> take 2 b = gzipMagicHeader \<and> gunzip E b = Inl ErrUnexpectedEOF"

definition complete :: "codec \<Rightarrow> v1_hash \<Rightarrow> bytes \<Rightarrow> bool" where
  "complete E h b \<longleftrightarrow> sha b = h \<and> (if take 2 b = gzipMagicHeader then is_ok (gunzip E b) else gzip_law E b)"

definition entry_good :: "codec \<Rightarrow> v1_hash \<Rightarrow> fs_node option \<Rightarrow> bool" where
  "entry_good E h n =
     (case n of None \<Rightarrow> True | Some FsDir \<Rightarrow> False | Some (FsFile b) \<Rightarrow> truncated E b \<or> complete E h b)"

text \<open>
  A good cache: its directory can be made, and every file in it that is named by a hash is a truncated
  gzip stream or has the content of this hash.
\<close>

definition cache_dir :: "string \<Rightarrow> file_system \<Rightarrow> bool" where
  "cache_dir path fs \<longleftrightarrow> path \<noteq> '''' \<and> fs_tree fs \<and> way_free fs (path_key path)"

definition fscache_good :: "codec \<Rightarrow> string \<Rightarrow> file_system \<Rightarrow> bool" where
  "fscache_good E path fs \<longleftrightarrow> cache_dir path fs \<and> (\<forall>h. wf_hash h \<longrightarrow> entry_good E h (fs (entry_key path h)))"

definition fscache_has :: "codec \<Rightarrow> string \<Rightarrow> file_system \<Rightarrow> v1_hash \<Rightarrow> bool" where
  "fscache_has E path fs h \<longleftrightarrow> wf_hash h \<and> (case fs (entry_key path h) of Some (FsFile b) \<Rightarrow> complete E h b | _ \<Rightarrow> False)"

lemma cachepath_key:
  assumes "wf_hash h" and "path \<noteq> ''''"
  shows "path_key (cachepath path h) = entry_key path h"
  using path_key_names [of "[Hash_String h]" path] Hash_String_name [OF assms(1)] assms(2) by (simp add: cachepath_def entry_key_def)

lemma entry_key_eq: "wf_hash h \<Longrightarrow> wf_hash g \<Longrightarrow> entry_key path h = entry_key path g \<longleftrightarrow> h = g"
  by (auto simp: entry_key_def dest: Hash_String_inj)

lemma entry_key_root: "wf_hash h \<Longrightarrow> entry_key path h \<noteq> [''/'']"
  using Hash_String_name [of h] by (auto simp: entry_key_def normal_elem_def)

lemma way_free_missing: "way_free fs (pre @ es) \<Longrightarrow> walk_dirs fs pre es \<in> {None, Some ErrNotExist}"
proof (induction es arbitrary: pre)
  case (Cons e es)
  from Cons.prems have "node_at fs (pre @ [e]) \<in> {None, Some FsDir}" unfolding way_free_def by (metis append.assoc append_Cons append_Nil)
  with Cons.IH [of "pre @ [e]"] Cons.prems show ?case by auto
qed simp

text \<open>Looking an entry up sees what is there.\<close>

lemma cache_lookup:
  assumes "cache_dir path fs" and "wf_hash h"
  shows "os_lookup fs (cachepath path h) = (case fs (entry_key path h) of None \<Rightarrow> Inl ErrNotExist | Some n \<Rightarrow> Inr n)"
proof (cases "walk_dirs fs [] (path_key path)")
  case None
  then have "dir_at fs (path_key path)" using walk_dirs_dir [of fs "[]"] by simp
  then show ?thesis
    using lookup_dir [of fs "path_key path" "cachepath path h" "Hash_String h"] cachepath_key [OF assms(2), of path]
      entry_key_root [OF assms(2), of path] assms(1)
    by (simp add: entry_key_def cache_dir_def)
next
  case (Some e)
  then have "\<not> dir_at fs (path_key path)" using walk_dirs_None [of fs "[]" "path_key path"] by auto
  then have no: "fs (entry_key path h) = None"
    using assms(1) fs_tree_dir [of fs "path_key path"] fs_treeD [of fs "path_key path" "Hash_String h"]
    by (cases "fs (entry_key path h)") (auto simp: cache_dir_def entry_key_def)
  have "cachepath path h \<noteq> ''''"
    using cachepath_key [OF assms(2), of path] assms(1) by (auto simp: cache_dir_def entry_key_def)
  with no Some way_free_missing [of fs "[]" "path_key path"] assms(1) cachepath_key [OF assms(2), of path]
  show ?thesis by (auto simp: os_lookup_def cache_dir_def entry_key_def)
qed

lemma fscache_good_dir: "fscache_good E path fs \<Longrightarrow> cache_dir path fs"
  by (simp add: fscache_good_def)

lemma file_layer_wf: "gunzip E c = Inr u \<Longrightarrow> wf_layer E (file_layer c u)"
  by (simp add: wf_layer_def file_layer_def)

lemma complete_hit:
  assumes "complete E h b"
  shows "\<exists>l. LayerFromReader E (Inr b) [] = Inr l \<and> cache_hit E h (PlainLayer (tarball_layer_iface l))"
proof -
  have "\<exists>c u. bnd (LayerFromReader E (Inr b) []) (\<lambda>l. Inr (tarball_layer_iface l)) = Inr (file_layer c u) \<and>
      gunzip E c = Inr u \<and> (sha c = h \<or> sha u = h)"
    using assms gzip_lawD [of E b gzip_BestSpeed]
    by (auto simp: LayerFromReader_file complete_def is_ok_iff gzip_BestSpeed_def split: if_splits)
  then show ?thesis by (auto simp: cache_hit_def file_layer_wf) (auto simp: file_layer_def)
qed

lemma truncated_eof: "truncated E b \<Longrightarrow> LayerFromReader E (Inr b) [] = Inl ErrUnexpectedEOF"
  using LayerFromReader_file [of E b] by (cases "LayerFromReader E (Inr b) []") (auto simp: truncated_def)

text \<open>Removing an entry keeps the rest.\<close>

lemma remove_entry_good:
  assumes "fscache_good E path fs" and "wf_hash h" and "fs (entry_key path h) = Some (FsFile b)"
  shows "fscache_good E path (fs(entry_key path h := None))"
proof -
  let ?k = "entry_key path h"
  have leaf: "fs (?k @ [e]) = None" for e
    using assms fs_treeD [of fs ?k e] entry_key_root [OF assms(2), of path]
    by (cases "fs (?k @ [e])") (auto simp: fscache_good_def cache_dir_def node_at_def entry_key_def)
  have "fs_tree (fs(?k := None))"
    unfolding fs_tree_def
  proof (intro allI impI)
    fix k e assume a: "(fs(?k := None)) (k @ [e]) \<noteq> None"
    then obtain n where n: "fs (k @ [e]) = Some n" by (auto split: if_splits)
    with leaf have "k \<noteq> ?k" by auto
    moreover have "node_at fs k = Some FsDir" using fs_treeD [of fs k e n] n assms(1) by (simp add: fscache_good_def cache_dir_def)
    ultimately show "node_at (fs(?k := None)) k = Some FsDir" by (auto simp: node_at_def)
  qed
  moreover have "way_free (fs(?k := None)) (path_key path)"
    using assms(1) by (auto simp: fscache_good_def cache_dir_def way_free_def node_at_def)
  ultimately show ?thesis using assms(1) by (auto simp: fscache_good_def cache_dir_def entry_good_def)
qed

text \<open>Getting: a hit, or nothing and then a truncated file is gone.\<close>

lemma fscache_Get_cases:
  assumes "fscache_good E path fs" and "wf_hash h"
  shows "fscache_Get E path h fs =
    (case fs (entry_key path h) of
       Some (FsFile b) \<Rightarrow>
         (if truncated E b then (Inl ErrCacheNotFound, fs(entry_key path h := None))
          else (bnd (LayerFromReader E (Inr b) []) (\<lambda>l. Inr (PlainLayer (tarball_layer_iface l))), fs))
     | _ \<Rightarrow> (Inl ErrCacheNotFound, fs))"
proof (cases "fs (entry_key path h)")
  case None
  with cache_lookup [OF fscache_good_dir [OF assms(1)] assms(2)] show ?thesis
    by (simp add: fscache_Get_def LayerFromFile_def LayerFromOpener_def file_opener_def os_ReadFile_def)
next
  case (Some n)
  with assms have "entry_good E h (Some n)" unfolding fscache_good_def by metis
  then obtain b where b: "n = FsFile b" "truncated E b \<or> complete E h b" by (cases n) (auto simp: entry_good_def)
  have rd: "LayerFromFile E (file_opener fs) (cachepath path h) [] = LayerFromReader E (Inr b) []"
    using cache_lookup [OF fscache_good_dir [OF assms(1)] assms(2)] Some b(1) by (simp add: LayerFromFile_def file_opener_def os_ReadFile_def LayerFromReader_def)
  have rm: "fscache_Delete path h fs = (None, fs(entry_key path h := None))"
    using cache_lookup [OF fscache_good_dir [OF assms(1)] assms(2)] Some b(1) cachepath_key [OF assms(2), of path] assms(1)
    by (simp add: fscache_Delete_def os_Remove_def fscache_good_def cache_dir_def)
  show ?thesis
  proof (cases "truncated E b")
    case True
    with rd rm Some b(1) truncated_eof [OF True] show ?thesis by (simp add: fscache_Get_def)
  next
    case False
    with b(2) complete_hit [of E h b] obtain l where "LayerFromReader E (Inr b) [] = Inr l" by auto
    with rd Some b(1) False show ?thesis by (simp add: fscache_Get_def)
  qed
qed

lemma complete_not_truncated: "complete E h b \<Longrightarrow> \<not> truncated E b"
  by (auto simp: complete_def truncated_def)

lemma fscache_get_law:
  assumes "fscache_good E path fs" and "wf_hash h"
  shows "\<exists>fs'. fscache_good E path fs' \<and> fscache_has E path fs' = fscache_has E path fs \<and>
    (if fscache_has E path fs h then \<exists>cl. fscache_Get E path h fs = (Inr cl, fs') \<and> cache_hit E h cl
     else fscache_Get E path h fs = (Inl ErrCacheNotFound, fs'))"
proof -
  note cs = fscache_Get_cases [OF assms]
  consider (none) "fs (entry_key path h) = None" | (trunc) b where "fs (entry_key path h) = Some (FsFile b)" "truncated E b"
    | (full) b where "fs (entry_key path h) = Some (FsFile b)" "complete E h b"
  proof -
    have "entry_good E h (fs (entry_key path h))" using assms unfolding fscache_good_def by blast
    with that show thesis by (auto simp: entry_good_def split: option.splits fs_node.splits)
  qed
  then show ?thesis
  proof cases
    case none
    with cs assms show ?thesis by (auto simp: fscache_has_def)
  next
    case trunc
    let ?fs = "fs(entry_key path h := None)"
    have no: "\<not> complete E h b" using trunc(2) complete_not_truncated by blast
    have has: "fscache_has E path ?fs g = fscache_has E path fs g" for g
      using trunc no entry_key_eq [OF _ assms(2), of g path] by (cases "g = h") (auto simp: fscache_has_def)
    have "\<not> fscache_has E path fs h" using trunc no by (simp add: fscache_has_def)
    moreover have "fscache_has E path ?fs = fscache_has E path fs" using has by blast
    ultimately show ?thesis using remove_entry_good [OF assms trunc(1)] cs trunc by (intro exI [of _ ?fs]) simp
  next
    case full
    with complete_hit [OF full(2)] cs assms complete_not_truncated [OF full(2)] show ?thesis
      by (intro exI [of _ fs]) (auto simp: fscache_has_def)
  qed
qed

interpretation fs_cache: lazy_cache "NewFilesystemCache E path" E "fscache_good E path" "fscache_has E path" for E path
proof
  have same: "ca_Get (NewFilesystemCache E path) = fscache_Get E path" by (simp add: NewFilesystemCache_def)
  fix fs h assume "fscache_good E path fs" "wf_hash h"
  from fscache_get_law [OF this] show "\<exists>s'. fscache_good E path s' \<and> fscache_has E path s' = fscache_has E path fs \<and>
      (if fscache_has E path fs h then \<exists>cl. ca_Get (NewFilesystemCache E path) h fs = (Inr cl, s') \<and> cache_hit E h cl
       else ca_Get (NewFilesystemCache E path) h fs = (Inl ErrCacheNotFound, s'))"
    unfolding same .
qed (auto simp: NewFilesystemCache_def fscache_Put_def elim!: wf_layerE)

interpretation ro_cache: lazy_cache "cache_ReadOnly (NewFilesystemCache E path)" E "fscache_good E path" "fscache_has E path" for E path
  by (rule fs_cache.read_only)

section \<open>The cached image\<close>

lemma cached_image:
  assumes "fscache_good E path fs" and "i_Layers i = Inr ls" and "list_all (wf_layer E) ls"
  shows "\<exists>out fs'. cache_Layers (NewFilesystemCache E path) i fs = (Inr out, fs') \<and>
    fscache_good E path fs' \<and> fscache_has E path fs' = fscache_has E path fs \<and>
    length out = length ls + length (filter (only_uncompressed (fscache_has E path fs)) ls) \<and>
    (list_all (\<lambda>l. \<not> only_uncompressed (fscache_has E path fs) l) ls \<longrightarrow> list_all2 (same_by_digest E) ls out)"
proof -
  from fs_cache.Layers_ok [OF assms] obtain news fs' where r:
    "cache_Layers (NewFilesystemCache E path) i fs = (Inr (concat news), fs')" "fscache_good E path fs'"
    "fscache_has E path fs' = fscache_has E path fs" "list_all2 (round_view E (fscache_has E path fs)) ls news" by auto
  with round_views_length [OF r(4)] round_views_single [OF r(4)] show ?thesis by (intro exI [of _ "concat news"] exI [of _ fs']) simp
qed

text \<open>
  C22. Over a file system cache whose files are complete or truncated streams, Layers of a cached image
  with well-formed layers succeeds, leaves the cache good and with what it had, and gives back one layer
  for each layer, itself or a well-formed one of the same digest, unless a layer is cached in uncompressed
  form only: each of these adds one more layer to the list.
\<close>

theorem cache_Layers_view:
  assumes "fscache_good E path fs" and "i_Layers i = Inr ls" and "list_all (wf_layer E) ls"
  shows "\<exists>out fs'. cache_Layers (NewFilesystemCache E path) i fs = (Inr out, fs') \<and>
    fscache_good E path fs' \<and> fscache_has E path fs' = fscache_has E path fs \<and>
    length out = length ls + length (filter (only_uncompressed (fscache_has E path fs)) ls) \<and>
    (list_all (\<lambda>l. \<not> only_uncompressed (fscache_has E path fs) l) ls \<longrightarrow> list_all2 (same_by_digest E) ls out)"
  by (rule cached_image [OF assms])

section \<open>Filling the cache\<close>

text \<open>Reading through the TeeReader: the entry has what was read, the others are as they were.\<close>

lemma cache_tee_spec:
  assumes "fscache_good E path fs" and "wf_hash h"
  shows "\<exists>fs'. cache_tee path h (Inr b) n fs = (Inr (take n b), fs') \<and> fs_tree fs' \<and> way_free fs' (path_key path) \<and>
    fs' (entry_key path h) = Some (FsFile (take n b)) \<and> (\<forall>g. wf_hash g \<longrightarrow> g \<noteq> h \<longrightarrow> fs' (entry_key path g) = fs (entry_key path g))"
proof -
  have g: "path \<noteq> ''''" "fs_tree fs" "way_free fs (path_key path)" "entry_good E h (fs (entry_key path h))"
    using assms by (auto simp: fscache_good_def cache_dir_def)
  from MkdirAll_spec [OF g(1-3)] obtain fs1 where fs1: "os_MkdirAll fs path = (None, fs1)" "dirs_added fs fs1" "fs_tree fs1"
    "dir_at fs1 (path_key path)" "\<forall>k. fs1 k \<noteq> fs k \<longrightarrow> (\<exists>b. path_key path = k @ b)" by blast
  have same: "fs1 (entry_key path x) = fs (entry_key path x)" for x
    using fs1(5) by (metis append_assoc append_self_conv entry_key_def list.distinct(1) append_is_Nil_conv)
  let ?k = "entry_key path h"
  note pk = cachepath_key [OF assms(2) g(1)]
  have nd: "node_at fs1 ?k \<noteq> Some FsDir"
    using g(4) same [of h] entry_key_root [OF assms(2), of path]
    by (auto simp: node_at_def entry_good_def) (auto simp: entry_key_def)
  have w1: "os_Create fs1 (cachepath path h) = (None, fs1(?k \<mapsto> FsFile []))" "fs_tree (fs1(?k \<mapsto> FsFile []))"
    using WriteFile_spec [OF fs1(4) _ _ fs1(3), of "cachepath path h" "Hash_String h" "[]"] pk nd
    by (simp_all add: os_Create_def entry_key_def)
  have dir: "dir_at (fs1(?k \<mapsto> FsFile [])) (path_key path)" using dir_at_update [OF fs1(4)] by (simp add: entry_key_def)
  let ?fs2 = "fs1(?k \<mapsto> FsFile (take n b))"
  have "node_at (fs1(?k \<mapsto> FsFile [])) ?k \<noteq> Some FsDir"
    using entry_key_root [OF assms(2), of path] by (auto simp: node_at_def entry_key_def)
  with WriteFile_spec [OF dir _ _ w1(2), of "cachepath path h" "Hash_String h" "take n b"] pk
  have w2: "os_WriteFile (fs1(?k \<mapsto> FsFile [])) (cachepath path h) (take n b) = (None, ?fs2)" "fs_tree ?fs2"
    by (simp_all add: entry_key_def)
  have "dir_at ?fs2 (path_key path)" using dir_at_update [OF fs1(4)] by (simp add: entry_key_def)
  then have "way_free ?fs2 (path_key path)" by (auto simp: dir_at_def way_free_def)
  moreover have "cache_tee path h (Inr b) n fs = (Inr (take n b), ?fs2)"
    using fs1(1) w1(1) w2(1) by (simp add: cache_tee_def cache_create_def)
  moreover have "\<forall>g. wf_hash g \<longrightarrow> g \<noteq> h \<longrightarrow> ?fs2 (entry_key path g) = fs (entry_key path g)"
    using same entry_key_eq [OF _ assms(2)] by auto
  ultimately show ?thesis using w2(2) by auto
qed

lemma cache_tee_good:
  assumes "fscache_good E path fs" and "wf_hash h" and "complete E h (take n b) \<or> truncated E (take n b)"
  shows "\<exists>fs'. cache_tee path h (Inr b) n fs = (Inr (take n b), fs') \<and> fscache_good E path fs' \<and>
    fs' (entry_key path h) = Some (FsFile (take n b)) \<and>
    (\<forall>g. fscache_has E path fs' g = (if g = h then complete E h (take n b) else fscache_has E path fs g))"
proof -
  from cache_tee_spec [OF assms(1,2), of b n] obtain fs' where
    fs': "cache_tee path h (Inr b) n fs = (Inr (take n b), fs')" "fs_tree fs'" "way_free fs' (path_key path)"
      "fs' (entry_key path h) = Some (FsFile (take n b))"
    and other: "\<forall>g. wf_hash g \<longrightarrow> g \<noteq> h \<longrightarrow> fs' (entry_key path g) = fs (entry_key path g)" by blast
  have "entry_good E g (fs' (entry_key path g))" if "wf_hash g" for g
    using that assms(1,3) fs'(4) other by (cases "g = h") (auto simp: fscache_good_def cache_dir_def entry_good_def)
  with fs'(2,3) assms(1) have "fscache_good E path fs'" by (simp add: fscache_good_def cache_dir_def)
  moreover have "fscache_has E path fs' g = (if g = h then complete E h (take n b) else fscache_has E path fs g)" for g
    using fs'(4) other assms(2) by (cases "wf_hash g") (auto simp: fscache_has_def)
  ultimately show ?thesis using fs'(1,4) by blast
qed

lemma cache_tee_Get:
  assumes "fscache_good E path fs" and "wf_hash h" and "fs (entry_key path h) = Some (FsFile b)" and "complete E h b"
  shows "fscache_Get E path h fs =
    (bnd (if take 2 b = gzipMagicHeader then bnd (gunzip E b) (\<lambda>u. Inr (file_layer b u)) else Inr (file_layer (gzip E gzip_BestSpeed b) b))
       (\<lambda>l. Inr (PlainLayer l)), fs)"
proof -
  have "bnd (LayerFromReader E (Inr b) []) (\<lambda>l. Inr (PlainLayer (tarball_layer_iface l))) =
    bnd (bnd (LayerFromReader E (Inr b) []) (\<lambda>l. Inr (tarball_layer_iface l))) (\<lambda>l. Inr (PlainLayer l))" by (simp add: bnd_assoc)
  with fscache_Get_cases [OF assms(1,2)] assms(3) complete_not_truncated [OF assms(4)] LayerFromReader_file [of E b]
  show ?thesis by simp
qed

lemma put_read_get_compressed:
  assumes "fscache_good E path fs" and "wf_layer E l" and "l_Compressed l = Inr c" and "l_Uncompressed l = Inr u"
    and "take 2 c = gzipMagicHeader" and "length c \<le> n \<or> truncated E (take n c)"
  shows "\<exists>cl fs'. fscache_Put path l fs = (Inr cl, fs) \<and> cache_Compressed cl n fs = (Inr (take n c), fs') \<and>
    fscache_good E path fs' \<and> (\<forall>h. fscache_has E path fs' h = (if h = sha c then length c \<le> n else fscache_has E path fs h)) \<and>
    (if length c \<le> n then fscache_Get E path (sha c) fs' = (Inr (PlainLayer (file_layer c u)), fs')
     else fst (fscache_Get E path (sha c) fs') = Inl ErrCacheNotFound)"
proof -
  from assms(2-4) have l: "l_Digest l = Inr (sha c)" "l_DiffID l = Inr (sha u)" "gunzip E c = Inr u" by (auto elim: wf_layerE)
  have full: "complete E (sha c) c" using assms(5) l(3) by (simp add: complete_def)
  have part: "complete E (sha c) (take n c) \<longleftrightarrow> length c \<le> n"
    using full assms(6) complete_not_truncated [of E "sha c" "take n c"] by (cases "length c \<le> n") auto
  from cache_tee_good [OF assms(1), of "sha c" n c] part assms(6) obtain fs' where
    fs': "cache_tee path (sha c) (Inr c) n fs = (Inr (take n c), fs')" "fscache_good E path fs'"
      "fs' (entry_key path (sha c)) = Some (FsFile (take n c))"
      "\<forall>g. fscache_has E path fs' g = (if g = sha c then complete E (sha c) (take n c) else fscache_has E path fs g)" by auto
  have get: "if length c \<le> n then fscache_Get E path (sha c) fs' = (Inr (PlainLayer (file_layer c u)), fs')
      else fst (fscache_Get E path (sha c) fs') = Inl ErrCacheNotFound"
  proof (cases "length c \<le> n")
    case True
    with cache_tee_Get [OF fs'(2) _ _ full] fs'(3) assms(5) l(3) show ?thesis by simp
  next
    case False
    with assms(6) fscache_Get_cases [OF fs'(2), of "sha c"] fs'(3) show ?thesis by simp
  qed
  have "fscache_Put path l fs = (Inr (CachingLayer l path (sha c) (sha u)), fs)" using l by (simp add: fscache_Put_def)
  moreover have "cache_Compressed (CachingLayer l path (sha c) (sha u)) n fs = (Inr (take n c), fs')"
    using fs'(1) assms(3) by (simp add: cache_Compressed_def)
  ultimately show ?thesis using fs'(2,4) part get by auto
qed

lemma put_read_get_uncompressed:
  assumes "fscache_good E path fs" and "wf_layer E l" and "l_Uncompressed l = Inr u"
    and "take 2 u \<noteq> gzipMagicHeader" and "gzip_law E u" and "length u \<le> n"
  shows "\<exists>cl fs'. fscache_Put path l fs = (Inr cl, fs) \<and> cache_Uncompressed cl n fs = (Inr u, fs') \<and>
    fscache_good E path fs' \<and> (\<forall>h. fscache_has E path fs' h = (h = sha u \<or> fscache_has E path fs h)) \<and>
    fscache_Get E path (sha u) fs' = (Inr (PlainLayer (file_layer (gzip E gzip_BestSpeed u) u)), fs')"
proof -
  from assms(2,3) obtain c where l: "l_Digest l = Inr (sha c)" "l_DiffID l = Inr (sha u)" by (auto elim: wf_layerE)
  have full: "complete E (sha u) u" using assms(4,5) by (simp add: complete_def)
  from cache_tee_good [OF assms(1), of "sha u" n u] full assms(6) obtain fs' where
    fs': "cache_tee path (sha u) (Inr u) n fs = (Inr u, fs')" "fscache_good E path fs'"
      "fs' (entry_key path (sha u)) = Some (FsFile u)"
      "\<forall>g. fscache_has E path fs' g = (if g = sha u then True else fscache_has E path fs g)" by auto
  have "fscache_Put path l fs = (Inr (CachingLayer l path (sha c) (sha u)), fs)" using l by (simp add: fscache_Put_def)
  moreover have "cache_Uncompressed (CachingLayer l path (sha c) (sha u)) n fs = (Inr u, fs')"
    using fs'(1) assms(3) by (simp add: cache_Uncompressed_def)
  ultimately show ?thesis using fs'(2,4) cache_tee_Get [OF fs'(2) _ fs'(3) full] assms(4) by auto
qed



section \<open>What is read in part\<close>

text \<open>
  A file that does not begin like a gzip stream is a layer of its own, whatever it is named.  So a layer
  that was opened and closed without reading is found again as the empty layer, and one that was read
  uncompressed in part as that part.
\<close>

lemma file_served:
  assumes "cache_dir path fs" and "wf_hash h" and "fs (entry_key path h) = Some (FsFile b)" and "take 2 b \<noteq> gzipMagicHeader"
  shows "fscache_Get E path h fs = (Inr (PlainLayer (file_layer (gzip E gzip_BestSpeed b) b)), fs)"
proof -
  have "LayerFromFile E (file_opener fs) (cachepath path h) [] = LayerFromReader E (Inr b) []"
    using cache_lookup [OF assms(1,2)] assms(3) by (simp add: LayerFromFile_def file_opener_def os_ReadFile_def LayerFromReader_def)
  moreover obtain l where "LayerFromReader E (Inr b) [] = Inr l" "tarball_layer_iface l = file_layer (gzip E gzip_BestSpeed b) b"
    using LayerFromReader_file [of E b] assms(4) by (cases "LayerFromReader E (Inr b) []") auto
  ultimately show ?thesis by (simp add: fscache_Get_def)
qed

lemma read_part_served:
  assumes "fscache_good E path fs" and "wf_hash h" and "take 2 (take n b) \<noteq> gzipMagicHeader"
  shows "\<exists>fs'. cache_tee path h (Inr b) n fs = (Inr (take n b), fs') \<and>
    fscache_Get E path h fs' = (Inr (PlainLayer (file_layer (gzip E gzip_BestSpeed (take n b)) (take n b))), fs')"
proof -
  from cache_tee_spec [OF assms(1,2), of b n] obtain fs' where
    fs': "cache_tee path h (Inr b) n fs = (Inr (take n b), fs')" "fs_tree fs'" "way_free fs' (path_key path)"
      "fs' (entry_key path h) = Some (FsFile (take n b))" by blast
  moreover have "cache_dir path fs'" using fs'(2,3) assms(1) by (simp add: cache_dir_def fscache_good_def)
  ultimately show ?thesis using file_served [OF _ assms(2) _ assms(3)] by blast
qed

lemma closed_unread_served:
  assumes "fscache_good E path fs" and "wf_layer E l"
  shows "\<exists>cl fs' h. fscache_Put path l fs = (Inr cl, fs) \<and> cache_Compressed cl 0 fs = (Inr [], fs') \<and> l_Digest l = Inr h \<and>
    fscache_Get E path h fs' = (Inr (PlainLayer (file_layer (gzip E gzip_BestSpeed []) [])), fs')"
proof -
  from assms(2) obtain c u where l: "l_Compressed l = Inr c" "l_Digest l = Inr (sha c)" "l_DiffID l = Inr (sha u)" by (elim wf_layerE)
  from read_part_served [OF assms(1), of "sha c" 0 c] obtain fs' where "cache_tee path (sha c) (Inr c) 0 fs = (Inr [], fs')"
    "fscache_Get E path (sha c) fs' = (Inr (PlainLayer (file_layer (gzip E gzip_BestSpeed []) [])), fs')"
    by (auto simp: gzipMagicHeader_def)
  with l show ?thesis
    by (intro exI [of _ "CachingLayer l path (sha c) (sha u)"] exI [of _ fs']) (simp add: fscache_Put_def cache_Compressed_def)
qed

section \<open>The hypotheses can hold\<close>

lemma empty_cache_good: "fscache_good E ''cache'' (\<lambda>_. None)" "fscache_has E ''cache'' (\<lambda>_. None) = (\<lambda>_. False)"
  by (auto simp: fscache_good_def cache_dir_def fscache_has_def entry_good_def fs_tree_def way_free_def node_at_def)

theorem cache_Layers_view_witness:
  "\<exists>out fs'. cache_Layers (NewFilesystemCache magic_codec ''cache'') ((empty_Image magic_codec)\<lparr>i_Layers :=
       Inr [file_layer (gzipMagicHeader @ ''a'') ''a'', file_layer (gzipMagicHeader @ ''b'') ''b'']\<rparr>) (\<lambda>_. None) = (Inr out, fs') \<and> length out = 2"
proof -
  let ?ls = "[file_layer (gzipMagicHeader @ ''a'') ''a'', file_layer (gzipMagicHeader @ ''b'') ''b'']"
  have "list_all (wf_layer magic_codec) ?ls"
    by (simp add: file_layer_wf magic_codec_def gzipMagicHeader_def)
  moreover have "i_Layers ((empty_Image magic_codec)\<lparr>i_Layers := Inr ?ls\<rparr>) = Inr ?ls" by simp
  ultimately obtain out fs' where
    "cache_Layers (NewFilesystemCache magic_codec ''cache'') ((empty_Image magic_codec)\<lparr>i_Layers := Inr ?ls\<rparr>) (\<lambda>_. None) = (Inr out, fs')"
    "length out = length ?ls + length (filter (only_uncompressed (fscache_has magic_codec ''cache'' (\<lambda>_. None))) ?ls)"
    using cache_Layers_view [OF empty_cache_good(1)] by blast
  then show ?thesis by (simp add: empty_cache_good(2) only_uncompressed_def file_layer_def)
qed


end
