(* ===== verification/Tarball_Image.thy ===== *)
theory Tarball_Image
  imports Go_Files V1_Image Name_Ref
begin

text \<open>
  pkg/v1/tarball/image.go: images of an archive in the format of docker save.  The JSON of the manifest of
  the archive is a parameter.
\<close>

section \<open>tarball/image.go: the manifest of an archive\<close>

record tar_descriptor =
  td_Config :: string
  td_RepoTags :: "string list"
  td_Layers :: "string list"
  td_LayerSources :: "(v1_hash \<times> descriptor) list"

text \<open>encoding/json on the manifest; the value null is None.\<close>

record tarball_json =
  tj_marshal :: "tar_descriptor list \<Rightarrow> bytes"
  tj_decode :: "bytes \<Rightarrow> tar_descriptor list option res"

fun find_tagged :: "string \<Rightarrow> tar_descriptor \<Rightarrow> string list \<Rightarrow> bool res" where
  "find_tagged name img [] = Inr False"
| "find_tagged name img (tagStr # rest) =
     bnd (NewTag tagStr []) (\<lambda>repoTag. if Tag_Name repoTag = name then Inr True else find_tagged name img rest)"

fun find_image :: "tag \<Rightarrow> tar_descriptor list \<Rightarrow> tar_descriptor res" where
  "find_image t [] = Inl (ErrMsg (''tag '' @ Tag_String t @ '' not found in tarball''))"
| "find_image t (img # m) =
     bnd (find_tagged (Tag_Name t) img (td_RepoTags img)) (\<lambda>found. if found then Inr img else find_image t m)"

definition findDescriptor :: "tar_descriptor list \<Rightarrow> tag option \<Rightarrow> tar_descriptor res" where
  "findDescriptor m t =
     (case t of
        None \<Rightarrow>
          if length m \<noteq> 1 then Inl (ErrMsg ''tarball must contain only a single image to be used with tarball.Image'')
          else Inr (hd m)
      | Some t \<Rightarrow> find_image t m)"

section \<open>tarball/image.go: reading\<close>

text \<open>An opener gives, at every call, a new reader of the same archive.\<close>

definition extractFileFromTar :: "codec \<Rightarrow> bytes res \<Rightarrow> string \<Rightarrow> bytes res" where
  "extractFileFromTar E opener filePath =
     bnd opener (\<lambda>f.
     case untar E f of (entries, err) \<Rightarrow>
       (case find (\<lambda>(hdr, _). th_Name hdr = filePath) entries of
          Some (_, content) \<Rightarrow> Inr content
        | None \<Rightarrow>
            (case err of Some e \<Rightarrow> Inl e | None \<Rightarrow> Inl (ErrMsg (''file '' @ filePath @ '' not found in tar'')))))"

record tar_image =
  ti_opener :: "bytes res"
  ti_config :: bytes
  ti_imgDescriptor :: tar_descriptor

definition loadTarDescriptorAndConfig :: "codec \<Rightarrow> tarball_json \<Rightarrow> bytes res \<Rightarrow> tag option \<Rightarrow> tar_image res" where
  "loadTarDescriptorAndConfig E J opener t =
     bnd (extractFileFromTar E opener ''manifest.json'') (\<lambda>m.
     bnd (tj_decode J m) (\<lambda>manifest.
     case manifest of
       None \<Rightarrow> Inl (ErrMsg ''no valid manifest.json in tarball'')
     | Some manifest \<Rightarrow>
         bnd (findDescriptor manifest t) (\<lambda>desc.
         bnd (extractFileFromTar E opener (td_Config desc)) (\<lambda>cfg.
         Inr \<lparr>ti_opener = opener, ti_config = cfg, ti_imgDescriptor = desc\<rparr>))))"

text \<open>The first Read of two bytes of an entry: the reader of the archive ends an entry together with its last bytes.\<close>

definition tar_first_read :: "bytes \<Rightarrow> read_result" where
  "tar_first_read content = (if length content \<le> 2 then ReadEOF content else ReadData (take 2 content))"

definition areLayersCompressed :: "codec \<Rightarrow> tar_image \<Rightarrow> bool res" where
  "areLayersCompressed E i =
     (case td_Layers (ti_imgDescriptor i) of
        [] \<Rightarrow> Inl (ErrMsg ''0 layers found in image'')
      | layer # _ \<Rightarrow> bnd (extractFileFromTar E (ti_opener i) layer) (\<lambda>blob. IsGzipped (tar_first_read blob)))"

section \<open>tarball/image.go: uncompressed layers\<close>

definition uncompressedLayerFromTarball :: "codec \<Rightarrow> bytes res \<Rightarrow> v1_hash \<Rightarrow> media_type \<Rightarrow> string \<Rightarrow> descriptor option \<Rightarrow> uncompressed_layer" where
  "uncompressedLayerFromTarball E opener diffID mt filePath desc =
     \<lparr>ul_DiffID = Inr diffID, ul_Uncompressed = extractFileFromTar E opener filePath, ul_MediaType = Inr mt,
      ul_Descriptor = map_option Inr desc, ul_UncompressedSize = None\<rparr>"

fun find_index :: "v1_hash list \<Rightarrow> v1_hash \<Rightarrow> nat option" where
  "find_index [] h = None"
| "find_index (x # xs) h = (if x = h then Some 0 else map_option Suc (find_index xs h))"

definition uncompressedImage_LayerByDiffID :: "codec \<Rightarrow> tar_image \<Rightarrow> v1_hash \<Rightarrow> uncompressed_layer res" where
  "uncompressedImage_LayerByDiffID E i h =
     bnd (partial_ConfigFile E (Inr (ti_config i))) (\<lambda>cfg.
     case find_index (rf_DiffIDs (cf_RootFS cfg)) h of
       None \<Rightarrow> Inl (ErrMsg (''diff id '' @ Hash_String h @ '' not found''))
     | Some idx \<Rightarrow>
         bnd (index_res (td_Layers (ti_imgDescriptor i)) idx) (\<lambda>filePath.
         case map_of (td_LayerSources (ti_imgDescriptor i)) h of
           Some bd \<Rightarrow> Inr (uncompressedLayerFromTarball E (ti_opener i) h (d_MediaType bd) filePath (Some bd))
         | None \<Rightarrow> Inr (uncompressedLayerFromTarball E (ti_opener i) h DockerLayer filePath None)))"

definition uncompressedImage_core :: "codec \<Rightarrow> tar_image \<Rightarrow> uncompressed_image_core" where
  "uncompressedImage_core E i =
     \<lparr>uic_RawConfigFile = Inr (ti_config i), uic_MediaType = Inr DockerManifestSchema2,
      uic_LayerByDiffID = uncompressedImage_LayerByDiffID E i, uic_Descriptor = None\<rparr>"

section \<open>tarball/image.go: compressed layers\<close>

definition tar_layer_descriptor :: "codec \<Rightarrow> tar_image \<Rightarrow> nat \<Rightarrow> string \<Rightarrow> descriptor res" where
  "tar_layer_descriptor E c i p =
     bnd (partial_ConfigFile E (Inr (ti_config c))) (\<lambda>cfg.
     bnd (index_res (rf_DiffIDs (cf_RootFS cfg)) i) (\<lambda>diffid.
     case map_of (td_LayerSources (ti_imgDescriptor c)) diffid of
       Some d \<Rightarrow> Inr d
     | None \<Rightarrow>
         bnd (extractFileFromTar E (ti_opener c) p) (\<lambda>l.
         case SHA256 l of (h, sz) \<Rightarrow>
           Inr (zero_descriptor\<lparr>d_MediaType := DockerLayer, d_Size := sz, d_Digest := h\<rparr>))))"

text \<open>
  Manifest keeps the manifest in the field manifest while it is still adding layers: the result and the
  field afterwards.
\<close>

fun tar_manifest_layers :: "codec \<Rightarrow> tar_image \<Rightarrow> nat \<Rightarrow> string list \<Rightarrow> manifest \<Rightarrow> manifest res \<times> manifest" where
  "tar_manifest_layers E c i [] m = (Inr m, m)"
| "tar_manifest_layers E c i (p # ps) m =
     (case tar_layer_descriptor E c i p of
        Inl e \<Rightarrow> (Inl e, m)
      | Inr d \<Rightarrow> tar_manifest_layers E c (Suc i) ps (m\<lparr>m_Layers := m_Layers m @ [d]\<rparr>))"

definition tar_empty_manifest :: "bytes \<Rightarrow> manifest" where
  "tar_empty_manifest b =
     (case SHA256 b of (cfgHash, cfgSize) \<Rightarrow>
        \<lparr>m_SchemaVersion = 2, m_MediaType = DockerManifestSchema2,
         m_Config = zero_descriptor\<lparr>d_MediaType := DockerConfigJSON, d_Size := cfgSize, d_Digest := cfgHash\<rparr>,
         m_Layers = [], m_Annotations = []\<rparr>)"

definition compressedImage_Manifest :: "codec \<Rightarrow> tar_image \<Rightarrow> manifest option \<Rightarrow> manifest res \<times> manifest option" where
  "compressedImage_Manifest E c field =
     (case field of
        Some m \<Rightarrow> (Inr m, field)
      | None \<Rightarrow>
          (case tar_manifest_layers E c 0 (td_Layers (ti_imgDescriptor c)) (tar_empty_manifest (ti_config c)) of
             (r, m) \<Rightarrow> (r, Some m)))"

definition compressedLayerFromTarball :: "codec \<Rightarrow> bytes res \<Rightarrow> descriptor \<Rightarrow> string \<Rightarrow> compressed_layer" where
  "compressedLayerFromTarball E opener desc filePath =
     \<lparr>cl_Digest = Inr (d_Digest desc), cl_Compressed = extractFileFromTar E opener filePath, cl_Size = Inr (d_Size desc),
      cl_MediaType = Inr (d_MediaType desc), cl_DiffID = None, cl_Descriptor = None, cl_UncompressedSize = None\<rparr>"

definition compressedImage_LayerByDigest :: "codec \<Rightarrow> tar_image \<Rightarrow> v1_hash \<Rightarrow> compressed_layer res" where
  "compressedImage_LayerByDigest E c h =
     bnd (fst (compressedImage_Manifest E c None)) (\<lambda>m.
     case find_index (map d_Digest (m_Layers m)) h of
       None \<Rightarrow> Inl (ErrMsg (''blob '' @ Hash_String h @ '' not found''))
     | Some i \<Rightarrow>
         bnd (index_res (td_Layers (ti_imgDescriptor c)) i) (\<lambda>fp.
         Inr (compressedLayerFromTarball E (ti_opener c) (m_Layers m ! i) fp)))"

text \<open>The methods as they are until Manifest has failed.\<close>

definition compressedImage_core :: "codec \<Rightarrow> tar_image \<Rightarrow> compressed_image_core" where
  "compressedImage_core E c =
     \<lparr>cic_RawConfigFile = Inr (ti_config c), cic_MediaType = Inr DockerManifestSchema2,
      cic_RawManifest = partial_RawManifest E (fst (compressedImage_Manifest E c None)),
      cic_LayerByDigest = compressedImage_LayerByDigest E c, cic_Descriptor = None\<rparr>"

definition tarball_Image :: "codec \<Rightarrow> tarball_json \<Rightarrow> bytes res \<Rightarrow> tag option \<Rightarrow> image res" where
  "tarball_Image E J opener t =
     bnd (loadTarDescriptorAndConfig E J opener t) (\<lambda>img.
     bnd (if td_Layers (ti_imgDescriptor img) \<noteq> [] then areLayersCompressed E img else Inr False) (\<lambda>compressed.
     if compressed then Inr (CompressedToImage E (compressedImage_core E img))
     else Inr (UncompressedToImage E (uncompressedImage_core E img))))"

definition pathOpener :: "file_system \<Rightarrow> string \<Rightarrow> bytes res" where
  "pathOpener fs path = os_ReadFile fs path"

definition ImageFromPath :: "codec \<Rightarrow> tarball_json \<Rightarrow> file_system \<Rightarrow> string \<Rightarrow> tag option \<Rightarrow> image res" where
  "ImageFromPath E J fs path t = tarball_Image E J (pathOpener fs path) t"

end
