(* ===== verification/Tarball_Write.thy ===== *)
theory Tarball_Write
  imports Tarball_Image "HOL-Library.AList"
begin

text \<open>
  pkg/v1/tarball/write.go: writing images to an archive, its manifest, and the size that is announced for
  it; and the writer of package archive/tar that it uses.
\<close>

section \<open>Package archive/tar: the writer\<close>

text \<open>
  The entries written so far, the last of them perhaps without its last bytes, and the number of bytes
  that it still lacks.  What the entries are encoded to when the writer is closed is a parameter.
\<close>

record tar_writer =
  tw_entries :: "tar_entry list"
  tw_missing :: nat

definition tar_NewWriter :: tar_writer where
  "tar_NewWriter = \<lparr>tw_entries = [], tw_missing = 0\<rparr>"

definition missed_writing :: "nat \<Rightarrow> go_error" where
  "missed_writing n = ErrMsg (''archive/tar: missed writing '' @ show_nat n @ '' bytes'')"

definition tar_WriteHeader :: "tar_writer \<Rightarrow> tar_header \<Rightarrow> tar_writer res" where
  "tar_WriteHeader tw hdr =
     (if 0 < tw_missing tw then Inl (missed_writing (tw_missing tw))
      else if th_Size hdr < 0 then Inl (ErrMsg ''archive/tar: cannot encode header: negative size'')
      else Inr \<lparr>tw_entries = tw_entries tw @ [(hdr, [])], tw_missing = nat (th_Size hdr)\<rparr>)"

definition tar_Copy :: "tar_writer \<Rightarrow> bytes \<Rightarrow> tar_writer res" where
  "tar_Copy tw b =
     (if tw_missing tw < length b then Inl (ErrMsg ''archive/tar: write too long'')
      else
        (case rev (tw_entries tw) of
           [] \<Rightarrow> Inr tw
         | (hdr, c) # es \<Rightarrow> Inr \<lparr>tw_entries = rev es @ [(hdr, c @ b)], tw_missing = tw_missing tw - length b\<rparr>))"

definition tar_Close :: "codec \<Rightarrow> tar_writer \<Rightarrow> bytes res" where
  "tar_Close E tw = (if 0 < tw_missing tw then Inl (missed_writing (tw_missing tw)) else mktar E (tw_entries tw))"

section \<open>tarball/write.go: the manifest\<close>

text \<open>
  The images are the objects at some addresses, because the map of images to tags has the image values
  as its keys and compares them by identity.  A range over a Go map goes through it in any order: the
  orders of the references and of the images are parameters, new ones for every call.
\<close>

type_synonym ref_images = "(reference \<times> nat) list"
type_synonym image_tags = "(nat \<times> string list) list"

record map_order =
  ord_refs :: "ref_images \<Rightarrow> ref_images"
  ord_images :: "image_tags \<Rightarrow> image_tags"

definition dedup_add :: "image_tags \<Rightarrow> reference \<times> nat \<Rightarrow> image_tags" where
  "dedup_add imageToTags ri =
     (case ri of
        (RefTag t, img) \<Rightarrow>
          (case map_of imageToTags img of
             Some tags \<Rightarrow> AList.update img (tags @ [Tag_String t]) imageToTags
           | None \<Rightarrow> AList.update img [Tag_String t] imageToTags)
      | (RefDigest d, img) \<Rightarrow>
          (case map_of imageToTags img of
             Some tags \<Rightarrow> imageToTags
           | None \<Rightarrow> AList.update img [] imageToTags))"

definition dedupRefToImage :: "map_order \<Rightarrow> ref_images \<Rightarrow> image_tags" where
  "dedupRefToImage ord refToImage = foldl dedup_add [] (ord_refs ord refToImage)"

definition layerFile :: "v1_hash \<Rightarrow> string" where
  "layerFile d = Hex d @ ''.tar.gz''"

fun manifest_layers :: "image \<Rightarrow> layer list \<Rightarrow> (v1_hash \<times> descriptor) list \<Rightarrow> (string list \<times> (v1_hash \<times> descriptor) list) res" where
  "manifest_layers img [] layerSources = Inr ([], layerSources)"
| "manifest_layers img (l # ls) layerSources =
     bnd (l_Digest l) (\<lambda>d.
     bnd (BlobDescriptor (i_Manifest img) d) (\<lambda>desc.
     bnd (if \<not> IsDistributable (d_MediaType desc)
          then bnd (BlobToDiffID (i_Manifest img) (i_ConfigFile img) d) (\<lambda>diffid. Inr (AList.update diffid desc layerSources))
          else Inr layerSources) (\<lambda>layerSources'.
     bnd (manifest_layers img ls layerSources') (\<lambda>(files, sources). Inr (layerFile d # files, sources)))))"

definition image_tar_descriptor :: "image \<Rightarrow> string list \<Rightarrow> tar_descriptor res" where
  "image_tar_descriptor img tags =
     bnd (i_ConfigName img) (\<lambda>cfgName.
     bnd (i_Layers img) (\<lambda>layers.
     bnd (manifest_layers img layers []) (\<lambda>(layerFiles, layerSources).
     Inr \<lparr>td_Config = Hash_String cfgName, td_RepoTags = tags, td_Layers = layerFiles, td_LayerSources = layerSources\<rparr>)))"

text \<open>sort.Slice need not keep the order of images with the same tags; the order before it is any.\<close>

definition calculateManifest :: "(nat \<Rightarrow> image) \<Rightarrow> map_order \<Rightarrow> ref_images \<Rightarrow> tar_descriptor list res" where
  "calculateManifest imgs ord refToImage =
     bnd (map_res (\<lambda>(img, tags). image_tar_descriptor (imgs img) tags) (ord_images ord (dedupRefToImage ord refToImage)))
         (\<lambda>m. Inr (sort_key (\<lambda>d. join_with (CHR '','') (td_RepoTags d)) m))"

definition ComputeManifest :: "(nat \<Rightarrow> image) \<Rightarrow> map_order \<Rightarrow> ref_images \<Rightarrow> tar_descriptor list res" where
  "ComputeManifest imgs ord refToImage = calculateManifest imgs ord refToImage"

section \<open>tarball/write.go: the size\<close>

text \<open>The remainder has the sign of the dividend.\<close>

definition rem512 :: "int \<Rightarrow> int" where
  "rem512 i = sgn i * (\<bar>i\<bar> mod 512)"

definition calculateSingleFileInTarSize :: "int \<Rightarrow> int" where
  "calculateSingleFileInTarSize inp =
     (let out = inp; remainder = rem512 out;
          out = (if remainder \<noteq> 0 then int64 (out + int64 (512 - remainder)) else out)
      in int64 (out + 512))"

fun images_size :: "(nat \<Rightarrow> image) \<Rightarrow> image_tags \<Rightarrow> int \<Rightarrow> int res" where
  "images_size imgs [] sz = Inr sz"
| "images_size imgs ((img, name) # rest) sz =
     bnd (wrap ''unable to get manifest for img'' (i_Manifest (imgs img))) (\<lambda>manifest.
     images_size imgs rest
       (foldl (\<lambda>sz l. int64 (sz + calculateSingleFileInTarSize (d_Size l)))
          (int64 (sz + calculateSingleFileInTarSize (d_Size (m_Config manifest)))) (m_Layers manifest)))"

definition calculateTarballSize :: "(nat \<Rightarrow> image) \<Rightarrow> map_order \<Rightarrow> ref_images \<Rightarrow> bytes \<Rightarrow> int res" where
  "calculateTarballSize imgs ord refToImage mBytes =
     bnd (images_size imgs (ord_images ord (dedupRefToImage ord refToImage)) 0) (\<lambda>sz.
     Inr (int64 (int64 (sz + calculateSingleFileInTarSize (int (length mBytes))) + 1024)))"

definition getSizeAndManifest ::
    "tarball_json \<Rightarrow> (nat \<Rightarrow> image) \<Rightarrow> map_order \<Rightarrow> map_order \<Rightarrow> ref_images \<Rightarrow> (int \<times> tar_descriptor list \<times> bytes) res" where
  "getSizeAndManifest J imgs ord1 ord2 refToImage =
     bnd (wrap ''unable to calculate manifest'' (calculateManifest imgs ord1 refToImage)) (\<lambda>m.
     let mBytes = tj_marshal J m in
     bnd (wrap ''error calculating tarball size'' (calculateTarballSize imgs ord2 refToImage mBytes)) (\<lambda>sz.
     Inr (sz, m, mBytes)))"

definition CalculateSize :: "tarball_json \<Rightarrow> (nat \<Rightarrow> image) \<Rightarrow> map_order \<Rightarrow> map_order \<Rightarrow> ref_images \<Rightarrow> int res" where
  "CalculateSize J imgs ord1 ord2 refToImage = bnd (getSizeAndManifest J imgs ord1 ord2 refToImage) (\<lambda>(sz, _). Inr sz)"

section \<open>tarball/write.go: the archive\<close>

definition tarball_header :: "string \<Rightarrow> int \<Rightarrow> tar_header" where
  "tarball_header path sz =
     \<lparr>th_Name = path, th_Typeflag = TypeReg, th_Size = sz, th_Mode = 420, th_ModTime = 0, th_Linkname = ''''\<rparr>"

definition writeTarEntry :: "tar_writer \<Rightarrow> string \<Rightarrow> bytes \<Rightarrow> int \<Rightarrow> tar_writer res" where
  "writeTarEntry tf path r sz = bnd (tar_WriteHeader tf (tarball_header path sz)) (\<lambda>tf. tar_Copy tf r)"

text \<open>The layers of an image; the file of a layer is written once in an archive.\<close>

fun writeLayers :: "layer list \<Rightarrow> tar_writer \<Rightarrow> string list \<Rightarrow> (tar_writer \<times> string list) res" where
  "writeLayers [] tf seen = Inr (tf, seen)"
| "writeLayers (l # ls) tf seen =
     bnd (l_Digest l) (\<lambda>d.
     if Hex d \<in> set seen then writeLayers ls tf seen
     else
       bnd (l_Compressed l) (\<lambda>r.
       bnd (l_Size l) (\<lambda>blobSize.
       bnd (writeTarEntry tf (layerFile d) r blobSize) (\<lambda>tf. writeLayers ls tf (Hex d # seen)))))"

fun writeImages :: "(nat \<Rightarrow> image) \<Rightarrow> image_tags \<Rightarrow> tar_writer \<Rightarrow> string list \<Rightarrow> (tar_writer \<times> string list) res" where
  "writeImages imgs [] tf seen = Inr (tf, seen)"
| "writeImages imgs ((img, _) # rest) tf seen =
     bnd (i_ConfigName (imgs img)) (\<lambda>cfgName.
     bnd (i_RawConfigFile (imgs img)) (\<lambda>cfgBlob.
     bnd (writeTarEntry tf (Hash_String cfgName) cfgBlob (int (length cfgBlob))) (\<lambda>tf.
     bnd (i_Layers (imgs img)) (\<lambda>layers.
     bnd (writeLayers layers tf seen) (\<lambda>(tf, seen). writeImages imgs rest tf seen)))))"

text \<open>
  The writer is the bytes that it has taken, or None for a nil writer; it does not fail.  What it has taken
  when there is an error is left out, and so is the progress that is reported with it.
\<close>

definition writeImagesToTar ::
    "codec \<Rightarrow> (nat \<Rightarrow> image) \<Rightarrow> map_order \<Rightarrow> ref_images \<Rightarrow> bytes \<Rightarrow> bytes option \<Rightarrow> bytes res" where
  "writeImagesToTar E imgs ord refToImage m w =
     (case w of
        None \<Rightarrow> Inl (ErrMsg ''must pass valid writer'')
      | Some out \<Rightarrow>
          bnd (writeImages imgs (ord_images ord (dedupRefToImage ord refToImage)) tar_NewWriter []) (\<lambda>(tf, _).
          bnd (writeTarEntry tf ''manifest.json'' m (int (length m))) (\<lambda>tf.
          bnd (tar_Close E tf) (\<lambda>a. Inr (out @ a)))))"

definition MultiRefWrite ::
    "codec \<Rightarrow> tarball_json \<Rightarrow> (nat \<Rightarrow> image) \<Rightarrow> map_order \<Rightarrow> map_order \<Rightarrow> map_order \<Rightarrow> ref_images \<Rightarrow> bytes option \<Rightarrow> bytes res" where
  "MultiRefWrite E J imgs ord1 ord2 ord3 refToImage w =
     bnd (getSizeAndManifest J imgs ord1 ord2 refToImage) (\<lambda>(sz, _, mBytes).
     writeImagesToTar E imgs ord3 refToImage mBytes w)"

definition tarball_Write ::
    "codec \<Rightarrow> tarball_json \<Rightarrow> map_order \<Rightarrow> map_order \<Rightarrow> map_order \<Rightarrow> reference \<Rightarrow> image \<Rightarrow> bytes option \<Rightarrow> bytes res" where
  "tarball_Write E J ord1 ord2 ord3 ref img w = MultiRefWrite E J (\<lambda>_. img) ord1 ord2 ord3 [(ref, 0)] w"

definition tarball_MultiWrite ::
    "codec \<Rightarrow> tarball_json \<Rightarrow> (nat \<Rightarrow> image) \<Rightarrow> map_order \<Rightarrow> map_order \<Rightarrow> map_order \<Rightarrow> (tag \<times> nat) list \<Rightarrow> bytes option \<Rightarrow> bytes res" where
  "tarball_MultiWrite E J imgs ord1 ord2 ord3 tagToImage w =
     MultiRefWrite E J imgs ord1 ord2 ord3 (map (\<lambda>(t, i). (RefTag t, i)) tagToImage) w"

text \<open>Writing to a file: what a failed write leaves in the file is not modelled beyond its creation.\<close>

definition MultiRefWriteToFile ::
    "codec \<Rightarrow> tarball_json \<Rightarrow> (nat \<Rightarrow> image) \<Rightarrow> map_order \<Rightarrow> map_order \<Rightarrow> map_order \<Rightarrow> string \<Rightarrow> ref_images \<Rightarrow>
     file_system \<Rightarrow> go_error option \<times> file_system" where
  "MultiRefWriteToFile E J imgs ord1 ord2 ord3 p refToImage fs =
     (case os_Create fs p of
        (Some e, fs1) \<Rightarrow> (Some e, fs1)
      | (None, fs1) \<Rightarrow>
          (case MultiRefWrite E J imgs ord1 ord2 ord3 refToImage (Some []) of
             Inl e \<Rightarrow> (Some e, fs1)
           | Inr a \<Rightarrow> os_WriteFile fs1 p a))"

definition WriteToFile ::
    "codec \<Rightarrow> tarball_json \<Rightarrow> map_order \<Rightarrow> map_order \<Rightarrow> map_order \<Rightarrow> string \<Rightarrow> reference \<Rightarrow> image \<Rightarrow>
     file_system \<Rightarrow> go_error option \<times> file_system" where
  "WriteToFile E J ord1 ord2 ord3 p ref img fs = MultiRefWriteToFile E J (\<lambda>_. img) ord1 ord2 ord3 p [(ref, 0)] fs"

definition MultiWriteToFile ::
    "codec \<Rightarrow> tarball_json \<Rightarrow> (nat \<Rightarrow> image) \<Rightarrow> map_order \<Rightarrow> map_order \<Rightarrow> map_order \<Rightarrow> string \<Rightarrow> (tag \<times> nat) list \<Rightarrow>
     file_system \<Rightarrow> go_error option \<times> file_system" where
  "MultiWriteToFile E J imgs ord1 ord2 ord3 p tagToImage fs =
     MultiRefWriteToFile E J imgs ord1 ord2 ord3 p (map (\<lambda>(t, i). (RefTag t, i)) tagToImage) fs"

section \<open>tarball/write.go: the progress writer\<close>

text \<open>A v1.Update, and the writer with the updates it has sent; the inner writer takes all bytes.\<close>

record update =
  u_Total :: int
  u_Complete :: int
  u_Error :: "go_error option"

record progressWriter =
  pw_w :: bytes
  pw_updates :: "update list"
  pw_size :: int
  pw_complete :: int

definition progressWriter_Write :: "progressWriter \<Rightarrow> bytes \<Rightarrow> progressWriter" where
  "progressWriter_Write pw p =
     (let n = int (length p); complete = int64 (pw_complete pw + n) in
      pw\<lparr>pw_w := pw_w pw @ p, pw_complete := complete,
         pw_updates := pw_updates pw @ [\<lparr>u_Total = pw_size pw, u_Complete = complete, u_Error = None\<rparr>]\<rparr>)"

definition progressWriter_Error :: "progressWriter \<Rightarrow> go_error \<Rightarrow> go_error \<times> progressWriter" where
  "progressWriter_Error pw err =
     (err, pw\<lparr>pw_updates := pw_updates pw @ [\<lparr>u_Total = pw_size pw, u_Complete = pw_complete pw, u_Error = Some err\<rparr>]\<rparr>)"

definition progressWriter_Close :: "progressWriter \<Rightarrow> go_error \<times> progressWriter" where
  "progressWriter_Close pw =
     (ErrEOF, pw\<lparr>pw_updates := pw_updates pw @ [\<lparr>u_Total = pw_size pw, u_Complete = pw_complete pw, u_Error = Some ErrEOF\<rparr>]\<rparr>)"

text \<open>
  The updates of a write that succeeds, when the tar writer hands its bytes on in the given pieces: one per
  piece, and io.EOF at the end.
\<close>

definition progress_of_write :: "int \<Rightarrow> bytes list \<Rightarrow> progressWriter" where
  "progress_of_write sz pieces =
     snd (progressWriter_Error (foldl progressWriter_Write \<lparr>pw_w = [], pw_updates = [], pw_size = sz, pw_complete = 0\<rparr> pieces) ErrEOF)"

end
