(* ===== verification/Tarball_Archive.thy ===== *)
theory Tarball_Archive
  imports Tarball_Write Image_Copies Validate
begin

text \<open>
  What is written to an archive and what is found there: each tag gives its image back, with the same
  config file and layers; and how a manifest that could not be made is left behind.
\<close>

section \<open>What is written\<close>

definition entry_of :: "string \<Rightarrow> bytes \<Rightarrow> tar_entry" where
  "entry_of path c = (tarball_header path (int (length c)), c)"

text \<open>The entries for the contents of the layers of an image, and of a list of images, given by their config files and contents.\<close>

fun layer_entries :: "bytes list \<Rightarrow> string list \<Rightarrow> tar_entry list \<times> string list" where
  "layer_entries [] seen = ([], seen)"
| "layer_entries (c # cs) seen =
     (if Hex (sha c) \<in> set seen then layer_entries cs seen
      else (case layer_entries cs (Hex (sha c) # seen) of (es, s) \<Rightarrow> (entry_of (layerFile (sha c)) c # es, s)))"

fun image_entries :: "(bytes \<times> bytes list) list \<Rightarrow> string list \<Rightarrow> tar_entry list \<times> string list" where
  "image_entries [] seen = ([], seen)"
| "image_entries ((rc, cs) # rest) seen =
     (case layer_entries cs seen of (es, s) \<Rightarrow>
        (case image_entries rest s of (es', s') \<Rightarrow> (entry_of (Hash_String (sha rc)) rc # es @ es', s')))"

definition carries :: "layer \<Rightarrow> bytes \<Rightarrow> bool" where
  "carries l c \<longleftrightarrow> l_Digest l = Inr (sha c) \<and> l_Compressed l = Inr c \<and> l_Size l = Inr (int (length c))"

lemma writeTarEntry_ok:
  "tw_missing tf = 0 \<Longrightarrow>
     writeTarEntry tf path c (int (length c)) = Inr \<lparr>tw_entries = tw_entries tf @ [entry_of path c], tw_missing = 0\<rparr>"
  by (simp add: writeTarEntry_def tar_WriteHeader_def tar_Copy_def tarball_header_def entry_of_def)

lemma writeLayers_ok:
  "list_all2 carries ls cs \<Longrightarrow> tw_missing tf = 0 \<Longrightarrow>
     writeLayers ls tf seen =
       Inr (\<lparr>tw_entries = tw_entries tf @ fst (layer_entries cs seen), tw_missing = 0\<rparr>, snd (layer_entries cs seen))"
proof (induction ls cs arbitrary: tf seen rule: list_all2_induct)
  case (Cons l ls c cs)
  then show ?case by (auto simp: carries_def writeTarEntry_ok split: prod.splits)
qed simp

definition image_carries :: "image \<Rightarrow> bytes \<times> bytes list \<Rightarrow> bool" where
  "image_carries i rccs \<longleftrightarrow>
     (case rccs of (rc, cs) \<Rightarrow>
        i_ConfigName i = Inr (sha rc) \<and> i_RawConfigFile i = Inr rc \<and> (\<exists>ls. i_Layers i = Inr ls \<and> list_all2 carries ls cs))"

lemma writeImages_ok:
  "list_all (\<lambda>(a, _). image_carries (imgs a) (content a)) its \<Longrightarrow> tw_missing tf = 0 \<Longrightarrow>
     writeImages imgs its tf seen =
       Inr (\<lparr>tw_entries = tw_entries tf @ fst (image_entries (map (content \<circ> fst) its) seen), tw_missing = 0\<rparr>,
            snd (image_entries (map (content \<circ> fst) its) seen))"
proof (induction its arbitrary: tf seen)
  case (Cons it its)
  obtain a tags where it: "it = (a, tags)" by (cases it)
  obtain rc cs where c: "content a = (rc, cs)" by (cases "content a")
  from Cons.prems(1) it c obtain ls where
    "i_ConfigName (imgs a) = Inr (sha rc)" "i_RawConfigFile (imgs a) = Inr rc" "i_Layers (imgs a) = Inr ls" "list_all2 carries ls cs"
    by (auto simp: image_carries_def)
  with Cons it c show ?case by (auto simp: writeTarEntry_ok writeLayers_ok split: prod.splits)
qed simp

text \<open>The entries are named by the hashes of their contents, and every content has one.\<close>

lemma layer_entries_sub: "set (fst (layer_entries cs seen)) \<subseteq> (\<lambda>c. entry_of (layerFile (sha c)) c) ` set cs"
  by (induction cs seen rule: layer_entries.induct) (auto split: prod.splits)

lemma layer_entries_seen:
  "Hex (sha c) \<in> set (snd (layer_entries cs seen)) \<Longrightarrow>
     Hex (sha c) \<in> set seen \<or> (\<exists>c'\<in>set cs. Hex (sha c') = Hex (sha c) \<and> entry_of (layerFile (sha c')) c' \<in> set (fst (layer_entries cs seen)))"
proof (induction cs seen rule: layer_entries.induct)
  case (2 b cs seen)
  show ?case
  proof (cases "Hex (sha b) \<in> set seen")
    case False
    with 2 show ?thesis by (cases "Hex (sha c) = Hex (sha b)") (fastforce split: prod.splits)+
  qed (use 2 in auto)
qed simp

lemma layer_entries_grows: "set (snd (layer_entries cs seen)) = set seen \<union> (\<lambda>c. Hex (sha c)) ` set cs"
  by (induction cs seen rule: layer_entries.induct) (auto split: prod.splits)

lemma image_entries_sub:
  "e \<in> set (fst (image_entries rs seen)) \<Longrightarrow>
     \<exists>(rc, cs)\<in>set rs. e = entry_of (Hash_String (sha rc)) rc \<or> (\<exists>c\<in>set cs. e = entry_of (layerFile (sha c)) c)"
proof (induction rs seen rule: image_entries.induct)
  case (2 rc cs rest seen)
  then show ?case using layer_entries_sub [of cs seen] by (fastforce split: prod.splits)
qed simp

lemma image_entries_config:
  "(rc, cs) \<in> set rs \<Longrightarrow> entry_of (Hash_String (sha rc)) rc \<in> set (fst (image_entries rs seen))"
  by (induction rs seen rule: image_entries.induct) (auto split: prod.splits)

lemma image_entries_layer:
  "(rc, cs) \<in> set rs \<Longrightarrow> c \<in> set cs \<Longrightarrow> Hex (sha c) \<in> set seen \<or>
     (\<exists>(rc', cs')\<in>set rs. \<exists>c'\<in>set cs'. Hex (sha c') = Hex (sha c) \<and> entry_of (layerFile (sha c')) c' \<in> set (fst (image_entries rs seen)))"
proof (induction rs seen rule: image_entries.induct)
  case (2 rc0 cs0 rest seen)
  obtain es s where l: "layer_entries cs0 seen = (es, s)" by (cases "layer_entries cs0 seen")
  have new: "Hex (sha c) \<in> set seen \<or> (\<exists>c'\<in>set cs0. Hex (sha c') = Hex (sha c) \<and> entry_of (layerFile (sha c')) c' \<in> set es)"
    if "Hex (sha c) \<in> set s"
    using layer_entries_seen [of c cs0 seen] l that by simp
  have "Hex (sha c) \<in> set s \<or> (rc, cs) \<in> set rest"
    using "2.prems" layer_entries_grows [of cs0 seen] l by auto
  then show ?case
  proof
    assume "Hex (sha c) \<in> set s"
    from new [OF this] l show ?thesis by (fastforce split: prod.splits)
  next
    assume "(rc, cs) \<in> set rest"
    from "2.IH" [OF l [symmetric] this "2.prems"(2)] new l show ?thesis by (fastforce split: prod.splits)
  qed
qed simp

section \<open>What is found\<close>

definition contents :: "(bytes \<times> bytes list) list \<Rightarrow> bytes set" where
  "contents rs = (\<Union>(rc, cs)\<in>set rs. insert rc (set cs))"

definition archive_entries :: "(bytes \<times> bytes list) list \<Rightarrow> bytes \<Rightarrow> tar_entry list" where
  "archive_entries rs m = fst (image_entries rs []) @ [entry_of ''manifest.json'' m]"

definition written_name :: "tar_entry \<Rightarrow> string" where
  "written_name e = th_Name (fst e)"

lemma written_name_entry [simp]: "written_name (entry_of p c) = p" "snd (entry_of p c) = c"
  by (simp_all add: written_name_def entry_of_def tarball_header_def)

lemma Hex_sha: "Hex (sha b) = Hex (sha c) \<longleftrightarrow> sha b = sha c"
  using wf_hash_sha [of b] wf_hash_sha [of c] by (cases "sha b"; cases "sha c") (auto simp: wf_hash_def)

lemma layerFile_eq: "layerFile (sha b) = layerFile (sha c) \<longleftrightarrow> sha b = sha c"
  by (simp add: layerFile_def Hex_sha)

lemma archive_names:
  "Hash_String (sha b) \<noteq> layerFile (sha c)" "layerFile (sha c) \<noteq> Hash_String (sha b)"
  "layerFile (sha c) \<noteq> ''manifest.json''" "Hash_String (sha c) \<noteq> ''manifest.json''"
proof -
  have h: "CHR '':'' \<notin> set (layerFile (sha c))"
    using wf_hash_sha [of c] hexChars_no_colon by (auto simp: layerFile_def wf_hash_def)
  have "CHR '':'' \<in> set (Hash_String (sha b))" by (simp add: Hash_String_def)
  with h show "Hash_String (sha b) \<noteq> layerFile (sha c)" "layerFile (sha c) \<noteq> Hash_String (sha b)" by metis+
  have "length (layerFile (sha c)) = 71" using wf_hash_sha [of c] by (simp add: layerFile_def wf_hash_def)
  moreover have "length ''manifest.json'' = 13" by simp
  ultimately show "layerFile (sha c) \<noteq> ''manifest.json''" by auto
  show "Hash_String (sha c) \<noteq> ''manifest.json''" using wf_hash_sha [of c] by (auto simp: Hash_String_def wf_hash_def)
qed

lemma find_named:
  assumes "e \<in> set es" and "written_name e = p" and "\<And>e'. e' \<in> set es \<Longrightarrow> written_name e' = p \<Longrightarrow> snd e' = c"
  shows "\<exists>hdr. find (\<lambda>(hdr, _). th_Name hdr = p) es = Some (hdr, c)"
proof -
  obtain hd b where "e = (hd, b)" by (cases e)
  with assms(1,2) have "find (\<lambda>(hdr, _). th_Name hdr = p) es \<noteq> None" by (auto simp: find_None_iff written_name_def)
  then obtain e' where e': "find (\<lambda>(hdr, _). th_Name hdr = p) es = Some e'" by auto
  then have "e' \<in> set es" "written_name e' = p" by (auto simp: find_Some_iff written_name_def) (metis nth_mem)
  with assms(3) e' show ?thesis by (cases e') auto
qed

lemma sha_content: "inj_on sha (contents rs) \<Longrightarrow> b \<in> contents rs \<Longrightarrow> c \<in> contents rs \<Longrightarrow> sha b = sha c \<Longrightarrow> b = c"
  by (auto dest: inj_onD)

lemma contents_intro: "(rc, cs) \<in> set rs \<Longrightarrow> rc \<in> contents rs" "(rc, cs) \<in> set rs \<Longrightarrow> c \<in> set cs \<Longrightarrow> c \<in> contents rs"
  unfolding contents_def by fastforce+

lemma entries_cases:
  assumes "e \<in> set (archive_entries rs m)"
  obtains (config) rc where "e = entry_of (Hash_String (sha rc)) rc" "rc \<in> contents rs"
  | (layer) c where "e = entry_of (layerFile (sha c)) c" "c \<in> contents rs"
  | (manifest) "e = entry_of ''manifest.json'' m"
  using assms image_entries_sub [of e rs "[]"] contents_intro [of _ _ rs] unfolding archive_entries_def by fastforce

text \<open>Without two contents of one hash, each is found under its name.\<close>

lemma archive_layer:
  assumes "inj_on sha (contents rs)" and "(rc, cs) \<in> set rs" and "c \<in> set cs"
  shows "\<exists>hdr. find (\<lambda>(hdr, _). th_Name hdr = layerFile (sha c)) (archive_entries rs m) = Some (hdr, c)"
proof -
  have c: "c \<in> contents rs" using assms(2,3) by (rule contents_intro)
  from image_entries_layer [OF assms(2,3), of "[]"] obtain rc' cs' c' where
    c': "(rc', cs') \<in> set rs" "c' \<in> set cs'" "sha c' = sha c" "entry_of (layerFile (sha c')) c' \<in> set (fst (image_entries rs []))"
    by (auto simp: Hex_sha)
  then have "entry_of (layerFile (sha c)) c \<in> set (archive_entries rs m)"
    using sha_content [OF assms(1) contents_intro(2) c] by (auto simp: archive_entries_def)
  then show ?thesis
  proof (rule find_named)
    fix e assume "e \<in> set (archive_entries rs m)" "written_name e = layerFile (sha c)"
    then show "snd e = c"
      by (elim entries_cases) (auto simp: archive_names archive_names [symmetric] layerFile_eq dest: sha_content [OF assms(1) _ c])
  qed simp
qed

lemma archive_config:
  assumes "inj_on sha (contents rs)" and "(rc, cs) \<in> set rs"
  shows "\<exists>hdr. find (\<lambda>(hdr, _). th_Name hdr = Hash_String (sha rc)) (archive_entries rs m) = Some (hdr, rc)"
proof -
  have c: "rc \<in> contents rs" using assms(2) by (rule contents_intro)
  have "entry_of (Hash_String (sha rc)) rc \<in> set (archive_entries rs m)"
    using image_entries_config [OF assms(2), of "[]"] by (simp add: archive_entries_def)
  then show ?thesis
  proof (rule find_named)
    fix e assume "e \<in> set (archive_entries rs m)" "written_name e = Hash_String (sha rc)"
    then show "snd e = rc"
      by (elim entries_cases) (auto simp: archive_names archive_names [symmetric] dest: Hash_String_inj [OF wf_hash_sha wf_hash_sha] sha_content [OF assms(1) _ c])
  qed simp
qed

lemma archive_manifest: "\<exists>hdr. find (\<lambda>(hdr, _). th_Name hdr = ''manifest.json'') (archive_entries rs m) = Some (hdr, m)"
proof (rule find_named)
  show "entry_of ''manifest.json'' m \<in> set (archive_entries rs m)" by (simp add: archive_entries_def)
  fix e assume "e \<in> set (archive_entries rs m)" "written_name e = ''manifest.json''"
  then show "snd e = m" by (elim entries_cases) (auto simp: archive_names)
qed simp

lemma extract_found:
  "untar E a = (es, None) \<Longrightarrow> \<exists>hdr. find (\<lambda>(hdr, _). th_Name hdr = p) es = Some (hdr, c) \<Longrightarrow> extractFileFromTar E (Inr a) p = Inr c"
  by (auto simp: extractFileFromTar_def)

section \<open>References and images\<close>

definition dedup_spec :: "ref_images \<Rightarrow> image_tags \<Rightarrow> bool" where
  "dedup_spec rs m \<longleftrightarrow> distinct (map fst m) \<and> fst ` set m = snd ` set rs \<and>
     (\<forall>(a, tags)\<in>set m. set tags = {Tag_String t |t. (RefTag t, a) \<in> set rs})"

lemma dedup_add_spec:
  assumes "dedup_spec rs m"
  shows "dedup_spec (rs @ [ri]) (dedup_add m ri)"
proof -
  obtain r a where ri: "ri = (r, a)" by (cases ri)
  from assms have d: "distinct (map fst m)" and dom: "fst ` set m = snd ` set rs"
    and tg: "\<And>b tags. (b, tags) \<in> set m \<Longrightarrow> set tags = {Tag_String t |t. (RefTag t, b) \<in> set rs}"
    unfolding dedup_spec_def by blast+
  have no: "map_of m a = None \<Longrightarrow> (RefTag t, a) \<notin> set rs" for t
    using dom by (force simp: map_of_eq_None_iff)
  have upd: "(b, tags) \<in> set (AList.update a v m) \<longleftrightarrow> (if b = a then tags = v else (b, tags) \<in> set m)" for b tags v
  proof -
    have "distinct (map fst (AList.update a v m))" using d by (simp add: distinct_update)
    then have "(b, tags) \<in> set (AList.update a v m) \<longleftrightarrow> map_of (AList.update a v m) b = Some tags" by simp
    also have "\<dots> \<longleftrightarrow> (if b = a then tags = v else (b, tags) \<in> set m)" using d by (auto simp: update_conv')
    finally show ?thesis .
  qed
  have dm: "fst ` set (AList.update a v m) = snd ` set (rs @ [ri])" for v
    using dom ri by (simp add: dom_update)
  have upd_ok: "dedup_spec (rs @ [ri]) (AList.update a v m)" if v: "set v = {Tag_String t |t. (RefTag t, a) \<in> set (rs @ [ri])}" for v
    unfolding dedup_spec_def
  proof (intro conjI ballI)
    show "distinct (map fst (AList.update a v m))" using d by (simp add: distinct_update)
    show "fst ` set (AList.update a v m) = snd ` set (rs @ [ri])" by (rule dm)
    fix x assume "x \<in> set (AList.update a v m)"
    moreover obtain b tags where x: "x = (b, tags)" by (cases x)
    ultimately have "if b = a then tags = v else (b, tags) \<in> set m" by (simp add: upd)
    then have "set tags = {Tag_String t |t. (RefTag t, b) \<in> set (rs @ [ri])}"
      using v tg [of b tags] ri by (cases "b = a") auto
    with x show "case x of (b, tags) \<Rightarrow> set tags = {Tag_String t |t. (RefTag t, b) \<in> set (rs @ [ri])}" by simp
  qed
  show ?thesis
  proof (cases "map_of m a")
    case None
    with no have "{Tag_String t |t. (RefTag t, a) \<in> set (rs @ [ri])} = (case r of RefTag t \<Rightarrow> {Tag_String t} | RefDigest _ \<Rightarrow> {})"
      using ri by (auto split: reference.splits)
    with upd_ok None ri show ?thesis by (cases r) (simp_all add: dedup_add_def)
  next
    case (Some tags)
    then have t: "(a, tags) \<in> set m" by (rule map_of_SomeD)
    show ?thesis
    proof (cases r)
      case (RefTag t')
      have "set (tags @ [Tag_String t']) = {Tag_String t |t. (RefTag t, a) \<in> set (rs @ [ri])}" using tg [OF t] ri RefTag by auto
      with upd_ok Some ri RefTag show ?thesis by (simp add: dedup_add_def)
    next
      case (RefDigest dg)
      have "(RefTag t, b) \<in> set (rs @ [ri]) \<longleftrightarrow> (RefTag t, b) \<in> set rs" for t b using ri RefDigest by auto
      moreover have "snd ` set (rs @ [ri]) = snd ` set rs" using t dom ri by force
      ultimately show ?thesis using assms Some ri RefDigest by (simp add: dedup_spec_def dedup_add_def)
    qed
  qed
qed

lemma dedup_foldl: "dedup_spec rs m \<Longrightarrow> dedup_spec (rs @ rs') (foldl dedup_add m rs')"
proof (induction rs' arbitrary: rs m)
  case (Cons ri rs')
  from Cons.IH [OF dedup_add_spec [OF Cons.prems, of ri]] show ?case by simp
qed simp

definition fair_map_order :: "map_order \<Rightarrow> bool" where
  "fair_map_order ord \<longleftrightarrow> fair_order (ord_refs ord) \<and> fair_order (ord_images ord)"

text \<open>The images in the order in which they are gone through, with their tags.\<close>

lemma dedup_images:
  assumes "fair_map_order ord"
  shows "dedup_spec refs (ord_images ord (dedupRefToImage ord refs))"
proof -
  have "dedup_spec [] []" by (simp add: dedup_spec_def)
  from dedup_foldl [OF this, of "ord_refs ord refs"]
  have d: "dedup_spec (ord_refs ord refs) (dedupRefToImage ord refs)" by (simp add: dedupRefToImage_def)
  have s: "mset (ord_refs ord refs) = mset refs" "mset (ord_images ord m) = mset m" for m
    using assms by (auto simp: fair_map_order_def fair_order_def)
  then have "set (ord_refs ord refs) = set refs" "set (ord_images ord m) = set m" for m by (metis set_mset_mset)+
  moreover have "distinct (map fst (ord_images ord m)) = distinct (map fst m)" for m
    using s(2) [of m] by (metis mset_map distinct_count_atmost_1 mset_eq_imp_distinct_iff)
  ultimately show ?thesis using d by (simp add: dedup_spec_def)
qed

section \<open>The manifest of an archive\<close>

text \<open>
  The descriptors of the manifest that a read image makes up: those of the foreign layers are kept, the
  others are made from the contents.
\<close>

definition docker_descriptor :: "bytes \<Rightarrow> descriptor" where
  "docker_descriptor c = zero_descriptor\<lparr>d_MediaType := DockerLayer, d_Size := int (length c), d_Digest := sha c\<rparr>"

definition reread_descriptor :: "manifest \<Rightarrow> bytes \<Rightarrow> descriptor" where
  "reread_descriptor m c =
     (case BlobDescriptor (Inr m) (sha c) of
        Inr d \<Rightarrow> if IsDistributable (d_MediaType d) then docker_descriptor c else d
      | Inl _ \<Rightarrow> docker_descriptor c)"

definition reread_manifest :: "manifest \<Rightarrow> bytes \<Rightarrow> bytes list \<Rightarrow> manifest" where
  "reread_manifest m rc cs = (tar_empty_manifest rc)\<lparr>m_Layers := map (reread_descriptor m) cs\<rparr>"

text \<open>A coherent image of compressed layers, whose manifest, made up again, survives its encoding.\<close>

definition archivable :: "codec \<Rightarrow> image \<Rightarrow> manifest \<Rightarrow> bytes \<Rightarrow> bytes list \<Rightarrow> bool" where
  "archivable E i m rc cs \<longleftrightarrow>
     (\<exists>cf rm ls. coherent_parts E i rc cf rm m ls \<and> list_all2 (\<lambda>l c. l_Compressed l = Inr c) ls cs) \<and>
     list_all (\<lambda>c. 2 < length c \<and> take 2 c = gzipMagicHeader) cs \<and>
     decode_manifest E (marshal_manifest E (reread_manifest m rc cs)) = Inr (reread_manifest m rc cs)"

lemma coherent_carries:
  assumes "coherent_parts E i rc cf rm m ls" and "list_all2 (\<lambda>l c. l_Compressed l = Inr c) ls cs"
  shows "list_all2 carries ls cs"
proof -
  have m: "list_all2 (layer_matches E) ls (m_Layers m)" using assms(1) by (simp add: coherent_parts_def)
  have "carries (ls ! k) (cs ! k)" if "k < length ls" for k
  proof -
    have "wf_layer E (ls ! k)" "l_Compressed (ls ! k) = Inr (cs ! k)"
      using that m assms(2) by (auto simp: list_all2_conv_all_nth layer_matches_def)
    then show ?thesis by (auto simp: carries_def elim: wf_layerE)
  qed
  with assms(2) show ?thesis by (auto simp: list_all2_conv_all_nth)
qed

lemma archivable_carries: "archivable E i m rc cs \<Longrightarrow> image_carries i (rc, cs)"
proof -
  assume "archivable E i m rc cs"
  then obtain cf rm ls where p: "coherent_parts E i rc cf rm m ls" "list_all2 (\<lambda>l c. l_Compressed l = Inr c) ls cs"
    unfolding archivable_def by blast
  from coherent_carries [OF this] p(1) show ?thesis by (auto simp: image_carries_def coherent_parts_def)
qed

text \<open>What the manifest and the config file say of a content.\<close>

lemma content_described:
  assumes "coherent_parts E i rc cf rm m ls" and "list_all2 (\<lambda>l c. l_Compressed l = Inr c) ls cs"
    and "inj_on sha (insert rc (set cs))" and "c \<in> set cs"
  shows "\<exists>d u. BlobDescriptor (Inr m) (sha c) = Inr d \<and> d_Digest d = sha c \<and> d_Size d = int (length c) \<and>
    gunzip E c = Inr u \<and> BlobToDiffID (Inr m) (Inr cf) (sha c) = Inr (sha u)"
proof -
  let ?ds = "m_Layers m" and ?hs = "rf_DiffIDs (cf_RootFS cf)"
  note p = coherent_parts_contents [OF assms(1,2)]
  have len: "length ?ds = length cs" "length ?hs = length cs" using p by (auto dest: list_all2_lengthD)
  have same: "b = c" if "b \<in> insert rc (set cs)" "sha b = sha c" for b
    using assms(3,4) that by (auto dest: inj_onD)
  obtain k where k: "k < length cs" "cs ! k = c" using assms(4) by (auto simp: in_set_conv_nth)
  have bd: "\<exists>d. BlobDescriptor (Inr m) (sha c) = Inr d \<and> d_Digest d = sha c \<and> d_Size d = int (length c)"
  proof (cases "d_Digest (m_Config m) = sha c")
    case True
    moreover have mc: "d_Digest (m_Config m) = sha rc" "d_Size (m_Config m) = int (length rc)"
      using assms(1) by (simp_all add: coherent_parts_def)
    ultimately have "rc = c" using same [of rc] by simp
    with True mc show ?thesis by (simp add: BlobDescriptor_def)
  next
    case False
    have "d_Digest (?ds ! k) = sha c" "?ds ! k \<in> set ?ds" using p(1) k len by (auto simp: list_all2_conv_all_nth)
    then obtain d where d: "find (\<lambda>l. d_Digest l = sha c) ?ds = Some d"
      by (cases "find (\<lambda>l. d_Digest l = sha c) ?ds") (auto simp: find_None_iff)
    then obtain j where j: "j < length ?ds" "d = ?ds ! j" "d_Digest d = sha c"
      unfolding find_Some_iff by blast
    with p(1) len have "sha (cs ! j) = sha c" "d_Size d = int (length (cs ! j))" by (auto simp: list_all2_conv_all_nth)
    with same [of "cs ! j"] j len False d show ?thesis by (auto simp: BlobDescriptor_def)
  qed
  obtain u where u: "gunzip E c = Inr u" "?hs ! k = sha u" using p(2) k by (auto simp: list_all2_conv_all_nth)
  have "functional (zip (map d_Digest ?ds) ?hs)"
  proof (rule functional_zipI)
    fix a b assume ab: "a < length (map d_Digest ?ds)" "b < length (map d_Digest ?ds)" "map d_Digest ?ds ! a = map d_Digest ?ds ! b"
    then have "sha (cs ! a) = sha (cs ! b)" using p(1) len by (auto simp: list_all2_conv_all_nth)
    then have "cs ! a = cs ! b" using assms(3) ab len by (auto dest: inj_onD)
    moreover obtain u v where "gunzip E (cs ! a) = Inr u" "?hs ! a = sha u" "gunzip E (cs ! b) = Inr v" "?hs ! b = sha v"
      using list_all2_nthD [OF p(2), of a] list_all2_nthD [OF p(2), of b] ab len by auto
    ultimately show "?hs ! a = ?hs ! b" by simp
  qed (simp add: len)
  moreover have "(sha c, sha u) \<in> set (zip (map d_Digest ?ds) ?hs)"
    using p(1) k u(2) len by (auto simp: set_zip list_all2_conv_all_nth intro!: exI [of _ k])
  ultimately have "BlobToDiffID (Inr m) (Inr cf) (sha c) = Inr (sha u)"
    using len by (auto simp: BlobToDiffID_def FSLayers_def partial_DiffIDs_def intro: lookup_at_functional)
  with bd u(1) show ?thesis by blast
qed

text \<open>The files and the foreign layers that the manifest of the archive lists.\<close>

lemma manifest_layers_ok:
  "list_all2 (\<lambda>l c. l_Digest l = Inr (sha c) \<and> BlobDescriptor (i_Manifest img) (sha c) = Inr (D c) \<and>
       BlobToDiffID (i_Manifest img) (i_ConfigFile img) (sha c) = Inr (U c)) ls cs \<Longrightarrow>
     \<exists>srcs. manifest_layers img ls src = Inr (map (\<lambda>c. layerFile (sha c)) cs, srcs) \<and>
       (\<forall>h d. map_of srcs h = Some d \<longrightarrow> map_of src h = Some d \<or> (\<exists>c\<in>set cs. \<not> IsDistributable (d_MediaType (D c)) \<and> U c = h \<and> D c = d)) \<and>
       (\<forall>h. map_of src h \<noteq> None \<or> (\<exists>c\<in>set cs. \<not> IsDistributable (d_MediaType (D c)) \<and> U c = h) \<longrightarrow> map_of srcs h \<noteq> None)"
proof (induction ls cs arbitrary: src rule: list_all2_induct)
  case (Cons l ls c cs)
  let ?src = "if IsDistributable (d_MediaType (D c)) then src else AList.update (U c) (D c) src"
  from Cons.IH [of ?src] obtain srcs where s: "manifest_layers img ls ?src = Inr (map (\<lambda>c. layerFile (sha c)) cs, srcs)"
    "\<forall>h d. map_of srcs h = Some d \<longrightarrow> map_of ?src h = Some d \<or> (\<exists>c\<in>set cs. \<not> IsDistributable (d_MediaType (D c)) \<and> U c = h \<and> D c = d)"
    "\<forall>h. map_of ?src h \<noteq> None \<or> (\<exists>c\<in>set cs. \<not> IsDistributable (d_MediaType (D c)) \<and> U c = h) \<longrightarrow> map_of srcs h \<noteq> None" by blast
  have m: "map_of ?src h = (if \<not> IsDistributable (d_MediaType (D c)) \<and> h = U c then Some (D c) else map_of src h)" for h
    by (auto simp: update_conv')
  have "manifest_layers img (l # ls) src = Inr (map (\<lambda>c. layerFile (sha c)) (c # cs), srcs)" using Cons.hyps(1) s(1) by auto
  moreover have "map_of src h = Some d \<or> (\<exists>b\<in>set (c # cs). \<not> IsDistributable (d_MediaType (D b)) \<and> U b = h \<and> D b = d)"
    if "map_of srcs h = Some d" for h d
    using s(2)[rule_format, OF that] unfolding m by (auto split: if_splits)
  moreover have "map_of srcs h \<noteq> None"
    if "map_of src h \<noteq> None \<or> (\<exists>b\<in>set (c # cs). \<not> IsDistributable (d_MediaType (D b)) \<and> U b = h)" for h
    using s(3)[rule_format, of h] that unfolding m by (auto split: if_splits)
  ultimately show ?case by blast
qed simp

definition sources_agree :: "manifest \<Rightarrow> bytes list \<Rightarrow> v1_hash list \<Rightarrow> (v1_hash \<times> descriptor) list \<Rightarrow> bool" where
  "sources_agree m cs hs srcs \<longleftrightarrow>
     (\<forall>k<length cs. reread_descriptor m (cs ! k) =
        (case map_of srcs (hs ! k) of Some d \<Rightarrow> d | None \<Rightarrow> docker_descriptor (cs ! k)))"

lemma image_tar_descriptor_ok:
  assumes i: "coherent_parts E i rc cf rm m ls" and cs: "list_all2 (\<lambda>l c. l_Compressed l = Inr c) ls cs"
    and inj: "inj_on sha (insert rc (set cs))"
  shows "\<exists>srcs. image_tar_descriptor i tags = Inr \<lparr>td_Config = Hash_String (sha rc), td_RepoTags = tags,
      td_Layers = map (\<lambda>c. layerFile (sha c)) cs, td_LayerSources = srcs\<rparr> \<and> sources_agree m cs (rf_DiffIDs (cf_RootFS cf)) srcs"
proof -
  let ?ds = "m_Layers m" and ?hs = "rf_DiffIDs (cf_RootFS cf)"
  define D where "D = (\<lambda>c. case BlobDescriptor (Inr m) (sha c) of Inr d \<Rightarrow> d | Inl _ \<Rightarrow> undefined)"
  define U where "U = (\<lambda>c. case BlobToDiffID (Inr m) (Inr cf) (sha c) of Inr h \<Rightarrow> h | Inl _ \<Rightarrow> undefined)"
  have mm: "i_Manifest i = Inr m" "i_ConfigFile i = Inr cf" "i_ConfigName i = Inr (sha rc)" "i_Layers i = Inr ls"
    using i by (auto simp: coherent_parts_def)
  note p = coherent_parts_contents [OF i cs]
  have len: "length ?ds = length cs" "length ?hs = length cs" using p by (auto dest: list_all2_lengthD)
  have DU: "BlobDescriptor (Inr m) (sha c) = Inr (D c) \<and> BlobToDiffID (Inr m) (Inr cf) (sha c) = Inr (U c) \<and> (\<exists>u. gunzip E c = Inr u \<and> U c = sha u)"
    if "c \<in> set cs" for c
    using content_described [OF i cs inj that] by (auto simp: D_def U_def)
  have "list_all2 (\<lambda>l c. l_Digest l = Inr (sha c) \<and> BlobDescriptor (i_Manifest i) (sha c) = Inr (D c) \<and>
       BlobToDiffID (i_Manifest i) (i_ConfigFile i) (sha c) = Inr (U c)) ls cs"
    using coherent_carries [OF i cs] DU by (auto simp: list_all2_conv_all_nth carries_def mm)
  from manifest_layers_ok [OF this, of "[]"] obtain srcs where s: "manifest_layers i ls [] = Inr (map (\<lambda>c. layerFile (sha c)) cs, srcs)"
    "\<forall>h d. map_of srcs h = Some d \<longrightarrow> (\<exists>c\<in>set cs. \<not> IsDistributable (d_MediaType (D c)) \<and> U c = h \<and> D c = d)"
    "\<forall>h. (\<exists>c\<in>set cs. \<not> IsDistributable (d_MediaType (D c)) \<and> U c = h) \<longrightarrow> map_of srcs h \<noteq> None"
    by (simp only: map_of.simps option.distinct simp_thms) blast
  have at_k: "?hs ! k = U (cs ! k)" "d_Digest (?ds ! k) = sha (cs ! k)" if "k < length cs" for k
    using DU [of "cs ! k"] p that by (auto simp: list_all2_conv_all_nth)
  have "reread_descriptor m (cs ! k) = (case map_of srcs (?hs ! k) of Some d \<Rightarrow> d | None \<Rightarrow> docker_descriptor (cs ! k))"
    if k: "k < length cs" for k
  proof (cases "map_of srcs (?hs ! k)")
    case None
    with s(3) [rule_format, of "U (cs ! k)"] at_k [OF k] k have "IsDistributable (d_MediaType (D (cs ! k)))"
      using nth_mem by fastforce
    with DU [of "cs ! k"] k None show ?thesis by (simp add: reread_descriptor_def)
  next
    case (Some d)
    from s(2) [rule_format, OF this] obtain c where c: "c \<in> set cs" "\<not> IsDistributable (d_MediaType (D c))" "U c = ?hs ! k" "D c = d" by blast
    obtain j where j: "j < length cs" "cs ! j = c" using c(1) by (auto simp: in_set_conv_nth)
    have "(U c, sha c) \<in> set (zip ?hs (map d_Digest ?ds))" "(?hs ! k, sha (cs ! k)) \<in> set (zip ?hs (map d_Digest ?ds))"
      using at_k [OF j(1)] at_k [OF k] j k len nth_map [of _ ?ds d_Digest] by (auto simp: set_zip intro: exI [of _ j] exI [of _ k])
    then have "sha c = sha (cs ! k)" using functionalD [OF coherent_functional [OF i]] c(3) by metis
    then have "c = cs ! k" using inj c(1) k by (auto dest: inj_onD)
    with DU [of "cs ! k"] k c Some show ?thesis by (simp add: reread_descriptor_def)
  qed
  with s(1) mm show ?thesis by (simp add: image_tar_descriptor_def sources_agree_def)
qed

section \<open>Reading an archive\<close>

lemma find_index_found: "x \<in> set xs \<Longrightarrow> \<exists>j<length xs. find_index xs x = Some j \<and> xs ! j = x"
  by (induction xs) auto

lemma tar_manifest_layers_ok:
  assumes "decode_config E (ti_config ti) = Inr cf" and "length (rf_DiffIDs (cf_RootFS cf)) = length (pre @ post)"
    and "sources_agree m (pre @ post) (rf_DiffIDs (cf_RootFS cf)) (td_LayerSources (ti_imgDescriptor ti))"
    and "\<And>c. c \<in> set post \<Longrightarrow> extractFileFromTar E (ti_opener ti) (layerFile (sha c)) = Inr c"
  shows "tar_manifest_layers E ti (length pre) (map (\<lambda>c. layerFile (sha c)) post) m0 =
    (let m1 = m0\<lparr>m_Layers := m_Layers m0 @ map (reread_descriptor m) post\<rparr> in (Inr m1, m1))"
  using assms
proof (induction post arbitrary: pre m0)
  case (Cons c post)
  let ?hs = "rf_DiffIDs (cf_RootFS cf)"
  have "reread_descriptor m c = (case map_of (td_LayerSources (ti_imgDescriptor ti)) (?hs ! length pre) of Some d \<Rightarrow> d | None \<Rightarrow> docker_descriptor c)"
    using Cons.prems(3)[unfolded sources_agree_def, rule_format, of "length pre", unfolded nth_append_length] by simp
  then have d: "tar_layer_descriptor E ti (length pre) (layerFile (sha c)) = Inr (reread_descriptor m c)"
    using Cons.prems(1,2,4)
    by (auto simp: tar_layer_descriptor_def partial_ConfigFile_def ParseConfigFile_def index_res_def docker_descriptor_def sha_def SHA256_def split: option.splits)
  from Cons.IH [of "pre @ [c]" "m0\<lparr>m_Layers := m_Layers m0 @ [reread_descriptor m c]\<rparr>"] Cons.prems d
  show ?case by (simp add: Let_def)
qed simp

lemma Manifest_reread:
  assumes "decode_config E rc = Inr cf" and "length (rf_DiffIDs (cf_RootFS cf)) = length cs"
    and "sources_agree m cs (rf_DiffIDs (cf_RootFS cf)) srcs"
    and "\<And>c. c \<in> set cs \<Longrightarrow> extractFileFromTar E op (layerFile (sha c)) = Inr c"
  shows "fst (compressedImage_Manifest E \<lparr>ti_opener = op, ti_config = rc, ti_imgDescriptor =
      \<lparr>td_Config = cn, td_RepoTags = tags, td_Layers = map (\<lambda>c. layerFile (sha c)) cs, td_LayerSources = srcs\<rparr>\<rparr> None) = Inr (reread_manifest m rc cs)"
  using tar_manifest_layers_ok [of E "\<lparr>ti_opener = op, ti_config = rc, ti_imgDescriptor =
      \<lparr>td_Config = cn, td_RepoTags = tags, td_Layers = map (\<lambda>c. layerFile (sha c)) cs, td_LayerSources = srcs\<rparr>\<rparr>" cf "[]" cs m
      "tar_empty_manifest rc"] assms
  by (simp add: compressedImage_Manifest_def reread_manifest_def Let_def) (simp add: tar_empty_manifest_def split: prod.splits)

lemma reread_digest: "d_Digest (reread_descriptor m c) = sha c" "d_Size (reread_descriptor m c) = int (length c)"
  if "coherent_parts E i rc cf rm m ls" "list_all2 (\<lambda>l c. l_Compressed l = Inr c) ls cs" "inj_on sha (insert rc (set cs))" "c \<in> set cs"
  using content_described [OF that] by (auto simp: reread_descriptor_def docker_descriptor_def)

lemma served_from_archive:
  assumes i: "coherent_parts E i rc cf rm m ls" and cs: "list_all2 (\<lambda>l c. l_Compressed l = Inr c) ls cs"
    and inj: "inj_on sha (insert rc (set cs))" and dec: "decode_manifest E (marshal_manifest E (reread_manifest m rc cs)) = Inr (reread_manifest m rc cs)"
    and src: "sources_agree m cs (rf_DiffIDs (cf_RootFS cf)) srcs"
    and ex: "\<And>c. c \<in> set cs \<Longrightarrow> extractFileFromTar E op (layerFile (sha c)) = Inr c"
  shows "pulled_as E (CompressedToImage E (compressedImage_core E \<lparr>ti_opener = op, ti_config = rc, ti_imgDescriptor =
      \<lparr>td_Config = cn, td_RepoTags = tags, td_Layers = map (\<lambda>c. layerFile (sha c)) cs, td_LayerSources = srcs\<rparr>\<rparr>))
    (marshal_manifest E (reread_manifest m rc cs)) rc cs"
proof -
  let ?ti = "\<lparr>ti_opener = op, ti_config = rc, ti_imgDescriptor =
      \<lparr>td_Config = cn, td_RepoTags = tags, td_Layers = map (\<lambda>c. layerFile (sha c)) cs, td_LayerSources = srcs\<rparr>\<rparr>"
  let ?m = "reread_manifest m rc cs" and ?hs = "rf_DiffIDs (cf_RootFS cf)"
  have dc: "decode_config E rc = Inr cf" using i by (simp add: coherent_parts_def)
  note p = coherent_parts_contents [OF i cs] and rd = reread_digest [OF i cs inj]
  have len: "length (m_Layers m) = length cs" "length ?hs = length cs" using p by (auto dest: list_all2_lengthD)
  have mf: "fst (compressedImage_Manifest E ?ti None) = Inr ?m" by (rule Manifest_reread [OF dc len(2) src ex])
  have ml: "m_Layers ?m = map (reread_descriptor m) cs" "d_Digest (m_Config ?m) = sha rc" "d_Size (m_Config ?m) = int (length rc)"
    by (simp_all add: reread_manifest_def tar_empty_manifest_def sha_def SHA256_def)
  have dg: "map d_Digest (m_Layers ?m) = map sha cs" and dg': "map (d_Digest \<circ> reread_descriptor m) cs = map sha cs"
    using rd(1) by (simp_all add: ml)
  have f: "functional (zip ?hs (map d_Digest (m_Layers ?m)))"
  proof -
    have "map d_Digest (m_Layers m) = map sha cs" using p(1) by (auto simp: list_all2_conv_all_nth intro!: nth_equalityI)
    with coherent_functional [OF i] dg show ?thesis by simp
  qed
  have blobs: "serves_blob E (compressedImage_core E ?ti) (m_Layers ?m ! k) (cs ! k) (?hs ! k)" if k: "k < length cs" for k
  proof -
    have "sha (cs ! k) \<in> set (map sha cs)" using k by simp
    from find_index_found [OF this] obtain j where j: "j < length cs" "find_index (map sha cs) (sha (cs ! k)) = Some j" "sha (cs ! j) = sha (cs ! k)" by auto
    then have "cs ! j = cs ! k" using inj k by (auto dest: inj_onD)
    moreover have "find_index (map (d_Digest \<circ> reread_descriptor m) cs) (sha (cs ! k)) = Some j" using j(2) by (simp only: dg')
    ultimately show ?thesis using j(1) mf ex [of "cs ! k"] k rd(1) [of "cs ! k"] rd(2) [of "cs ! k"]
      by (simp add: serves_blob_def compressedImage_core_def compressedImage_LayerByDigest_def index_res_def compressedLayerFromTarball_def ml)
  qed
  show ?thesis
    using dc dec mf ml(2,3) p rd f blobs
    by (intro copy_of_contents [where cf = cf]) (auto simp: compressedImage_core_def partial_RawManifest_def ml list_all2_conv_all_nth)
qed

text \<open>Without layers the image is taken for one of uncompressed layers, which is the same.\<close>

lemma empty_from_archive:
  assumes "decode_config E rc = Inr cf" and "rf_DiffIDs (cf_RootFS cf) = []"
    and "decode_manifest E (marshal_manifest E (tar_empty_manifest rc)) = Inr (tar_empty_manifest rc)" and "ti_config ti = rc"
  shows "pulled_as E (UncompressedToImage E (uncompressedImage_core E ti)) (marshal_manifest E (tar_empty_manifest rc)) rc []"
proof -
  let ?c = "uncompressedImage_core E ti"
  have m: "uie_Manifest E ?c = Inr (tar_empty_manifest rc)" and l: "uie_Layers E ?c = Inr []"
    using assms(1,2,4)
    by (simp_all add: uie_Manifest_def uie_Layers_def uncompressedImage_core_def partial_ConfigFile_def ParseConfigFile_def
        partial_DiffIDs_def tar_empty_manifest_def SHA256_def)
  have "honest_uncompressed_core E ?c"
    using assms m by (simp add: honest_uncompressed_core_def uncompressedImage_core_def [of E ti])
  then have "coherent E (UncompressedToImage E ?c)" by (rule UncompressedToImage_coherent)
  with m l assms(4) show ?thesis
    by (simp add: pulled_as_def UncompressedToImage_def Let_def partial_RawManifest_def partial_Digest_def sha_def uncompressedImage_core_def [of E ti])
qed

lemma image_from_archive:
  assumes ar: "archivable E i m rc cs" and inj: "inj_on sha (contents rs)" and rs: "(rc, cs) \<in> set rs"
    and cf: "coherent_parts E i rc cf rm m ls"
    and src: "sources_agree m cs (rf_DiffIDs (cf_RootFS cf)) srcs" and un: "untar E a = (archive_entries rs mb, None)"
    and dm: "tj_decode J mb = Inr (Some tm)"
    and desc: "findDescriptor tm t = Inr \<lparr>td_Config = Hash_String (sha rc), td_RepoTags = tags,
        td_Layers = map (\<lambda>c. layerFile (sha c)) cs, td_LayerSources = srcs\<rparr>"
  shows "\<exists>j. tarball_Image E J (Inr a) t = Inr j \<and> pulled_as E j (marshal_manifest E (reread_manifest m rc cs)) rc cs"
proof -
  from ar cf obtain cf' rm' ls' where p: "coherent_parts E i rc cf' rm' m ls'" "list_all2 (\<lambda>l c. l_Compressed l = Inr c) ls' cs"
    and gz: "list_all (\<lambda>c. 2 < length c \<and> take 2 c = gzipMagicHeader) cs"
    and dec: "decode_manifest E (marshal_manifest E (reread_manifest m rc cs)) = Inr (reread_manifest m rc cs)"
    unfolding archivable_def by blast
  have "cf' = cf" using p(1) cf by (simp add: coherent_parts_def)
  note p1 = p(1) [unfolded this]
  let ?td = "\<lparr>td_Config = Hash_String (sha rc), td_RepoTags = tags, td_Layers = map (\<lambda>c. layerFile (sha c)) cs, td_LayerSources = srcs\<rparr>"
  let ?ti = "\<lparr>ti_opener = Inr a, ti_config = rc, ti_imgDescriptor = ?td\<rparr>"
  have "insert rc (set cs) \<subseteq> contents rs" using contents_intro [OF rs] by blast
  then have inj': "inj_on sha (insert rc (set cs))" using inj inj_on_subset by blast
  have ex: "extractFileFromTar E (Inr a) (layerFile (sha c)) = Inr c" if "c \<in> set cs" for c
    by (rule extract_found [OF un archive_layer [OF inj rs that]])
  have load: "loadTarDescriptorAndConfig E J (Inr a) t = Inr ?ti"
    using extract_found [OF un archive_manifest] extract_found [OF un archive_config [OF inj rs]] dm desc
    by (simp add: loadTarDescriptorAndConfig_def)
  show ?thesis
  proof (cases cs)
    case Nil
    have "rf_DiffIDs (cf_RootFS cf) = []" "decode_config E rc = Inr cf"
      using coherent_parts_contents(2) [OF p1 p(2)] Nil p1 by (simp_all add: coherent_parts_def)
    moreover have "reread_manifest m rc cs = tar_empty_manifest rc" using Nil by (simp add: reread_manifest_def tar_empty_manifest_def split: prod.splits)
    ultimately show ?thesis
      using empty_from_archive [of E rc cf ?ti] dec load Nil by (simp add: tarball_Image_def)
  next
    case (Cons c cs')
    have "areLayersCompressed E ?ti = Inr True"
      using ex [of c] gz Cons by (simp add: areLayersCompressed_def tar_first_read_def IsGzipped_def)
    then have "tarball_Image E J (Inr a) t = Inr (CompressedToImage E (compressedImage_core E ?ti))"
      using load Cons by (simp add: tarball_Image_def)
    with served_from_archive [OF p1 p(2) inj' dec src ex] show ?thesis by simp
  qed
qed

section \<open>The image of a tag\<close>

lemma find_tagged_ok:
  assumes "\<And>s. s \<in> set tags \<Longrightarrow> \<exists>t. NewTag s [] = Inr t"
  shows "find_tagged n img tags = Inr (\<exists>s\<in>set tags. \<exists>t. NewTag s [] = Inr t \<and> Tag_Name t = n)"
  using assms
proof (induction tags)
  case (Cons s tags)
  then obtain t where "NewTag s [] = Inr t" by auto
  with Cons show ?case by auto
qed simp

lemma find_image_ok:
  assumes "\<forall>d\<in>set tm. \<forall>s\<in>set (td_RepoTags d). \<exists>t. NewTag s [] = Inr t"
    and "d \<in> set tm" and "s \<in> set (td_RepoTags d)" and "NewTag s [] = Inr t'" and "Tag_Name t' = Tag_Name t"
  shows "\<exists>d s t'. find_image t tm = Inr d \<and> d \<in> set tm \<and> s \<in> set (td_RepoTags d) \<and> NewTag s [] = Inr t' \<and> Tag_Name t' = Tag_Name t"
  using assms
proof (induction tm)
  case (Cons x tm)
  have f: "find_tagged (Tag_Name t) x (td_RepoTags x) = Inr (\<exists>s\<in>set (td_RepoTags x). \<exists>t''. NewTag s [] = Inr t'' \<and> Tag_Name t'' = Tag_Name t)"
    using Cons.prems(1) by (intro find_tagged_ok) auto
  show ?case
  proof (cases "\<exists>s\<in>set (td_RepoTags x). \<exists>t''. NewTag s [] = Inr t'' \<and> Tag_Name t'' = Tag_Name t")
    case True
    with f show ?thesis by auto
  next
    case False
    with Cons.prems have "d \<in> set tm" by auto
    moreover have "\<forall>d\<in>set tm. \<forall>s\<in>set (td_RepoTags d). \<exists>t. NewTag s [] = Inr t" using Cons.prems(1) by simp
    ultimately have "\<exists>d s t'. find_image t tm = Inr d \<and> d \<in> set tm \<and> s \<in> set (td_RepoTags d) \<and> NewTag s [] = Inr t' \<and> Tag_Name t' = Tag_Name t"
      using Cons.IH Cons.prems(3-5) by blast
    with False f show ?thesis by auto
  qed
qed simp

section \<open>Writing\<close>

text \<open>The images that are written: at each address an image with its manifest, its config file and its contents.\<close>

definition archivable_images :: "codec \<Rightarrow> (nat \<Rightarrow> image) \<Rightarrow> (nat \<Rightarrow> manifest) \<Rightarrow> (nat \<Rightarrow> bytes \<times> bytes list) \<Rightarrow> ref_images \<Rightarrow> bool" where
  "archivable_images E imgs ms content refs \<longleftrightarrow>
     (\<forall>a\<in>snd ` set refs. archivable E (imgs a) (ms a) (fst (content a)) (snd (content a))) \<and>
     inj_on sha (\<Union>a\<in>snd ` set refs. insert (fst (content a)) (set (snd (content a))))"

definition written_images :: "(nat \<Rightarrow> bytes \<times> bytes list) \<Rightarrow> map_order \<Rightarrow> ref_images \<Rightarrow> (bytes \<times> bytes list) list" where
  "written_images content ord refs = map (content \<circ> fst) (ord_images ord (dedupRefToImage ord refs))"

lemma written_set:
  assumes "fair_map_order ord"
  shows "set (written_images content ord refs) = content ` snd ` set refs"
proof -
  have "fst ` set (ord_images ord (dedupRefToImage ord refs)) = snd ` set refs"
    using dedup_images [OF assms, of refs] by (simp add: dedup_spec_def)
  then show ?thesis by (metis written_images_def image_comp set_map)
qed

lemma written_contents:
  assumes "fair_map_order ord" and "archivable_images E imgs ms content refs"
  shows "inj_on sha (contents (written_images content ord refs))"
proof -
  have "contents (written_images content ord refs) = (\<Union>a\<in>snd ` set refs. insert (fst (content a)) (set (snd (content a))))"
    unfolding contents_def written_set [OF assms(1)] by (simp add: case_prod_beta)
  with assms(2) show ?thesis by (simp add: archivable_images_def)
qed

lemma archivable_at:
  assumes "archivable_images E imgs ms content refs" and "a \<in> snd ` set refs"
  shows "\<exists>cf rm ls. coherent_parts E (imgs a) (fst (content a)) cf rm (ms a) ls \<and>
      list_all2 (\<lambda>l c. l_Compressed l = Inr c) ls (snd (content a)) \<and> inj_on sha (insert (fst (content a)) (set (snd (content a))))"
proof -
  have "insert (fst (content a)) (set (snd (content a))) \<subseteq> (\<Union>a\<in>snd ` set refs. insert (fst (content a)) (set (snd (content a))))"
    using assms(2) by blast
  with assms show ?thesis unfolding archivable_images_def archivable_def by (meson inj_on_subset)
qed

lemma calculateManifest_ok:
  assumes "fair_map_order ord" and "archivable_images E imgs ms content refs"
  shows "\<exists>tm. calculateManifest imgs ord refs = Inr tm \<and>
    set tm = {d. \<exists>(a, tags)\<in>set (ord_images ord (dedupRefToImage ord refs)). image_tar_descriptor (imgs a) tags = Inr d}"
proof -
  let ?its = "ord_images ord (dedupRefToImage ord refs)" and ?f = "\<lambda>(a, tags). image_tar_descriptor (imgs a) tags"
  have dom: "fst ` set ?its = snd ` set refs" using dedup_images [OF assms(1), of refs] by (simp add: dedup_spec_def)
  have "\<exists>d. ?f it = Inr d" if "it \<in> set ?its" for it
  proof -
    obtain a tags where it: "it = (a, tags)" by (cases it)
    with that dom have "a \<in> snd ` set refs" by force
    from archivable_at [OF assms(2) this] obtain cf rm ls where
      "coherent_parts E (imgs a) (fst (content a)) cf rm (ms a) ls" "list_all2 (\<lambda>l c. l_Compressed l = Inr c) ls (snd (content a))"
      "inj_on sha (insert (fst (content a)) (set (snd (content a))))" by blast
    from image_tar_descriptor_ok [OF this, of tags] it show ?thesis by auto
  qed
  then obtain g where g: "\<And>it. it \<in> set ?its \<Longrightarrow> ?f it = Inr (g it)" by metis
  then have "map_res ?f ?its = Inr (map g ?its)" by (rule map_res_all_ok)
  then have "calculateManifest imgs ord refs = Inr (sort_key (\<lambda>d. join_with (CHR '','') (td_RepoTags d)) (map g ?its))"
    by (simp add: calculateManifest_def)
  moreover have "g ` set ?its = {d. \<exists>it\<in>set ?its. ?f it = Inr d}" using g by auto
  ultimately show ?thesis by (auto simp: case_prod_beta)
qed

lemma images_size_ok:
  assumes "\<And>a tags. (a, tags) \<in> set its \<Longrightarrow> \<exists>m. i_Manifest (imgs a) = Inr m"
  shows "\<exists>n. images_size imgs its z = Inr n"
  using assms
proof (induction its arbitrary: z)
  case (Cons it its)
  obtain a tags where it: "it = (a, tags)" by (cases it)
  with Cons.prems obtain m where "i_Manifest (imgs a) = Inr m" by (metis list.set_intros(1))
  moreover have "\<exists>n. images_size imgs its z' = Inr n" for z' using Cons by (meson list.set_intros(2))
  ultimately show ?case using it by (simp add: wrap_def)
qed simp

lemma getSizeAndManifest_ok:
  assumes "fair_map_order ord1" and "fair_map_order ord2" and "archivable_images E imgs ms content refs"
    and "calculateManifest imgs ord1 refs = Inr tm"
  shows "\<exists>n. getSizeAndManifest J imgs ord1 ord2 refs = Inr (n, tm, tj_marshal J tm)"
proof -
  let ?its = "ord_images ord2 (dedupRefToImage ord2 refs)"
  have dom: "fst ` set ?its = snd ` set refs" using dedup_images [OF assms(2), of refs] by (simp add: dedup_spec_def)
  have "\<exists>m. i_Manifest (imgs a) = Inr m" if "(a, tags) \<in> set ?its" for a tags
  proof -
    from that dom have "a \<in> snd ` set refs" by force
    from archivable_at [OF assms(3) this] show ?thesis by (auto simp: coherent_parts_def)
  qed
  from images_size_ok [where its = ?its and z = 0 and imgs = imgs] this obtain n where "images_size imgs ?its 0 = Inr n" by auto
  with assms(4) show ?thesis by (simp add: getSizeAndManifest_def calculateTarballSize_def wrap_def Let_def)
qed

lemma MultiRefWrite_ok:
  assumes "fair_map_order ord1" and "fair_map_order ord2" and "fair_map_order ord3" and "archivable_images E imgs ms content refs"
    and "calculateManifest imgs ord1 refs = Inr tm"
  shows "MultiRefWrite E J imgs ord1 ord2 ord3 refs (Some out) =
    bnd (mktar E (archive_entries (written_images content ord3 refs) (tj_marshal J tm))) (\<lambda>a. Inr (out @ a))"
proof -
  let ?its = "ord_images ord3 (dedupRefToImage ord3 refs)"
  have dom: "fst ` set ?its = snd ` set refs" using dedup_images [OF assms(3), of refs] by (simp add: dedup_spec_def)
  have "image_carries (imgs a) (content a)" if "(a, tags) \<in> set ?its" for a tags
  proof -
    from that dom have "a \<in> snd ` set refs" by force
    with assms(4) have "archivable E (imgs a) (ms a) (fst (content a)) (snd (content a))" unfolding archivable_images_def by blast
    from archivable_carries [OF this] show ?thesis by simp
  qed
  then have "list_all (\<lambda>(a, _). image_carries (imgs a) (content a)) ?its" by (auto simp: list_all_iff)
  from writeImages_ok [OF this, of tar_NewWriter "[]"] getSizeAndManifest_ok [OF assms(1,2,4,5), of J]
  show ?thesis
    by (auto simp: MultiRefWrite_def writeImagesToTar_def tar_NewWriter_def writeTarEntry_ok tar_Close_def archive_entries_def written_images_def)
qed

section \<open>Writing and reading back\<close>

text \<open>Every tag parses to a tag of the same name, and tags of the same name are of the same image.\<close>

definition tags_readable :: "ref_images \<Rightarrow> bool" where
  "tags_readable refs \<longleftrightarrow>
     (\<forall>t a. (RefTag t, a) \<in> set refs \<longrightarrow> (\<exists>t'. NewTag (Tag_String t) [] = Inr t' \<and> Tag_Name t' = Tag_Name t)) \<and>
     (\<forall>t a t' a'. (RefTag t, a) \<in> set refs \<longrightarrow> (RefTag t', a') \<in> set refs \<longrightarrow> Tag_Name t = Tag_Name t' \<longrightarrow> a = a')"

lemma find_described:
  assumes dd: "dedup_spec refs its" and tr: "tags_readable refs" and ta: "(RefTag t, a) \<in> set refs"
    and fwd: "\<forall>(b, tags)\<in>set its. \<exists>d\<in>set tm. R b tags d" and bwd: "\<forall>d\<in>set tm. \<exists>(b, tags)\<in>set its. R b tags d"
    and rt: "\<forall>b tags d. R b tags d \<longrightarrow> td_RepoTags d = tags"
  shows "\<exists>d tags. findDescriptor tm (Some t) = Inr d \<and> d \<in> set tm \<and> R a tags d"
proof -
  have dom: "fst ` set its = snd ` set refs"
    and tg: "\<And>b tags. (b, tags) \<in> set its \<Longrightarrow> set tags = {Tag_String t |t. (RefTag t, b) \<in> set refs}"
    using dd unfolding dedup_spec_def by blast+
  have origin: "\<exists>b t'. (RefTag t', b) \<in> set refs \<and> s = Tag_String t' \<and> (\<exists>tags. R b tags d)"
    if "d \<in> set tm" "s \<in> set (td_RepoTags d)" for d s
  proof -
    from that(1) bwd obtain b tags where b: "(b, tags) \<in> set its" "R b tags d" by blast
    with tg [OF b(1)] rt that(2) show ?thesis by blast
  qed
  from ta dom obtain tags where it: "(a, tags) \<in> set its" by force
  with fwd obtain d where d: "d \<in> set tm" "R a tags d" by blast
  have st: "Tag_String t \<in> set (td_RepoTags d)" using tg [OF it] rt d(2) ta by auto
  obtain t1 where t1: "NewTag (Tag_String t) [] = Inr t1" "Tag_Name t1 = Tag_Name t"
    using tr ta unfolding tags_readable_def by blast
  have ok: "\<forall>d\<in>set tm. \<forall>s\<in>set (td_RepoTags d). \<exists>t. NewTag s [] = Inr t"
    using origin tr unfolding tags_readable_def by metis
  from find_image_ok [OF ok d(1) st t1] obtain d' s t' where f: "find_image t tm = Inr d'" "d' \<in> set tm" "s \<in> set (td_RepoTags d')"
    "NewTag s [] = Inr t'" "Tag_Name t' = Tag_Name t" by blast
  from origin [OF f(2,3)] obtain b t2 tags' where b: "(RefTag t2, b) \<in> set refs" "s = Tag_String t2" "R b tags' d'" by blast
  from tr b(1,2) f(4) have "Tag_Name t' = Tag_Name t2" unfolding tags_readable_def by (metis Inr_inject)
  with f(5) tr ta b(1) have "b = a" unfolding tags_readable_def by metis
  with f(1,2) b(3) show ?thesis by (auto simp: findDescriptor_def)
qed

lemma find_written:
  assumes "fair_map_order ord" and "archivable_images E imgs ms content refs" and "calculateManifest imgs ord refs = Inr tm"
    and "tags_readable refs" and "(RefTag t, a) \<in> set refs"
  shows "\<exists>d tags. findDescriptor tm (Some t) = Inr d \<and> image_tar_descriptor (imgs a) tags = Inr d"
proof -
  let ?its = "ord_images ord (dedupRefToImage ord refs)"
  note dd = dedup_images [OF assms(1), of refs]
  from calculateManifest_ok [OF assms(1,2)] assms(3)
  have tm: "set tm = {d. \<exists>(b, tags)\<in>set ?its. image_tar_descriptor (imgs b) tags = Inr d}" by auto
  have "\<exists>d\<in>set tm. image_tar_descriptor (imgs b) tags = Inr d" if b: "(b, tags) \<in> set ?its" for b tags
  proof -
    from b dd have "b \<in> snd ` set refs" by (force simp: dedup_spec_def)
    from archivable_at [OF assms(2) this] obtain cf rm ls where
      "coherent_parts E (imgs b) (fst (content b)) cf rm (ms b) ls" "list_all2 (\<lambda>l c. l_Compressed l = Inr c) ls (snd (content b))"
      "inj_on sha (insert (fst (content b)) (set (snd (content b))))" by blast
    from image_tar_descriptor_ok [OF this, of tags] b show ?thesis unfolding tm by blast
  qed
  moreover have "\<forall>d\<in>set tm. \<exists>(b, tags)\<in>set ?its. image_tar_descriptor (imgs b) tags = Inr d" unfolding tm by blast
  moreover have "\<forall>b tags d. image_tar_descriptor (imgs b) tags = Inr d \<longrightarrow> td_RepoTags d = tags" by (auto simp: image_tar_descriptor_def)
  ultimately show ?thesis
    using find_described [OF dd assms(4,5), where R = "\<lambda>b tags d. image_tar_descriptor (imgs b) tags = Inr d" and tm = tm] by blast
qed

lemma write_read:
  assumes "fair_map_order ord1" and "fair_map_order ord2" and "fair_map_order ord3"
    and "archivable_images E imgs ms content refs" and "tags_readable refs"
    and "\<forall>tm. calculateManifest imgs ord1 refs = Inr tm \<longrightarrow> tj_decode J (tj_marshal J tm) = Inr (Some tm)"
  shows "\<exists>es. MultiRefWrite E J imgs ord1 ord2 ord3 refs (Some []) = mktar E es \<and>
    (\<forall>a. mktar E es = Inr a \<longrightarrow> untar E a = (es, None) \<longrightarrow>
      (\<forall>t x. (RefTag t, x) \<in> set refs \<longrightarrow>
        (\<exists>j. tarball_Image E J (Inr a) (Some t) = Inr j \<and>
             pulled_as E j (marshal_manifest E (reread_manifest (ms x) (fst (content x)) (snd (content x)))) (fst (content x)) (snd (content x)))))"
proof -
  from calculateManifest_ok [OF assms(1,4)] obtain tm where tm: "calculateManifest imgs ord1 refs = Inr tm" by blast
  let ?rs = "written_images content ord3 refs"
  let ?es = "archive_entries ?rs (tj_marshal J tm)"
  have dm: "tj_decode J (tj_marshal J tm) = Inr (Some tm)" using assms(6) tm by blast
  have "\<exists>j. tarball_Image E J (Inr a) (Some t) = Inr j \<and>
      pulled_as E j (marshal_manifest E (reread_manifest (ms x) (fst (content x)) (snd (content x)))) (fst (content x)) (snd (content x))"
    if un: "untar E a = (?es, None)" and tx: "(RefTag t, x) \<in> set refs" for a t x
  proof -
    from find_written [OF assms(1,4) tm assms(5) tx] obtain d tags where
      d: "findDescriptor tm (Some t) = Inr d" "image_tar_descriptor (imgs x) tags = Inr d" by blast
    from tx have x: "x \<in> snd ` set refs" by force
    from archivable_at [OF assms(4) x] obtain cf rm ls where p: "coherent_parts E (imgs x) (fst (content x)) cf rm (ms x) ls"
      "list_all2 (\<lambda>l c. l_Compressed l = Inr c) ls (snd (content x))" "inj_on sha (insert (fst (content x)) (set (snd (content x))))" by blast
    from image_tar_descriptor_ok [OF p, of tags] d(2) obtain srcs where
      srcs: "d = \<lparr>td_Config = Hash_String (sha (fst (content x))), td_RepoTags = tags,
        td_Layers = map (\<lambda>c. layerFile (sha c)) (snd (content x)), td_LayerSources = srcs\<rparr>"
      "sources_agree (ms x) (snd (content x)) (rf_DiffIDs (cf_RootFS cf)) srcs" by auto
    have ar: "archivable E (imgs x) (ms x) (fst (content x)) (snd (content x))" using assms(4) x unfolding archivable_images_def by blast
    have "content x \<in> set ?rs" using x by (simp add: written_set [OF assms(3)])
    then have rs: "(fst (content x), snd (content x)) \<in> set ?rs" by simp
    show ?thesis
      by (rule image_from_archive [OF ar written_contents [OF assms(3,4)] rs p(1) srcs(2) un dm d(1) [unfolded srcs(1)]])
  qed
  moreover have "MultiRefWrite E J imgs ord1 ord2 ord3 refs (Some []) = mktar E ?es"
    using MultiRefWrite_ok [OF assms(1-4) tm, of J "[]"] by simp
  ultimately show ?thesis by blast
qed

text \<open>
  C10. An archive of coherent images of gzipped layers, without two contents of one hash, is written
  whatever the order in which the maps of references and images are gone through; and where its entries are
  read as they were written, each tag gives back an image with the config file and the layers of its image,
  under the manifest that is made up for them.
\<close>

theorem tarball_write_read:
  assumes "fair_map_order ord1" and "fair_map_order ord2" and "fair_map_order ord3"
    and "archivable_images E imgs ms content refs" and "tags_readable refs"
    and "\<forall>tm. calculateManifest imgs ord1 refs = Inr tm \<longrightarrow> tj_decode J (tj_marshal J tm) = Inr (Some tm)"
  shows "\<exists>es. MultiRefWrite E J imgs ord1 ord2 ord3 refs (Some []) = mktar E es \<and>
    (\<forall>a. mktar E es = Inr a \<longrightarrow> untar E a = (es, None) \<longrightarrow>
      (\<forall>t x. (RefTag t, x) \<in> set refs \<longrightarrow>
        (\<exists>j. tarball_Image E J (Inr a) (Some t) = Inr j \<and>
             pulled_as E j (marshal_manifest E (reread_manifest (ms x) (fst (content x)) (snd (content x)))) (fst (content x)) (snd (content x)))))"
  by (rule write_read [OF assms])

section \<open>A manifest that was left unfinished\<close>

text \<open>When Manifest fails, it has already kept the layers that it found: the next call returns these.\<close>

lemma failed_manifest_kept:
  assumes "compressedImage_Manifest E c None = (Inl e, field)"
  shows "\<exists>m. field = Some m \<and> compressedImage_Manifest E c field = (Inr m, field)"
  using assms by (auto simp: compressedImage_Manifest_def split: prod.splits)

section \<open>The hypotheses can hold\<close>

definition demo_content :: bytes where
  "demo_content = gzipMagicHeader @ ''abc''"

definition demo_config_file :: config_file where
  "demo_config_file = zero_config_file\<lparr>cf_RootFS := \<lparr>rf_Type = ''layers'', rf_DiffIDs = [sha ''abc'']\<rparr>\<rparr>"

definition demo_archive_manifest :: manifest where
  "demo_archive_manifest = (tar_empty_manifest demo_content)\<lparr>m_Layers := [docker_descriptor demo_content]\<rparr>"

definition demo_entries :: "tar_entry list" where
  "demo_entries = archive_entries [(demo_content, [demo_content])] ''j''"

definition archive_codec :: "(tar_entry list \<Rightarrow> bytes res) \<Rightarrow> codec" where
  "archive_codec mk = (table_codec [demo_archive_manifest] [] [])\<lparr>mktar := mk, untar := (\<lambda>_. (demo_entries, None)), decode_config := (\<lambda>_. Inr demo_config_file)\<rparr>"

definition demo_tag :: tag where
  "demo_tag = \<lparr>tag_Repository = \<lparr>repo_Registry = \<lparr>reg_insecure = False, reg_registry = ''index.docker.io''\<rparr>, repo_repository = ''app''\<rparr>,
     tag_tag = ''v1'', tag_original = ''app:v1''\<rparr>"

definition demo_tar_descriptor :: tar_descriptor where
  "demo_tar_descriptor = \<lparr>td_Config = Hash_String (sha demo_content), td_RepoTags = [''app:v1''], td_Layers = [layerFile (sha demo_content)],
     td_LayerSources = []\<rparr>"

definition demo_json :: tarball_json where
  "demo_json = \<lparr>tj_marshal = (\<lambda>_. ''j''), tj_decode = (\<lambda>_. Inr (Some [demo_tar_descriptor]))\<rparr>"

definition demo_order :: map_order where
  "demo_order = \<lparr>ord_refs = id, ord_images = id\<rparr>"

definition demo_refs :: ref_images where
  "demo_refs = [(RefTag demo_tag, 0)]"

definition demo_core :: compressed_image_core where
  "demo_core =
     \<lparr>cic_RawConfigFile = Inr demo_content, cic_MediaType = Inr DockerManifestSchema2, cic_RawManifest = Inr ''0'',
      cic_LayerByDigest = (\<lambda>h. Inr \<lparr>cl_Digest = Inr (sha demo_content), cl_Compressed = Inr demo_content,
        cl_Size = Inr (int (length demo_content)), cl_MediaType = Inr DockerLayer, cl_DiffID = None, cl_Descriptor = None, cl_UncompressedSize = None\<rparr>),
      cic_Descriptor = None\<rparr>"

lemma demo_tag_parses: "NewTag ''app:v1'' [] = Inr demo_tag"
  unfolding demo_tag_def by code_simp

lemma demo_fair: "fair_map_order demo_order"
  by (simp add: fair_map_order_def demo_order_def fair_order_def)

lemma char_zero: "(char_of (48 :: nat) :: char) = CHR ''0''"
  by code_simp

lemma demo_archive_decode:
  "decode_manifest (archive_codec mk) ''0'' = Inr demo_archive_manifest" "decode_config (archive_codec mk) b = Inr demo_config_file"
  "marshal_manifest (archive_codec mk) demo_archive_manifest = ''0''" "gunzip (archive_codec mk) demo_content = Inr ''abc''"
  "mktar (archive_codec mk) = mk" "untar (archive_codec mk) a = (demo_entries, None)"
  by (simp_all add: archive_codec_def table_codec_def parse_digits_def digit_val_def demo_content_def gzipMagicHeader_def show_nat.simps digit_char_def char_zero)

lemma demo_sha: "SHA256 demo_content = (sha demo_content, 5)"
  by (simp add: sha_def SHA256_def demo_content_def gzipMagicHeader_def)

lemma demo_length: "length demo_content = 5" "take 2 demo_content = gzipMagicHeader"
  by (simp_all add: demo_content_def gzipMagicHeader_def)

lemma demo_parts:
  "\<exists>ls. coherent_parts (archive_codec mk) (CompressedToImage (archive_codec mk) demo_core) demo_content demo_config_file ''0'' demo_archive_manifest ls \<and>
     list_all2 (\<lambda>l c. l_Compressed l = Inr c) ls [demo_content]"
proof -
  let ?E = "archive_codec mk" and ?i = "CompressedToImage (archive_codec mk) demo_core"
  have "honest_compressed_core ?E demo_core"
    by (simp add: honest_compressed_core_def demo_core_def demo_archive_decode demo_archive_manifest_def demo_config_file_def tar_empty_manifest_def demo_sha demo_length
        docker_descriptor_def honest_blob_def honest_compressed_def cle_DiffID_def cle_Uncompressed_def GunzipReadCloser_def sha_def [symmetric] functional_def)
  then obtain rc cf rm m ls where p: "coherent_parts ?E ?i rc cf rm m ls" using CompressedToImage_coherent unfolding coherent_def by blast
  have "i_RawConfigFile ?i = Inr rc" "i_RawManifest ?i = Inr rm" using p by (simp_all add: coherent_parts_def)
  then have e: "rc = demo_content" "rm = ''0''" by (auto simp: CompressedToImage_def demo_core_def)
  have "decode_config ?E rc = Inr cf" "decode_manifest ?E rm = Inr m" using p by (simp_all add: coherent_parts_def)
  then have e2: "cf = demo_config_file" "m = demo_archive_manifest" by (simp_all add: e demo_archive_decode)
  have "cie_Layers ?E demo_core = Inr ls" using p by (simp add: coherent_parts_def CompressedToImage_def)
  then have "list_all2 (\<lambda>l c. l_Compressed l = Inr c) ls [demo_content]"
    by (auto simp: cie_Layers_def FSLayers_def partial_Manifest_def ParseManifest_def demo_core_def demo_archive_decode demo_archive_manifest_def cie_LayerByDigest_def CompressedToLayer_def)
  with p e e2 show ?thesis by blast
qed

lemma demo_reread: "reread_manifest demo_archive_manifest demo_content [demo_content] = demo_archive_manifest"
  by (simp add: reread_manifest_def reread_descriptor_def BlobDescriptor_def demo_archive_manifest_def tar_empty_manifest_def demo_sha
      IsDistributable_def media_type_defs docker_descriptor_def demo_length)

abbreviation demo_images :: "(tar_entry list \<Rightarrow> bytes res) \<Rightarrow> nat \<Rightarrow> image" where
  "demo_images mk \<equiv> (\<lambda>_. CompressedToImage (archive_codec mk) demo_core)"

lemma demo_archivable:
  "archivable_images (archive_codec mk) (demo_images mk) (\<lambda>_. demo_archive_manifest) (\<lambda>_. (demo_content, [demo_content])) demo_refs"
  using demo_parts [of mk]
  by (auto simp: archivable_images_def archivable_def demo_refs_def demo_length demo_reread demo_archive_decode)

lemma demo_calculated: "calculateManifest (demo_images mk) demo_order demo_refs = Inr [demo_tar_descriptor]"
proof -
  let ?i = "CompressedToImage (archive_codec mk) demo_core"
  from demo_parts [of mk] obtain ls where p: "coherent_parts (archive_codec mk) ?i demo_content demo_config_file ''0'' demo_archive_manifest ls"
    "list_all2 (\<lambda>l c. l_Compressed l = Inr c) ls [demo_content]" by blast
  then have i: "i_ConfigName ?i = Inr (sha demo_content)" "i_Layers ?i = Inr ls" "i_Manifest ?i = Inr demo_archive_manifest"
    by (simp_all add: coherent_parts_def)
  from coherent_carries [OF p] obtain l where l: "ls = [l]" "l_Digest l = Inr (sha demo_content)"
    by (auto simp: list_all2_Cons2 carries_def)
  have "image_tar_descriptor ?i [''app:v1''] = Inr demo_tar_descriptor"
    using i l by (simp add: image_tar_descriptor_def BlobDescriptor_def demo_archive_manifest_def tar_empty_manifest_def demo_sha
        IsDistributable_def media_type_defs demo_tar_descriptor_def)
  then show ?thesis
    by (simp add: calculateManifest_def demo_order_def demo_refs_def dedupRefToImage_def dedup_add_def demo_tag_def Tag_String_def)
qed

lemma demo_readable: "tags_readable demo_refs"
proof -
  have "Tag_String demo_tag = ''app:v1''" by (simp add: demo_tag_def Tag_String_def)
  with demo_tag_parses show ?thesis by (auto simp: tags_readable_def demo_refs_def)
qed

lemma demo_json_ok: "\<forall>tm. calculateManifest (demo_images mk) demo_order demo_refs = Inr tm \<longrightarrow> tj_decode demo_json (tj_marshal demo_json tm) = Inr (Some tm)"
  by (simp add: demo_calculated demo_json_def)

lemma demo_written:
  "MultiRefWrite (archive_codec mk) demo_json (demo_images mk) demo_order demo_order demo_order demo_refs (Some []) = mk demo_entries"
proof -
  have "written_images (\<lambda>_. (demo_content, [demo_content])) demo_order demo_refs = [(demo_content, [demo_content])]"
    by (simp add: written_images_def demo_order_def demo_refs_def dedupRefToImage_def dedup_add_def)
  then show ?thesis
    using MultiRefWrite_ok [OF demo_fair demo_fair demo_fair demo_archivable demo_calculated, of mk demo_json "[]"]
    by (simp add: demo_archive_decode demo_entries_def demo_json_def)
qed

theorem tarball_write_read_witness:
  "\<exists>j. MultiRefWrite (archive_codec (\<lambda>es. if es = demo_entries then Inr ''t'' else Inl ErrEOF)) demo_json
       (demo_images (\<lambda>es. if es = demo_entries then Inr ''t'' else Inl ErrEOF)) demo_order demo_order demo_order demo_refs (Some []) = Inr ''t'' \<and>
     tarball_Image (archive_codec (\<lambda>es. if es = demo_entries then Inr ''t'' else Inl ErrEOF)) demo_json (Inr ''t'') (Some demo_tag) = Inr j \<and>
     pulled_as (archive_codec (\<lambda>es. if es = demo_entries then Inr ''t'' else Inl ErrEOF)) j ''0'' demo_content [demo_content]"
proof -
  define mk :: "tar_entry list \<Rightarrow> bytes res" where "mk = (\<lambda>es. if es = demo_entries then Inr ''t'' else Inl ErrEOF)"
  from tarball_write_read [OF demo_fair demo_fair demo_fair demo_archivable [of mk] demo_readable demo_json_ok [of mk]] obtain es where
    es: "MultiRefWrite (archive_codec mk) demo_json (demo_images mk) demo_order demo_order demo_order demo_refs (Some []) = mktar (archive_codec mk) es"
    and rd: "\<forall>a. mktar (archive_codec mk) es = Inr a \<longrightarrow> untar (archive_codec mk) a = (es, None) \<longrightarrow>
      (\<forall>t x. (RefTag t, x) \<in> set demo_refs \<longrightarrow>
        (\<exists>j. tarball_Image (archive_codec mk) demo_json (Inr a) (Some t) = Inr j \<and>
          pulled_as (archive_codec mk) j (marshal_manifest (archive_codec mk) (reread_manifest demo_archive_manifest demo_content [demo_content]))
            demo_content [demo_content]))" by auto
  have w: "MultiRefWrite (archive_codec mk) demo_json (demo_images mk) demo_order demo_order demo_order demo_refs (Some []) = Inr ''t''"
    by (simp add: demo_written) (simp add: mk_def)
  then have "mk es = Inr ''t''" using es by (simp add: demo_archive_decode)
  moreover from this have "es = demo_entries" by (simp add: mk_def split: if_splits)
  moreover have "(RefTag demo_tag, 0) \<in> set demo_refs" by (simp add: demo_refs_def)
  ultimately show ?thesis using rd w unfolding mk_def [symmetric] by (simp add: demo_archive_decode demo_reread) blast
qed

end
