(* ===== verification/Tarball_Size.thy ===== *)
theory Tarball_Size
  imports Tarball_Archive
begin

text \<open>
  The size that is announced for an archive, and the length of the archive.
\<close>

section \<open>The size of an archive\<close>

definition in_blocks :: "nat \<Rightarrow> int" where
  "in_blocks n = 512 * ((int n + 511) div 512)"

text \<open>The length of an archive: a header and the padded content of each entry, and two blocks at the end.\<close>

definition tar_size :: "tar_entry list \<Rightarrow> int" where
  "tar_size es = (\<Sum>(_, c)\<leftarrow>es. 512 + in_blocks (length c)) + 1024"

definition image_size :: "bytes \<times> bytes list \<Rightarrow> int" where
  "image_size rccs = (case rccs of (rc, cs) \<Rightarrow> 512 + in_blocks (length rc) + (\<Sum>c\<leftarrow>cs. 512 + in_blocks (length c)))"

definition tarball_total :: "(nat \<Rightarrow> bytes \<times> bytes list) \<Rightarrow> ref_images \<Rightarrow> bytes \<Rightarrow> int" where
  "tarball_total content refs mb = (\<Sum>a\<in>snd ` set refs. image_size (content a)) + (512 + in_blocks (length mb)) + 1024"

definition layers_once :: "(nat \<Rightarrow> bytes \<times> bytes list) \<Rightarrow> ref_images \<Rightarrow> bool" where
  "layers_once content refs \<longleftrightarrow>
     (\<forall>a\<in>snd ` set refs. distinct (snd (content a)) \<and>
        (\<forall>b\<in>snd ` set refs. a \<noteq> b \<longrightarrow> set (snd (content a)) \<inter> set (snd (content b)) = {}))"

lemma in_blocks_bounds: "int n \<le> in_blocks n" "in_blocks n \<le> int n + 511" "0 \<le> in_blocks n"
  unfolding in_blocks_def by simp_all

lemma in_blocks_mod: "in_blocks n = (if int n mod 512 = 0 then int n else int n + (512 - int n mod 512))"
proof -
  define q r where "q = int n div 512" and "r = int n mod 512"
  then have n: "int n = r + 512 * q" and r: "0 \<le> r" "r < 512" by simp_all
  have "(int n + 511) div 512 = q + (r + 511) div 512"
    using div_mult_self2 [of 512 "r + 511" q] by (simp add: n algebra_simps)
  moreover have "(r + 511) div 512 = (if r = 0 then 0 else 1)"
    using r div_pos_geq [of 512 "r + 511"] div_pos_pos_trivial [of "r - 1" 512] by simp
  ultimately show ?thesis unfolding in_blocks_def r_def [symmetric] using n by simp
qed

lemma single_file_size:
  assumes "int n + 1023 < 2 ^ 63"
  shows "calculateSingleFileInTarSize (int n) = 512 + in_blocks n"
proof -
  have r: "rem512 (int n) = int n mod 512" by (cases "n = 0") (simp_all add: rem512_def)
  have b: "in_blocks n = (if int n mod 512 = 0 then int n else int n + (512 - int n mod 512))"
    by (rule in_blocks_mod)
  show ?thesis
  proof (cases "int n mod 512 = 0")
    case True
    with b assms show ?thesis by (simp add: calculateSingleFileInTarSize_def Let_def r int64_id)
  next
    case False
    have m: "0 \<le> int n mod 512" "int n mod 512 < 512" by simp_all
    with False assms b show ?thesis
      by (simp add: calculateSingleFileInTarSize_def Let_def r int64_id)
  qed
qed

lemma image_size_nonneg: "0 \<le> image_size p"
  using in_blocks_bounds(3) by (auto simp: image_size_def split: prod.splits intro!: add_nonneg_nonneg sum_list_nonneg)

lemma layers_size:
  assumes "list_all2 (\<lambda>c d. d_Digest d = sha c \<and> d_Size d = int (length c)) cs ds"
    and "0 \<le> z" and "z + (\<Sum>c\<leftarrow>cs. 512 + in_blocks (length c)) < 2 ^ 63 - 1024"
  shows "foldl (\<lambda>z l. int64 (z + calculateSingleFileInTarSize (d_Size l))) z ds = z + (\<Sum>c\<leftarrow>cs. 512 + in_blocks (length c))"
  using assms
proof (induction cs ds arbitrary: z rule: list_all2_induct)
  case (Cons c cs d ds)
  have n: "0 \<le> (\<Sum>c\<leftarrow>cs. 512 + in_blocks (length c))" using in_blocks_bounds(3) by (intro sum_list_nonneg) auto
  have b: "int (length c) \<le> in_blocks (length c)" "0 \<le> in_blocks (length c)" by (rule in_blocks_bounds)+
  have s: "calculateSingleFileInTarSize (d_Size d) = 512 + in_blocks (length c)"
    using Cons.hyps(1) Cons.prems n b by (simp add: single_file_size)
  have w: "int64 (z + (512 + in_blocks (length c))) = z + (512 + in_blocks (length c))"
    using Cons.prems n b by (intro int64_id) simp_all
  show ?case using Cons.IH [of "z + (512 + in_blocks (length c))"] Cons.prems b s w by simp
qed simp

lemma images_size_sum:
  assumes "\<And>a tags. (a, tags) \<in> set its \<Longrightarrow> \<exists>m. i_Manifest (imgs a) = Inr m \<and> d_Size (m_Config m) = int (length (fst (content a))) \<and>
      list_all2 (\<lambda>c d. d_Digest d = sha c \<and> d_Size d = int (length c)) (snd (content a)) (m_Layers m)"
    and "0 \<le> z" and "z + (\<Sum>it\<leftarrow>its. image_size (content (fst it))) < 2 ^ 63 - 1024"
  shows "images_size imgs its z = Inr (z + (\<Sum>it\<leftarrow>its. image_size (content (fst it))))"
  using assms
proof (induction its arbitrary: z)
  case (Cons it its)
  obtain a tags where it: "it = (a, tags)" by (cases it)
  obtain rc cs where c: "content a = (rc, cs)" by (cases "content a")
  from Cons.prems(1) [of a tags] it c obtain m where m: "i_Manifest (imgs a) = Inr m" "d_Size (m_Config m) = int (length rc)"
    "list_all2 (\<lambda>c d. d_Digest d = sha c \<and> d_Size d = int (length c)) cs (m_Layers m)" by auto
  let ?S = "\<Sum>it\<leftarrow>its. image_size (content (fst it))" and ?L = "\<Sum>c\<leftarrow>cs. 512 + in_blocks (length c)"
  have n: "0 \<le> ?S"
  proof (rule sum_list_nonneg)
    fix x assume "x \<in> set (map (\<lambda>it. image_size (content (fst it))) its)"
    then obtain a where "x = image_size (content a)" by auto
    with image_size_nonneg show "0 \<le> x" by simp
  qed
  have l: "0 \<le> ?L" using in_blocks_bounds(3) by (intro sum_list_nonneg) auto
  have b: "int (length rc) \<le> in_blocks (length rc)" "0 \<le> in_blocks (length rc)" by (rule in_blocks_bounds)+
  have t: "z + (512 + in_blocks (length rc) + ?L + ?S) < 2 ^ 63 - 1024" using Cons.prems(3) it c by (simp add: image_size_def algebra_simps)
  have s: "calculateSingleFileInTarSize (int (length rc)) = 512 + in_blocks (length rc)"
    using t n l b Cons.prems(2) by (intro single_file_size) simp
  have w: "int64 (z + (512 + in_blocks (length rc))) = z + (512 + in_blocks (length rc))"
    using t n l b Cons.prems(2) by (intro int64_id) simp_all
  have f: "foldl (\<lambda>z l. int64 (z + calculateSingleFileInTarSize (d_Size l))) (z + (512 + in_blocks (length rc))) (m_Layers m) =
      z + (512 + in_blocks (length rc)) + ?L"
    using layers_size [OF m(3), of "z + (512 + in_blocks (length rc))"] t n b Cons.prems(2) by simp
  have "images_size imgs its (z + (512 + in_blocks (length rc)) + ?L) = Inr (z + (512 + in_blocks (length rc)) + ?L + ?S)"
  proof (rule Cons.IH)
    show "\<exists>m. i_Manifest (imgs a) = Inr m \<and> d_Size (m_Config m) = int (length (fst (content a))) \<and>
        list_all2 (\<lambda>c d. d_Digest d = sha c \<and> d_Size d = int (length c)) (snd (content a)) (m_Layers m)" if "(a, tags) \<in> set its" for a tags
      using Cons.prems(1) [of a tags] that by simp
  qed (use t l b Cons.prems(2) in simp_all)
  with m s w f it c show ?case by (simp add: wrap_def image_size_def algebra_simps)
qed simp

text \<open>The entries that are written; a content that comes again is not written again.\<close>

abbreviation entries_size :: "tar_entry list \<Rightarrow> int" where
  "entries_size es \<equiv> (\<Sum>(_, c)\<leftarrow>es. 512 + in_blocks (length c))"

lemma entry_size [simp]: "(case entry_of p c of (_, c) \<Rightarrow> 512 + in_blocks (length c)) = 512 + in_blocks (length c)"
  by (simp add: entry_of_def)

lemma layer_entries_size_le: "entries_size (fst (layer_entries cs seen)) \<le> (\<Sum>c\<leftarrow>cs. 512 + in_blocks (length c))"
proof (induction cs seen rule: layer_entries.induct)
  case (2 c cs seen)
  then show ?case using in_blocks_bounds(3) [of "length c"] by (cases "Hex (sha c) \<in> set seen") (auto split: prod.splits)
qed simp

lemma layer_entries_size_eq:
  "distinct (map (\<lambda>c. Hex (sha c)) cs) \<Longrightarrow> (\<lambda>c. Hex (sha c)) ` set cs \<inter> set seen = {} \<Longrightarrow>
     entries_size (fst (layer_entries cs seen)) = (\<Sum>c\<leftarrow>cs. 512 + in_blocks (length c))"
proof (induction cs seen rule: layer_entries.induct)
  case (2 c cs seen)
  then have "entries_size (fst (layer_entries cs (Hex (sha c) # seen))) = (\<Sum>c\<leftarrow>cs. 512 + in_blocks (length c))" by auto
  with 2(4) show ?case by (auto split: prod.splits)
qed simp

lemma image_entries_size_le: "entries_size (fst (image_entries rs seen)) \<le> (\<Sum>p\<leftarrow>rs. image_size p)"
proof (induction rs seen rule: image_entries.induct)
  case (2 rc cs rest seen)
  obtain es s where l: "layer_entries cs seen = (es, s)" by (cases "layer_entries cs seen")
  from 2 [OF l [symmetric]] layer_entries_size_le [of cs seen] l show ?case
    by (auto simp: image_size_def split: prod.splits)
qed simp

lemma image_entries_size_eq:
  "distinct (map (\<lambda>c. Hex (sha c)) (concat (map snd rs))) \<Longrightarrow> (\<lambda>c. Hex (sha c)) ` set (concat (map snd rs)) \<inter> set seen = {} \<Longrightarrow>
     entries_size (fst (image_entries rs seen)) = (\<Sum>p\<leftarrow>rs. image_size p)"
proof (induction rs seen rule: image_entries.induct)
  case (2 rc cs rest seen)
  let ?h = "\<lambda>c. Hex (sha c)"
  obtain es s where l: "layer_entries cs seen = (es, s)" by (cases "layer_entries cs seen")
  have s: "set s = set seen \<union> ?h ` set cs" using layer_entries_grows [of cs seen] l by simp
  have d: "distinct (map ?h cs)" "distinct (map ?h (concat (map snd rest)))" "?h ` set cs \<inter> ?h ` set (concat (map snd rest)) = {}"
    using "2.prems"(1) by simp_all
  have n: "?h ` set cs \<inter> set seen = {}" "?h ` set (concat (map snd rest)) \<inter> set seen = {}"
    using "2.prems"(2) by (simp_all add: image_Un Int_Un_distrib2)
  have "?h ` set (concat (map snd rest)) \<inter> set s = {}" unfolding s using d(3) n(2) by blast
  from "2.IH" [OF l [symmetric] d(2) this] layer_entries_size_eq [OF d(1) n(1)] l show ?case
    by (auto simp: image_size_def split: prod.splits)
qed simp

lemma sum_over_images:
  assumes "dedup_spec refs its"
  shows "(\<Sum>it\<leftarrow>its. image_size (content (fst it))) = (\<Sum>a\<in>snd ` set refs. image_size (content a))"
proof -
  from assms have d: "distinct (map fst its)" "set (map fst its) = snd ` set refs" by (simp_all add: dedup_spec_def)
  have "(\<Sum>it\<leftarrow>its. image_size (content (fst it))) = (\<Sum>a\<leftarrow>map fst its. image_size (content a))"
    by (simp add: comp_def)
  also have "\<dots> = (\<Sum>a\<in>snd ` set refs. image_size (content a))" using sum_list_distinct_conv_sum_set [OF d(1)] d(2) by simp
  finally show ?thesis .
qed

lemma written_once:
  assumes "fair_map_order ord" and "archivable_images E imgs ms content refs" and "layers_once content refs"
  shows "distinct (map (\<lambda>c. Hex (sha c)) (concat (map snd (written_images content ord refs))))"
proof -
  let ?its = "ord_images ord (dedupRefToImage ord refs)"
  have d: "distinct (map fst ?its)" "set (map fst ?its) = snd ` set refs"
    using dedup_images [OF assms(1), of refs] by (simp_all add: dedup_spec_def)
  have "distinct (concat (map (snd \<circ> content) as))" if "distinct as" "set as \<subseteq> snd ` set refs" for as
    using that
  proof (induction as)
    case (Cons a as)
    have a: "a \<in> snd ` set refs" using Cons.prems(2) by (simp del: image_iff)
    have "distinct (snd (content a))" using assms(3) a unfolding layers_once_def by blast
    moreover have dis: "set (snd (content a)) \<inter> set (snd (content b)) = {}" if b: "b \<in> set as" for b
    proof -
      have "b \<in> snd ` set refs" using Cons.prems(2) b by (metis list.set_intros(2) subsetD)
      moreover have "a \<noteq> b" using Cons.prems(1) b by auto
      ultimately show ?thesis using assms(3) a unfolding layers_once_def by blast
    qed
    moreover have "set (snd (content a)) \<inter> set (concat (map (snd \<circ> content) as)) = {}" using dis by auto
    ultimately show ?case using Cons by simp
  qed simp
  from this [OF d(1)] d(2) have dc: "distinct (concat (map snd (written_images content ord refs)))"
    by (simp add: written_images_def comp_assoc)
  have "set (concat (map snd (written_images content ord refs))) \<subseteq> contents (written_images content ord refs)"
    by (force simp: contents_def)
  with written_contents [OF assms(1,2)] have "inj_on sha (set (concat (map snd (written_images content ord refs))))"
    by (rule inj_on_subset)
  with dc show ?thesis by (auto simp: distinct_map inj_on_def Hex_sha)
qed

lemma archive_size:
  assumes "fair_map_order ord" and "archivable_images E imgs ms content refs"
  shows "tar_size (archive_entries (written_images content ord refs) mb) \<le> tarball_total content refs mb"
    "layers_once content refs \<Longrightarrow> tar_size (archive_entries (written_images content ord refs) mb) = tarball_total content refs mb"
proof -
  let ?rs = "written_images content ord refs"
  have "(\<Sum>p\<leftarrow>?rs. image_size p) = (\<Sum>a\<in>snd ` set refs. image_size (content a))"
    using sum_over_images [OF dedup_images [OF assms(1)], of content refs] by (simp add: written_images_def comp_def)
  moreover have "tar_size (archive_entries ?rs mb) = entries_size (fst (image_entries ?rs [])) + (512 + in_blocks (length mb)) + 1024"
    by (simp add: tar_size_def archive_entries_def)
  ultimately show "tar_size (archive_entries ?rs mb) \<le> tarball_total content refs mb"
    "layers_once content refs \<Longrightarrow> tar_size (archive_entries ?rs mb) = tarball_total content refs mb"
    using image_entries_size_le [of ?rs "[]"] image_entries_size_eq [of ?rs "[]"] written_once [OF assms]
    by (simp_all add: tarball_total_def)
qed

lemma calculated_size:
  assumes "fair_map_order ord1" and "fair_map_order ord2" and "archivable_images E imgs ms content refs"
    and "calculateManifest imgs ord1 refs = Inr tm" and "tarball_total content refs (tj_marshal J tm) < 2 ^ 63"
  shows "CalculateSize J imgs ord1 ord2 refs = Inr (tarball_total content refs (tj_marshal J tm))"
proof -
  let ?its = "ord_images ord2 (dedupRefToImage ord2 refs)" and ?mb = "tj_marshal J tm"
  note dd = dedup_images [OF assms(2), of refs]
  have dom: "fst ` set ?its = snd ` set refs" using dd by (simp add: dedup_spec_def)
  have m: "\<exists>m. i_Manifest (imgs a) = Inr m \<and> d_Size (m_Config m) = int (length (fst (content a))) \<and>
      list_all2 (\<lambda>c d. d_Digest d = sha c \<and> d_Size d = int (length c)) (snd (content a)) (m_Layers m)" if "(a, tags) \<in> set ?its" for a tags
  proof -
    from that dom have "a \<in> snd ` set refs" by force
    from archivable_at [OF assms(3) this] obtain cf rm ls where p: "coherent_parts E (imgs a) (fst (content a)) cf rm (ms a) ls"
      "list_all2 (\<lambda>l c. l_Compressed l = Inr c) ls (snd (content a))" by blast
    from coherent_parts_contents(1) [OF p] p(1) show ?thesis by (auto simp: coherent_parts_def)
  qed
  let ?S = "\<Sum>a\<in>snd ` set refs. image_size (content a)"
  have nn: "0 \<le> ?S" using image_size_nonneg by (intro sum_nonneg) blast
  have b: "int (length ?mb) \<le> in_blocks (length ?mb)" "0 \<le> in_blocks (length ?mb)" by (rule in_blocks_bounds)+
  have t: "?S + (512 + in_blocks (length ?mb)) + 1024 < 2 ^ 63" using assms(5) by (simp add: tarball_total_def)
  have "images_size imgs ?its 0 = Inr ?S"
    using images_size_sum [where its = ?its and imgs = imgs and content = content and z = 0] m t b
    by (simp add: sum_over_images [OF dd])
  moreover have "calculateSingleFileInTarSize (int (length ?mb)) = 512 + in_blocks (length ?mb)"
    using t nn b by (intro single_file_size) simp
  ultimately have "calculateTarballSize imgs ord2 refs ?mb = Inr (tarball_total content refs ?mb)"
    using t nn b by (simp add: calculateTarballSize_def tarball_total_def int64_id)
  with assms(4) show ?thesis by (simp add: CalculateSize_def getSizeAndManifest_def wrap_def Let_def)
qed

lemma size_bounds:
  assumes "fair_map_order ord1" and "fair_map_order ord2" and "fair_map_order ord3"
    and "archivable_images E imgs ms content refs" and "calculateManifest imgs ord1 refs = Inr tm"
    and "tarball_total content refs (tj_marshal J tm) < 2 ^ 63"
    and "\<forall>es a. mktar E es = Inr a \<longrightarrow> int (length a) = tar_size es"
    and "MultiRefWrite E J imgs ord1 ord2 ord3 refs (Some []) = Inr a"
  shows "\<exists>n. CalculateSize J imgs ord1 ord2 refs = Inr n \<and> int (length a) \<le> n \<and> n < 2 ^ 63 \<and>
    (layers_once content refs \<longrightarrow> int (length a) = n)"
proof -
  let ?n = "tarball_total content refs (tj_marshal J tm)" and ?es = "archive_entries (written_images content ord3 refs) (tj_marshal J tm)"
  have "mktar E ?es = Inr a" using MultiRefWrite_ok [OF assms(1-5), of J "[]"] assms(8) by simp
  then have "int (length a) = tar_size ?es" using assms(7) by blast
  with archive_size [OF assms(3,4), of "tj_marshal J tm"] calculated_size [OF assms(1,2,4,5,6)] assms(6)
  show ?thesis by (intro exI [of _ ?n]) simp
qed


text \<open>A layer that comes twice in an image is written once and counted twice.\<close>

lemma repeated_layer_counted:
  "tarball_total (\<lambda>_. (rc, [c, c])) [(r, x)] mb = tar_size (archive_entries [(rc, [c, c])] mb) + (512 + in_blocks (length c))"
  by (simp add: tarball_total_def image_size_def tar_size_def archive_entries_def)


end
