(* ===== verification/Google_Auth.thy ===== *)
theory Google_Auth
  imports Transport
begin

text \<open>
  pkg/v1/google/auth.go and keychain.go: credentials for the registries of Google, from the environment or from
  the gcloud command, and the keychain that keeps them; with reuseTokenSource of golang.org/x/oauth2, which is
  among the vendored packages.  What is outside the repository, the credentials of the environment, the
  commands and the clock, is the record google_env.
\<close>

section \<open>golang.org/x/oauth2\<close>

text \<open>
  Instants are nanoseconds since the epoch; an expiry of None is the zero time, of a token that does not
  expire.
\<close>

record token =
  tk_AccessToken :: string
  tk_Expiry :: "int option"

definition expiryDelta :: int where
  "expiryDelta = 10 * 1000000000"

definition token_expired :: "int \<Rightarrow> token \<Rightarrow> bool" where
  "token_expired now t = (case tk_Expiry t of None \<Rightarrow> False | Some e \<Rightarrow> e - expiryDelta < now)"

definition token_Valid :: "int \<Rightarrow> token option \<Rightarrow> bool" where
  "token_Valid now t = (case t of None \<Rightarrow> False | Some tk \<Rightarrow> tk_AccessToken tk \<noteq> '''' \<and> \<not> token_expired now tk)"

text \<open>A token source that keeps its token; the source below it has a state of its own.\<close>

record 'src reuse_source =
  ru_new :: 'src
  ru_t :: "token option"

section \<open>auth.go: gcloud\<close>

text \<open>
  exec.Cmd: a command can be run once, after which it is started.  A run that cannot start the process
  leaves it as it was.
\<close>

record exec_cmd =
  cmd_started :: bool

datatype run_result = NotStarted go_error | Ran "bytes res"

text \<open>
  The sources of tokens: those of the package google of oauth2, which is outside, with their states, and gcloudSource.
\<close>

datatype 'ts token_source = CloudSource 'ts | GcloudSource exec_cmd

text \<open>
  What the process finds around it: the credentials of the environment, the token sources made from them
  and from a key, whether there is a gcloud binary, what it prints, the decoder of its output (access token
  and expiry) and time.Parse, the clock.
\<close>

record ('ts, 'w) google_env =
  ge_DefaultTokenSource :: "string \<Rightarrow> 'w \<Rightarrow> 'ts res \<times> 'w"
  ge_JWTSource :: "bytes \<Rightarrow> string \<Rightarrow> 'ts res"
  ge_Token :: "'ts \<Rightarrow> 'w \<Rightarrow> token res \<times> 'ts \<times> 'w"
  ge_LookPath :: "string \<Rightarrow> 'w \<Rightarrow> unit res"
  ge_Run :: "string list \<Rightarrow> 'w \<Rightarrow> run_result \<times> 'w"
  ge_decode :: "bytes \<Rightarrow> (string \<times> string) res"
  ge_ParseTime :: "string \<Rightarrow> int option res"
  ge_Now :: "'w \<Rightarrow> int"

definition cloudPlatformScope :: string where
  "cloudPlatformScope = ''https://www.googleapis.com/auth/cloud-platform''"

definition GetGcloudCmd :: "string list \<times> exec_cmd" where
  "GetGcloudCmd = ([''gcloud'', ''config'', ''config-helper'', ''--force-auth-refresh'', ''--format=json(credential)''], \<lparr>cmd_started = False\<rparr>)"

definition cmd_Run :: "('ts, 'w) google_env \<Rightarrow> exec_cmd \<Rightarrow> 'w \<Rightarrow> bytes res \<times> exec_cmd \<times> 'w" where
  "cmd_Run G cmd w =
     (if cmd_started cmd then (Inl (ErrMsg ''exec: already started''), cmd, w)
      else (case ge_Run G (fst GetGcloudCmd) w of
              (NotStarted e, w1) \<Rightarrow> (Inl e, cmd, w1)
            | (Ran out, w1) \<Rightarrow> (out, cmd\<lparr>cmd_started := True\<rparr>, w1)))"

definition gcloud_token :: "('ts, 'w) google_env \<Rightarrow> bytes res \<Rightarrow> token res" where
  "gcloud_token G out =
     bnd (wrap ''error executing `gcloud config config-helper`'' out) (\<lambda>b.
     bnd (wrap ''failed to parse `gcloud config config-helper` output'' (ge_decode G b)) (\<lambda>creds.
     bnd (wrap ''failed to parse gcloud token expiry'' (ge_ParseTime G (snd creds))) (\<lambda>expiry.
     Inr \<lparr>tk_AccessToken = fst creds, tk_Expiry = expiry\<rparr>)))"

definition gcloudSource_Token :: "('ts, 'w) google_env \<Rightarrow> exec_cmd \<Rightarrow> 'w \<Rightarrow> token res \<times> exec_cmd \<times> 'w" where
  "gcloudSource_Token G gs w = (case cmd_Run G gs w of (out, gs1, w1) \<Rightarrow> (gcloud_token G out, gs1, w1))"

definition source_Token :: "('ts, 'w) google_env \<Rightarrow> 'ts token_source \<Rightarrow> 'w \<Rightarrow> token res \<times> 'ts token_source \<times> 'w" where
  "source_Token G ts w =
     (case ts of
        CloudSource t \<Rightarrow> (case ge_Token G t w of (r, t1, w1) \<Rightarrow> (r, CloudSource t1, w1))
      | GcloudSource c \<Rightarrow> (case gcloudSource_Token G c w of (r, c1, w1) \<Rightarrow> (r, GcloudSource c1, w1)))"

definition reuse_Token ::
    "('ts, 'w) google_env \<Rightarrow> 'ts token_source reuse_source \<Rightarrow> 'w \<Rightarrow> token res \<times> 'ts token_source reuse_source \<times> 'w" where
  "reuse_Token G s w =
     (if token_Valid (ge_Now G w) (ru_t s) then (Inr (the (ru_t s)), s, w)
      else (case source_Token G (ru_new s) w of
              (Inl e, n1, w1) \<Rightarrow> (Inl e, s\<lparr>ru_new := n1\<rparr>, w1)
            | (Inr t1, n1, w1) \<Rightarrow> (Inr t1, s\<lparr>ru_new := n1, ru_t := Some t1\<rparr>, w1)))"

section \<open>auth.go: authenticators\<close>

text \<open>
  The authenticators of this package: the singleton authn.Anonymous, tokenSourceAuth over a source that
  reuses its token, and tokenSourceAuth over a source as it is given.
\<close>

datatype 'ts google_auth = GAnonymous | TokenSourceAuth "'ts token_source reuse_source" | PlainSourceAuth "'ts"

definition NewEnvAuthenticator :: "('ts, 'w) google_env \<Rightarrow> 'w \<Rightarrow> 'ts google_auth res \<times> 'w" where
  "NewEnvAuthenticator G w =
     (case ge_DefaultTokenSource G cloudPlatformScope w of
        (Inl e, w1) \<Rightarrow> (Inl e, w1)
      | (Inr ts, w1) \<Rightarrow>
          (case ge_Token G ts w1 of
             (Inl e, _, w2) \<Rightarrow> (Inl e, w2)
           | (Inr t, ts1, w2) \<Rightarrow> (Inr (TokenSourceAuth \<lparr>ru_new = CloudSource ts1, ru_t = Some t\<rparr>), w2)))"

definition NewGcloudAuthenticator :: "('ts, 'w) google_env \<Rightarrow> 'w \<Rightarrow> 'ts google_auth res \<times> 'w" where
  "NewGcloudAuthenticator G w =
     (case ge_LookPath G ''gcloud'' w of
        Inl _ \<Rightarrow> (Inr GAnonymous, w)
      | Inr _ \<Rightarrow>
          (case gcloudSource_Token G (snd GetGcloudCmd) w of
             (Inl e, _, w1) \<Rightarrow> (Inl e, w1)
           | (Inr t, gs, w1) \<Rightarrow> (Inr (TokenSourceAuth \<lparr>ru_new = GcloudSource gs, ru_t = Some t\<rparr>), w1)))"

definition NewJSONKeyAuthenticator :: "string \<Rightarrow> authenticator" where
  "NewJSONKeyAuthenticator serviceAccountJSON = authn_Basic ''_json_key'' serviceAccountJSON"

definition NewTokenAuthenticator :: "('ts, 'w) google_env \<Rightarrow> string \<Rightarrow> string \<Rightarrow> 'ts google_auth res" where
  "NewTokenAuthenticator G serviceAccountJSON scope =
     bnd (ge_JWTSource G serviceAccountJSON scope) (\<lambda>ts. Inr (TokenSourceAuth \<lparr>ru_new = CloudSource ts, ru_t = None\<rparr>))"

definition NewTokenSourceAuthenticator :: "'ts \<Rightarrow> 'ts google_auth" where
  "NewTokenSourceAuthenticator ts = PlainSourceAuth ts"

definition token_config :: "token \<Rightarrow> auth_config" where
  "token_config t = no_auth\<lparr>ac_Username := ''_token'', ac_Password := tk_AccessToken t\<rparr>"

definition google_Authorization :: "('ts, 'w) google_env \<Rightarrow> 'ts google_auth \<Rightarrow> 'w \<Rightarrow> auth_config res \<times> 'ts google_auth \<times> 'w" where
  "google_Authorization G a w =
     (case a of
        GAnonymous \<Rightarrow> (Inr no_auth, a, w)
      | TokenSourceAuth s \<Rightarrow> (case reuse_Token G s w of (r, s1, w1) \<Rightarrow> (bnd r (\<lambda>t. Inr (token_config t)), TokenSourceAuth s1, w1))
      | PlainSourceAuth ts \<Rightarrow> (case ge_Token G ts w of (r, ts1, w1) \<Rightarrow> (bnd r (\<lambda>t. Inr (token_config t)), PlainSourceAuth ts1, w1)))"

section \<open>keychain.go\<close>

record 'ts google_keychain =
  gk_once :: bool
  gk_auth :: "'ts google_auth option"
  gk_err :: "go_error option"

definition google_Keychain :: "'ts google_keychain" where
  "google_Keychain = \<lparr>gk_once = False, gk_auth = None, gk_err = None\<rparr>"

definition google_host :: "string \<Rightarrow> bool" where
  "google_host host \<longleftrightarrow> \<not> (host \<noteq> ''gcr.io'' \<and> \<not> suffix ''.gcr.io'' host \<and> \<not> suffix ''.pkg.dev'' host)"

definition google_resolve :: "('ts, 'w) google_env \<Rightarrow> 'w \<Rightarrow> ('ts google_auth option \<times> go_error option) \<times> 'w" where
  "google_resolve G w =
     (case NewEnvAuthenticator G w of
        (Inr auth, w1) \<Rightarrow> ((Some auth, None), w1)
      | (Inl _, w1) \<Rightarrow>
          (case NewGcloudAuthenticator G w1 of
             (Inr auth, w2) \<Rightarrow> ((Some auth, None), w2)
           | (Inl _, w2) \<Rightarrow> ((None, Some (ErrMsg ''failed to create token source from env or gcloud'')), w2)))"

definition googleKeychain_Resolve ::
    "('ts, 'w) google_env \<Rightarrow> string \<Rightarrow> 'ts google_keychain \<Rightarrow> 'w \<Rightarrow> ('ts google_auth option \<times> go_error option) \<times> 'ts google_keychain \<times> 'w" where
  "googleKeychain_Resolve G host gk w =
     (if \<not> google_host host then ((Some GAnonymous, None), gk, w)
      else
        let (gk1, w1) = (if gk_once gk then (gk, w)
                         else (case google_resolve G w of ((a, e), w1) \<Rightarrow> (gk\<lparr>gk_once := True, gk_auth := a, gk_err := e\<rparr>, w1)))
        in ((gk_auth gk1, gk_err gk1), gk1, w1))"

text \<open>
  What a transport does for a request: it asks the keychain, then the authenticator.  The authenticator of the
  keychain is shared by all who have it, so its new state is that of the keychain.
\<close>

definition keychain_authorize ::
    "('ts, 'w) google_env \<Rightarrow> string \<Rightarrow> 'ts google_keychain \<Rightarrow> 'w \<Rightarrow> auth_config res \<times> 'ts google_keychain \<times> 'w" where
  "keychain_authorize G host gk w =
     (case googleKeychain_Resolve G host gk w of
        ((_, Some e), gk1, w1) \<Rightarrow> (Inl e, gk1, w1)
      | ((None, None), gk1, w1) \<Rightarrow> (Inl (Panic ''nil pointer dereference''), gk1, w1)
      | ((Some a, None), gk1, w1) \<Rightarrow>
          (case google_Authorization G a w1 of
             (r, a1, w2) \<Rightarrow> (r, if google_host host then gk1\<lparr>gk_auth := Some a1\<rparr> else gk1, w2)))"

section \<open>What the authenticator of gcloud does\<close>

text \<open>The answers that an authenticator, or a keychain, gives when it is asked in the given states of the world.\<close>

fun authorize_at :: "('ts, 'w) google_env \<Rightarrow> 'ts google_auth \<Rightarrow> 'w list \<Rightarrow> auth_config res list" where
  "authorize_at G a [] = []"
| "authorize_at G a (w # ws) = (case google_Authorization G a w of (r, a1, _) \<Rightarrow> r # authorize_at G a1 ws)"

fun keychain_at :: "('ts, 'w) google_env \<Rightarrow> 'ts google_keychain \<Rightarrow> (string \<times> 'w) list \<Rightarrow> auth_config res list" where
  "keychain_at G gk [] = []"
| "keychain_at G gk ((h, w) # cs) = (case keychain_authorize G h gk w of (r, gk1, _) \<Rightarrow> r # keychain_at G gk1 cs)"

definition run_again :: "'a res" where
  "run_again = Inl (ErrMsg ''error executing `gcloud config config-helper`'')"

text \<open>The authenticator that NewGcloudAuthenticator makes: its command has been run, for its first token.\<close>

definition gcloud_auth :: "token \<Rightarrow> 'ts google_auth" where
  "gcloud_auth t = TokenSourceAuth \<lparr>ru_new = GcloudSource \<lparr>cmd_started = True\<rparr>, ru_t = Some t\<rparr>"

lemma wrap_Inr_iff: "wrap m r = Inr x \<longleftrightarrow> r = Inr x"
  by (auto simp: wrap_def split: sum.splits go_error.splits)

lemma gcloudSource_Token_started:
  "gcloudSource_Token G gs w = (Inr t, gs1, w1) \<Longrightarrow> cmd_started gs1"
  by (auto simp: gcloudSource_Token_def cmd_Run_def gcloud_token_def wrap_Inr_iff split: if_splits prod.splits run_result.splits)

lemma NewGcloudAuthenticator_cases:
  assumes "NewGcloudAuthenticator G w = (Inr a, w1)"
  shows "a = GAnonymous \<or> (\<exists>t. a = gcloud_auth t)"
  using assms by (auto simp: NewGcloudAuthenticator_def gcloud_auth_def dest!: gcloudSource_Token_started split: sum.splits prod.splits)

lemma gcloud_auth_Authorization:
  "google_Authorization G (gcloud_auth t) w =
     (if token_Valid (ge_Now G w) (Some t) then (Inr (token_config t), gcloud_auth t, w) else (run_again, gcloud_auth t, w))"
  by (simp add: google_Authorization_def gcloud_auth_def reuse_Token_def source_Token_def gcloudSource_Token_def cmd_Run_def
      gcloud_token_def wrap_def run_again_def)

text \<open>A token source that works, on the other hand, is asked for a new token.\<close>

lemma reuse_Token_refreshes:
  assumes "\<not> token_Valid (ge_Now G w) t" "ge_Token G ts w = (Inr t', ts', w')"
  shows "reuse_Token G \<lparr>ru_new = CloudSource ts, ru_t = t\<rparr> w = (Inr t', \<lparr>ru_new = CloudSource ts', ru_t = Some t'\<rparr>, w')"
  using assms by (simp add: reuse_Token_def source_Token_def)

section \<open>The keychain\<close>

lemma keychain_other_host: "\<not> google_host h \<Longrightarrow> keychain_authorize G h gk w = (Inr no_auth, gk, w)"
  by (simp add: keychain_authorize_def googleKeychain_Resolve_def google_Authorization_def)

lemma keychain_resolved:
  "google_host h \<Longrightarrow> gk_once gk \<Longrightarrow> googleKeychain_Resolve G h gk w = ((gk_auth gk, gk_err gk), gk, w)"
  by (simp add: googleKeychain_Resolve_def)

text \<open>Whoever asks, the environment is consulted at the first request for a Google host and never again.\<close>

lemma Resolve_frame:
  "googleKeychain_Resolve G h gk w = (r, gk', w') \<Longrightarrow> gk_once gk \<or> \<not> google_host h \<Longrightarrow> gk' = gk \<and> w' = w"
  by (auto simp: googleKeychain_Resolve_def split: if_splits)

lemma keychain_error_stays:
  assumes "gk_once gk" "gk_err gk = Some e"
  shows "keychain_at G gk cs = map (\<lambda>(h, w). if google_host h then Inl e else Inr no_auth) cs"
proof (induction cs)
  case (Cons c cs)
  obtain h w where c: "c = (h, w)" by fastforce
  have "keychain_authorize G h gk w = (if google_host h then Inl e else Inr no_auth, gk, w)"
    using assms by (cases "google_host h") (simp add: keychain_authorize_def keychain_resolved split: option.splits, simp add: keychain_other_host)
  with Cons c show ?case by simp
qed simp

lemma keychain_gcloud_run:
  "keychain_at G \<lparr>gk_once = True, gk_auth = Some (gcloud_auth t), gk_err = None\<rparr> cs =
     map (\<lambda>(h, w). if \<not> google_host h then Inr no_auth
                   else if token_Valid (ge_Now G w) (Some t) then Inr (token_config t) else run_again) cs"
proof (induction cs)
  case (Cons c cs)
  obtain h w where c: "c = (h, w)" by fastforce
  let ?gk = "\<lparr>gk_once = True, gk_auth = Some (gcloud_auth t), gk_err = None\<rparr>"
  have "keychain_authorize G h ?gk w =
      (if \<not> google_host h then Inr no_auth else if token_Valid (ge_Now G w) (Some t) then Inr (token_config t) else run_again, ?gk, w)"
    by (cases "google_host h") (simp add: keychain_authorize_def keychain_resolved gcloud_auth_Authorization, simp add: keychain_other_host)
  with Cons c show ?case by simp
qed simp

lemma keychain_gcloud:
  assumes "NewEnvAuthenticator G w = (Inl e, w1)" "NewGcloudAuthenticator G w1 = (Inr a, w2)" "a \<noteq> GAnonymous" "google_host host"
  shows "\<exists>t. googleKeychain_Resolve G host google_Keychain w =
           ((Some (gcloud_auth t), None), \<lparr>gk_once = True, gk_auth = Some (gcloud_auth t), gk_err = None\<rparr>, w2)"
proof -
  from NewGcloudAuthenticator_cases [OF assms(2)] assms(3) obtain t where "a = gcloud_auth t" by blast
  with assms show ?thesis by (auto simp: googleKeychain_Resolve_def google_Keychain_def google_resolve_def Let_def)
qed

text \<open>
  C39. With gcloud for its credentials the keychain serves its first token for as long as that is valid, and from
  then on fails for every Google registry: the command that a token source runs can be run only once.  Other
  registries are always anonymous.
\<close>

theorem keychain_gcloud_expires:
  assumes "NewEnvAuthenticator G w = (Inl e, w1)" "NewGcloudAuthenticator G w1 = (Inr a, w2)" "a \<noteq> GAnonymous" "google_host host"
  shows "\<exists>t. fst (googleKeychain_Resolve G host google_Keychain w) = (Some (gcloud_auth t), None) \<and>
     (\<forall>calls. keychain_at G (fst (snd (googleKeychain_Resolve G host google_Keychain w))) calls =
        map (\<lambda>(h, w'). if \<not> google_host h then Inr no_auth
                       else if token_Valid (ge_Now G w') (Some t) then Inr (token_config t) else run_again) calls)"
proof -
  from keychain_gcloud [OF assms] obtain t where
    "googleKeychain_Resolve G host google_Keychain w = ((Some (gcloud_auth t), None), \<lparr>gk_once = True, gk_auth = Some (gcloud_auth t), gk_err = None\<rparr>, w2)"
    by blast
  then show ?thesis by (intro exI [of _ t]) (simp add: keychain_gcloud_run)
qed

definition clock_env :: "(unit, int) google_env" where
  "clock_env = \<lparr>ge_DefaultTokenSource = (\<lambda>_ w. (Inl (ErrMsg ''no credentials''), w)), ge_JWTSource = (\<lambda>_ _. Inr ()),
     ge_Token = (\<lambda>_ w. (Inl (ErrMsg ''none''), (), w)), ge_LookPath = (\<lambda>_ _. Inr ()), ge_Run = (\<lambda>_ w. (Ran (Inr ''out''), w)),
     ge_decode = (\<lambda>_. Inr (''secret'', ''in an hour'')), ge_ParseTime = (\<lambda>_. Inr (Some 3600000000000)), ge_Now = (\<lambda>w. w)\<rparr>"

theorem keychain_gcloud_expires_witness:
  "\<exists>t. fst (googleKeychain_Resolve clock_env ''gcr.io'' google_Keychain 0) = (Some (gcloud_auth t), None) \<and>
     (\<forall>calls. keychain_at clock_env (fst (snd (googleKeychain_Resolve clock_env ''gcr.io'' google_Keychain 0))) calls =
        map (\<lambda>(h, w'). if \<not> google_host h then Inr no_auth
                       else if token_Valid (ge_Now clock_env w') (Some t) then Inr (token_config t) else run_again) calls)"
proof (rule keychain_gcloud_expires)
  show "NewEnvAuthenticator clock_env 0 = (Inl (ErrMsg ''no credentials''), 0)"
    by (simp add: NewEnvAuthenticator_def clock_env_def)
  show "NewGcloudAuthenticator clock_env 0 = (Inr (gcloud_auth \<lparr>tk_AccessToken = ''secret'', tk_Expiry = Some 3600000000000\<rparr>), 0)"
    by (simp add: NewGcloudAuthenticator_def clock_env_def gcloudSource_Token_def cmd_Run_def GetGcloudCmd_def gcloud_token_def wrap_def gcloud_auth_def)
  show "gcloud_auth \<lparr>tk_AccessToken = ''secret'', tk_Expiry = Some 3600000000000\<rparr> \<noteq> GAnonymous" by (simp add: gcloud_auth_def)
  show "google_host ''gcr.io''" by (simp add: google_host_def)
qed

text \<open>An hour later: the request is refused.\<close>

lemma keychain_after_an_hour:
  "keychain_at clock_env google_Keychain [(''gcr.io'', 0), (''eu.gcr.io'', 3589000000000), (''gcr.io'', 3600000000000), (''docker.io'', 3600000000000)] =
     [Inr (token_config \<lparr>tk_AccessToken = ''secret'', tk_Expiry = Some 3600000000000\<rparr>),
      Inr (token_config \<lparr>tk_AccessToken = ''secret'', tk_Expiry = Some 3600000000000\<rparr>), run_again, Inr no_auth]"
  by code_simp

end
