(* ===== verification/Google_List.thy ===== *)
theory Google_List
  imports Remote_Read "HOL-Library.AList" "HOL-Library.Word" "HOL-Library.Signed_Division"
begin

text \<open>
  pkg/v1/google/list.go and options.go: the list of tags with Google's extension of it, the children and the
  manifests of a repository, and the JSON of a manifest's entry.
\<close>

section \<open>options.go and the lister\<close>

record 's lister =
  ls_auth :: authenticator
  ls_transport :: "'s round_tripper"
  ls_repo :: repository

type_synonym 's lister_option = "'s lister \<Rightarrow> 's lister res"

definition google_WithTransport :: "'s round_tripper \<Rightarrow> 's lister_option" where
  "google_WithTransport t l = Inr (l\<lparr>ls_transport := t\<rparr>)"

definition google_WithAuth :: "authenticator \<Rightarrow> 's lister_option" where
  "google_WithAuth auth l = Inr (l\<lparr>ls_auth := auth\<rparr>)"

definition google_WithAuthFromKeychain :: "keychain \<Rightarrow> 's lister_option" where
  "google_WithAuthFromKeychain keys l =
     bnd (keys (RegistryStr (repo_Registry (ls_repo l)))) (\<lambda>auth. Inr (l\<lparr>ls_auth := auth\<rparr>))"

fun apply_lister_options :: "'s lister_option list \<Rightarrow> 's lister \<Rightarrow> 's lister res" where
  "apply_lister_options [] l = Inr l"
| "apply_lister_options (opt # opts) l = bnd (opt l) (apply_lister_options opts)"

text \<open>The lister and the session of its client; http.DefaultTransport is the argument dt.\<close>

definition newLister ::
    "net_env \<Rightarrow> 's round_tripper \<Rightarrow> repository \<Rightarrow> 's lister_option list \<Rightarrow> 's \<Rightarrow> ('s lister \<times> session) res \<times> 's" where
  "newLister env dt repo options s =
     (case apply_lister_options options \<lparr>ls_auth = Anonymous, ls_transport = dt, ls_repo = repo\<rparr> of
        Inl e \<Rightarrow> (Inl e, s)
      | Inr l \<Rightarrow>
          (case NewWithContext (ne_codec env) (ne_version env) (repo_Registry repo) (ls_auth l) None
                  (retrying env (ls_transport l)) [Repository_Scope repo PullScope] s of
             (r, s1) \<Rightarrow> (bnd r (\<lambda>ses. Inr (l, ses)), s1)))"

section \<open>ManifestInfo\<close>

text \<open>
  A time.Time is the number of nanoseconds since the epoch; its zero value is the first instant of the
  year 1.  UnixNano is a 64-bit number.
\<close>

definition zero_time :: int where
  "zero_time = - 62135596800 * 1000000000"

definition UnixNano :: "int \<Rightarrow> int" where
  "UnixNano t = int64 t"

definition time_Unix :: "int \<Rightarrow> int \<Rightarrow> int" where
  "time_Unix sec nsec = sec * 1000000000 + nsec"

definition fromUnixMs :: "int \<Rightarrow> int" where
  "fromUnixMs ms = time_Unix (ms sdiv 1000) (int64 ((ms smod 1000) * 1000000))"

definition toUnixMs :: "int \<Rightarrow> string" where
  "toUnixMs t = show_int (UnixNano t sdiv 1000000)"

record raw_manifest_info =
  rm_Size :: string
  rm_MediaType :: string
  rm_Created :: string
  rm_Uploaded :: string
  rm_Tags :: "string list"

record manifest_info =
  gm_Size :: "64 word"
  gm_MediaType :: string
  gm_Created :: int
  gm_Uploaded :: int
  gm_Tags :: "string list"

definition zero_manifest_info :: manifest_info where
  "zero_manifest_info = \<lparr>gm_Size = 0, gm_MediaType = '''', gm_Created = zero_time, gm_Uploaded = zero_time, gm_Tags = []\<rparr>"

text \<open>What Tags and its manifests are before UnmarshalJSON has been called for each of them, in the order of the text.\<close>

record raw_tags =
  rt_Children :: "string list"
  rt_Manifests :: "(string \<times> bytes) list"
  rt_Name :: string
  rt_Tags :: "string list"

text \<open>encoding/json on these records\<close>

record google_codec =
  gc_marshal_raw :: "raw_manifest_info \<Rightarrow> bytes"
  gc_decode_raw :: "bytes \<Rightarrow> raw_manifest_info res"
  gc_decode_tags :: "bytes \<Rightarrow> raw_tags res"

definition ManifestInfo_raw :: "manifest_info \<Rightarrow> raw_manifest_info" where
  "ManifestInfo_raw m =
     \<lparr>rm_Size = show_nat (unat (gm_Size m)), rm_MediaType = gm_MediaType m, rm_Created = toUnixMs (gm_Created m),
      rm_Uploaded = toUnixMs (gm_Uploaded m), rm_Tags = gm_Tags m\<rparr>"

definition ManifestInfo_MarshalJSON :: "google_codec \<Rightarrow> manifest_info \<Rightarrow> bytes" where
  "ManifestInfo_MarshalJSON C m = gc_marshal_raw C (ManifestInfo_raw m)"

text \<open>strconv.ParseUint in base 10, for 64 bits\<close>

definition parse_uint64 :: "string \<Rightarrow> 64 word res" where
  "parse_uint64 s =
     (if s = [] \<or> \<not> list_all is_digit s then Inl (ErrMsg (''strconv.ParseUint: parsing '' @ quoted s @ '': invalid syntax''))
      else if 2 ^ 64 \<le> parse_digits s then Inl (ErrMsg (''strconv.ParseUint: parsing '' @ quoted s @ '': value out of range''))
      else Inr (word_of_nat (parse_digits s)))"

text \<open>A field that is present; a step leaves what the steps before it have assigned.\<close>

definition unless_empty :: "string \<Rightarrow> (string \<Rightarrow> 'a res) \<Rightarrow> ('a \<Rightarrow> 'm \<Rightarrow> 'm) \<Rightarrow> go_error option \<times> 'm \<Rightarrow> go_error option \<times> 'm" where
  "unless_empty txt parse assign st =
     (case st of
        (Some e, m) \<Rightarrow> (Some e, m)
      | (None, m) \<Rightarrow>
          if txt = '''' then (None, m)
          else (case parse txt of Inl e \<Rightarrow> (Some e, m) | Inr x \<Rightarrow> (None, assign x m)))"

definition ManifestInfo_UnmarshalJSON :: "google_codec \<Rightarrow> bytes \<Rightarrow> manifest_info \<Rightarrow> go_error option \<times> manifest_info" where
  "ManifestInfo_UnmarshalJSON C data m =
     (case gc_decode_raw C data of
        Inl e \<Rightarrow> (Some e, m)
      | Inr raw \<Rightarrow>
          (case unless_empty (rm_Uploaded raw) parse_int64 (\<lambda>ms m. m\<lparr>gm_Uploaded := fromUnixMs ms\<rparr>)
                 (unless_empty (rm_Created raw) parse_int64 (\<lambda>ms m. m\<lparr>gm_Created := fromUnixMs ms\<rparr>)
                   (unless_empty (rm_Size raw) parse_uint64 (\<lambda>n m. m\<lparr>gm_Size := n\<rparr>) (None, m))) of
             (Some e, m1) \<Rightarrow> (Some e, m1)
           | (None, m1) \<Rightarrow> (None, m1\<lparr>gm_MediaType := rm_MediaType raw, gm_Tags := rm_Tags raw\<rparr>)))"

section \<open>Tags\<close>

text \<open>A map from digests is its list of entries, in the order in which Go iterates over it.\<close>

record google_tags =
  gt_Children :: "string list"
  gt_Manifests :: "(string \<times> manifest_info) list"
  gt_Name :: string
  gt_Tags :: "string list"

fun decode_manifests :: "google_codec \<Rightarrow> (string \<times> bytes) list \<Rightarrow> (string \<times> manifest_info) list \<Rightarrow> (string \<times> manifest_info) list res" where
  "decode_manifests C [] acc = Inr acc"
| "decode_manifests C ((digest, data) # rest) acc =
     (case ManifestInfo_UnmarshalJSON C data zero_manifest_info of
        (Some e, _) \<Rightarrow> Inl e
      | (None, m) \<Rightarrow> decode_manifests C rest (AList.update digest m acc))"

definition decode_google_tags :: "google_codec \<Rightarrow> bytes \<Rightarrow> google_tags res" where
  "decode_google_tags C b =
     bnd (gc_decode_tags C b) (\<lambda>rt.
     bnd (decode_manifests C (rt_Manifests rt) []) (\<lambda>ms.
     Inr \<lparr>gt_Children = rt_Children rt, gt_Manifests = ms, gt_Name = rt_Name rt, gt_Tags = rt_Tags rt\<rparr>))"

definition lister_url :: "repository \<Rightarrow> url" where
  "lister_url repo =
     \<lparr>u_Scheme = Scheme (repo_Registry repo), u_Host = RegistryStr (repo_Registry repo),
      u_Path = ''/v2/'' @ RepositoryStr repo @ ''/tags/list'', u_Query = []\<rparr>"

definition lister_list :: "google_codec \<Rightarrow> net_codec \<Rightarrow> 's round_tripper \<Rightarrow> repository \<Rightarrow> 's \<Rightarrow> google_tags res \<times> 's" where
  "lister_list C N rt repo s =
     (case do_checked N rt (new_request ''GET'' (lister_url repo) []) [StatusOK] s of
        (r, s1) \<Rightarrow> (bnd r (\<lambda>rr. decode_google_tags C (rs_Body (fst rr))), s1))"

definition google_List ::
    "google_codec \<Rightarrow> net_env \<Rightarrow> 's round_tripper \<Rightarrow> 's lister_option list \<Rightarrow> repository \<Rightarrow> 's \<Rightarrow> google_tags res \<times> 's" where
  "google_List C env dt options repo s =
     (case newLister env dt repo options s of
        (Inl e, s1) \<Rightarrow> (Inl e, s1)
      | (Inr (l, ses), s1) \<Rightarrow>
          (case lister_list C (ne_codec env) (session_RoundTrip (ne_codec env) (retrying env (ls_transport l))) repo (ses, s1) of
             (r, _, s2) \<Rightarrow> (r, s2)))"

section \<open>ManifestInfo and its JSON\<close>

lemma parse_uint64_show [simp]: "parse_uint64 (show_nat (unat (w :: 64 word))) = Inr w"
proof -
  have "unat w < 2 ^ 64" using unsigned_less [of w] by simp
  then have "\<not> (2::nat) ^ 64 \<le> unat w" by (simp only: not_le)
  moreover have "list_all is_digit (show_nat (unat w))" using show_nat_digits by (auto simp: list_all_iff)
  ultimately show ?thesis by (simp add: parse_uint64_def del: power_numeral)
qed

lemma show_nat_first: "case show_nat n of [] \<Rightarrow> False | c # r \<Rightarrow> is_digit c \<and> c \<noteq> CHR ''-'' \<and> c \<noteq> CHR ''+''"
  using show_nat_digits [of n] show_nat_not_Nil [of n]
  by (cases "show_nat n") (auto simp: is_digit_def)

lemma parse_int64_show [simp]:
  assumes "- (2 ^ 63) \<le> i" "i < 2 ^ 63"
  shows "parse_int64 (show_int i) = Inr i"
proof (cases "i < 0")
  case True
  have "list_all is_digit (show_nat (nat (- i)))" using show_nat_digits by (auto simp: list_all_iff)
  with True assms show ?thesis by (simp add: parse_int64_def show_int_def Let_def)
next
  case False
  have "list_all is_digit (show_nat (nat i))" using show_nat_digits by (auto simp: list_all_iff)
  obtain c r where c: "show_nat (nat i) = c # r" by (cases "show_nat (nat i)") auto
  have "int (parse_digits (c # r)) = i" using False by (simp flip: c)
  with c \<open>list_all _ _\<close> show_nat_first [of "nat i"] False assms show ?thesis
    by (simp add: parse_int64_def show_int_def Let_def)
qed

lemma show_int_not_Nil [simp]: "show_int i \<noteq> []"
  by (simp add: show_int_def)

text \<open>A time as its text in milliseconds tells it: without the rest below, and modulo 64 bits of nanoseconds.\<close>

definition ms_time :: "int \<Rightarrow> int" where
  "ms_time t = (UnixNano t sdiv 1000000) * 1000000"

lemma sdiv_bounds:
  fixes a b :: int
  assumes "0 < b"
  shows "\<bar>a sdiv b\<bar> * b \<le> \<bar>a\<bar>"
proof -
  have "\<bar>a sdiv b\<bar> = \<bar>a\<bar> div b" using assms by (auto simp: signed_divide_int_def abs_mult sgn_if pos_imp_zdiv_nonneg_iff)
  moreover have "\<bar>a\<bar> div b * b \<le> \<bar>a\<bar>" using div_mult_mod_eq [of "\<bar>a\<bar>" b] pos_mod_sign [OF assms, of "\<bar>a\<bar>"] by linarith
  ultimately show ?thesis by simp
qed

lemma UnixNano_ms_range: "- (2 ^ 63) \<le> UnixNano t sdiv 1000000" "UnixNano t sdiv 1000000 < 2 ^ 63"
  using sdiv_bounds [of 1000000 "UnixNano t"] int64_range [of t] by (auto simp: UnixNano_def)

lemma fromUnixMs_eq [simp]: "fromUnixMs ms = ms * 1000000"
proof -
  have "\<bar>ms smod 1000\<bar> < 1000"
    by (auto simp: signed_modulo_int_def signed_divide_int_def minus_mult_div_eq_mod sgn_if minus_div_mult_eq_mod abs_if)
  then have "int64 (ms smod 1000 * 1000000) = ms smod 1000 * 1000000" by (intro int64_id) auto
  moreover have "ms = (ms sdiv 1000) * 1000 + ms smod 1000" using sdiv_mult_smod_eq [of ms 1000] by simp
  ultimately show ?thesis by (simp add: fromUnixMs_def time_Unix_def)
qed

lemma sdiv_exact: "(a sdiv b) * b = a \<longleftrightarrow> b dvd (a :: int)" if "0 < b"
proof
  assume "b dvd a"
  then show "(a sdiv b) * b = a" using that by (auto simp: signed_divide_int_def sgn_if abs_mult mult_ac elim!: dvdE)
qed (metis dvd_triv_right)

lemma ms_time_exact: "ms_time t = t \<longleftrightarrow> 1000000 dvd t \<and> - (2 ^ 63) \<le> t \<and> t < 2 ^ 63"
proof (cases "- (2 ^ 63) \<le> t \<and> t < 2 ^ 63")
  case True
  then have "UnixNano t = t" by (simp add: UnixNano_def int64_id)
  with True show ?thesis by (simp add: ms_time_def sdiv_exact)
next
  case False
  have "\<bar>ms_time t\<bar> \<le> \<bar>UnixNano t\<bar>"
    using sdiv_bounds [of 1000000 "UnixNano t"] by (simp add: ms_time_def abs_mult)
  with int64_range [of t] have "- (2 ^ 63) \<le> ms_time t" "ms_time t \<le> 2 ^ 63" unfolding UnixNano_def by auto
  moreover have "ms_time t \<noteq> 2 ^ 63"
  proof
    assume eq: "ms_time t = 2 ^ 63"
    then have "(1000000 :: int) dvd 2 ^ 63" by (metis ms_time_def dvd_triv_right)
    then show False by simp
  qed
  ultimately show ?thesis using False by auto
qed

lemma ManifestInfo_json_spec:
  assumes "gc_decode_raw C (gc_marshal_raw C (ManifestInfo_raw m)) = Inr (ManifestInfo_raw m)"
  shows "ManifestInfo_UnmarshalJSON C (ManifestInfo_MarshalJSON C m) m0 =
           (None, m\<lparr>gm_Created := ms_time (gm_Created m), gm_Uploaded := ms_time (gm_Uploaded m)\<rparr>)"
  using assms UnixNano_ms_range [of "gm_Created m"] UnixNano_ms_range [of "gm_Uploaded m"]
  by (simp add: ManifestInfo_UnmarshalJSON_def ManifestInfo_MarshalJSON_def unless_empty_def ManifestInfo_raw_def toUnixMs_def ms_time_def)

text \<open>
  A ManifestInfo that is written as JSON and read back is the same up to its times, of which the
  milliseconds remain, modulo 64 bits of nanoseconds: it is the same exactly if both times are whole milliseconds
  between the years 1677 and 2262.  In particular a ManifestInfo without times is not read back.
\<close>

theorem ManifestInfo_json:
  assumes "gc_decode_raw C (gc_marshal_raw C (ManifestInfo_raw m)) = Inr (ManifestInfo_raw m)"
  shows "\<exists>m'. ManifestInfo_UnmarshalJSON C (ManifestInfo_MarshalJSON C m) m0 = (None, m') \<and>
      m' = m\<lparr>gm_Created := ms_time (gm_Created m), gm_Uploaded := ms_time (gm_Uploaded m)\<rparr> \<and>
      (m' = m \<longleftrightarrow> (\<forall>t\<in>{gm_Created m, gm_Uploaded m}. 1000000 dvd t \<and> - (2 ^ 63) \<le> t \<and> t < 2 ^ 63)) \<and>
      (gm_Created m = zero_time \<longrightarrow> gm_Created m' = - 6795364578871000000)"
proof -
  have z: "ms_time zero_time = - 6795364578871000000" by (simp add: ms_time_def UnixNano_def zero_time_def int64_def signed_divide_int_def)
  have "m\<lparr>gm_Created := x, gm_Uploaded := y\<rparr> = m \<longleftrightarrow> x = gm_Created m \<and> y = gm_Uploaded m" for x y
    by (cases m) simp
  with ManifestInfo_json_spec [OF assms, of m0] ms_time_exact [of "gm_Created m"] ms_time_exact [of "gm_Uploaded m"] z show ?thesis by auto
qed

text \<open>A manifest of which nothing but the size is known\<close>

definition bare_info :: manifest_info where
  "bare_info = zero_manifest_info\<lparr>gm_Size := 1024\<rparr>"

definition bare_codec :: google_codec where
  "bare_codec = \<lparr>gc_marshal_raw = (\<lambda>_. []), gc_decode_raw = (\<lambda>_. Inr (ManifestInfo_raw bare_info)), gc_decode_tags = (\<lambda>_. Inl ErrEOF)\<rparr>"

theorem ManifestInfo_json_witness:
  "\<exists>m'. ManifestInfo_UnmarshalJSON bare_codec (ManifestInfo_MarshalJSON bare_codec bare_info) zero_manifest_info = (None, m') \<and> m' \<noteq> bare_info"
  using ManifestInfo_json [of bare_codec bare_info zero_manifest_info]
  by (auto simp: bare_codec_def bare_info_def zero_manifest_info_def zero_time_def)

end
