(* ===== verification/Google_Walk.thy ===== *)
theory Google_Walk
  imports Google_List Registry_Network
begin

text \<open>
  pkg/v1/google/list.go: Walk, which visits a repository and all below it.  It ends because the name of a child is
  longer than that of its parent and no name is longer than 255 characters.
\<close>

section \<open>Walk\<close>

text \<open>
  The function that Walk calls for a repository: with what List gave for it, or with its error.  The state is that
  of the world, in which the function keeps what it captures.
\<close>

type_synonym 's walk_fn = "repository \<Rightarrow> google_tags option \<Rightarrow> go_error option \<Rightarrow> 's \<Rightarrow> go_error option \<times> 's"

definition child_repo :: "repository \<Rightarrow> string \<Rightarrow> repository res" where
  "child_repo repo path = NewRepository (Repository_Name repo @ ''/'' @ path) [StrictValidation]"

lemma strict_only: "strict (makeOptions [StrictValidation])" "\<not> insecure (makeOptions [StrictValidation])"
  by (simp_all add: makeOptions_def base_options_def StrictValidation_def)

lemma strict_RepositoryStr:
  "NewRepository name [StrictValidation] = Inr r \<Longrightarrow> RepositoryStr r = repo_repository r"
  by (auto simp: NewRepository_ok strict_only RepositoryStr_def split: prod.splits)

lemma child_repo_cases:
  assumes "child_repo repo path = Inr child"
  obtains p q where "Repository_Name repo @ ''/'' @ path = p @ CHR ''/'' # q" "CHR ''/'' \<notin> set p" "p \<noteq> ''''"
    "RepositoryStr child = q" "checkRepository q = Inr ()" "NewRegistry p [StrictValidation] = Inr (repo_Registry child)"
proof (cases "Repository_Name repo @ ''/'' @ path" rule: split_registry_cases)
  case (host p q)
  moreover have "RepositoryStr child = repo_repository child" using assms unfolding child_repo_def by (rule strict_RepositoryStr)
  ultimately show thesis using assms by (intro that [of p q]) (auto simp: child_repo_def NewRepository_ok)
next
  case no_host
  with assms show thesis by (auto simp: child_repo_def NewRepository_ok NewRegistry_ok strict_only)
qed

lemma child_repo_grows:
  assumes "child_repo repo path = Inr child"
  shows "RegistryStr (repo_Registry child) \<noteq> '''' \<and> length (RepositoryStr child) \<le> 255 \<and>
         (RegistryStr (repo_Registry repo) = '''' \<or> length (RepositoryStr repo) < length (RepositoryStr child))"
proof -
  from assms obtain p q where c: "Repository_Name repo @ ''/'' @ path = p @ CHR ''/'' # q" "CHR ''/'' \<notin> set p" "p \<noteq> ''''"
    "RepositoryStr child = q" "checkRepository q = Inr ()" "NewRegistry p [StrictValidation] = Inr (repo_Registry child)"
    by (rule child_repo_cases)
  have "RegistryStr (repo_Registry child) \<noteq> ''''"
    using c(3,6) by (auto simp: NewRegistry_ok RegistryStr_def Let_def DefaultRegistry_def)
  moreover have "length (RepositoryStr repo) < length q" if "RegistryStr (repo_Registry repo) \<noteq> ''''"
  proof -
    let ?h = "RegistryStr (repo_Registry repo)"
    have n: "?h @ CHR ''/'' # (RepositoryStr repo @ ''/'' @ path) = p @ CHR ''/'' # q"
      using c(1) that by (simp add: Repository_Name_def Registry_Name_def regRepoDelimiter_def Let_def)
    have "length p \<le> length ?h"
    proof (rule ccontr)
      assume "\<not> length p \<le> length ?h"
      then have "p ! length ?h = (?h @ CHR ''/'' # (RepositoryStr repo @ ''/'' @ path)) ! length ?h" unfolding n by (simp add: nth_append)
      with \<open>\<not> length p \<le> length ?h\<close> have "CHR ''/'' \<in> set p" by (metis nth_append_length not_le nth_mem)
      with c(2) show False by simp
    qed
    moreover have "length ?h + length (RepositoryStr repo) + length path + 2 = length p + length q + 1" using arg_cong [OF n, of length] by simp
    ultimately show ?thesis by linarith
  qed
  ultimately show ?thesis using c(4,5) by (auto simp: checkRepository_ok)
qed

definition name_room :: "repository \<Rightarrow> nat" where
  "name_room repo = (if RegistryStr (repo_Registry repo) = '''' then 300 else 256 - length (RepositoryStr repo))"

lemma child_room: "child_repo repo path = Inr child \<Longrightarrow> name_room child < name_room repo"
  using child_repo_grows [of repo path child] by (auto simp: name_room_def)

function google_walk :: "(repository \<Rightarrow> 's \<Rightarrow> google_tags res \<times> 's) \<Rightarrow> repository \<Rightarrow> google_tags option \<Rightarrow> 's walk_fn \<Rightarrow> 's \<Rightarrow> go_error option \<times> 's"
  and walk_children :: "(repository \<Rightarrow> 's \<Rightarrow> google_tags res \<times> 's) \<Rightarrow> repository \<Rightarrow> string list \<Rightarrow> 's walk_fn \<Rightarrow> 's \<Rightarrow> go_error option \<times> 's"
  where
  "google_walk lst repo tags walkFn s =
     (case tags of
        None \<Rightarrow> (Some (ErrMsg (''tags nil for '' @ quoted (Repository_Name repo))), s)
      | Some t \<Rightarrow>
          (case walkFn repo tags None s of
             (Some e, s1) \<Rightarrow> (Some e, s1)
           | (None, s1) \<Rightarrow> walk_children lst repo (gt_Children t) walkFn s1))"
| "walk_children lst repo [] walkFn s = (None, s)"
| "walk_children lst repo (path # paths) walkFn s =
     (case child_repo repo path of
        Inl _ \<Rightarrow> (Some (ErrMsg ''unexpected path failure''), s)
      | Inr child \<Rightarrow>
          (case lst child s of
             (Inl e, s1) \<Rightarrow>
               (case walkFn child None (Some e) s1 of
                  (Some e', s2) \<Rightarrow> (Some e', s2)
                | (None, s2) \<Rightarrow> walk_children lst repo paths walkFn s2)
           | (Inr childTags, s1) \<Rightarrow>
               (case google_walk lst child (Some childTags) walkFn s1 of
                  (Some e', s2) \<Rightarrow> (Some e', s2)
                | (None, s2) \<Rightarrow> walk_children lst repo paths walkFn s2)))"
  by pat_completeness auto

termination
proof (relation "measures [\<lambda>x. case x of Inl (_, r, _, _) \<Rightarrow> 2 * name_room r + 1 | Inr (_, r, _, _) \<Rightarrow> 2 * name_room r,
                           \<lambda>x. case x of Inl _ \<Rightarrow> 0 | Inr (_, _, ps, _) \<Rightarrow> length ps]", simp, goal_cases)
qed (auto dest!: child_room)

declare google_walk.simps [simp del] walk_children.simps [simp del]

definition google_Walk ::
    "google_codec \<Rightarrow> net_env \<Rightarrow> 's round_tripper \<Rightarrow> 's lister_option list \<Rightarrow> repository \<Rightarrow> 's walk_fn \<Rightarrow> 's \<Rightarrow> go_error option \<times> 's" where
  "google_Walk C env dt options rootRepo walkFn s =
     (case google_List C env dt options rootRepo s of
        (Inl e, s1) \<Rightarrow> walkFn rootRepo None (Some e) s1
      | (Inr tags, s1) \<Rightarrow> google_walk (google_List C env dt options) rootRepo (Some tags) walkFn s1)"

section \<open>What Walk visits\<close>

text \<open>The repositories that can be listed from one, when List always gives the same for a repository.\<close>

inductive listed :: "(repository \<Rightarrow> google_tags res) \<Rightarrow> repository \<Rightarrow> repository \<Rightarrow> bool" for L where
  listed_here: "listed L r r"
| listed_child: "L r = Inr t \<Longrightarrow> p \<in> set (gt_Children t) \<Longrightarrow> child_repo r p = Inr c \<Longrightarrow> listed L c x \<Longrightarrow> listed L r x"

inductive_simps listed_simps: "listed L r x"

text \<open>What the function is called with for a repository.\<close>

type_synonym visit = "repository \<times> google_tags option \<times> go_error option"

definition visit_of :: "(repository \<Rightarrow> google_tags res) \<Rightarrow> repository \<Rightarrow> visit" where
  "visit_of L r = (case L r of Inr t \<Rightarrow> (r, Some t, None) | Inl e \<Rightarrow> (r, None, Some e))"

definition visits :: "(repository \<Rightarrow> google_tags res) \<Rightarrow> repository \<Rightarrow> visit set" where
  "visits L r = visit_of L ` {x. listed L r x}"

definition child_visits :: "(repository \<Rightarrow> google_tags res) \<Rightarrow> repository \<Rightarrow> string list \<Rightarrow> visit set" where
  "child_visits L r ps = (\<Union>p\<in>set ps. case child_repo r p of Inr c \<Rightarrow> visits L c | Inl _ \<Rightarrow> {})"

lemma visits_unfold: "visits L r = insert (visit_of L r) (case L r of Inr t \<Rightarrow> child_visits L r (gt_Children t) | Inl _ \<Rightarrow> {})"
proof -
  have "{x. listed L r x} =
      insert r (case L r of Inr t \<Rightarrow> (\<Union>p\<in>set (gt_Children t). case child_repo r p of Inr c \<Rightarrow> {x. listed L c x} | Inl _ \<Rightarrow> {}) | Inl _ \<Rightarrow> {})"
    by (subst listed_simps) (auto split: sum.splits)
  then show ?thesis
    by (auto simp: visits_def child_visits_def image_Union split: sum.splits)
qed

lemma child_visits_Cons:
  "child_visits L r (p # ps) = (case child_repo r p of Inr c \<Rightarrow> visits L c | Inl _ \<Rightarrow> {}) \<union> child_visits L r ps"
  by (simp add: child_visits_def)

text \<open>
  A run is good when what the function has been called with since its start is as it should be: part of the visits,
  and all of them if there was no error.
\<close>

definition good_run :: "('s \<Rightarrow> 'o list) \<Rightarrow> (visit \<Rightarrow> 'o list) \<Rightarrow> visit set \<Rightarrow> 's \<Rightarrow> go_error option \<times> 's \<Rightarrow> bool" where
  "good_run seen f V s res \<longleftrightarrow>
     (\<exists>vs. seen (snd res) = seen s @ concat (map f vs) \<and> set vs \<subseteq> V \<and> (fst res = None \<longrightarrow> set vs = V))"

lemma good_run_None: "good_run seen f {} s (None, s)"
  by (simp add: good_run_def)

lemma good_run_stop: "good_run seen f V s (Some e, s') \<Longrightarrow> V \<subseteq> V' \<Longrightarrow> good_run seen f V' s (Some e, s')"
  by (auto simp: good_run_def)

lemma good_run_seq:
  "good_run seen f V s (None, s1) \<Longrightarrow> good_run seen f V' s1 res \<Longrightarrow> good_run seen f (V \<union> V') s res"
  unfolding good_run_def
proof (elim exE conjE)
  fix vs vs'
  assume "seen (snd (None, s1)) = seen s @ concat (map f vs)" "fst (None, s1) = None \<longrightarrow> set vs = V"
    "seen (snd res) = seen s1 @ concat (map f vs')" "set vs' \<subseteq> V'" "fst res = None \<longrightarrow> set vs' = V'"
  then show "\<exists>vs. seen (snd res) = seen s @ concat (map f vs) \<and> set vs \<subseteq> V \<union> V' \<and> (fst res = None \<longrightarrow> set vs = V \<union> V')"
    by (intro exI [of _ "vs @ vs'"]) auto
qed

lemma good_run_call:
  assumes "\<forall>r t e s. seen (snd (walkFn r t e s)) = seen s @ f (r, t, e)" "seen s = seen s0"
  shows "good_run seen f {(r, t, e)} s0 (walkFn r t e s)"
  using assms by (auto simp: good_run_def intro!: exI [of _ "[(r, t, e)]"])

lemma good_run_start: "good_run seen f V s res \<Longrightarrow> seen s = seen s0 \<Longrightarrow> good_run seen f V s0 res"
  by (simp add: good_run_def)

lemma walk_good:
  "\<forall>r s. fst (lst r s) = L r \<and> seen (snd (lst r s)) = seen s \<Longrightarrow> \<forall>r t e s. seen (snd (walkFn r t e s)) = seen s @ f (r, t, e) \<Longrightarrow>
     tags = Some t \<Longrightarrow> L r = Inr t \<Longrightarrow> good_run seen f (visits L r) s (google_walk lst r tags walkFn s)"
  "\<forall>r s. fst (lst r s) = L r \<and> seen (snd (lst r s)) = seen s \<Longrightarrow> \<forall>r t e s. seen (snd (walkFn r t e s)) = seen s @ f (r, t, e) \<Longrightarrow>
     good_run seen f (child_visits L r ps) s (walk_children lst r ps walkFn s)"
proof (induction lst r tags walkFn s and lst r ps walkFn s arbitrary: t rule: google_walk_walk_children.induct)
  case (1 lst repo tags walkFn s)
  have v: "visits L repo = {(repo, Some t, None)} \<union> child_visits L repo (gt_Children t)"
    using "1.prems"(4) by (subst visits_unfold) (simp add: visit_of_def)
  have call: "good_run seen f {(repo, Some t, None)} s (walkFn repo (Some t) None s)"
    using "1.prems"(2) by (rule good_run_call) simp
  obtain err s1 where w: "walkFn repo (Some t) None s = (err, s1)" by fastforce
  show ?case
  proof (cases err)
    case None
    from "1.IH" [OF "1.prems"(3)] w None "1.prems" have "good_run seen f (child_visits L repo (gt_Children t)) s1 (walk_children lst repo (gt_Children t) walkFn s1)"
      by simp
    from good_run_seq [OF call [unfolded w None] this] w None "1.prems"(3) show ?thesis unfolding v by (simp add: google_walk.simps)
  next
    case (Some e)
    from good_run_stop [OF call [unfolded w Some], of "visits L repo"] w Some "1.prems"(3) show ?thesis
      unfolding v by (simp add: google_walk.simps)
  qed
next
  case (2 lst repo walkFn s)
  show ?case by (simp add: walk_children.simps child_visits_def good_run_None)
next
  case (3 lst repo path paths walkFn s)
  show ?case
  proof (cases "child_repo repo path")
    case (Inl e)
    then show ?thesis by (auto simp: walk_children.simps good_run_def intro!: exI [of _ "[]"])
  next
    case (Inr child)
    obtain res s1 where l: "lst child s = (res, s1)" by fastforce
    with "3.prems"(1) have L: "L child = res" and same: "seen s1 = seen s" by (metis fst_conv, metis snd_conv)
    define one where "one = (case res of Inl e \<Rightarrow> walkFn child None (Some e) s1 | Inr t \<Rightarrow> google_walk lst child (Some t) walkFn s1)"
    have "good_run seen f (visits L child) s1 one"
    proof (cases res)
      case (Inl e)
      have "visits L child = {(child, None, Some e)}" using L Inl by (subst visits_unfold) (simp add: visit_of_def)
      with good_run_call [OF "3.prems"(2) refl] Inl show ?thesis by (simp add: one_def)
    next
      case Inr': (Inr t)
      with "3.IH"(2) [OF Inr l [symmetric]] "3.prems" L Inr show ?thesis by (simp add: one_def)
    qed
    then have o: "good_run seen f (visits L child) s one" using same by (rule good_run_start)
    have step: "walk_children lst repo (path # paths) walkFn s =
        (case one of (Some e', s2) \<Rightarrow> (Some e', s2) | (None, s2) \<Rightarrow> walk_children lst repo paths walkFn s2)"
      using Inr l by (simp add: walk_children.simps one_def split: sum.splits)
    obtain err s2 where e: "one = (err, s2)" by fastforce
    show ?thesis
    proof (cases err)
      case None
      have "good_run seen f (child_visits L repo paths) s2 (walk_children lst repo paths walkFn s2)"
      proof (cases res)
        case (Inl x)
        with "3.IH"(1) [OF Inr l [symmetric] Inl] "3.prems" e None show ?thesis by (simp add: one_def)
      next
        case Inr': (Inr t)
        with "3.IH"(3) [OF Inr l [symmetric] Inr'] "3.prems" e None show ?thesis by (simp add: one_def)
      qed
      with o e None show ?thesis unfolding step by (simp add: child_visits_Cons Inr good_run_seq)
    next
      case (Some x)
      from good_run_stop [OF o [unfolded e Some], of "child_visits L repo (path # paths)"] e Some show ?thesis
        unfolding step by (simp add: child_visits_Cons Inr)
    qed
  qed
qed

section \<open>The names that Walk visits\<close>

lemma child_repo_name:
  assumes wf: "wf_repository r" and c: "child_repo r p = Inr c"
  shows "wf_repository c" "Repository_Name c = Repository_Name r @ ''/'' @ p"
    "RegistryStr (repo_Registry c) = RegistryStr (repo_Registry r)" "\<not> reg_insecure (repo_Registry c)"
proof -
  let ?h = "reg_registry (repo_Registry r)"
  from wf have g: "good_host ?h" by (simp add: wf_repository_def)
  from c obtain q q' where n: "Repository_Name r @ ''/'' @ p = q @ CHR ''/'' # q'" "CHR ''/'' \<notin> set q" "RepositoryStr c = q'"
    "checkRepository q' = Inr ()" "NewRegistry q [StrictValidation] = Inr (repo_Registry c)"
    by (rule child_repo_cases)
  have slash: "CHR ''/'' \<notin> set ?h" using g by (intro host_no_delims) (simp_all add: good_host_def)
  have "?h @ CHR ''/'' # (RepositoryStr r @ ''/'' @ p) = q @ CHR ''/'' # q'" using n(1) by (simp add: Repository_Name_good [OF g])
  then have "[?h, RepositoryStr r @ ''/'' @ p] = [q, q']"
    by (simp only: split_n2_append [OF slash, symmetric] split_n2_append [OF n(2), symmetric])
  then have q: "q = ?h" "q' = RepositoryStr r @ ''/'' @ p" by simp_all
  show reg: "RegistryStr (repo_Registry c) = RegistryStr (repo_Registry r)"
  proof -
    have "?h \<noteq> ''''" "?h \<noteq> defaultRegistryAlias" using g by (auto simp: good_host_def)
    with n(5) [unfolded q(1)] show ?thesis by (simp add: NewRegistry_ok RegistryStr_def Let_def)
  qed
  show "\<not> reg_insecure (repo_Registry c)" using n(5) by (auto simp: NewRegistry_ok strict_only)
  have gc: "good_host (reg_registry (repo_Registry c))" using g reg by (simp add: RegistryStr_def)
  have "repo_repository c = q'" using n(3) c unfolding child_repo_def by (simp add: strict_RepositoryStr)
  then show "wf_repository c" using gc n(4) by (simp add: wf_repository_def)
  show "Repository_Name c = Repository_Name r @ ''/'' @ p"
    using reg n(3) q by (simp add: Repository_Name_good [OF gc] Repository_Name_good [OF g] RegistryStr_def)
qed

lemma listed_name:
  "listed L r x \<Longrightarrow> wf_repository r \<Longrightarrow>
     wf_repository x \<and> RegistryStr (repo_Registry x) = RegistryStr (repo_Registry r) \<and>
     (x = r \<or> prefix (Repository_Name r @ ''/'') (Repository_Name x) \<and> length (RepositoryStr x) \<le> 255 \<and> \<not> reg_insecure (repo_Registry x))"
proof (induction rule: listed.induct)
  case (listed_child r t p c x)
  note c = child_repo_name [OF listed_child.prems listed_child.hyps(3)]
  have "length (RepositoryStr c) \<le> 255" using child_repo_grows [OF listed_child.hyps(3)] by simp
  with listed_child.IH [OF c(1)] c show ?case by (auto simp: prefix_def)
qed simp

lemma Walk_good:
  assumes "\<forall>r s. fst (google_List C env dt options r s) = L r \<and> seen (snd (google_List C env dt options r s)) = seen s"
    and "\<forall>r t e s. seen (snd (walkFn r t e s)) = seen s @ f (r, t, e)"
  shows "good_run seen f (visits L r) s (google_Walk C env dt options r walkFn s)"
proof -
  obtain res s1 where l: "google_List C env dt options r s = (res, s1)" by fastforce
  with assms(1) have L: "L r = res" and same: "seen s1 = seen s" by (metis fst_conv, metis snd_conv)
  show ?thesis
  proof (cases res)
    case (Inl e)
    have "visits L r = {(r, None, Some e)}" using L Inl by (subst visits_unfold) (simp add: visit_of_def)
    with good_run_call [OF assms(2) same] l Inl show ?thesis by (simp add: google_Walk_def)
  next
    case (Inr t)
    have "good_run seen f (visits L r) s1 (google_walk (google_List C env dt options) r (Some t) walkFn s1)"
      using walk_good(1) [OF assms refl] L Inr by simp
    then show ?thesis using same l Inr by (simp add: google_Walk_def good_run_start)
  qed
qed

text \<open>
  C27. Walk returns, whatever the registry lists.  With a registry that lists the same again it calls the function for
  repositories that can be reached from the first through the lists of children, each with its listing or its
  error; if it returns no error, for all of them.  They all have the name of the first as a prefix, and its
  registry.
\<close>

theorem Walk_visits:
  assumes "\<forall>r s. fst (google_List C env dt options r s) = L r \<and> seen (snd (google_List C env dt options r s)) = seen s"
    and "\<forall>r t e s. seen (snd (walkFn r t e s)) = seen s @ [(r, t, e)]"
    and "wf_repository r0"
  shows "\<exists>err s' vs. google_Walk C env dt options r0 walkFn s = (err, s') \<and> seen s' = seen s @ vs \<and>
     (\<forall>v\<in>set vs. \<exists>x. listed L r0 x \<and> v = visit_of L x) \<and>
     (err = None \<longrightarrow> (\<forall>x. listed L r0 x \<longrightarrow> visit_of L x \<in> set vs)) \<and>
     (\<forall>x. listed L r0 x \<longrightarrow> RegistryStr (repo_Registry x) = RegistryStr (repo_Registry r0) \<and>
        (x = r0 \<or> prefix (Repository_Name r0 @ ''/'') (Repository_Name x)))"
proof -
  obtain err s' where w: "google_Walk C env dt options r0 walkFn s = (err, s')" by fastforce
  from assms(2) have one: "\<forall>r t e s. seen (snd (walkFn r t e s)) = seen s @ [(r, t, e)]" by simp
  from w Walk_good [OF assms(1) one, of r0 s] obtain vs where "seen s' = seen s @ vs" "set vs \<subseteq> visits L r0" "err = None \<longrightarrow> set vs = visits L r0"
    by (auto simp: good_run_def)
  with w listed_name [OF _ assms(3)] show ?thesis by (intro exI [of _ err] exI [of _ s'] exI [of _ vs]) (auto simp: visits_def)
qed

section \<open>Servers that always answer alike\<close>

text \<open>A server that needs no authentication and answers every request from its path; the state is not touched.\<close>

definition plain_server :: "(string \<Rightarrow> bytes) \<Rightarrow> 's round_tripper" where
  "plain_server body req s = (Inr \<lparr>rs_StatusCode = StatusOK, rs_Header = [], rs_Body = body (u_Path (rq_URL req))\<rparr>, req, s)"

lemma plain_retrying:
  "retrying env (plain_server body) req s = plain_server body req s"
  unfolding retrying_def plain_server_def by (rule retrying_first) simp

lemma plain_connect:
  "NewWithContext N version reg auth None (retrying env (plain_server body)) scopes s =
     (Inr \<lparr>ss_registry = reg, ss_scheme = ''https'', ss_agent = NewUserAgent version '''', ss_auth = NoAuth\<rparr>, s)"
proof -
  let ?rt = "retrying env (plain_server body)"
  have "client_Do ?rt req s = (Inr (\<lparr>rs_StatusCode = StatusOK, rs_Header = [], rs_Body = body (u_Path (rq_URL req))\<rparr>, req), s)" for req
    by (rule client_Do_direct) (simp_all add: plain_retrying plain_server_def is_redirect_def StatusOK_def)
  then show ?thesis by (simp add: NewWithContext_def given_transport_def ping_def Let_def to_lower_def lower_char_def)
qed

text \<open>What List makes of the answer.\<close>

lemma plain_List:
  "google_List C env (plain_server body) [] repo s =
     (decode_google_tags C (body (''/v2/'' @ RepositoryStr repo @ ''/tags/list'')), s)"
proof -
  let ?ses = "\<lparr>ss_registry = repo_Registry repo, ss_scheme = ''https'', ss_agent = NewUserAgent (ne_version env) '''', ss_auth = NoAuth\<rparr>"
  let ?rt = "session_RoundTrip (ne_codec env) (retrying env (plain_server body))"
  let ?req = "new_request ''GET'' (lister_url repo) []"
  let ?resp = "\<lparr>rs_StatusCode = StatusOK, rs_Header = [], rs_Body = body (''/v2/'' @ RepositoryStr repo @ ''/tags/list'')\<rparr>"
  have "\<exists>q. ?rt ?req (?ses, s) = (Inr ?resp, q, ?ses, s)"
    by (simp add: session_RoundTrip_def Let_def wrapped_transport_def scheme_RoundTrip_def userAgent_RoundTrip_def plain_retrying
        plain_server_def with_header_def lister_url_def new_request_def)
  then obtain q where "?rt ?req (?ses, s) = (Inr ?resp, q, ?ses, s)" by blast
  then have "client_Do ?rt ?req (?ses, s) = (Inr (?resp, q), ?ses, s)" by (rule client_Do_direct) (simp add: is_redirect_def StatusOK_def)
  then show ?thesis
    by (simp add: google_List_def newLister_def plain_connect lister_list_def do_checked_def StatusOK_def CheckError_def)
qed

definition one_child_codec :: google_codec where
  "one_child_codec =
     \<lparr>gc_marshal_raw = (\<lambda>_. []), gc_decode_raw = (\<lambda>_. Inl ErrUnexpectedEOF),
      gc_decode_tags = (\<lambda>b. Inr \<lparr>rt_Children = (if b = ''/v2/foo/tags/list'' then [''bar''] else []), rt_Manifests = [], rt_Name = b, rt_Tags = [''v1'']\<rparr>)\<rparr>"

definition any_env :: net_env where
  "any_env = \<lparr>ne_codec = \<lparr>decode_errors = (\<lambda>_. []), decode_token = (\<lambda>_. Inl ErrEOF), response_challenges = (\<lambda>_. [])\<rparr>,
              ne_version = ''1'', ne_rnd = (\<lambda>_. 0)\<rparr>"

definition gcr_foo :: repository where
  "gcr_foo = \<lparr>repo_Registry = \<lparr>reg_insecure = False, reg_registry = ''gcr.io''\<rparr>, repo_repository = ''foo''\<rparr>"

definition plain_L :: "google_codec \<Rightarrow> repository \<Rightarrow> google_tags res" where
  "plain_L C repo = decode_google_tags C (''/v2/'' @ RepositoryStr repo @ ''/tags/list'')"

definition log_visit :: "visit list walk_fn" where
  "log_visit r t e s = (None, s @ [(r, t, e)])"

lemma good_gcr: "good_host ''gcr.io''"
  by (simp add: good_host_def defaultRegistryAlias_def host_name_ok_def host_char_def is_alpha_def is_ctl_def byte_def)

lemma wf_gcr_foo: "wf_repository gcr_foo"
  by (simp add: wf_repository_def gcr_foo_def good_gcr unit_ok checkRepository_ok repositoryChars_def)

theorem Walk_visits_witness:
  "\<exists>err s' vs. google_Walk one_child_codec any_env (plain_server (\<lambda>p. p)) [] gcr_foo log_visit [] = (err, s') \<and> s' = [] @ vs \<and>
     (\<forall>v\<in>set vs. \<exists>x. listed (plain_L one_child_codec) gcr_foo x \<and> v = visit_of (plain_L one_child_codec) x) \<and>
     (err = None \<longrightarrow> (\<forall>x. listed (plain_L one_child_codec) gcr_foo x \<longrightarrow> visit_of (plain_L one_child_codec) x \<in> set vs)) \<and>
     (\<forall>x. listed (plain_L one_child_codec) gcr_foo x \<longrightarrow>
        RegistryStr (repo_Registry x) = RegistryStr (repo_Registry gcr_foo) \<and>
        (x = gcr_foo \<or> prefix (Repository_Name gcr_foo @ ''/'') (Repository_Name x)))"
  by (rule Walk_visits [where seen = "\<lambda>s. s"]) (simp_all add: plain_List plain_L_def log_visit_def wf_gcr_foo)

text \<open>The names that it calls the function for.\<close>

lemma Walk_run:
  "map (\<lambda>(r, t, e). Repository_Name r) (snd (google_Walk one_child_codec any_env (plain_server (\<lambda>p. p)) [] gcr_foo log_visit [])) =
     [''gcr.io/foo'', ''gcr.io/foo/bar'']"
proof -
  have l: "google_List one_child_codec any_env (plain_server (\<lambda>p. p)) [] = (\<lambda>r s. (plain_L one_child_codec r, s))"
    by (intro ext) (simp add: plain_List plain_L_def)
  have "map (\<lambda>(r, t, e). Repository_Name r)
      (snd (google_walk (\<lambda>r s. (plain_L one_child_codec r, s)) gcr_foo (Some \<lparr>gt_Children = [''bar''], gt_Manifests = [], gt_Name = ''/v2/foo/tags/list'', gt_Tags = [''v1'']\<rparr>) log_visit [])) =
     [''gcr.io/foo'', ''gcr.io/foo/bar'']" by code_simp
  moreover have "plain_L one_child_codec gcr_foo = Inr \<lparr>gt_Children = [''bar''], gt_Manifests = [], gt_Name = ''/v2/foo/tags/list'', gt_Tags = [''v1'']\<rparr>" by code_simp
  ultimately show ?thesis by (simp add: google_Walk_def l)
qed

end
