(* ===== verification/Crane.thy ===== *)
theory Crane
  imports Registry_Pull Remote_Pages Layout Tarball_Write Mutate_Extract Stream_Layer
begin

text \<open>
  pkg/crane and pkg/internal/legacy: the operations of the command crane, put together from the packages below:
  references are parsed, options are handed on, images are pulled, pushed, copied between registries, saved and
  made from files.
\<close>

section \<open>options.go\<close>

record 's crane_options =
  co_name :: "name_option list"
  co_remote :: "'s remote_option list"
  co_platform :: "platform option"

type_synonym 's crane_option = "'s crane_options \<Rightarrow> 's crane_options"

text \<open>
  What the package takes from its surroundings: the network, the decoders, http.DefaultTransport and authn.DefaultKeychain,
  and the decoder of schema 1 manifests, which gives the digests of the layers.
\<close>

record 's crane_env =
  cr_net :: net_env
  cr_codec :: codec
  cr_lists :: list_codec
  cr_sched :: scheduler
  cr_transport :: "'s round_tripper"
  cr_keychain :: keychain
  cr_schema1 :: "bytes \<Rightarrow> string list res"

definition crane_makeOptions :: "'s crane_env \<Rightarrow> 's crane_option list \<Rightarrow> 's crane_options" where
  "crane_makeOptions X opts =
     foldl (\<lambda>o' f. f o') \<lparr>co_name = [], co_remote = [WithAuthFromKeychain (cr_keychain X)], co_platform = None\<rparr> opts"

definition crane_WithTransport :: "'s round_tripper \<Rightarrow> 's crane_option" where
  "crane_WithTransport t o' = o'\<lparr>co_remote := co_remote o' @ [WithTransport t]\<rparr>"

definition crane_Insecure :: "'s crane_option" where
  "crane_Insecure o' = o'\<lparr>co_name := co_name o' @ [Insecure]\<rparr>"

definition crane_WithPlatform :: "platform option \<Rightarrow> 's crane_option" where
  "crane_WithPlatform platform o' =
     (case platform of Some p \<Rightarrow> o'\<lparr>co_remote := co_remote o' @ [WithPlatform p]\<rparr> | None \<Rightarrow> o')\<lparr>co_platform := platform\<rparr>"

definition crane_WithAuthFromKeychain :: "keychain \<Rightarrow> 's crane_option" where
  "crane_WithAuthFromKeychain keys o' = o'\<lparr>co_remote := (co_remote o')[0 := WithAuthFromKeychain keys]\<rparr>"

definition crane_WithAuth :: "authenticator \<Rightarrow> 's crane_option" where
  "crane_WithAuth auth o' = o'\<lparr>co_remote := (co_remote o')[0 := WithAuth auth]\<rparr>"

definition crane_WithUserAgent :: "string \<Rightarrow> 's crane_option" where
  "crane_WithUserAgent ua o' = o'\<lparr>co_remote := co_remote o' @ [WithUserAgent ua]\<rparr>"

section \<open>get.go\<close>

definition bad_reference :: "string \<Rightarrow> string \<Rightarrow> go_error" where
  "bad_reference what r = ErrMsg (''parsing '' @ what @ '' '' @ quoted r)"

definition crane_getImage ::
    "'s crane_env \<Rightarrow> string \<Rightarrow> 's crane_option list \<Rightarrow> 's \<Rightarrow> ((remote_image \<times> reference \<times> 's client) res \<times> 's) option" where
  "crane_getImage X r opts s =
     (let o' = crane_makeOptions X opts in
      case ParseReference r (co_name o') of
        Inl _ \<Rightarrow> Some (Inl (bad_reference ''reference'' r), s)
      | Inr ref \<Rightarrow>
          map_option (\<lambda>(res, s1). (bnd (wrap (''reading image '' @ quoted (Reference_String ref)) res) (\<lambda>(img, c). Inr (img, ref, c)), s1))
            (remote_Image (cr_net X) (cr_codec X) (cr_transport X) ref (co_remote o') s))"

definition crane_getManifest ::
    "'s crane_env \<Rightarrow> string \<Rightarrow> 's crane_option list \<Rightarrow> 's \<Rightarrow> (remote_descriptor \<times> 's client) res \<times> 's" where
  "crane_getManifest X r opts s =
     (let o' = crane_makeOptions X opts in
      case ParseReference r (co_name o') of
        Inl _ \<Rightarrow> (Inl (bad_reference ''reference'' r), s)
      | Inr ref \<Rightarrow> remote_Get (cr_net X) (cr_transport X) ref (co_remote o') s)"

definition crane_head :: "'s crane_env \<Rightarrow> string \<Rightarrow> 's crane_option list \<Rightarrow> 's \<Rightarrow> descriptor res \<times> 's" where
  "crane_head X r opts s =
     (let o' = crane_makeOptions X opts in
      case ParseReference r (co_name o') of
        Inl e \<Rightarrow> (Inl e, s)
      | Inr ref \<Rightarrow> remote_Head (cr_net X) (cr_transport X) ref (co_remote o') s)"

section \<open>catalog.go, list.go, delete.go, tag.go, push.go\<close>

definition crane_Catalog :: "'s crane_env \<Rightarrow> string \<Rightarrow> 's crane_option list \<Rightarrow> 's \<Rightarrow> (string list res \<times> 's) option" where
  "crane_Catalog X src opts s =
     (let o' = crane_makeOptions X opts in
      case NewRegistry src (co_name o') of
        Inl e \<Rightarrow> Some (Inl e, s)
      | Inr reg \<Rightarrow> Catalog (cr_lists X) (cr_net X) (cr_transport X) reg (co_remote o') s)"

definition crane_ListTags :: "'s crane_env \<Rightarrow> string \<Rightarrow> 's crane_option list \<Rightarrow> 's \<Rightarrow> (string list res \<times> 's) option" where
  "crane_ListTags X src opts s =
     (let o' = crane_makeOptions X opts in
      case NewRepository src (co_name o') of
        Inl _ \<Rightarrow> Some (Inl (bad_reference ''repo'' src), s)
      | Inr repo \<Rightarrow> remote_List (cr_lists X) (cr_net X) (cr_transport X) repo (co_remote o') s)"

definition crane_Delete :: "'s crane_env \<Rightarrow> string \<Rightarrow> 's crane_option list \<Rightarrow> 's \<Rightarrow> unit res \<times> 's" where
  "crane_Delete X src opts s =
     (let o' = crane_makeOptions X opts in
      case ParseReference src (co_name o') of
        Inl _ \<Rightarrow> (Inl (bad_reference ''reference'' src), s)
      | Inr ref \<Rightarrow> Delete (cr_net X) (cr_transport X) ref (co_remote o') s)"

definition descriptor_taggable :: "remote_descriptor \<Rightarrow> taggable" where
  "descriptor_taggable d = TagDescriptor (rd_Manifest d) (rd_Descriptor d)"

definition crane_Tag :: "'s crane_env \<Rightarrow> string \<Rightarrow> string \<Rightarrow> 's crane_option list \<Rightarrow> 's \<Rightarrow> unit res \<times> 's" where
  "crane_Tag X img tg opts s =
     (let o' = crane_makeOptions X opts in
      case ParseReference img (co_name o') of
        Inl _ \<Rightarrow> (Inl (bad_reference ''reference'' img), s)
      | Inr ref \<Rightarrow>
          (case remote_Get (cr_net X) (cr_transport X) ref (co_remote o') s of
             (Inl _, s1) \<Rightarrow> (Inl (ErrMsg (''fetching '' @ quoted img)), s1)
           | (Inr (desc, _), s1) \<Rightarrow>
               remote_Tag (cr_net X) (cr_transport X) (Repository_Tag (Context ref) tg) (descriptor_taggable desc) (co_remote o') s1))"

definition crane_Push :: "'s crane_env \<Rightarrow> push_image \<Rightarrow> string \<Rightarrow> 's crane_option list \<Rightarrow> 's \<Rightarrow> unit res \<times> 's" where
  "crane_Push X img dst opts s =
     (let o' = crane_makeOptions X opts in
      case NewTag dst (co_name o') of
        Inl _ \<Rightarrow> (Inl (bad_reference ''tag'' dst), s)
      | Inr tg \<Rightarrow> remote_Write (cr_net X) (cr_sched X) (cr_transport X) (RefTag tg) img (co_remote o') s)"

text \<open>Load, the other function of push.go\<close>

definition crane_Load :: "codec \<Rightarrow> tarball_json \<Rightarrow> file_system \<Rightarrow> string \<Rightarrow> image res" where
  "crane_Load E J fs path = ImageFromPath E J fs path None"

section \<open>config.go, digest.go, manifest.go\<close>

definition client_transport :: "'s crane_env \<Rightarrow> 's client \<Rightarrow> (session \<times> 's) round_tripper" where
  "client_transport X c = session_transport (cr_net X) (fst c)"

definition client_image ::
    "'s crane_env \<Rightarrow> remote_descriptor \<times> 's client \<Rightarrow> 's \<Rightarrow> (remote_image res \<times> session \<times> 's) option" where
  "client_image X d s =
     Descriptor_Image (ne_codec (cr_net X)) (cr_codec X) (client_transport X (snd d)) (fst d) (snd (snd d), s)"

definition crane_Config :: "'s crane_env \<Rightarrow> string \<Rightarrow> 's crane_option list \<Rightarrow> 's \<Rightarrow> (bytes res \<times> 's) option" where
  "crane_Config X r opts s =
     (case crane_getImage X r opts s of
        None \<Rightarrow> None
      | Some (Inl e, s1) \<Rightarrow> Some (Inl e, s1)
      | Some (Inr (img, _, c), s1) \<Rightarrow>
          (case remoteImage_RawConfigFile (ne_codec (cr_net X)) (cr_codec X) (client_transport X c) img (snd c, s1) of
             (res, _, _, s2) \<Rightarrow> Some (res, s2)))"

definition crane_Digest :: "'s crane_env \<Rightarrow> string \<Rightarrow> 's crane_option list \<Rightarrow> 's \<Rightarrow> (string res \<times> 's) option" where
  "crane_Digest X r opts s =
     (case co_platform (crane_makeOptions X opts) of
        Some _ \<Rightarrow>
          (case crane_getManifest X r opts s of
             (Inl e, s1) \<Rightarrow> Some (Inl e, s1)
           | (Inr d, s1) \<Rightarrow>
               (case client_image X d s1 of
                  None \<Rightarrow> None
                | Some (Inl e, _, s2) \<Rightarrow> Some (Inl e, s2)
                | Some (Inr ri, ses, s2) \<Rightarrow>
                    (case remoteImage_RawManifest (ne_codec (cr_net X)) (client_transport X (snd d)) ri (ses, s2) of
                       (raw, _, _, s3) \<Rightarrow> Some (bnd (partial_Digest raw) (\<lambda>h. Inr (Hash_String h)), s3))))
      | None \<Rightarrow> (case crane_head X r opts s of (res, s1) \<Rightarrow> Some (bnd res (\<lambda>d. Inr (Hash_String (d_Digest d))), s1)))"

definition crane_Manifest :: "'s crane_env \<Rightarrow> string \<Rightarrow> 's crane_option list \<Rightarrow> 's \<Rightarrow> (bytes res \<times> 's) option" where
  "crane_Manifest X r opts s =
     (case crane_getManifest X r opts s of
        (Inl e, s1) \<Rightarrow> Some (Inl e, s1)
      | (Inr d, s1) \<Rightarrow>
          (case co_platform (crane_makeOptions X opts) of
             Some _ \<Rightarrow>
               (case client_image X d s1 of
                  None \<Rightarrow> None
                | Some (Inl e, _, s2) \<Rightarrow> Some (Inl e, s2)
                | Some (Inr ri, ses, s2) \<Rightarrow>
                    (case remoteImage_RawManifest (ne_codec (cr_net X)) (client_transport X (snd d)) ri (ses, s2) of
                       (raw, _, _, s3) \<Rightarrow> Some (raw, s3)))
           | None \<Rightarrow> Some (Inr (rd_Manifest (fst d)), s1)))"

section \<open>copy.go: indexes\<close>

text \<open>
  WriteIndex on the index of a registry, whose children are fetched while others are pushed.  The state has the session
  with the source, the session with the destination, and the world.
\<close>

type_synonym 's copy_state = "session \<times> session \<times> 's"

definition on_src :: "(session \<times> 's \<Rightarrow> 'r \<times> session \<times> 's) \<Rightarrow> 's copy_state \<Rightarrow> 'r \<times> 's copy_state" where
  "on_src f st = (case st of (a, b, s) \<Rightarrow> (case f (a, s) of (r, a', s') \<Rightarrow> (r, a', b, s')))"

definition on_dst :: "(session \<times> 's \<Rightarrow> 'r \<times> session \<times> 's) \<Rightarrow> 's copy_state \<Rightarrow> 'r \<times> 's copy_state" where
  "on_dst f st = (case st of (a, b, s) \<Rightarrow> (case f (b, s) of (r, b', s') \<Rightarrow> (r, a, b', s')))"

definition on_world :: "('s \<Rightarrow> 'r \<times> 's) \<Rightarrow> 's copy_state \<Rightarrow> 'r \<times> 's copy_state" where
  "on_world f st = (case st of (a, b, s) \<Rightarrow> (case f s of (r, s') \<Rightarrow> (r, a, b, s')))"

text \<open>A method of an object that fills in what it has fetched, as the functions of remote give it.\<close>

definition keeping :: "(session \<times> 's \<Rightarrow> 'r \<times> 'o \<times> session \<times> 's) \<Rightarrow> session \<times> 's \<Rightarrow> ('r \<times> 'o) \<times> session \<times> 's" where
  "keeping f st = (case f st of (r, x, st') \<Rightarrow> ((r, x), st'))"

datatype 's index_job =
    WriteIndexJob remote_index "'s remote_option list" reference
  | ChildrenJob remote_index "descriptor list" "'s remote_option list" reference

definition unit_err :: "unit res \<times> 's \<Rightarrow> go_error option \<times> 's" where
  "unit_err r = (case r of (Inl e, s) \<Rightarrow> (Some e, s) | (Inr _, s) \<Rightarrow> (None, s))"

definition commit_remote_index :: "net_codec \<Rightarrow> (session \<times> 's) round_tripper \<Rightarrow> (session \<times> 's) round_tripper \<Rightarrow> remote_index \<Rightarrow> reference \<Rightarrow> 's copy_state \<Rightarrow>
    go_error option \<times> 's copy_state" where
  "commit_remote_index N rts rtd idx ref st =
     (case on_src (keeping (remoteIndex_RawManifest N rts idx)) st of
        ((raw, idx1), st1) \<Rightarrow> on_dst (commitManifest N rtd (Context ref) (TagRaw raw (Some (remoteIndex_MediaType idx1))) ref) st1)"

text \<open>
  The image of an index, and Write with a session of its own for it; whether the chain of indexes behind the
  child ends is up to the registry.
\<close>

definition copy_child_image ::
    "'s crane_env \<Rightarrow> (session \<times> 's) round_tripper \<Rightarrow> remote_index \<Rightarrow> v1_hash \<Rightarrow> 's remote_option list \<Rightarrow> reference \<Rightarrow> 's copy_state \<Rightarrow>
     (go_error option \<times> 's copy_state) option" where
  "copy_child_image X rts idx h options ref st =
     (case st of (a, b, s) \<Rightarrow>
        (case remoteIndex_Image (ne_codec (cr_net X)) (cr_codec X) rts idx h (a, s) of
           None \<Rightarrow> None
         | Some (Inl e, _, a1, s1) \<Rightarrow> Some (Some e, a1, b, s1)
         | Some (Inr ri, _, a1, s1) \<Rightarrow>
             Some (on_world (\<lambda>s. unit_err (remote_Write (cr_net X) (cr_sched X) (cr_transport X) ref
                                (pulled_image (ne_codec (cr_net X)) (cr_codec X) rts ri (a1, s1)) options s)) (a1, b, s1))))"

partial_function (option) copy_index ::
    "'s crane_env \<Rightarrow> (session \<times> 's) round_tripper \<Rightarrow> (session \<times> 's) round_tripper \<Rightarrow> 's index_job \<Rightarrow> 's copy_state \<Rightarrow>
     (go_error option \<times> 's copy_state) option" where
  "copy_index X rts rtd job st =
     (case job of
        WriteIndexJob idx options ref \<Rightarrow>
          (case on_src (keeping (remoteIndex_IndexManifest (ne_codec (cr_net X)) (cr_codec X) rts idx)) st of
             ((Inl e, _), st1) \<Rightarrow> Some (Some e, st1)
           | ((Inr index, idx1), st1) \<Rightarrow>
               Option.bind (copy_index X rts rtd (ChildrenJob idx1 (im_Manifests index) options ref) st1) (\<lambda>(err, st2).
                 case err of
                   Some e \<Rightarrow> Some (Some e, st2)
                 | None \<Rightarrow> Some (commit_remote_index (ne_codec (cr_net X)) rts rtd idx1 ref st2)))
      | ChildrenJob idx ds options ref \<Rightarrow>
          (case ds of
             [] \<Rightarrow> Some (None, st)
           | desc # rest \<Rightarrow>
               let ref' = RefDigest (Repository_Digest (Context ref) (Hash_String (d_Digest desc))); mt = d_MediaType desc in
               Option.bind
                 (case on_dst (checkExistingManifest (ne_codec (cr_net X)) rtd (Context ref) (d_Digest desc) mt) st of
                    (Inl e, st1) \<Rightarrow> Some (Some e, st1)
                  | (Inr ex, st1) \<Rightarrow>
                      if ex then Some (None, st1)
                      else if IsIndex mt then
                        (case on_src (keeping (remoteIndex_ImageIndex (ne_codec (cr_net X)) (cr_codec X) rts idx (d_Digest desc))) st1 of
                           ((Inl e, _), st2) \<Rightarrow> Some (Some e, st2)
                         | ((Inr sub, _), st2) \<Rightarrow> copy_index X rts rtd (WriteIndexJob sub [] ref') st2)
                      else if IsImage mt then copy_child_image X rts idx (d_Digest desc) options ref' st1
                      else Some (None, st1))
                 (\<lambda>(err, st2).
                    case err of
                      Some e \<Rightarrow> Some (Some e, st2)
                    | None \<Rightarrow> copy_index X rts rtd (ChildrenJob idx rest options ref) st2)))"

definition crane_copyIndex ::
    "'s crane_env \<Rightarrow> remote_descriptor \<times> 's client \<Rightarrow> reference \<Rightarrow> 's remote_option list \<Rightarrow> 's \<Rightarrow> (unit res \<times> 's) option" where
  "crane_copyIndex X d dstRef options s =
     (case Descriptor_ImageIndex (fst d) of
        Inl e \<Rightarrow> Some (Inl e, s)
      | Inr idx \<Rightarrow>
          (case remote_makeOptions (cr_transport X) (RegistryStr (repo_Registry (Context dstRef))) options of
             Inl e \<Rightarrow> Some (Inl e, s)
           | Inr o' \<Rightarrow>
               (case connect (cr_net X) (repo_Registry (Context dstRef)) o' [Scope dstRef PushScope] s of
                  (Inl e, s1) \<Rightarrow> Some (Inl e, s1)
                | (Inr ses, s1) \<Rightarrow>
                    map_option (\<lambda>(err, _, _, s2). ((case err of Some e \<Rightarrow> Inl e | None \<Rightarrow> Inr ()), s2))
                      (copy_index X (client_transport X (snd d)) (session_transport (cr_net X) o') (WriteIndexJob idx options dstRef)
                         (snd (snd d), ses, s1)))))"

section \<open>copy.go: images\<close>

text \<open>The methods of the image give what they give right after it has been chosen.\<close>

definition crane_copyImage ::
    "'s crane_env \<Rightarrow> remote_descriptor \<times> 's client \<Rightarrow> reference \<Rightarrow> 's remote_option list \<Rightarrow> 's \<Rightarrow> (unit res \<times> 's) option" where
  "crane_copyImage X d dstRef options s =
     (case client_image X d s of
        None \<Rightarrow> None
      | Some (Inl e, _, s1) \<Rightarrow> Some (Inl e, s1)
      | Some (Inr ri, ses, s1) \<Rightarrow>
          Some (remote_Write (cr_net X) (cr_sched X) (cr_transport X) dstRef
                  (pulled_image (ne_codec (cr_net X)) (cr_codec X) (client_transport X (snd d)) ri (ses, s1)) options s1))"

section \<open>pkg/internal/legacy/copy.go\<close>

text \<open>The client of putManifest does not retry.\<close>

definition legacy_putManifest :: "'s crane_env \<Rightarrow> remote_descriptor \<Rightarrow> reference \<Rightarrow> authenticator \<Rightarrow> 's \<Rightarrow> unit res \<times> 's" where
  "legacy_putManifest X desc dstRef dstAuth s =
     (case NewWithContext (ne_codec (cr_net X)) (ne_version (cr_net X)) (repo_Registry (Context dstRef)) dstAuth None (cr_transport X)
             [Scope dstRef PushScope] s of
        (Inl e, s1) \<Rightarrow> (Inl e, s1)
      | (Inr ses, s1) \<Rightarrow>
          (case do_checked (ne_codec (cr_net X)) (session_RoundTrip (ne_codec (cr_net X)) (cr_transport X))
                  (with_header (new_request ''PUT'' (w_url (Context dstRef) (manifest_path_of (Context dstRef) (Identifier dstRef))) (rd_Manifest desc))
                     ''Content-Type'' (d_MediaType (rd_Descriptor desc)))
                  [StatusOK, StatusCreated, StatusAccepted] (ses, s1) of
             (r, _, s2) \<Rightarrow> (bnd r (\<lambda>_. Inr ()), s2)))"

definition schema1_layer :: "'s crane_env \<Rightarrow> reference \<Rightarrow> v1_hash \<times> 's client \<Rightarrow> 's \<Rightarrow> push_layer" where
  "schema1_layer X src l s =
     (let cl = CompressedToLayer (cr_codec X) (remote_layer (ne_codec (cr_net X)) (client_transport X (snd l)) src (fst l) (snd (snd l), s))
      in ordinary_layer (Some src) (mountable_layer cl))"

fun copy_schema1_layers :: "'s crane_env \<Rightarrow> reference \<Rightarrow> reference \<Rightarrow> authenticator \<Rightarrow> authenticator \<Rightarrow> string list \<Rightarrow> 's \<Rightarrow> unit res \<times> 's" where
  "copy_schema1_layers X srcRef dstRef srcAuth dstAuth [] s = (Inr (), s)"
| "copy_schema1_layers X srcRef dstRef srcAuth dstAuth (blob # blobs) s =
     (let src = Repository_Digest (Context srcRef) blob; dst = Repository_Digest (Context dstRef) blob in
      case remote_Layer (cr_net X) (cr_transport X) src [WithAuth srcAuth] s of
        (Inl e, s1) \<Rightarrow> (Inl e, s1)
      | (Inr l, s1) \<Rightarrow>
          (case WriteLayer (cr_net X) (cr_sched X) (cr_transport X) (Digest_Context dst) (schema1_layer X (RefDigest src) l s1) [WithAuth dstAuth] s1 of
             (Inl e, s2) \<Rightarrow> (Inl e, s2)
           | (Inr _, s2) \<Rightarrow> copy_schema1_layers X srcRef dstRef srcAuth dstAuth blobs s2))"

definition CopySchema1 :: "'s crane_env \<Rightarrow> remote_descriptor \<Rightarrow> reference \<Rightarrow> reference \<Rightarrow> authenticator \<Rightarrow> authenticator \<Rightarrow> 's \<Rightarrow> unit res \<times> 's" where
  "CopySchema1 X desc srcRef dstRef srcAuth dstAuth s =
     (case cr_schema1 X (rd_Manifest desc) of
        Inl e \<Rightarrow> (Inl e, s)
      | Inr blobs \<Rightarrow>
          (case copy_schema1_layers X srcRef dstRef srcAuth dstAuth blobs s of
             (Inl e, s1) \<Rightarrow> (Inl e, s1)
           | (Inr _, s1) \<Rightarrow> legacy_putManifest X desc dstRef dstAuth s1))"

section \<open>copy.go: Copy\<close>

definition crane_copySchema1 :: "'s crane_env \<Rightarrow> remote_descriptor \<Rightarrow> reference \<Rightarrow> reference \<Rightarrow> 's \<Rightarrow> unit res \<times> 's" where
  "crane_copySchema1 X desc srcRef dstRef s =
     (case cr_keychain X (RegistryStr (repo_Registry (Context srcRef))) of
        Inl e \<Rightarrow> (Inl e, s)
      | Inr srcAuth \<Rightarrow>
          (case cr_keychain X (RegistryStr (repo_Registry (Context dstRef))) of
             Inl e \<Rightarrow> (Inl e, s)
           | Inr dstAuth \<Rightarrow> CopySchema1 X desc srcRef dstRef srcAuth dstAuth s))"

definition wrap_run :: "string \<Rightarrow> ('r res \<times> 's) option \<Rightarrow> ('r res \<times> 's) option" where
  "wrap_run msg r = map_option (\<lambda>(x, s). (wrap msg x, s)) r"

definition crane_Copy :: "'s crane_env \<Rightarrow> string \<Rightarrow> string \<Rightarrow> 's crane_option list \<Rightarrow> 's \<Rightarrow> (unit res \<times> 's) option" where
  "crane_Copy X src dst opts s =
     (let o' = crane_makeOptions X opts in
      case ParseReference src (co_name o') of
        Inl _ \<Rightarrow> Some (Inl (bad_reference ''reference'' src), s)
      | Inr srcRef \<Rightarrow>
          (case ParseReference dst (co_name o') of
             Inl _ \<Rightarrow> Some (Inl (bad_reference ''reference for'' dst), s)
           | Inr dstRef \<Rightarrow>
               (case remote_Get (cr_net X) (cr_transport X) srcRef (co_remote o') s of
                  (Inl _, s1) \<Rightarrow> Some (Inl (ErrMsg (''fetching '' @ quoted src)), s1)
                | (Inr d, s1) \<Rightarrow>
                    let mt = d_MediaType (rd_Descriptor (fst d)) in
                    if IsIndex mt then
                      (if co_platform o' \<noteq> None
                       then wrap_run ''failed to copy image'' (crane_copyImage X d dstRef (co_remote o') s1)
                       else wrap_run ''failed to copy index'' (crane_copyIndex X d dstRef (co_remote o') s1))
                    else if is_schema1 mt then
                      wrap_run ''failed to copy schema 1 image'' (Some (crane_copySchema1 X (fst d) srcRef dstRef s1))
                    else wrap_run ''failed to copy image'' (crane_copyImage X d dstRef (co_remote o') s1))))"

end
