(* ===== verification/Crane_Copy.thy ===== *)
theory Crane_Copy
  imports Crane
begin

text \<open>
  pkg/crane: what Copy does to a network of registries.
\<close>

section \<open>Copying between registries\<close>

lemma mountable_pushable:
  assumes "pushable_image (ordinary_image i) (map (ordinary_layer None) ls) rc mt rm" and "i_Layers i = Inr ls"
  shows "pushable_image (mountableImage ref i) (map (ordinary_layer (Some ref) \<circ> mountable_layer) ls) rc mt rm"
    and "pushed_blobs (map (ordinary_layer (Some ref) \<circ> mountable_layer) ls) rc = pushed_blobs (map (ordinary_layer None) ls) rc"
proof -
  have m: "pushable (ordinary_layer (Some ref) (mountable_layer l)) = pushable (ordinary_layer None l)"
    "distributable (ordinary_layer (Some ref) (mountable_layer l)) = distributable (ordinary_layer None l)"
    "content_of (ordinary_layer (Some ref) (mountable_layer l)) = content_of (ordinary_layer None l)"
    "is_ok (l_MediaType (pl_before (ordinary_layer (Some ref) (mountable_layer l)))) = is_ok (l_MediaType (pl_before (ordinary_layer None l)))"
    for l
    by (simp_all add: pushable_def distributable_def content_of_def ordinary_layer_def mountable_layer_def split: sum.splits)
  show "pushable_image (mountableImage ref i) (map (ordinary_layer (Some ref) \<circ> mountable_layer) ls) rc mt rm"
    using assms by (auto simp: pushable_image_def mountableImage_def ordinary_image_def Let_def config_known_def list_all_iff m)
  have "filter distributable (map (ordinary_layer (Some ref) \<circ> mountable_layer) ls) =
      map (ordinary_layer (Some ref) \<circ> mountable_layer) (filter (distributable \<circ> ordinary_layer None) ls)"
    by (simp add: filter_map m comp_def)
  moreover have "filter distributable (map (ordinary_layer None) ls) = map (ordinary_layer None) (filter (distributable \<circ> ordinary_layer None) ls)"
    by (simp add: filter_map)
  ultimately show "pushed_blobs (map (ordinary_layer (Some ref) \<circ> mountable_layer) ls) rc = pushed_blobs (map (ordinary_layer None) ls) rc"
    by (simp add: pushed_blobs_def m comp_def)
qed

text \<open>What a registry serves under a reference: an image, all of whose blobs it has.\<close>

definition serves_image :: "codec \<Rightarrow> network \<Rightarrow> reference \<Rightarrow> string list \<Rightarrow> media_type \<Rightarrow> bytes \<Rightarrow> bytes \<Rightarrow> bytes list \<Rightarrow> bool" where
  "serves_image E w ref ns mt rm rc cs \<longleftrightarrow>
     (let r = registry_of (RegistryStr (repo_Registry (Context ref))) w in
      lookup_manifest (rg_manifests r) ns (Identifier ref) = Some \<lparr>rm_contentType = mt, rm_blob = rm\<rparr> \<and>
      (\<forall>d. ref = RefDigest d \<longrightarrow> DigestStr d = sha_string rm) \<and>
      (\<forall>c\<in>insert rc (set cs). bs_contents (rg_blobs r) (sha_string c) = Some c))"

text \<open>The image that is described by a manifest and a config file, with its layers.\<close>

definition good_image :: "codec \<Rightarrow> bytes \<Rightarrow> bytes \<Rightarrow> bytes list \<Rightarrow> bool" where
  "good_image E rm rc cs \<longleftrightarrow>
     (\<exists>i cf m ls. coherent_parts E i rc cf rm m ls \<and> all_distributable m \<and> described_once m \<and>
        list_all2 (\<lambda>l c. l_Compressed l = Inr c) ls cs)"

lemma pulled_pushable:
  assumes "pulled_as E i rm rc cs" and "decode_manifest E rm = Inr m" and "all_distributable m" and "i_MediaType i = Inr mt" and "IsImage mt"
  shows "\<exists>ls. pushable_image (mountableImage ref i) ls rc mt rm \<and> pushed_blobs ls rc = cs @ [rc]"
proof -
  from assms(1) obtain rc' cf rm' m' ls where p: "coherent_parts E i rc' cf rm' m' ls" by (auto simp: pulled_as_def coherent_def)
  with assms(1,2) have e: "rc' = rc" "rm' = rm" "m' = m" "i_Layers i = Inr ls" "map l_Compressed ls = map Inr cs"
    by (auto simp: pulled_as_def coherent_parts_def)
  have "list_all2 (\<lambda>l c. l_Compressed l = Inr c) ls cs"
    using e(5) by (simp add: list_all2_conv_all_nth) (metis length_map nth_map)
  note cp = coherent_pushable [OF p [unfolded e] assms(4,5,3) this]
  from mountable_pushable [OF cp(1) e(4), of ref] cp(2) show ?thesis by auto
qed

lemma copyImage_net:
  assumes src: "reaches enc E dt (Context sref) nss options w" and names: "names_ok nss (Identifier sref)"
    and dst: "reaches enc E dt (Context dref) nsd options w" and named: "names_ok nsd (Identifier dref)"
    and X: "cr_codec X = E" "cr_transport X = dt" "fair_order (sc_layers (cr_sched X))"
    and served: "serves_image E w sref nss mt rm rc cs" and good: "good_image E rm rc cs" "inj_on sha (set cs)" and mt: "IsImage mt"
  defines "host \<equiv> RegistryStr (repo_Registry (Context dref))"
  shows "\<exists>d w1 w'. remote_Get (cr_net X) dt sref options w = (Inr d, w1) \<and> d_MediaType (rd_Descriptor (fst d)) = mt \<and>
     crane_copyImage X d dref options w1 = Some (Inr (), w') \<and> 
     image_pushed nsd (Identifier dref) mt rm (cs @ [rc]) (registry_of host w) (registry_of host w') \<and>
     (\<forall>h. h \<noteq> host \<longrightarrow> registry_of h w' = registry_of h w)"
proof -
  let ?hs = "RegistryStr (repo_Registry (Context sref))" and ?mf = "\<lparr>rm_contentType = mt, rm_blob = rm\<rparr>" and ?N = "ne_codec (cr_net X)"
  have look: "lookup_manifest (rg_manifests (registry_of ?hs w)) nss (Identifier sref) = Some ?mf"
    and dig: "\<And>d. sref = RefDigest d \<Longrightarrow> DigestStr d = sha_string (rm_blob ?mf)"
    and blobs: "\<And>c. c \<in> insert rc (set cs) \<Longrightarrow> bs_contents (rg_blobs (registry_of ?hs w)) (sha_string c) = Some c"
    using served by (auto simp: serves_image_def Let_def)
  from get_net [OF src names look dig, of "cr_net X"] obtain o' ses w1 where
    g: "remote_Get (cr_net X) dt sref options w = (Inr (served_descriptor sref (ro_platform o') ?mf, o', ses), w1)"
      "ro_transport o' = registry_network enc E" "session_ok (others_as ?hs w) (ses, w1)" "registry_of ?hs w1 = registry_of ?hs w"
    by blast
  let ?sd = "served_descriptor sref (ro_platform o') ?mf"
  let ?ri = "descriptor_image ?sd" and ?rt = "session_transport (cr_net X) o'"
  have mtd: "d_MediaType (rd_Descriptor ?sd) = mt" by (simp add: served_descriptor_def plain_descriptor_def)
  have "\<not> is_schema1 mt" "\<not> IsIndex mt"
    using mt by (auto simp: is_schema1_def IsImage_def IsIndex_def media_type_defs)
  then have D: "client_image X (?sd, o', ses) w1 = Some (Inr ?ri, ses, w1)"
    by (simp add: client_image_def, subst Descriptor_Image.simps) (simp add: Let_def mtd)
  have ri: "ri_Ref ?ri = sref" "ri_manifest ?ri = Some rm" "ri_config ?ri = None" "ri_mediaType ?ri = mt"
    by (simp_all add: descriptor_image_def served_descriptor_def plain_descriptor_def)
  have T: "registry_transport ?rt enc E (session_view (registry_of ?hs)) (session_ok (others_as ?hs w)) ?hs"
    by (rule net.session [OF g(2)])
  from good obtain i cf m ls where p: "coherent_parts E i rc cf rm m ls" "all_distributable m" "described_once m"
    "list_all2 (\<lambda>l c. l_Compressed l = Inr c) ls cs" by (auto simp: good_image_def)
  have at: "repo_at (Context (ri_Ref ?ri)) ?hs nss" using src by (simp add: ri(1) reaches_def)
  have sv: "bs_contents (rg_blobs (session_view (registry_of ?hs) (ses, w1))) (sha_string c) = Some c" if "c \<in> insert rc (set cs)" for c
    using blobs [OF that] g(4) by (simp add: session_view_def)
  let ?img = "CompressedToImage E (remote_core ?N E ?rt ?ri (ses, w1))"
  have pulled: "pulled_as E ?img rm rc cs"
    by (rule registry_transport.pulled_image_as [OF T at g(3) ri(2,3) p(1,3,4) good(2) sv])
  have dm: "decode_manifest E rm = Inr m" using p(1) by (simp add: coherent_parts_def)
  have imt: "i_MediaType ?img = Inr mt"
    using mt by (auto simp: CompressedToImage_def remote_core_def remoteImage_MediaType_def ri IsImage_def media_type_defs)
  from pulled_pushable [OF pulled dm p(2) imt mt, of sref] obtain pls where
    pl: "pushable_image (mountableImage sref ?img) pls rc mt rm" "pushed_blobs pls rc = cs @ [rc]" by blast
  have same: "registry_of h w1 = registry_of h w" "nw_regs w1 h \<noteq> None \<longleftrightarrow> nw_regs w h \<noteq> None" for h
    using g(3,4) src by (cases "h = ?hs"; auto simp: session_ok_def others_as_def registry_of_def reaches_def)+
  have dst1: "reaches enc E dt (Context dref) nsd options w1" using dst same by (simp add: reaches_def)
  from write_reaches [OF dst1 named X(3) pl(1), of "cr_net X", unfolded pl(2)] obtain w' where
    "remote_Write (cr_net X) (cr_sched X) dt dref (mountableImage sref ?img) options w1 = (Inr (), w')" "others_as host w1 w'"
    "image_pushed nsd (Identifier dref) mt rm (cs @ [rc]) (registry_of host w1) (registry_of host w')"
    unfolding host_def by blast
  moreover from this(2) have "\<forall>h. h \<noteq> host \<longrightarrow> registry_of h w' = registry_of h w" using same(1) by (auto simp: others_as_def registry_of_def)
  ultimately show ?thesis using g(1) D X same(1)
    by (auto simp: crane_copyImage_def pulled_image_def client_transport_def ri(1) mtd)
qed

lemma Copy_image:
  fixes X :: "network crane_env" and opts
  defines "o' \<equiv> crane_makeOptions X opts"
  assumes refs: "ParseReference src (co_name o') = Inr sref" "ParseReference dst (co_name o') = Inr dref"
    and src: "reaches enc E dt (Context sref) nss (co_remote o') w" and names: "names_ok nss (Identifier sref)"
    and dst: "reaches enc E dt (Context dref) nsd (co_remote o') w" and named: "names_ok nsd (Identifier dref)"
    and X: "cr_codec X = E" "cr_transport X = dt" "fair_order (sc_layers (cr_sched X))"
    and served: "serves_image E w sref nss mt rm rc cs" and good: "good_image E rm rc cs" and mt: "IsImage mt"
    and coll: "no_collision (cs @ [rc]) (registry_of (RegistryStr (repo_Registry (Context dref))) w)"
  defines "host \<equiv> RegistryStr (repo_Registry (Context dref))"
  shows "\<exists>w'. crane_Copy X src dst opts w = Some (Inr (), w') \<and>
     image_pushed nsd (Identifier dref) mt rm (cs @ [rc]) (registry_of host w) (registry_of host w') \<and>
     (\<forall>h. h \<noteq> host \<longrightarrow> registry_of h w' = registry_of h w) \<and>
     ((\<forall>d. dref = RefDigest d \<longrightarrow> DigestStr d = sha_string rm) \<longrightarrow> serves_image E w' dref nsd mt rm rc cs)"
proof -
  have "inj_on sha (set cs)" using coll by (auto simp: no_collision_def inj_on_def)
  from copyImage_net [OF src names dst named X served good this mt] obtain d w1 w' where
    c: "remote_Get (cr_net X) dt sref (co_remote o') w = (Inr d, w1)" "d_MediaType (rd_Descriptor (fst d)) = mt"
      "crane_copyImage X d dref (co_remote o') w1 = Some (Inr (), w')"
      "image_pushed nsd (Identifier dref) mt rm (cs @ [rc]) (registry_of host w) (registry_of host w')"
      "\<forall>h. h \<noteq> host \<longrightarrow> registry_of h w' = registry_of h w"
    unfolding host_def by blast
  have "\<not> is_schema1 mt" "\<not> IsIndex mt"
    using mt by (auto simp: is_schema1_def IsImage_def IsIndex_def media_type_defs)
  then have "crane_Copy X src dst opts w = Some (Inr (), w')"
    using refs c(1-3) X(2) by (simp add: crane_Copy_def Let_def flip: o'_def) (simp add: wrap_run_def wrap_def)
  moreover have "bs_contents (rg_blobs (registry_of host w')) (sha_string b) = Some b" if "b \<in> insert rc (set cs)" for b
    using that by (intro pushed_served [OF c(4) coll [folded host_def]]) auto
  ultimately show ?thesis using c(4,5) by (auto simp: serves_image_def Let_def image_pushed_def simp flip: host_def)
qed

text \<open>
  C2. Copy copies an image.  Let an image, all of whose layers may be distributed, be served by a registry with all of its blobs.  Then
  Copy succeeds, whatever the options that leave the network as it is, the tags or digests that it is called with,
  and the order of the uploads: the destination serves the same manifest with the same media type, hence the same
  digest, and the same blobs; nothing else changes in the destination, and nothing at all in other registries.
\<close>

theorem Copy_copies:
  fixes X :: "network crane_env" and opts
  defines "o' \<equiv> crane_makeOptions X opts"
  assumes "ParseReference src (co_name o') = Inr sref" "ParseReference dst (co_name o') = Inr dref"
    and "reaches enc E dt (Context sref) nss (co_remote o') w" and "names_ok nss (Identifier sref)"
    and "reaches enc E dt (Context dref) nsd (co_remote o') w" and "names_ok nsd (Identifier dref)"
    and "cr_codec X = E" "cr_transport X = dt" "fair_order (sc_layers (cr_sched X))"
    and "serves_image E w sref nss mt rm rc cs" and "good_image E rm rc cs" and "IsImage mt"
    and "no_collision (cs @ [rc]) (registry_of (RegistryStr (repo_Registry (Context dref))) w)"
  defines "host \<equiv> RegistryStr (repo_Registry (Context dref))"
  shows "\<exists>w'. crane_Copy X src dst opts w = Some (Inr (), w') \<and>
     image_pushed nsd (Identifier dref) mt rm (cs @ [rc]) (registry_of host w) (registry_of host w') \<and>
     (\<forall>h. h \<noteq> host \<longrightarrow> registry_of h w' = registry_of h w) \<and>
     ((\<forall>d. dref = RefDigest d \<longrightarrow> DigestStr d = sha_string rm) \<longrightarrow> serves_image E w' dref nsd mt rm rc cs)"
  unfolding host_def by (rule Copy_image [OF assms(2-14) [unfolded o'_def]])

definition demo_crane :: "network crane_env" where
  "demo_crane =
     \<lparr>cr_net = demo_env, cr_codec = demo_codec,
      cr_lists = \<lparr>decode_tags = (\<lambda>_. Inl ErrUnexpectedEOF), decode_repos = (\<lambda>_. Inl ErrUnexpectedEOF)\<rparr>,
      cr_sched = \<lparr>sc_layers = rev, sc_scopes = id\<rparr>, cr_transport = demo_net demo_codec,
      cr_keychain = (\<lambda>_. Inr Anonymous), cr_schema1 = (\<lambda>_. Inl ErrUnexpectedEOF)\<rparr>"

definition copy_world :: network where
  "copy_world =
     \<lparr>nw_regs = [''r.io'' \<mapsto>
        \<lparr>rg_blobs = \<lparr>bs_contents = [sha_string ''0'' \<mapsto> ''0''], bs_uploads = Map.empty\<rparr>,
         rg_manifests = [''app'' \<mapsto> [''v1'' \<mapsto> \<lparr>rm_contentType = DockerManifestSchema2, rm_blob = ''0''\<rparr>]]\<rparr>],
      nw_draws = (\<lambda>i. i)\<rparr>"

definition demo_ref2 :: reference where
  "demo_ref2 = RefTag \<lparr>tag_Repository = demo_repo, tag_tag = ''v2'', tag_original = ''r.io/app:v2''\<rparr>"

lemma demo_ref2_str: "Context demo_ref2 = demo_repo" "Identifier demo_ref2 = ''v2''"
  by (simp_all add: demo_ref2_def Context_def Tag_Context_def Identifier_def Tag_Identifier_def TagStr_def)

lemma parse_demo: "ParseReference ''r.io/app:v1'' [] = Inr demo_ref" "ParseReference ''r.io/app:v2'' [] = Inr demo_ref2"
  by code_simp+

lemma demo_good: "good_image demo_codec ''0'' ''0'' []"
proof -
  let ?i = "empty_Image demo_codec" and ?m = "empty_manifest ''0''"
  have f: "i_Manifest ?i = Inr ?m" "i_Layers ?i = Inr []" "i_RawConfigFile ?i = Inr ''0''" "i_MediaType ?i = Inr DockerManifestSchema2"
    "i_RawManifest ?i = Inr ''0''"
    using empty_Image_fields [of demo_codec] demo_marshal demo_decode
    by (simp_all add: empty_Image_def UncompressedToImage_def emptyImage_def partial_RawConfigFile_def emptyImage_ConfigFile_def
        empty_config_def Let_def partial_RawManifest_def)
  from demo_base obtain cf where parts: "coherent_parts demo_codec ?i ''0'' cf ''0'' ?m []"
    by (auto simp: coherent_def coherent_parts_def f)
  have m: "all_distributable ?m" "described_once ?m" by (simp_all add: all_distributable_def described_once_def descriptors_agree_def empty_manifest_def)
  show ?thesis unfolding good_image_def using parts m by blast
qed

theorem Copy_copies_witness:
  "\<exists>w'. crane_Copy demo_crane ''r.io/app:v1'' ''r.io/app:v2'' [] copy_world = Some (Inr (), w') \<and>
     serves_image demo_codec w' demo_ref2 [''app''] DockerManifestSchema2 ''0'' ''0'' []"
proof -
  let ?o = "crane_makeOptions demo_crane []"
  have o: "co_name ?o = []" "co_remote ?o = [WithAuthFromKeychain (\<lambda>_. Inr Anonymous)]"
    by (simp_all add: crane_makeOptions_def demo_crane_def)
  have r: "reaches (\<lambda>_. ''err'') demo_codec (demo_net demo_codec) demo_repo [''app''] (co_remote ?o) copy_world"
    by (simp add: o reaches_def repo_at_def demo_repo_str plain_repo_def plain_elem_def unreserved_def is_alpha_def is_digit_def byte_def
      copy_world_def registry_of_def remote_makeOptions_def base_remote_options_def WithAuthFromKeychain_def demo_net_def)
  have names: "names_ok [''app''] ''v2''" by (simp add: names_ok_def)
  have X: "cr_codec demo_crane = demo_codec" "cr_transport demo_crane = demo_net demo_codec" "fair_order (sc_layers (cr_sched demo_crane))"
    by (simp_all add: demo_crane_def fair_order_def)
  have s: "serves_image demo_codec copy_world demo_ref [''app''] DockerManifestSchema2 ''0'' ''0'' []"
    by (simp add: serves_image_def demo_ref_str demo_repo_str registry_of_def copy_world_def lookup_manifest_def) (simp add: demo_ref_def)
  have mt: "IsImage DockerManifestSchema2" by (simp add: IsImage_def)
  have nc: "no_collision ([] @ [''0'']) (registry_of (RegistryStr (repo_Registry (Context demo_ref2))) copy_world)"
    by (simp add: no_collision_def demo_ref2_str demo_repo_str registry_of_def copy_world_def)
  from Copy_copies [OF parse_demo(1) [folded o(1)] parse_demo(2) [folded o(1)] r [folded demo_ref_str(1)] demo_names [folded demo_ref_str(2)]
      r [folded demo_ref2_str(1)] names [folded demo_ref2_str(2)] X s demo_good mt nc]
  show ?thesis by (auto simp: demo_ref2_def)
qed

end
