(* ===== verification/Crane_Files.thy ===== *)
theory Crane_Files
  imports Crane Tarball_Layer Mutate
begin

text \<open>
  pkg/crane, the operations on files: layers and images from file maps, exporting, appending, saving.
\<close>

section \<open>filemap.go\<close>

text \<open>
  A file map is its list of entries, with different keys, in the order in which Go iterates over it.  A header without
  a type is that of a directory if its name ends with a slash; such an entry has no content.
\<close>

type_synonym filemap = "(string \<times> bytes) list"

definition file_header :: "string \<Rightarrow> bytes \<Rightarrow> tar_header" where
  "file_header f c =
     (if suffix ''/'' f
      then \<lparr>th_Name = f, th_Typeflag = TypeDir, th_Size = 0, th_Mode = 0, th_ModTime = 0, th_Linkname = ''''\<rparr>
      else \<lparr>th_Name = f, th_Typeflag = TypeReg, th_Size = int (length c), th_Mode = 0, th_ModTime = 0, th_Linkname = ''''\<rparr>)"

definition file_content :: "filemap \<Rightarrow> string \<Rightarrow> bytes" where
  "file_content filemap f = (case map_of filemap f of Some c \<Rightarrow> c | None \<Rightarrow> [])"

fun write_files :: "filemap \<Rightarrow> string list \<Rightarrow> tar_writer \<Rightarrow> tar_writer res" where
  "write_files filemap [] w = Inr w"
| "write_files filemap (f # fn) w =
     (let c = file_content filemap f in
      bnd (tar_WriteHeader w (file_header f c)) (\<lambda>w1. bnd (tar_Copy w1 c) (\<lambda>w2. write_files filemap fn w2)))"

definition crane_Layer :: "codec \<Rightarrow> filemap \<Rightarrow> layer res" where
  "crane_Layer E filemap =
     bnd (write_files filemap (sort (map fst filemap)) tar_NewWriter) (\<lambda>w.
     bnd (tar_Close E w) (\<lambda>b.
     bnd (LayerFromReader E (Inr b) []) (\<lambda>l. Inr (tarball_layer_iface l))))"

definition crane_Image :: "codec \<Rightarrow> filemap \<Rightarrow> image res" where
  "crane_Image E filemap = bnd (crane_Layer E filemap) (\<lambda>y. AppendLayers E (empty_Image E) [y])"

section \<open>export.go\<close>

text \<open>Export writes the tar stream of what mutate.Extract gives.\<close>

definition crane_Export :: "codec \<Rightarrow> image \<Rightarrow> bytes res" where
  "crane_Export E img = bnd (mutate_Extract E img) (mktar E)"

section \<open>append.go\<close>

text \<open>
  A path names a regular file, with its opener, or something that can be read only once, such as a named pipe.
\<close>

datatype path_kind = RegularFile opener | OneShot "read_result list" "go_error option"

definition stream_iface :: "gzip_writer \<Rightarrow> stream_layer \<Rightarrow> layer" where
  "stream_iface gz sl =
     \<lparr>l_Digest = stream_Digest sl, l_DiffID = stream_DiffID sl,
      l_Compressed =
        (if sl_consumed sl then Inl ErrConsumed
         else case snd (ReadAll (sl_blob sl)) of
                Some e \<Rightarrow> Inl e
              | None \<Rightarrow> Inr (gz (sl_compression sl) (stream_chunks (sl_blob sl)) True)),
      l_Uncompressed = stream_Uncompressed sl, l_Size = stream_Size sl, l_MediaType = stream_MediaType sl,
      l_Descriptor = None, l_UncompressedSize = None\<rparr>"

definition crane_getLayer :: "codec \<Rightarrow> gzip_writer \<Rightarrow> (string \<Rightarrow> path_kind res) \<Rightarrow> string \<Rightarrow> layer res" where
  "crane_getLayer E gz files path =
     bnd (files path) (\<lambda>fi.
       case fi of
         OneShot rc cl \<Rightarrow> Inr (stream_iface gz (stream_NewLayer rc cl []))
       | RegularFile op \<Rightarrow> bnd (LayerFromFile E (\<lambda>_. op) path []) (\<lambda>l. Inr (tarball_layer_iface l)))"

definition crane_Append :: "codec \<Rightarrow> gzip_writer \<Rightarrow> (string \<Rightarrow> path_kind res) \<Rightarrow> image \<Rightarrow> string list \<Rightarrow> image res" where
  "crane_Append E gz files base paths =
     bnd (map_res (\<lambda>path. wrap (''reading layer '' @ quoted path) (crane_getLayer E gz files path)) paths) (\<lambda>layers.
     AppendLayers E base layers)"

section \<open>pull.go\<close>

definition iWasADigestTag :: string where
  "iWasADigestTag = ''i-was-a-digest''"

definition crane_Pull :: "'s crane_env \<Rightarrow> string \<Rightarrow> 's crane_option list \<Rightarrow> 's \<Rightarrow> ((remote_image \<times> 's client) res \<times> 's) option" where
  "crane_Pull X src opts s =
     (let o' = crane_makeOptions X opts in
      case ParseReference src (co_name o') of
        Inl _ \<Rightarrow> Some (Inl (bad_reference ''tag'' src), s)
      | Inr ref \<Rightarrow> remote_Image (cr_net X) (cr_codec X) (cr_transport X) ref (co_remote o') s)"

definition save_tag :: "reference \<Rightarrow> tag" where
  "save_tag ref = (case ref of RefTag t \<Rightarrow> t | RefDigest d \<Rightarrow> Repository_Tag (dig_Repository d) iWasADigestTag)"

definition crane_Save ::
    "codec \<Rightarrow> tarball_json \<Rightarrow> map_order \<Rightarrow> map_order \<Rightarrow> map_order \<Rightarrow> image \<Rightarrow> string \<Rightarrow> string \<Rightarrow> file_system \<Rightarrow> go_error option \<times> file_system" where
  "crane_Save E J ord1 ord2 ord3 img src path fs =
     (case ParseReference src [] of
        Inl _ \<Rightarrow> (Some (bad_reference ''ref'' src), fs)
      | Inr ref \<Rightarrow> WriteToFile E J ord1 ord2 ord3 path (RefTag (save_tag ref)) img fs)"

definition crane_PullLayer :: "'s crane_env \<Rightarrow> string \<Rightarrow> 's crane_option list \<Rightarrow> 's \<Rightarrow> (v1_hash \<times> 's client) res \<times> 's" where
  "crane_PullLayer X ref opts s =
     (let o' = crane_makeOptions X opts in
      case NewDigest ref (co_name o') of
        Inl e \<Rightarrow> (Inl e, s)
      | Inr d \<Rightarrow> remote_Layer (cr_net X) (cr_transport X) d (co_remote o') s)"

definition crane_SaveOCI ::
    "codec \<Rightarrow> (index_manifest \<Rightarrow> bytes) \<Rightarrow> (layer list \<Rightarrow> layer list) \<Rightarrow> image \<Rightarrow> string \<Rightarrow> file_system \<Rightarrow> go_error option \<times> file_system" where
  "crane_SaveOCI E indent sched img path fs =
     (case FromPath fs path of
        Inr p \<Rightarrow> AppendImage E indent sched p img [] fs
      | Inl _ \<Rightarrow>
          (case layout_Write sched path (empty_Index E) fs of
             ((p, Some e), fs1) \<Rightarrow> (Some e, fs1)
           | ((p, None), fs1) \<Rightarrow> AppendImage E indent sched p img [] fs1))"

section \<open>Layers from file maps\<close>

definition file_entries :: "filemap \<Rightarrow> tar_entry list" where
  "file_entries filemap = map (\<lambda>f. (file_header f (file_content filemap f), file_content filemap f)) (sort (map fst filemap))"

lemma write_files_entries:
  assumes "tw_missing w = 0"
  shows "write_files fm fn w =
    (if list_all (\<lambda>f. suffix ''/'' f \<longrightarrow> file_content fm f = []) fn
     then Inr \<lparr>tw_entries = tw_entries w @ map (\<lambda>f. (file_header f (file_content fm f), file_content fm f)) fn, tw_missing = 0\<rparr>
     else Inl (ErrMsg ''archive/tar: write too long''))"
  using assms
proof (induction fn arbitrary: w)
  case (Cons f fn)
  show ?case
  proof (cases "suffix ''/'' f \<and> file_content fm f \<noteq> []")
    case True
    then show ?thesis
      using Cons.prems by (simp add: Let_def tar_WriteHeader_def file_header_def tar_Copy_def)
  next
    case False
    let ?h = "file_header f (file_content fm f)" and ?c = "file_content fm f"
    have "tar_WriteHeader w ?h = Inr \<lparr>tw_entries = tw_entries w @ [(?h, [])], tw_missing = length ?c\<rparr>"
      using False Cons.prems by (auto simp: tar_WriteHeader_def file_header_def)
    moreover have "tar_Copy \<lparr>tw_entries = tw_entries w @ [(?h, [])], tw_missing = length ?c\<rparr> ?c =
        Inr \<lparr>tw_entries = tw_entries w @ [(?h, ?c)], tw_missing = 0\<rparr>"
      by (simp add: tar_Copy_def)
    ultimately show ?thesis using Cons.IH [of "\<lparr>tw_entries = tw_entries w @ [(?h, ?c)], tw_missing = 0\<rparr>"] False by (auto simp: Let_def)
  qed
qed (cases w; simp)

lemma extract_all:
  assumes "flattened es" and "list_all (\<lambda>(h, c). th_Size h = int (length c)) es" and "list_all (\<lambda>e. \<not> hidden fm (name_of e)) es"
  shows "snd (extract_entries fm es) = es"
  using assms
proof (induction es arbitrary: fm)
  case (Cons e es)
  obtain h c where e: "e = (h, c)" by fastforce
  have t: "\<not> is_tombstone h" "\<not> hidden fm (name_of e)" "(if 0 < th_Size h then c else []) = c"
    using Cons.prems by (auto simp: e flattened_def)
  let ?fm = "fm(name_of e \<mapsto> hides h)"
  have "list_all (\<lambda>e. \<not> hidden ?fm (name_of e)) es"
    using Cons.prems unfolding list_all_iff flattened_def hidden_def e
    by (auto split: if_splits) (metis image_eqI)+
  moreover have "flattened es" using Cons.prems(1) by (simp add: flattened_def)
  moreover have "list_all (\<lambda>(h, c). th_Size h = int (length c)) es" using Cons.prems(2) by simp
  ultimately have "snd (extract_entries ?fm es) = es" by (intro Cons.IH)
  then show ?case using t by (auto simp: e extract_entry_eq name_of_def split: prod.splits)
qed simp

lemma crane_Layer_ok:
  assumes "list_all (\<lambda>f. suffix ''/'' f \<longrightarrow> file_content fm f = []) (map fst fm)" and "mktar E (file_entries fm) = Inr b"
    and "gzip_law E b" and "take 2 b \<noteq> gzipMagicHeader"
  shows "\<exists>l. crane_Layer E fm = Inr l \<and> wf_layer E l \<and> l_Uncompressed l = Inr b \<and> l_MediaType l = Inr DockerLayer"
proof -
  have w: "write_files fm (sort (map fst fm)) tar_NewWriter = Inr \<lparr>tw_entries = file_entries fm, tw_missing = 0\<rparr>"
    using assms(1) by (simp add: write_files_entries tar_NewWriter_def file_entries_def list_all_iff)
  have "is_ok (LayerFromReader E (Inr b) [])"
    using assms(4) by (simp add: LayerFromReader_def LayerFromOpener_def bytes_opener_def IsGzipped_def gzipMagicHeader_def open_content_def
        Let_def computeDigest_def computeDiffID_def tl_Compressed_def GzipReadCloserLevel_def SHA256_def gzip_BestSpeed_def)
  then obtain l where l: "LayerFromReader E (Inr b) [] = Inr l" by (auto simp: is_ok_iff)
  have "wf_layer E (tarball_layer_iface l)" using LayerFromReader_wf [OF l _ assms(3)] by simp
  moreover have "l_Uncompressed (tarball_layer_iface l) = Inr b" using tl_content [OF _ l] assms(4) by simp
  ultimately show ?thesis using w assms(2) l by (simp add: crane_Layer_def tar_Close_def) (simp add: tarball_layer_iface_def)
qed

lemma file_entries_cong:
  assumes "map_of fm = map_of fm'" and "distinct (map fst fm)" and "distinct (map fst fm')"
  shows "sort (map fst fm) = sort (map fst fm')" "file_content fm = file_content fm'" "file_entries fm = file_entries fm'"
proof -
  have "set (map fst fm) = set (map fst fm')" using assms(1) by (metis dom_map_of_conv_image_fst set_map)
  with assms(2,3) have "mset (map fst fm) = mset (map fst fm')" by (metis set_eq_iff_mset_eq_distinct)
  then show s: "sort (map fst fm) = sort (map fst fm')" by (metis sorted_list_of_multiset_mset)
  show c: "file_content fm = file_content fm'" using assms(1) by (intro ext) (simp add: file_content_def)
  show "file_entries fm = file_entries fm'" by (simp add: file_entries_def s c)
qed

lemma write_files_cong: "file_content fm = file_content fm' \<Longrightarrow> write_files fm fn w = write_files fm' fn w"
proof (induction fn arbitrary: w)
  case (Cons f fn)
  then have "write_files fm fn = write_files fm' fn" by (intro ext) simp
  with Cons.prems show ?case by (simp add: Let_def)
qed simp

lemma append_layer_Layers:
  assumes "decode_config E (marshal_config E empty_config) = Inr empty_config" and "wf_layer E l" and "l_Descriptor l = None"
    and "l_MediaType l = Inr mt"
  shows "\<exists>img. AppendLayers E (empty_Image E) [l] = Inr img \<and> i_Layers img = Inr [l]"
proof -
  obtain c u where l: "l_DiffID l = Inr (sha u)" "l_Digest l = Inr (sha c)" "l_Size l = Inr (int (length c))"
    using assms(2) by (auto elim: wf_layerE)
  let ?i = "new_mimage (empty_Image E) [layer_addendum l]"
  obtain d where d: "layer_Descriptor l = Inr d" using l assms(3,4) by (simp add: layer_Descriptor_def partial_Descriptor_def)
  obtain j cf where j: "compute E ?i = Inr j" "mi_computed j" "mi_diffIDMap j = [sha u \<mapsto> l]"
      "mi_configFile j = Some cf" "rf_DiffIDs (cf_RootFS cf) = [sha u]"
    using empty_Image_fields [OF assms(1)] l(1) d
    by (simp add: compute_def new_mimage_def layer_addendum_def Let_def SHA256_def empty_config_def)
  then have "i_Layers (as_image E ?i) = Inr [l]"
    by (simp add: as_image_def Let_def mi_Layers_def deref_def partial_DiffIDs_def mi_LayerByDiffID_def)
  then show ?thesis by (simp add: AppendLayers_def Append_def layer_addendum_def)
qed

definition plain_files :: "filemap \<Rightarrow> bool" where
  "plain_files fm \<longleftrightarrow> distinct (map fst fm) \<and> list_all (\<lambda>f. \<not> suffix ''/'' f) (map fst fm) \<and> flattened (file_entries fm)"

lemma Image_Export:
  assumes "plain_files fm" and "mktar E (file_entries fm) = Inr b" and "untar E b = (file_entries fm, None)"
    and "gzip_law E b" and "take 2 b \<noteq> gzipMagicHeader" and "decode_config E (marshal_config E empty_config) = Inr empty_config"
  shows "\<exists>img. crane_Image E fm = Inr img \<and> crane_Export E img = Inr b"
proof -
  have nd: "list_all (\<lambda>f. suffix ''/'' f \<longrightarrow> file_content fm f = []) (map fst fm)"
    using assms(1) by (auto simp: plain_files_def list_all_iff)
  from crane_Layer_ok [OF nd assms(2,4,5)] obtain l where l: "crane_Layer E fm = Inr l" "wf_layer E l" "l_Uncompressed l = Inr b"
    "l_MediaType l = Inr DockerLayer" by blast
  have "l_Descriptor l = None" using l(1) by (auto simp: crane_Layer_def tarball_layer_iface_def)
  from append_layer_Layers [OF assms(6) l(2) this l(4)] obtain img where img: "AppendLayers E (empty_Image E) [l] = Inr img" "i_Layers img = Inr [l]"
    by blast
  have "snd (extract_entries Map.empty (file_entries fm)) = file_entries fm"
  proof (rule extract_all)
    show "list_all (\<lambda>(h, c). th_Size h = int (length c)) (file_entries fm)"
      using assms(1) by (auto simp: file_entries_def list_all_iff file_header_def plain_files_def)
    show "list_all (\<lambda>e. \<not> hidden Map.empty (name_of e)) (file_entries fm)" by (simp add: hidden_def list_all_iff)
  qed (use assms(1) in \<open>simp add: plain_files_def\<close>)
  then have "flatten E img = (file_entries fm, None)"
    using img(2) l(3) assms(3) by (cases "extract_entries Map.empty (file_entries fm)") (simp add: flatten_def)
  then show ?thesis using l(1) img(1) assms(2) by (simp add: crane_Image_def crane_Export_def mutate_Extract_def)
qed

text \<open>
  C35. A file map makes an image that is exported as the tar stream of its files, in the order of their names, whatever the order in
  which Go goes through the map; as long as no name is a whiteout or below another file, and the tar stream is not
  mistaken for a compressed one.
\<close>

theorem Image_Export_files:
  assumes "plain_files fm" and "mktar E (file_entries fm) = Inr b" and "untar E b = (file_entries fm, None)"
    and "gzip_law E b" and "take 2 b \<noteq> gzipMagicHeader" and "decode_config E (marshal_config E empty_config) = Inr empty_config"
  shows "(\<exists>img. crane_Image E fm = Inr img \<and> crane_Export E img = Inr b) \<and>
     sorted (map (\<lambda>e. th_Name (fst e)) (file_entries fm)) \<and>
     (\<forall>f c. map_of fm f = Some c \<longleftrightarrow> (file_header f c, c) \<in> set (file_entries fm)) \<and>
     (\<forall>fm'. distinct (map fst fm') \<and> map_of fm' = map_of fm \<longrightarrow> crane_Image E fm' = crane_Image E fm)"
proof (intro conjI)
  have d: "distinct (map fst fm)" using assms(1) by (simp add: plain_files_def)
  show "\<exists>img. crane_Image E fm = Inr img \<and> crane_Export E img = Inr b" by (rule Image_Export [OF assms])
  have n: "th_Name (file_header f c) = f" for f c by (simp add: file_header_def)
  show "sorted (map (\<lambda>e. th_Name (fst e)) (file_entries fm))" by (simp add: file_entries_def comp_def n)
  show "\<forall>f c. map_of fm f = Some c \<longleftrightarrow> (file_header f c, c) \<in> set (file_entries fm)"
  proof (intro allI)
    fix f c
    have "(file_header f c, c) \<in> set (file_entries fm) \<longleftrightarrow> f \<in> fst ` set fm \<and> file_content fm f = c"
    proof
      assume "(file_header f c, c) \<in> set (file_entries fm)"
      then obtain g where "g \<in> fst ` set fm" "file_header f c = file_header g (file_content fm g)" "c = file_content fm g"
        by (auto simp: file_entries_def)
      moreover from this(2) have "f = g" by (metis n)
      ultimately show "f \<in> fst ` set fm \<and> file_content fm f = c" by simp
    next
      assume "f \<in> fst ` set fm \<and> file_content fm f = c"
      then show "(file_header f c, c) \<in> set (file_entries fm)" by (auto simp: file_entries_def)
    qed
    moreover have "f \<in> fst ` set fm \<longleftrightarrow> map_of fm f \<noteq> None" by (simp add: map_of_eq_None_iff)
    ultimately show "map_of fm f = Some c \<longleftrightarrow> (file_header f c, c) \<in> set (file_entries fm)"
      by (cases "map_of fm f") (simp_all add: file_content_def)
  qed
  show "\<forall>fm'. distinct (map fst fm') \<and> map_of fm' = map_of fm \<longrightarrow> crane_Image E fm' = crane_Image E fm"
  proof (intro allI impI, elim conjE)
    fix fm' assume "distinct (map fst fm')" "map_of fm' = map_of fm"
    with file_entries_cong [of fm' fm] d write_files_cong [of fm' fm] show "crane_Image E fm' = crane_Image E fm"
      by (simp add: crane_Image_def crane_Layer_def)
  qed
qed

definition two_files :: filemap where
  "two_files = [(''etc/hosts'', ''::1''), (''bin/sh'', ''#!'')]"

definition files_codec :: codec where
  "files_codec = magic_codec\<lparr>decode_config := (\<lambda>_. Inr empty_config), untar := (\<lambda>_. (file_entries two_files, None))\<rparr>"

lemma two_files_plain: "plain_files two_files"
  by code_simp

theorem Image_Export_files_witness:
  "\<exists>img. crane_Image files_codec two_files = Inr img \<and> crane_Export files_codec img = Inr ''t''"
proof -
  have m: "mktar files_codec (file_entries two_files) = Inr ''t''" "untar files_codec ''t'' = (file_entries two_files, None)"
    "decode_config files_codec (marshal_config files_codec empty_config) = Inr empty_config"
    by (simp_all add: files_codec_def magic_codec_def)
  have g: "gzip_law files_codec ''t''" by (simp add: gzip_law_def files_codec_def magic_codec_def gzipMagicHeader_def)
  have z: "take 2 ''t'' \<noteq> gzipMagicHeader" by (simp add: gzipMagicHeader_def)
  from Image_Export_files [OF two_files_plain m(1,2) g z m(3)] show ?thesis by blast
qed

end
