(* ===== verification/Gcrane.thy ===== *)
theory Gcrane
  imports Crane Google_Walk Google_Auth Remote_Multi
begin

text \<open>
  Copying whole repositories, of pkg/gcrane (copy.go, options.go): what has to be copied, the walk over the source
  that queues it as tasks, the workers that do the tasks, and the errors after which an attempt is repeated.  The
  queue is as long as it has to be, so that the walk ends before the workers start.  The theorems: the tasks of a
  repository complete its copy in every order; copying an image is never tried again.
\<close>

section \<open>options.go\<close>

record gcrane_options =
  go_jobs :: int

type_synonym gcrane_option = "gcrane_options \<Rightarrow> gcrane_options"

definition gcrane_makeOptions :: "int \<Rightarrow> gcrane_option list \<Rightarrow> gcrane_options" where
  "gcrane_makeOptions gomaxprocs opts = foldl (\<lambda>o' f. f o') \<lparr>go_jobs = gomaxprocs\<rparr> opts"

definition gcrane_WithJobs :: "int \<Rightarrow> gcrane_option" where
  "gcrane_WithJobs jobs o' = o'\<lparr>go_jobs := jobs\<rparr>"

section \<open>copy.go: errors and retries\<close>

definition GCRBackoff :: backoff where
  "GCRBackoff = \<lparr>bo_Duration = 6 * 1000000000, bo_Factor = 10, bo_Jitter = 1 / 10, bo_Steps = 3, bo_Cap = 3600 * 1000000000\<rparr>"

definition hasStatusCode :: "go_error option \<Rightarrow> int \<Rightarrow> bool" where
  "hasStatusCode err code = (case err of Some (ErrTransport c _ _ _) \<Rightarrow> c = code | _ \<Rightarrow> False)"

definition isServerError :: "go_error option \<Rightarrow> bool" where
  "isServerError err = (case err of Some (ErrTransport c _ _ _) \<Rightarrow> 500 \<le> c | _ \<Rightarrow> False)"

definition StatusTooManyRequests :: int where
  "StatusTooManyRequests = 429"

definition retriable :: "go_error option \<Rightarrow> bool" where
  "retriable err \<longleftrightarrow> IsTemporary err \<or> hasStatusCode err StatusTooManyRequests \<or> isServerError err"

definition backoffErrors :: "(nat \<Rightarrow> rat) \<Rightarrow> backoff \<Rightarrow> ('s \<Rightarrow> go_error option \<times> 's) \<Rightarrow> 's \<Rightarrow> go_error option \<times> 's" where
  "backoffErrors rnd bo f s = Retry rnd f retriable bo s"

section \<open>copy.go: what has to be copied\<close>

definition toStringSet :: "string list \<Rightarrow> string set" where
  "toStringSet strs = set strs"

definition subtractStringLists :: "string list \<Rightarrow> string list \<Rightarrow> string list" where
  "subtractStringLists minuend subtrahend = filter (\<lambda>a. a \<notin> toStringSet subtrahend) minuend"

text \<open>Maps are lists of entries with different keys, in the order in which Go iterates over them.\<close>

type_synonym manifests = "(string \<times> manifest_info) list"

fun diffImages :: "manifests \<Rightarrow> manifests \<Rightarrow> manifests" where
  "diffImages [] have = []"
| "diffImages ((digest, wantManifest) # want) have =
     (case map_of have digest of
        None \<Rightarrow> (digest, wantManifest) # diffImages want have
      | Some haveManifest \<Rightarrow>
          let missingTags = subtractStringLists (gm_Tags wantManifest) (gm_Tags haveManifest) in
          if length missingTags = 0 then diffImages want have
          else (digest, wantManifest\<lparr>gm_Tags := missingTags\<rparr>) # diffImages want have)"

section \<open>copy.go: the copier\<close>

record task =
  ta_digest :: string
  ta_manifest :: manifest_info
  ta_oldRepo :: repository
  ta_newRepo :: repository

record copier =
  cp_srcRepo :: repository
  cp_dstRepo :: repository

text \<open>strings.Replace of the first occurrence\<close>

fun replace_first :: "string \<Rightarrow> string \<Rightarrow> string \<Rightarrow> string" where
  "replace_first old new [] = (if old = [] then new else [])"
| "replace_first old new (c # s) = (if prefix old (c # s) then new @ drop (length old) (c # s) else c # replace_first old new s)"

definition copier_rename :: "copier \<Rightarrow> repository \<Rightarrow> repository res" where
  "copier_rename c repo =
     NewRepository (replace_first (Repository_Name (cp_srcRepo c)) (Repository_Name (cp_dstRepo c)) (Repository_Name repo)) [StrictValidation]"

definition newCopier :: "string \<Rightarrow> string \<Rightarrow> copier res" where
  "newCopier src dst =
     bnd (wrap (''parsing repo '' @ quoted src) (NewRepository src [])) (\<lambda>srcRepo.
     bnd (wrap (''parsing repo '' @ quoted dst) (NewRepository dst [])) (\<lambda>dstRepo.
     Inr \<lparr>cp_srcRepo = srcRepo, cp_dstRepo = dstRepo\<rparr>))"

text \<open>
  What the package takes from its surroundings.  Its keychain is a multi-keychain of Google's and of the default one; go
  iterates over a map in the order gx_order.  The transport of the walk is that of the copies, on a state that also has the
  queue of tasks.
\<close>

record 's gcrane_env =
  gx_crane :: "'s crane_env"
  gx_codec :: google_codec
  gx_google :: keychain
  gx_order :: "manifests \<Rightarrow> manifests"

definition gcrane_Keychain :: "'s gcrane_env \<Rightarrow> keychain" where
  "gcrane_Keychain G = multiKeychain_Resolve [gx_google G, cr_keychain (gx_crane G)]"

type_synonym 's queue_state = "task list \<times> 's"

definition with_queue :: "'s round_tripper \<Rightarrow> 's queue_state round_tripper" where
  "with_queue rt req st = (case st of (q, s) \<Rightarrow> (case rt req s of (r, req', s') \<Rightarrow> (r, req', q, s')))"

definition gcrane_list :: "'s gcrane_env \<Rightarrow> repository \<Rightarrow> 's queue_state \<Rightarrow> google_tags res \<times> 's queue_state" where
  "gcrane_list G =
     google_List (gx_codec G) (cr_net (gx_crane G)) (with_queue (cr_transport (gx_crane G))) [google_WithAuthFromKeychain (gcrane_Keychain G)]"

definition err_of :: "'a res \<Rightarrow> go_error option" where
  "err_of r = (case r of Inl e \<Rightarrow> Some e | Inr _ \<Rightarrow> None)"

definition copyRepo :: "'s gcrane_env \<Rightarrow> copier \<Rightarrow> repository \<Rightarrow> google_tags option \<Rightarrow> 's queue_state \<Rightarrow> go_error option \<times> 's queue_state" where
  "copyRepo G c oldRepo tags st =
     (case copier_rename c oldRepo of
        Inl _ \<Rightarrow> (Some (ErrMsg ''rename failed''), st)
      | Inr newRepo \<Rightarrow>
          (case tags of
             None \<Rightarrow> (Some (Panic ''nil pointer dereference''), st)
           | Some t \<Rightarrow>
               (case gcrane_list G newRepo st of
                  (r, q, s) \<Rightarrow>
                    if \<not> is_ok r \<and> \<not> hasStatusCode (err_of r) StatusNotFound then (err_of r, q, s)
                    else
                      let have = (case r of Inr haveTags \<Rightarrow> gt_Manifests haveTags | Inl _ \<Rightarrow> []);
                          need = diffImages (gt_Manifests t) have
                      in (None, q @ map (\<lambda>(digest, m). \<lparr>ta_digest = digest, ta_manifest = m, ta_oldRepo = oldRepo, ta_newRepo = newRepo\<rparr>)
                                      (gx_order G need), s))))"

definition wrap_err :: "string \<Rightarrow> go_error option \<times> 's \<Rightarrow> go_error option \<times> 's" where
  "wrap_err msg r = (case r of (Some (Panic p), s) \<Rightarrow> (Some (Panic p), s) | (Some _, s) \<Rightarrow> (Some (ErrMsg msg), s) | (None, s) \<Rightarrow> (None, s))"

text \<open>The function that is called for every repository; it lists a repository again that could not be listed.\<close>

definition relist :: "'s gcrane_env \<Rightarrow> repository \<Rightarrow> 's queue_state \<Rightarrow> google_tags res \<times> 's queue_state" where
  "relist G repo st =
     (case backoffErrors (ne_rnd (cr_net (gx_crane G))) GCRBackoff
             (\<lambda>(_, st). case gcrane_list G repo st of (r, st1) \<Rightarrow> (err_of r, r, st1)) (Inl nil_deref, st) of
        (_, r, st1) \<Rightarrow> (r, st1))"

definition copy_walkFn :: "'s gcrane_env \<Rightarrow> copier \<Rightarrow> 's queue_state walk_fn" where
  "copy_walkFn G c repo tags err st =
     (let copy = (\<lambda>tags st. wrap_err (''failed to copy repo '' @ quoted (Repository_Name repo))
                    (backoffErrors (ne_rnd (cr_net (gx_crane G))) GCRBackoff (copyRepo G c repo tags) st)) in
      case err of
        None \<Rightarrow> copy tags st
      | Some _ \<Rightarrow>
          (case relist G repo st of
             (Inl _, st1) \<Rightarrow> (Some (ErrMsg (''failed List for repo '' @ Repository_Name repo)), st1)
           | (Inr tags', st1) \<Rightarrow> copy (Some tags') st1))"

section \<open>copy.go: copying\<close>

definition gcrane_Copy :: "'s gcrane_env \<Rightarrow> string \<Rightarrow> string \<Rightarrow> 's \<Rightarrow> (unit res \<times> 's) option" where
  "gcrane_Copy G src dst = crane_Copy (gx_crane G) src dst [crane_WithAuthFromKeychain (gcrane_Keychain G)]"

fun tag_all :: "'s gcrane_env \<Rightarrow> repository \<Rightarrow> remote_descriptor \<Rightarrow> string list \<Rightarrow> 's \<Rightarrow> go_error option \<times> 's" where
  "tag_all G newRepo desc [] s = (None, s)"
| "tag_all G newRepo desc (tg # tgs) s =
     (case remote_Tag (cr_net (gx_crane G)) (cr_transport (gx_crane G)) (Repository_Tag newRepo tg) (descriptor_taggable desc)
             [WithAuthFromKeychain (gcrane_Keychain G)] s of
        (Inl e, s1) \<Rightarrow> (Some e, s1)
      | (Inr _, s1) \<Rightarrow> tag_all G newRepo desc tgs s1)"

definition copyImages :: "'s gcrane_env \<Rightarrow> task \<Rightarrow> 's \<Rightarrow> (go_error option \<times> 's) option" where
  "copyImages G t s =
     (case gm_Tags (ta_manifest t) of
        [] \<Rightarrow> map_option (\<lambda>(r, s1). (err_of r, s1))
                (gcrane_Copy G (Repository_Name (ta_oldRepo t) @ ''@'' @ ta_digest t) (Repository_Name (ta_newRepo t) @ ''@'' @ ta_digest t) s)
      | tg # tgs \<Rightarrow>
          let srcImg = Repository_Name (ta_oldRepo t) @ '':'' @ tg; dstImg = Repository_Name (ta_newRepo t) @ '':'' @ tg in
          (case gcrane_Copy G srcImg dstImg s of
             None \<Rightarrow> None
           | Some (Inl e, s1) \<Rightarrow> Some (Some e, s1)
           | Some (Inr _, s1) \<Rightarrow>
               if tgs = [] then Some (None, s1)
               else
                 (case ParseReference srcImg [] of
                    Inl e \<Rightarrow> Some (Some e, s1)
                  | Inr srcRef \<Rightarrow>
                      (case remote_Get (cr_net (gx_crane G)) (cr_transport (gx_crane G)) srcRef [WithAuthFromKeychain (gcrane_Keychain G)] s1 of
                         (Inl e, s2) \<Rightarrow> Some (Some e, s2)
                       | (Inr (desc, _), s2) \<Rightarrow> Some (tag_all G (ta_newRepo t) desc tgs s2)))))"

text \<open>
  A function that may not return, as one that always does: its state is None once it has not returned.
\<close>

definition running :: "('s \<Rightarrow> (go_error option \<times> 's) option) \<Rightarrow> 's option \<Rightarrow> go_error option \<times> 's option" where
  "running f so =
     (case so of
        None \<Rightarrow> (None, None)
      | Some s \<Rightarrow> (case f s of None \<Rightarrow> (None, None) | Some (e, s') \<Rightarrow> (e, Some s')))"

definition do_task :: "'s gcrane_env \<Rightarrow> task \<Rightarrow> 's option \<Rightarrow> go_error option \<times> 's option" where
  "do_task G t so =
     wrap_err (''failed to copy '' @ quoted (ta_digest t))
       (backoffErrors (ne_rnd (cr_net (gx_crane G))) GCRBackoff (running (copyImages G t)) so)"

text \<open>
  The walk fills the queue, then the workers empty it: the queue is taken to be as long as it has to be.  Without workers
  the first task is never taken and the walk does not return.
\<close>

definition recursiveCopy :: "'s gcrane_env \<Rightarrow> string \<Rightarrow> string \<Rightarrow> int \<Rightarrow> 's \<Rightarrow> (go_error option \<times> 's) option" where
  "recursiveCopy G src dst jobs s =
     (case newCopier src dst of
        Inl e \<Rightarrow> Some (Some e, s)
      | Inr c \<Rightarrow>
          if jobs < 0 then Some (Some (Panic ''makechan: size out of range''), s)
          else
            (case google_Walk (gx_codec G) (cr_net (gx_crane G)) (with_queue (cr_transport (gx_crane G)))
                     [google_WithAuthFromKeychain (gcrane_Keychain G)] (cp_srcRepo c) (copy_walkFn G c) ([], s) of
               (werr, tasks, s1) \<Rightarrow>
                 if jobs = 0 \<and> tasks \<noteq> [] then None
                 else
                   (case run_workers (nat jobs) (do_task G) tasks (Some s1) of
                      (cerr, None) \<Rightarrow> None
                    | (cerr, Some s2) \<Rightarrow>
                        Some (case werr of Some (Panic p) \<Rightarrow> Some (Panic p) | Some _ \<Rightarrow> Some (ErrMsg ''failed to Walk'') | None \<Rightarrow> cerr, s2))))"

definition CopyRepository :: "'s gcrane_env \<Rightarrow> int \<Rightarrow> string \<Rightarrow> string \<Rightarrow> gcrane_option list \<Rightarrow> 's \<Rightarrow> (go_error option \<times> 's) option" where
  "CopyRepository G gomaxprocs src dst opts = recursiveCopy G src dst (go_jobs (gcrane_makeOptions gomaxprocs opts))"

section \<open>Errors that are tried again\<close>

lemma not_retriable [simp]: "\<not> retriable None" "\<not> retriable (Some (ErrMsg m))" "\<not> retriable (Some (Panic p))"
  by (simp_all add: retriable_def hasStatusCode_def isServerError_def IsTemporary_def)

definition plain_error :: "go_error \<Rightarrow> bool" where
  "plain_error e \<longleftrightarrow> (\<exists>m. e = ErrMsg m) \<or> (\<exists>p. e = Panic p)"

lemma plain_not_retriable: "plain_error e \<Longrightarrow> \<not> retriable (Some e)"
  by (auto simp: plain_error_def)

lemma wrap_plain: "wrap m r = Inl e \<Longrightarrow> plain_error e"
  by (cases r) (auto simp: wrap_def plain_error_def split: go_error.splits)

lemma wrap_run_plain: "wrap_run m r = Some (Inl e, s) \<Longrightarrow> plain_error e"
  by (auto simp: wrap_run_def dest: wrap_plain)

lemma err_of_Some [simp]: "err_of r = Some e \<longleftrightarrow> r = Inl e"
  by (cases r) (auto simp: err_of_def)

lemma Copy_error_plain: "crane_Copy X src dst opts s = Some (Inl e, s') \<Longrightarrow> plain_error e"
proof -
  have m: "plain_error (ErrMsg m)" for m by (simp add: plain_error_def)
  show "crane_Copy X src dst opts s = Some (Inl e, s') \<Longrightarrow> plain_error e"
    by (auto simp: crane_Copy_def Let_def bad_reference_def m split: sum.splits prod.splits if_splits dest: wrap_run_plain)
qed

lemma copyImages_plain:
  assumes "length (gm_Tags (ta_manifest t)) \<le> 1" and "copyImages G t s = Some (Some e, s')"
  shows "plain_error e"
  using assms
proof -
  have c: "gcrane_Copy G a b s = Some (Inl e, s') \<Longrightarrow> plain_error e" for a b s e s'
    unfolding gcrane_Copy_def by (rule Copy_error_plain)
  show ?thesis using assms
    by (cases "gm_Tags (ta_manifest t)")
       (auto simp: copyImages_def Let_def split: option.splits sum.splits prod.splits if_splits dest: c)
qed

lemma running_final:
  assumes "length (gm_Tags (ta_manifest t)) \<le> 1"
  shows "backoffErrors rnd GCRBackoff (running (copyImages G t)) so = running (copyImages G t) so"
proof -
  obtain err so' where r: "running (copyImages G t) so = (err, so')" by fastforce
  have p: "copyImages G t s = Some (Some e, s') \<Longrightarrow> \<not> retriable (Some e)" for s e s'
    using copyImages_plain [OF assms, of G s e s'] plain_not_retriable by blast
  have "\<not> retriable err"
    using r p by (cases err) (auto simp: running_def split: option.splits)
  then show ?thesis using r by (simp add: backoffErrors_def Retry_first GCRBackoff_def)
qed

text \<open>
  C40. Copying an image is never tried again.  The errors of Copy are texts, in which the error of the registry can no longer be
  recognised, so that a task whose image has at most one tag is attempted once, whatever the registry answers.
\<close>

theorem copy_not_retried:
  assumes "length (gm_Tags (ta_manifest t)) \<le> 1"
  shows "do_task G t (Some s) =
    (case copyImages G t s of
       None \<Rightarrow> (None, None)
     | Some (None, s') \<Rightarrow> (None, Some s')
     | Some (Some (Panic p), s') \<Rightarrow> (Some (Panic p), Some s')
     | Some (Some _, s') \<Rightarrow> (Some (ErrMsg (''failed to copy '' @ quoted (ta_digest t))), Some s'))"
  by (simp add: do_task_def running_final [OF assms] running_def wrap_err_def split: option.splits prod.splits go_error.splits)

text \<open>Between its three attempts the backoff sleeps for six seconds and for a minute, and not for ten minutes.\<close>

lemma GCRBackoff_sleeps:
  "ExponentialBackoff (\<lambda>_. 0) GCRBackoff (retry_condition (\<lambda>n. (Some ErrDeadlineExceeded, Suc n)) (\<lambda>_. True)) (None, 0) =
     (Some ErrWaitTimeout, [6 * 1000000000, 60 * 1000000000], Some ErrDeadlineExceeded, 3)"
  by code_simp

section \<open>What is copied\<close>

text \<open>A repository as its images and where its tags point, and the listing of one.\<close>

type_synonym contents = "string set \<times> (string \<Rightarrow> string option)"

definition listing_of :: "contents \<Rightarrow> manifests \<Rightarrow> bool" where
  "listing_of D ms \<longleftrightarrow>
     distinct (map fst ms) \<and> fst D = fst ` set ms \<and> ran (snd D) \<subseteq> fst D \<and>
     (\<forall>(d, m)\<in>set ms. set (gm_Tags m) = {t. snd D t = Some d})"

text \<open>What a task does to the destination.\<close>

definition copied :: "string \<times> manifest_info \<Rightarrow> contents \<Rightarrow> contents" where
  "copied dm D = (case dm of (d, m) \<Rightarrow> (insert d (fst D), \<lambda>t. if t \<in> set (gm_Tags m) then Some d else snd D t))"

definition still_needed :: "manifests \<Rightarrow> string \<Rightarrow> manifest_info \<Rightarrow> manifest_info \<Rightarrow> bool" where
  "still_needed hv d w m \<longleftrightarrow>
     (case map_of hv d of
        None \<Rightarrow> m = w
      | Some h \<Rightarrow> m = w\<lparr>gm_Tags := filter (\<lambda>t. t \<notin> set (gm_Tags h)) (gm_Tags w)\<rparr> \<and> gm_Tags m \<noteq> [])"

lemma need_iff: "(d, m) \<in> set (diffImages want hv) \<longleftrightarrow> (\<exists>w. (d, w) \<in> set want \<and> still_needed hv d w m)"
proof (induction want)
  case (Cons x want)
  obtain d0 w0 where x: "x = (d0, w0)" by fastforce
  have "set (diffImages (x # want) hv) = {(d0, m) | m. still_needed hv d0 w0 m} \<union> set (diffImages want hv)"
    by (cases "map_of hv d0") (auto simp: x Let_def subtractStringLists_def toStringSet_def still_needed_def)
  with Cons x show ?case by auto
qed simp

lemma diffImages_keys:
  "fst ` set (diffImages want hv) \<subseteq> fst ` set want"
  "distinct (map fst want) \<Longrightarrow> distinct (map fst (diffImages want hv))"
proof -
  have sub: "fst ` set (diffImages want hv) \<subseteq> fst ` set want" for want
  proof (induction want)
    case (Cons x want)
    obtain d w where "x = (d, w)" by fastforce
    with Cons show ?case by (cases "map_of hv d") (auto simp: Let_def)
  qed simp
  then show "fst ` set (diffImages want hv) \<subseteq> fst ` set want" .
  show "distinct (map fst want) \<Longrightarrow> distinct (map fst (diffImages want hv))"
  proof (induction want)
    case (Cons x want)
    obtain d w where "x = (d, w)" by fastforce
    with Cons sub [of want] show ?case by (cases "map_of hv d") (auto simp: Let_def)
  qed simp
qed

lemma copied_all:
  assumes "distinct (map fst ts)" and "\<forall>(d, m)\<in>set ts. set (gm_Tags m) \<subseteq> {t. T t = Some d}"
  shows "foldr copied ts D = (fst ` set ts \<union> fst D, \<lambda>t. case T t of
           None \<Rightarrow> snd D t
         | Some d \<Rightarrow> if \<exists>m. (d, m) \<in> set ts \<and> t \<in> set (gm_Tags m) then Some d else snd D t)"
  using assms
proof (induction ts)
  case Nil
  show ?case by (cases D) (auto simp: fun_eq_iff split: option.splits)
next
  case (Cons x ts)
  obtain d m where x: "x = (d, m)" by fastforce
  have m: "set (gm_Tags m) \<subseteq> {t. T t = Some d}" using Cons.prems(2) by (auto simp: x)
  have "foldr copied (x # ts) D = copied (d, m) (foldr copied ts D)" by (simp add: x)
  also have "foldr copied ts D = (fst ` set ts \<union> fst D, \<lambda>t. case T t of
           None \<Rightarrow> snd D t
         | Some d \<Rightarrow> if \<exists>m. (d, m) \<in> set ts \<and> t \<in> set (gm_Tags m) then Some d else snd D t)"
    using Cons by auto
  also have "copied (d, m) \<dots> = (fst ` set (x # ts) \<union> fst D, \<lambda>t. case T t of
           None \<Rightarrow> snd D t
         | Some d \<Rightarrow> if \<exists>m. (d, m) \<in> set (x # ts) \<and> t \<in> set (gm_Tags m) then Some d else snd D t)"
  proof -
    have "(if t \<in> set (gm_Tags m) then Some d else case T t of None \<Rightarrow> snd D t
         | Some d' \<Rightarrow> if \<exists>m'. (d', m') \<in> set ts \<and> t \<in> set (gm_Tags m') then Some d' else snd D t) =
        (case T t of None \<Rightarrow> snd D t
         | Some d' \<Rightarrow> if \<exists>m'. (d', m') \<in> set (x # ts) \<and> t \<in> set (gm_Tags m') then Some d' else snd D t)" for t
    proof (cases "t \<in> set (gm_Tags m)")
      case True
      with m have "T t = Some d" by auto
      with True show ?thesis by (auto simp: x)
    next
      case False
      then have "(\<exists>m'. (d', m') \<in> set (x # ts) \<and> t \<in> set (gm_Tags m')) \<longleftrightarrow> (\<exists>m'. (d', m') \<in> set ts \<and> t \<in> set (gm_Tags m'))" for d'
        by (auto simp: x)
      with False show ?thesis by (simp split: option.splits)
    qed
    then show ?thesis by (subst copied_def) (simp only: prod.case fst_conv snd_conv list.set image_insert insert_is_Un [symmetric] Un_insert_left x)
  qed
  finally show ?case .
qed

lemma diffImages_completes:
  assumes "listing_of S want" and "listing_of D hv" and "mset ts = mset (diffImages want hv)"
  shows "fold copied ts D = (fst S \<union> fst D, snd D ++ snd S)"
proof -
  let ?need = "diffImages want hv"
  have dw: "distinct (map fst want)" and dh: "distinct (map fst hv)" using assms(1,2) by (auto simp: listing_of_def)
  have set_ts: "set ts = set ?need" using assms(3) by (metis set_mset_mset)
  have "mset (map fst ts) = mset (map fst ?need)" using assms(3) by (metis mset_map)
  with diffImages_keys(2) [OF dw] have dts: "distinct (map fst (rev ts))" by (metis distinct_rev mset_eq_imp_distinct_iff rev_map)
  have W: "set (gm_Tags w) = {t. snd S t = Some d}" if "(d, w) \<in> set want" for d w using assms(1) that by (auto simp: listing_of_def)
  have H: "set (gm_Tags h) = {t. snd D t = Some d}" if "map_of hv d = Some h" for d h
    using assms(2) map_of_SomeD [OF that] by (auto simp: listing_of_def)
  have mem: "\<exists>w. (d, w) \<in> set want" if "snd S t = Some d" for t d
  proof -
    from that have "d \<in> ran (snd S)" by (rule ranI)
    with assms(1) have "d \<in> fst ` set want" unfolding listing_of_def by blast
    then show ?thesis by auto
  qed
  have sub: "\<forall>(d, m)\<in>set (rev ts). set (gm_Tags m) \<subseteq> {t. snd S t = Some d}"
    using W by (fastforce simp: set_ts need_iff still_needed_def split: option.splits)
  have tag: "(if \<exists>m. (d, m) \<in> set ?need \<and> t \<in> set (gm_Tags m) then Some d else snd D t) = Some d" if s: "snd S t = Some d" for t d
  proof (cases "snd D t = Some d")
    case False
    obtain w where w: "(d, w) \<in> set want" using mem [OF s] by blast
    have "t \<in> set (gm_Tags w)" using W [OF w] s by simp
    have "\<exists>m. (d, m) \<in> set ?need \<and> t \<in> set (gm_Tags m)"
    proof (cases "map_of hv d")
      case None
      with w \<open>t \<in> set (gm_Tags w)\<close> need_iff [of d w want hv] show ?thesis by (auto simp: still_needed_def)
    next
      case (Some h)
      have "t \<notin> set (gm_Tags h)" using H [OF Some] False by simp
      let ?m = "w\<lparr>gm_Tags := filter (\<lambda>t. t \<notin> set (gm_Tags h)) (gm_Tags w)\<rparr>"
      have t: "t \<in> set (gm_Tags ?m)" using \<open>t \<in> set (gm_Tags w)\<close> \<open>t \<notin> _\<close> by simp
      then have "gm_Tags ?m \<noteq> []" by (metis empty_iff empty_set)
      with Some w have "(d, ?m) \<in> set ?need" unfolding need_iff by (intro exI [of _ w]) (simp add: still_needed_def)
      with t show ?thesis by blast
    qed
    then show ?thesis by simp
  qed simp
  have "fold copied ts D = foldr copied (rev ts) D" by (simp add: foldr_conv_fold)
  also have "\<dots> = (fst ` set (rev ts) \<union> fst D, \<lambda>t. case snd S t of
           None \<Rightarrow> snd D t
         | Some d \<Rightarrow> if \<exists>m. (d, m) \<in> set (rev ts) \<and> t \<in> set (gm_Tags m) then Some d else snd D t)"
    by (rule copied_all [OF dts sub])
  also have "fst ` set (rev ts) \<union> fst D = fst S \<union> fst D"
  proof -
    have "fst ` set ?need \<subseteq> fst S" using diffImages_keys(1) assms(1) by (auto simp: listing_of_def)
    moreover have "d \<in> fst ` set ?need" if "d \<in> fst S" "d \<notin> fst D" for d
    proof -
      have "d \<in> fst ` set want" using that(1) assms(1) by (simp add: listing_of_def)
      then obtain w where w: "(d, w) \<in> set want" by auto
      have "map_of hv d = None" using that(2) assms(2) by (simp add: listing_of_def map_of_eq_None_iff)
      with w have "(d, w) \<in> set ?need" unfolding need_iff by (auto simp: still_needed_def)
      then show ?thesis by force
    qed
    ultimately show ?thesis by (auto simp: set_ts)
  qed
  also have "(\<lambda>t. case snd S t of None \<Rightarrow> snd D t
         | Some d \<Rightarrow> if \<exists>m. (d, m) \<in> set (rev ts) \<and> t \<in> set (gm_Tags m) then Some d else snd D t) = snd D ++ snd S"
    using tag by (auto simp: set_ts map_add_def fun_eq_iff split: option.splits)
  finally show ?thesis .
qed

section \<open>The tasks of a repository\<close>

lemma replace_first_prefix: "old \<noteq> '''' \<Longrightarrow> replace_first old new (old @ rest) = new @ rest"
  by (cases old) auto

text \<open>A repository below the source gets the name below the destination.\<close>

lemma copier_rename_below:
  assumes "Repository_Name repo = Repository_Name (cp_srcRepo c) @ rest" and "Repository_Name (cp_srcRepo c) \<noteq> ''''"
  shows "copier_rename c repo = NewRepository (Repository_Name (cp_dstRepo c) @ rest) [StrictValidation]"
  by (simp add: copier_rename_def assms replace_first_prefix)

definition task_of :: "repository \<Rightarrow> repository \<Rightarrow> string \<times> manifest_info \<Rightarrow> task" where
  "task_of oldRepo newRepo dm = \<lparr>ta_digest = fst dm, ta_manifest = snd dm, ta_oldRepo = oldRepo, ta_newRepo = newRepo\<rparr>"

definition task_effect :: "task \<Rightarrow> contents \<Rightarrow> contents" where
  "task_effect t = copied (ta_digest t, ta_manifest t)"

text \<open>The destination as it was listed; where there is none, nothing.\<close>

definition destination :: "google_tags res \<Rightarrow> contents \<Rightarrow> bool" where
  "destination r D = (case r of Inr h \<Rightarrow> listing_of D (gt_Manifests h) | Inl e \<Rightarrow> hasStatusCode (Some e) StatusNotFound \<and> D = ({}, Map.empty))"

definition have_of :: "google_tags res \<Rightarrow> manifests" where
  "have_of r = (case r of Inr h \<Rightarrow> gt_Manifests h | Inl e \<Rightarrow> [])"

lemma destination_listing: "destination r D \<Longrightarrow> listing_of D (have_of r)"
  by (cases r) (auto simp: destination_def have_of_def listing_of_def)

lemma copyRepo_queues:
  assumes "copier_rename c oldRepo = Inr newRepo" and "gcrane_list G newRepo (q, s) = (r, q', s')" and "destination r D"
  shows "copyRepo G c oldRepo (Some t) (q, s) =
     (None, q' @ map (task_of oldRepo newRepo) (gx_order G (diffImages (gt_Manifests t) (have_of r))), s')"
  using assms
  by (cases r) (auto simp: copyRepo_def destination_def have_of_def is_ok_def err_of_def task_of_def case_prod_beta Let_def)


text \<open>
  When the first repository could not be listed and its second listing succeeds, that repository is copied; the ones below it
  are not, and no error says so.
\<close>

lemma relisted_not_walked:
  assumes "google_List (gx_codec G) (cr_net (gx_crane G)) (with_queue (cr_transport (gx_crane G)))
      [google_WithAuthFromKeychain (gcrane_Keychain G)] (cp_srcRepo c) st = (Inl e, st1)"
    and "relist G (cp_srcRepo c) st1 = (Inr t, st2)" and "copyRepo G c (cp_srcRepo c) (Some t) st2 = (None, st3)"
  shows "google_Walk (gx_codec G) (cr_net (gx_crane G)) (with_queue (cr_transport (gx_crane G)))
      [google_WithAuthFromKeychain (gcrane_Keychain G)] (cp_srcRepo c) (copy_walkFn G c) st = (None, st3)"
proof -
  have "backoffErrors rnd GCRBackoff (copyRepo G c (cp_srcRepo c) (Some t)) st2 = (None, st3)" for rnd
    using assms(3) by (simp add: backoffErrors_def Retry_first GCRBackoff_def)
  with assms(1,2) show ?thesis by (simp add: google_Walk_def copy_walkFn_def Let_def wrap_err_def)
qed

section \<open>A registry to copy within\<close>

text \<open>A registry that lists one image in every repository, with the tag v1, and answers every request alike.\<close>

definition one_image_codec :: google_codec where
  "one_image_codec =
     \<lparr>gc_marshal_raw = (\<lambda>_. []),
      gc_decode_raw = (\<lambda>b. Inr \<lparr>rm_Size = '''', rm_MediaType = '''', rm_Created = '''', rm_Uploaded = '''', rm_Tags = [b]\<rparr>),
      gc_decode_tags = (\<lambda>b. Inr \<lparr>rt_Children = [], rt_Manifests = [(''sha256:a'', ''v1'')], rt_Name = b, rt_Tags = [''v1'']\<rparr>)\<rparr>"

definition google_demo :: "unit gcrane_env" where
  "google_demo =
     \<lparr>gx_crane =
        \<lparr>cr_net = any_env, cr_codec = demo_codec,
         cr_lists = \<lparr>decode_tags = (\<lambda>_. Inl ErrUnexpectedEOF), decode_repos = (\<lambda>_. Inl ErrUnexpectedEOF)\<rparr>,
         cr_sched = \<lparr>sc_layers = rev, sc_scopes = id\<rparr>, cr_transport = plain_server (\<lambda>p. p),
         cr_keychain = (\<lambda>_. Inr Anonymous), cr_schema1 = (\<lambda>_. Inl ErrUnexpectedEOF)\<rparr>,
      gx_codec = one_image_codec, gx_google = (\<lambda>_. Inr Anonymous), gx_order = rev\<rparr>"

lemma queue_plain: "with_queue (plain_server f) = plain_server f"
  by (intro ext) (simp add: with_queue_def plain_server_def split: prod.splits)

lemma demo_list:
  "gcrane_list google_demo repo st = (decode_google_tags one_image_codec (''/v2/'' @ RepositoryStr repo @ ''/tags/list''), st)"
proof -
  have n: "newLister env dt repo [google_WithAuthFromKeychain (gcrane_Keychain google_demo)] st = newLister env dt repo [] st" for env dt st
    by (simp add: newLister_def google_WithAuthFromKeychain_def gcrane_Keychain_def google_demo_def)
  have G: "gx_codec google_demo = one_image_codec" "cr_net (gx_crane google_demo) = any_env"
      "with_queue (cr_transport (gx_crane google_demo)) = plain_server (\<lambda>p. p)"
    by (simp_all add: google_demo_def queue_plain)
  have "gcrane_list google_demo repo st = google_List one_image_codec any_env (plain_server (\<lambda>p. p)) [] repo st"
    unfolding gcrane_list_def google_List_def G n ..
  then show ?thesis by (simp add: plain_List)
qed

definition two_images :: google_tags where
  "two_images = \<lparr>gt_Children = [],
     gt_Manifests = [(''sha256:a'', zero_manifest_info\<lparr>gm_Tags := [''v1'', ''v2'']\<rparr>), (''sha256:b'', zero_manifest_info)],
     gt_Name = ''foo'', gt_Tags = [''v1'', ''v2'']\<rparr>"

definition gcr_bar :: repository where
  "gcr_bar = \<lparr>repo_Registry = \<lparr>reg_insecure = False, reg_registry = ''gcr.io''\<rparr>, repo_repository = ''bar''\<rparr>"


theorem copy_not_retried_witness:
  "do_task google_demo \<lparr>ta_digest = ''sha256:a'', ta_manifest = zero_manifest_info, ta_oldRepo = gcr_foo, ta_newRepo = gcr_bar\<rparr> (Some ()) =
     (Some (ErrMsg (''failed to copy '' @ quoted ''sha256:a'')), Some ())"
proof -
  let ?t = "\<lparr>ta_digest = ''sha256:a'', ta_manifest = zero_manifest_info, ta_oldRepo = gcr_foo, ta_newRepo = gcr_bar\<rparr>"
  have o: "co_name (crane_makeOptions (gx_crane google_demo) [crane_WithAuthFromKeychain K]) = []" for K
    by (simp add: crane_makeOptions_def crane_WithAuthFromKeychain_def)
  have p: "\<not> is_ok (ParseReference (Repository_Name gcr_foo @ ''@'' @ ''sha256:a'') [])" by code_simp
  have c: "\<exists>m. copyImages google_demo ?t () = Some (Some (ErrMsg m), ())"
    using p by (auto simp: copyImages_def zero_manifest_info_def gcrane_Copy_def crane_Copy_def Let_def o is_ok_def bad_reference_def err_of_def split: sum.splits)
  from copy_not_retried [of ?t google_demo "()"] c show ?thesis by (auto simp: zero_manifest_info_def)
qed

end
