(* ===== verification/Legacy_Tarball.thy ===== *)
theory Legacy_Tarball
  imports Tarball_Archive Crane_Files
begin

text \<open>
  The format of docker save before manifests, of pkg/legacy (config.go, tarball/write.go), and crane.SaveLegacy of
  pkg/crane/pull.go: every layer in a directory named by a hash over the chain of layers below it, and the file
  repositories of the tags.  The theorem: what MultiWrite wrote is read back by tarball.Image; a lemma has the
  image without layers, for which it panics.
\<close>

section \<open>legacy/config.go\<close>

text \<open>The metadata of a layer: an image config file, which it embeds, and what is said of the layer.\<close>

record layer_config_file = config_file +
  lc_ContainerConfig :: v1_config
  lc_ID :: string
  lc_Parent :: string
  lc_Throwaway :: bool
  lc_Comment :: string

section \<open>tarball/write.go: the layers\<close>

text \<open>The file repositories; and encoding/json on it and on the metadata of a layer.\<close>

type_synonym repositoriesTarDescriptor = "string \<rightharpoonup> (string \<rightharpoonup> string)"

record legacy_json =
  lj_layer :: "layer_config_file \<Rightarrow> bytes res"
  lj_repositories :: "repositoriesTarDescriptor \<Rightarrow> bytes"

record v1_layer =
  v1l_config :: layer_config_file
  v1l_layer :: layer

definition v1Layer_json :: "legacy_json \<Rightarrow> v1_layer \<Rightarrow> bytes res" where
  "v1Layer_json J l = lj_layer J (v1l_config l)"

definition v1Layer_version :: "v1_layer \<Rightarrow> bytes" where
  "v1Layer_version l = ''1.0''"

definition v1LayerID :: "layer \<Rightarrow> string \<Rightarrow> bytes \<Rightarrow> string res" where
  "v1LayerID l parentID rawConfig =
     bnd (wrap ''unable to get layer digest to generate v1 layer ID'' (l_Digest l)) (\<lambda>d.
     let s = Hex d @ '' '' @ parentID;
         s = (if length rawConfig \<noteq> 0 then s @ '' '' @ rawConfig else s)
     in Inr (Hex (sha s)))"

definition v1_parent :: "v1_layer option \<Rightarrow> string" where
  "v1_parent parent = (case parent of Some p \<Rightarrow> lc_ID (v1l_config p) | None \<Rightarrow> '''')"

definition history_config :: "history \<Rightarrow> string \<Rightarrow> string \<Rightarrow> layer_config_file" where
  "history_config h ident parentID =
     \<lparr>cf_Architecture = '''', cf_Author = h_Author h, cf_Container = '''', cf_Created = h_Created h, cf_DockerVersion = '''',
      cf_History = [], cf_OS = '''', cf_RootFS = \<lparr>rf_Type = '''', rf_DiffIDs = []\<rparr>, cf_Config = zero_config, cf_OSVersion = '''',
      lc_ContainerConfig = zero_config\<lparr>c_Cmd := [h_CreatedBy h]\<rparr>, lc_ID = ident, lc_Parent = parentID,
      lc_Throwaway = h_EmptyLayer h, lc_Comment = h_Comment h\<rparr>"

definition newV1Layer :: "layer \<Rightarrow> v1_layer option \<Rightarrow> history \<Rightarrow> v1_layer res" where
  "newV1Layer l parent h =
     (let parentID = v1_parent parent in
      bnd (wrap ''unable to generate v1 layer ID'' (v1LayerID l parentID [])) (\<lambda>ident.
      Inr \<lparr>v1l_config = history_config h ident parentID, v1l_layer = l\<rparr>))"

definition newTopV1Layer :: "layer \<Rightarrow> v1_layer option \<Rightarrow> history \<Rightarrow> config_file \<Rightarrow> bytes \<Rightarrow> v1_layer res" where
  "newTopV1Layer l parent h imgConfig rawConfig =
     bnd (newV1Layer l parent h) (\<lambda>result.
     bnd (wrap ''unable to generate v1 layer ID for top layer'' (v1LayerID l (lc_Parent (v1l_config result)) rawConfig)) (\<lambda>ident.
     Inr (result\<lparr>v1l_config := (v1l_config result)
       \<lparr>lc_ID := ident, cf_Architecture := cf_Architecture imgConfig, cf_Container := cf_Container imgConfig,
        cf_DockerVersion := cf_DockerVersion imgConfig, cf_OS := cf_OS imgConfig, cf_Config := cf_Config imgConfig,
        cf_Created := cf_Created imgConfig\<rparr>\<rparr>)))"

section \<open>tarball/write.go: tags, sources and history\<close>

definition splitTag :: "string \<Rightarrow> string \<times> string" where
  "splitTag name =
     (let parts = split_on (CHR '':'') name in
      if 1 < length parts \<and> CHR ''/'' \<notin> set (last parts) then (join_with (CHR '':'') (butlast parts), last parts)
      else (name, ''''))"

definition addTag :: "string \<Rightarrow> repositoriesTarDescriptor \<Rightarrow> string \<Rightarrow> repositoriesTarDescriptor" where
  "addTag topLayerID repos t =
     (case splitTag t of (base, tag) \<Rightarrow>
        let tagToID = (case repos base of Some m \<Rightarrow> m | None \<Rightarrow> Map.empty) in
        repos(base \<mapsto> tagToID(tag \<mapsto> topLayerID)))"

definition addTags :: "repositoriesTarDescriptor \<Rightarrow> string list \<Rightarrow> string \<Rightarrow> repositoriesTarDescriptor" where
  "addTags repos tags topLayerID = foldl (addTag topLayerID) repos tags"

definition updateLayerSources :: "(v1_hash \<times> descriptor) list \<Rightarrow> layer \<Rightarrow> image \<Rightarrow> (v1_hash \<times> descriptor) list res" where
  "updateLayerSources layerSources l img =
     bnd (l_Digest l) (\<lambda>d.
     bnd (BlobDescriptor (i_Manifest img) d) (\<lambda>desc.
     if \<not> IsDistributable (d_MediaType desc)
     then bnd (BlobToDiffID (i_Manifest img) (i_ConfigFile img) d) (\<lambda>diffid. Inr (AList.update diffid desc layerSources))
     else Inr layerSources))"

definition filterEmpty :: "history list \<Rightarrow> history list" where
  "filterEmpty h = filter (\<lambda>i. \<not> h_EmptyLayer i) h"

section \<open>tarball/write.go: the archive\<close>

text \<open>The images by the names of their config files; when one of these cannot be had, in some order.\<close>

definition legacy_dedupRefToImage :: "(nat \<Rightarrow> image) \<Rightarrow> map_order \<Rightarrow> ref_images \<Rightarrow> image_tags" where
  "legacy_dedupRefToImage imgs ord refToImage =
     (let imageToTags = map (\<lambda>(img, tags). (img, sort tags)) (dedupRefToImage ord refToImage);
          its = ord_images ord imageToTags in
      if list_all (\<lambda>(img, _). is_ok (i_ConfigName (imgs img))) its
      then sort_key (\<lambda>(img, _). case i_ConfigName (imgs img) of Inr h \<Rightarrow> Hex h | Inl _ \<Rightarrow> '''') its
      else its)"

text \<open>The three files of a layer.\<close>

definition write_v1_layer :: "legacy_json \<Rightarrow> v1_layer \<Rightarrow> tar_writer \<Rightarrow> tar_writer res" where
  "write_v1_layer J cur tf =
     (let ident = lc_ID (v1l_config cur) in
      bnd (UncompressedSize (v1l_layer cur)) (\<lambda>sz.
      bnd (l_Uncompressed (v1l_layer cur)) (\<lambda>u.
      bnd (writeTarEntry tf (ident @ ''/layer.tar'') u sz) (\<lambda>tf.
      bnd (v1Layer_json J cur) (\<lambda>j.
      bnd (writeTarEntry tf (ident @ ''/json'') j (int (length j))) (\<lambda>tf.
      let v = v1Layer_version cur in
      writeTarEntry tf (ident @ ''/VERSION'') v (int (length v))))))))"

text \<open>
  The layers of an image from some layer on, each with its history; prev is the layer before.  The result is the names of
  their files, the last layer, the sources, and what was written with the identifiers seen.
\<close>

fun write_v1_layers ::
    "legacy_json \<Rightarrow> image \<Rightarrow> config_file \<Rightarrow> bytes \<Rightarrow> v1_layer option \<Rightarrow> (layer \<times> history) list \<Rightarrow> (v1_hash \<times> descriptor) list \<Rightarrow>
     tar_writer \<Rightarrow> string list \<Rightarrow> (string list \<times> v1_layer option \<times> (v1_hash \<times> descriptor) list \<times> tar_writer \<times> string list) res" where
  "write_v1_layers J img cfg cfgBlob prev [] sources tf seen = Inr ([], prev, sources, tf, seen)"
| "write_v1_layers J img cfg cfgBlob prev ((l, h) # rest) sources tf seen =
     bnd (wrap ''unable to update image metadata to include undistributable layer source information'' (updateLayerSources sources l img)) (\<lambda>sources.
     bnd (if rest \<noteq> [] then newV1Layer l prev h else newTopV1Layer l prev h cfg cfgBlob) (\<lambda>cur.
     let ident = lc_ID (v1l_config cur) in
     bnd (if ident \<in> set seen then Inr (tf, seen)
          else bnd (write_v1_layer J cur tf) (\<lambda>tf. Inr (tf, ident # seen))) (\<lambda>(tf, seen).
     bnd (write_v1_layers J img cfg cfgBlob (Some cur) rest sources tf seen) (\<lambda>(files, r).
     Inr ((ident @ ''/layer.tar'') # files, r)))))"

definition legacy_history :: "config_file \<Rightarrow> layer list \<Rightarrow> history list res" where
  "legacy_history cfg layers =
     (let history = filterEmpty (cf_History cfg) in
      if length history = 0 \<and> length layers \<noteq> 0 then Inr (replicate (length layers) zero_history)
      else if length layers \<noteq> length history
      then Inl (ErrMsg ''image config had layer history which did not match the number of layers'')
      else Inr history)"

definition configFile_name :: "v1_hash \<Rightarrow> string" where
  "configFile_name h = Hex h @ ''.json''"

definition write_v1_image ::
    "legacy_json \<Rightarrow> image \<Rightarrow> string list \<Rightarrow> repositoriesTarDescriptor \<Rightarrow> tar_writer \<Rightarrow> string list \<Rightarrow>
     (tar_descriptor \<times> repositoriesTarDescriptor \<times> tar_writer \<times> string list) res" where
  "write_v1_image J img tags repos tf seen =
     bnd (i_ConfigName img) (\<lambda>cfgName.
     bnd (i_RawConfigFile img) (\<lambda>cfgBlob.
     bnd (writeTarEntry tf (configFile_name cfgName) cfgBlob (int (length cfgBlob))) (\<lambda>tf.
     bnd (i_ConfigFile img) (\<lambda>cfg.
     bnd (i_Layers img) (\<lambda>layers.
     bnd (legacy_history cfg layers) (\<lambda>history.
     bnd (write_v1_layers J img cfg cfgBlob None (zip layers history) [] tf seen) (\<lambda>(layerFiles, prev, layerSources, tf, seen).
     case prev of
       None \<Rightarrow> Inl nil_deref
     | Some l \<Rightarrow>
         Inr (\<lparr>td_Config = configFile_name cfgName, td_RepoTags = tags, td_Layers = layerFiles, td_LayerSources = layerSources\<rparr>,
              addTags repos tags (lc_ID (v1l_config l)), tf, seen))))))))"

fun write_v1_images ::
    "legacy_json \<Rightarrow> (nat \<Rightarrow> image) \<Rightarrow> image_tags \<Rightarrow> tar_descriptor list \<Rightarrow> repositoriesTarDescriptor \<Rightarrow> tar_writer \<Rightarrow> string list \<Rightarrow>
     (tar_descriptor list \<times> repositoriesTarDescriptor \<times> tar_writer) res" where
  "write_v1_images J imgs [] m repos tf seen = Inr (m, repos, tf)"
| "write_v1_images J imgs ((img, tags) # rest) m repos tf seen =
     bnd (write_v1_image J (imgs img) tags repos tf seen) (\<lambda>(d, repos, tf, seen).
     write_v1_images J imgs rest (m @ [d]) repos tf seen)"

text \<open>
  The writer takes all bytes, so that closing the archive, whose error is dropped, does not fail for want of it; what was
  written before an error is left out.
\<close>

definition legacy_MultiWrite ::
    "codec \<Rightarrow> tarball_json \<Rightarrow> legacy_json \<Rightarrow> (nat \<Rightarrow> image) \<Rightarrow> map_order \<Rightarrow> ref_images \<Rightarrow> bytes res" where
  "legacy_MultiWrite E TJ J imgs ord refToImage =
     bnd (write_v1_images J imgs (legacy_dedupRefToImage imgs ord refToImage) [] Map.empty tar_NewWriter []) (\<lambda>(m, repos, tf).
     let mBytes = tj_marshal TJ m in
     bnd (writeTarEntry tf ''manifest.json'' mBytes (int (length mBytes))) (\<lambda>tf.
     let reposBytes = lj_repositories J repos in
     bnd (writeTarEntry tf ''repositories'' reposBytes (int (length reposBytes))) (\<lambda>tf.
     tar_Close E tf)))"

definition legacy_Write :: "codec \<Rightarrow> tarball_json \<Rightarrow> legacy_json \<Rightarrow> map_order \<Rightarrow> reference \<Rightarrow> image \<Rightarrow> bytes res" where
  "legacy_Write E TJ J ord ref img = legacy_MultiWrite E TJ J (\<lambda>_. img) ord [(ref, 0)]"

section \<open>crane/pull.go\<close>

definition crane_SaveLegacy ::
    "codec \<Rightarrow> tarball_json \<Rightarrow> legacy_json \<Rightarrow> map_order \<Rightarrow> image \<Rightarrow> string \<Rightarrow> string \<Rightarrow> file_system \<Rightarrow> go_error option \<times> file_system" where
  "crane_SaveLegacy E TJ J ord img src path fs =
     (case ParseReference src [] of
        Inl _ \<Rightarrow> (Some (bad_reference ''ref'' src), fs)
      | Inr ref \<Rightarrow>
          (case os_Create fs path of
             (Some e, fs1) \<Rightarrow> (Some e, fs1)
           | (None, fs1) \<Rightarrow>
               (case legacy_Write E TJ J ord ref img of
                  Inl e \<Rightarrow> (Some e, fs1)
                | Inr a \<Rightarrow> os_WriteFile fs1 path a)))"

section \<open>The identifiers of layers\<close>

text \<open>The texts whose hashes are the identifiers of the layers with some contents, below a parent.\<close>

definition v1_text :: "string \<Rightarrow> bytes \<Rightarrow> bytes \<Rightarrow> bytes" where
  "v1_text parentID rawConfig c = Hex (sha c) @ '' '' @ parentID @ (if rawConfig \<noteq> [] then '' '' @ rawConfig else [])"

fun v1_texts :: "string \<Rightarrow> bytes \<Rightarrow> bytes list \<Rightarrow> bytes list" where
  "v1_texts p rc [] = []"
| "v1_texts p rc (c # cs) =
     (let t = v1_text p (if cs = [] then rc else []) c in t # v1_texts (Hex (sha t)) rc cs)"

definition v1_ids :: "string \<Rightarrow> bytes \<Rightarrow> bytes list \<Rightarrow> string list" where
  "v1_ids p rc cs = map (\<lambda>t. Hex (sha t)) (v1_texts p rc cs)"

lemma v1_ids_simps [simp]:
  "v1_ids p rc [] = []"
  "v1_ids p rc (c # cs) =
     (let i = Hex (sha (v1_text p (if cs = [] then rc else []) c)) in i # v1_ids i rc cs)"
  by (simp_all add: v1_ids_def Let_def)

lemma v1_ids_length [simp]: "length (v1_ids p rc cs) = length cs"
  by (induction cs arbitrary: p) (simp_all add: Let_def)

lemma v1_ids_text:
  "(i, c) \<in> set (zip (v1_ids p rc cs) cs) \<Longrightarrow> \<exists>q r. i = Hex (sha (v1_text q r c)) \<and> v1_text q r c \<in> set (v1_texts p rc cs)"
proof (induction cs arbitrary: p)
  case (Cons b cs)
  then show ?case by (fastforce simp: Let_def)
qed simp

lemma length_Hex_sha [simp]: "length (Hex (sha b)) = 64"
  using wf_hash_sha [of b] by (simp add: wf_hash_def)

lemma v1_text_content: "v1_text p r c = v1_text p' r' c' \<Longrightarrow> sha c = sha c'"
proof -
  assume "v1_text p r c = v1_text p' r' c'"
  then have "take 64 (v1_text p r c) = take 64 (v1_text p' r' c')" by simp
  then show "sha c = sha c'" by (simp add: v1_text_def Hex_sha)
qed

lemma wrap_Inr [simp]: "wrap m (Inr x) = Inr x"
  by (simp add: wrap_def)

lemma v1LayerID_ok: "l_Digest l = Inr (sha c) \<Longrightarrow> v1LayerID l p rc = Inr (Hex (sha (v1_text p rc c)))"
  by (simp add: v1LayerID_def v1_text_def Let_def)

lemma newV1Layer_ok:
  "l_Digest l = Inr (sha c) \<Longrightarrow>
     \<exists>cur. newV1Layer l parent h = Inr cur \<and> lc_ID (v1l_config cur) = Hex (sha (v1_text (v1_parent parent) [] c)) \<and> v1l_layer cur = l"
  by (simp add: newV1Layer_def v1LayerID_ok history_config_def Let_def)

lemma newTopV1Layer_ok:
  "l_Digest l = Inr (sha c) \<Longrightarrow>
     \<exists>cur. newTopV1Layer l parent h cfg rc = Inr cur \<and> lc_ID (v1l_config cur) = Hex (sha (v1_text (v1_parent parent) rc c)) \<and> v1l_layer cur = l"
  by (simp add: newTopV1Layer_def newV1Layer_def v1LayerID_ok history_config_def Let_def)

section \<open>What is written\<close>

text \<open>
  The entries of an archive: config files of rcs, and layers with their identifiers, which are pairs of pairs; the identifiers
  seen are those of layers that are there.
\<close>

definition v1_entry :: "bytes set \<Rightarrow> (string \<times> bytes) set \<Rightarrow> tar_entry \<Rightarrow> bool" where
  "v1_entry rcs pairs e \<longleftrightarrow>
     (\<exists>rc\<in>rcs. e = entry_of (configFile_name (sha rc)) rc) \<or>
     (\<exists>(i, u)\<in>pairs. e = entry_of (i @ ''/layer.tar'') u) \<or>
     (\<exists>t b. e = entry_of (Hex (sha t) @ ''/json'') b \<or> e = entry_of (Hex (sha t) @ ''/VERSION'') b)"

definition v1_state :: "bytes set \<Rightarrow> (string \<times> bytes) set \<Rightarrow> tar_writer \<Rightarrow> string list \<Rightarrow> bool" where
  "v1_state rcs pairs tf seen \<longleftrightarrow>
     tw_missing tf = 0 \<and> (\<forall>e\<in>set (tw_entries tf). v1_entry rcs pairs e) \<and>
     (\<forall>i\<in>set seen. \<exists>u. (i, u) \<in> pairs \<and> entry_of (i @ ''/layer.tar'') u \<in> set (tw_entries tf))"

definition grows :: "tar_writer \<Rightarrow> string list \<Rightarrow> tar_writer \<Rightarrow> string list \<Rightarrow> bool" where
  "grows tf seen tf' seen' \<longleftrightarrow> set (tw_entries tf) \<subseteq> set (tw_entries tf') \<and> set seen \<subseteq> set seen'"

lemma grows_trans: "grows a s b t \<Longrightarrow> grows b t c u \<Longrightarrow> grows a s c u"
  by (auto simp: grows_def)

lemma grows_refl [simp]: "grows a s a s"
  by (simp add: grows_def)

text \<open>A layer of an image with its contents, compressed and not.\<close>

definition v1_layer_carries :: "image \<Rightarrow> layer \<Rightarrow> bytes \<times> bytes \<Rightarrow> bool" where
  "v1_layer_carries img l cu \<longleftrightarrow>
     l_Digest l = Inr (sha (fst cu)) \<and> l_Uncompressed l = Inr (snd cu) \<and> UncompressedSize l = Inr (int (length (snd cu))) \<and>
     (\<forall>src. is_ok (updateLayerSources src l img))"

lemma write_v1_layer_ok:
  assumes "\<forall>c. is_ok (lj_layer J c)" and "l_Uncompressed (v1l_layer cur) = Inr u"
    and "UncompressedSize (v1l_layer cur) = Inr (int (length u))" and "lc_ID (v1l_config cur) = Hex (sha t)" and "(Hex (sha t), u) \<in> pairs"
    and "v1_state rcs pairs tf seen"
  shows "\<exists>tf'. write_v1_layer J cur tf = Inr tf' \<and> v1_state rcs pairs tf' (Hex (sha t) # seen) \<and> grows tf seen tf' (Hex (sha t) # seen)"
proof -
  obtain j where j: "lj_layer J (v1l_config cur) = Inr j" using assms(1) by (metis is_ok_iff)
  let ?es = "[entry_of (Hex (sha t) @ ''/layer.tar'') u, entry_of (Hex (sha t) @ ''/json'') j, entry_of (Hex (sha t) @ ''/VERSION'') ''1.0'']"
  have m: "tw_missing tf = 0" using assms(6) by (simp add: v1_state_def)
  have v: "int (length ''1.0'') = 3" by simp
  have "write_v1_layer J cur tf = Inr \<lparr>tw_entries = tw_entries tf @ ?es, tw_missing = 0\<rparr>"
    using m j assms(2-4)
    by (simp add: write_v1_layer_def Let_def writeTarEntry_ok v1Layer_json_def v1Layer_version_def writeTarEntry_ok [where c = "''1.0''", unfolded v])
  moreover have "v1_state rcs pairs \<lparr>tw_entries = tw_entries tf @ ?es, tw_missing = 0\<rparr> (Hex (sha t) # seen)"
    using assms(5,6) by (fastforce simp: v1_state_def v1_entry_def)
  ultimately show ?thesis by (auto simp: grows_def)
qed

lemma write_v1_layers_ok:
  assumes "\<forall>c. is_ok (lj_layer J c)"
  shows "list_all2 (\<lambda>lh. v1_layer_carries img (fst lh)) lhs cus \<Longrightarrow> v1_state rcs pairs tf seen \<Longrightarrow>
     set (zip (v1_ids (v1_parent prev) rc (map fst cus)) (map snd cus)) \<subseteq> pairs \<Longrightarrow>
     \<exists>prev' srcs tf' seen'. write_v1_layers J img cfg rc prev lhs sources tf seen =
         Inr (map (\<lambda>i. i @ ''/layer.tar'') (v1_ids (v1_parent prev) rc (map fst cus)), prev', srcs, tf', seen') \<and>
       (lhs \<noteq> [] \<or> prev \<noteq> None \<longrightarrow> prev' \<noteq> None) \<and> v1_state rcs pairs tf' seen' \<and> grows tf seen tf' seen' \<and>
       set (v1_ids (v1_parent prev) rc (map fst cus)) \<subseteq> set seen'"
proof (induction lhs cus arbitrary: prev sources tf seen rule: list_all2_induct)
  case (Cons lh lhs cu cus)
  obtain l h where lh: "lh = (l, h)" by fastforce
  obtain c u where cu: "cu = (c, u)" by fastforce
  let ?rc = "if lhs \<noteq> [] then [] else rc"
  let ?t = "v1_text (v1_parent prev) ?rc c"
  from Cons.hyps(1) lh cu have l: "l_Digest l = Inr (sha c)" "l_Uncompressed l = Inr u" "UncompressedSize l = Inr (int (length u))"
    by (simp_all add: v1_layer_carries_def)
  from Cons.hyps(1) lh obtain src where src: "updateLayerSources sources l img = Inr src" by (auto simp: v1_layer_carries_def is_ok_iff)
  have e: "map fst cus = [] \<longleftrightarrow> lhs = []" using Cons.hyps(2) by (auto dest: list_all2_lengthD)
  have ids: "v1_ids (v1_parent prev) rc (map fst (cu # cus)) = Hex (sha ?t) # v1_ids (Hex (sha ?t)) rc (map fst cus)"
    using e by (simp add: cu Let_def)
  have "\<exists>cur. (if lhs \<noteq> [] then newV1Layer l prev h else newTopV1Layer l prev h cfg rc) = Inr cur \<and>
      lc_ID (v1l_config cur) = Hex (sha ?t) \<and> v1l_layer cur = l"
    using newV1Layer_ok [OF l(1)] newTopV1Layer_ok [OF l(1)] by simp
  then obtain cur where cur: "(if lhs \<noteq> [] then newV1Layer l prev h else newTopV1Layer l prev h cfg rc) = Inr cur"
    "lc_ID (v1l_config cur) = Hex (sha ?t)" "v1l_layer cur = l" by blast
  have pr: "(Hex (sha ?t), u) \<in> pairs" "set (zip (v1_ids (Hex (sha ?t)) rc (map fst cus)) (map snd cus)) \<subseteq> pairs"
    using Cons.prems(2) unfolding ids by (simp_all add: cu)
  have "\<exists>tf1 seen1. (if Hex (sha ?t) \<in> set seen then Inr (tf, seen)
        else bnd (write_v1_layer J cur tf) (\<lambda>tf. Inr (tf, Hex (sha ?t) # seen))) = Inr (tf1, seen1) \<and>
      v1_state rcs pairs tf1 seen1 \<and> grows tf seen tf1 seen1 \<and> Hex (sha ?t) \<in> set seen1"
    using write_v1_layer_ok [OF assms _ _ cur(2) pr(1) Cons.prems(1), unfolded cur(3), OF l(2,3)] Cons.prems(1) by auto
  then obtain tf1 seen1 where w: "(if Hex (sha ?t) \<in> set seen then Inr (tf, seen)
        else bnd (write_v1_layer J cur tf) (\<lambda>tf. Inr (tf, Hex (sha ?t) # seen))) = Inr (tf1, seen1)"
      "v1_state rcs pairs tf1 seen1" "grows tf seen tf1 seen1" "Hex (sha ?t) \<in> set seen1" by blast
  have vp: "v1_parent (Some cur) = Hex (sha ?t)" by (simp add: v1_parent_def cur(2))
  from Cons.IH [OF w(2), of "Some cur" src, unfolded vp, OF pr(2)] obtain prev' srcs tf' seen' where
    r: "write_v1_layers J img cfg rc (Some cur) lhs src tf1 seen1 =
         Inr (map (\<lambda>i. i @ ''/layer.tar'') (v1_ids (Hex (sha ?t)) rc (map fst cus)), prev', srcs, tf', seen')"
       "prev' \<noteq> None" "v1_state rcs pairs tf' seen'" "grows tf1 seen1 tf' seen'" "set (v1_ids (Hex (sha ?t)) rc (map fst cus)) \<subseteq> set seen'"
    by auto
  have "write_v1_layers J img cfg rc prev (lh # lhs) sources tf seen =
      Inr (map (\<lambda>i. i @ ''/layer.tar'') (v1_ids (v1_parent prev) rc (map fst (cu # cus))), prev', srcs, tf', seen')"
    by (simp only: ids ids [unfolded list.map] lh write_v1_layers.simps src wrap_Inr cur(1) bnd_simps Let_def cur(2) w(1) r(1) prod.case list.map)
  moreover have "Hex (sha ?t) \<in> set seen'" using w(4) r(4) by (auto simp: grows_def)
  ultimately show ?case using r(2,3,5) grows_trans [OF w(3) r(4)] unfolding ids by auto
qed (auto simp: grows_def)

section \<open>Images\<close>

text \<open>An image with its config file and the contents of its layers, compressed and not.\<close>

definition v1_image :: "codec \<Rightarrow> image \<Rightarrow> bytes \<times> (bytes \<times> bytes) list \<Rightarrow> bool" where
  "v1_image E i x \<longleftrightarrow>
     (\<exists>cf rm m ls. coherent_parts E i (fst x) cf rm m ls \<and>
        list_all2 (\<lambda>l cu. l_Compressed l = Inr (fst cu) \<and> l_Uncompressed l = Inr (snd cu) \<and>
                          UncompressedSize l = Inr (int (length (snd cu)))) ls (snd x) \<and>
        ls \<noteq> [] \<and> is_ok (legacy_history cf ls)) \<and>
     list_all (\<lambda>cu. 2 < length (snd cu) \<and> take 2 (snd cu) \<noteq> gzipMagicHeader) (snd x)"

definition v1_layer_ids :: "bytes \<times> (bytes \<times> bytes) list \<Rightarrow> string list" where
  "v1_layer_ids x = v1_ids '''' (fst x) (map fst (snd x))"

text \<open>
  No two config files or compressed layers have the same hash, no two uncompressed layers, and no two of the texts behind the
  identifiers.
\<close>

definition clash_free :: "(bytes \<times> (bytes \<times> bytes) list) set \<Rightarrow> bool" where
  "clash_free X \<longleftrightarrow>
     inj_on sha (\<Union>x\<in>X. insert (fst x) (fst ` set (snd x))) \<and> inj_on sha (\<Union>x\<in>X. snd ` set (snd x)) \<and>
     inj_on sha (\<Union>x\<in>X. set (v1_texts '''' (fst x) (map fst (snd x))))"

lemma clash_free_subset: "clash_free X \<Longrightarrow> Y \<subseteq> X \<Longrightarrow> clash_free Y"
  unfolding clash_free_def by (meson UN_mono inj_on_subset order_refl)

definition v1_images :: "codec \<Rightarrow> (nat \<Rightarrow> image) \<Rightarrow> (nat \<Rightarrow> bytes \<times> (bytes \<times> bytes) list) \<Rightarrow> ref_images \<Rightarrow> bool" where
  "v1_images E imgs content refs \<longleftrightarrow>
     (\<forall>a\<in>snd ` set refs. v1_image E (imgs a) (content a)) \<and> clash_free (content ` snd ` set refs)"

definition v1_pairs :: "bytes \<times> (bytes \<times> bytes) list \<Rightarrow> (string \<times> bytes) set" where
  "v1_pairs x = set (zip (v1_layer_ids x) (map snd (snd x)))"

definition v1_descriptor :: "bytes \<times> (bytes \<times> bytes) list \<Rightarrow> string list \<Rightarrow> tar_descriptor \<Rightarrow> bool" where
  "v1_descriptor x tags d \<longleftrightarrow>
     td_Config d = configFile_name (sha (fst x)) \<and> td_RepoTags d = tags \<and> td_Layers d = map (\<lambda>i. i @ ''/layer.tar'') (v1_layer_ids x)"

lemma v1_image_layers:
  assumes "v1_image E i x" and "clash_free {x}"
  shows "\<exists>cf ls hs. i_ConfigName i = Inr (sha (fst x)) \<and> i_RawConfigFile i = Inr (fst x) \<and> i_ConfigFile i = Inr cf \<and> i_Layers i = Inr ls \<and>
    decode_config E (fst x) = Inr cf \<and> rf_DiffIDs (cf_RootFS cf) = map (\<lambda>cu. sha (snd cu)) (snd x) \<and>
    ls \<noteq> [] \<and> legacy_history cf ls = Inr hs \<and> length hs = length ls \<and> list_all2 (v1_layer_carries i) ls (snd x) \<and>
    (\<forall>cu\<in>set (snd x). gunzip E (fst cu) = Inr (snd cu))"
proof -
  from assms(1) obtain cf rm m ls where p: "coherent_parts E i (fst x) cf rm m ls" and
    c: "list_all2 (\<lambda>l cu. l_Compressed l = Inr (fst cu) \<and> l_Uncompressed l = Inr (snd cu) \<and> UncompressedSize l = Inr (int (length (snd cu)))) ls (snd x)"
    and ne: "ls \<noteq> []" and h: "is_ok (legacy_history cf ls)" unfolding v1_image_def by blast
  have len: "length ls = length (snd x)" using c by (rule list_all2_lengthD)
  have cs: "list_all2 (\<lambda>l c. l_Compressed l = Inr c) ls (map fst (snd x))" using c by (auto simp: list_all2_conv_all_nth)
  have inj: "inj_on sha (insert (fst x) (set (map fst (snd x))))"
    using assms(2) by (simp add: clash_free_def)
  have im: "i_Manifest i = Inr m" "i_ConfigFile i = Inr cf" using p by (simp_all add: coherent_parts_def)
  have w: "wf_layer E (ls ! k)" "l_DiffID (ls ! k) = Inr (rf_DiffIDs (cf_RootFS cf) ! k)" "l_Compressed (ls ! k) = Inr (fst (snd x ! k))"
    "l_Uncompressed (ls ! k) = Inr (snd (snd x ! k))" "UncompressedSize (ls ! k) = Inr (int (length (snd (snd x ! k))))" if "k < length ls" for k
    using p c that by (auto simp: coherent_parts_def list_all2_conv_all_nth layer_matches_def)
  have g: "l_Digest (ls ! k) = Inr (sha (fst (snd x ! k)))" "gunzip E (fst (snd x ! k)) = Inr (snd (snd x ! k))"
    "rf_DiffIDs (cf_RootFS cf) ! k = sha (snd (snd x ! k))" if "k < length ls" for k
    using w [OF that] by (auto simp: wf_layer_def)
  have dl: "length (rf_DiffIDs (cf_RootFS cf)) = length ls" using p by (auto simp: coherent_parts_def dest: list_all2_lengthD)
  have "v1_layer_carries i (ls ! k) (snd x ! k)" if k: "k < length ls" for k
  proof -
    have "fst (snd x ! k) \<in> set (map fst (snd x))" using k len by simp
    from content_described [OF p cs inj this] obtain d u where
      "BlobDescriptor (Inr m) (sha (fst (snd x ! k))) = Inr d" "BlobToDiffID (Inr m) (Inr cf) (sha (fst (snd x ! k))) = Inr (sha u)" by blast
    then have "is_ok (updateLayerSources src (ls ! k) i)" for src by (simp add: updateLayerSources_def g(1) [OF k] im is_ok_def)
    with w [OF k] g [OF k] show ?thesis by (simp add: v1_layer_carries_def)
  qed
  then have carries: "list_all2 (v1_layer_carries i) ls (snd x)" using len by (simp add: list_all2_conv_all_nth)
  have diff: "rf_DiffIDs (cf_RootFS cf) = map (\<lambda>cu. sha (snd cu)) (snd x)"
    using dl len g(3) by (intro nth_equalityI) simp_all
  have gz: "\<forall>cu\<in>set (snd x). gunzip E (fst cu) = Inr (snd cu)" using g(2) len by (metis in_set_conv_nth)
  from h obtain hs where hs: "legacy_history cf ls = Inr hs" by (auto simp: is_ok_iff)
  then have "length hs = length ls" by (auto simp: legacy_history_def Let_def split: if_splits)
  with p hs ne carries diff gz show ?thesis by (auto simp: coherent_parts_def)
qed

lemma write_v1_image_ok:
  assumes J: "\<forall>c. is_ok (lj_layer J c)" and x: "v1_image E i x" "clash_free {x}" "fst x \<in> rcs" "v1_pairs x \<subseteq> pairs"
    and st: "v1_state rcs pairs tf seen"
  shows "\<exists>d repos' tf' seen'. write_v1_image J i tags repos tf seen = Inr (d, repos', tf', seen') \<and> v1_descriptor x tags d \<and>
    v1_state rcs pairs tf' seen' \<and> grows tf seen tf' seen' \<and>
    entry_of (configFile_name (sha (fst x))) (fst x) \<in> set (tw_entries tf') \<and> set (v1_layer_ids x) \<subseteq> set seen'"
proof -
  from v1_image_layers [OF x(1,2)] obtain cf ls hs where i: "i_ConfigName i = Inr (sha (fst x))" "i_RawConfigFile i = Inr (fst x)"
    "i_ConfigFile i = Inr cf" "i_Layers i = Inr ls" "ls \<noteq> []" "legacy_history cf ls = Inr hs" "length hs = length ls"
    "list_all2 (v1_layer_carries i) ls (snd x)" by blast
  let ?e = "entry_of (configFile_name (sha (fst x))) (fst x)"
  let ?tf = "\<lparr>tw_entries = tw_entries tf @ [?e], tw_missing = 0\<rparr>"
  have w: "writeTarEntry tf (configFile_name (sha (fst x))) (fst x) (int (length (fst x))) = Inr ?tf"
    using st by (simp add: v1_state_def writeTarEntry_ok)
  have st': "v1_state rcs pairs ?tf seen" using st x(3) by (auto simp: v1_state_def v1_entry_def)
  have l: "list_all2 (\<lambda>lh. v1_layer_carries i (fst lh)) (zip ls hs) (snd x)"
    using i(7,8) by (auto simp: list_all2_conv_all_nth)
  have ids: "v1_ids (v1_parent None) (fst x) (map fst (snd x)) = v1_layer_ids x" by (simp add: v1_parent_def v1_layer_ids_def)
  from write_v1_layers_ok [OF J l st', of None "fst x", unfolded ids, OF x(4) [unfolded v1_pairs_def], of cf "[]"] obtain prev' srcs tf' seen' where
    r: "write_v1_layers J i cf (fst x) None (zip ls hs) [] ?tf seen = Inr (map (\<lambda>i. i @ ''/layer.tar'') (v1_layer_ids x), prev', srcs, tf', seen')"
       "zip ls hs \<noteq> [] \<or> None \<noteq> None \<longrightarrow> prev' \<noteq> None" "v1_state rcs pairs tf' seen'" "grows ?tf seen tf' seen'" "set (v1_layer_ids x) \<subseteq> set seen'"
    by blast
  have "zip ls hs \<noteq> []" using i(5,7) by (cases ls; cases hs) auto
  with r(2) obtain l where l: "prev' = Some l" by blast
  have "?e \<in> set (tw_entries tf')" using r(4) by (auto simp: grows_def)
  moreover have "grows tf seen tf' seen'" using r(4) by (auto simp: grows_def)
  ultimately show ?thesis using r(3,5)
    by (simp add: write_v1_image_def i w r(1) l v1_descriptor_def)
qed

lemma write_v1_images_ok:
  assumes J: "\<forall>c. is_ok (lj_layer J c)"
  shows "list_all (\<lambda>(a, _). v1_image E (imgs a) (content a) \<and> clash_free {content a} \<and> fst (content a) \<in> rcs \<and> v1_pairs (content a) \<subseteq> pairs) its \<Longrightarrow>
    v1_state rcs pairs tf seen \<Longrightarrow>
    \<exists>ds repos' tf' seen'. write_v1_images J imgs its m repos tf seen = Inr (m @ ds, repos', tf') \<and>
      list_all2 (\<lambda>(a, tags). v1_descriptor (content a) tags) its ds \<and> v1_state rcs pairs tf' seen' \<and> grows tf seen tf' seen' \<and>
      (\<forall>(a, _)\<in>set its. entry_of (configFile_name (sha (fst (content a)))) (fst (content a)) \<in> set (tw_entries tf') \<and>
                         set (v1_layer_ids (content a)) \<subseteq> set seen')"
proof (induction its arbitrary: m repos tf seen)
  case (Cons it its)
  obtain a tags where it: "it = (a, tags)" by fastforce
  with Cons.prems(1) have x: "v1_image E (imgs a) (content a)" "clash_free {content a}" "fst (content a) \<in> rcs" "v1_pairs (content a) \<subseteq> pairs"
    by simp_all
  from write_v1_image_ok [OF J x Cons.prems(2), of tags repos] obtain d repos1 tf1 seen1 where
    w: "write_v1_image J (imgs a) tags repos tf seen = Inr (d, repos1, tf1, seen1)" "v1_descriptor (content a) tags d"
      "v1_state rcs pairs tf1 seen1" "grows tf seen tf1 seen1" "entry_of (configFile_name (sha (fst (content a)))) (fst (content a)) \<in> set (tw_entries tf1)"
      "set (v1_layer_ids (content a)) \<subseteq> set seen1" by blast
  from Cons.IH [OF _ w(3), of "m @ [d]" repos1] Cons.prems(1) obtain ds repos' tf' seen' where
    r: "write_v1_images J imgs its (m @ [d]) repos1 tf1 seen1 = Inr ((m @ [d]) @ ds, repos', tf')"
      "list_all2 (\<lambda>(a, tags). v1_descriptor (content a) tags) its ds" "v1_state rcs pairs tf' seen'" "grows tf1 seen1 tf' seen'"
      "\<forall>(a, _)\<in>set its. entry_of (configFile_name (sha (fst (content a)))) (fst (content a)) \<in> set (tw_entries tf') \<and>
                         set (v1_layer_ids (content a)) \<subseteq> set seen'" by auto
  have "write_v1_images J imgs (it # its) m repos tf seen = Inr (m @ (d # ds), repos', tf')" by (simp add: it w(1) r(1))
  moreover have "list_all2 (\<lambda>(a, tags). v1_descriptor (content a) tags) (it # its) (d # ds)" using r(2) w(2) it by simp
  moreover have "\<forall>(a, _)\<in>set (it # its). entry_of (configFile_name (sha (fst (content a)))) (fst (content a)) \<in> set (tw_entries tf') \<and>
                         set (v1_layer_ids (content a)) \<subseteq> set seen'"
    using r(4,5) w(5,6) it by (auto simp: grows_def)
  ultimately show ?case using r(3) grows_trans [OF w(4) r(4)] by blast
qed (auto simp: grows_def)

section \<open>The images of the archive\<close>

lemma dedup_spec_mset: "dedup_spec refs m \<Longrightarrow> mset m' = mset m \<Longrightarrow> dedup_spec refs m'"
proof -
  assume d: "dedup_spec refs m" and m: "mset m' = mset m"
  then have "set m' = set m" "distinct (map fst m') = distinct (map fst m)" by (metis set_mset_mset, metis mset_map mset_eq_imp_distinct_iff)
  with d show ?thesis by (simp add: dedup_spec_def)
qed

lemma legacy_dedup:
  assumes "fair_map_order ord"
  shows "dedup_spec refs (legacy_dedupRefToImage imgs ord refs)"
proof -
  let ?ts = "map (\<lambda>(img, tags). (img, sort tags)) (dedupRefToImage ord refs)"
  have "fair_map_order (ord\<lparr>ord_images := id\<rparr>)" using assms by (simp add: fair_map_order_def fair_order_def)
  from dedup_images [OF this, of refs] have "dedup_spec refs (dedupRefToImage ord refs)" by (simp add: dedupRefToImage_def)
  then have "dedup_spec refs ?ts" by (fastforce simp: dedup_spec_def comp_def case_prod_beta image_image)
  moreover have "mset (legacy_dedupRefToImage imgs ord refs) = mset ?ts"
    using assms by (simp add: legacy_dedupRefToImage_def Let_def fair_map_order_def fair_order_def)
  ultimately show ?thesis by (rule dedup_spec_mset)
qed

section \<open>Names of entries\<close>

definition v1_archive :: "tar_entry list \<Rightarrow> bytes \<Rightarrow> bytes \<Rightarrow> tar_entry list" where
  "v1_archive es m r = es @ [entry_of ''manifest.json'' m, entry_of ''repositories'' r]"

lemma v1_names:
  assumes "length i = 64" and "length j = 64"
  shows "i @ ''/layer.tar'' = j @ ''/layer.tar'' \<longleftrightarrow> i = j"
    "i @ ''/layer.tar'' \<noteq> configFile_name (sha b)" "i @ ''/layer.tar'' \<noteq> j @ ''/json''" "i @ ''/layer.tar'' \<noteq> j @ ''/VERSION''"
    "i @ ''/layer.tar'' \<noteq> ''manifest.json''" "i @ ''/layer.tar'' \<noteq> ''repositories''"
    "configFile_name (sha b) \<noteq> i @ ''/json''" "configFile_name (sha b) \<noteq> i @ ''/VERSION''"
    "configFile_name (sha b) \<noteq> ''manifest.json''" "configFile_name (sha b) \<noteq> ''repositories''"
    "''manifest.json'' \<noteq> i @ ''/json''" "''manifest.json'' \<noteq> i @ ''/VERSION''"
    "configFile_name (sha b) = configFile_name (sha c) \<longleftrightarrow> sha b = sha c"
proof -
  have l: "length (configFile_name (sha b)) = 69" for b by (simp add: configFile_name_def)
  show "i @ ''/layer.tar'' = j @ ''/layer.tar'' \<longleftrightarrow> i = j" by simp
  show "configFile_name (sha b) = configFile_name (sha c) \<longleftrightarrow> sha b = sha c" by (simp add: configFile_name_def Hex_sha)
  show "configFile_name (sha b) \<noteq> i @ ''/json''" using assms by (simp add: configFile_name_def)
  show "i @ ''/layer.tar'' \<noteq> configFile_name (sha b)" "i @ ''/layer.tar'' \<noteq> j @ ''/json''" "i @ ''/layer.tar'' \<noteq> j @ ''/VERSION''"
    "i @ ''/layer.tar'' \<noteq> ''manifest.json''" "i @ ''/layer.tar'' \<noteq> ''repositories''" "configFile_name (sha b) \<noteq> i @ ''/VERSION''"
    "configFile_name (sha b) \<noteq> ''manifest.json''" "configFile_name (sha b) \<noteq> ''repositories''"
    "''manifest.json'' \<noteq> i @ ''/json''" "''manifest.json'' \<noteq> i @ ''/VERSION''"
    using assms l [of b] by (auto dest!: arg_cong [where f = length])
qed

lemma v1_archive_cases:
  assumes "\<forall>e\<in>set es. v1_entry rcs pairs e" and "e \<in> set (v1_archive es m r)"
  obtains (config) rc where "rc \<in> rcs" "e = entry_of (configFile_name (sha rc)) rc"
  | (layer) i u where "(i, u) \<in> pairs" "e = entry_of (i @ ''/layer.tar'') u"
  | (json) t b where "e = entry_of (Hex (sha t) @ ''/json'') b"
  | (version) t b where "e = entry_of (Hex (sha t) @ ''/VERSION'') b"
  | (manifest) "e = entry_of ''manifest.json'' m"
  | (repositories) "e = entry_of ''repositories'' r"
  using assms unfolding v1_archive_def v1_entry_def by fastforce

lemma v1_find_layer:
  assumes es: "\<forall>e\<in>set es. v1_entry rcs pairs e" and pl: "\<forall>(i, u)\<in>pairs. length i = 64" and pf: "\<forall>(i, u)\<in>pairs. \<forall>(j, v)\<in>pairs. i = j \<longrightarrow> u = v"
    and iu: "(i, u) \<in> pairs" and e: "entry_of (i @ ''/layer.tar'') u' \<in> set es"  "(i, u') \<in> pairs"
  shows "\<exists>hdr. find (\<lambda>(hdr, _). th_Name hdr = i @ ''/layer.tar'') (v1_archive es m r) = Some (hdr, u)"
proof (rule find_named)
  show "entry_of (i @ ''/layer.tar'') u \<in> set (v1_archive es m r)" using e iu pf by (fastforce simp: v1_archive_def)
  show "written_name (entry_of (i @ ''/layer.tar'') u) = i @ ''/layer.tar''" by simp
  have i: "length i = 64" using iu pl by blast
  note n = v1_names [OF i length_Hex_sha]
  fix x assume x: "x \<in> set (v1_archive es m r)" and nm: "written_name x = i @ ''/layer.tar''"
  from es x show "snd x = u"
  proof (cases rule: v1_archive_cases)
    case (layer j v)
    then have "j = i" using nm pl v1_names(1) [of j i] i by auto
    with layer pf iu show ?thesis by auto
  qed (use nm in \<open>simp_all add: n(2-6) [symmetric]\<close>)
qed

lemma v1_find_config:
  assumes es: "\<forall>e\<in>set es. v1_entry rcs pairs e" and pl: "\<forall>(i, u)\<in>pairs. length i = 64" and inj: "inj_on sha rcs"
    and e: "entry_of (configFile_name (sha rc)) rc \<in> set es" "rc \<in> rcs"
  shows "\<exists>hdr. find (\<lambda>(hdr, _). th_Name hdr = configFile_name (sha rc)) (v1_archive es m r) = Some (hdr, rc)"
proof (rule find_named)
  show "entry_of (configFile_name (sha rc)) rc \<in> set (v1_archive es m r)" using e by (simp add: v1_archive_def)
  show "written_name (entry_of (configFile_name (sha rc)) rc) = configFile_name (sha rc)" by simp
  note n = v1_names [OF length_Hex_sha length_Hex_sha]
  fix x assume x: "x \<in> set (v1_archive es m r)" and nm: "written_name x = configFile_name (sha rc)"
  from es x show "snd x = rc"
  proof (cases rule: v1_archive_cases)
    case (config rc')
    with nm inj e(2) show ?thesis by (auto simp: n(13) dest: inj_onD)
  next
    case (layer j v)
    then have "length j = 64" using pl by blast
    with layer nm v1_names(2) [of j j rc] show ?thesis by simp
  qed (use nm in \<open>simp_all add: n(7-10) [symmetric]\<close>)
qed

lemma v1_find_manifest:
  assumes es: "\<forall>e\<in>set es. v1_entry rcs pairs e" and pl: "\<forall>(i, u)\<in>pairs. length i = 64"
  shows "\<exists>hdr. find (\<lambda>(hdr, _). th_Name hdr = ''manifest.json'') (v1_archive es m r) = Some (hdr, m)"
proof (rule find_named)
  show "entry_of ''manifest.json'' m \<in> set (v1_archive es m r)" by (simp add: v1_archive_def)
  show "written_name (entry_of ''manifest.json'' m) = ''manifest.json''" by simp
  note n = v1_names [OF length_Hex_sha length_Hex_sha]
  fix x assume x: "x \<in> set (v1_archive es m r)" and nm: "written_name x = ''manifest.json''"
  from es x show "snd x = m"
  proof (cases rule: v1_archive_cases)
    case (layer j v)
    then have "length j = 64" using pl by blast
    with layer nm v1_names(5) [of j j] show ?thesis by simp
  qed (use nm in \<open>simp_all add: n(9,11,12) n(11,12) [symmetric]\<close>)
qed

section \<open>Writing and reading back\<close>

lemma v1_pairs_elim:
  assumes "(i, u) \<in> v1_pairs x"
  obtains c q r where "(c, u) \<in> set (snd x)" "i = Hex (sha (v1_text q r c))" "v1_text q r c \<in> set (v1_texts '''' (fst x) (map fst (snd x)))"
proof -
  from assms obtain k where k: "k < length (snd x)" "i = v1_layer_ids x ! k" "u = snd (snd x ! k)"
    by (auto simp: v1_pairs_def set_zip v1_layer_ids_def)
  let ?cs = "map fst (snd x)"
  have "(i, ?cs ! k) \<in> set (zip (v1_ids '''' (fst x) ?cs) ?cs)" using k by (auto simp: set_zip v1_layer_ids_def)
  from v1_ids_text [OF this] obtain q r where "i = Hex (sha (v1_text q r (?cs ! k)))" "v1_text q r (?cs ! k) \<in> set (v1_texts '''' (fst x) ?cs)" by blast
  moreover have "(?cs ! k, u) \<in> set (snd x)" using k by (auto simp: in_set_conv_nth)
  ultimately show thesis by (rule that [rotated])
qed

lemma v1_pairs_functional:
  assumes "clash_free X" and "x \<in> X" and "y \<in> X"
    and "\<forall>cu\<in>set (snd x). gunzip E (fst cu) = Inr (snd cu)" and "\<forall>cu\<in>set (snd y). gunzip E (fst cu) = Inr (snd cu)"
    and "(i, u) \<in> v1_pairs x" and "(i, v) \<in> v1_pairs y"
  shows "u = v"
proof -
  let ?C = "\<Union>x\<in>X. insert (fst x) (fst ` set (snd x))" and ?T = "\<Union>x\<in>X. set (v1_texts '''' (fst x) (map fst (snd x)))"
  from assms(6) obtain c q r where c: "(c, u) \<in> set (snd x)" "i = Hex (sha (v1_text q r c))"
    "v1_text q r c \<in> set (v1_texts '''' (fst x) (map fst (snd x)))" by (rule v1_pairs_elim)
  from assms(7) obtain d p s where d: "(d, v) \<in> set (snd y)" "i = Hex (sha (v1_text p s d))"
    "v1_text p s d \<in> set (v1_texts '''' (fst y) (map fst (snd y)))" by (rule v1_pairs_elim)
  have inj: "inj_on sha ?C" "inj_on sha ?T" using assms(1) by (simp_all add: clash_free_def)
  have "v1_text q r c \<in> ?T" "v1_text p s d \<in> ?T" using assms(2,3) c(3) d(3) by blast+
  moreover have "sha (v1_text q r c) = sha (v1_text p s d)" using c(2) d(2) by (simp add: Hex_sha)
  ultimately have "v1_text q r c = v1_text p s d" using inj(2) by (meson inj_onD)
  then have "sha c = sha d" by (rule v1_text_content)
  moreover have "c \<in> fst ` set (snd x)" "d \<in> fst ` set (snd y)" using c(1) d(1) by (force, force)
  then have "c \<in> ?C" "d \<in> ?C" using assms(2,3) by blast+
  ultimately have "c = d" using inj(1) by (meson inj_onD)
  with assms(4,5) c(1) d(1) show ?thesis by fastforce
qed

lemma v1_pairs_length: "(i, u) \<in> v1_pairs x \<Longrightarrow> length i = 64"
  by (erule v1_pairs_elim) simp

text \<open>The image that is read from the files of an archive.\<close>

lemma v1_image_read:
  assumes x: "v1_image E i x" "clash_free {x}"
    and d: "v1_descriptor x tags d" and td: "findDescriptor tm t = Inr d"
    and man: "extractFileFromTar E (Inr a) ''manifest.json'' = Inr mb" "tj_decode TJ mb = Inr (Some tm)"
    and cfg: "extractFileFromTar E (Inr a) (configFile_name (sha (fst x))) = Inr (fst x)"
    and lay: "\<forall>(i, u)\<in>v1_pairs x. extractFileFromTar E (Inr a) (i @ ''/layer.tar'') = Inr u"
  shows "\<exists>j ls. tarball_Image E TJ (Inr a) t = Inr j \<and> i_RawConfigFile j = Inr (fst x) \<and> i_ConfigName j = Inr (sha (fst x)) \<and>
    i_Layers j = Inr ls \<and> map l_Uncompressed ls = map (\<lambda>cu. Inr (snd cu)) (snd x) \<and> map l_DiffID ls = map (\<lambda>cu. Inr (sha (snd cu))) (snd x)"
proof -
  from v1_image_layers [OF x] obtain cf ls0 where cf: "decode_config E (fst x) = Inr cf" "rf_DiffIDs (cf_RootFS cf) = map (\<lambda>cu. sha (snd cu)) (snd x)"
    and ne: "ls0 \<noteq> []" "list_all2 (v1_layer_carries i) ls0 (snd x)" by blast
  have nx: "snd x \<noteq> []" using ne by auto
  let ?ids = "v1_layer_ids x"
  have len: "length ?ids = length (snd x)" by (simp add: v1_layer_ids_def)
  have fl: "extractFileFromTar E (Inr a) (?ids ! k @ ''/layer.tar'') = Inr (snd (snd x ! k))" if "k < length (snd x)" for k
  proof -
    have "(?ids ! k, snd (snd x ! k)) \<in> v1_pairs x" using that len by (auto simp: v1_pairs_def set_zip)
    with lay show ?thesis by blast
  qed
  let ?ti = "\<lparr>ti_opener = Inr a, ti_config = fst x, ti_imgDescriptor = d\<rparr>"
  have dl: "td_Layers d = map (\<lambda>i. i @ ''/layer.tar'') ?ids" using d by (simp add: v1_descriptor_def)
  have load: "loadTarDescriptorAndConfig E TJ (Inr a) t = Inr ?ti"
    using man td cfg d by (simp add: loadTarDescriptorAndConfig_def v1_descriptor_def)
  have "areLayersCompressed E ?ti = Inr False"
  proof -
    obtain p ps where ps: "?ids = p # ps" using nx len by (cases ?ids) auto
    have "0 < length (snd x)" using nx by simp
    from fl [OF this] ps have "extractFileFromTar E (Inr a) (p @ ''/layer.tar'') = Inr (snd (snd x ! 0))" by simp
    moreover have "2 < length (snd (snd x ! 0)) \<and> take 2 (snd (snd x ! 0)) \<noteq> gzipMagicHeader"
      using x(1) nx by (auto simp: v1_image_def list_all_iff)
    ultimately show ?thesis by (simp add: areLayersCompressed_def dl ps tar_first_read_def IsGzipped_def)
  qed
  with load have img: "tarball_Image E TJ (Inr a) t = Inr (UncompressedToImage E (uncompressedImage_core E ?ti))"
    by (auto simp: tarball_Image_def)
  have one: "\<exists>l. uie_LayerByDiffID E (uncompressedImage_core E ?ti) (sha (snd cu)) = Inr l \<and>
      l_Uncompressed l = Inr (snd cu) \<and> l_DiffID l = Inr (sha (snd cu))" if cu: "cu \<in> set (snd x)" for cu
  proof -
    have "sha (snd cu) \<in> set (rf_DiffIDs (cf_RootFS cf))" using cu by (auto simp: cf(2))
    from find_index_found [OF this] obtain j where j: "j < length (snd x)" "find_index (map (\<lambda>cu. sha (snd cu)) (snd x)) (sha (snd cu)) = Some j"
      "sha (snd (snd x ! j)) = sha (snd cu)" by (auto simp: cf(2))
    have "snd (snd x ! j) \<in> snd ` set (snd x)" "snd cu \<in> snd ` set (snd x)" using j(1) cu by auto
    with j(3) x(2) have same: "snd (snd x ! j) = snd cu" by (auto simp: clash_free_def dest: inj_onD)
    have ix: "index_res (td_Layers d) j = Inr (?ids ! j @ ''/layer.tar'')" using j(1) len by (simp add: dl index_res_def)
    show ?thesis using fl [OF j(1)] j(2) ix same cf
      by (auto simp: uie_LayerByDiffID_def uncompressedImage_core_def uncompressedImage_LayerByDiffID_def partial_ConfigFile_def ParseConfigFile_def
          uncompressedLayerFromTarball_def UncompressedToLayer_def split: option.splits)
  qed
  then obtain g where g: "\<And>cu. cu \<in> set (snd x) \<Longrightarrow> uie_LayerByDiffID E (uncompressedImage_core E ?ti) (sha (snd cu)) = Inr (g cu) \<and>
      l_Uncompressed (g cu) = Inr (snd cu) \<and> l_DiffID (g cu) = Inr (sha (snd cu))" by metis
  have "map_res (uie_LayerByDiffID E (uncompressedImage_core E ?ti)) (map (\<lambda>cu. sha (snd cu)) cus) = Inr (map g cus)" if "set cus \<subseteq> set (snd x)" for cus
    using that g by (induction cus) simp_all
  then have "i_Layers (UncompressedToImage E (uncompressedImage_core E ?ti)) = Inr (map g (snd x))"
    using cf by (simp add: UncompressedToImage_def Let_def uie_Layers_def partial_DiffIDs_def uncompressedImage_core_def [of E ?ti] partial_ConfigFile_def ParseConfigFile_def)
  moreover have "i_RawConfigFile (UncompressedToImage E (uncompressedImage_core E ?ti)) = Inr (fst x)"
    "i_ConfigName (UncompressedToImage E (uncompressedImage_core E ?ti)) = Inr (sha (fst x))"
    by (simp_all add: UncompressedToImage_def Let_def uncompressedImage_core_def partial_ConfigName_def sha_def)
  ultimately show ?thesis using img g by (intro exI conjI) auto
qed

lemma v1_written:
  assumes ord: "fair_map_order ord" and im: "v1_images E imgs content refs" and J: "\<forall>c. is_ok (lj_layer J c)"
  shows "\<exists>m r es rcs pairs repos tf. write_v1_images J imgs (legacy_dedupRefToImage imgs ord refs) [] Map.empty tar_NewWriter [] = Inr (m, repos, tf) \<and> legacy_MultiWrite E TJ J imgs ord refs = mktar E (v1_archive es (tj_marshal TJ m) r) \<and>
    (\<forall>e\<in>set es. v1_entry rcs pairs e) \<and> inj_on sha rcs \<and> (\<forall>(i, u)\<in>pairs. length i = 64) \<and>
    (\<forall>(i, u)\<in>pairs. \<forall>(j, v)\<in>pairs. i = j \<longrightarrow> u = v) \<and>
    list_all2 (\<lambda>(a, tags). v1_descriptor (content a) tags) (legacy_dedupRefToImage imgs ord refs) m \<and>
    (\<forall>a\<in>snd ` set refs. fst (content a) \<in> rcs \<and> entry_of (configFile_name (sha (fst (content a)))) (fst (content a)) \<in> set es \<and>
       (\<forall>(i, u)\<in>v1_pairs (content a). (i, u) \<in> pairs \<and> (\<exists>u'. (i, u') \<in> pairs \<and> entry_of (i @ ''/layer.tar'') u' \<in> set es)))"
proof -
  let ?A = "snd ` set refs" and ?its = "legacy_dedupRefToImage imgs ord refs"
  define rcs where "rcs = (\<lambda>a. fst (content a)) ` ?A"
  define pairs where "pairs = (\<Union>a\<in>?A. v1_pairs (content a))"
  have dom: "fst ` set ?its = ?A" using legacy_dedup [OF ord, of refs imgs] by (simp add: dedup_spec_def)
  have inj: "clash_free (content ` ?A)" and ok: "\<And>a. a \<in> ?A \<Longrightarrow> v1_image E (imgs a) (content a)" using im unfolding v1_images_def by (blast, blast)
  have injx: "clash_free {content a}" if "a \<in> ?A" for a by (rule clash_free_subset [OF inj]) (use that in simp)
  have gz: "\<forall>cu\<in>set (snd (content a)). gunzip E (fst cu) = Inr (snd cu)" if "a \<in> ?A" for a
    using v1_image_layers [OF ok [OF that] injx [OF that]] by blast
  have len: "\<forall>(i, u)\<in>pairs. length i = 64" by (auto simp: pairs_def dest: v1_pairs_length)
  have pf: "\<forall>(i, u)\<in>pairs. \<forall>(j, v)\<in>pairs. i = j \<longrightarrow> u = v"
    using v1_pairs_functional [OF inj imageI imageI gz gz] unfolding pairs_def by blast
  have irc: "inj_on sha rcs" using inj by (auto simp: clash_free_def rcs_def intro: inj_on_subset)
  have la: "list_all (\<lambda>(a, _). v1_image E (imgs a) (content a) \<and> clash_free {content a} \<and> fst (content a) \<in> rcs \<and> v1_pairs (content a) \<subseteq> pairs) ?its"
  proof -
    have "v1_image E (imgs a) (content a) \<and> clash_free {content a} \<and> fst (content a) \<in> rcs \<and> v1_pairs (content a) \<subseteq> pairs"
      if "(a, tags) \<in> set ?its" for a tags
    proof -
      have "a \<in> ?A" using that dom by force
      with ok injx show ?thesis unfolding rcs_def pairs_def by blast
    qed
    then show ?thesis by (auto simp: list_all_iff)
  qed
  have st: "v1_state rcs pairs tar_NewWriter []" by (simp add: v1_state_def tar_NewWriter_def)
  from write_v1_images_ok [OF J la st, of "[]" Map.empty, unfolded append_Nil] obtain ds repos' tf' seen' where w: "write_v1_images J imgs ?its [] Map.empty tar_NewWriter [] = Inr (ds, repos', tf')"
    "list_all2 (\<lambda>(a, tags). v1_descriptor (content a) tags) ?its ds" "v1_state rcs pairs tf' seen'"
    "\<forall>(a, _)\<in>set ?its. entry_of (configFile_name (sha (fst (content a)))) (fst (content a)) \<in> set (tw_entries tf') \<and>
                         set (v1_layer_ids (content a)) \<subseteq> set seen'"
    by blast
  let ?r = "lj_repositories J repos'"
  have "legacy_MultiWrite E TJ J imgs ord refs = mktar E (v1_archive (tw_entries tf') (tj_marshal TJ ds) ?r)"
    using w(1,3) by (simp add: legacy_MultiWrite_def v1_state_def Let_def writeTarEntry_ok tar_Close_def v1_archive_def)
  moreover have "fst (content a) \<in> rcs \<and> entry_of (configFile_name (sha (fst (content a)))) (fst (content a)) \<in> set (tw_entries tf') \<and>
       (\<forall>(i, u)\<in>v1_pairs (content a). (i, u) \<in> pairs \<and> (\<exists>u'. (i, u') \<in> pairs \<and> entry_of (i @ ''/layer.tar'') u' \<in> set (tw_entries tf')))"
    if a: "a \<in> ?A" for a
  proof -
    from a dom obtain tags where it: "(a, tags) \<in> set ?its" by force
    have s: "\<exists>u'. (i, u') \<in> pairs \<and> entry_of (i @ ''/layer.tar'') u' \<in> set (tw_entries tf')" if "(i, u) \<in> v1_pairs (content a)" for i u
    proof -
      have "i \<in> set (v1_layer_ids (content a))" using that by (auto simp: v1_pairs_def dest: set_zip_leftD)
      with w(4) it have "i \<in> set seen'" by blast
      with w(3) show ?thesis by (simp add: v1_state_def)
    qed
    have "fst (content a) \<in> rcs" "v1_pairs (content a) \<subseteq> pairs" using a by (auto simp: rcs_def pairs_def)
    with w(4) it s show ?thesis by blast
  qed
  moreover have "\<forall>e\<in>set (tw_entries tf'). v1_entry rcs pairs e" using w(3) by (simp add: v1_state_def)
  ultimately show ?thesis using irc len pf w(1,2) by blast
qed

text \<open>
  C29. A legacy archive of coherent images that have layers, without collisions of hashes, is written whatever the order in which
  maps are gone through; and where its entries are read as they were written, tarball.Image gives, for each tag, an image with the config file of the one written and
  the contents of its layers.
\<close>

theorem legacy_write_read:
  assumes "fair_map_order ord" and "v1_images E imgs content refs" and "tags_readable refs"
    and "\<forall>c. is_ok (lj_layer J c)"
    and "\<forall>m repos tf. write_v1_images J imgs (legacy_dedupRefToImage imgs ord refs) [] Map.empty tar_NewWriter [] = Inr (m, repos, tf) \<longrightarrow>
      tj_decode TJ (tj_marshal TJ m) = Inr (Some m)"
  shows "\<exists>es. legacy_MultiWrite E TJ J imgs ord refs = mktar E es \<and>
    (\<forall>a t y. mktar E es = Inr a \<longrightarrow> untar E a = (es, None) \<longrightarrow> (RefTag t, y) \<in> set refs \<longrightarrow>
       (\<exists>j ls. tarball_Image E TJ (Inr a) (Some t) = Inr j \<and> i_RawConfigFile j = Inr (fst (content y)) \<and>
          i_ConfigName j = Inr (sha (fst (content y))) \<and> i_Layers j = Inr ls \<and>
          map l_Uncompressed ls = map (\<lambda>cu. Inr (snd cu)) (snd (content y)) \<and>
          map l_DiffID ls = map (\<lambda>cu. Inr (sha (snd cu))) (snd (content y))))"
proof -
  let ?its = "legacy_dedupRefToImage imgs ord refs"
  from v1_written [OF assms(1,2,4), of TJ] obtain m r es rcs pairs repos tf where
    wm: "write_v1_images J imgs ?its [] Map.empty tar_NewWriter [] = Inr (m, repos, tf)" and
    w: "legacy_MultiWrite E TJ J imgs ord refs = mktar E (v1_archive es (tj_marshal TJ m) r)"
    and es: "\<forall>e\<in>set es. v1_entry rcs pairs e" and inj: "inj_on sha rcs" and len: "\<forall>(i, u)\<in>pairs. length i = 64"
    and pf: "\<forall>(i, u)\<in>pairs. \<forall>(j, v)\<in>pairs. i = j \<longrightarrow> u = v"
    and ds: "list_all2 (\<lambda>(a, tags). v1_descriptor (content a) tags) ?its m"
    and at: "\<forall>a\<in>snd ` set refs. fst (content a) \<in> rcs \<and> entry_of (configFile_name (sha (fst (content a)))) (fst (content a)) \<in> set es \<and>
       (\<forall>(i, u)\<in>v1_pairs (content a). (i, u) \<in> pairs \<and> (\<exists>u'. (i, u') \<in> pairs \<and> entry_of (i @ ''/layer.tar'') u' \<in> set es))"
    by (elim exE conjE) (rule that)
  let ?es = "v1_archive es (tj_marshal TJ m) r"
  have "\<exists>j ls. tarball_Image E TJ (Inr a) (Some t) = Inr j \<and> i_RawConfigFile j = Inr (fst (content y)) \<and>
          i_ConfigName j = Inr (sha (fst (content y))) \<and> i_Layers j = Inr ls \<and>
          map l_Uncompressed ls = map (\<lambda>cu. Inr (snd cu)) (snd (content y)) \<and>
          map l_DiffID ls = map (\<lambda>cu. Inr (sha (snd cu))) (snd (content y))"
    if un: "untar E a = (?es, None)" and ty: "(RefTag t, y) \<in> set refs" for a t y
  proof -
    from ty have y: "y \<in> snd ` set refs" by force
    have x: "v1_image E (imgs y) (content y)" using assms(2) y unfolding v1_images_def by blast
    have x2: "clash_free {content y}"
      by (rule clash_free_subset [OF conjunct2 [OF assms(2) [unfolded v1_images_def]]]) (use y in blast)
    have "\<exists>d tags. findDescriptor m (Some t) = Inr d \<and> d \<in> set m \<and> v1_descriptor (content y) tags d"
    proof (rule find_described [OF legacy_dedup [OF assms(1)] assms(3) ty])
      show "\<forall>(b, tags)\<in>set ?its. \<exists>d\<in>set m. v1_descriptor (content b) tags d"
        using ds by (fastforce simp: list_all2_conv_all_nth in_set_conv_nth)
      show "\<forall>d\<in>set m. \<exists>(b, tags)\<in>set ?its. v1_descriptor (content b) tags d"
        using ds by (fastforce simp: list_all2_conv_all_nth in_set_conv_nth)
      show "\<forall>b tags d. v1_descriptor (content b) tags d \<longrightarrow> td_RepoTags d = tags" by (simp add: v1_descriptor_def)
    qed
    then obtain d tags where d: "findDescriptor m (Some t) = Inr d" "v1_descriptor (content y) tags d" by blast
    have lay: "\<forall>(i, u)\<in>v1_pairs (content y). extractFileFromTar E (Inr a) (i @ ''/layer.tar'') = Inr u"
    proof clarify
      fix i u assume iu: "(i, u) \<in> v1_pairs (content y)"
      with bspec [OF at y] obtain u' where "(i, u) \<in> pairs" "(i, u') \<in> pairs" "entry_of (i @ ''/layer.tar'') u' \<in> set es" by blast
      from v1_find_layer [OF es len pf this(1,3,2), of "tj_marshal TJ m" r] show "extractFileFromTar E (Inr a) (i @ ''/layer.tar'') = Inr u"
        by (rule extract_found [OF un])
    qed
    show ?thesis
      using v1_image_read [OF x x2 d(2,1) extract_found [OF un v1_find_manifest [OF es len]] _ extract_found [OF un v1_find_config [OF es len inj]] lay]
        assms(5) wm bspec [OF at y] by blast
  qed
  with w show ?thesis by blast
qed

section \<open>An image without layers\<close>

text \<open>Its tags are to point to the topmost layer, and there is none: the code dereferences a nil pointer.\<close>

lemma no_layers_panics:
  assumes "i_ConfigName i = Inr h" and "i_RawConfigFile i = Inr rc" and "i_ConfigFile i = Inr cf" and "i_Layers i = Inr []"
    and "filterEmpty (cf_History cf) = []"
  shows "legacy_Write E TJ J \<lparr>ord_refs = id, ord_images = id\<rparr> ref i = Inl nil_deref"
  using assms
  by (cases ref) (simp_all add: legacy_Write_def legacy_MultiWrite_def legacy_dedupRefToImage_def dedupRefToImage_def dedup_add_def Let_def
      write_v1_image_def writeTarEntry_ok tar_NewWriter_def legacy_history_def is_ok_def)

section \<open>An archive of one image\<close>

definition v1_demo_text :: bytes where
  "v1_demo_text = v1_text '''' demo_content demo_content"

definition v1_demo_entries :: "tar_entry list" where
  "v1_demo_entries =
     [entry_of (configFile_name (sha demo_content)) demo_content,
      entry_of (Hex (sha v1_demo_text) @ ''/layer.tar'') ''abc'', entry_of (Hex (sha v1_demo_text) @ ''/json'') ''c'',
      entry_of (Hex (sha v1_demo_text) @ ''/VERSION'') ''1.0'', entry_of ''manifest.json'' ''j'', entry_of ''repositories'' ''r'']"

definition v1_demo_codec :: codec where
  "v1_demo_codec = (archive_codec (\<lambda>es. if es = v1_demo_entries then Inr ''t'' else Inl ErrEOF))\<lparr>untar := (\<lambda>_. (v1_demo_entries, None))\<rparr>"

text \<open>What unpacks archives plays no part in an image.\<close>

lemma untar_irrelevant:
  "cle_Uncompressed (E\<lparr>untar := f\<rparr>) cl = cle_Uncompressed E cl" "wf_layer (E\<lparr>untar := f\<rparr>) = wf_layer E"
  by (simp_all add: cle_Uncompressed_def GunzipReadCloser_def wf_layer_def fun_eq_iff split: sum.splits)

lemma untar_image: "CompressedToImage (E\<lparr>untar := f\<rparr>) core = CompressedToImage E core"
proof -
  have "CompressedToLayer (E\<lparr>untar := f\<rparr>) = CompressedToLayer E"
    by (simp add: CompressedToLayer_def cle_DiffID_def untar_irrelevant fun_eq_iff split: option.splits)
  then have "cie_LayerByDigest (E\<lparr>untar := f\<rparr>) core = cie_LayerByDigest E core"
    by (intro ext) (simp add: cie_LayerByDigest_def)
  then show ?thesis
    by (simp add: CompressedToImage_def cie_Layers_def cie_LayerByDiffID_def [abs_def] partial_Manifest_def ParseManifest_def
        partial_ConfigFile_def ParseConfigFile_def)
qed

lemma untar_parts: "coherent_parts (E\<lparr>untar := f\<rparr>) = coherent_parts E"
proof -
  have l: "layer_matches (E\<lparr>untar := f\<rparr>) = layer_matches E" by (intro ext) (simp add: layer_matches_def untar_irrelevant)
  have "found_by_diffid (E\<lparr>untar := f\<rparr>) = found_by_diffid E" by (intro ext) (simp add: found_by_diffid_def l split: sum.splits)
  with l show ?thesis by (intro ext) (simp add: coherent_parts_def)
qed

abbreviation v1_demo_image :: "nat \<Rightarrow> image" where
  "v1_demo_image \<equiv> (\<lambda>_. CompressedToImage v1_demo_codec demo_core)"

abbreviation v1_demo_content :: "bytes \<times> (bytes \<times> bytes) list" where
  "v1_demo_content \<equiv> (demo_content, [(demo_content, ''abc'')])"

definition v1_demo_tar_descriptor :: tar_descriptor where
  "v1_demo_tar_descriptor = \<lparr>td_Config = configFile_name (sha demo_content), td_RepoTags = [''app:v1''],
     td_Layers = [Hex (sha v1_demo_text) @ ''/layer.tar''], td_LayerSources = []\<rparr>"

definition v1_demo_json :: tarball_json where
  "v1_demo_json = \<lparr>tj_marshal = (\<lambda>_. ''j''), tj_decode = (\<lambda>_. Inr (Some [v1_demo_tar_descriptor]))\<rparr>"

definition v1_demo_legacy_json :: legacy_json where
  "v1_demo_legacy_json = \<lparr>lj_layer = (\<lambda>_. Inr ''c''), lj_repositories = (\<lambda>_. ''r'')\<rparr>"

lemma v1_demo_parts:
  "\<exists>l. coherent_parts v1_demo_codec (v1_demo_image 0) demo_content demo_config_file ''0'' demo_archive_manifest [l] \<and>
     l_Compressed l = Inr demo_content \<and> l_Uncompressed l = Inr ''abc'' \<and> l_UncompressedSize l = None \<and> l_Digest l = Inr (sha demo_content)"
proof -
  let ?mk = "\<lambda>es. if es = v1_demo_entries then Inr ''t'' else Inl ErrEOF"
  from demo_parts [of ?mk] obtain ls where p: "coherent_parts v1_demo_codec (v1_demo_image 0) demo_content demo_config_file ''0'' demo_archive_manifest ls"
    by (auto simp: v1_demo_codec_def untar_parts untar_image)
  then have "cie_Layers v1_demo_codec demo_core = Inr ls" by (simp add: coherent_parts_def CompressedToImage_def)
  then obtain l where l: "ls = [l]" "l_Compressed l = Inr demo_content" "l_UncompressedSize l = None" "l_Digest l = Inr (sha demo_content)"
    by (auto simp: cie_Layers_def FSLayers_def partial_Manifest_def ParseManifest_def demo_core_def v1_demo_codec_def demo_archive_decode demo_archive_manifest_def
        cie_LayerByDigest_def CompressedToLayer_def)
  with p have "wf_layer v1_demo_codec l" by (auto simp: coherent_parts_def layer_matches_def demo_archive_manifest_def list_all2_Cons1)
  with l(2) have "l_Uncompressed l = Inr ''abc''" by (auto simp: wf_layer_def v1_demo_codec_def demo_archive_decode split: sum.splits)
  with p l show ?thesis by blast
qed

lemma demo_history: "legacy_history demo_config_file [l] = Inr [zero_history]"
  by (simp add: legacy_history_def filterEmpty_def demo_config_file_def zero_config_file_def)

lemma v1_demo_images: "v1_images v1_demo_codec v1_demo_image (\<lambda>_. v1_demo_content) demo_refs"
proof -
  from v1_demo_parts obtain l where l: "coherent_parts v1_demo_codec (v1_demo_image 0) demo_content demo_config_file ''0'' demo_archive_manifest [l]"
     "l_Compressed l = Inr demo_content" "l_Uncompressed l = Inr ''abc''" "l_UncompressedSize l = None" by blast
  have "v1_image v1_demo_codec (v1_demo_image 0) v1_demo_content"
    unfolding v1_image_def using l
    by (intro conjI exI [of _ demo_config_file] exI [of _ "''0''"] exI [of _ demo_archive_manifest] exI [of _ "[l]"])
       (simp_all add: UncompressedSize_def demo_history is_ok_def gzipMagicHeader_def)
  then show ?thesis by (simp add: v1_images_def clash_free_def demo_refs_def Let_def)
qed

lemma v1_demo_tags: "legacy_dedupRefToImage v1_demo_image demo_order demo_refs = [(0, [''app:v1''])]"
  by (simp add: legacy_dedupRefToImage_def demo_order_def demo_refs_def dedupRefToImage_def dedup_add_def demo_tag_def Tag_String_def Let_def)

lemma v1_demo_written:
  "\<exists>repos. write_v1_images v1_demo_legacy_json v1_demo_image [(0, [''app:v1''])] [] Map.empty tar_NewWriter [] =
     Inr ([v1_demo_tar_descriptor], repos, \<lparr>tw_entries = butlast (butlast v1_demo_entries), tw_missing = 0\<rparr>)"
proof -
  from v1_demo_parts obtain l where l: "coherent_parts v1_demo_codec (v1_demo_image 0) demo_content demo_config_file ''0'' demo_archive_manifest [l]"
     "l_Uncompressed l = Inr ''abc''" "l_UncompressedSize l = None" "l_Digest l = Inr (sha demo_content)" by blast
  then have i: "i_ConfigName (v1_demo_image 0) = Inr (sha demo_content)" "i_RawConfigFile (v1_demo_image 0) = Inr demo_content"
    "i_ConfigFile (v1_demo_image 0) = Inr demo_config_file" "i_Layers (v1_demo_image 0) = Inr [l]" "i_Manifest (v1_demo_image 0) = Inr demo_archive_manifest"
    by (simp_all add: coherent_parts_def)
  have s: "updateLayerSources [] l (v1_demo_image 0) = Inr []"
    by (simp add: updateLayerSources_def l(4) i BlobDescriptor_def demo_archive_manifest_def tar_empty_manifest_def demo_sha IsDistributable_def media_type_defs)
  from newTopV1Layer_ok [OF l(4), of None zero_history demo_config_file demo_content] obtain cur where
    c: "newTopV1Layer l None zero_history demo_config_file demo_content = Inr cur" "lc_ID (v1l_config cur) = Hex (sha v1_demo_text)" "v1l_layer cur = l"
    by (auto simp: v1_parent_def v1_demo_text_def)
  have v: "int (length ''1.0'') = 3" "int (length ''abc'') = 3" "int (length ''c'') = 1" by simp_all
  show ?thesis
    using writeTarEntry_ok [where c = "''1.0''", unfolded v] writeTarEntry_ok [where c = "''abc''", unfolded v] writeTarEntry_ok [where c = "''c''", unfolded v]
    by (simp add: write_v1_image_def i writeTarEntry_ok tar_NewWriter_def demo_history s c write_v1_layer_def Let_def l UncompressedSize_def
        v1Layer_json_def v1Layer_version_def v1_demo_legacy_json_def v1_demo_entries_def v1_demo_tar_descriptor_def)
qed

theorem legacy_write_read_witness:
  "\<exists>j ls. legacy_MultiWrite v1_demo_codec v1_demo_json v1_demo_legacy_json v1_demo_image demo_order demo_refs = Inr ''t'' \<and>
     tarball_Image v1_demo_codec v1_demo_json (Inr ''t'') (Some demo_tag) = Inr j \<and> i_RawConfigFile j = Inr demo_content \<and>
     i_Layers j = Inr ls \<and> map l_Uncompressed ls = [Inr ''abc'']"
proof -
  have J: "\<forall>c. is_ok (lj_layer v1_demo_legacy_json c)" by (simp add: v1_demo_legacy_json_def is_ok_def)
  have D: "\<forall>m repos tf. write_v1_images v1_demo_legacy_json v1_demo_image (legacy_dedupRefToImage v1_demo_image demo_order demo_refs) [] Map.empty tar_NewWriter [] =
      Inr (m, repos, tf) \<longrightarrow> tj_decode v1_demo_json (tj_marshal v1_demo_json m) = Inr (Some m)"
    using v1_demo_written by (auto simp: v1_demo_tags v1_demo_json_def)
  from legacy_write_read [OF demo_fair v1_demo_images demo_readable J D] obtain es where
    es: "legacy_MultiWrite v1_demo_codec v1_demo_json v1_demo_legacy_json v1_demo_image demo_order demo_refs = mktar v1_demo_codec es"
    and rd: "\<forall>a t y. mktar v1_demo_codec es = Inr a \<longrightarrow> untar v1_demo_codec a = (es, None) \<longrightarrow> (RefTag t, y) \<in> set demo_refs \<longrightarrow>
       (\<exists>j ls. tarball_Image v1_demo_codec v1_demo_json (Inr a) (Some t) = Inr j \<and> i_RawConfigFile j = Inr (fst v1_demo_content) \<and>
          i_ConfigName j = Inr (sha (fst v1_demo_content)) \<and> i_Layers j = Inr ls \<and>
          map l_Uncompressed ls = map (\<lambda>cu. Inr (snd cu)) (snd v1_demo_content) \<and>
          map l_DiffID ls = map (\<lambda>cu. Inr (sha (snd cu))) (snd v1_demo_content))" by blast
  have v: "int (length ''j'') = 1" "int (length ''r'') = 1" by simp_all
  have "legacy_MultiWrite v1_demo_codec v1_demo_json v1_demo_legacy_json v1_demo_image demo_order demo_refs = mktar v1_demo_codec v1_demo_entries"
    using v1_demo_written writeTarEntry_ok [where c = "''j''", unfolded v] writeTarEntry_ok [where c = "''r''", unfolded v]
    by (auto simp: legacy_MultiWrite_def v1_demo_tags Let_def v1_demo_json_def v1_demo_legacy_json_def tar_Close_def v1_demo_entries_def)
  moreover have "mktar v1_demo_codec = (\<lambda>es. if es = v1_demo_entries then Inr ''t'' else Inl ErrEOF)"
    by (simp add: v1_demo_codec_def demo_archive_decode)
  ultimately have w: "mktar v1_demo_codec es = Inr ''t''" "es = v1_demo_entries" using es by (simp_all split: if_splits)
  have "untar v1_demo_codec ''t'' = (es, None)" by (simp add: v1_demo_codec_def w(2))
  with rd w(1) have "\<exists>j ls. tarball_Image v1_demo_codec v1_demo_json (Inr ''t'') (Some demo_tag) = Inr j \<and> i_RawConfigFile j = Inr demo_content \<and>
      i_Layers j = Inr ls \<and> map l_Uncompressed ls = [Inr ''abc'']" by (fastforce simp: demo_refs_def)
  with es w(1) show ?thesis by simp
qed

end
