(* ===== verification/Transport_Wrappers.thy ===== *)
theory Transport_Wrappers
  imports Transport
begin

text \<open>
  Transports around others: the logger, which hides credentials and bodies (logger.go, pkg/internal/redact; logger_hides_credentials,
  logger_hides_bodies, logger_transparent), the options of the retrying transport (retry.go), and the version in the user agent (useragent.go).
\<close>

section \<open>logger.go, pkg/internal/redact\<close>

text \<open>
  The reason for which bodies are left out of the log is a value of the context of a request, or missing.  How a message is dumped is up to
  net/http/httputil, which is an argument, and so is the text of a duration.  The log is a part of the state; its lines are appended.
\<close>

type_synonym redaction = "string option"

definition redact_NewContext :: "redaction \<Rightarrow> string \<Rightarrow> redaction" where
  "redact_NewContext ctx reason = Some reason"

definition redact_FromContext :: "redaction \<Rightarrow> bool \<times> string" where
  "redact_FromContext ctx = (case ctx of Some reason \<Rightarrow> (True, reason) | None \<Rightarrow> (False, ''''))"

record dumper =
  du_Request :: "http_request \<Rightarrow> bool \<Rightarrow> string res"
  du_Response :: "http_response \<Rightarrow> bool \<Rightarrow> string res"
  du_URL :: "url \<Rightarrow> string"
  du_Error :: "go_error \<Rightarrow> string"
  du_Duration :: string

definition redacted_request :: "http_request \<Rightarrow> http_request" where
  "redacted_request req =
     (if get_first (rq_Header req) ''Authorization'' \<noteq> '''' then with_header req ''Authorization'' ''<redacted>'' else req)"

definition body_note :: "redaction \<Rightarrow> string" where
  "body_note ctx = (case redact_FromContext ctx of (omit, reason) \<Rightarrow> if omit then '' [body redacted: '' @ reason @ '']'' else '''')"

definition log_request :: "dumper \<Rightarrow> redaction \<Rightarrow> http_request \<Rightarrow> string list" where
  "log_request D ctx req =
     [''--> '' @ rq_Method req @ '' '' @ du_URL D (rq_URL req) @ body_note ctx,
      (case du_Request D (redacted_request req) (\<not> fst (redact_FromContext ctx)) of
         Inr b \<Rightarrow> b
       | Inl e \<Rightarrow> ''Failed to dump request '' @ rq_Method req @ '' '' @ du_URL D (rq_URL req) @ '': '' @ du_Error D e)]"

definition log_response :: "dumper \<Rightarrow> redaction \<Rightarrow> http_request \<Rightarrow> http_response res \<Rightarrow> string list" where
  "log_response D ctx sent r =
     (case r of
        Inl e \<Rightarrow> [''<-- '' @ du_Error D e @ '' '' @ rq_Method sent @ '' '' @ du_URL D (rq_URL sent) @ '' ('' @ du_Duration D @ '')'']
      | Inr out \<Rightarrow>
          [''<-- '' @ show_int (rs_StatusCode out) @ '' '' @ du_URL D (rq_URL sent) @ '' ('' @ du_Duration D @ '')'' @ body_note ctx,
           (case du_Response D out (\<not> fst (redact_FromContext ctx)) of
              Inr b \<Rightarrow> b
            | Inl e \<Rightarrow> ''Failed to dump response '' @ rq_Method sent @ '' '' @ du_URL D (rq_URL sent) @ '': '' @ du_Error D e)])"

definition logger_RoundTrip :: "dumper \<Rightarrow> redaction \<Rightarrow> 's round_tripper \<Rightarrow> (string list \<times> 's) round_tripper" where
  "logger_RoundTrip D ctx inner req st =
     (case st of (logged, s) \<Rightarrow>
        (case inner req s of
           (r, sent, s1) \<Rightarrow> (r, sent, logged @ log_request D ctx req @ log_response D ctx sent r, s1)))"

text \<open>The logger changes neither what is sent nor what is answered.\<close>

lemma logger_transparent:
  "\<exists>lines. logger_RoundTrip D ctx inner req (logged, s) =
     (case inner req s of (r, q, s1) \<Rightarrow> (r, q, logged @ lines, s1))"
  by (simp add: logger_RoundTrip_def split: prod.splits)

text \<open>
  What it writes about a request does not depend on the credentials that the request carries, nor, when bodies are left out, on its body,
  as long as the dump of a message without its body does not.
\<close>

lemma redacted_request_same:
  assumes "v \<noteq> ''''" and "v' \<noteq> ''''"
  shows "redacted_request (with_header req ''Authorization'' v) = redacted_request (with_header req ''Authorization'' v')"
  using assms by (simp add: redacted_request_def with_header_def set_param_def)

lemma logger_hides_credentials:
  assumes "v \<noteq> ''''" and "v' \<noteq> ''''"
  shows "log_request D ctx (with_header req ''Authorization'' v) = log_request D ctx (with_header req ''Authorization'' v')"
  using redacted_request_same [OF assms, of req] by (simp add: log_request_def with_header_def split: sum.split)

lemma logger_hides_bodies:
  assumes "\<And>q b. du_Request D (q\<lparr>rq_Body := b\<rparr>) False = du_Request D q False"
    and "\<And>out b. du_Response D (out\<lparr>rs_Body := b\<rparr>) False = du_Response D out False"
  shows "log_request D (Some reason) (req\<lparr>rq_Body := b\<rparr>) = log_request D (Some reason) req"
    and "log_response D (Some reason) sent (Inr (out\<lparr>rs_Body := b\<rparr>)) = log_response D (Some reason) sent (Inr out)"
proof -
  have "redacted_request (req\<lparr>rq_Body := b\<rparr>) = (redacted_request req)\<lparr>rq_Body := b\<rparr>"
    by (simp add: redacted_request_def with_header_def)
  then show "log_request D (Some reason) (req\<lparr>rq_Body := b\<rparr>) = log_request D (Some reason) req"
    by (simp add: log_request_def redact_FromContext_def body_note_def assms(1) split: sum.split)
  show "log_response D (Some reason) sent (Inr (out\<lparr>rs_Body := b\<rparr>)) = log_response D (Some reason) sent (Inr out)"
    by (simp add: log_response_def redact_FromContext_def body_note_def assms(2) split: sum.split)
qed

section \<open>retry.go: options\<close>

record retry_options =
  ry_backoff :: backoff
  ry_predicate :: "go_error option \<Rightarrow> bool"

type_synonym retry_option = "retry_options \<Rightarrow> retry_options"

definition WithRetryBackoff :: "backoff \<Rightarrow> retry_option" where
  "WithRetryBackoff b o' = o'\<lparr>ry_backoff := b\<rparr>"

definition WithRetryPredicate :: "(go_error option \<Rightarrow> bool) \<Rightarrow> retry_option" where
  "WithRetryPredicate p o' = o'\<lparr>ry_predicate := p\<rparr>"

definition NewRetry :: "(nat \<Rightarrow> rat) \<Rightarrow> 's round_tripper \<Rightarrow> retry_option list \<Rightarrow> 's round_tripper" where
  "NewRetry rnd inner opts =
     (let o' = foldl (\<lambda>o' opt. opt o') \<lparr>ry_backoff = defaultBackoff, ry_predicate = IsTemporary\<rparr> opts
      in retry_RoundTrip rnd (ry_predicate o') (ry_backoff o') inner)"

text \<open>With a predicate that refuses every error a request is sent once.\<close>

lemma NewRetry_never:
  assumes "inner req s = (r, q, s1)" and "1 \<le> bo_Steps b"
  shows "NewRetry rnd inner [WithRetryBackoff b, WithRetryPredicate (\<lambda>_. False)] req s = (r, q, s1)"
proof -
  have "Retry rnd (\<lambda>(_, q, s). case inner q s of (r, q', s') \<Rightarrow> ((case r of Inl e \<Rightarrow> Some e | Inr _ \<Rightarrow> None), (Some r, q', s'))) (\<lambda>_. False) b (None, req, s) =
      ((case r of Inl e \<Rightarrow> Some e | Inr _ \<Rightarrow> None), Some r, q, s1)"
    unfolding Retry_def using assms by (subst ExponentialBackoff.simps) (simp add: retry_condition_def)
  then show ?thesis
    by (simp add: NewRetry_def WithRetryBackoff_def WithRetryPredicate_def retry_RoundTrip_def Let_def)
qed

section \<open>useragent.go: the version\<close>

text \<open>The build information: the path and the version of the main module and of the modules that it depends on.\<close>

definition moduleName :: string where
  "moduleName = ''github.com/google/go-containerregistry''"

definition transport_version :: "string \<Rightarrow> ((string \<times> string) \<times> (string \<times> string) list) option \<Rightarrow> string" where
  "transport_version Version info =
     (if Version \<noteq> '''' then Version
      else
        (case info of
           None \<Rightarrow> ''''
         | Some ((mainPath, mainVersion), deps) \<Rightarrow>
             if mainPath = moduleName then mainVersion
             else (case find (\<lambda>(p, v). p = moduleName) deps of Some (p, v) \<Rightarrow> v | None \<Rightarrow> '''')))"

end
