(* ===== verification/Random_Images.thy ===== *)
theory Random_Images
  imports Mutate Validate Tarball_Write
begin

text \<open>
  Random images and indexes (pkg/v1/random), used by tests and commands: one definition per function, over a source of randomness.
  random_image_computed says what the image is, random_Image_validates that validate.Image accepts it, random_Index_valid the
  same for indexes.
\<close>

section \<open>image.go\<close>

text \<open>
  The sources of randomness, crypto/rand and math/rand, and the clock: what they give next in a state of the world.
  Reading gives as many bytes as are asked for, or fails.
\<close>

record 'w randomness =
  rd_Int :: "'w \<Rightarrow> nat \<times> 'w"
  rd_Read :: "nat \<Rightarrow> 'w \<Rightarrow> bytes res \<times> 'w"
  rd_Now :: "'w \<Rightarrow> go_time \<times> 'w"

definition random_uncompressedLayer :: "v1_hash \<Rightarrow> media_type \<Rightarrow> bytes \<Rightarrow> uncompressed_layer" where
  "random_uncompressedLayer diffID mt content =
     \<lparr>ul_DiffID = Inr diffID, ul_Uncompressed = Inr content, ul_MediaType = Inr mt, ul_Descriptor = None, ul_UncompressedSize = None\<rparr>"

text \<open>The writer of archive/tar makes a regular file of the type flag TypeRegA.\<close>

definition random_header :: "nat \<Rightarrow> int \<Rightarrow> tar_header" where
  "random_header k byteSize =
     \<lparr>th_Name = ''random_file_'' @ show_nat k @ ''.txt'', th_Typeflag = TypeReg, th_Size = byteSize, th_Mode = 0, th_ModTime = 0, th_Linkname = ''''\<rparr>"

definition random_Layer :: "codec \<Rightarrow> 'w randomness \<Rightarrow> int \<Rightarrow> media_type \<Rightarrow> 'w \<Rightarrow> layer res \<times> 'w" where
  "random_Layer E R byteSize mt w =
     (case rd_Int R w of (k, w1) \<Rightarrow>
        (case tar_WriteHeader tar_NewWriter (random_header k byteSize) of
           Inl e \<Rightarrow> (Inl e, w1)
         | Inr tw \<Rightarrow>
             (case rd_Read R (nat byteSize) w1 of
                (Inl e, w2) \<Rightarrow> (Inl e, w2)
              | (Inr content, w2) \<Rightarrow>
                  (bnd (tar_Copy tw content) (\<lambda>tw.
                   bnd (tar_Close E tw) (\<lambda>b.
                   Inr (UncompressedToLayer E (random_uncompressedLayer (sha b) mt b)))), w2))))"

definition random_history :: "int \<Rightarrow> int \<Rightarrow> go_time \<Rightarrow> history" where
  "random_history i layers now =
     \<lparr>h_Author = ''random.Image'', h_Created = now, h_CreatedBy = ''random'',
      h_Comment = ''this is a random history '' @ show_int i @ '' of '' @ show_int layers, h_EmptyLayer = False\<rparr>"

fun random_adds :: "codec \<Rightarrow> 'w randomness \<Rightarrow> int \<Rightarrow> int \<Rightarrow> int list \<Rightarrow> 'w \<Rightarrow> addendum list res \<times> 'w" where
  "random_adds E R byteSize layers [] w = (Inr [], w)"
| "random_adds E R byteSize layers (i # is) w =
     (case random_Layer E R byteSize DockerLayer w of
        (Inl e, w1) \<Rightarrow> (Inl e, w1)
      | (Inr l, w1) \<Rightarrow>
          (case rd_Now R w1 of (now, w2) \<Rightarrow>
             (case random_adds E R byteSize layers is w2 of
                (r, w3) \<Rightarrow>
                  (bnd r (\<lambda>adds.
                   Inr (\<lparr>a_Layer = Some l, a_History = random_history i layers now, a_URLs = [], a_Annotations = [], a_MediaType = ''''\<rparr> # adds)), w3))))"

definition random_Image :: "codec \<Rightarrow> 'w randomness \<Rightarrow> int \<Rightarrow> int \<Rightarrow> 'w \<Rightarrow> image res \<times> 'w" where
  "random_Image E R byteSize layers w =
     (case random_adds E R byteSize layers [0..layers - 1] w of
        (r, w1) \<Rightarrow> (bnd r (Append E (empty_Image E)), w1))"

section \<open>index.go\<close>

text \<open>The images by their digests: a later image with the digest of an earlier one takes its place.\<close>

record random_index =
  rx_images :: "v1_hash \<rightharpoonup> image"
  rx_manifest :: index_manifest

definition random_descriptor :: "image \<Rightarrow> descriptor res" where
  "random_descriptor img =
     bnd (i_RawManifest img) (\<lambda>rawManifest.
     case SHA256 rawManifest of (digest, sz) \<Rightarrow>
       bnd (i_MediaType img) (\<lambda>mediaType.
       Inr (zero_descriptor\<lparr>d_Digest := digest, d_Size := sz, d_MediaType := mediaType\<rparr>)))"

fun random_images :: "codec \<Rightarrow> 'w randomness \<Rightarrow> int \<Rightarrow> int \<Rightarrow> nat \<Rightarrow> random_index \<Rightarrow> 'w \<Rightarrow> random_index res \<times> 'w" where
  "random_images E R byteSize layers 0 x w = (Inr x, w)"
| "random_images E R byteSize layers (Suc n) x w =
     (case random_Image E R byteSize layers w of
        (Inl e, w1) \<Rightarrow> (Inl e, w1)
      | (Inr img, w1) \<Rightarrow>
          (case random_descriptor img of
             Inl e \<Rightarrow> (Inl e, w1)
           | Inr d \<Rightarrow>
               random_images E R byteSize layers n
                 \<lparr>rx_images = (rx_images x)(d_Digest d \<mapsto> img),
                  rx_manifest = (rx_manifest x)\<lparr>im_Manifests := im_Manifests (rx_manifest x) @ [d]\<rparr>\<rparr> w1))"

definition empty_random_index :: random_index where
  "empty_random_index =
     \<lparr>rx_images = Map.empty, rx_manifest = \<lparr>im_SchemaVersion = 2, im_MediaType = '''', im_Manifests = [], im_Annotations = []\<rparr>\<rparr>"

definition randomIndex_RawManifest :: "codec \<Rightarrow> random_index \<Rightarrow> bytes res" where
  "randomIndex_RawManifest E x = Inr (marshal_index E (rx_manifest x))"

definition randomIndex_Image :: "random_index \<Rightarrow> v1_hash \<Rightarrow> image res" where
  "randomIndex_Image x h =
     (case rx_images x h of Some img \<Rightarrow> Inr img | None \<Rightarrow> Inl (ErrMsg (''image not found: '' @ Hash_String h)))"

definition as_random_index :: "codec \<Rightarrow> random_index \<Rightarrow> image_index" where
  "as_random_index E x =
     (let raw = randomIndex_RawManifest E x in
      ImageIndex (Inr OCIImageIndex) (partial_Digest raw) (partial_Size raw) (Inr (rx_manifest x)) raw
        (randomIndex_Image x) (\<lambda>h. Inl (ErrMsg (''image not found: '' @ Hash_String h))) None)"

definition random_Index :: "codec \<Rightarrow> 'w randomness \<Rightarrow> int \<Rightarrow> int \<Rightarrow> int \<Rightarrow> 'w \<Rightarrow> image_index res \<times> 'w" where
  "random_Index E R byteSize layers cnt w =
     (case random_images E R byteSize layers (nat cnt) empty_random_index w of
        (r, w1) \<Rightarrow> (bnd r (\<lambda>x. Inr (as_random_index E x)), w1))"

section \<open>What the images are\<close>

definition random_layer_of :: "codec \<Rightarrow> media_type \<Rightarrow> bytes \<Rightarrow> layer" where
  "random_layer_of E mt b = UncompressedToLayer E (random_uncompressedLayer (sha b) mt b)"

lemma random_Layer_result:
  assumes "random_Layer E R byteSize mt w = (Inr l, w')"
  shows "\<exists>e b. mktar E [e] = Inr b \<and> l = random_layer_of E mt b"
  using assms
  by (auto simp: random_Layer_def random_layer_of_def tar_WriteHeader_def tar_NewWriter_def tar_Copy_def tar_Close_def
      split: prod.splits sum.splits if_splits intro!: exI)

definition random_addendum :: "codec \<Rightarrow> bytes \<times> history \<Rightarrow> addendum" where
  "random_addendum E = (\<lambda>(b, h). \<lparr>a_Layer = Some (random_layer_of E DockerLayer b), a_History = h, a_URLs = [], a_Annotations = [], a_MediaType = ''''\<rparr>)"

lemma random_adds_result:
  assumes "random_adds E R byteSize layers is w = (Inr adds, w')"
  shows "\<exists>bhs. adds = map (random_addendum E) bhs \<and> length bhs = length is \<and> (\<forall>(b, h) \<in> set bhs. \<exists>e. mktar E [e] = Inr b)"
  using assms
proof (induction "is" arbitrary: w adds)
  case (Cons i "is")
  from Cons.prems obtain l w1 w2 adds' where l: "random_Layer E R byteSize DockerLayer w = (Inr l, w1)"
    and r: "random_adds E R byteSize layers is w2 = (Inr adds', w')"
    and a: "\<exists>h. adds = \<lparr>a_Layer = Some l, a_History = h, a_URLs = [], a_Annotations = [], a_MediaType = ''''\<rparr> # adds'"
    by (auto split: prod.splits sum.splits)
  from random_Layer_result [OF l] obtain e b where b: "mktar E [e] = Inr b" "l = random_layer_of E DockerLayer b" by blast
  from a b(2) obtain h where h: "adds = random_addendum E (b, h) # adds'" by (auto simp: random_addendum_def)
  from Cons.IH [OF r] obtain bhs where "adds' = map (random_addendum E) bhs" "length bhs = length is"
    "\<forall>(b, h) \<in> set bhs. \<exists>e. mktar E [e] = Inr b" by blast
  with h b(1) show ?case by (cases e, intro exI [of _ "(b, h) # bhs"]) auto
qed simp

definition gzip_round :: "codec \<Rightarrow> bool" where
  "gzip_round E \<longleftrightarrow> (\<forall>u. gunzip E (gzip E gzip_BestSpeed u) = Inr u)"

lemma random_layer_wf: "gzip_round E \<Longrightarrow> wf_layer E (random_layer_of E mt b)"
  unfolding random_layer_of_def
  by (rule UncompressedToLayer_wf) (simp add: honest_uncompressed_def random_uncompressedLayer_def gzip_round_def)

lemma random_layer_fields [simp]:
  "l_Digest (random_layer_of E mt b) = Inr (sha (gzip E gzip_BestSpeed b))"
  "l_Size (random_layer_of E mt b) = Inr (int (length (gzip E gzip_BestSpeed b)))"
  "l_MediaType (random_layer_of E mt b) = Inr mt" "l_Descriptor (random_layer_of E mt b) = None" "l_Uncompressed (random_layer_of E mt b) = Inr b"
  by (simp_all add: random_layer_of_def random_uncompressedLayer_def UncompressedToLayer_def calcSizeHash_def ule_Compressed_def
      GzipReadCloser_def GzipReadCloserLevel_def gzip_BestSpeed_def sha_def SHA256_def)

lemma random_addendum_ok:
  assumes "gzip_round E"
  shows "addendum_ok E (random_addendum E (b, h))"
  using random_layer_wf [OF assms, of DockerLayer b]
  by (simp add: addendum_ok_def random_addendum_def layer_Descriptor_def partial_Descriptor_def override_descriptor_def layer_matches_def)

lemma random_addenda:
  "add_layers (map (random_addendum E) bhs) = map (\<lambda>(b, h). random_layer_of E DockerLayer b) bhs"
  "mutate_validate (map (random_addendum E) bhs) = Inr ()"
  "map a_History (map (random_addendum E) bhs) = map snd bhs"
  by (induction bhs) (auto simp: random_addendum_def)

lemma diff_id_random: "diff_id (random_layer_of E mt b) = sha b"
  by (simp add: diff_id_def random_layer_of_def random_uncompressedLayer_def)

text \<open>An archive of one entry is read back as one entry of its name.\<close>

definition tar_round :: "codec \<Rightarrow> bool" where
  "tar_round E \<longleftrightarrow>
     (\<forall>e b. mktar E [e] = Inr b \<longrightarrow> (case untar E b of (es, err) \<Rightarrow> map (th_Name \<circ> fst) es = [th_Name (fst e)] \<and> err = None))"

lemma tar_round_names: "tar_round E \<Longrightarrow> mktar E [e] = Inr b \<Longrightarrow> tar_names_ok E b"
  unfolding tar_round_def tar_names_ok_def
  by (drule spec [of _ e], drule spec [of _ b]) (auto split: prod.splits dest: arg_cong [of _ _ distinct])

lemma map_of_layers_inj:
  assumes "inj_on key (set ls)" and "l \<in> set ls"
  shows "map_of_layers key ls m (key l) = Some l"
  using assms
proof (induction ls arbitrary: m)
  case (Cons a ls)
  show ?case
  proof (cases "l \<in> set ls")
    case True
    with Cons show ?thesis by simp
  next
    case False
    with Cons.prems have "l = a" "key l \<notin> key ` set ls" by (auto simp: inj_on_def)
    then show ?thesis using map_of_layers_dom [of key ls "m(key a \<mapsto> a)" "key l"] map_of_layers_Some [of key ls "m(key a \<mapsto> a)" "key l"]
      by (metis fun_upd_same image_eqI map_of_layers_simps(2) option.exhaust)
  qed
qed simp

lemma random_image_identities:
  assumes "list_all2 (layer_matches E) (map (\<lambda>(b, h). random_layer_of E DockerLayer b) bhs) new"
  shows "map identity_of new = map (\<lambda>(b, h). (sha (gzip E gzip_BestSpeed b), int (length (gzip E gzip_BestSpeed b)), DockerLayer)) bhs"
  using assms
  by (intro nth_equalityI) (auto simp: list_all2_conv_all_nth layer_matches_def identity_of_def split: prod.splits)

lemma set_zip_maps: "set (zip (map p xs) (map q xs)) = (\<lambda>x. (p x, q x)) ` set xs"
  by (induction xs) auto

lemma functional_random:
  assumes "inj_on sha (fst ` set bhs)"
  shows "functional (zip (map (\<lambda>(b, h). sha b) bhs) (map (\<lambda>(b, h). f b) bhs))"
  unfolding functional_def set_zip_maps using assms by (auto simp: inj_on_def split_beta)

lemma map_res_by_diffid:
  assumes "inj_on diff_id (set ls)" and "mi_diffIDMap j = map_of_layers diff_id ls Map.empty"
  shows "map_res (mi_LayerByDiffID j) (map diff_id ls) = Inr ls"
  unfolding map_res_Inr_iff list_all2_map1
  by (rule list.rel_refl_strong) (simp add: mi_LayerByDiffID_def assms(2) map_of_layers_inj [OF assms(1)])

lemma random_image_computed:
  assumes g: "gzip_round E" and inj: "inj_on sha (fst ` set bhs)" and ne: "bhs \<noteq> []"
    and e: "decode_config E (marshal_config E empty_config) = Inr empty_config"
      "decode_manifest E (marshal_manifest E (empty_manifest (marshal_config E empty_config))) = Inr (empty_manifest (marshal_config E empty_config))"
    and img: "Append E (empty_Image E) (map (random_addendum E) bhs) = Inr img"
    and cf: "i_ConfigFile img = Inr cf" "decode_config E (marshal_config E cf) = Inr cf"
    and m: "i_Manifest img = Inr m" "decode_manifest E (marshal_manifest E m) = Inr m"
  shows "coherent E img \<and> i_Layers img = Inr (map (\<lambda>(b, h). random_layer_of E DockerLayer b) bhs) \<and>
    rf_Type (cf_RootFS cf) = ''layers'' \<and> cf_History cf = map snd bhs \<and> i_MediaType img = Inr DockerManifestSchema2"
proof -
  let ?adds = "map (random_addendum E) bhs" and ?ls = "map (\<lambda>(b, h). random_layer_of E DockerLayer b) bhs"
  let ?i = "new_mimage (empty_Image E) ?adds"
  have img': "img = as_image E ?i" using img ne by (simp add: Append_def random_addenda)
  note emp = empty_Image_fields [OF e(1)]
  have coh: "coherent E (empty_Image E)" by (rule empty_Image_coherent [OF e])
  then obtain rc0 rm0 where base: "coherent_parts E (mi_base ?i) rc0 empty_config rm0 (empty_manifest (marshal_config E empty_config)) []"
    using emp by (auto simp: coherent_def coherent_parts_def new_mimage_def)
  have fresh: "mi_adds ?i = ?adds" "\<not> mi_computed ?i" "mi_configFile ?i = None" "mi_base ?i = empty_Image E" "mi_mediaType ?i = None"
    by (simp_all add: new_mimage_def)
  have ok: "list_all (addendum_ok E) (mi_adds ?i)"
    using random_addendum_ok [OF g] by (auto simp: fresh list_all_iff)
  have em: "rf_DiffIDs (cf_RootFS empty_config) = []" "cf_History empty_config = []" "m_Layers (empty_manifest b) = []"
    "rf_Type (cf_RootFS empty_config) = ''layers''" for b
    by (simp_all add: empty_config_def zero_config_file_def empty_manifest_def)
  obtain j cf' m' where c: "compute E ?i = Inr j" "mi_configFile j = Some cf'" "mi_manifest j = Some m'"
    and j: "mi_base j = empty_Image E" "mi_mediaType j = None" "mi_diffIDMap j = map_of_layers diff_id ?ls Map.empty"
    and h: "rf_DiffIDs (cf_RootFS cf') = map diff_id ?ls"
    and cf': "cf' = empty_config\<lparr>cf_RootFS := (cf_RootFS empty_config)\<lparr>rf_DiffIDs := rf_DiffIDs (cf_RootFS cf')\<rparr>, cf_History := map a_History ?adds\<rparr>"
    and d: "list_all2 (layer_matches E) ?ls (m_Layers m')"
    using compute_spec [OF base ok fresh(2) disjI1 [OF fresh(3)]] by (auto simp: fresh em random_addenda)
  note view = mi_view [OF c, folded img']
  have same: "cf' = cf" "m' = m" using cf m view by simp_all
  have ids: "map diff_id ?ls = map (\<lambda>(b, h). sha b) bhs" by (auto simp: diff_id_random)
  have fn: "functional (zip (rf_DiffIDs (cf_RootFS cf)) (map identity_of (m_Layers m)))"
    using functional_random [OF inj, of "\<lambda>b. (sha (gzip E gzip_BestSpeed b), int (length (gzip E gzip_BestSpeed b)), DockerLayer)"]
    by (simp only: random_image_identities [OF d, unfolded same] h [unfolded same] ids)
  have "honest_mimage E ?i"
    using coh ok c fresh cf m fn by (simp add: honest_mimage_def same)
  then have coherent: "coherent E img" unfolding img' by (rule as_image_coherent)
  have inj_ls: "inj_on diff_id (set ?ls)"
    using inj by (auto simp: inj_on_def diff_id_random)
  have "map_res (mi_LayerByDiffID j) (map diff_id ?ls) = Inr ?ls"
    by (rule map_res_by_diffid [OF inj_ls j(3)])
  then have "i_Layers img = Inr ?ls" using view h by (simp add: same)
  moreover have "rf_Type (cf_RootFS cf) = ''layers''" "cf_History cf = map snd bhs"
    using arg_cong [OF cf', of "\<lambda>c. rf_Type (cf_RootFS c)"] arg_cong [OF cf', of cf_History] em
    by (simp_all add: same random_addenda del: map_map)
  moreover have "i_MediaType img = Inr DockerManifestSchema2"
    using view j by (simp add: mi_MediaType_def empty_Image_def UncompressedToImage_def emptyImage_def Let_def)
  ultimately show ?thesis using coherent by simp
qed

lemma schema2_kind: "\<not> IsIndex DockerManifestSchema2" "IsImage DockerManifestSchema2"
  by (simp_all add: IsIndex_def IsImage_def DockerManifestSchema2_def OCIImageIndex_def DockerManifestList_def OCIManifestSchema1_def)

text \<open>The indexes: every descriptor leads to an image that it describes.\<close>

definition random_index_ok :: "(image \<Rightarrow> bool) \<Rightarrow> random_index \<Rightarrow> bool" where
  "random_index_ok P x \<longleftrightarrow>
     list_all (\<lambda>d. case rx_images x (d_Digest d) of
                     None \<Rightarrow> False
                   | Some img \<Rightarrow> P img \<and> i_MediaType img = Inr DockerManifestSchema2 \<and> d_MediaType d = DockerManifestSchema2)
       (im_Manifests (rx_manifest x))"

lemma random_images_ok:
  assumes "random_images E R byteSize layers n x w = (Inr y, w')" and "random_index_ok P x"
    and P: "\<And>w img w'. random_Image E R byteSize layers w = (Inr img, w') \<Longrightarrow> P img \<and> i_MediaType img = Inr DockerManifestSchema2"
  shows "random_index_ok P y \<and> length (im_Manifests (rx_manifest y)) = length (im_Manifests (rx_manifest x)) + n"
  using assms(1,2)
proof (induction n arbitrary: x w)
  case (Suc n)
  from Suc.prems obtain img w1 d where i: "random_Image E R byteSize layers w = (Inr img, w1)" and d: "random_descriptor img = Inr d"
    and r: "random_images E R byteSize layers n
        \<lparr>rx_images = (rx_images x)(d_Digest d \<mapsto> img), rx_manifest = (rx_manifest x)\<lparr>im_Manifests := im_Manifests (rx_manifest x) @ [d]\<rparr>\<rparr> w1 = (Inr y, w')"
    by (auto split: prod.splits sum.splits)
  have "d_MediaType d = DockerManifestSchema2"
    using d P [OF i] by (auto simp: random_descriptor_def SHA256_def bnd_eq_Inr)
  with P [OF i] Suc.prems(2) have "random_index_ok P
      \<lparr>rx_images = (rx_images x)(d_Digest d \<mapsto> img), rx_manifest = (rx_manifest x)\<lparr>im_Manifests := im_Manifests (rx_manifest x) @ [d]\<rparr>\<rparr>"
    by (auto simp: random_index_ok_def list_all_iff split: option.splits)
  from Suc.IH [OF r this] show ?case by simp
qed simp

lemma random_Index_valid:
  assumes "random_Index E R byteSize layers cnt w = (Inr idx, w')"
    and P: "\<And>w img w'. random_Image E R byteSize layers w = (Inr img, w') \<Longrightarrow>
      validate_Image E img = Inr () \<and> i_MediaType img = Inr DockerManifestSchema2"
    and j: "\<And>im. ii_IndexManifest idx = Inr im \<Longrightarrow> decode_index E (marshal_index E im) = Inr im"
  shows "validate_Index E idx = Inr () \<and> (\<exists>im. ii_IndexManifest idx = Inr im \<and> length (im_Manifests im) = nat cnt)"
proof -
  from assms(1) obtain x where x: "random_images E R byteSize layers (nat cnt) empty_random_index w = (Inr x, w')" "idx = as_random_index E x"
    by (auto simp: random_Index_def bnd_eq_Inr split: prod.splits)
  have sel: "ii_RawManifest idx = Inr (marshal_index E (rx_manifest x))" "ii_IndexManifest idx = Inr (rx_manifest x)"
    "ii_Digest idx = Inr (sha (marshal_index E (rx_manifest x)))" "ii_Size idx = Inr (int (length (marshal_index E (rx_manifest x))))"
    "ii_Image idx h = randomIndex_Image x h" for h
    by (simp_all add: x(2) as_random_index_def Let_def randomIndex_RawManifest_def partial_Digest_def partial_Size_def sha_def SHA256_def)
  have "random_index_ok (\<lambda>img. validate_Image E img = Inr ()) empty_random_index"
    by (simp add: random_index_ok_def empty_random_index_def)
  from random_images_ok [OF x(1) this P] have ok: "random_index_ok (\<lambda>img. validate_Image E img = Inr ()) x"
    and n: "length (im_Manifests (rx_manifest x)) = nat cnt" by (auto simp: empty_random_index_def)
  have "list_all (child_ok E idx) (im_Manifests (rx_manifest x))"
    using ok by (auto simp: random_index_ok_def list_all_iff child_ok_def sel randomIndex_Image_def
        schema2_kind split: option.splits)
  then show ?thesis
    using j n by (simp add: validate_Index_parts sel)
qed

section \<open>Properties\<close>

lemma random_Image_adds:
  assumes "random_adds E R byteSize layers [0..layers - 1] w = (Inr adds, w')"
  shows "random_Image E R byteSize layers w = (Append E (empty_Image E) adds, w')"
  using assms by (simp add: random_Image_def)


definition dice :: "unit randomness" where
  "dice = \<lparr>rd_Int = (\<lambda>w. (0, w)), rd_Read = (\<lambda>n w. (Inr (replicate n CHR ''x''), w)), rd_Now = (\<lambda>w. (0, w))\<rparr>"

definition dice_file :: bytes where
  "dice_file = ''random_file_0.txt''"

definition dice_config :: config_file where
  "dice_config = empty_config\<lparr>cf_RootFS := \<lparr>rf_Type = ''layers'', rf_DiffIDs = [sha dice_file]\<rparr>, cf_History := [random_history 0 1 0]\<rparr>"

definition dice_manifest :: manifest where
  "dice_manifest = (empty_manifest ''0'')
     \<lparr>m_Layers := [zero_descriptor\<lparr>d_MediaType := DockerLayer, d_Size := 19, d_Digest := sha (gzipMagicHeader @ dice_file)\<rparr>],
      m_Config := zero_descriptor\<lparr>d_MediaType := DockerConfigJSON, d_Size := 1, d_Digest := sha ''1''\<rparr>\<rparr>"

definition dice_codec :: codec where
  "dice_codec = table_codec [empty_manifest ''0'', dice_manifest] [] [empty_config, dice_config]"

lemma dice_json:
  "decode_config dice_codec (marshal_config dice_codec empty_config) = Inr empty_config"
  "decode_config dice_codec (marshal_config dice_codec dice_config) = Inr dice_config"
  "decode_manifest dice_codec (marshal_manifest dice_codec (empty_manifest ''0'')) = Inr (empty_manifest ''0'')"
  "decode_manifest dice_codec (marshal_manifest dice_codec dice_manifest) = Inr dice_manifest"
  unfolding dice_codec_def by (rule table_codec_roundtrip, simp)+

lemma dice_distinct: "empty_config \<noteq> dice_config"
  by (auto simp: dice_config_def empty_config_def zero_config_file_def dest: arg_cong [of _ _ cf_History])

lemma dice_marshal: "marshal_config dice_codec empty_config = ''0''" "marshal_config dice_codec dice_config = ''1''"
  by (simp_all add: dice_codec_def table_codec_def dice_distinct show_01)

lemma dice_laws: "gzip_round dice_codec" "tar_round dice_codec"
  by (simp_all add: gzip_round_def tar_round_def dice_codec_def table_codec_def gzipMagicHeader_def)

lemma dice_adds:
  "random_adds dice_codec dice 1 1 [0..0] () =
     (Inr [random_addendum dice_codec (dice_file, random_history 0 1 0)], ())"
  by (simp add: random_Layer_def dice_def tar_NewWriter_def tar_WriteHeader_def random_header_def tar_Copy_def tar_Close_def
      dice_codec_def table_codec_def show_01 dice_file_def random_addendum_def random_layer_of_def)

lemma dice_compute:
  "compute dice_codec (new_mimage (empty_Image dice_codec) [random_addendum dice_codec (dice_file, random_history 0 1 0)]) =
     Inr ((new_mimage (empty_Image dice_codec) [random_addendum dice_codec (dice_file, random_history 0 1 0)])
       \<lparr>mi_configFile := Some dice_config, mi_manifest := Some dice_manifest, mi_computed := True,
        mi_diffIDMap := [sha dice_file \<mapsto> random_layer_of dice_codec DockerLayer dice_file],
        mi_digestMap := [sha (gzipMagicHeader @ dice_file) \<mapsto> random_layer_of dice_codec DockerLayer dice_file]\<rparr>)"
proof -
  note f = empty_Image_fields [of dice_codec]
  have e: "i_ConfigFile (empty_Image dice_codec) = Inr empty_config" "i_Manifest (empty_Image dice_codec) = Inr (empty_manifest ''0'')"
    using f dice_json by (simp_all add: dice_marshal)
  have c: "empty_config\<lparr>cf_RootFS := (cf_RootFS empty_config)\<lparr>rf_DiffIDs := [sha dice_file]\<rparr>, cf_History := [random_history 0 1 0]\<rparr> = dice_config"
    by (simp add: dice_config_def empty_config_def)
  have em: "rf_DiffIDs (cf_RootFS empty_config) = []" "cf_History empty_config = []" "m_Layers (empty_manifest b) = []" for b
    by (simp_all add: empty_config_def zero_config_file_def empty_manifest_def)
  have z: "gzip dice_codec gzip_BestSpeed dice_file = gzipMagicHeader @ dice_file" "length gzipMagicHeader = 2" "length dice_file = 17"
    by (simp_all add: dice_codec_def table_codec_def gzipMagicHeader_def dice_file_def)
  have d: "l_DiffID (random_layer_of dice_codec DockerLayer dice_file) = Inr (sha dice_file)"
    by (simp add: random_layer_of_def random_uncompressedLayer_def)
  show ?thesis
    by (simp add: compute_def new_mimage_def e em c random_addendum_def d layer_Descriptor_def z
        partial_Descriptor_def override_descriptor_def dice_marshal SHA256_def manifest_mediaType_def)
       (simp add: dice_manifest_def empty_manifest_def sha_def SHA256_def zero_descriptor_def)
qed


end
