(* ===== verification/Compare.thy ===== *)
theory Compare
  imports Validate
begin

text \<open>
  pkg/internal/compare: which images, layers and indexes are taken for the same.  What is accepted is an equivalence relation, and
  coherent images of one manifest are accepted (coherent_compare).
\<close>

section \<open>layer.go\<close>

text \<open>One round of the loop that asks each of the two for what is compared.\<close>

definition layer_facts :: "layer \<Rightarrow> (v1_hash \<times> v1_hash \<times> int \<times> media_type) res" where
  "layer_facts layer =
     bnd (l_Digest layer) (\<lambda>digest.
     bnd (l_DiffID layer) (\<lambda>diffid.
     bnd (l_Size layer) (\<lambda>size'.
     bnd (l_MediaType layer) (\<lambda>mt.
     Inr (digest, diffid, size', mt)))))"

definition report :: "string \<Rightarrow> string list \<Rightarrow> unit res" where
  "report what errs = (if length errs \<noteq> 0 then Inl (ErrMsg (what @ '' differ:'' @ newline @ join_str newline errs)) else Inr ())"

definition compare_Layers :: "layer \<Rightarrow> layer \<Rightarrow> unit res" where
  "compare_Layers a b =
     bnd (layer_facts a) (\<lambda>(digest, diffid, size', mt).
     bnd (layer_facts b) (\<lambda>(digest', diffid', size'', mt').
     report ''Layers''
       (complain (digest \<noteq> digest') (''a.Digest() != b.Digest(); '' @ Hash_String digest @ '' != '' @ Hash_String digest') @
        complain (diffid \<noteq> diffid') (''a.DiffID() != b.DiffID(); '' @ Hash_String diffid @ '' != '' @ Hash_String diffid') @
        complain (size' \<noteq> size'') (''a.Size() != b.Size(); '' @ show_int size' @ '' != '' @ show_int size'') @
        complain (mt \<noteq> mt') (''a.MediaType() != b.MediaType(); '' @ mt @ '' != '' @ mt'))))"

section \<open>image.go\<close>

text \<open>
  Manifests are printed as their addresses or their fields, depending on the printer of Go's fmt, which is the argument show_manifest.
  Two manifests are deeply equal when the records are: empty and missing maps and slices are the same value here.
\<close>

definition image_facts :: "image \<Rightarrow> (layer list \<times> v1_hash \<times> manifest \<times> v1_hash \<times> int \<times> media_type) res" where
  "image_facts img =
     bnd (i_Layers img) (\<lambda>layers.
     bnd (i_Digest img) (\<lambda>digest.
     bnd (i_Manifest img) (\<lambda>manifest.
     bnd (i_ConfigName img) (\<lambda>cn.
     bnd (i_Size img) (\<lambda>size'.
     bnd (i_MediaType img) (\<lambda>mt.
     Inr (layers, digest, manifest, cn, size', mt)))))))"

fun compare_layers_errors :: "(go_error \<Rightarrow> string) \<Rightarrow> nat \<Rightarrow> layer list \<Rightarrow> layer list \<Rightarrow> string list" where
  "compare_layers_errors show_err i (l # ls) (l' # ls') =
     (case compare_Layers l l' of
        Inl e \<Rightarrow> [''Layers['' @ show_nat i @ '']: '' @ show_err e @ newline]
      | Inr _ \<Rightarrow> []) @ compare_layers_errors show_err (Suc i) ls ls'"
| "compare_layers_errors show_err i _ _ = []"

definition compare_Images :: "(manifest \<Rightarrow> string) \<Rightarrow> (go_error \<Rightarrow> string) \<Rightarrow> image \<Rightarrow> image \<Rightarrow> unit res" where
  "compare_Images show_manifest show_err a b =
     bnd (image_facts a) (\<lambda>(layers, digest, manifest, cn, size', mt).
     bnd (image_facts b) (\<lambda>(layers', digest', manifest', cn', size'', mt').
     let errs =
        complain (digest \<noteq> digest') (''a.Digest() != b.Digest(); '' @ Hash_String digest @ '' != '' @ Hash_String digest') @
        complain (cn \<noteq> cn') (''a.ConfigName() != b.ConfigName(); '' @ Hash_String cn @ '' != '' @ Hash_String cn') @
        complain (manifest \<noteq> manifest') (''a.Manifest() != b.Manifest(); '' @ show_manifest manifest @ '' != '' @ show_manifest manifest') @
        complain (size' \<noteq> size'') (''a.Size() != b.Size(); '' @ show_int size' @ '' != '' @ show_int size'') @
        complain (mt \<noteq> mt') (''a.MediaType() != b.MediaType(); '' @ mt @ '' != '' @ mt') in
     if length layers \<noteq> length layers' then Inl (ErrMsg ''len(a.Layers()) != len(b.Layers())'')
     else report ''Images'' (errs @ compare_layers_errors show_err 0 layers layers')))"

section \<open>index.go\<close>

definition index_facts :: "image_index \<Rightarrow> (v1_hash \<times> index_manifest \<times> int \<times> media_type) res" where
  "index_facts idx =
     bnd (ii_Digest idx) (\<lambda>digest.
     bnd (ii_IndexManifest idx) (\<lambda>manifest.
     bnd (ii_Size idx) (\<lambda>size'.
     bnd (ii_MediaType idx) (\<lambda>mt.
     Inr (digest, manifest, size', mt)))))"

definition compare_Indexes :: "(index_manifest \<Rightarrow> string) \<Rightarrow> image_index \<Rightarrow> image_index \<Rightarrow> unit res" where
  "compare_Indexes show_manifest a b =
     bnd (index_facts a) (\<lambda>(digest, manifest, size', mt).
     bnd (index_facts b) (\<lambda>(digest', manifest', size'', mt').
     report ''Indexes''
       (complain (digest \<noteq> digest') (''a.Digest() != b.Digest(); '' @ Hash_String digest @ '' != '' @ Hash_String digest') @
        complain (manifest \<noteq> manifest') (''a.Manifest() != b.Manifest(); '' @ show_manifest manifest @ '' != '' @ show_manifest manifest') @
        complain (size' \<noteq> size'') (''a.Size() != b.Size(); '' @ show_int size' @ '' != '' @ show_int size'') @
        complain (mt \<noteq> mt') (''a.MediaType() != b.MediaType(); '' @ mt @ '' != '' @ mt'))))"

section \<open>What they accept\<close>

lemma report_ok [simp]: "report what errs = Inr () \<longleftrightarrow> errs = []"
  by (simp add: report_def)

lemma compare_Layers_iff:
  "compare_Layers a b = Inr () \<longleftrightarrow> is_ok (layer_facts a) \<and> layer_facts a = layer_facts b"
  by (cases "layer_facts a"; cases "layer_facts b") (auto simp: compare_Layers_def complain_Nil)

lemma compare_layers_errors_Nil:
  "length ls = length ls' \<Longrightarrow>
     compare_layers_errors show_err i ls ls' = [] \<longleftrightarrow> list_all2 (\<lambda>l l'. compare_Layers l l' = Inr ()) ls ls'"
  by (induction show_err i ls ls' rule: compare_layers_errors.induct) (auto split: sum.splits)

lemma compare_Images_iff:
  "compare_Images sm se a b = Inr () \<longleftrightarrow>
     (\<exists>ls ls' d m cn n mt. image_facts a = Inr (ls, d, m, cn, n, mt) \<and> image_facts b = Inr (ls', d, m, cn, n, mt) \<and>
        list_all2 (\<lambda>l l'. compare_Layers l l' = Inr ()) ls ls')"
proof (cases "image_facts a")
  case (Inr fa)
  note a = this
  show ?thesis
  proof (cases "image_facts b")
    case (Inr fb)
    with a show ?thesis
      by (cases fa; cases fb)
        (auto simp: compare_Images_def complain_Nil compare_layers_errors_Nil Let_def dest: list_all2_lengthD)
  qed (use a in \<open>auto simp: compare_Images_def split: prod.splits\<close>)
qed (simp add: compare_Images_def)

lemma compare_Indexes_iff:
  "compare_Indexes sm a b = Inr () \<longleftrightarrow> is_ok (index_facts a) \<and> index_facts a = index_facts b"
  by (cases "index_facts a"; cases "index_facts b") (auto simp: compare_Indexes_def complain_Nil)

text \<open>What is accepted is an equivalence relation on what can be read.\<close>

lemma compare_Layers_equiv:
  "compare_Layers a b = Inr () \<Longrightarrow> compare_Layers b a = Inr ()"
  "compare_Layers a b = Inr () \<Longrightarrow> compare_Layers b c = Inr () \<Longrightarrow> compare_Layers a c = Inr ()"
  by (auto simp: compare_Layers_iff)

lemma compare_Images_sym: "compare_Images sm se a b = Inr () \<Longrightarrow> compare_Images sm se b a = Inr ()"
  unfolding compare_Images_iff by (fastforce simp: list_all2_conv_all_nth intro: compare_Layers_equiv)

lemma compare_Images_trans:
  "compare_Images sm se a b = Inr () \<Longrightarrow> compare_Images sm se b c = Inr () \<Longrightarrow> compare_Images sm se a c = Inr ()"
  unfolding compare_Images_iff by (fastforce intro: list_all2_trans [rotated] compare_Layers_equiv(2))

text \<open>Coherent images of the same manifest and media type are the same to it: the layers are found to be those of the manifest.\<close>

lemma coherent_compare:
  assumes "coherent E a" and "coherent E b" and "i_RawManifest a = i_RawManifest b" and "i_MediaType a = i_MediaType b"
    and inj: "inj_on sha {c. \<exists>i\<in>{a, b}. \<exists>ls. \<exists>l\<in>set ls. i_Layers i = Inr ls \<and> l_Compressed l = Inr c}"
  shows "compare_Images sm se a b = Inr ()"
proof -
  from assms(1) obtain rca cfa rma ma lsa where a: "coherent_parts E a rca cfa rma ma lsa" by (auto simp: coherent_def)
  from assms(2) obtain rcb cfb rmb mb lsb where b: "coherent_parts E b rcb cfb rmb mb lsb" by (auto simp: coherent_def)
  have m: "rmb = rma" "mb = ma" "sha rcb = sha rca" using a b assms(3) by (auto simp: coherent_parts_def)
  have la: "list_all2 (layer_matches E) lsa (m_Layers ma)" and lb: "list_all2 (layer_matches E) lsb (m_Layers ma)"
    and i: "i_Layers a = Inr lsa" "i_Layers b = Inr lsb"
    using a b m by (auto simp: coherent_parts_def)
  have "compare_Layers l l' = Inr ()" if "l \<in> set lsa" "l' \<in> set lsb" "layer_matches E l d" "layer_matches E l' d" for l l' d
  proof -
    note t = that
    obtain c u where c: "l_Compressed l = Inr c" "gunzip E c = Inr u" "l_Digest l = Inr (sha c)" "l_DiffID l = Inr (sha u)"
      using t(3) by (auto simp: layer_matches_def elim: wf_layerE)
    obtain c' u' where c': "l_Compressed l' = Inr c'" "gunzip E c' = Inr u'" "l_Digest l' = Inr (sha c')" "l_DiffID l' = Inr (sha u')"
      using t(4) by (auto simp: layer_matches_def elim: wf_layerE)
    have "sha c = sha c'" using c c' t by (auto simp: layer_matches_def)
    then have "c = c'" using inj c c' i t(1,2) by (auto simp: inj_on_def)
    then show ?thesis using c c' t(3,4) by (auto simp: compare_Layers_iff layer_facts_def layer_matches_def)
  qed
  then have "list_all2 (\<lambda>l l'. compare_Layers l l' = Inr ()) lsa lsb"
    using la lb by (auto simp: list_all2_conv_all_nth)
  then show ?thesis
    using a b m i assms(4) by (auto simp: compare_Images_iff image_facts_def coherent_parts_def is_ok_iff)
qed

end
