(* ===== verification/Daemon.thy ===== *)
theory Daemon
  imports Tarball_Archive
begin

text \<open>
  pkg/v1/daemon: images of a docker daemon, over a client of it, which is third-party code and an argument: options, the buffered and the
  unbuffered opener, Image, Tag and Write.  daemon_round_trip: what is written comes back from a daemon that hands back its archives.
\<close>

section \<open>The client\<close>

text \<open>
  What is read from a stream: its bytes, and the error that ends it, if it does not end in io.EOF.  The client is third-party code: what
  its methods answer in a state of the world of the daemon, and the state after it.
\<close>

type_synonym stream_bytes = "bytes \<times> go_error option"

definition ioutil_ReadAll :: "stream_bytes \<Rightarrow> bytes res" where
  "ioutil_ReadAll s = (case s of (b, None) \<Rightarrow> Inr b | (_, Some e) \<Rightarrow> Inl e)"

record 'w docker_client =
  dc_NegotiateAPIVersion :: "'w \<Rightarrow> 'w"
  dc_ImageSave :: "string list \<Rightarrow> 'w \<Rightarrow> stream_bytes res \<times> 'w"
  dc_ImageLoad :: "stream_bytes \<Rightarrow> bool \<Rightarrow> 'w \<Rightarrow> stream_bytes res \<times> 'w"
  dc_ImageTag :: "string \<Rightarrow> string \<Rightarrow> 'w \<Rightarrow> unit res \<times> 'w"

section \<open>image.go, options.go\<close>

record 'w imageOpener =
  io_ref :: reference
  io_buffered :: bool
  io_client :: "'w docker_client option"

type_synonym 'w image_option = "'w imageOpener \<Rightarrow> 'w imageOpener res"

definition io_setBuffered :: "bool \<Rightarrow> 'w image_option" where
  "io_setBuffered buffer i = Inr (i\<lparr>io_buffered := buffer\<rparr>)"

definition WithBufferedOpener :: "'w image_option" where
  "WithBufferedOpener i = io_setBuffered True i"

definition WithUnbufferedOpener :: "'w image_option" where
  "WithUnbufferedOpener i = io_setBuffered False i"

definition daemon_WithClient :: "'w docker_client \<Rightarrow> 'w image_option" where
  "daemon_WithClient client i = Inr (i\<lparr>io_client := Some client\<rparr>)"

fun apply_image_options :: "'w image_option list \<Rightarrow> 'w imageOpener \<Rightarrow> 'w imageOpener res" where
  "apply_image_options [] i = Inr i"
| "apply_image_options (opt # opts) i = bnd (opt i) (apply_image_options opts)"

definition saveImage :: "'w docker_client \<Rightarrow> reference \<Rightarrow> 'w \<Rightarrow> stream_bytes res \<times> 'w" where
  "saveImage c ref w = dc_ImageSave c [Name ref] w"

definition bufferedOpener :: "'w docker_client \<Rightarrow> reference \<Rightarrow> 'w \<Rightarrow> (bytes res) res \<times> 'w" where
  "bufferedOpener c ref w =
     (case saveImage c ref w of
        (r, w1) \<Rightarrow> (bnd r (\<lambda>rc. bnd (ioutil_ReadAll rc) (\<lambda>imageBytes. Inr (Inr imageBytes))), w1))"

text \<open>
  Without a buffer every access saves the image once more.  The daemon is taken not to be changed by that, so that every save gives the
  same stream; a stream that breaks off is taken to fail at the access.
\<close>

definition unbufferedOpener :: "'w docker_client \<Rightarrow> reference \<Rightarrow> 'w \<Rightarrow> (bytes res) res \<times> 'w" where
  "unbufferedOpener c ref w = (Inr (bnd (fst (saveImage c ref w)) ioutil_ReadAll), w)"

definition imageOpener_Open :: "codec \<Rightarrow> tarball_json \<Rightarrow> 'w docker_client \<Rightarrow> 'w imageOpener \<Rightarrow> 'w \<Rightarrow> image res \<times> 'w" where
  "imageOpener_Open E J c i w =
     (case (if io_buffered i then bufferedOpener c (io_ref i) w else unbufferedOpener c (io_ref i) w) of
        (r, w1) \<Rightarrow> (bnd r (\<lambda>opener. tarball_Image E J opener None), w1))"

definition daemon_Image ::
    "codec \<Rightarrow> tarball_json \<Rightarrow> 'w docker_client res \<Rightarrow> reference \<Rightarrow> 'w image_option list \<Rightarrow> 'w \<Rightarrow> image res \<times> 'w" where
  "daemon_Image E J from_env ref options w =
     (case bnd (apply_image_options options \<lparr>io_ref = ref, io_buffered = True, io_client = None\<rparr>) (\<lambda>i.
           bnd (case io_client i of Some c \<Rightarrow> Inr c | None \<Rightarrow> from_env) (\<lambda>c. Inr (i, c))) of
        Inl e \<Rightarrow> (Inl e, w)
      | Inr (i, c) \<Rightarrow> imageOpener_Open E J c i (dc_NegotiateAPIVersion c w))"

section \<open>write.go\<close>

definition daemon_Tag :: "'w docker_client res \<Rightarrow> tag \<Rightarrow> tag \<Rightarrow> 'w \<Rightarrow> unit res \<times> 'w" where
  "daemon_Tag loader src dest w =
     (case loader of Inl e \<Rightarrow> (Inl e, w) | Inr cli \<Rightarrow> dc_ImageTag cli (Tag_String src) (Tag_String dest) w)"

text \<open>
  What the goroutine writes into the pipe: the archive, or some part of it that ends in the error of Write.  The response is a string and
  an error; the error that is printed when the body breaks off is err, which is nil by then.
\<close>

definition daemon_pipe :: "bytes \<Rightarrow> bytes res \<Rightarrow> stream_bytes" where
  "daemon_pipe part r = (case r of Inr a \<Rightarrow> (a, None) | Inl e \<Rightarrow> (part, Some e))"

definition daemon_Write ::
    "codec \<Rightarrow> tarball_json \<Rightarrow> map_order \<Rightarrow> map_order \<Rightarrow> map_order \<Rightarrow> bytes \<Rightarrow> (go_error \<Rightarrow> string) \<Rightarrow> 'w docker_client res \<Rightarrow> tag \<Rightarrow> image \<Rightarrow> 'w \<Rightarrow>
     (string \<times> go_error option) \<times> 'w" where
  "daemon_Write E J ord1 ord2 ord3 part show_err loader tg img w =
     (case loader of
        Inl e \<Rightarrow> (('''', Some e), w)
      | Inr cli \<Rightarrow>
          (case dc_ImageLoad cli (daemon_pipe part (tarball_Write E J ord1 ord2 ord3 (RefTag tg) img (Some []))) False w of
             (Inl e, w1) \<Rightarrow> (('''', Some (ErrMsg (''error loading image: '' @ show_err e))), w1)
           | (Inr (response, None), w1) \<Rightarrow> ((response, None), w1)
           | (Inr (response, Some readErr), w1) \<Rightarrow> ((response, Some (ErrMsg ''error reading load response body: <nil>'')), w1)))"

section \<open>What is loaded can be read back\<close>

lemma daemon_options:
  "apply_image_options [daemon_WithClient c] i = Inr (i\<lparr>io_client := Some c\<rparr>)"
  "apply_image_options [daemon_WithClient c, WithUnbufferedOpener] i = Inr (i\<lparr>io_client := Some c, io_buffered := False\<rparr>)"
  by (simp_all add: daemon_WithClient_def WithUnbufferedOpener_def io_setBuffered_def)

text \<open>The two openers differ only in when they save the image.\<close>

lemma daemon_buffering:
  assumes "dc_ImageSave c [Name ref] (dc_NegotiateAPIVersion c w) = (Inr (a, None), w')"
  shows "fst (daemon_Image E J env ref [daemon_WithClient c] w) = tarball_Image E J (Inr a) None"
    and "fst (daemon_Image E J env ref [daemon_WithClient c, WithUnbufferedOpener] w) = tarball_Image E J (Inr a) None"
  using assms
  by (simp_all add: daemon_Image_def daemon_options imageOpener_Open_def del: apply_image_options.simps) (simp_all add: bufferedOpener_def unbufferedOpener_def saveImage_def ioutil_ReadAll_def)

text \<open>In an archive of a single image the image is found without its tag.\<close>

lemma single_untagged:
  assumes "tarball_Image E J opener (Some t) = Inr j"
    and "extractFileFromTar E opener ''manifest.json'' = Inr m" and "tj_decode J m = Inr (Some [d])"
  shows "tarball_Image E J opener None = Inr j"
proof -
  have "findDescriptor [d] (Some t) = Inr x \<Longrightarrow> findDescriptor [d] None = Inr x" for x
    by (auto simp: findDescriptor_def bnd_eq_Inr split: if_splits)
  moreover obtain x where "findDescriptor [d] (Some t) = Inr x"
    using assms by (auto simp: tarball_Image_def loadTarDescriptorAndConfig_def bnd_eq_Inr)
  ultimately have "findDescriptor [d] None = findDescriptor [d] (Some t)" by simp
  then show ?thesis using assms by (simp add: tarball_Image_def loadTarDescriptorAndConfig_def)
qed

lemma fair_single: "fair_order f \<Longrightarrow> f [x] = [x]"
  by (simp add: fair_order_def flip: mset_single_iff)

lemma single_manifest:
  assumes "calculateManifest imgs ord [(RefTag t, x)] = Inr tm" and "fair_map_order ord"
  shows "length tm = 1"
  using assms
  by (auto simp: calculateManifest_def bnd_eq_Inr fair_map_order_def fair_single dedupRefToImage_def dedup_add_def dest!: map_res_length)

text \<open>
  What Write sends to a daemon is the archive of the image, and a daemon that hands the archive back gives the image back: its config
  file and its layers under the manifest that is made up for them.
\<close>

lemma daemon_round_trip:
  assumes f: "fair_map_order ord1" "fair_map_order ord2" "fair_map_order ord3"
    and ar: "archivable_images E (\<lambda>_. img) ms content [(RefTag t, 0)]" and rd: "tags_readable [(RefTag t, 0)]"
    and js: "\<forall>tm. calculateManifest (\<lambda>_. img) ord1 [(RefTag t, 0)] = Inr tm \<longrightarrow> tj_decode J (tj_marshal J tm) = Inr (Some tm)"
    and tar: "\<And>es a. mktar E es = Inr a \<Longrightarrow> untar E a = (es, None)"
    and wr: "tarball_Write E J ord1 ord2 ord3 (RefTag t) img (Some []) = Inr a"
    and load: "dc_ImageLoad c (a, None) False w = (Inr (resp, None), w1)"
    and save: "dc_ImageSave c [Name (RefTag t)] (dc_NegotiateAPIVersion c w1) = (Inr (a, None), w2)"
  shows "daemon_Write E J ord1 ord2 ord3 part show_err (Inr c) t img w = ((resp, None), w1) \<and>
    (\<exists>j. fst (daemon_Image E J env (RefTag t) [daemon_WithClient c] w1) = Inr j \<and>
      pulled_as E j (marshal_manifest E (reread_manifest (ms 0) (fst (content 0)) (snd (content 0)))) (fst (content 0)) (snd (content 0)))"
proof
  show "daemon_Write E J ord1 ord2 ord3 part show_err (Inr c) t img w = ((resp, None), w1)"
    by (simp add: daemon_Write_def wr daemon_pipe_def load)
  from calculateManifest_ok [OF f(1) ar] obtain tm where tm: "calculateManifest (\<lambda>_. img) ord1 [(RefTag t, 0)] = Inr tm" by blast
  let ?es = "archive_entries (written_images content ord3 [(RefTag t, 0)]) (tj_marshal J tm)"
  have "mktar E ?es = Inr a"
    using MultiRefWrite_ok [OF f ar tm, of J "[]"] wr by (simp add: tarball_Write_def)
  then have un: "untar E a = (?es, None)" by (rule tar)
  from archive_manifest obtain hdr where "find (\<lambda>(hdr, _). th_Name hdr = ''manifest.json'') ?es = Some (hdr, tj_marshal J tm)" by blast
  then have m: "extractFileFromTar E (Inr a) ''manifest.json'' = Inr (tj_marshal J tm)"
    by (simp add: extractFileFromTar_def un)
  from single_manifest [OF tm f(1)] obtain d where d: "tm = [d]" by (auto simp: length_Suc_conv)
  have dec: "tj_decode J (tj_marshal J tm) = Inr (Some [d])" using js tm d by blast
  obtain j where j: "tarball_Image E J (Inr a) (Some t) = Inr j"
    "pulled_as E j (marshal_manifest E (reread_manifest (ms 0) (fst (content 0)) (snd (content 0)))) (fst (content 0)) (snd (content 0))"
    using write_read [OF f ar rd js] wr tar unfolding tarball_Write_def by (metis list.set_intros(1))
  have "tarball_Image E J (Inr a) None = Inr j" by (rule single_untagged [OF j(1) m dec])
  then show "\<exists>j. fst (daemon_Image E J env (RefTag t) [daemon_WithClient c] w1) = Inr j \<and>
      pulled_as E j (marshal_manifest E (reread_manifest (ms 0) (fst (content 0)) (snd (content 0)))) (fst (content 0)) (snd (content 0))"
    using daemon_buffering(1) [OF save] j(2) by auto
qed

text \<open>When reading the response fails, Write says so without the reason: it prints the error of ImageLoad, which is nil.\<close>

lemma daemon_read_error_lost:
  assumes "dc_ImageLoad c (daemon_pipe part (tarball_Write E J ord1 ord2 ord3 (RefTag t) img (Some []))) False w = (Inr (resp, Some e), w1)"
  shows "daemon_Write E J ord1 ord2 ord3 part show_err (Inr c) t img w =
    ((resp, Some (ErrMsg ''error reading load response body: <nil>'')), w1)"
  using assms by (simp add: daemon_Write_def)

end
