(* ===== verification/K8schain.thy ===== *)
theory K8schain
  imports Remote_Read
begin

text \<open>
  pkg/authn/k8schain: a keychain from the pull secrets of Kubernetes, over its client and its keyring, which are third-party code.
  k8schain_resolves: what a target resolves to never fails.
\<close>

section \<open>k8schain.go\<close>

text \<open>
  What is outside the repository: the client of Kubernetes, which gives secrets and the names of the pull secrets of a service account, and the
  keyring of its credential provider, which is made from secrets and looks an image reference up.
\<close>

record 'sec k8s_client =
  k8_Secret :: "string \<Rightarrow> string \<Rightarrow> 'sec res"
  k8_ServiceAccount :: "string \<Rightarrow> string \<Rightarrow> string list res"

type_synonym keyring = "string \<Rightarrow> auth_config list \<times> bool"

record k8s_options =
  ko_Namespace :: string
  ko_ServiceAccountName :: string
  ko_ImagePullSecrets :: "string list"

definition k8s_defaults :: "k8s_options \<Rightarrow> k8s_options" where
  "k8s_defaults opt =
     (let opt = (if ko_Namespace opt = '''' then opt\<lparr>ko_Namespace := ''default''\<rparr> else opt)
      in if ko_ServiceAccountName opt = '''' then opt\<lparr>ko_ServiceAccountName := ''default''\<rparr> else opt)"

definition pull_secrets :: "'sec k8s_client \<Rightarrow> k8s_options \<Rightarrow> 'sec list res" where
  "pull_secrets client opt =
     bnd (map_res (k8_Secret client (ko_Namespace opt)) (ko_ImagePullSecrets opt)) (\<lambda>own.
     bnd (k8_ServiceAccount client (ko_Namespace opt) (ko_ServiceAccountName opt)) (\<lambda>names.
     bnd (map_res (k8_Secret client (ko_Namespace opt)) names) (\<lambda>attached.
     Inr (own @ attached))))"

definition k8schain_New :: "('sec list \<Rightarrow> keyring \<Rightarrow> keyring res) \<Rightarrow> keyring \<Rightarrow> 'sec k8s_client option \<Rightarrow> k8s_options \<Rightarrow> keyring res" where
  "k8schain_New MakeDockerKeyring provider client opt =
     (let opt = k8s_defaults opt in
      bnd (case client of None \<Rightarrow> Inr [] | Some c \<Rightarrow> pull_secrets c opt) (\<lambda>pullSecrets.
      MakeDockerKeyring pullSecrets provider))"

definition k8schain_NewInCluster ::
    "('sec list \<Rightarrow> keyring \<Rightarrow> keyring res) \<Rightarrow> keyring \<Rightarrow> 'c res \<Rightarrow> ('c \<Rightarrow> 'sec k8s_client res) \<Rightarrow> k8s_options \<Rightarrow> keyring res" where
  "k8schain_NewInCluster MakeDockerKeyring provider InClusterConfig NewForConfig opt =
     bnd InClusterConfig (\<lambda>clusterConfig.
     bnd (NewForConfig clusterConfig) (\<lambda>client.
     k8schain_New MakeDockerKeyring provider (Some client) opt))"

definition k8schain_NewNoClient :: "('sec list \<Rightarrow> keyring \<Rightarrow> keyring res) \<Rightarrow> keyring \<Rightarrow> keyring res" where
  "k8schain_NewNoClient MakeDockerKeyring provider =
     k8schain_New MakeDockerKeyring provider None \<lparr>ko_Namespace = '''', ko_ServiceAccountName = '''', ko_ImagePullSecrets = []\<rparr>"

definition no_credentials :: "string \<Rightarrow> go_error" where
  "no_credentials img = ErrMsg (''keychain returned no credentials for '' @ quoted img)"

definition lazyProvider_Authorization :: "keyring \<Rightarrow> string \<Rightarrow> auth_config res" where
  "lazyProvider_Authorization kr img =
     (case kr img of (creds, found) \<Rightarrow> if \<not> found \<or> length creds < 1 then Inl (no_credentials img) else Inr (creds ! 0))"

datatype k8s_target = RepositoryTarget repository | OtherTarget string

definition lookup_image :: "k8s_target \<Rightarrow> string" where
  "lookup_image target = (case target of RepositoryTarget repo \<Rightarrow> Repository_Name repo | OtherTarget registryStr \<Rightarrow> registryStr @ ''/foo/bar'')"

definition k8schain_Resolve :: "keyring \<Rightarrow> k8s_target \<Rightarrow> authenticator res" where
  "k8schain_Resolve kr target =
     (let img = lookup_image target in
      case kr img of (creds, found) \<Rightarrow>
        if \<not> found \<or> length creds < 1 then Inr Anonymous else Inr (Authenticator (lazyProvider_Authorization kr img)))"

section \<open>What the keychain gives\<close>

text \<open>It always resolves, and what it resolves to never fails: it stands for the first credentials of the keyring, or for none.\<close>

lemma k8schain_resolves:
  "\<exists>a. k8schain_Resolve kr target = Inr a \<and>
     Authorization a = Inr (case kr (lookup_image target) of (c # cs, True) \<Rightarrow> c | _ \<Rightarrow> no_auth)"
  by (cases "kr (lookup_image target)")
    (auto simp: k8schain_Resolve_def lazyProvider_Authorization_def Authorization_def Let_def neq_Nil_conv split: list.splits bool.splits)

text \<open>The secrets that are named come before those of the service account; each of them has to be there.\<close>

lemma pull_secrets_spec:
  "pull_secrets c opt = Inr ss \<longleftrightarrow>
     (\<exists>names. k8_ServiceAccount c (ko_Namespace opt) (ko_ServiceAccountName opt) = Inr names \<and>
        list_all2 (\<lambda>n s. k8_Secret c (ko_Namespace opt) n = Inr s) (ko_ImagePullSecrets opt @ names) ss)"
proof (cases "k8_ServiceAccount c (ko_Namespace opt) (ko_ServiceAccountName opt)")
  case (Inl e)
  then show ?thesis by (auto simp: pull_secrets_def bnd_eq_Inr)
next
  case (Inr names)
  then have "pull_secrets c opt = map_res (k8_Secret c (ko_Namespace opt)) (ko_ImagePullSecrets opt @ names)"
    by (simp add: pull_secrets_def map_res_append)
  then show ?thesis using Inr by (simp add: map_res_Inr_iff)
qed

lemma k8schain_New_no_client:
  "k8schain_NewNoClient mk provider = mk [] provider" "k8schain_New mk provider None opt = mk [] provider"
  by (simp_all add: k8schain_NewNoClient_def k8schain_New_def Let_def)

end
