(* ===== verification/Commands.thy ===== *)
theory Commands
  imports Google_Walk Crane_Files Legacy_Tarball Gcrane Mutate_Index
begin

text \<open>
  The commands of cmd/crane and cmd/gcrane: the platform flag, the options that every command runs with, the commands around one
  operation, validate, auth, pull, export, append, rebase, gc, ls and copy.  Commands write to their output and end with an error or without one.
  platform_flag_round_trip: the flag is printed and parsed; login_resolves: what login stores is found by the keychain; gc_untagged: gc
  prints manifests without tags only.
\<close>

section \<open>crane: util.go\<close>

definition zero_platform :: platform where
  "zero_platform = \<lparr>Architecture = '''', OS = '''', OSVersion = '''', OSFeatures = [], Variant = '''', Features = []\<rparr>"

text \<open>A nil platform stands for all of them.\<close>

definition platformToString :: "platform option \<Rightarrow> string" where
  "platformToString p =
     (case p of
        None \<Rightarrow> ''all''
      | Some p \<Rightarrow>
          (let platform = (if OS p \<noteq> '''' \<and> Architecture p \<noteq> '''' then OS p @ ''/'' @ Architecture p else '''')
           in if Variant p \<noteq> '''' then platform @ ''/'' @ Variant p else platform))"

definition parsePlatform :: "string \<Rightarrow> platform option res" where
  "parsePlatform platform =
     (if platform = ''all'' then Inr None
      else
        (let parts = split_on (CHR ''/'') platform in
         if length parts < 2 then
           Inl (ErrMsg (''failed to parse platform '' @ [CHR 0x27] @ platform @ [CHR 0x27] @ '': expected format os/arch[/variant]''))
         else if length parts > 3 then
           Inl (ErrMsg (''failed to parse platform '' @ [CHR 0x27] @ platform @ [CHR 0x27] @ '': too many slashes''))
         else
           (let p = zero_platform\<lparr>OS := parts ! 0, Architecture := parts ! 1\<rparr>
            in Inr (Some (if length parts > 2 then p\<lparr>Variant := parts ! 2\<rparr> else p)))))"

text \<open>What a platform flag can hold, and what the parser gives back.\<close>

definition plain_platform :: "platform \<Rightarrow> bool" where
  "plain_platform p \<longleftrightarrow>
     OS p \<noteq> '''' \<and> Architecture p \<noteq> '''' \<and> CHR ''/'' \<notin> set (OS p @ Architecture p @ Variant p) \<and>
     OSVersion p = '''' \<and> OSFeatures p = [] \<and> Features p = []"

lemma split_sep: "c \<notin> set x \<Longrightarrow> split_on c (x @ c # y) = x # split_on c y"
  by (induction x) auto

lemma slash_not_all: "x @ CHR ''/'' # y \<noteq> ''all''"
  by (auto dest: arg_cong [of _ _ "\<lambda>s. CHR ''/'' \<in> set s"])

lemma platform_flag_round_trip:
  assumes "case p of None \<Rightarrow> True | Some q \<Rightarrow> plain_platform q"
  shows "parsePlatform (platformToString p) = Inr p"
proof (cases p)
  case (Some q)
  with assms have q: "OS q \<noteq> ''''" "Architecture q \<noteq> ''''" "CHR ''/'' \<notin> set (OS q)" "CHR ''/'' \<notin> set (Architecture q)"
    "CHR ''/'' \<notin> set (Variant q)" "q = zero_platform\<lparr>OS := OS q, Architecture := Architecture q, Variant := Variant q\<rparr>"
    by (auto simp: plain_platform_def zero_platform_def)
  show ?thesis
  proof (cases "Variant q = ''''")
    case True
    then have t: "platformToString p = OS q @ CHR ''/'' # Architecture q" using Some q by (simp add: platformToString_def)
    have "split_on (CHR ''/'') (OS q @ CHR ''/'' # Architecture q) = [OS q, Architecture q]"
      using q by (simp add: split_sep split_on_no_sep)
    then show ?thesis using Some q(6) True unfolding t parsePlatform_def
      by (simp add: slash_not_all) (simp add: zero_platform_def)
  next
    case False
    then have t: "platformToString p = OS q @ CHR ''/'' # Architecture q @ CHR ''/'' # Variant q"
      using Some q by (simp add: platformToString_def)
    have "split_on (CHR ''/'') (OS q @ CHR ''/'' # Architecture q @ CHR ''/'' # Variant q) = [OS q, Architecture q, Variant q]"
      using q by (simp add: split_sep split_on_no_sep)
    then show ?thesis using Some q(6) unfolding t parsePlatform_def by (simp add: slash_not_all)
  qed
qed (simp add: platformToString_def parsePlatform_def)

text \<open>A variant alone is printed as what the parser takes for an empty system and an architecture; empty parts are accepted.\<close>

lemma platform_flag_gaps:
  "parsePlatform (platformToString (Some (zero_platform\<lparr>Variant := ''v7''\<rparr>))) = Inr (Some (zero_platform\<lparr>Architecture := ''v7''\<rparr>))"
  "parsePlatform ''/'' = Inr (Some zero_platform)"
  by (simp_all add: parsePlatform_def platformToString_def zero_platform_def)

text \<open>platformValue.Set and String\<close>

definition platformValue_Set :: "platform option \<Rightarrow> string \<Rightarrow> unit res \<times> platform option" where
  "platformValue_Set pv platform = (case parsePlatform platform of Inl e \<Rightarrow> (Inl e, pv) | Inr p \<Rightarrow> (Inr (), p))"

section \<open>crane: root.go\<close>

text \<open>
  http.CanonicalHeaderKey: the first letter and those after a hyphen in upper case, the others in lower case, unless some byte may not be in
  the name of a header.
\<close>

definition upper_char :: "char \<Rightarrow> char" where
  "upper_char c = (if 97 \<le> byte c \<and> byte c \<le> 122 then char_of (byte c - 32) else c)"

fun canonical_chars :: "bool \<Rightarrow> string \<Rightarrow> string" where
  "canonical_chars up [] = []"
| "canonical_chars up (c # cs) = (if up then upper_char c else lower_char c) # canonical_chars (c = CHR ''-'') cs"

definition token_char :: "char \<Rightarrow> bool" where
  "token_char c \<longleftrightarrow> is_alpha c \<or> is_digit c \<or> c \<in> set ''!#$%&*+-.^_|~'' \<union> {CHR 0x27, CHR 0x60}"

definition CanonicalHeaderKey :: "string \<Rightarrow> string" where
  "CanonicalHeaderKey k = (if list_all token_char k then canonical_chars True k else k)"

text \<open>The headers of the config file, in the order in which the map is gone through.\<close>

definition headerTransport_RoundTrip :: "(string \<times> string) list \<Rightarrow> 's round_tripper \<Rightarrow> 's round_tripper" where
  "headerTransport_RoundTrip httpHeaders inner req s =
     inner (foldl (\<lambda>r (k, v). if CanonicalHeaderKey k = ''User-Agent'' then r else with_header r (CanonicalHeaderKey k) v) req httpHeaders) s"

text \<open>
  What runs before every command: the options that the flags and the docker config file add to those of the program.  A config file that
  cannot be read is only logged.
\<close>

record root_flags =
  rf_insecure :: bool
  rf_platform :: "platform option"

definition preRun ::
    "'s round_tripper \<Rightarrow> string \<Rightarrow> string \<Rightarrow> (string \<times> string) list res \<Rightarrow> root_flags \<Rightarrow> 's crane_option list \<Rightarrow> 's crane_option list" where
  "preRun DefaultTransport binary Version httpHeaders flags options =
     (let options = (if rf_insecure flags then options @ [crane_Insecure] else options);
          options = (if Version \<noteq> '''' then options @ [crane_WithUserAgent (binary @ ''/'' @ Version)] else options);
          options = options @ [crane_WithPlatform (rf_platform flags)] in
      case httpHeaders of
        Inl _ \<Rightarrow> options
      | Inr hs \<Rightarrow>
          if length hs \<noteq> 0 then options @ [crane_WithTransport (headerTransport_RoundTrip hs DefaultTransport)] else options)"

text \<open>The headers that the transport sets; the agent of the request is kept.\<close>

lemma headerTransport_keeps_agent:
  "get_first (rq_Header (foldl (\<lambda>r (k, v). if CanonicalHeaderKey k = ''User-Agent'' then r else with_header r (CanonicalHeaderKey k) v) req hs)) ''User-Agent'' =
     get_first (rq_Header req) ''User-Agent''"
  by (induction hs arbitrary: req) (auto simp: with_header_def)

lemma crane_makeOptions_append: "crane_makeOptions X (opts @ fs) = foldl (\<lambda>o' f. f o') (crane_makeOptions X opts) fs"
  by (simp add: crane_makeOptions_def)

lemma preRun_options:
  "co_platform (crane_makeOptions X (preRun t binary ver hs flags options)) = rf_platform flags \<and>
     (rf_insecure flags \<longrightarrow> Insecure \<in> set (co_name (crane_makeOptions X (preRun t binary ver hs flags options))))"
  by (auto simp: preRun_def Let_def crane_makeOptions_append crane_WithPlatform_def crane_Insecure_def crane_WithUserAgent_def
      crane_WithTransport_def split: sum.splits option.splits)

section \<open>gcrane: gc.go\<close>

text \<open>
  Printing is a change of the state, which is the argument print.  A range over a Go map goes through it in any order, which is the argument
  ord.  Of the tags and the error that a walk function is called with one is nil.
\<close>

definition print_all :: "(string \<Rightarrow> 's \<Rightarrow> 's) \<Rightarrow> string list \<Rightarrow> 's \<Rightarrow> 's" where
  "print_all print ls s = foldl (\<lambda>s l. print l s) s ls"

definition untagged_lines :: "repository \<Rightarrow> (string \<times> manifest_info) list \<Rightarrow> string list" where
  "untagged_lines repo ms = map (\<lambda>(digest, _). Repository_Name repo @ ''@'' @ digest) (filter (\<lambda>(_, m). length (gm_Tags m) = 0) ms)"

definition printUntaggedImages ::
    "(string \<Rightarrow> 's \<Rightarrow> 's) \<Rightarrow> ((string \<times> manifest_info) list \<Rightarrow> (string \<times> manifest_info) list) \<Rightarrow> 's walk_fn" where
  "printUntaggedImages print ord repo tags err s =
     (case err of
        Some e \<Rightarrow> (Some e, s)
      | None \<Rightarrow>
          (case tags of
             None \<Rightarrow> (Some nil_deref, s)
           | Some t \<Rightarrow> (None, print_all print (untagged_lines repo (ord (gt_Manifests t))) s)))"

definition list_then :: "google_tags res \<times> 's \<Rightarrow> repository \<Rightarrow> 's walk_fn \<Rightarrow> go_error option \<times> 's" where
  "list_then r repo f = (case r of (Inl e, s1) \<Rightarrow> f repo None (Some e) s1 | (Inr tags, s1) \<Rightarrow> f repo (Some tags) None s1)"

definition gcrane_gc ::
    "google_codec \<Rightarrow> net_env \<Rightarrow> 's round_tripper \<Rightarrow> keychain \<Rightarrow> (string \<Rightarrow> 's \<Rightarrow> 's) \<Rightarrow>
     ((string \<times> manifest_info) list \<Rightarrow> (string \<times> manifest_info) list) \<Rightarrow> string \<Rightarrow> bool \<Rightarrow> 's \<Rightarrow> go_error option \<times> 's" where
  "gcrane_gc C env dt DefaultKeychain print ord rootName recursive s =
     (case NewRepository rootName [] of
        Inl e \<Rightarrow> (Some e, s)
      | Inr repo \<Rightarrow>
          (let auth = google_WithAuthFromKeychain DefaultKeychain in
           if recursive then google_Walk C env dt [auth] repo (printUntaggedImages print ord) s
           else list_then (google_List C env dt [auth] repo s) repo (printUntaggedImages print ord)))"

section \<open>gcrane: list.go\<close>

definition image_lines ::
    "((string \<times> manifest_info) list \<Rightarrow> (string \<times> manifest_info) list) \<Rightarrow> repository \<Rightarrow> google_tags \<Rightarrow> string list" where
  "image_lines ord repo tags =
     concat (map (\<lambda>(digest, m). (Repository_Name repo @ ''@'' @ digest) # map (\<lambda>tg. Repository_Name repo @ '':'' @ tg) (gm_Tags m))
       (ord (gt_Manifests tags)))"

definition printImages ::
    "(google_tags \<Rightarrow> bytes res) \<Rightarrow> (string \<Rightarrow> 's \<Rightarrow> 's) \<Rightarrow> ((string \<times> manifest_info) list \<Rightarrow> (string \<times> manifest_info) list) \<Rightarrow> bool \<Rightarrow> 's walk_fn" where
  "printImages marshal_tags print ord j repo tags err s =
     (case err of
        Some e \<Rightarrow> (Some e, s)
      | None \<Rightarrow>
          if j then
            (case bnd (deref tags) marshal_tags of Inl e \<Rightarrow> (Some e, s) | Inr b \<Rightarrow> (None, print b s))
          else
            (case tags of None \<Rightarrow> (Some nil_deref, s) | Some t \<Rightarrow> (None, print_all print (image_lines ord repo t) s)))"

definition gcrane_ls ::
    "google_codec \<Rightarrow> net_env \<Rightarrow> 's round_tripper \<Rightarrow> keychain \<Rightarrow> (google_tags \<Rightarrow> bytes res) \<Rightarrow> (string \<Rightarrow> 's \<Rightarrow> 's) \<Rightarrow>
     ((string \<times> manifest_info) list \<Rightarrow> (string \<times> manifest_info) list) \<Rightarrow> string \<Rightarrow> bool \<Rightarrow> bool \<Rightarrow> 's \<Rightarrow> go_error option \<times> 's" where
  "gcrane_ls C env dt Keychain marshal_tags print ord rootName recursive j s =
     (case NewRepository rootName [] of
        Inl e \<Rightarrow> (Some e, s)
      | Inr repo \<Rightarrow>
          (let auth = google_WithAuthFromKeychain Keychain in
           if recursive then google_Walk C env dt [auth] repo (printImages marshal_tags print ord j) s
           else
             (case google_List C env dt [auth] repo s of
                (Inl e, s1) \<Rightarrow> (Some e, s1)
              | (Inr tags, s1) \<Rightarrow>
                  if \<not> j \<and> length (gt_Manifests tags) = 0 \<and> length (gt_Children tags) = 0 then
                    (None, print_all print (map (\<lambda>tg. Repository_Name repo @ '':'' @ tg) (gt_Tags tags)) s1)
                  else
                    (let s2 = (if j then s1 else print_all print (map (\<lambda>child. Repository_Name repo @ ''/'' @ child) (gt_Children tags)) s1)
                     in printImages marshal_tags print ord j repo (Some tags) None s2))))"

section \<open>What gc prints\<close>

lemma print_all_out: "\<forall>l s. out (print l s) = out s @ [l] \<Longrightarrow> out (print_all print xs s) = out s @ xs"
  by (induction xs arbitrary: s) (auto simp: print_all_def)

definition untagged_of :: "((string \<times> manifest_info) list \<Rightarrow> (string \<times> manifest_info) list) \<Rightarrow> visit \<Rightarrow> string list" where
  "untagged_of ord = (\<lambda>(repo, tags, err). case (err, tags) of (None, Some t) \<Rightarrow> untagged_lines repo (ord (gt_Manifests t)) | _ \<Rightarrow> [])"

lemma printUntaggedImages_out:
  assumes "\<forall>l s. out (print l s) = out s @ [l]"
  shows "out (snd (printUntaggedImages print ord r t e s)) = out s @ untagged_of ord (r, t, e)"
  using print_all_out [OF assms] by (auto simp: printUntaggedImages_def untagged_of_def split: option.splits)

lemma untagged_lines_set:
  assumes "fair_order ord"
  shows "l \<in> set (untagged_lines repo (ord ms)) \<longleftrightarrow> (\<exists>d m. (d, m) \<in> set ms \<and> gm_Tags m = [] \<and> l = Repository_Name repo @ ''@'' @ d)"
proof -
  have "set (ord ms) = set ms" using assms by (metis fair_order_def mset_eq_setD)
  then show ?thesis by (auto simp: untagged_lines_def image_iff)
qed

lemma untagged_visit:
  assumes "fair_order ord"
  shows "l \<in> set (untagged_of ord (visit_of L x)) \<longleftrightarrow>
    (\<exists>t d m. L x = Inr t \<and> (d, m) \<in> set (gt_Manifests t) \<and> gm_Tags m = [] \<and> l = Repository_Name x @ ''@'' @ d)"
  using untagged_lines_set [OF assms, of l x] by (auto simp: untagged_of_def visit_of_def split: sum.splits)

text \<open>
  C28. gcrane gc prints, for the repositories below the one it is given, manifests without tags only; if it ends without an error, it has
  printed all of them.
\<close>

theorem gc_untagged:
  assumes "NewRepository rootName [] = Inr repo" and "fair_order ord"
    and "\<forall>r s. fst (google_List C env dt [google_WithAuthFromKeychain kc] r s) = L r \<and>
           out (snd (google_List C env dt [google_WithAuthFromKeychain kc] r s)) = out s"
    and "\<forall>l s. out (print l s) = out s @ [l]"
  shows "\<exists>err s' lines. gcrane_gc C env dt kc print ord rootName True s = (err, s') \<and> out s' = out s @ lines \<and>
    (\<forall>l\<in>set lines. \<exists>x t d m. listed L repo x \<and> L x = Inr t \<and> (d, m) \<in> set (gt_Manifests t) \<and> gm_Tags m = [] \<and>
       l = Repository_Name x @ ''@'' @ d) \<and>
    (err = None \<longrightarrow> (\<forall>x t d m. listed L repo x \<and> L x = Inr t \<and> (d, m) \<in> set (gt_Manifests t) \<and> gm_Tags m = [] \<longrightarrow>
       Repository_Name x @ ''@'' @ d \<in> set lines))"
proof -
  have w: "\<forall>r t e s. out (snd (printUntaggedImages print ord r t e s)) = out s @ untagged_of ord (r, t, e)"
    using printUntaggedImages_out [OF assms(4)] by blast
  obtain err s' where g: "google_Walk C env dt [google_WithAuthFromKeychain kc] repo (printUntaggedImages print ord) s = (err, s')" by fastforce
  from Walk_good [OF assms(3) w, of repo s] g obtain vs where vs: "out s' = out s @ concat (map (untagged_of ord) vs)"
    "set vs \<subseteq> visits L repo" "err = None \<longrightarrow> set vs = visits L repo"
    by (auto simp: good_run_def)
  let ?lines = "concat (map (untagged_of ord) vs)"
  have "\<exists>x t d m. listed L repo x \<and> L x = Inr t \<and> (d, m) \<in> set (gt_Manifests t) \<and> gm_Tags m = [] \<and> l = Repository_Name x @ ''@'' @ d"
    if "l \<in> set ?lines" for l
  proof -
    from that obtain v where "v \<in> set vs" "l \<in> set (untagged_of ord v)" by auto
    moreover from this(1) vs(2) obtain x where "listed L repo x" "v = visit_of L x" unfolding visits_def by blast
    ultimately show ?thesis using untagged_visit [OF assms(2), of l L x] by blast
  qed
  moreover have "Repository_Name x @ ''@'' @ d \<in> set ?lines"
    if "err = None" "listed L repo x" "L x = Inr t" "(d, m) \<in> set (gt_Manifests t)" "gm_Tags m = []" for x t d m
  proof -
    from that vs(3) have "visit_of L x \<in> set vs" unfolding visits_def by blast
    moreover have "Repository_Name x @ ''@'' @ d \<in> set (untagged_of ord (visit_of L x))"
      using that untagged_visit [OF assms(2)] by blast
    ultimately show ?thesis by auto
  qed
  moreover have "gcrane_gc C env dt kc print ord rootName True s = (err, s')" by (simp add: gcrane_gc_def assms(1) g)
  ultimately show ?thesis using vs(1) by blast
qed

definition gc_demo_codec :: google_codec where
  "gc_demo_codec =
     \<lparr>gc_marshal_raw = (\<lambda>_. []),
      gc_decode_raw = (\<lambda>b. Inr \<lparr>rm_Size = '''', rm_MediaType = DockerManifestSchema2, rm_Created = '''', rm_Uploaded = '''',
                                 rm_Tags = (if b = ''tagged'' then [''v1''] else [])\<rparr>),
      gc_decode_tags = (\<lambda>b. Inr (if b = ''/v2/foo/tags/list''
        then \<lparr>rt_Children = [''bar''], rt_Manifests = [(''sha256:1'', ''tagged''), (''sha256:2'', ''plain'')], rt_Name = b, rt_Tags = [''v1'']\<rparr>
        else \<lparr>rt_Children = [], rt_Manifests = [(''sha256:3'', ''plain'')], rt_Name = b, rt_Tags = []\<rparr>))\<rparr>"

definition anyone :: keychain where
  "anyone = (\<lambda>_. Inr Anonymous)"

definition log_line :: "string \<Rightarrow> string list \<Rightarrow> string list" where
  "log_line l s = s @ [l]"

lemma anyone_List: "google_List C env (plain_server body) [google_WithAuthFromKeychain anyone] = google_List C env (plain_server body) []"
  by (intro ext) (simp add: google_List_def newLister_def google_WithAuthFromKeychain_def anyone_def)

lemma gcr_foo_parses: "NewRepository ''gcr.io/foo'' [] = Inr gcr_foo"
  unfolding gcr_foo_def by code_simp

theorem gc_untagged_witness:
  "\<exists>err s' lines. gcrane_gc gc_demo_codec any_env (plain_server (\<lambda>p. p)) anyone log_line rev ''gcr.io/foo'' True [] = (err, s') \<and> s' = [] @ lines \<and>
    (\<forall>l\<in>set lines. \<exists>x t d m. listed (plain_L gc_demo_codec) gcr_foo x \<and> plain_L gc_demo_codec x = Inr t \<and> (d, m) \<in> set (gt_Manifests t) \<and>
       gm_Tags m = [] \<and> l = Repository_Name x @ ''@'' @ d) \<and>
    (err = None \<longrightarrow> (\<forall>x t d m. listed (plain_L gc_demo_codec) gcr_foo x \<and> plain_L gc_demo_codec x = Inr t \<and> (d, m) \<in> set (gt_Manifests t) \<and>
       gm_Tags m = [] \<longrightarrow> Repository_Name x @ ''@'' @ d \<in> set lines))"
  by (rule gc_untagged [where out = "\<lambda>s. s", OF gcr_foo_parses])
    (simp_all add: fair_order_def anyone_List plain_List plain_L_def log_line_def)

text \<open>What it prints there.\<close>

lemma gc_run:
  "gcrane_gc gc_demo_codec any_env (plain_server (\<lambda>p. p)) anyone log_line rev ''gcr.io/foo'' True [] =
     (None, [''gcr.io/foo@sha256:2'', ''gcr.io/foo/bar@sha256:3''])"
proof -
  have l: "google_List gc_demo_codec any_env (plain_server (\<lambda>p. p)) [] = (\<lambda>r s. (plain_L gc_demo_codec r, s))"
    by (intro ext) (simp add: plain_List plain_L_def)
  have "is_ok (plain_L gc_demo_codec gcr_foo)" by code_simp
  then obtain t where t: "plain_L gc_demo_codec gcr_foo = Inr t" by (auto simp: is_ok_iff)
  have "google_walk (\<lambda>r s. (plain_L gc_demo_codec r, s)) gcr_foo
      (case plain_L gc_demo_codec gcr_foo of Inr t \<Rightarrow> Some t | Inl _ \<Rightarrow> None) (printUntaggedImages log_line rev) [] =
      (None, [''gcr.io/foo@sha256:2'', ''gcr.io/foo/bar@sha256:3''])" by code_simp
  then show ?thesis by (simp add: gcrane_gc_def gcr_foo_parses anyone_List google_Walk_def l t)
qed

section \<open>crane: the commands around one operation\<close>

text \<open>What a command has written to its output when it ends, and the error that it ends with.\<close>

type_synonym 's command = "'s \<Rightarrow> ((string \<times> go_error option) \<times> 's) option"

definition ended :: "('r \<Rightarrow> string) \<Rightarrow> 'r res \<times> 's \<Rightarrow> (string \<times> go_error option) \<times> 's" where
  "ended show = (\<lambda>(x, s). (case x of Inl e \<Rightarrow> ('''', Some e) | Inr y \<Rightarrow> (show y, None), s))"

definition println :: "string \<Rightarrow> string" where
  "println l = l @ newline"

definition printlns :: "string list \<Rightarrow> string" where
  "printlns ls = concat (map println ls)"

definition cmd_delete :: "'s crane_env \<Rightarrow> 's crane_option list \<Rightarrow> string \<Rightarrow> 's command" where
  "cmd_delete X options ref s =
     Some (ended (\<lambda>_. '''') (map_prod (wrap (''deleting '' @ ref)) id (crane_Delete X ref options s)))"

definition cmd_digest :: "'s crane_env \<Rightarrow> 's crane_option list \<Rightarrow> string \<Rightarrow> 's command" where
  "cmd_digest X options arg s = map_option (ended println) (wrap_run ''computing digest'' (crane_Digest X arg options s))"

definition cmd_list :: "'s crane_env \<Rightarrow> 's crane_option list \<Rightarrow> string \<Rightarrow> 's command" where
  "cmd_list X options repo s = map_option (ended printlns) (wrap_run (''reading tags for '' @ repo) (crane_ListTags X repo options s))"

definition cmd_catalog :: "'s crane_env \<Rightarrow> 's crane_option list \<Rightarrow> string \<Rightarrow> 's command" where
  "cmd_catalog X options reg s = map_option (ended printlns) (wrap_run (''reading repos for '' @ reg) (crane_Catalog X reg options s))"

definition cmd_manifest :: "'s crane_env \<Rightarrow> 's crane_option list \<Rightarrow> string \<Rightarrow> 's command" where
  "cmd_manifest X options src s = map_option (ended (\<lambda>b. b)) (wrap_run (''fetching manifest '' @ src) (crane_Manifest X src options s))"

definition cmd_config :: "'s crane_env \<Rightarrow> 's crane_option list \<Rightarrow> string \<Rightarrow> 's command" where
  "cmd_config X options arg s = map_option (ended (\<lambda>b. b)) (wrap_run ''fetching config'' (crane_Config X arg options s))"

definition cmd_copy :: "'s crane_env \<Rightarrow> 's crane_option list \<Rightarrow> string \<Rightarrow> string \<Rightarrow> 's command" where
  "cmd_copy X options src dst s = map_option (ended (\<lambda>_. '''')) (crane_Copy X src dst options s)"

definition cmd_tag :: "'s crane_env \<Rightarrow> 's crane_option list \<Rightarrow> string \<Rightarrow> string \<Rightarrow> 's command" where
  "cmd_tag X options img tg s = Some (ended (\<lambda>_. '''') (crane_Tag X img tg options s))"

definition cmd_push :: "'s crane_env \<Rightarrow> tarball_json \<Rightarrow> file_system \<Rightarrow> 's crane_option list \<Rightarrow> string \<Rightarrow> string \<Rightarrow> 's command" where
  "cmd_push X J fs options path tg s =
     (case wrap (''loading '' @ path @ '' as tarball'') (crane_Load (cr_codec X) J fs path) of
        Inl e \<Rightarrow> Some (('''', Some e), s)
      | Inr img \<Rightarrow>
          Some (ended (\<lambda>_. '''') (map_prod (wrap (''pushing '' @ tg)) id (crane_Push X (ordinary_image img) tg options s))))"

definition cmd_version :: "string \<Rightarrow> string" where
  "cmd_version Version = println (if Version = '''' then ''could not determine build information'' else Version)"

section \<open>crane: validate.go\<close>

text \<open>A pulled image, as its methods are right after it has been chosen.\<close>

definition pulled_push :: "'s crane_env \<Rightarrow> remote_image \<times> 's client \<Rightarrow> 's \<Rightarrow> push_image" where
  "pulled_push X = (\<lambda>(ri, c) s. pulled_image (ne_codec (cr_net X)) (cr_codec X) (client_transport X c) ri (snd c, s))"

definition pulled_value :: "'s crane_env \<Rightarrow> remote_image \<times> 's client \<Rightarrow> 's \<Rightarrow> image" where
  "pulled_value X rc s = pi_after (pulled_push X rc s)"

datatype maker = MakeTarball | MakePull

definition make_image ::
    "'s crane_env \<Rightarrow> tarball_json \<Rightarrow> file_system \<Rightarrow> 's crane_option list \<Rightarrow> maker \<Rightarrow> string \<Rightarrow> 's \<Rightarrow> (image res \<times> 's) option" where
  "make_image X J fs options mk flag s =
     (case mk of
        MakeTarball \<Rightarrow> Some (ImageFromPath (cr_codec X) J fs flag None, s)
      | MakePull \<Rightarrow> map_option (\<lambda>(r, s1). (bnd r (\<lambda>rc. Inr (pulled_value X rc s1)), s1)) (crane_Pull X flag options s))"

text \<open>The flags are the keys of a map: the second of two equal ones replaces the first.\<close>

definition validate_flags :: "string \<Rightarrow> string \<Rightarrow> (string \<times> maker) list" where
  "validate_flags tarballPath remoteRef = AList.update remoteRef MakePull [(tarballPath, MakeTarball)]"

fun validate_loop ::
    "'s crane_env \<Rightarrow> (go_error \<Rightarrow> string) \<Rightarrow> tarball_json \<Rightarrow> file_system \<Rightarrow> 's crane_option list \<Rightarrow> (string \<times> maker) list \<Rightarrow> string \<Rightarrow> 's command" where
  "validate_loop X show_err J fs options [] out s = Some ((out, None), s)"
| "validate_loop X show_err J fs options ((flag, mk) # rest) out s =
     (if flag = '''' then validate_loop X show_err J fs options rest out s
      else
        (case make_image X J fs options mk flag s of
           None \<Rightarrow> None
         | Some (Inl e, s1) \<Rightarrow> Some ((out, Some (ErrMsg (''failed to read image '' @ flag))), s1)
         | Some (Inr img, s1) \<Rightarrow>
             validate_loop X show_err J fs options rest
               (out @ println (case validate_Image (cr_codec X) img of
                                 Inl e \<Rightarrow> ''FAIL: '' @ flag @ '': '' @ show_err e | Inr _ \<Rightarrow> ''PASS: '' @ flag)) s1))"

definition cmd_validate ::
    "'s crane_env \<Rightarrow> (go_error \<Rightarrow> string) \<Rightarrow> tarball_json \<Rightarrow> file_system \<Rightarrow> ((string \<times> maker) list \<Rightarrow> (string \<times> maker) list) \<Rightarrow> 's crane_option list \<Rightarrow> string \<Rightarrow> string \<Rightarrow>
     's command" where
  "cmd_validate X show_err J fs ord options tarballPath remoteRef s =
     validate_loop X show_err J fs options (ord (validate_flags tarballPath remoteRef)) '''' s"

lemma two_orders:
  assumes "mset xs = {#a, b#}"
  shows "xs = [a, b] \<or> xs = [b, a]"
proof -
  from assms have "length xs = 2" by (metis size_mset size_add_mset size_empty numeral_2_eq_2)
  then obtain x y where "xs = [x, y]" by (auto simp: length_Suc_conv numeral_2_eq_2)
  with assms show ?thesis by (auto simp: add_eq_conv_ex)
qed

text \<open>An archive alone is validated; one that has the name of the remote image beside it is passed over.\<close>

lemma validate_tarball:
  assumes "fair_order ord" and "path \<noteq> ''''" and "ImageFromPath (cr_codec X) J fs path None = Inr img"
  shows "cmd_validate X show_err J fs ord options path '''' s =
    Some ((println (case validate_Image (cr_codec X) img of Inl e \<Rightarrow> ''FAIL: '' @ path @ '': '' @ show_err e | Inr _ \<Rightarrow> ''PASS: '' @ path), None), s)"
proof -
  have "ord [(path, MakeTarball), ('''', MakePull)] = [(path, MakeTarball), ('''', MakePull)] \<or>
      ord [(path, MakeTarball), ('''', MakePull)] = [('''', MakePull), (path, MakeTarball)]"
    by (rule two_orders) (use assms(1) in \<open>simp add: fair_order_def\<close>)
  then show ?thesis using assms(2,3)
    by (auto simp: cmd_validate_def validate_flags_def make_image_def is_ok_iff)
qed

lemma validate_same_flags: "validate_flags x x = [(x, MakePull)]"
  by (simp add: validate_flags_def)

section \<open>crane: auth.go\<close>

definition is_space :: "char \<Rightarrow> bool" where
  "is_space c \<longleftrightarrow> c \<in> {CHR 0x09, CHR 0x0a, CHR 0x0b, CHR 0x0c, CHR 0x0d, CHR '' ''}"

text \<open>strings.TrimSpace, on ASCII text, and strings.TrimSuffix\<close>

definition TrimSpace :: "string \<Rightarrow> string" where
  "TrimSpace s = rev (dropWhile is_space (rev (dropWhile is_space s)))"

definition TrimSuffix :: "string \<Rightarrow> string \<Rightarrow> string" where
  "TrimSuffix s suf = (if suffix suf s then take (length s - length suf) s else s)"

definition auth_get :: "(string \<Rightarrow> auth_config res) res \<Rightarrow> (auth_config \<Rightarrow> bytes res) \<Rightarrow> bytes res \<Rightarrow> bytes res" where
  "auth_get load marshal_auth stdin =
     bnd stdin (\<lambda>b.
     bnd (NewRegistry (TrimSpace b) []) (\<lambda>reg.
     bnd (defaultKeychain_Resolve load (RegistryStr reg)) (\<lambda>authorizer.
     bnd (Authorization authorizer) marshal_auth)))"

text \<open>
  The docker config file, of a third-party package: the store of credentials for a server, and the saving of the file.
\<close>

record login_options =
  lo_serverAddress :: string
  lo_user :: string
  lo_password :: string
  lo_passwordStdin :: bool

record 'w docker_config =
  df_Store :: "string \<Rightarrow> string \<Rightarrow> auth_config \<Rightarrow> 'w \<Rightarrow> unit res \<times> 'w"
  df_Save :: "'w \<Rightarrow> unit res \<times> 'w"

definition login_password :: "login_options \<Rightarrow> bytes res \<Rightarrow> login_options res" where
  "login_password opts stdin =
     (if lo_passwordStdin opts then
        bnd stdin (\<lambda>contents. Inr (opts\<lparr>lo_password := TrimSuffix (TrimSuffix contents [CHR 0x0a]) [CHR 0x0d]\<rparr>))
      else Inr opts)"

definition login :: "'w docker_config res \<Rightarrow> login_options \<Rightarrow> bytes res \<Rightarrow> 'w \<Rightarrow> unit res \<times> 'w" where
  "login load opts stdin w =
     (case login_password opts stdin of
        Inl e \<Rightarrow> (Inl e, w)
      | Inr opts \<Rightarrow>
          if lo_user opts = '''' \<and> lo_password opts = '''' then (Inl (ErrMsg ''username and password required''), w)
          else
            (case load of
               Inl e \<Rightarrow> (Inl e, w)
             | Inr cf \<Rightarrow>
                 (let server = (if lo_serverAddress opts = DefaultRegistry then DefaultAuthKey else lo_serverAddress opts) in
                  case df_Store cf (lo_serverAddress opts) server (no_auth\<lparr>ac_Username := lo_user opts, ac_Password := lo_password opts\<rparr>) w of
                    (Inl e, w1) \<Rightarrow> (Inl e, w1)
                  | (Inr _, w1) \<Rightarrow> df_Save cf w1)))"

definition cmd_login :: "'w docker_config res \<Rightarrow> login_options \<Rightarrow> bytes res \<Rightarrow> string \<Rightarrow> 'w \<Rightarrow> unit res \<times> 'w" where
  "cmd_login load opts stdin arg w =
     (case NewRegistry arg [] of
        Inl e \<Rightarrow> (Inl e, w)
      | Inr reg \<Rightarrow> login load (opts\<lparr>lo_serverAddress := RegistryStr reg\<rparr>) stdin w)"

text \<open>A user or a password is enough: the check asks for both only when both are missing.\<close>

lemma login_without_password:
  assumes "lo_user opts \<noteq> ''''" and "lo_password opts = ''''" and "\<not> lo_passwordStdin opts" and "load = Inr cf"
    and "df_Store cf (lo_serverAddress opts) (if lo_serverAddress opts = DefaultRegistry then DefaultAuthKey else lo_serverAddress opts)
           (no_auth\<lparr>ac_Username := lo_user opts, ac_Password := ''''\<rparr>) w = (Inr (), w1)"
  shows "login load opts stdin w = df_Save cf w1"
  using assms by (simp add: login_def login_password_def Let_def)

text \<open>
  What login stores is what the default keychain finds afterwards: both use the same key for a registry, the old one for Docker Hub.  The
  config file is a map from keys here.
\<close>

definition map_config :: "(string \<rightharpoonup> auth_config) docker_config" where
  "map_config = \<lparr>df_Store = (\<lambda>store key auth m. (Inr (), m(key \<mapsto> auth))), df_Save = (\<lambda>m. (Inr (), m))\<rparr>"

definition map_load :: "(string \<rightharpoonup> auth_config) \<Rightarrow> (string \<Rightarrow> auth_config res) res" where
  "map_load m = Inr (\<lambda>key. Inr (case m key of Some a \<Rightarrow> a | None \<Rightarrow> no_auth))"

lemma login_resolves:
  assumes "\<not> lo_passwordStdin opts" and "lo_user opts \<noteq> '''' \<or> lo_password opts \<noteq> ''''"
    and "login (Inr map_config) opts stdin m = (r, m')"
  shows "r = Inr () \<and>
    defaultKeychain_Resolve (map_load m') (lo_serverAddress opts) =
      Inr (FromConfig (no_auth\<lparr>ac_Username := lo_user opts, ac_Password := lo_password opts\<rparr>)) \<and>
    (\<forall>key. key \<notin> {lo_serverAddress opts, DefaultAuthKey} \<longrightarrow> m' key = m key)"
  using assms
  by (auto simp: login_def login_password_def map_config_def Let_def map_load_def defaultKeychain_Resolve_def no_auth_def split: if_splits)

text \<open>The password on the standard input may end in a line end of either kind.\<close>

lemma login_stdin_line_end:
  assumes "pw = [] \<or> last pw \<noteq> CHR 0x0d" "pw = [] \<or> last pw \<noteq> CHR 0x0a" "lo_passwordStdin opts" "e \<in> {[], [CHR 0x0a], [CHR 0x0d, CHR 0x0a]}"
  shows "login_password opts (Inr (pw @ e)) = Inr (opts\<lparr>lo_password := pw\<rparr>)"
  using assms
  by (auto simp: login_password_def TrimSuffix_def suffix_def)

section \<open>crane: pull.go\<close>

text \<open>Without a cache path.\<close>

definition saving :: "string \<Rightarrow> string \<Rightarrow> go_error option \<times> file_system \<Rightarrow> go_error option \<times> file_system" where
  "saving what path r =
     (case r of
        (Some (Panic p), fs) \<Rightarrow> (Some (Panic p), fs)
      | (Some _, fs) \<Rightarrow> (Some (ErrMsg (''saving '' @ what @ '' '' @ path)), fs)
      | (None, fs) \<Rightarrow> (None, fs))"

definition save_pulled ::
    "'s crane_env \<Rightarrow> tarball_json \<Rightarrow> legacy_json \<Rightarrow> (index_manifest \<Rightarrow> bytes) \<Rightarrow> (layer list \<Rightarrow> layer list) \<Rightarrow> map_order \<times> map_order \<times> map_order \<Rightarrow>
     string \<Rightarrow> image \<Rightarrow> string \<Rightarrow> string \<Rightarrow> file_system \<Rightarrow> go_error option \<times> file_system" where
  "save_pulled X J LJ indent sched ords fmt img src path fs =
     (case ords of (ord1, ord2, ord3) \<Rightarrow>
        if fmt = ''tarball'' then saving ''tarball'' path (crane_Save (cr_codec X) J ord1 ord2 ord3 img src path fs)
        else if fmt = ''legacy'' then saving ''legacy tarball'' path (crane_SaveLegacy (cr_codec X) J LJ ord1 img src path fs)
        else if fmt = ''oci'' then saving ''oci image layout'' path (crane_SaveOCI (cr_codec X) indent sched img path fs)
        else (Some (ErrMsg (''unexpected --format: '' @ quoted fmt @ '' (valid values are: tarball, legacy, and oci)'')), fs))"

definition cmd_pull ::
    "'s crane_env \<Rightarrow> tarball_json \<Rightarrow> legacy_json \<Rightarrow> (index_manifest \<Rightarrow> bytes) \<Rightarrow> (layer list \<Rightarrow> layer list) \<Rightarrow> map_order \<times> map_order \<times> map_order \<Rightarrow>
     string \<Rightarrow> 's crane_option list \<Rightarrow> string \<Rightarrow> string \<Rightarrow> file_system \<times> 's \<Rightarrow> (go_error option \<times> file_system \<times> 's) option" where
  "cmd_pull X J LJ indent sched ords fmt options src path st =
     (case st of (fs, s) \<Rightarrow>
        map_option (\<lambda>(r, s1).
            (case r of
               Inl e \<Rightarrow> (Some e, fs, s1)
             | Inr rc \<Rightarrow> (case save_pulled X J LJ indent sched ords fmt (pulled_value X rc s1) src path fs of (e, fs1) \<Rightarrow> (e, fs1, s1))))
          (crane_Pull X src options s))"

section \<open>gcrane: copy.go\<close>

definition cmd_gcrane_copy :: "'s gcrane_env \<Rightarrow> int \<Rightarrow> int option \<Rightarrow> bool \<Rightarrow> string \<Rightarrow> string \<Rightarrow> 's \<Rightarrow> (go_error option \<times> 's) option" where
  "cmd_gcrane_copy G gomaxprocs jobs recursive src dst s =
     (if recursive then CopyRepository G gomaxprocs src dst [gcrane_WithJobs (case jobs of Some j \<Rightarrow> j | None \<Rightarrow> gomaxprocs)] s
      else map_option unit_err (gcrane_Copy G src dst s))"

section \<open>crane: export.go, blob.go\<close>

text \<open>The file is created before the image is pulled.\<close>

definition cmd_export :: "'s crane_env \<Rightarrow> 's crane_option list \<Rightarrow> string \<Rightarrow> string \<Rightarrow> (file_system \<times> 's) command" where
  "cmd_export X options src dst st =
     (case st of (fs, s) \<Rightarrow>
        (case (if dst = ''-'' then (None, fs) else os_Create fs dst) of
           (Some _, fs1) \<Rightarrow> Some (('''', Some (ErrMsg (''failed to open '' @ dst))), fs1, s)
         | (None, fs1) \<Rightarrow>
             map_option (\<lambda>(r, s1).
                 (case r of
                    Inl e \<Rightarrow> (('''', Some e), fs1, s1)
                  | Inr rc \<Rightarrow>
                      (case crane_Export (cr_codec X) (pulled_value X rc s1) of
                         Inl _ \<Rightarrow> (('''', Some (ErrMsg (''exporting '' @ src))), fs1, s1)
                       | Inr b \<Rightarrow>
                           if dst = ''-'' then ((b, None), fs1, s1)
                           else (case os_WriteFile fs1 dst b of
                                   (Some _, fs2) \<Rightarrow> (('''', Some (ErrMsg (''exporting '' @ src))), fs2, s1)
                                 | (None, fs2) \<Rightarrow> (('''', None), fs2, s1)))))
               (crane_Pull X src options s)))"

definition cmd_blob :: "'s crane_env \<Rightarrow> 's crane_option list \<Rightarrow> string \<Rightarrow> 's command" where
  "cmd_blob X options src s =
     (case NewDigest src (co_name (crane_makeOptions X options)) of
        Inl _ \<Rightarrow> Some (('''', Some (ErrMsg (''pulling layer '' @ src))), s)
      | Inr d \<Rightarrow>
          (case crane_PullLayer X src options s of
             (Inl _, s1) \<Rightarrow> Some (('''', Some (ErrMsg (''pulling layer '' @ src))), s1)
           | (Inr (h, c), s1) \<Rightarrow>
               (case fetchBlob (ne_codec (cr_net X)) (client_transport X c) (RefDigest d) h (snd c, s1) of
                  (Inl _, _, s2) \<Rightarrow> Some (('''', Some (ErrMsg (''fetching blob '' @ src))), s2)
                | (Inr blob, _, s2) \<Rightarrow>
                    (case ReadAll blob of
                       (b, Some _) \<Rightarrow> Some ((b, Some (ErrMsg (''copying blob '' @ src))), s2)
                     | (b, None) \<Rightarrow> Some ((b, None), s2)))))"

section \<open>crane: append.go, rebase.go\<close>

text \<open>
  The layers of a mutated image are those of its addenda and those of its base, found by their diff ids; each of them can be mounted from
  the repository that it was pulled from, if it was.
\<close>

definition mutated_push :: "image \<Rightarrow> (v1_hash \<Rightarrow> reference option) \<Rightarrow> push_image" where
  "mutated_push img source =
     \<lparr>pi_Layers = bnd (i_Layers img) (\<lambda>ls.
        Inr (map (\<lambda>l. ordinary_layer (case l_DiffID l of Inr h \<Rightarrow> source h | Inl _ \<Rightarrow> None) l) ls)),
      pi_before = img, pi_after = img\<rparr>"

definition diff_ids :: "layer list \<Rightarrow> v1_hash list" where
  "diff_ids ls = List.map_filter (\<lambda>l. case l_DiffID l of Inr h \<Rightarrow> Some h | Inl _ \<Rightarrow> None) ls"

text \<open>Of the paths of new layers none is a pipe: a layer that is streamed is not pushed as it was appended.\<close>

definition cmd_append ::
    "'s crane_env \<Rightarrow> gzip_writer \<Rightarrow> (string \<Rightarrow> path_kind res) \<Rightarrow> tarball_json \<Rightarrow> map_order \<times> map_order \<times> map_order \<Rightarrow> 's crane_option list \<Rightarrow>
     string \<Rightarrow> string \<Rightarrow> string list \<Rightarrow> string \<Rightarrow> file_system \<times> 's \<Rightarrow> (go_error option \<times> file_system \<times> 's) option" where
  "cmd_append X gz files J ords options baseRef newTag newLayers outFile st =
     (case st of (fs, s) \<Rightarrow>
        (case (if baseRef = '''' then Some (Inr (empty_Image (cr_codec X), None), s)
               else map_option (\<lambda>(r, s1). (wrap (''pulling '' @ baseRef) (bnd r (\<lambda>rc. Inr (pulled_value X rc s1, Some (ri_Ref (fst rc))))), s1))
                      (crane_Pull X baseRef options s)) of
           None \<Rightarrow> None
         | Some (Inl e, s1) \<Rightarrow> Some (Some e, fs, s1)
         | Some (Inr (base, ref), s1) \<Rightarrow>
             (case crane_Append (cr_codec X) gz files base newLayers of
                Inl _ \<Rightarrow> Some (Some (ErrMsg ''appending''), fs, s1)
              | Inr img \<Rightarrow>
                  if outFile \<noteq> '''' then
                    (case ords of (ord1, ord2, ord3) \<Rightarrow>
                       (case crane_Save (cr_codec X) J ord1 ord2 ord3 img newTag outFile fs of
                          (Some _, fs1) \<Rightarrow> Some (Some (ErrMsg (''writing output '' @ quoted outFile)), fs1, s1)
                        | (None, fs1) \<Rightarrow> Some (None, fs1, s1)))
                  else
                    (let own = diff_ids (List.map_filter (\<lambda>p. case crane_getLayer (cr_codec X) gz files p of Inr l \<Rightarrow> Some l | Inl _ \<Rightarrow> None) newLayers) in
                     case crane_Push X (mutated_push img (\<lambda>h. if h \<in> set own then None else ref)) newTag options s1 of
                       (Inl _, s2) \<Rightarrow> Some (Some (ErrMsg (''pushing image '' @ newTag)), fs, s2)
                     | (Inr _, s2) \<Rightarrow> Some (None, fs, s2)))))"

text \<open>The three images are pulled one after the other; their methods are called when all of them have been pulled.\<close>

definition pull_for ::
    "'s crane_env \<Rightarrow> 's crane_option list \<Rightarrow> string \<Rightarrow> 's \<Rightarrow> ((remote_image \<times> 's client) res \<times> 's) option" where
  "pull_for X options r s = wrap_run (''pulling '' @ r) (crane_Pull X r options s)"

definition rebase_pulled ::
    "'s crane_env \<Rightarrow> 's crane_option list \<Rightarrow> string \<Rightarrow> remote_image \<times> 's client \<Rightarrow> remote_image \<times> 's client \<Rightarrow> remote_image \<times> 's client \<Rightarrow> 's \<Rightarrow>
     (string \<times> go_error option) \<times> 's" where
  "rebase_pulled X options rebased orig oldBase newBase s =
     (let o' = pulled_value X orig s; b = pulled_value X oldBase s; n = pulled_value X newBase s in
      case Rebase (cr_codec X) o' b n of
        Inl _ \<Rightarrow> (('''', Some (ErrMsg ''rebasing'')), s)
      | Inr img \<Rightarrow>
          (let upper = (case bnd (i_ConfigFile b) (\<lambda>oldConfig. bnd (i_ConfigFile o') (\<lambda>origConfig. bnd (i_Layers b) (\<lambda>oldLayers.
                         bnd (i_Layers o') (\<lambda>origLayers.
                         createAddendums (length (cf_History oldConfig)) (length oldLayers + 1) (cf_History origConfig) origLayers)))) of
                       Inr adds \<Rightarrow> diff_ids (add_layers adds) | Inl _ \<Rightarrow> []) in
           case crane_Push X (mutated_push img (\<lambda>h. Some (ri_Ref (fst (if h \<in> set upper then orig else newBase))))) rebased options s of
             (Inl _, s1) \<Rightarrow> (('''', Some (ErrMsg (''pushing '' @ rebased))), s1)
           | (Inr _, s1) \<Rightarrow>
               (case i_Digest img of
                  Inl _ \<Rightarrow> (('''', Some (ErrMsg ''digesting rebased'')), s1)
                | Inr digest \<Rightarrow> ((println (Hash_String digest), None), s1))))"

definition cmd_rebase :: "'s crane_env \<Rightarrow> 's crane_option list \<Rightarrow> string \<Rightarrow> string \<Rightarrow> string \<Rightarrow> string \<Rightarrow> 's command" where
  "cmd_rebase X options orig oldBase newBase rebased s =
     (case pull_for X options orig s of
        None \<Rightarrow> None
      | Some (Inl e, s1) \<Rightarrow> Some (('''', Some e), s1)
      | Some (Inr origImg, s1) \<Rightarrow>
          (case pull_for X options oldBase s1 of
             None \<Rightarrow> None
           | Some (Inl e, s2) \<Rightarrow> Some (('''', Some e), s2)
           | Some (Inr oldBaseImg, s2) \<Rightarrow>
               (case pull_for X options newBase s2 of
                  None \<Rightarrow> None
                | Some (Inl e, s3) \<Rightarrow> Some (('''', Some e), s3)
                | Some (Inr newBaseImg, s3) \<Rightarrow> Some (rebase_pulled X options rebased origImg oldBaseImg newBaseImg s3))))"

text \<open>Nothing is pushed when the images cannot be pulled or the original is not based on the old base.\<close>

lemma rebase_pushes_nothing:
  assumes "Rebase (cr_codec X) (pulled_value X orig s) (pulled_value X oldBase s) (pulled_value X newBase s) = Inl e"
  shows "rebase_pulled X options rebased orig oldBase newBase s = (('''', Some (ErrMsg ''rebasing'')), s)"
  using assms by (simp add: rebase_pulled_def Let_def)

text \<open>When the pull fails, export leaves the file that it has created, empty.\<close>

lemma export_leaves_empty_file:
  assumes "dst \<noteq> ''-''" and "os_Create fs dst = (None, fs1)" and "crane_Pull X src options s = Some (Inl e, s1)"
  shows "cmd_export X options src dst (fs, s) = Some (('''', Some e), fs1, s1)"
  using assms by (simp add: cmd_export_def)

section \<open>The commands of the programs: root.go, gcrane/main.go\<close>

text \<open>A command with the text that says how it is used.\<close>

datatype program_command = CraneCommand string | GcraneCommand string

fun command_use :: "program_command \<Rightarrow> string" where
  "command_use (CraneCommand u) = u"
| "command_use (GcraneCommand u) = u"

definition crane_commands :: "program_command list" where
  "crane_commands = map CraneCommand
     [''append'', ''blob BLOB'', ''auth'', ''catalog'', ''config IMAGE'', ''copy SRC DST'', ''delete IMAGE'', ''digest IMAGE'',
      ''export IMAGE TARBALL'', ''ls REPO'', ''manifest IMAGE'', ''pull IMAGE TARBALL'', ''push TARBALL IMAGE'', ''rebase'',
      ''tag IMG TAG'', ''validate'', ''version'']"

definition gcrane_own_commands :: "program_command list" where
  "gcrane_own_commands = map GcraneCommand [''ls REPO'', ''gc'', ''copy SRC DST'']"

text \<open>The commands of crane with the usage of one of its own are removed before these are added.\<close>

definition gcrane_commands :: "program_command list \<Rightarrow> program_command list \<Rightarrow> program_command list" where
  "gcrane_commands own rootCommands =
     (let used = map command_use own in filter (\<lambda>c. command_use c \<notin> set used) rootCommands @ own)"

text \<open>
  Every command is there once, by its name, which is the first word of its usage; ls, gc and copy are those of gcrane.
\<close>

lemma gcrane_overrides:
  "distinct (map (\<lambda>c. takeWhile (\<lambda>x. x \<noteq> CHR '' '') (command_use c)) (gcrane_commands gcrane_own_commands crane_commands))"
  "length (gcrane_commands gcrane_own_commands crane_commands) = 18"
  "set gcrane_own_commands \<subseteq> set (gcrane_commands gcrane_own_commands crane_commands)"
  by code_simp+

text \<open>This rests on the usages being the same texts, not the names: with another usage of copy both would be there.\<close>

lemma gcrane_overrides_by_usage:
  "\<not> distinct (map (\<lambda>c. takeWhile (\<lambda>x. x \<noteq> CHR '' '') (command_use c)) (gcrane_commands [GcraneCommand ''copy SRC''] crane_commands))"
  by code_simp

end
