(* ===== verification/Spec2Isabelle.thy ===== *)
theory Spec2Isabelle
  imports Name_Ref V1_Data V1_Image Validate Tarball_Layer Mutate Mutate_Extract Mutate_Index Registry_Server
    Retry Transport_Error Transport Transport_Safety Remote_Write Registry_Pull Remote_Pages Registry_Multi Layout_Store Stream_Runs Cache_Laws Tarball_Size Google_Auth Google_Walk Crane_Copy Crane_Files Gcrane Legacy_Tarball
    Transport_Wrappers Random_Images Compare Daemon K8schain Commands
begin

text \<open>
  A model of go-containerregistry, a library that reads, changes, validates, pushes and pulls container
  images, with an in-memory registry.  Paths below are relative to the repository.

  The parts and how they interact.  References (pkg/name) name manifests in repositories of registries.
  Images, layers and indexes (pkg/v1) are interfaces; pkg/v1/partial completes partial implementations of
  them, and the other packages implement them: pkg/v1/empty, pkg/v1/tarball (layers from files and archives),
  pkg/v1/stream (a layer that is read once), pkg/v1/mutate (changed images and indexes), pkg/v1/layout
  (images in a directory), pkg/v1/cache (images whose layers come from a cache) and pkg/v1/remote (images
  of a registry).  pkg/v1/validate checks them, and pkg/crane, pkg/gcrane, pkg/v1/google and pkg/legacy put
  them together into operations such as copying an image or a tree of repositories.  pkg/v1/remote talks to a registry through a chain of
  transports (pkg/v1/remote/transport, pkg/internal/retry, pkg/authn), and pkg/registry is a registry that
  can answer.  Registry_Network puts the two together, so that pushing and pulling are proved over the
  client and the server as they are, through their requests and responses.

  How the code is modelled.  A Go string and a []byte are lists of bytes.  A call that may fail returns
  go_error + 'a, and bnd is the idiom "if err != nil { return err }"; a run-time panic is an error of its own.
  An object behind an interface is a record of the results of its methods; a struct with fields that change is
  a record that is passed and returned, and an operation on the world (a transport, a network, a tree of files)
  is a function from its state to a result and the next state.  What the repository takes from elsewhere is an
  argument: encoding/json on its documents, compress/gzip and archive/tar are the record codec (V1_Data),
  with the laws that a theorem needs as its hypotheses; random numbers, the order of a range over a Go map and
  the order in which goroutines run are arguments too, arbitrary except for being permutations.  The parts of
  the standard library that are called on strings, paths, URLs, headers and files are defined, and so is
  SHA-256.

  Library: Go_Prelude (errors, loops, strings, decimal text, goroutines), Go_Path (path.Clean and Join),
  Go_Utf8, Go_Url (net/url), Go_Sha256, Go_Http (requests, responses and headers), Go_Net (clients and
  transports), Go_Files (files in a tree).  Content_Store holds the interfaces of stores that are addressed by
  content (blob_store, content_store, append_store), which the registry's blobs and the blobs of a layout
  interpret; Image_Copies says when what serves a manifest, a config file and contents is a copy of an image.

  Name_Ref (pkg/name): constructors and accessors of references in the order of registry.go, repository.go,
  tag.go, digest.go and ref.go.  C20, C21: canonical names parse
  back to the same reference, equal names mean equal references; lemmas: strict parsing is a restriction of weak
  parsing, checkElement accepts what it should.

  V1_Data, V1_Image (pkg/v1, types, match, partial, v1util, empty): hashes, media types, platforms, manifests
  and config files, and images, layers and indexes with the helpers that complete them.  wf_layer, coherent
  and their lemmas say what the rest relies on: digests and sizes are those of the contents, and config file,
  manifest and layers agree.  C38; lemma VerifyReadCloser_spec: verified readers.  Validate
  (pkg/v1/validate), C15 to C17: exactly what the three checks accept.
  Tarball_Layer (pkg/v1/tarball/layer.go): layers made from bytes and files.

  Mutate, Mutate_Extract, Mutate_Index (pkg/v1/mutate): the record mimage is the struct image, whose fields
  compute fills; mindex is the struct index.  C7, C31: a mutated image is coherent, what
  Append computes; lemmas: methods do not depend on when compute ran, layerTime.  C18,
  C19: extract writes a flattened file system and honours whiteouts.  C33 and
  C34.

  Registry_Server (pkg/registry): blobs_handle, manifests_handle and registry_v2 are the handlers, on the state
  of the maps behind their locks.  C4, C24, C25: content addressing in
  every reachable state, uploads in pieces, and manifests.

  Retry (pkg/internal/retry), C36; the backoff calls its condition at most Steps times, which bounds the loop.
  Transport_Error, Transport, Transport_Wrappers, Transport_Safety (pkg/v1/remote/transport, pkg/internal/redact, pkg/authn): which responses are
  errors and what their text shows, what a refresh does; C9, which scheme a session uses;
  C8, where credentials and tokens are sent.

  Remote_Write, Remote_Multi (writing), Remote_Read, Remote_Pages (reading and listing), with Registry_Client
  (what the registry answers to the requests of the client), Registry_Network (clients and registries),
  Registry_Push, Registry_Pull, Registry_Multi, Pull_Safety.  C5: Write leaves the registry with the image;
  C3: what is pulled by digest is verified whatever the transport answers; C1: an image that was pushed is
  pulled again; C30: listing goes through all pages, and does not return just when every page links to
  another, so the loop is a partial_function; C6: MultiWrite succeeds in every order of maps and workers.

  Layout, Layout_Store (pkg/v1/layout), C11 and C12: writing an image refines adding blobs to a map, and an
  appended image is read back.  Stream_Layer, Stream_Runs (pkg/v1/stream): the layer, its goroutine and its
  consumer as the step relation stream_step; C13, C14: what the methods say at every moment, and that every
  run ends.  Cache, Cache_Laws (pkg/v1/cache): the interface lazy_cache is what a cached image relies on, and
  the file system cache and the read-only cache interpret it; C22, C23.  Tarball_Image, Tarball_Write,
  Tarball_Archive, Tarball_Size (pkg/v1/tarball): archives of docker save; C10: what is written is read back
  by its tags; C37: the announced size.
  Legacy_Tarball (pkg/legacy): the older format, C29.

  Google_List, Google_Walk, Google_Auth (pkg/v1/google): listing, google_walk, which goes through the repositories
  below one, and the keychain.  C27: the walk ends, because the names of children get longer and checked names
  are bounded, and visits what is listed; lemma ManifestInfo_json; C39.  Crane, Crane_Copy, Crane_Files (pkg/crane,
  pkg/internal/legacy): one definition per function of the package, over the client and its options.
  C2 puts the client, the registry and the remote image together; C35.  Gcrane (pkg/gcrane):
  the walk queues tasks, workers do them; C26 on the abstract contents of repositories,
  C40.

  Commands (cmd/crane, cmd/gcrane): what the commands do around the packages, as functions that print and end with an error or without
  one.  C28: gc prints manifests without tags only.  Daemon (pkg/v1/daemon), over a client of the docker daemon;
  lemma daemon_round_trip.  K8schain (pkg/authn/k8schain), over the client and the keyring of Kubernetes; lemma
  k8schain_resolves.  Random_Images (pkg/v1/random), C32: random images are valid.  Compare
  (pkg/internal/compare); lemmas: what is accepted is an equivalence relation, which coherent images of one manifest are in.

  Findings are lemmas beside the code that they are about; they are listed in the manifest.

  Not modelled.  Contexts are never cancelled; TLS and file permissions are left out; two goroutines
  take turns at the granularity of the operations that take a lock.  In
  Gcrane the walk ends before the workers start.  Generated code (deep copies, fakes), the server for tests of
  pkg/internal/httptest and the main functions are not modelled; of the commands, the cache path of pull
  and new layers of append that are pipes are not.  What docker, Kubernetes and the docker config file do is an argument.
\<close>

end
